(* ===== verification/Otl_Prelude.thy ===== *)
theory Otl_Prelude
  imports Main "HOL-Library.Word" "HOL-Library.AList" "HOL-Library.List_Lexorder"
    "HOL-Library.Char_ord" "HOL-Library.Monad_Syntax" "HOL-Library.Multiset"
begin

text \<open>
  What every component theory shares: the Go types of the program (bytes, unsigned
  integers of a width, instants), Go run-time panics as \<open>None\<close>, checked indexing and
  slicing, the byte-order readers of encoding/binary, decimal and hexadecimal printing as
  fmt does it, the pieces of package strings that the program calls, Go maps as association
  lists without repeated keys, histories that keep the most recent entries, and the generic
  lemmas on them.

  Instants are integers of nanoseconds counted from Go's zero time, so that
  \<open>time.Time{}\<close> is \<open>0\<close> and \<open>IsZero\<close> is the comparison with \<open>0\<close>.  Go strings are
  byte sequences and become \<open>string\<close>, a list of 8-bit characters; the comparison of strings
  is the bytewise lexicographic one in both.
\<close>

unbundle bit_operations_syntax

named_theorems gomap_simps \<open>rewrite rules for Go maps as association lists\<close>
named_theorems go_checked \<open>checked reads: their success conditions\<close>

section \<open>Types\<close>

type_synonym u8 = "8 word"
type_synonym u16 = "16 word"
type_synonym u32 = "32 word"
type_synonym u64 = "64 word"
type_synonym bytes = "u8 list"
type_synonym time = int
type_synonym duration = int

text \<open>A computation that may end in a run-time panic: \<open>None\<close> is the panic.\<close>

type_synonym 'a go = "'a option"

abbreviation go_panic :: "'a go" where "go_panic \<equiv> None"
abbreviation go_ret :: "'a \<Rightarrow> 'a go" where "go_ret \<equiv> Some"

section \<open>Instants and durations\<close>

definition is_zero_time :: "time \<Rightarrow> bool" where
  "is_zero_time t \<longleftrightarrow> t = 0"

text \<open>\<open>t.Sub(u)\<close> saturates at the ends of the 64-bit range of \<open>time.Duration\<close>.\<close>

definition time_sub :: "time \<Rightarrow> time \<Rightarrow> duration" where
  "time_sub t u = max (- (2 ^ 63)) (min (2 ^ 63 - 1) (t - u))"

definition nanosecond :: duration where "nanosecond = 1"
definition millisecond :: duration where "millisecond = 1000000"
definition second :: duration where "second = 1000000000"
definition minute :: duration where "minute = 60 * second"

lemma time_sub_le_iff [simp]:
  "- (2 ^ 63) \<le> d \<Longrightarrow> d < 2 ^ 63 - 1 \<Longrightarrow> time_sub t u \<le> d \<longleftrightarrow> t - u \<le> d"
  by (auto simp: time_sub_def)

lemma time_sub_less_iff [simp]:
  "- (2 ^ 63) < d \<Longrightarrow> d \<le> 2 ^ 63 - 1 \<Longrightarrow> time_sub t u < d \<longleftrightarrow> t - u < d"
  by (auto simp: time_sub_def)

section \<open>Checked indexing and slicing\<close>

text \<open>
  \<open>b[i]\<close>, \<open>b[i:j]\<close>, \<open>b[i:]\<close>.  Go checks the upper bound of a slice expression against
  the capacity; the model checks it against the length, so a slice expression that succeeds
  here succeeds in the program, and one whose lower bound exceeds its upper bound panics in
  both.
\<close>

definition go_idx :: "'a list \<Rightarrow> nat \<Rightarrow> 'a go" where
  "go_idx b i = (if i < length b then Some (b ! i) else None)"

definition go_slice :: "'a list \<Rightarrow> nat \<Rightarrow> nat \<Rightarrow> 'a list go" where
  "go_slice b i j = (if i \<le> j \<and> j \<le> length b then Some (take (j - i) (drop i b)) else None)"

definition go_from :: "'a list \<Rightarrow> nat \<Rightarrow> 'a list go" where
  "go_from b i = (if i \<le> length b then Some (drop i b) else None)"

lemma go_idx_ok [simp]: "i < length b \<Longrightarrow> go_idx b i = Some (b ! i)"
  by (simp add: go_idx_def)

lemma go_slice_ok [simp]:
  "i \<le> j \<Longrightarrow> j \<le> length b \<Longrightarrow> go_slice b i j = Some (take (j - i) (drop i b))"
  by (simp add: go_slice_def)

lemma go_from_ok [simp]: "i \<le> length b \<Longrightarrow> go_from b i = Some (drop i b)"
  by (simp add: go_from_def)

lemma go_slice_inverted: "j < i \<Longrightarrow> go_slice b i j = None"
  by (simp add: go_slice_def)

lemma go_idx_Some_iff [go_checked]: "go_idx b i = Some x \<longleftrightarrow> i < length b \<and> x = b ! i"
  by (auto simp: go_idx_def)

lemma go_slice_Some_iff [go_checked]:
  "go_slice b i j = Some s \<longleftrightarrow> i \<le> j \<and> j \<le> length b \<and> s = take (j - i) (drop i b)"
  by (auto simp: go_slice_def)

lemma go_from_Some_iff [go_checked]: "go_from b i = Some s \<longleftrightarrow> i \<le> length b \<and> s = drop i b"
  by (auto simp: go_from_def)

text \<open>
  \<open>a && b\<close> evaluates its right operand only if the left one holds; \<open>b[i] == v\<close>.
\<close>

definition go_and :: "bool go \<Rightarrow> bool go \<Rightarrow> bool go" where
  "go_and a b = do { x \<leftarrow> a; if x then b else go_ret False }"

definition go_is :: "'a list \<Rightarrow> nat \<Rightarrow> 'a \<Rightarrow> bool go" where
  "go_is b i v = do { x \<leftarrow> go_idx b i; go_ret (x = v) }"

lemma go_and_ret [simp]: "go_and (go_ret x) b = (if x then b else go_ret False)"
  by (simp add: go_and_def)

lemma go_and_None_iff: "go_and a b = None \<longleftrightarrow> a = None \<or> (a = Some True \<and> b = None)"
  by (cases a) (auto simp: go_and_def)

lemma go_is_None_iff: "go_is b i v = None \<longleftrightarrow> length b \<le> i"
  by (simp add: go_is_def go_idx_def not_less)

lemma go_idx_None_iff: "go_idx b i = None \<longleftrightarrow> length b \<le> i"
  by (simp add: go_idx_def not_less)

lemmas go_None_iffs = go_and_None_iff go_is_None_iff go_idx_None_iff

lemma go_is_ok [simp]: "i < length b \<Longrightarrow> go_is b i v = Some (b ! i = v)"
  by (simp add: go_is_def)

section \<open>Byte order\<close>

definition be16 :: "u8 \<Rightarrow> u8 \<Rightarrow> u16" where
  "be16 x y = push_bit 8 (ucast x) OR ucast y"

definition be32 :: "u8 \<Rightarrow> u8 \<Rightarrow> u8 \<Rightarrow> u8 \<Rightarrow> u32" where
  "be32 a b c d = push_bit 24 (ucast a) OR push_bit 16 (ucast b) OR push_bit 8 (ucast c) OR ucast d"

text \<open>
  \<open>binary.BigEndian.Uint16(b[i:i+2])\<close> and its relatives; the index expression panics
  when it is out of range.
\<close>

definition rd_be16 :: "bytes \<Rightarrow> nat \<Rightarrow> u16 go" where
  "rd_be16 b i = (if i + 2 \<le> length b then Some (be16 (b ! i) (b ! (i + 1))) else None)"

definition rd_le16 :: "bytes \<Rightarrow> nat \<Rightarrow> u16 go" where
  "rd_le16 b i = (if i + 2 \<le> length b then Some (be16 (b ! (i + 1)) (b ! i)) else None)"

definition rd_be32 :: "bytes \<Rightarrow> nat \<Rightarrow> u32 go" where
  "rd_be32 b i = (if i + 4 \<le> length b
     then Some (be32 (b ! i) (b ! (i + 1)) (b ! (i + 2)) (b ! (i + 3))) else None)"

definition rd_le32 :: "bytes \<Rightarrow> nat \<Rightarrow> u32 go" where
  "rd_le32 b i = (if i + 4 \<le> length b
     then Some (be32 (b ! (i + 3)) (b ! (i + 2)) (b ! (i + 1)) (b ! i)) else None)"

definition rd_le64 :: "bytes \<Rightarrow> nat \<Rightarrow> u64 go" where
  "rd_le64 b i = (if i + 8 \<le> length b
     then Some (push_bit 32 (ucast (be32 (b ! (i + 7)) (b ! (i + 6)) (b ! (i + 5)) (b ! (i + 4))))
                OR ucast (be32 (b ! (i + 3)) (b ! (i + 2)) (b ! (i + 1)) (b ! i))) else None)"

lemmas rd_defs = rd_be16_def rd_le16_def rd_be32_def rd_le32_def rd_le64_def

lemma rd_be16_ok [simp]: "i + 2 \<le> length b \<Longrightarrow> rd_be16 b i = Some (be16 (b ! i) (b ! Suc i))"
  by (simp add: rd_be16_def)

lemma rd_le16_ok [simp]: "i + 2 \<le> length b \<Longrightarrow> rd_le16 b i = Some (be16 (b ! Suc i) (b ! i))"
  by (simp add: rd_le16_def)

lemma rd_be16_total [simp]: "i + 2 \<le> length b \<Longrightarrow> rd_be16 b i \<noteq> None"
  by simp

lemma rd_be32_Some: "i + 4 \<le> length b \<Longrightarrow> \<exists>x. rd_be32 b i = Some x"
  by (simp add: rd_be32_def)

lemma rd_le32_Some: "i + 4 \<le> length b \<Longrightarrow> \<exists>x. rd_le32 b i = Some x"
  by (simp add: rd_le32_def)

lemma rd_le64_Some: "i + 8 \<le> length b \<Longrightarrow> \<exists>x. rd_le64 b i = Some x"
  by (simp add: rd_le64_def)

lemma or_push_bit_add:
  fixes a b :: "'a::len word"
  assumes "n < LENGTH('a)" and "unat b < 2 ^ n" and "unat a * 2 ^ n < 2 ^ LENGTH('a)"
  shows "unat (push_bit n a OR b) = unat a * 2 ^ n + unat b"
proof -
  have hi: "unat (push_bit n a) = unat a * 2 ^ n"
    using assms(3) unfolding unsigned_push_bit_eq
    by (simp add: push_bit_eq_mult take_bit_nat_eq_self)
  have dis: "push_bit n a AND b = 0"
  proof (rule bit_word_eqI)
    fix k assume "k < LENGTH('a)"
    show "bit (push_bit n a AND b) k = bit (0 :: 'a word) k"
    proof (cases "k < n")
      case True
      then show ?thesis by (simp add: bit_simps)
    next
      case False
      have "b = take_bit n b"
        using assms(2) by (metis take_bit_nat_eq_self unsigned_take_bit_eq unsigned_word_eqI)
      then have "\<not> bit b k" using False by (metis bit_take_bit_iff)
      then show ?thesis by (simp add: bit_simps)
    qed
  qed
  have "push_bit n a OR b = push_bit n a + b"
    using dis by (simp add: disjunctive_add_eq_or)
  moreover have "unat (push_bit n a + b) = unat (push_bit n a) + unat b"
  proof -
    have "unat a * 2 ^ n + unat b < 2 ^ LENGTH('a)"
    proof -
      have "unat a * 2 ^ n + 2 ^ n \<le> 2 ^ LENGTH('a)"
      proof -
        have p: "(2::nat) ^ LENGTH('a) = 2 ^ (LENGTH('a) - n) * 2 ^ n"
          using assms(1) by (simp flip: power_add)
        with assms(3) have "unat a < 2 ^ (LENGTH('a) - n)" by simp
        then have "(unat a + 1) * 2 ^ n \<le> 2 ^ (LENGTH('a) - n) * 2 ^ n"
          by (intro mult_le_mono1) simp
        with p show ?thesis by (simp add: algebra_simps)
      qed
      with assms(2) show ?thesis by linarith
    qed
    then show ?thesis by (simp add: hi unat_word_ariths)
  qed
  ultimately show ?thesis using hi by simp
qed

lemma unat_be16: "unat (be16 x y) = unat x * 256 + unat y"
proof -
  have x: "unat (ucast x :: u16) = unat x" and y: "unat (ucast y :: u16) = unat y"
    using unsigned_less [of x, where 'a = nat] unsigned_less [of y, where 'a = nat]
    by (simp_all add: unsigned_ucast_eq take_bit_nat_eq_self)
  have "unat x < 256" "unat y < 256" using unsigned_less [of x, where 'a = nat] unsigned_less [of y, where 'a = nat] by simp_all
  then show ?thesis
    unfolding be16_def using or_push_bit_add [of 8 "ucast y :: u16" "ucast x"] by (simp add: x y)
qed

text \<open>The writers of encoding/binary, for the statements of round trips.\<close>

definition u16_bytes :: "u16 \<Rightarrow> bytes" where
  "u16_bytes w = [ucast (drop_bit 8 w), ucast w]"

definition u32_bytes :: "u32 \<Rightarrow> bytes" where
  "u32_bytes w = [ucast (drop_bit 24 w), ucast (drop_bit 16 w), ucast (drop_bit 8 w), ucast w]"

lemma length_u16_bytes [simp]: "length (u16_bytes w) = 2" by (simp add: u16_bytes_def)
lemma length_u32_bytes [simp]: "length (u32_bytes w) = 4" by (simp add: u32_bytes_def)

lemma be16_split: "be16 (ucast (drop_bit 8 w)) (ucast w) = w"
  by (rule bit_word_eqI) (auto simp: be16_def bit_simps)

lemma be32_split: "be32 (ucast (drop_bit 24 w)) (ucast (drop_bit 16 w)) (ucast (drop_bit 8 w)) (ucast w) = w"
proof (rule bit_word_eqI)
  fix k assume "k < LENGTH(32)"
  then consider "k < 8" | "8 \<le> k" "k < 16" | "16 \<le> k" "k < 24" | "24 \<le> k" "k < 32" by fastforce
  then show "bit (be32 (ucast (drop_bit 24 w)) (ucast (drop_bit 16 w)) (ucast (drop_bit 8 w)) (ucast w)) k = bit w k"
    by cases (auto simp: be32_def bit_simps)
qed

lemma rd_be16_at: "rd_be16 (xs @ u16_bytes w @ ys) (length xs) = Some w"
  by (simp add: u16_bytes_def be16_split nth_append)

lemma rd_be32_at: "rd_be32 (xs @ u32_bytes w @ ys) (length xs) = Some w"
  by (simp add: rd_be32_def u32_bytes_def be32_split nth_append)

section \<open>Printing numbers\<close>

text \<open>\<open>%d\<close>, \<open>%x\<close> of a non-negative number, most significant digit first.\<close>

function digits :: "nat \<Rightarrow> nat \<Rightarrow> string" where
  "digits b n = (if n < b \<or> b < 2 then [''0123456789abcdef'' ! (n mod 16)]
                 else digits b (n div b) @ [''0123456789abcdef'' ! (n mod b)])"
  by pat_completeness auto
termination
  by (relation "measure (\<lambda>(b, n). n)") auto

declare digits.simps [simp del]

definition dec :: "nat \<Rightarrow> string" where "dec n = digits 10 n"
definition hex :: "nat \<Rightarrow> string" where "hex n = digits 16 n"

definition dec_char :: "char \<Rightarrow> bool" where
  "dec_char c \<longleftrightarrow> c \<in> set ''0123456789''"

lemma digit_less_ten: "d < 10 \<Longrightarrow> ''0123456789abcdef'' ! d \<in> set ''0123456789''"
  by (auto simp: less_Suc_eq numeral_eq_Suc)

lemma digit_inj:
  assumes "d < 10" "e < 10" "''0123456789abcdef'' ! d = ''0123456789abcdef'' ! e"
  shows "d = e"
  using assms by (auto simp: less_Suc_eq numeral_eq_Suc)

lemma digits_not_Nil [simp]: "digits b n \<noteq> []"
  by (subst digits.simps) simp

lemma dec_not_Nil [simp]: "dec n \<noteq> []"
  by (simp add: dec_def)

lemma dec_digits: "set (dec n) \<subseteq> set ''0123456789''"
proof (unfold dec_def, induction "10::nat" n rule: digits.induct)
  case (1 n)
  then show ?case
    using digit_less_ten [of "n mod 10"] digit_less_ten [of n] mod_less [of n 16]
    by (subst digits.simps) (cases "n < 10"; simp add: subset_iff)
qed

lemma dec_no_sep [simp]:
  "CHR '':'' \<notin> set (dec n)" "CHR ''|'' \<notin> set (dec n)" "CHR ''-'' \<notin> set (dec n)"
  using dec_digits [of n] by auto

lemma digits_snoc: "10 \<le> n \<Longrightarrow> digits 10 n = digits 10 (n div 10) @ [''0123456789abcdef'' ! (n mod 10)]"
  by (subst digits.simps) simp

lemma digits_single: "n < 10 \<Longrightarrow> digits 10 n = [''0123456789abcdef'' ! n]"
  by (subst digits.simps) simp

lemma digits_inj: "digits 10 m = digits 10 n \<Longrightarrow> m = n"
proof (induction m arbitrary: n rule: less_induct)
  case (less m)
  consider (ss) "m < 10" "n < 10" | (sl) "m < 10" "10 \<le> n" | (ls) "10 \<le> m" "n < 10"
    | (ll) "10 \<le> m" "10 \<le> n" by linarith
  then show ?case
  proof cases
    case ss
    with less.prems show ?thesis by (auto simp: digits_single intro: digit_inj)
  next
    case sl
    with less.prems digits_not_Nil [of 10 "n div 10"] show ?thesis
      by (cases "digits 10 (n div 10)") (simp_all add: digits_single digits_snoc)
  next
    case ls
    with less.prems digits_not_Nil [of 10 "m div 10"] show ?thesis
      by (cases "digits 10 (m div 10)") (simp_all add: digits_single digits_snoc)
  next
    case ll
    from less.prems ll have "digits 10 (m div 10) = digits 10 (n div 10)"
      and "''0123456789abcdef'' ! (m mod 10) = ''0123456789abcdef'' ! (n mod 10)"
      by (simp_all add: digits_snoc)
    moreover have "m div 10 < m" using ll by simp
    ultimately have "m div 10 = n div 10" and "m mod 10 = n mod 10"
      using less.IH digit_inj [of "m mod 10" "n mod 10"] by auto
    then show ?thesis by (metis div_mult_mod_eq)
  qed
qed

lemma dec_inj [simp]: "dec m = dec n \<longleftrightarrow> m = n"
  by (auto simp: dec_def dest: digits_inj)

text \<open>An \<open>ip:port\<close> text determines both parts: the last colon separates them.\<close>

lemma split_at_last_eq:
  assumes "xs @ c # ds = ys @ c # es" and "c \<notin> set ds" and "c \<notin> set es"
  shows "xs = ys \<and> ds = es"
proof -
  have "rev ds @ c # rev xs = rev es @ c # rev ys"
    using arg_cong [OF assms(1), of rev] by simp
  moreover have "takeWhile (\<lambda>x. x \<noteq> c) (rev zs @ c # ws) = rev zs" if "c \<notin> set zs" for zs ws
    using that by (subst takeWhile_append2) auto
  ultimately have "rev ds = rev es" using assms(2,3) by metis
  with assms(1) show ?thesis by simp
qed

text \<open>
  Two texts in lexicographic order with a separator between them; as long as neither contains
  the separator the result determines the unordered pair.
\<close>

definition ordered_pair_text :: "char \<Rightarrow> string \<Rightarrow> string \<Rightarrow> string" where
  "ordered_pair_text c a b = (if a \<le> b then a @ [c] @ b else b @ [c] @ a)"

lemma ordered_pair_text_comm: "ordered_pair_text c a b = ordered_pair_text c b a"
  by (cases "a = b") (auto simp: ordered_pair_text_def)

lemma ordered_pair_text_inj:
  assumes "c \<notin> set a" "c \<notin> set b" "c \<notin> set a'" "c \<notin> set b'"
    and "ordered_pair_text c a b = ordered_pair_text c a' b'"
  shows "(a = a' \<and> b = b') \<or> (a = b' \<and> b = a')"
  using assms(5) split_at_last_eq [of a c b a' b'] split_at_last_eq [of a c b b' a']
    split_at_last_eq [of b c a a' b'] split_at_last_eq [of b c a b' a'] assms(1-4)
  unfolding ordered_pair_text_def by (cases "a \<le> b"; cases "a' \<le> b'"; simp; blast)

lemma unat_of_nat_small: "n < 2 ^ LENGTH('a) \<Longrightarrow> unat (of_nat n :: 'a::len word) = n"
  by (simp add: unsigned_of_nat take_bit_nat_eq_self)

section \<open>Strings\<close>

definition go_contains :: "string \<Rightarrow> string \<Rightarrow> bool" where
  "go_contains s sub = (\<exists>i \<in> set [0..<Suc (length s)]. take (length sub) (drop i s) = sub)"

definition has_prefix :: "'a list \<Rightarrow> 'a list \<Rightarrow> bool" where
  "has_prefix s p \<longleftrightarrow> take (length p) s = p"

definition has_suffix :: "'a list \<Rightarrow> 'a list \<Rightarrow> bool" where
  "has_suffix s p \<longleftrightarrow> has_prefix (rev s) (rev p)"

text \<open>\<open>strings.Split\<close> at one separating character; never empty.\<close>

fun split_on :: "char \<Rightarrow> string \<Rightarrow> string list" where
  "split_on c [] = [[]]"
| "split_on c (x # xs) =
     (if x = c then [] # split_on c xs
      else case split_on c xs of [] \<Rightarrow> [[x]] | w # ws \<Rightarrow> (x # w) # ws)"

text \<open>\<open>strings.Join\<close>.\<close>

fun join_with :: "string \<Rightarrow> string list \<Rightarrow> string" where
  "join_with sep [] = []"
| "join_with sep [w] = w"
| "join_with sep (w # v # ws) = w @ sep @ join_with sep (v # ws)"

text \<open>
  \<open>strings.ToLower\<close>, \<open>strings.ToUpper\<close> and \<open>strings.TrimSpace\<close> on ASCII text; the model
  leaves every byte from 128 on as it is.
\<close>

definition lower_char :: "char \<Rightarrow> char" where
  "lower_char c = (let n = (of_char c :: nat) in
     if 65 \<le> n \<and> n \<le> 90 then char_of (n + 32) else c)"

definition upper_char :: "char \<Rightarrow> char" where
  "upper_char c = (let n = (of_char c :: nat) in
     if 97 \<le> n \<and> n \<le> 122 then char_of (n - 32) else c)"

definition to_lower :: "string \<Rightarrow> string" where "to_lower = map lower_char"
definition to_upper :: "string \<Rightarrow> string" where "to_upper = map upper_char"

definition space_char :: "char \<Rightarrow> bool" where
  "space_char c \<longleftrightarrow> (of_char c :: nat) \<in> {9, 10, 11, 12, 13, 32}"

definition trim_space :: "string \<Rightarrow> string" where
  "trim_space s = rev (dropWhile space_char (rev (dropWhile space_char s)))"

definition trim_suffix :: "string \<Rightarrow> string \<Rightarrow> string" where
  "trim_suffix s p = (if has_suffix s p then take (length s - length p) s else s)"

definition bytes_of :: "string \<Rightarrow> bytes" where "bytes_of = map of_char"
definition string_of :: "bytes \<Rightarrow> string" where "string_of = map (\<lambda>b. char_of (unat b))"

lemma split_on_not_Nil [simp]: "split_on c s \<noteq> []"
  by (induction s) (auto split: list.splits)

lemma lower_char_idem: "lower_char (lower_char c) = lower_char c"
  by (auto simp: lower_char_def Let_def)

lemma to_lower_idem [simp]: "to_lower (to_lower s) = to_lower s"
  by (simp add: to_lower_def lower_char_idem)

lemma length_to_lower [simp]: "length (to_lower s) = length s"
  by (simp add: to_lower_def)

section \<open>Go maps\<close>

text \<open>
  A Go map is an association list without repeated keys.  Its order has no meaning: where the
  code ranges over a map, the operation of the model takes the order in which the run-time
  visits the keys as an argument, and the theorems quantify over it.
\<close>

type_synonym ('k, 'v) gomap = "('k \<times> 'v) list"

definition mget :: "('k, 'v) gomap \<Rightarrow> 'k \<Rightarrow> 'v option" where "mget m k = map_of m k"
definition mput :: "'k \<Rightarrow> 'v \<Rightarrow> ('k, 'v) gomap \<Rightarrow> ('k, 'v) gomap" where
  "mput k v m = AList.update k v m"
definition mdel :: "'k \<Rightarrow> ('k, 'v) gomap \<Rightarrow> ('k, 'v) gomap" where
  "mdel k m = filter (\<lambda>(k', _). k' \<noteq> k) m"
definition mkeys :: "('k, 'v) gomap \<Rightarrow> 'k list" where "mkeys m = map fst m"
definition mvals :: "('k, 'v) gomap \<Rightarrow> 'v list" where "mvals m = map snd m"
definition wf_map :: "('k, 'v) gomap \<Rightarrow> bool" where "wf_map m \<longleftrightarrow> distinct (map fst m)"

definition range_order :: "'k list \<Rightarrow> ('k, 'v) gomap \<Rightarrow> bool" where
  "range_order ks m \<longleftrightarrow> distinct ks \<and> set ks = set (mkeys m)"

text \<open>The sum of a quantity over the values of a map.\<close>

definition msum :: "('v \<Rightarrow> int) \<Rightarrow> ('k, 'v) gomap \<Rightarrow> int" where
  "msum f m = sum_list (map (f \<circ> snd) m)"

lemma mget_Nil [simp]: "mget [] k = None" by (simp add: mget_def)

lemma mget_mput [gomap_simps, simp]: "mget (mput k v m) k' = (if k' = k then Some v else mget m k')"
  by (simp add: mget_def mput_def update_conv')

lemma mget_mdel [gomap_simps, simp]: "mget (mdel k m) k' = (if k' = k then None else mget m k')"
  by (induction m) (auto simp: mget_def mdel_def)

lemma mget_SomeD: "mget m k = Some v \<Longrightarrow> (k, v) \<in> set m"
  by (simp add: mget_def map_of_SomeD)

lemma mget_Some_iff: "wf_map m \<Longrightarrow> mget m k = Some v \<longleftrightarrow> (k, v) \<in> set m"
  by (simp add: mget_def wf_map_def)

lemma mget_None_iff: "mget m k = None \<longleftrightarrow> k \<notin> set (mkeys m)"
  by (simp add: mget_def mkeys_def map_of_eq_None_iff image_iff)

lemma wf_map_Nil [simp]: "wf_map []" by (simp add: wf_map_def)

lemma wf_map_mput [simp, intro]: "wf_map m \<Longrightarrow> wf_map (mput k v m)"
  by (simp add: wf_map_def mput_def distinct_update)

lemma wf_map_mdel [simp, intro]: "wf_map m \<Longrightarrow> wf_map (mdel k m)"
  by (induction m) (auto simp: wf_map_def mdel_def)

lemma mkeys_mput [gomap_simps]: "set (mkeys (mput k v m)) = insert k (set (mkeys m))"
  by (simp add: mkeys_def mput_def update_keys) blast

lemma mkeys_mdel [gomap_simps]: "set (mkeys (mdel k m)) = set (mkeys m) - {k}"
  by (auto simp: mkeys_def mdel_def)

lemma mput_fresh: "mget m k = None \<Longrightarrow> mput k v m = m @ [(k, v)]"
  unfolding mget_def mput_def by (induction m) (auto split: if_splits)

lemma mdel_absent: "mget m k = None \<Longrightarrow> mdel k m = m"
  by (induction m) (auto simp: mget_def mdel_def split: if_splits)

lemma length_mput [gomap_simps]:
  "length (mput k v m) = (if mget m k = None then Suc (length m) else length m)"
  unfolding mget_def mput_def by (induction m) auto

lemma length_mdel_le: "length (mdel k m) \<le> length m"
  by (simp add: mdel_def)

lemma length_mdel_less: "mget m k = Some v \<Longrightarrow> length (mdel k m) < length m"
  by (induction m) (auto simp: mget_def mdel_def split: if_splits intro: le_imp_less_Suc length_filter_le)

lemma mdel_split:
  assumes "wf_map m" and "mget m k = Some v"
  shows "\<exists>xs ys. m = xs @ (k, v) # ys \<and> mdel k m = xs @ ys"
proof -
  from assms(2) have "(k, v) \<in> set m" by (rule mget_SomeD)
  then obtain xs ys where m: "m = xs @ (k, v) # ys" by (meson split_list)
  have "k \<notin> fst ` set xs" "k \<notin> fst ` set ys" using assms(1) by (auto simp: wf_map_def m)
  moreover have "filter (\<lambda>(k', _). k' \<noteq> k) zs = zs" if "k \<notin> fst ` set zs" for zs :: "('a \<times> 'b) list"
    using that by (induction zs) auto
  ultimately have "mdel k m = xs @ ys" by (simp add: m mdel_def)
  with m show ?thesis by blast
qed

lemma length_mdel: "wf_map m \<Longrightarrow> mget m k = Some v \<Longrightarrow> Suc (length (mdel k m)) = length m"
  using mdel_split by fastforce

lemma msum_Nil [simp]: "msum f [] = 0" by (simp add: msum_def)

lemma msum_mdel: "wf_map m \<Longrightarrow> mget m k = Some v \<Longrightarrow> msum f (mdel k m) = msum f m - f v"
  using mdel_split [of m k v] by (fastforce simp: msum_def)

lemma mput_present_split:
  assumes "wf_map m" and "mget m k = Some v"
  shows "\<exists>xs ys. m = xs @ (k, v) # ys \<and> mput k w m = xs @ (k, w) # ys"
proof -
  from mdel_split [OF assms] obtain xs ys where m: "m = xs @ (k, v) # ys" by blast
  have xs: "k \<notin> fst ` set xs" using assms(1) by (auto simp: wf_map_def m)
  have "mput k w m = xs @ (k, w) # ys"
    unfolding m mput_def using xs by (induction xs) auto
  with m show ?thesis by blast
qed

lemma msum_mput:
  "wf_map m \<Longrightarrow> msum f (mput k w m) = msum f m + f w - (case mget m k of None \<Rightarrow> 0 | Some v \<Rightarrow> f v)"
proof (cases "mget m k")
  case None
  then show ?thesis by (simp add: mput_fresh msum_def)
next
  case (Some v)
  assume "wf_map m"
  with mput_present_split [OF this Some, of w] Some show ?thesis by (auto simp: msum_def)
qed

lemma mput_forall:
  assumes "\<forall>(k, v) \<in> set m. P k v" and "P k w"
  shows "\<forall>(k, v) \<in> set (mput k w m). P k v"
  using assms unfolding mput_def by (induction m) auto

lemma mdel_forall: "\<forall>(k, v) \<in> set m. P k v \<Longrightarrow> \<forall>(k, v) \<in> set (mdel j m). P k v"
  by (auto simp: mdel_def)

lemma range_order_length: "wf_map m \<Longrightarrow> range_order ks m \<Longrightarrow> length ks = length m"
  by (metis distinct_card length_map mkeys_def range_order_def wf_map_def)

lemma range_order_mkeys [simp]: "wf_map m \<Longrightarrow> range_order (mkeys m) m"
  by (simp add: range_order_def wf_map_def mkeys_def)

section \<open>Sorting\<close>

text \<open>
  \<open>sort.Slice\<close> with a comparison function: an insertion sort.  The result of any sorting
  algorithm is the same wherever the comparison is a strict total order on the elements.
\<close>

fun go_insert :: "('a \<Rightarrow> 'a \<Rightarrow> bool) \<Rightarrow> 'a \<Rightarrow> 'a list \<Rightarrow> 'a list" where
  "go_insert lt x [] = [x]"
| "go_insert lt x (y # ys) = (if lt y x then y # go_insert lt x ys else x # y # ys)"

fun go_sort :: "('a \<Rightarrow> 'a \<Rightarrow> bool) \<Rightarrow> 'a list \<Rightarrow> 'a list" where
  "go_sort lt [] = []"
| "go_sort lt (x # xs) = go_insert lt x (go_sort lt xs)"

lemma mset_go_insert [simp]: "mset (go_insert lt x xs) = add_mset x (mset xs)"
  by (induction xs) auto

lemma mset_go_sort [simp]: "mset (go_sort lt xs) = mset xs"
  by (induction xs) auto

lemma set_go_insert [simp]: "set (go_insert lt x xs) = insert x (set xs)"
  by (metis mset_go_insert set_mset_add_mset_insert set_mset_mset)

lemma set_go_sort [simp]: "set (go_sort lt xs) = set xs"
  by (metis mset_go_sort set_mset_mset)

lemma length_go_sort [simp]: "length (go_sort lt xs) = length xs"
  by (metis mset_go_sort size_mset)

lemma go_sort_Nil_iff [simp]: "go_sort lt xs = [] \<longleftrightarrow> xs = []"
  by (metis length_0_conv length_go_sort)

text \<open>Sorted by a key, the first element has the least key.\<close>

lemma sorted_go_sort: "sorted (map f (go_sort (\<lambda>x y. f x < f y) xs))" for f :: "'a \<Rightarrow> 'b::linorder"
proof -
  have "sorted (map f ys) \<Longrightarrow> sorted (map f (go_insert (\<lambda>x y. f x < f y) x ys))" for x ys
    by (induction ys) (auto intro: less_imp_le)
  then show ?thesis by (induction xs) simp_all
qed

lemma go_sort_least:
  fixes f :: "'a \<Rightarrow> 'b::linorder"
  assumes "go_sort (\<lambda>x y. f x < f y) xs = k # ks" and "x \<in> set xs"
  shows "k \<in> set xs \<and> f k \<le> f x"
proof -
  have "set (k # ks) = set xs" using assms(1) set_go_sort [of "\<lambda>x y. f x < f y" xs] by simp
  moreover have "sorted (map f (k # ks))" using sorted_go_sort [of f xs] assms(1) by simp
  ultimately show ?thesis using assms(2) by auto
qed

section \<open>Histories that keep the most recent entries\<close>

definition last_n :: "nat \<Rightarrow> 'a list \<Rightarrow> 'a list" where
  "last_n n xs = drop (length xs - n) xs"

lemma length_last_n [simp]: "length (last_n n xs) = min n (length xs)"
  by (simp add: last_n_def)

lemma last_n_all [simp]: "length xs \<le> n \<Longrightarrow> last_n n xs = xs"
  by (simp add: last_n_def)

lemma last_n_last_n_append: "last_n n (last_n n xs @ ys) = last_n n (xs @ ys)"
proof (cases "length xs \<le> n")
  case False
  then have "length xs + length ys - n + n = length xs + length ys" by linarith
  with False show ?thesis by (simp add: last_n_def add.commute)
qed simp

lemma set_last_n: "set (last_n n xs) \<subseteq> set xs"
  by (simp add: last_n_def set_drop_subset)

text \<open>
  The contract that the program's bounded histories share: one operation appends an entry and
  drops the oldest ones beyond the capacity.
\<close>

locale bounded_log =
  fixes push :: "'a list \<Rightarrow> 'a \<Rightarrow> 'a list" and cap :: nat
  assumes push_last_n: "push xs x = last_n cap (xs @ [x])"
begin

lemma push_length: "length (push xs x) \<le> cap"
  by (simp add: push_last_n)

lemma push_keeps_newest: "0 < cap \<Longrightarrow> push xs x \<noteq> [] \<and> last (push xs x) = x"
  by (auto simp: push_last_n last_n_def)

lemma push_set: "set (push xs x) \<subseteq> insert x (set xs)"
  using set_last_n [of cap "xs @ [x]"] by (auto simp: push_last_n)

lemma fold_push: "length xs \<le> cap \<Longrightarrow> foldl push xs ys = last_n cap (xs @ ys)"
proof (induction ys arbitrary: xs)
  case Nil
  then show ?case by simp
next
  case (Cons y ys)
  have "foldl push xs (y # ys) = foldl push (push xs y) ys" by simp
  also have "\<dots> = last_n cap (push xs y @ ys)" by (rule Cons.IH) (rule push_length)
  also have "\<dots> = last_n cap ((xs @ [y]) @ ys)" by (simp only: push_last_n last_n_last_n_append)
  finally show ?case by simp
qed

lemma fold_push_empty: "foldl push [] ys = last_n cap ys"
  by (simp add: fold_push)

end

section \<open>Machines with an invariant\<close>

text \<open>
  The contract of a component whose operations are the steps of a deterministic machine: what
  the invariant is, that the start has it and that every operation keeps it.
\<close>

locale invariant_machine =
  fixes step :: "'e \<Rightarrow> 's \<Rightarrow> 's" and inv :: "'s \<Rightarrow> bool" and start :: 's
  assumes start_inv: "inv start"
    and step_inv: "inv s \<Longrightarrow> inv (step e s)"
begin

lemma run_inv: "inv s \<Longrightarrow> inv (fold step es s)"
  by (induction es arbitrary: s) (auto intro: step_inv)

lemma reachable_inv: "inv (fold step es start)"
  by (rule run_inv) (rule start_inv)

end

section \<open>Keys of a conversation\<close>

text \<open>
  The contract of a conversation key: it does not depend on the direction, and it tells
  different pairs of endpoints apart.
\<close>

locale conversation_key =
  fixes key :: "'ep \<Rightarrow> 'ep \<Rightarrow> 'k" and valid :: "'ep \<Rightarrow> bool"
  assumes key_comm: "valid a \<Longrightarrow> valid b \<Longrightarrow> key a b = key b a"
    and key_inj: "valid a \<Longrightarrow> valid b \<Longrightarrow> valid c \<Longrightarrow> valid d \<Longrightarrow>
      key a b = key c d \<Longrightarrow> (a = c \<and> b = d) \<or> (a = d \<and> b = c)"
begin

lemma key_eq_iff:
  "valid a \<Longrightarrow> valid b \<Longrightarrow> valid c \<Longrightarrow> valid d \<Longrightarrow> key a b = key c d \<longleftrightarrow> {a, b} = {c, d}"
  using key_inj [of a b c d] key_comm by (auto simp: doubleton_eq_iff)

end

end
