(* ===== verification/Core_Packet.thy ===== *)
theory Core_Packet
  imports Otl_Prelude
begin

text \<open>
  internal/core: the decoded packet that every engine of the sensor consumes, and the event
  bus that carries it.  The bus is modelled twice: as one publisher that runs undisturbed
  (\<open>chan_deliver\<close>, \<open>bus_publish\<close>), which is the reading the component theories use, and
  as a step relation in which any number of publishers and the consumer of one subscription
  interleave between the three channel operations of a delivery.
\<close>

section \<open>Packets\<close>

record packet =
  pk_SrcMAC :: string
  pk_DstMAC :: string
  pk_VLANID :: u16
  pk_SrcIP :: string
  pk_DstIP :: string
  pk_TTL :: u8
  pk_IPProtocol :: string
  pk_IPFlags :: string
  pk_IPHeaderLength :: nat
  pk_SrcPort :: u16
  pk_DstPort :: u16
  pk_TCPFlags :: string
  pk_TCPSeq :: u32
  pk_TCPAck :: u32
  pk_TCPWindow :: u16
  pk_UDPLength :: u16
  pk_ARPOperation :: string
  pk_ARPSrcMAC :: string
  pk_ARPSrcIP :: string
  pk_ARPDstMAC :: string
  pk_ARPDstIP :: string
  pk_NDPSrcMAC :: string
  pk_NDPSrcIP :: string
  pk_EtherType :: string
  pk_L4Protocol :: string
  pk_PacketType :: string
  pk_Length :: int
  pk_Timestamp :: time
  pk_FromAnalysis :: bool
  pk_AppPayload :: bytes

text \<open>The zero value of the struct.\<close>

definition zero_packet :: packet where
  "zero_packet = \<lparr> pk_SrcMAC = [], pk_DstMAC = [], pk_VLANID = 0, pk_SrcIP = [], pk_DstIP = [],
     pk_TTL = 0, pk_IPProtocol = [], pk_IPFlags = [], pk_IPHeaderLength = 0, pk_SrcPort = 0,
     pk_DstPort = 0, pk_TCPFlags = [], pk_TCPSeq = 0, pk_TCPAck = 0, pk_TCPWindow = 0,
     pk_UDPLength = 0, pk_ARPOperation = [], pk_ARPSrcMAC = [], pk_ARPSrcIP = [],
     pk_ARPDstMAC = [], pk_ARPDstIP = [], pk_NDPSrcMAC = [], pk_NDPSrcIP = [], pk_EtherType = [],
     pk_L4Protocol = [], pk_PacketType = [], pk_Length = 0, pk_Timestamp = 0,
     pk_FromAnalysis = False, pk_AppPayload = [] \<rparr>"

text \<open>The text of one endpoint, \<open>fmt.Sprintf("%s:%d", ip, port)\<close>.\<close>

definition endpoint_text :: "string \<Rightarrow> u16 \<Rightarrow> string" where
  "endpoint_text ip port = ip @ '':'' @ dec (unat port)"

lemma endpoint_text_inj [simp]:
  "endpoint_text ip port = endpoint_text ip' port' \<longleftrightarrow> ip = ip' \<and> port = port'"
proof
  assume "endpoint_text ip port = endpoint_text ip' port'"
  then have "ip @ CHR '':'' # dec (unat port) = ip' @ CHR '':'' # dec (unat port')"
    by (simp add: endpoint_text_def)
  then have "ip = ip' \<and> dec (unat port) = dec (unat port')"
    by (rule split_at_last_eq) simp_all
  then show "ip = ip' \<and> port = port'" by (simp add: word_unat_eq_iff)
qed simp

lemma endpoint_text_sep:
  "CHR ''|'' \<notin> set ip \<Longrightarrow> CHR ''|'' \<notin> set (endpoint_text ip port)"
  "CHR ''-'' \<notin> set ip \<Longrightarrow> CHR ''-'' \<notin> set (endpoint_text ip port)"
  by (simp_all add: endpoint_text_def)

section \<open>The event bus, one operation at a time\<close>

text \<open>Every subscription is a channel with a buffer of 1000 events.\<close>

definition chan_cap :: nat where "chan_cap = 1000"

record ('t, 'e) event_bus =
  subscribers :: "('t, 'e list list) gomap"

definition new_event_bus :: "('t, 'e) event_bus" where
  "new_event_bus = \<lparr> subscribers = [] \<rparr>"

definition bus_subscribe :: "'t \<Rightarrow> ('t, 'e) event_bus \<Rightarrow> ('t, 'e) event_bus" where
  "bus_subscribe t b = b\<lparr> subscribers := mput t
     ((case mget (subscribers b) t of None \<Rightarrow> [] | Some cs \<Rightarrow> cs) @ [[]]) (subscribers b) \<rparr>"

text \<open>
  Delivery to one subscription: send if the buffer has room, otherwise take the oldest queued
  event out (if there is one) and try once more.
\<close>

definition chan_deliver :: "'e list \<Rightarrow> 'e \<Rightarrow> 'e list" where
  "chan_deliver q e =
     (if length q < chan_cap then q @ [e]
      else let q' = (case q of [] \<Rightarrow> [] | x # xs \<Rightarrow> xs)
           in if length q' < chan_cap then q' @ [e] else q')"

definition bus_publish :: "'t \<Rightarrow> 'e \<Rightarrow> ('t, 'e) event_bus \<Rightarrow> ('t, 'e) event_bus" where
  "bus_publish t e b =
     (case mget (subscribers b) t of
        None \<Rightarrow> b
      | Some cs \<Rightarrow> b\<lparr> subscribers := mput t (map (\<lambda>q. chan_deliver q e) cs) (subscribers b) \<rparr>)"

text \<open>A buffer never holds more than its capacity.\<close>

definition bus_ok :: "('t, 'e) event_bus \<Rightarrow> bool" where
  "bus_ok b \<longleftrightarrow> (\<forall>(t, cs) \<in> set (subscribers b). \<forall>q \<in> set cs. length q \<le> chan_cap)"

lemma chan_deliver_last_n: "length q \<le> chan_cap \<Longrightarrow> chan_deliver q e = last_n chan_cap (q @ [e])"
  by (cases q) (auto simp: chan_deliver_def last_n_def chan_cap_def)

lemma chan_deliver_length: "length q \<le> chan_cap \<Longrightarrow> length (chan_deliver q e) \<le> chan_cap"
  by (simp add: chan_deliver_last_n)

text \<open>
  The bounded-history contract holds for the delivery of the bus on the buffers it can have;
  the total function below agrees with it there and closes the contract elsewhere.
\<close>

definition chan_push :: "'e list \<Rightarrow> 'e \<Rightarrow> 'e list" where
  "chan_push q e = (if length q \<le> chan_cap then chan_deliver q e else last_n chan_cap (q @ [e]))"

interpretation bus_log: bounded_log chan_push chan_cap
  by unfold_locales (auto simp: chan_push_def chan_deliver_last_n)

lemma chan_deliver_push:
  "length q \<le> chan_cap \<Longrightarrow> foldl chan_deliver q es = foldl chan_push q es"
  by (induction es arbitrary: q) (auto simp: chan_push_def chan_deliver_length)

lemma bus_publish_ok: "bus_ok b \<Longrightarrow> bus_ok (bus_publish t e b)"
proof (cases "mget (subscribers b) t")
  case (Some cs)
  assume b: "bus_ok b"
  let ?P = "\<lambda>(t :: 'a) cs. \<forall>q\<in>set cs. length q \<le> chan_cap"
  have all: "\<forall>(t, cs)\<in>set (subscribers b). ?P t cs" using b by (simp add: bus_ok_def)
  moreover have "?P t (map (\<lambda>q. chan_deliver q e) cs)"
    using all mget_SomeD [OF Some] by (fastforce intro: chan_deliver_length)
  ultimately have "\<forall>(t, cs)\<in>set (mput t (map (\<lambda>q. chan_deliver q e) cs) (subscribers b)). ?P t cs"
    by (rule mput_forall)
  with Some show ?thesis by (simp add: bus_ok_def bus_publish_def)
qed (simp add: bus_publish_def)

text \<open>Publications of several topics, one after the other, and those of one topic.\<close>

definition publish_all :: "('t \<times> 'e) list \<Rightarrow> ('t, 'e) event_bus \<Rightarrow> ('t, 'e) event_bus" where
  "publish_all xs b = fold (\<lambda>(t, e). bus_publish t e) xs b"

definition of_topic :: "'t \<Rightarrow> ('t \<times> 'e) list \<Rightarrow> 'e list" where
  "of_topic t xs = map snd (filter (\<lambda>x. fst x = t) xs)"

lemma bus_publish_get:
  "mget (subscribers (bus_publish t e b)) t' =
     (if t' = t then map_option (map (\<lambda>q. chan_deliver q e)) (mget (subscribers b) t) else mget (subscribers b) t')"
  by (simp add: bus_publish_def mget_mput split: option.split)

lemma publish_all_get:
  "mget (subscribers (publish_all xs b)) t = map_option (map (\<lambda>q. foldl chan_deliver q (of_topic t xs))) (mget (subscribers b) t)"
proof (induction xs arbitrary: b)
  case Nil
  show ?case by (simp add: publish_all_def of_topic_def map_option.identity)
next
  case (Cons x xs)
  obtain t' e where x: "x = (t', e)" by (cases x)
  have "publish_all (x # xs) b = publish_all xs (bus_publish t' e b)" by (simp add: publish_all_def x)
  with Cons.IH [of "bus_publish t' e b"] show ?case
    by (cases "t = t'"; cases "mget (subscribers b) t") (simp_all add: bus_publish_get x of_topic_def comp_def)
qed

lemma deliveries_keep_newest: "length q \<le> chan_cap \<Longrightarrow> foldl chan_deliver q es = last_n chan_cap (q @ es)"
  using bus_log.fold_push [of q es] by (simp add: chan_deliver_push)

text \<open>
  C23: Publishing reaches every subscriber of the topic and no other, and keeps the newest
  events: on a bus whose buffers are within their capacity (1000), after any sequence of
  publications of any topics, during which nothing is consumed, the buffer of every subscription of a topic holds the newest 1000 of what was in it
  before and the events of that topic, in the order of publication.  A full subscription loses
  its oldest events only, and has no effect on the others.
\<close>

theorem bus_keeps_newest:
  assumes "bus_ok b" and "mget (subscribers b) t = Some cs"
  shows "mget (subscribers (publish_all xs b)) t = Some (map (\<lambda>q. last_n 1000 (q @ of_topic t xs)) cs)"
proof -
  have "\<forall>q \<in> set cs. length q \<le> chan_cap" using assms mget_SomeD [OF assms(2)] by (fastforce simp: bus_ok_def)
  with assms(2) show ?thesis by (simp add: publish_all_get deliveries_keep_newest) (simp add: chan_cap_def)
qed

theorem bus_keeps_newest_witness:
  "mget (subscribers (publish_all [(''ics'', 1), (''dns'', 2), (''ics'', 3 :: nat)]
      (bus_subscribe ''ics'' (bus_subscribe ''dns'' (bus_subscribe ''ics'' new_event_bus))))) ''ics'' = Some [[1, 3], [1, 3]]"
proof -
  let ?b = "bus_subscribe ''ics'' (bus_subscribe ''dns'' (bus_subscribe ''ics'' new_event_bus)) :: (string, nat) event_bus"
  have s: "subscribers ?b = [(''dns'', [[]]), (''ics'', [[], []])] \<or> subscribers ?b = [(''ics'', [[], []]), (''dns'', [[]])]"
    by (simp add: bus_subscribe_def new_event_bus_def mput_def mget_def)
  then have "bus_ok ?b" "mget (subscribers ?b) ''ics'' = Some [[], []]" by (auto simp: bus_ok_def mget_def)
  from bus_keeps_newest [OF this, of "[(''ics'', 1), (''dns'', 2), (''ics'', 3)]"] show ?thesis
    by (simp add: of_topic_def last_n_def)
qed

section \<open>The event bus, interleaved\<close>

text \<open>
  One subscription with its consumer and the publishers that are delivering to it.  A
  publisher is before its first send (\<open>PubSend\<close>), has found the buffer full and is about to
  take the oldest event out (\<open>PubDrop\<close>), is before its second send (\<open>PubRetry\<close>), or has
  finished.  Each rule is one channel operation; any publisher or the consumer may go next.
\<close>

datatype 'e publisher = PubSend 'e | PubDrop 'e | PubRetry 'e | PubDone

record 'e delivery =
  dv_queue :: "'e list"
  dv_pubs :: "'e publisher list"
  dv_lost :: "'e list"
  dv_taken :: "'e list"

inductive deliver_step :: "'e delivery \<Rightarrow> 'e delivery \<Rightarrow> bool" where
  send_ok: "i < length (dv_pubs s) \<Longrightarrow> dv_pubs s ! i = PubSend e \<Longrightarrow> length (dv_queue s) < chan_cap \<Longrightarrow>
    deliver_step s (s\<lparr> dv_queue := dv_queue s @ [e], dv_pubs := (dv_pubs s)[i := PubDone] \<rparr>)"
| send_full: "i < length (dv_pubs s) \<Longrightarrow> dv_pubs s ! i = PubSend e \<Longrightarrow> \<not> length (dv_queue s) < chan_cap \<Longrightarrow>
    deliver_step s (s\<lparr> dv_pubs := (dv_pubs s)[i := PubDrop e] \<rparr>)"
| drop_oldest: "i < length (dv_pubs s) \<Longrightarrow> dv_pubs s ! i = PubDrop e \<Longrightarrow> dv_queue s = x # q \<Longrightarrow>
    deliver_step s (s\<lparr> dv_queue := q, dv_pubs := (dv_pubs s)[i := PubRetry e], dv_lost := x # dv_lost s \<rparr>)"
| drop_empty: "i < length (dv_pubs s) \<Longrightarrow> dv_pubs s ! i = PubDrop e \<Longrightarrow> dv_queue s = [] \<Longrightarrow>
    deliver_step s (s\<lparr> dv_pubs := (dv_pubs s)[i := PubRetry e] \<rparr>)"
| retry_ok: "i < length (dv_pubs s) \<Longrightarrow> dv_pubs s ! i = PubRetry e \<Longrightarrow> length (dv_queue s) < chan_cap \<Longrightarrow>
    deliver_step s (s\<lparr> dv_queue := dv_queue s @ [e], dv_pubs := (dv_pubs s)[i := PubDone] \<rparr>)"
| retry_full: "i < length (dv_pubs s) \<Longrightarrow> dv_pubs s ! i = PubRetry e \<Longrightarrow> \<not> length (dv_queue s) < chan_cap \<Longrightarrow>
    deliver_step s (s\<lparr> dv_pubs := (dv_pubs s)[i := PubDone], dv_lost := e # dv_lost s \<rparr>)"
| consume: "dv_queue s = x # q \<Longrightarrow>
    deliver_step s (s\<lparr> dv_queue := q, dv_taken := dv_taken s @ [x] \<rparr>)"

text \<open>The event a publisher still holds, and the channel operations it still has to do.\<close>

fun pub_holds :: "'e publisher \<Rightarrow> 'e multiset" where
  "pub_holds (PubSend e) = {#e#}"
| "pub_holds (PubDrop e) = {#e#}"
| "pub_holds (PubRetry e) = {#e#}"
| "pub_holds PubDone = {#}"

fun pub_rank :: "'e publisher \<Rightarrow> nat" where
  "pub_rank (PubSend e) = 3"
| "pub_rank (PubDrop e) = 2"
| "pub_rank (PubRetry e) = 1"
| "pub_rank PubDone = 0"

definition held :: "'e delivery \<Rightarrow> 'e multiset" where
  "held s = sum_list (map pub_holds (dv_pubs s))"

definition accounted :: "'e delivery \<Rightarrow> 'e multiset" where
  "accounted s = held s + mset (dv_queue s) + mset (dv_lost s) + mset (dv_taken s)"

definition start_delivery :: "'e list \<Rightarrow> 'e delivery" where
  "start_delivery es = \<lparr> dv_queue = [], dv_pubs = map PubSend es, dv_lost = [], dv_taken = [] \<rparr>"

inductive delivery_reachable :: "'e list \<Rightarrow> 'e delivery \<Rightarrow> bool" for es where
  begin_delivery: "delivery_reachable es (start_delivery es)"
| next_delivery: "delivery_reachable es s \<Longrightarrow> deliver_step s t \<Longrightarrow> delivery_reachable es t"

lemma sum_list_map_update:
  fixes f :: "'a \<Rightarrow> 'b::comm_monoid_add"
  assumes "i < length xs"
  shows "sum_list (map f (xs[i := y])) + f (xs ! i) = sum_list (map f xs) + f y"
proof -
  have "xs = take i xs @ xs ! i # drop (Suc i) xs" using assms by (rule id_take_nth_drop)
  then have "sum_list (map f xs) = sum_list (map f (take i xs)) + (f (xs ! i) + sum_list (map f (drop (Suc i) xs)))"
    by (metis list.simps(9) map_append sum_list.Cons sum_list_append)
  then show ?thesis using assms by (simp add: upd_conv_take_nth_drop ac_simps)
qed

lemma held_update:
  "i < length (dv_pubs s) \<Longrightarrow>
   sum_list (map pub_holds ((dv_pubs s)[i := p])) + pub_holds (dv_pubs s ! i) = held s + pub_holds p"
  unfolding held_def by (rule sum_list_map_update)

lemma deliver_step_accounted: "deliver_step s t \<Longrightarrow> accounted t = accounted s"
proof (induction rule: deliver_step.induct)
  case (send_ok i s e)
  with held_update [OF send_ok(1), of PubDone] show ?case by (simp add: accounted_def held_def)
next
  case (send_full i s e)
  with held_update [OF send_full(1), of "PubDrop e"] show ?case by (simp add: accounted_def held_def)
next
  case (drop_oldest i s e x q)
  with held_update [OF drop_oldest(1), of "PubRetry e"] show ?case by (simp add: accounted_def held_def)
next
  case (drop_empty i s e)
  with held_update [OF drop_empty(1), of "PubRetry e"] show ?case by (simp add: accounted_def held_def)
next
  case (retry_ok i s e)
  with held_update [OF retry_ok(1), of PubDone] show ?case by (simp add: accounted_def held_def)
next
  case (retry_full i s e)
  with held_update [OF retry_full(1), of PubDone] show ?case by (simp add: accounted_def held_def)
next
  case (consume s x q)
  then show ?case by (simp add: accounted_def held_def)
qed

lemma deliver_step_bound:
  "deliver_step s t \<Longrightarrow> length (dv_queue s) \<le> chan_cap \<Longrightarrow> length (dv_queue t) \<le> chan_cap"
  by (induction rule: deliver_step.induct) auto

lemma start_delivery_accounted: "accounted (start_delivery es) = mset es"
proof -
  have "sum_list (map pub_holds (map PubSend es)) = mset es" by (induction es) auto
  then show ?thesis by (simp add: accounted_def held_def start_delivery_def)
qed

text \<open>
  C24: However the publishers and the consumer interleave, the buffer of a subscription never
  exceeds its capacity, and every published event is in exactly one place: still held by its
  publisher, in the buffer, given up, or taken by the consumer.  No interleaving of the
  drop-oldest steps duplicates an event or makes one disappear.
\<close>

theorem bus_interleaved_accounting:
  assumes "delivery_reachable es s"
  shows "length (dv_queue s) \<le> chan_cap \<and>
    held s + mset (dv_queue s) + mset (dv_lost s) + mset (dv_taken s) = mset es"
  using assms
proof (induction rule: delivery_reachable.induct)
  case begin_delivery
  show ?case using start_delivery_accounted [of es] by (simp add: accounted_def start_delivery_def)
next
  case (next_delivery s t)
  then show ?case using deliver_step_bound [of s t] deliver_step_accounted [of s t]
    by (simp add: accounted_def)
qed

theorem bus_interleaved_accounting_witness:
  "let s = \<lparr> dv_queue = [7::nat], dv_pubs = [PubDone, PubSend 8], dv_lost = [], dv_taken = [] \<rparr> in
   length (dv_queue s) \<le> chan_cap \<and>
   held s + mset (dv_queue s) + mset (dv_lost s) + mset (dv_taken s) = mset [7, 8]"
proof -
  have "delivery_reachable [7, 8] (start_delivery [7::nat, 8])" by (rule begin_delivery)
  from next_delivery [OF this send_ok [of 0]]
  have "delivery_reachable [7, 8]
    \<lparr> dv_queue = [7::nat], dv_pubs = [PubDone, PubSend 8], dv_lost = [], dv_taken = [] \<rparr>"
    by (simp add: start_delivery_def chan_cap_def)
  from bus_interleaved_accounting [OF this] show ?thesis unfolding Let_def .
qed

text \<open>
  A publisher is never blocked by a slow subscriber: while it has not finished it always
  has a next operation it can do, whatever is in the buffer, and each of its operations brings
  it closer to the end, so it finishes after at most three of them.
\<close>

theorem publisher_never_blocks:
  assumes "i < length (dv_pubs s)" and "dv_pubs s ! i \<noteq> PubDone"
  shows "\<exists>t. deliver_step s t \<and> length (dv_pubs t) = length (dv_pubs s) \<and>
           pub_rank (dv_pubs t ! i) < pub_rank (dv_pubs s ! i) \<and> pub_rank (dv_pubs s ! i) \<le> 3"
proof (cases "dv_pubs s ! i")
  case (PubSend e)
  then show ?thesis
    using assms(1) send_ok [of i s e] send_full [of i s e]
    by (cases "length (dv_queue s) < chan_cap") (force intro: exI)+
next
  case (PubDrop e)
  then show ?thesis
    using assms(1) drop_empty [of i s e] drop_oldest [of i s e]
    by (cases "dv_queue s") (force intro: exI)+
next
  case (PubRetry e)
  then show ?thesis
    using assms(1) retry_ok [of i s e] retry_full [of i s e]
    by (cases "length (dv_queue s) < chan_cap") (force intro: exI)+
next
  case PubDone
  with assms(2) show ?thesis by simp
qed

theorem publisher_never_blocks_witness:
  "\<exists>t. deliver_step (start_delivery [5::nat]) t \<and> pub_rank (dv_pubs t ! 0) < 3"
proof -
  have "0 < length (dv_pubs (start_delivery [5::nat]))"
    and "dv_pubs (start_delivery [5::nat]) ! 0 \<noteq> PubDone"
    by (simp_all add: start_delivery_def)
  from publisher_never_blocks [OF this] show ?thesis by (auto simp: start_delivery_def)
qed

end
