(* ===== verification/Packet_Parser.thy ===== *)
theory Packet_Parser
  imports Core_Packet
begin

text \<open>
  internal/parser: from a captured frame to a packet.  The layers themselves are decoded by the
  gopacket library, which is not part of the program: \<open>Parse\<close> takes what the library found,
  one optional record per layer with the fields the program reads, as its argument.  The one
  decoder the program has of its own, IPv6 neighbour discovery (ndp.go), reads the bytes of the
  frame and is modelled byte by byte with every index and slice expression checked.
\<close>

section \<open>Texts of addresses (package net)\<close>

definition byte_text :: "u8 \<Rightarrow> string" where "byte_text b = dec (unat b)"

definition hex2 :: "u8 \<Rightarrow> string" where
  "hex2 b = [''0123456789abcdef'' ! (unat b div 16), ''0123456789abcdef'' ! (unat b mod 16)]"

definition mac_text :: "bytes \<Rightarrow> string" where
  "mac_text m = join_with '':'' (map hex2 m)"

definition ipv4_text :: "bytes \<Rightarrow> string" where
  "ipv4_text b = join_with ''.'' (map byte_text b)"

text \<open>
  IPv6 text form: the eight groups, the first longest run of at least two zero groups
  replaced by a double colon.
\<close>

fun ipv6_groups :: "bytes \<Rightarrow> nat list" where
  "ipv6_groups (a # b # rest) = (unat a * 256 + unat b) # ipv6_groups rest"
| "ipv6_groups _ = []"

definition zero_run :: "nat list \<Rightarrow> nat \<Rightarrow> nat" where
  "zero_run g i = length (takeWhile (\<lambda>x. x = 0) (drop i g))"

text \<open>The best run so far as \<open>(start, end)\<close>; \<open>(255, 255)\<close> when there is none.\<close>

fun best_run :: "nat list \<Rightarrow> nat list \<Rightarrow> nat \<times> nat \<Rightarrow> nat \<times> nat" where
  "best_run g [] best = best"
| "best_run g (i # is) (zs, ze) =
     (let l = zero_run g i
      in best_run g is (if 2 \<le> l \<and> ze - zs < l then (i, i + l) else (zs, ze)))"

definition ipv6_text :: "bytes \<Rightarrow> string" where
  "ipv6_text b =
     (let g = ipv6_groups b; (zs, ze) = best_run g [0..<8] (255, 255)
      in if zs = 255 then join_with '':'' (map hex g)
         else join_with '':'' (map hex (take zs g)) @ ''::'' @ join_with '':'' (map hex (drop ze g)))"

text \<open>\<open>net.IP(b).String()\<close>; a 16-byte address that embeds an IPv4 one prints as IPv4.\<close>

definition ip_text :: "bytes \<Rightarrow> string" where
  "ip_text b =
     (if b = [] then ''<nil>''
      else if length b = 4 then ipv4_text b
      else if length b = 16 then
        (if take 10 b = replicate 10 0 \<and> b ! 10 = 0xff \<and> b ! 11 = 0xff
         then ipv4_text (drop 12 b) else ipv6_text b)
      else CHR ''?'' # concat (map hex2 b))"

section \<open>Layers found by gopacket\<close>

record ethernet_layer =
  le_SrcMAC :: bytes
  le_DstMAC :: bytes
  le_EthernetType :: string
  le_Payload :: bytes

record dot1q_layer =
  lq_VLANIdentifier :: u16
  lq_Payload :: bytes

record ipv4_layer =
  l4_SrcIP :: bytes
  l4_DstIP :: bytes
  l4_TTL :: u8
  l4_Protocol :: string
  l4_IHL :: u8
  l4_Flags :: u8

record ipv6_layer =
  l6_SrcIP :: bytes
  l6_DstIP :: bytes
  l6_HopLimit :: u8
  l6_NextHeader :: string

record tcp_layer =
  lt_SrcPort :: u16
  lt_DstPort :: u16
  lt_Seq :: u32
  lt_Ack :: u32
  lt_Window :: u16
  lt_SYN :: bool
  lt_ACK :: bool
  lt_FIN :: bool
  lt_RST :: bool
  lt_PSH :: bool
  lt_URG :: bool
  lt_ECE :: bool
  lt_CWR :: bool
  lt_NS :: bool
  lt_Payload :: bytes

record udp_layer =
  lu_SrcPort :: u16
  lu_DstPort :: u16
  lu_Length :: u16
  lu_Payload :: bytes

record arp_layer =
  la_Operation :: u16
  la_SourceHwAddress :: bytes
  la_SourceProtAddress :: bytes
  la_DstHwAddress :: bytes
  la_DstProtAddress :: bytes

record layers =
  ly_ethernet :: "ethernet_layer option"
  ly_dot1q :: "dot1q_layer option"
  ly_ipv4 :: "ipv4_layer option"
  ly_ipv6 :: "ipv6_layer option"
  ly_tcp :: "tcp_layer option"
  ly_udp :: "udp_layer option"
  ly_arp :: "arp_layer option"

record raw_frame =
  rf_Data :: bytes
  rf_Timestamp :: time
  rf_FromAnalysis :: bool

section \<open>One function per layer\<close>

definition parseEthernet :: "layers \<Rightarrow> packet \<Rightarrow> packet" where
  "parseEthernet ly p =
     (case ly_ethernet ly of
        None \<Rightarrow> p
      | Some eth \<Rightarrow>
          let p = p\<lparr> pk_PacketType := ''Ethernet'', pk_SrcMAC := mac_text (le_SrcMAC eth),
                      pk_DstMAC := mac_text (le_DstMAC eth), pk_EtherType := le_EthernetType eth \<rparr>;
              p = (if le_Payload eth \<noteq> []
                   then p\<lparr> pk_AppPayload := le_Payload eth, pk_L4Protocol := ''Ethernet'' \<rparr> else p)
          in (case ly_dot1q ly of
                None \<Rightarrow> p
              | Some vlan \<Rightarrow>
                  let p = p\<lparr> pk_VLANID := lq_VLANIdentifier vlan \<rparr>
                  in if lq_Payload vlan \<noteq> [] then p\<lparr> pk_AppPayload := lq_Payload vlan \<rparr> else p))"

text \<open>gopacket numbers the flag bits: 1 more fragments, 2 don't fragment.\<close>

definition ipv4FlagsString :: "u8 \<Rightarrow> string" where
  "ipv4FlagsString fl = join_with '',''
     ((if fl AND 2 \<noteq> 0 then [''DF''] else []) @ (if fl AND 1 \<noteq> 0 then [''MF''] else []))"

definition parseIPv4 :: "layers \<Rightarrow> packet \<Rightarrow> packet" where
  "parseIPv4 ly p =
     (case ly_ipv4 ly of
        None \<Rightarrow> p
      | Some ip \<Rightarrow> p\<lparr> pk_PacketType := ''IPv4'', pk_SrcIP := ip_text (l4_SrcIP ip),
          pk_DstIP := ip_text (l4_DstIP ip), pk_TTL := l4_TTL ip, pk_IPProtocol := l4_Protocol ip,
          pk_IPHeaderLength := unat (l4_IHL ip) * 4, pk_IPFlags := ipv4FlagsString (l4_Flags ip) \<rparr>)"

definition parseIPv6 :: "layers \<Rightarrow> packet \<Rightarrow> packet" where
  "parseIPv6 ly p =
     (case ly_ipv6 ly of
        None \<Rightarrow> p
      | Some ip \<Rightarrow> p\<lparr> pk_PacketType := ''IPv6'', pk_SrcIP := ip_text (l6_SrcIP ip),
          pk_DstIP := ip_text (l6_DstIP ip), pk_TTL := l6_HopLimit ip, pk_IPProtocol := l6_NextHeader ip \<rparr>)"

definition tcpFlagsString :: "tcp_layer \<Rightarrow> string" where
  "tcpFlagsString t = join_with '',''
     ((if lt_SYN t then [''SYN''] else []) @ (if lt_ACK t then [''ACK''] else []) @
      (if lt_FIN t then [''FIN''] else []) @ (if lt_RST t then [''RST''] else []) @
      (if lt_PSH t then [''PSH''] else []) @ (if lt_URG t then [''URG''] else []) @
      (if lt_ECE t then [''ECE''] else []) @ (if lt_CWR t then [''CWR''] else []) @
      (if lt_NS t then [''NS''] else []))"

definition parseTCP :: "layers \<Rightarrow> packet \<Rightarrow> packet" where
  "parseTCP ly p =
     (case ly_tcp ly of
        None \<Rightarrow> p
      | Some t \<Rightarrow>
          let p = p\<lparr> pk_SrcPort := lt_SrcPort t, pk_DstPort := lt_DstPort t, pk_L4Protocol := ''TCP'',
                      pk_TCPSeq := lt_Seq t, pk_TCPAck := lt_Ack t, pk_TCPWindow := lt_Window t,
                      pk_TCPFlags := tcpFlagsString t \<rparr>
          in if lt_Payload t \<noteq> [] then p\<lparr> pk_AppPayload := lt_Payload t \<rparr> else p)"

definition parseUDP :: "layers \<Rightarrow> packet \<Rightarrow> packet" where
  "parseUDP ly p =
     (case ly_udp ly of
        None \<Rightarrow> p
      | Some u \<Rightarrow>
          let p = p\<lparr> pk_SrcPort := lu_SrcPort u, pk_DstPort := lu_DstPort u,
                      pk_L4Protocol := ''UDP'', pk_UDPLength := lu_Length u \<rparr>
          in if lu_Payload u \<noteq> [] then p\<lparr> pk_AppPayload := lu_Payload u \<rparr> else p)"

definition arpOperationString :: "u16 \<Rightarrow> string" where
  "arpOperationString op =
     (if op = 1 then ''Request'' else if op = 2 then ''Reply''
      else ''Unknown('' @ dec (unat op) @ '')'')"

definition parseARP :: "layers \<Rightarrow> packet \<Rightarrow> packet" where
  "parseARP ly p =
     (case ly_arp ly of
        None \<Rightarrow> p
      | Some a \<Rightarrow> p\<lparr> pk_PacketType := ''ARP'', pk_L4Protocol := ''ARP'',
          pk_ARPOperation := arpOperationString (la_Operation a),
          pk_ARPSrcMAC := mac_text (la_SourceHwAddress a), pk_ARPSrcIP := ip_text (la_SourceProtAddress a),
          pk_ARPDstMAC := mac_text (la_DstHwAddress a), pk_ARPDstIP := ip_text (la_DstProtAddress a) \<rparr>)"

section \<open>Neighbour discovery\<close>

text \<open>
  Skipping stacked VLAN tags: the result is the offset of the network header and the
  EtherType found there, or \<open>None\<close> inside the panic layer when the frame ends in a tag (the
  early return of the code).
\<close>

function ndp_vlan :: "bytes \<Rightarrow> nat \<Rightarrow> u16 \<Rightarrow> (nat \<times> u16) option go" where
  "ndp_vlan frame off ether =
     (if ether = 0x8100 \<or> ether = 0x88a8 then
        (if length frame < off + 4 then go_ret None
         else do { ether' \<leftarrow> rd_be16 frame (off + 2); ndp_vlan frame (off + 4) ether' })
      else go_ret (Some (off, ether)))"
  by pat_completeness auto
termination
  by (relation "measure (\<lambda>(frame, off, ether). length frame - off)") auto

text \<open>The option loop; the result is the address and hardware address to record, if any.\<close>

function ndp_options :: "bytes \<Rightarrow> u8 \<Rightarrow> string \<Rightarrow> string \<Rightarrow> nat \<Rightarrow> (string \<times> string) option go" where
  "ndp_options frame ty src target opt =
     (if opt + 2 \<le> length frame then do {
        ot \<leftarrow> go_idx frame opt;
        units \<leftarrow> go_idx frame (opt + 1);
        if units = 0 then go_ret None
        else if opt + unat units * 8 > length frame then go_ret None
        else if ((ty = 135 \<and> ot = 1) \<or> (ty = 136 \<and> ot = 2)) \<and> 8 \<le> unat units * 8 then do {
          hw \<leftarrow> go_slice frame (opt + 2) (opt + 8);
          if ty = 135 then
            (if src \<noteq> ''::'' then go_ret (Some (src, mac_text hw)) else go_ret None)
          else go_ret (Some (target, mac_text hw))
        }
        else ndp_options frame ty src target (opt + unat units * 8)
      } else go_ret None)"
  by pat_completeness auto
termination
proof (relation "measure (\<lambda>(frame, ty, src, target, opt). length frame - opt)", goal_cases)
  case (2 frame ty src target opt ot units)
  then have "0 < unat units" by (simp add: unat_gt_0)
  with 2 show ?case by auto
qed simp

declare ndp_vlan.simps [simp del] ndp_options.simps [simp del]

definition parseNDP :: "bytes \<Rightarrow> packet \<Rightarrow> packet go" where
  "parseNDP frame p =
     (if length frame < 14 then go_ret p
      else do {
        ether0 \<leftarrow> rd_be16 frame 12;
        v \<leftarrow> ndp_vlan frame 14 ether0;
        case v of
          None \<Rightarrow> go_ret p
        | Some (off, ether) \<Rightarrow>
            if ether \<noteq> 0x86dd \<or> length frame < off + 40 then go_ret p
            else do {
              nh \<leftarrow> go_idx frame (off + 6);
              if nh \<noteq> 58 then go_ret p
              else if length frame < off + 40 + 24 then go_ret p
              else do {
                ty \<leftarrow> go_idx frame (off + 40);
                if ty \<noteq> 135 \<and> ty \<noteq> 136 then go_ret p
                else do {
                  srcb \<leftarrow> go_slice frame (off + 8) (off + 24);
                  targetb \<leftarrow> go_slice frame (off + 40 + 8) (off + 40 + 24);
                  r \<leftarrow> ndp_options frame ty (ip_text srcb) (ip_text targetb) (off + 40 + 24);
                  (case r of None \<Rightarrow> go_ret p
                   | Some (ip, mac) \<Rightarrow> go_ret (p\<lparr> pk_NDPSrcIP := ip, pk_NDPSrcMAC := mac \<rparr>))
                }
              }
            }
      })"

text \<open>The dispatcher.\<close>

definition Parse :: "layers \<Rightarrow> raw_frame \<Rightarrow> packet go" where
  "Parse ly frame =
     (let p = zero_packet\<lparr> pk_Length := int (length (rf_Data frame)),
                pk_Timestamp := rf_Timestamp frame, pk_FromAnalysis := rf_FromAnalysis frame \<rparr>;
          p = parseEthernet ly p; p = parseIPv4 ly p; p = parseIPv6 ly p;
          p = parseTCP ly p; p = parseUDP ly p; p = parseARP ly p
      in parseNDP (rf_Data frame) p)"

section \<open>No frame makes the decoder panic\<close>

lemma ndp_vlan_total: "\<exists>r. ndp_vlan frame off ether = Some r"
proof (induction frame off ether rule: ndp_vlan.induct)
  case (1 frame off ether)
  show ?case
  proof (cases "(ether = 0x8100 \<or> ether = 0x88a8) \<and> \<not> length frame < off + 4")
    case True
    then have "rd_be16 frame (off + 2) = Some (be16 (frame ! (off + 2)) (frame ! Suc (off + 2)))"
      by (intro rd_be16_ok) simp
    with True "1.IH" show ?thesis by (subst ndp_vlan.simps) simp
  next
    case False
    then show ?thesis by (subst ndp_vlan.simps) auto
  qed
qed

lemma ndp_options_total: "\<exists>r. ndp_options frame ty src target opt = Some r"
proof (induction frame ty src target opt rule: ndp_options.induct)
  case (1 frame ty src target opt)
  show ?case
  proof (cases "opt + 2 \<le> length frame")
    case True
    define u where "u = frame ! (opt + 1)"
    define ot where "ot = frame ! opt"
    from True have idx: "go_idx frame opt = Some ot" "go_idx frame (opt + 1) = Some u"
      by (simp_all add: ot_def u_def)
    show ?thesis
    proof (cases "u = 0 \<or> opt + unat u * 8 > length frame")
      case True
      with idx \<open>opt + 2 \<le> length frame\<close> show ?thesis by (subst ndp_options.simps) auto
    next
      case fits: False
      show ?thesis
      proof (cases "((ty = 135 \<and> ot = 1) \<or> (ty = 136 \<and> ot = 2)) \<and> 8 \<le> unat u * 8")
        case True
        with fits have "go_slice frame (opt + 2) (opt + 8) = Some (take 6 (drop (opt + 2) frame))"
          by simp
        with True fits idx \<open>opt + 2 \<le> length frame\<close> show ?thesis
          by (subst ndp_options.simps) auto
      next
        case False
        with fits idx \<open>opt + 2 \<le> length frame\<close> "1.IH" show ?thesis
          by (subst ndp_options.simps) (simp only: if_True if_False Option.bind.bind_lunit; simp)
      qed
    qed
  next
    case False
    then show ?thesis by (subst ndp_options.simps) auto
  qed
qed

text \<open>
  Where the network header is: behind the addresses and any number of VLAN tags, each announced
  by its EtherType; \<open>ether\<close> is the EtherType that announces the header itself.
\<close>

definition ether_at :: "bytes \<Rightarrow> nat \<Rightarrow> u16" where
  "ether_at frame i = be16 (frame ! i) (frame ! Suc i)"

definition network_header :: "bytes \<Rightarrow> nat \<Rightarrow> u16 \<Rightarrow> bool" where
  "network_header frame off ether \<longleftrightarrow> (\<exists>n. off = 14 + 4 * n \<and> off \<le> length frame \<and>
     (\<forall>i < n. ether_at frame (12 + 4 * i) \<in> {0x8100, 0x88a8}) \<and> ether_at frame (12 + 4 * n) = ether)"

lemma ndp_vlan_header:
  "ndp_vlan frame (14 + 4 * n) ether = Some (Some (off, ether')) \<Longrightarrow> 14 + 4 * n \<le> length frame \<Longrightarrow>
   ether_at frame (12 + 4 * n) = ether \<Longrightarrow> \<forall>i < n. ether_at frame (12 + 4 * i) \<in> {0x8100, 0x88a8} \<Longrightarrow>
   network_header frame off ether'"
proof (induction "length frame - (14 + 4 * n)" arbitrary: n ether rule: less_induct)
  case less
  show ?case
  proof (cases "ether = 0x8100 \<or> ether = 0x88a8")
    case True
    then have len: "14 + 4 * Suc n \<le> length frame"
      using less.prems(1) by (subst (asm) ndp_vlan.simps) (auto split: if_splits)
    then have read: "rd_be16 frame (4 * n + 16) = Some (ether_at frame (4 * n + 16))" by (simp add: ether_at_def)
    have "ndp_vlan frame (14 + 4 * Suc n) (ether_at frame (12 + 4 * Suc n)) = Some (Some (off, ether'))"
      using less.prems(1) True len by (subst (asm) ndp_vlan.simps) (simp add: read add.commute)
    moreover have "\<forall>i < Suc n. ether_at frame (12 + 4 * i) \<in> {0x8100, 0x88a8}"
      using less.prems(3,4) True by (auto simp: less_Suc_eq)
    ultimately show ?thesis using less.hyps [of "Suc n"] len by simp
  next
    case False
    with less.prems show ?thesis by (subst (asm) ndp_vlan.simps) (auto simp: network_header_def)
  qed
qed

text \<open>The outcome of the decoder, with every checked read resolved.\<close>

lemma parseNDP_short: "length frame < 14 \<Longrightarrow> parseNDP frame p = Some p"
  by (simp add: parseNDP_def)

lemma parseNDP_no_header:
  assumes "\<not> length frame < 14"
    and "ndp_vlan frame 14 (be16 (frame ! 12) (frame ! 13)) = Some None"
  shows "parseNDP frame p = Some p"
  using assms by (simp add: parseNDP_def)

lemma parseNDP_other:
  assumes "\<not> length frame < 14"
    and "ndp_vlan frame 14 (be16 (frame ! 12) (frame ! 13)) = Some (Some (off, ether))"
    and "ether \<noteq> 0x86dd \<or> length frame < off + 40 \<or> frame ! (off + 6) \<noteq> 58 \<or>
        length frame < off + 64 \<or> (frame ! (off + 40) \<noteq> 135 \<and> frame ! (off + 40) \<noteq> 136)"
  shows "parseNDP frame p = Some p"
proof (cases "ether \<noteq> 0x86dd \<or> length frame < off + 40")
  case True
  with assms show ?thesis by (simp add: parseNDP_def)
next
  case in_header: False
  then have i6: "go_idx frame (off + 6) = Some (frame ! (off + 6))" by simp
  show ?thesis
  proof (cases "frame ! (off + 6) \<noteq> 58 \<or> length frame < off + 64")
    case True
    with assms(1,2) in_header i6 show ?thesis by (auto simp: parseNDP_def)
  next
    case False
    with assms(1,2,3) in_header i6 show ?thesis by (simp add: parseNDP_def)
  qed
qed

lemma parseNDP_message:
  assumes "\<not> length frame < 14"
    and "ndp_vlan frame 14 (be16 (frame ! 12) (frame ! 13)) = Some (Some (off, 0x86dd))"
    and "off + 64 \<le> length frame" and "frame ! (off + 6) = 58"
    and "frame ! (off + 40) = 135 \<or> frame ! (off + 40) = 136"
    and "ndp_options frame (frame ! (off + 40)) (ip_text (take 16 (drop (off + 8) frame)))
       (ip_text (take 16 (drop (off + 48) frame))) (off + 64) = Some r"
  shows "parseNDP frame p = (case r of None \<Rightarrow> go_ret p
         | Some (ip, mac) \<Rightarrow> go_ret (p\<lparr> pk_NDPSrcIP := ip, pk_NDPSrcMAC := mac \<rparr>))"
proof -
  have reads: "rd_be16 frame 12 = Some (be16 (frame ! 12) (frame ! 13))"
    "go_idx frame (off + 6) = Some (frame ! (off + 6))"
    "go_idx frame (off + 40) = Some (frame ! (off + 40))"
    "go_slice frame (off + 8) (off + 24) = Some (take 16 (drop (off + 8) frame))"
    "go_slice frame (off + 40 + 8) (off + 40 + 24) = Some (take 16 (drop (off + 48) frame))"
    using assms(1,3) by (simp_all add: add.commute)
  have sums: "off + 40 + 24 = off + 64" "\<not> length frame < off + 40" "\<not> length frame < off + 64"
    using assms(3) by simp_all
  show ?thesis
    unfolding parseNDP_def reads sums using assms by (auto simp: reads sums add.commute [of 48 off])
qed

lemma parseNDP_outcome:
  "parseNDP frame p = Some p \<or>
   (\<exists>off ty ip mac. network_header frame off 0x86dd \<and> ty = frame ! (off + 40) \<and> (ty = 135 \<or> ty = 136) \<and> frame ! (off + 6) = 58 \<and>
      off + 64 \<le> length frame \<and>
      ndp_options frame ty (ip_text (take 16 (drop (off + 8) frame)))
        (ip_text (take 16 (drop (off + 48) frame))) (off + 64) = Some (Some (ip, mac)) \<and>
      parseNDP frame p = Some (p\<lparr> pk_NDPSrcIP := ip, pk_NDPSrcMAC := mac \<rparr>))"
proof (cases "length frame < 14")
  case True
  then show ?thesis by (simp add: parseNDP_short)
next
  case len: False
  obtain v where v: "ndp_vlan frame 14 (be16 (frame ! 12) (frame ! 13)) = Some v"
    using ndp_vlan_total by blast
  show ?thesis
  proof (cases v)
    case None
    with len v show ?thesis by (simp add: parseNDP_no_header)
  next
    case (Some oe)
    obtain off ether where oe: "oe = (off, ether)" by (cases oe)
    show ?thesis
    proof (cases "ether \<noteq> 0x86dd \<or> length frame < off + 40 \<or> frame ! (off + 6) \<noteq> 58 \<or>
        length frame < off + 64 \<or> (frame ! (off + 40) \<noteq> 135 \<and> frame ! (off + 40) \<noteq> 136)")
      case True
      from parseNDP_other [OF len _ True] v Some oe show ?thesis by blast
    next
      case msg: False
      define ty where "ty = frame ! (off + 40)"
      obtain r where r: "ndp_options frame ty (ip_text (take 16 (drop (off + 8) frame)))
        (ip_text (take 16 (drop (off + 48) frame))) (off + 64) = Some r"
        using ndp_options_total by blast
      have eq: "parseNDP frame p = (case r of None \<Rightarrow> go_ret p
         | Some (ip, mac) \<Rightarrow> go_ret (p\<lparr> pk_NDPSrcIP := ip, pk_NDPSrcMAC := mac \<rparr>))"
        by (rule parseNDP_message [OF len]) (use msg v Some oe r in \<open>auto simp: ty_def\<close>)
      show ?thesis
      proof (cases r)
        case None
        with eq show ?thesis by simp
      next
        case (Some im)
        obtain ip mac where im: "im = (ip, mac)" by (cases im)
        have "network_header frame off 0x86dd"
          using ndp_vlan_header [of frame 0 "be16 (frame ! 12) (frame ! 13)" off ether] v \<open>v = Some oe\<close> oe len msg
          by (simp add: ether_at_def)
        moreover have "ty = frame ! (off + 40) \<and> (ty = 135 \<or> ty = 136) \<and> frame ! (off + 6) = 58 \<and>
            off + 64 \<le> length frame" using msg by (auto simp: ty_def)
        ultimately show ?thesis using \<open>r = Some im\<close> im eq r by auto
      qed
    qed
  qed
qed

text \<open>What no layer changes.\<close>

definition frame_data :: "packet \<Rightarrow> int \<times> time \<times> bool" where
  "frame_data p = (pk_Length p, pk_Timestamp p, pk_FromAnalysis p)"

lemma layers_keep_frame_data:
  "frame_data (parseARP ly p) = frame_data p" "frame_data (parseUDP ly p) = frame_data p"
  "frame_data (parseTCP ly p) = frame_data p" "frame_data (parseIPv6 ly p) = frame_data p"
  "frame_data (parseIPv4 ly p) = frame_data p" "frame_data (parseEthernet ly p) = frame_data p"
  by (simp_all add: frame_data_def parseARP_def parseUDP_def parseTCP_def parseIPv6_def parseIPv4_def
      parseEthernet_def Let_def split: option.split)

text \<open>
  No captured frame, however truncated or malformed, makes the decoder index or slice out
  of range: parsing always returns a packet, and the packet has the length, the capture time
  and the analysis mark of the frame.
\<close>

theorem Parse_total:
  "\<exists>p. Parse ly frame = Some p \<and> pk_Length p = int (length (rf_Data frame)) \<and>
       pk_Timestamp p = rf_Timestamp frame \<and> pk_FromAnalysis p = rf_FromAnalysis frame"
proof -
  define q where "q = parseARP ly (parseUDP ly (parseTCP ly (parseIPv6 ly (parseIPv4 ly (parseEthernet ly
     (zero_packet\<lparr> pk_Length := int (length (rf_Data frame)),
        pk_Timestamp := rf_Timestamp frame, pk_FromAnalysis := rf_FromAnalysis frame \<rparr>))))))"
  have q: "pk_Length q = int (length (rf_Data frame)) \<and> pk_Timestamp q = rf_Timestamp frame \<and>
      pk_FromAnalysis q = rf_FromAnalysis frame"
    using layers_keep_frame_data by (simp add: q_def frame_data_def)
  have "Parse ly frame = parseNDP (rf_Data frame) q" by (simp add: Parse_def q_def Let_def)
  with q parseNDP_outcome [of "rf_Data frame" q] show ?thesis by auto
qed

text \<open>
  The options of a message: the first one at \<open>start\<close>, and each further one behind the one before,
  whose second byte is its length in units of eight bytes.
\<close>

inductive option_at :: "bytes \<Rightarrow> nat \<Rightarrow> nat \<Rightarrow> bool" for frame where
  first_option: "option_at frame start start"
| later_option: "frame ! Suc start \<noteq> 0 \<Longrightarrow> start + unat (frame ! Suc start) * 8 \<le> length frame \<Longrightarrow>
    option_at frame (start + unat (frame ! Suc start) * 8) o' \<Longrightarrow> option_at frame start o'"

text \<open>What the option loop can record.\<close>

lemma ndp_options_sound:
  "ndp_options frame ty src target opt = Some (Some (ip, mac)) \<Longrightarrow>
   ty = 135 \<or> ty = 136 \<Longrightarrow>
   (if ty = 135 then ip = src \<and> src \<noteq> ''::'' else ip = target) \<and>
   (\<exists>o'. option_at frame opt o' \<and> o' + 8 \<le> length frame \<and> mac = mac_text (take 6 (drop (o' + 2) frame)) \<and>
         frame ! o' = (if ty = 135 then 1 else 2))"
proof (induction frame ty src target opt rule: ndp_options.induct)
  case (1 frame ty src target opt)
  define u where "u = frame ! (opt + 1)"
  define ot where "ot = frame ! opt"
  have len: "opt + 2 \<le> length frame"
    using "1.prems"(1) by (subst (asm) ndp_options.simps) (auto split: if_splits)
  then have idx: "go_idx frame opt = Some ot" "go_idx frame (opt + 1) = Some u"
    by (simp_all add: ot_def u_def)
  have fits: "u \<noteq> 0" "opt + unat u * 8 \<le> length frame"
    using "1.prems"(1) len idx by (subst (asm) ndp_options.simps; simp split: if_splits)+
  then have pos: "0 < unat u" by (simp add: unat_gt_0)
  show ?case
  proof (cases "(ty = 135 \<and> ot = 1) \<or> (ty = 136 \<and> ot = 2)")
    case True
    with fits pos have sl: "go_slice frame (opt + 2) (opt + 8) = Some (take 6 (drop (opt + 2) frame))"
      by simp
    have "opt + 8 \<le> length frame" using fits pos by linarith
    with True sl len idx fits pos "1.prems" show ?thesis
      by (subst (asm) (1) ndp_options.simps) (auto split: if_splits simp: ot_def intro!: exI [of _ opt] first_option)
  next
    case False
    have "ndp_options frame ty src target (opt + unat u * 8) = Some (Some (ip, mac))"
      using "1.prems"(1) False len idx fits by (subst (asm) (1) ndp_options.simps) auto
    from "1.IH" [OF len idx(1) idx(2) fits(1) _ _ this "1.prems"(2)] False fits
    show ?thesis using fits by (auto simp: u_def intro: later_option)
  qed
qed

text \<open>
  C25: A neighbour-discovery binding is recorded only from a frame that really carries it.  Behind
  the addresses and the VLAN tags, the EtherType announces IPv6 (0x86dd); its next header is
  ICMPv6; the message is a solicitation (135) with a source link-layer option and a source that is
  not the unspecified address (so duplicate-address detection never claims an owner), or an
  advertisement (136) with a target link-layer option; the option is one of the chain of options
  behind the fixed part of the message; and the recorded hardware address is its six bytes, inside the
  frame.  No other field is touched.
\<close>

theorem parseNDP_binding_sound:
  assumes "parseNDP frame p = Some p'" and "p' \<noteq> p"
  shows "\<exists>off o'. network_header frame off 0x86dd \<and> frame ! (off + 6) = 58 \<and>
     option_at frame (off + 64) o' \<and> o' + 8 \<le> length frame \<and>
     ((frame ! (off + 40) = 135 \<and> frame ! o' = 1 \<and> pk_NDPSrcIP p' \<noteq> ''::'' \<and>
         pk_NDPSrcIP p' = ip_text (take 16 (drop (off + 8) frame))) \<or>
      (frame ! (off + 40) = 136 \<and> frame ! o' = 2 \<and>
         pk_NDPSrcIP p' = ip_text (take 16 (drop (off + 48) frame)))) \<and>
     pk_NDPSrcMAC p' = mac_text (take 6 (drop (o' + 2) frame)) \<and>
     p' = p\<lparr> pk_NDPSrcIP := pk_NDPSrcIP p', pk_NDPSrcMAC := pk_NDPSrcMAC p' \<rparr>"
proof -
  from assms parseNDP_outcome [of frame p] obtain off ty ip mac where
    t: "ty = frame ! (off + 40)" "ty = 135 \<or> ty = 136" "frame ! (off + 6) = 58" "network_header frame off 0x86dd"
    and o: "ndp_options frame ty (ip_text (take 16 (drop (off + 8) frame)))
        (ip_text (take 16 (drop (off + 48) frame))) (off + 64) = Some (Some (ip, mac))"
    and p': "p' = p\<lparr> pk_NDPSrcIP := ip, pk_NDPSrcMAC := mac \<rparr>" by auto
  from ndp_options_sound [OF o t(2)] obtain o' where o':
    "option_at frame (off + 64) o'" "o' + 8 \<le> length frame" "mac = mac_text (take 6 (drop (o' + 2) frame))"
    "frame ! o' = (if ty = 135 then 1 else 2)" by blast
  have addr: "if ty = 135 then ip = ip_text (take 16 (drop (off + 8) frame)) \<and> ip \<noteq> ''::''
      else ip = ip_text (take 16 (drop (off + 48) frame))"
    using conjunct1 [OF ndp_options_sound [OF o t(2)]] by (simp split: if_splits)
  have fields: "pk_NDPSrcIP p' = ip" "pk_NDPSrcMAC p' = mac" by (simp_all add: p')
  have kind: "(frame ! (off + 40) = 135 \<and> frame ! o' = 1 \<and> ip \<noteq> ''::'' \<and>
         ip = ip_text (take 16 (drop (off + 8) frame))) \<or>
      (frame ! (off + 40) = 136 \<and> frame ! o' = 2 \<and> ip = ip_text (take 16 (drop (off + 48) frame)))"
    using t(1,2) o'(4) addr by (auto split: if_splits)
  show ?thesis
    by (rule exI [of _ off], rule exI [of _ o'], unfold fields)
      (use kind o'(1,2,3) t(3,4) p' in simp)
qed

text \<open>A neighbour solicitation from fe80::1 that asks for fe80::2, with its own MAC address.\<close>

definition sample_solicitation :: bytes where
  "sample_solicitation =
     [0, 0, 0, 0, 0, 0, 0, 0, 0, 0, 0, 0, 0x86, 0xdd,
      0x60, 0, 0, 0, 0, 32, 58, 255,
      0xfe, 0x80, 0, 0, 0, 0, 0, 0, 0, 0, 0, 0, 0, 0, 0, 1,
      0xff, 2, 0, 0, 0, 0, 0, 0, 0, 0, 0, 1, 0xff, 0, 0, 2,
      135, 0, 0, 0, 0, 0, 0, 0,
      0xfe, 0x80, 0, 0, 0, 0, 0, 0, 0, 0, 0, 0, 0, 0, 0, 2,
      1, 1, 2, 0, 0, 0, 0, 7]"

lemma sample_solicitation_parsed:
  "parseNDP sample_solicitation zero_packet =
     Some (zero_packet\<lparr> pk_NDPSrcIP := ''fe80::1'', pk_NDPSrcMAC := ''02:00:00:00:00:07'' \<rparr>)"
proof -
  have ip: "ip_text [0xfe, 0x80, 0, 0, 0, 0, 0, 0, 0, 0, 0, 0, 0, 0, 0, 1] = ''fe80::1''"
    by (simp add: ip_text_def ipv6_text_def zero_run_def upt_rec hex_def digits.simps Let_def)
  have mac: "mac_text [2, 0, 0, 0, 0, 7] = ''02:00:00:00:00:07''"
    by (simp add: mac_text_def hex2_def)
  have len: "length sample_solicitation = 86" by (simp add: sample_solicitation_def)
  have at: "sample_solicitation ! 12 = 0x86" "sample_solicitation ! 13 = 0xdd"
    "sample_solicitation ! 20 = 58" "sample_solicitation ! 54 = 135"
    "sample_solicitation ! 78 = 1" "sample_solicitation ! 79 = 1"
    "take 16 (drop 22 sample_solicitation) = [0xfe, 0x80, 0, 0, 0, 0, 0, 0, 0, 0, 0, 0, 0, 0, 0, 1]"
    "take 6 (drop 80 sample_solicitation) = [2, 0, 0, 0, 0, 7]"
    by (simp_all add: sample_solicitation_def)
  have opts: "ndp_options sample_solicitation 135 ''fe80::1'' t 78 =
      Some (Some (''fe80::1'', ''02:00:00:00:00:07''))" for t
    by (subst ndp_options.simps) (simp add: len at mac)
  have vlan: "ndp_vlan sample_solicitation 14 0x86dd = Some (Some (14, 0x86dd))"
    by (subst ndp_vlan.simps) simp
  have ether: "be16 0x86 0xdd = 0x86dd" by (simp add: be16_def)
  have "parseNDP sample_solicitation zero_packet =
      (case Some (''fe80::1'', ''02:00:00:00:00:07'') of None \<Rightarrow> Some zero_packet
       | Some (ip, mac) \<Rightarrow> Some (zero_packet\<lparr> pk_NDPSrcIP := ip, pk_NDPSrcMAC := mac \<rparr>))"
    by (rule parseNDP_message [where off = 14])
      (simp_all add: len at ether vlan ip opts)
  then show ?thesis by simp
qed

theorem parseNDP_binding_sound_witness:
  "\<exists>off o'. network_header sample_solicitation off 0x86dd \<and> sample_solicitation ! (off + 6) = 58 \<and>
     option_at sample_solicitation (off + 64) o' \<and>
     mac_text (take 6 (drop (o' + 2) sample_solicitation)) = ''02:00:00:00:00:07''"
proof -
  let ?p' = "zero_packet\<lparr> pk_NDPSrcIP := ''fe80::1'', pk_NDPSrcMAC := ''02:00:00:00:00:07'' \<rparr>"
  have "?p' \<noteq> zero_packet" and "pk_NDPSrcMAC ?p' = ''02:00:00:00:00:07''" by (simp_all add: zero_packet_def)
  with parseNDP_binding_sound [OF sample_solicitation_parsed] show ?thesis by metis
qed

end
