(* ===== verification/Tcp_Reassembly.thy ===== *)
theory Tcp_Reassembly
  imports Core_Packet
begin

text \<open>
  internal/tcpreassembly and internal/streamproto: the bounded reconstruction of TCP byte
  streams.  The engine is a vector of shards, each a map from connection identifiers to
  connections with two directions; sequence numbers are 32-bit words and wrap around.  The
  mutexes make \<open>Push\<close> and the visit of one shard by \<open>cleanup\<close> atomic, so the model runs them
  one after another.  The pool of byte slices (\<open>copyBytes\<close>, \<open>release\<close>) only recycles memory
  and is not visible here.  What an operation publishes on the bus is returned in order.
\<close>

section \<open>Protocol of a stream\<close>

definition smb_magic :: "u8 \<Rightarrow> bytes" where "smb_magic b = [b, 0x53, 0x4d, 0x42]"

definition Detect :: "bytes \<Rightarrow> string go" where
  "Detect data = do {
     let smb = (\<lambda>b. b = smb_magic 0xfe \<or> b = smb_magic 0xfd);
     framed \<leftarrow> go_and (go_ret (8 \<le> length data)) (go_and (go_is data 0 0) (map_option smb (go_slice data 4 8)));
     bare \<leftarrow> go_and (go_ret (\<not> framed \<and> 4 \<le> length data)) (map_option smb (go_slice data 0 4));
     if framed \<or> bare then go_ret ''smb'' else do {
     tls \<leftarrow> go_and (go_ret (3 \<le> length data)) (go_and (go_is data 0 0x16) (go_and (go_is data 1 3) (map_option (\<lambda>b. b \<le> 4) (go_idx data 2))));
     if tls then go_ret ''tls''
     else if 8 \<le> length data \<and>
         (has_prefix data (bytes_of ''GET '') \<or> has_prefix data (bytes_of ''POST '') \<or>
          has_prefix data (bytes_of ''HTTP/'') \<or> has_prefix data (bytes_of ''PUT '') \<or>
          has_prefix data (bytes_of ''HEAD '')) then go_ret ''http''
     else do {
     modbus \<leftarrow> go_and (go_ret (8 \<le> length data)) (go_and (go_is data 2 0) (go_and (go_is data 3 0)
                 (go_and (go_is data 6 0) (map_option (\<lambda>b. b \<noteq> 0) (go_idx data 7)))));
     if modbus then go_ret ''modbus_tcp'' else do {
     rpc \<leftarrow> go_and (go_ret (16 \<le> length data)) (go_and (go_is data 0 5) (go_and (go_is data 1 0) (go_is data 4 0x10)));
     go_ret (if rpc then ''dcerpc'' else ''unknown'') } } } }"

text \<open>
  The reads are all guarded, so \<open>Detect\<close> always returns; the engine uses the name that it
  returns.
\<close>

definition detected :: "bytes \<Rightarrow> string" where
  "detected data = (case Detect data of Some n \<Rightarrow> n | None \<Rightarrow> [])"

lemma Detect_total: "Detect data = Some (detected data)"
proof -
  have "Detect data \<noteq> None"
    by (auto simp: Detect_def Let_def go_None_iffs bind_eq_None_conv simp del: go_and_ret go_is_ok not_None_eq split: if_splits)
  then show ?thesis by (auto simp: detected_def)
qed

section \<open>State\<close>

record config =
  cf_Enabled :: bool
  cf_MaxConnections :: int
  cf_MaxBufferPerDirection :: int
  cf_MaxTotalBuffer :: int
  cf_IdleTimeout :: duration
  cf_ClosedTimeout :: duration
  cf_MaxOutOfOrderSegments :: int
  cf_MaxSequenceGap :: u32
  cf_GapRecoveryTimeout :: duration
  cf_ShardCount :: int
  cf_OverlapPolicy :: string

record segment =
  sg_seq :: u32
  sg_data :: bytes
  sg_ts :: time

record direction =
  d_initialized :: bool
  d_next :: u32
  d_pending :: "(u32, segment) gomap"
  d_buffered :: int
  d_midstream :: bool
  d_gapped :: bool
  d_gapSince :: time
  d_protocol :: string

record connection =
  c_id :: string
  c_aIP :: string
  c_bIP :: string
  c_aPort :: u16
  c_bPort :: u16
  c_a2b :: direction
  c_b2a :: direction
  c_lastSeen :: time
  c_closedAt :: time

record shard =
  sh_conns :: "(string, connection) gomap"
  sh_buffered :: int

record stats =
  st_active :: int
  st_buffered :: int
  st_opened :: u64
  st_closed :: u64
  st_segments :: u64
  st_bytes :: u64
  st_chunks :: u64
  st_emitted :: u64
  st_outOfOrder :: u64
  st_retransmitted :: u64
  st_overlaps :: u64
  st_overlapConflicts :: u64
  st_gapRecoveries :: u64
  st_evicted :: u64
  st_dropped :: u64

record engine =
  e_cfg :: config
  e_shards :: "shard list"
  e_st :: stats

record chunk =
  ck_ConnectionID :: string
  ck_SrcIP :: string
  ck_DstIP :: string
  ck_SrcPort :: u16
  ck_DstPort :: u16
  ck_Timestamp :: time
  ck_Data :: bytes
  ck_Midstream :: bool
  ck_Gapped :: bool
  ck_GapBefore :: u32
  ck_Overlap :: bool
  ck_Protocol :: string

record lifecycle =
  lc_ConnectionID :: string
  lc_Type :: string
  lc_Reason :: string
  lc_Timestamp :: time
  lc_Buffered :: int
  lc_Protocol :: string

datatype tcp_event = Lifecycle lifecycle | StreamData chunk

definition zero_direction :: direction where
  "zero_direction = \<lparr> d_initialized = False, d_next = 0, d_pending = [], d_buffered = 0,
     d_midstream = False, d_gapped = False, d_gapSince = 0, d_protocol = [] \<rparr>"

definition zero_stats :: stats where
  "zero_stats = \<lparr> st_active = 0, st_buffered = 0, st_opened = 0, st_closed = 0, st_segments = 0,
     st_bytes = 0, st_chunks = 0, st_emitted = 0, st_outOfOrder = 0, st_retransmitted = 0,
     st_overlaps = 0, st_overlapConflicts = 0, st_gapRecoveries = 0, st_evicted = 0, st_dropped = 0 \<rparr>"

text \<open>\<open>New\<close>: the defaults, and one empty map per shard.\<close>

definition default_config :: "config \<Rightarrow> config" where
  "default_config cfg = cfg\<lparr>
     cf_MaxConnections := (if cf_MaxConnections cfg \<le> 0 then 50000 else cf_MaxConnections cfg),
     cf_MaxBufferPerDirection := (if cf_MaxBufferPerDirection cfg \<le> 0 then 4 * 2 ^ 20 else cf_MaxBufferPerDirection cfg),
     cf_MaxTotalBuffer := (if cf_MaxTotalBuffer cfg \<le> 0 then 512 * 2 ^ 20 else cf_MaxTotalBuffer cfg),
     cf_IdleTimeout := (if cf_IdleTimeout cfg \<le> 0 then 2 * minute else cf_IdleTimeout cfg),
     cf_ClosedTimeout := (if cf_ClosedTimeout cfg \<le> 0 then 15 * second else cf_ClosedTimeout cfg),
     cf_MaxOutOfOrderSegments := (if cf_MaxOutOfOrderSegments cfg \<le> 0 then 256 else cf_MaxOutOfOrderSegments cfg),
     cf_MaxSequenceGap := (if cf_MaxSequenceGap cfg = 0 then 16 * 2 ^ 20 else cf_MaxSequenceGap cfg),
     cf_GapRecoveryTimeout := (if cf_GapRecoveryTimeout cfg \<le> 0 then 2 * second else cf_GapRecoveryTimeout cfg),
     cf_ShardCount := (if cf_ShardCount cfg \<le> 0 then 32 else cf_ShardCount cfg),
     cf_OverlapPolicy := (if cf_OverlapPolicy cfg \<noteq> ''last_seen'' then ''first_seen'' else cf_OverlapPolicy cfg) \<rparr>"

definition tcp_new :: "config \<Rightarrow> engine" where
  "tcp_new cfg0 = (let cfg = default_config cfg0 in
     \<lparr> e_cfg = cfg, e_shards = replicate (nat (cf_ShardCount cfg)) \<lparr> sh_conns = [], sh_buffered = 0 \<rparr>,
       e_st = zero_stats \<rparr>)"

section \<open>Helpers\<close>

definition canonical :: "packet \<Rightarrow> string \<times> bool" where
  "canonical p = (let a = endpoint_text (pk_SrcIP p) (pk_SrcPort p);
                      b = endpoint_text (pk_DstIP p) (pk_DstPort p)
                  in if a \<le> b then (a @ ''-'' @ b, True) else (b @ ''-'' @ a, False))"

definition hasFlag :: "string \<Rightarrow> string \<Rightarrow> bool" where
  "hasFlag flags want \<longleftrightarrow> want \<in> set (split_on CHR '','' flags)"

definition fnv_hash :: "string \<Rightarrow> u32" where
  "fnv_hash s = foldl (\<lambda>h c. (h XOR of_char c) * 16777619) 2166136261 s"

definition shard_index :: "string \<Rightarrow> nat \<Rightarrow> nat" where
  "shard_index cid n = unat (fnv_hash cid) mod n"

definition seqLess :: "u32 \<Rightarrow> u32 \<Rightarrow> bool" where "seqLess a b \<longleftrightarrow> sint (a - b) < 0"
definition seqDistance :: "u32 \<Rightarrow> u32 \<Rightarrow> u32" where "seqDistance a b = b - a"

definition overlapConflict :: "bytes \<Rightarrow> bytes \<Rightarrow> bool" where
  "overlapConflict old new =
     (let n = min (length old) (length new) in take n old \<noteq> take n new)"

definition minU32 :: "u32 \<Rightarrow> u32 \<Rightarrow> u32" where "minU32 a b = (if a < b then a else b)"

definition get_dir :: "bool \<Rightarrow> connection \<Rightarrow> direction" where
  "get_dir forward c = (if forward then c_a2b c else c_b2a c)"

definition set_dir :: "bool \<Rightarrow> direction \<Rightarrow> connection \<Rightarrow> connection" where
  "set_dir forward d c = (if forward then c\<lparr> c_a2b := d \<rparr> else c\<lparr> c_b2a := d \<rparr>)"

definition lifecycle_event :: "connection \<Rightarrow> string \<Rightarrow> string \<Rightarrow> tcp_event" where
  "lifecycle_event c ty reason = Lifecycle \<lparr> lc_ConnectionID = c_id c, lc_Type = ty, lc_Reason = reason,
     lc_Timestamp = c_lastSeen c, lc_Buffered = d_buffered (c_a2b c) + d_buffered (c_b2a c),
     lc_Protocol = (if d_protocol (c_a2b c) = [] then d_protocol (c_b2a c) else d_protocol (c_a2b c)) \<rparr>"

text \<open>
  What the operations on one direction change beside it: the counters of the engine, the
  byte count of the shard, and the events published so far.
\<close>

record world =
  w_st :: stats
  w_sbuf :: int
  w_evs :: "tcp_event list"

section \<open>Emitting contiguous bytes\<close>

definition make_chunk :: "connection \<Rightarrow> bool \<Rightarrow> direction \<Rightarrow> bytes \<Rightarrow> time \<Rightarrow> u32 \<Rightarrow> bool \<Rightarrow> string \<Rightarrow> chunk" where
  "make_chunk c forward d b t gap overlap proto =
     \<lparr> ck_ConnectionID = c_id c,
       ck_SrcIP = (if forward then c_aIP c else c_bIP c), ck_DstIP = (if forward then c_bIP c else c_aIP c),
       ck_SrcPort = (if forward then c_aPort c else c_bPort c),
       ck_DstPort = (if forward then c_bPort c else c_aPort c),
       ck_Timestamp = t, ck_Data = b, ck_Midstream = d_midstream d, ck_Gapped = d_gapped d,
       ck_GapBefore = gap, ck_Overlap = overlap, ck_Protocol = proto \<rparr>"

text \<open>The closure \<open>emit\<close> of \<open>emitContiguousLocked\<close>.\<close>

definition emit_bytes ::
  "connection \<Rightarrow> bool \<Rightarrow> bool \<Rightarrow> bytes \<Rightarrow> time \<Rightarrow> u32 \<Rightarrow> chunk list \<times> direction \<times> world \<Rightarrow> chunk list \<times> direction \<times> world" where
  "emit_bytes c forward overlap b t gap s =
     (case s of (out, d, w) \<Rightarrow>
       if b = [] then (out, d, w)
       else
         let known = d_protocol d \<noteq> [] \<and> d_protocol d \<noteq> ''unknown'';
             proto = (if known then d_protocol d else detected b);
             d1 = (if \<not> known \<and> proto \<noteq> ''unknown'' then d\<lparr> d_protocol := proto \<rparr> else d);
             ck = make_chunk c forward d1 b t gap overlap proto
         in (out @ [ck], d1\<lparr> d_next := d_next d1 + of_nat (length b) \<rparr>,
             w\<lparr> w_st := (w_st w)\<lparr> st_chunks := st_chunks (w_st w) + 1,
                                   st_emitted := st_emitted (w_st w) + of_nat (length b) \<rparr> \<rparr>))"

text \<open>Taking a pending segment out of a direction, with the three byte counts.\<close>

definition unbuffer :: "u32 \<Rightarrow> segment \<Rightarrow> direction \<times> world \<Rightarrow> direction \<times> world" where
  "unbuffer seq sg s = (case s of (d, w) \<Rightarrow>
     let n = int (length (sg_data sg))
     in (d\<lparr> d_pending := mdel seq (d_pending d), d_buffered := d_buffered d - n \<rparr>,
         w\<lparr> w_sbuf := w_sbuf w - n, w_st := (w_st w)\<lparr> st_buffered := st_buffered (w_st w) - n \<rparr> \<rparr>))"

lemma emit_bytes_pending [simp]:
  "d_pending (fst (snd (emit_bytes c f ov b t g (out, d, w)))) = d_pending d"
  by (simp add: emit_bytes_def Let_def)

function emit_pending ::
  "connection \<Rightarrow> bool \<Rightarrow> bool \<Rightarrow> chunk list \<times> direction \<times> world \<Rightarrow> chunk list \<times> direction \<times> world" where
  "emit_pending c forward overlap (out, d, w) =
     (case mget (d_pending d) (d_next d) of
        None \<Rightarrow> (out, d, w)
      | Some sg \<Rightarrow>
          let (d1, w1) = unbuffer (d_next d) sg (d, w)
          in emit_pending c forward overlap (emit_bytes c forward overlap (sg_data sg) (sg_ts sg) 0 (out, d1, w1)))"
  by pat_completeness auto
termination
proof (relation "measure (\<lambda>(c, f, ov, out, d, w). length (d_pending d))", goal_cases)
  case (2 c f ov out d w sg dw d1 w1)
  then have p: "d_pending d1 = mdel (d_next d) (d_pending d)" by (simp add: unbuffer_def Let_def)
  obtain o' d' w' where e: "emit_bytes c f ov (sg_data sg) (sg_ts sg) 0 (out, d1, w1) = (o', d', w')"
    by (metis prod.exhaust)
  have "d_pending d' = d_pending d1" using emit_bytes_pending [of c f ov "sg_data sg" "sg_ts sg" 0 out d1 w1] e
    by simp
  with e p length_mdel_less [OF 2(1)] show ?case by simp
qed simp

declare emit_pending.simps [simp del]

definition emitContiguous ::
  "connection \<Rightarrow> bool \<Rightarrow> bytes \<Rightarrow> time \<Rightarrow> u32 \<Rightarrow> bool \<Rightarrow> direction \<times> world \<Rightarrow> chunk list \<times> direction \<times> world" where
  "emitContiguous c forward data ts gapBefore overlap s =
     (case s of (d, w) \<Rightarrow>
       case emit_pending c forward overlap (emit_bytes c forward overlap data ts gapBefore ([], d, w)) of
         (out, d1, w1) \<Rightarrow> (out, if d_pending d1 = [] then d1\<lparr> d_gapSince := 0 \<rparr> else d1, w1))"

section \<open>Accepting a segment\<close>

definition buffer_segment :: "u32 \<Rightarrow> bytes \<Rightarrow> time \<Rightarrow> direction \<times> world \<Rightarrow> direction \<times> world" where
  "buffer_segment seq data ts s = (case s of (d, w) \<Rightarrow>
     let n = int (length data)
     in (d\<lparr> d_pending := mput seq \<lparr> sg_seq = seq, sg_data = data, sg_ts = ts \<rparr> (d_pending d),
             d_buffered := d_buffered d + n \<rparr>,
         w\<lparr> w_sbuf := w_sbuf w + n, w_st := (w_st w)\<lparr> st_buffered := st_buffered (w_st w) + n \<rparr> \<rparr>))"

definition over_limit :: "config \<Rightarrow> direction \<Rightarrow> world \<Rightarrow> u32 \<Rightarrow> bytes \<Rightarrow> bool" where
  "over_limit cfg d w seq data \<longleftrightarrow>
     seqDistance (d_next d) seq > cf_MaxSequenceGap cfg \<or>
     int (length (d_pending d)) \<ge> cf_MaxOutOfOrderSegments cfg \<or>
     d_buffered d + int (length data) > cf_MaxBufferPerDirection cfg \<or>
     st_buffered (w_st w) + int (length data) > cf_MaxTotalBuffer cfg"

text \<open>The branch of a segment ahead of the next expected byte.\<close>

definition accept_ahead ::
  "config \<Rightarrow> connection \<Rightarrow> bool \<Rightarrow> u32 \<Rightarrow> bytes \<Rightarrow> time \<Rightarrow> direction \<times> world \<Rightarrow> direction \<times> world" where
  "accept_ahead cfg c forward seq data ts s = (case s of (d, w) \<Rightarrow>
     if over_limit cfg d w seq data then
       let d1 = d\<lparr> d_gapped := True \<rparr>
       in (d1, w\<lparr> w_st := (w_st w)\<lparr> st_dropped := st_dropped (w_st w) + 1 \<rparr>,
                   w_evs := w_evs w @ [lifecycle_event (set_dir forward d1 c) ''truncated'' ''reassembly_limit''] \<rparr>)
     else case mget (d_pending d) seq of
       Some old \<Rightarrow>
         let w1 = w\<lparr> w_st := (w_st w)\<lparr> st_overlaps := st_overlaps (w_st w) + 1,
               st_overlapConflicts := st_overlapConflicts (w_st w) + (if overlapConflict (sg_data old) data then 1 else 0) \<rparr> \<rparr>
         in if cf_OverlapPolicy cfg = ''last_seen''
            then buffer_segment seq data ts (unbuffer seq old (d, w1))
            else (d, w1)
     | None \<Rightarrow>
         let (d1, w1) = buffer_segment seq data ts (d, w)
         in (if is_zero_time (d_gapSince d1) then d1\<lparr> d_gapSince := ts \<rparr> else d1,
             w1\<lparr> w_st := (w_st w1)\<lparr> st_outOfOrder := st_outOfOrder (w_st w1) + 1 \<rparr> \<rparr>))"

definition acceptLocked ::
  "config \<Rightarrow> connection \<Rightarrow> bool \<Rightarrow> u32 \<Rightarrow> bytes \<Rightarrow> time \<Rightarrow> direction \<times> world \<Rightarrow> chunk list \<times> direction \<times> world" where
  "acceptLocked cfg c forward seq data ts s = (case s of (d, w) \<Rightarrow>
     if data = [] then ([], d, w)
     else
       let d = (if d_initialized d then d else d\<lparr> d_initialized := True, d_next := seq, d_midstream := True \<rparr>);
           behind = seqLess seq (d_next d);
           skip = d_next d - seq;
           w = (if behind then w\<lparr> w_st := (w_st w)\<lparr> st_retransmitted :=
                  st_retransmitted (w_st w) + ucast (minU32 skip (of_nat (length data))) \<rparr> \<rparr> else w)
       in if behind \<and> of_nat (length data) \<le> skip then ([], d, w)
          else
            let data = (if behind then drop (unat skip) data else data);
                seq = (if behind then d_next d else seq);
                w = (if behind then w\<lparr> w_st := (w_st w)\<lparr> st_overlaps := st_overlaps (w_st w) + 1 \<rparr> \<rparr> else w)
            in if seq \<noteq> d_next d then ([], accept_ahead cfg c forward seq data ts (d, w))
               else emitContiguous c forward data ts 0 behind (d, w))"

section \<open>Connections\<close>

definition removeLocked :: "string \<Rightarrow> connection \<Rightarrow> string \<Rightarrow> shard \<times> stats \<Rightarrow> tcp_event list \<times> shard \<times> stats" where
  "removeLocked cid c reason s = (case s of (sh, st) \<Rightarrow>
     let n = d_buffered (c_a2b c) + d_buffered (c_b2a c)
     in ([lifecycle_event c ''closed'' reason],
         sh\<lparr> sh_conns := mdel cid (sh_conns sh), sh_buffered := sh_buffered sh - n \<rparr>,
         st\<lparr> st_buffered := st_buffered st - n, st_active := st_active st - 1, st_closed := st_closed st + 1 \<rparr>))"

text \<open>\<open>ids\<close> is the order in which the run-time visits the connections of the shard.\<close>

definition evictOldest :: "string list \<Rightarrow> string \<Rightarrow> shard \<times> stats \<Rightarrow> tcp_event list \<times> shard \<times> stats" where
  "evictOldest ids reason s = (case s of (sh, st) \<Rightarrow>
     if sh_conns sh = [] then ([], sh, st)
     else
       let seen = (\<lambda>i. case mget (sh_conns sh) i of None \<Rightarrow> 0 | Some c \<Rightarrow> c_lastSeen c)
       in case go_sort (\<lambda>i j. seen i < seen j) ids of
            [] \<Rightarrow> ([], sh, st)
          | oldest # _ \<Rightarrow>
              (case mget (sh_conns sh) oldest of
                 None \<Rightarrow> ([], sh, st)
               | Some c \<Rightarrow> (case removeLocked oldest c reason (sh, st) of
                   (evs, sh1, st1) \<Rightarrow> (evs, sh1, st1\<lparr> st_evicted := st_evicted st1 + 1 \<rparr>))))"

definition new_connection :: "packet \<Rightarrow> string \<Rightarrow> bool \<Rightarrow> connection" where
  "new_connection p cid forward =
     \<lparr> c_id = cid,
       c_aIP = (if forward then pk_SrcIP p else pk_DstIP p), c_bIP = (if forward then pk_DstIP p else pk_SrcIP p),
       c_aPort = (if forward then pk_SrcPort p else pk_DstPort p),
       c_bPort = (if forward then pk_DstPort p else pk_SrcPort p),
       c_a2b = zero_direction, c_b2a = zero_direction, c_lastSeen = pk_Timestamp p, c_closedAt = 0 \<rparr>"

text \<open>Finding or opening the connection of a packet in its shard.\<close>

definition open_connection ::
  "config \<Rightarrow> string list \<Rightarrow> packet \<Rightarrow> shard \<times> stats \<Rightarrow> tcp_event list \<times> connection \<times> shard \<times> stats" where
  "open_connection cfg ids p s = (case s of (sh, st) \<Rightarrow>
     let (cid, forward) = canonical p
     in case mget (sh_conns sh) cid of
          Some c \<Rightarrow> ([], c, sh, st)
        | None \<Rightarrow>
            let (ev1, sh1, st1) = (if st_active st \<ge> cf_MaxConnections cfg
                  then evictOldest ids ''connection_limit'' (sh, st) else ([], sh, st));
                c = new_connection p cid forward
            in (ev1 @ [lifecycle_event c ''opened'' []], c, sh1\<lparr> sh_conns := mput cid c (sh_conns sh1) \<rparr>,
                st1\<lparr> st_active := st_active st1 + 1, st_opened := st_opened st1 + 1 \<rparr>))"

text \<open>The rest of \<open>Push\<close>, on the connection just found: accept the payload, note FIN and RST.\<close>

definition push_connection ::
  "config \<Rightarrow> packet \<Rightarrow> connection \<Rightarrow> shard \<times> stats \<Rightarrow> tcp_event list \<times> chunk list \<times> shard \<times> stats" where
  "push_connection cfg p c0 s = (case s of (sh, st) \<Rightarrow>
     let (cid, forward) = canonical p;
         c = c0\<lparr> c_lastSeen := pk_Timestamp p \<rparr>;
         seq = (if hasFlag (pk_TCPFlags p) ''SYN'' then pk_TCPSeq p + 1 else pk_TCPSeq p);
         (chunks, d1, w1) = acceptLocked cfg c forward seq (pk_AppPayload p) (pk_Timestamp p)
            (get_dir forward c, \<lparr> w_st = st, w_sbuf = sh_buffered sh, w_evs = [] \<rparr>);
         c1 = set_dir forward d1 c;
         closing = hasFlag (pk_TCPFlags p) ''FIN'' \<or> hasFlag (pk_TCPFlags p) ''RST'';
         c2 = (if closing then c1\<lparr> c_closedAt := pk_Timestamp p \<rparr> else c1);
         ev2 = (if closing then [lifecycle_event c2 ''closing'' (to_lower (pk_TCPFlags p))] else [])
     in (w_evs w1 @ ev2, chunks,
         sh\<lparr> sh_conns := mput cid c2 (sh_conns sh), sh_buffered := w_sbuf w1 \<rparr>, w_st w1))"

definition tcp_push :: "string list \<Rightarrow> packet \<Rightarrow> engine \<Rightarrow> tcp_event list \<times> engine" where
  "tcp_push ids p e =
     (if pk_L4Protocol p \<noteq> ''TCP'' then ([], e)
      else
        let st = (e_st e)\<lparr> st_segments := st_segments (e_st e) + 1,
                            st_bytes := st_bytes (e_st e) + of_nat (length (pk_AppPayload p)) \<rparr>;
            i = shard_index (fst (canonical p)) (length (e_shards e));
            (ev1, c, sh1, st1) = open_connection (e_cfg e) ids p (e_shards e ! i, st);
            (ev2, chunks, sh2, st2) = push_connection (e_cfg e) p c (sh1, st1)
        in (ev1 @ ev2 @ map StreamData chunks,
            e\<lparr> e_shards := (e_shards e)[i := sh2], e_st := st2 \<rparr>))"

section \<open>Gap recovery and expiry\<close>

text \<open>\<open>seqs\<close> is the order in which the run-time visits the pending segments.\<close>

definition recoverDirection ::
  "config \<Rightarrow> u32 list \<Rightarrow> connection \<Rightarrow> bool \<Rightarrow> time \<Rightarrow> direction \<times> world \<Rightarrow> chunk list \<times> direction \<times> world" where
  "recoverDirection cfg seqs c forward now s = (case s of (d, w) \<Rightarrow>
     if is_zero_time (d_gapSince d) \<or> time_sub now (d_gapSince d) < cf_GapRecoveryTimeout cfg \<or> d_pending d = []
     then ([], d, w)
     else case go_sort seqLess seqs of
       [] \<Rightarrow> ([], d, w)
     | first # _ \<Rightarrow>
         (case mget (d_pending d) first of
            None \<Rightarrow> ([], d, w)
          | Some sg \<Rightarrow>
              let gap = first - d_next d;
                  d1 = d\<lparr> d_next := first, d_gapped := True, d_gapSince := 0 \<rparr>;
                  w1 = w\<lparr> w_st := (w_st w)\<lparr> st_gapRecoveries := st_gapRecoveries (w_st w) + 1 \<rparr>,
                           w_evs := w_evs w @ [lifecycle_event (set_dir forward d1 c) ''gapped'' ''gap_recovery''] \<rparr>
              in emitContiguous c forward (sg_data sg) (sg_ts sg) gap False (unbuffer first sg (d1, w1))))"

text \<open>One connection of the clean-up pass: recover both directions, then expire.\<close>

definition cleanup_connection ::
  "config \<Rightarrow> time \<Rightarrow> (string \<Rightarrow> bool \<Rightarrow> u32 list) \<Rightarrow> string \<Rightarrow>
   tcp_event list \<times> chunk list \<times> shard \<times> stats \<Rightarrow> tcp_event list \<times> chunk list \<times> shard \<times> stats" where
  "cleanup_connection cfg now seqs cid s = (case s of (evs, cks, sh, st) \<Rightarrow>
     case mget (sh_conns sh) cid of
       None \<Rightarrow> s
     | Some c \<Rightarrow>
         let w0 = \<lparr> w_st = st, w_sbuf = sh_buffered sh, w_evs = evs \<rparr>;
             (out1, d1, w1) = recoverDirection cfg (seqs cid True) c True now (c_a2b c, w0);
             c1 = set_dir True d1 c;
             (out2, d2, w2) = recoverDirection cfg (seqs cid False) c1 False now (c_b2a c1, w1);
             c2 = set_dir False d2 c1;
             sh2 = sh\<lparr> sh_conns := mput cid c2 (sh_conns sh), sh_buffered := w_sbuf w2 \<rparr>;
             keep = (if \<not> is_zero_time (c_closedAt c2)
                     then time_sub now (c_closedAt c2) < cf_ClosedTimeout cfg
                     else time_sub now (c_lastSeen c2) < cf_IdleTimeout cfg);
             reason = (if \<not> is_zero_time (c_closedAt c2) then ''closed'' else ''idle_timeout'')
         in if keep then (w_evs w2, cks @ out1 @ out2, sh2, w_st w2)
            else (case removeLocked cid c2 reason (sh2, w_st w2) of
                    (ev3, sh3, st3) \<Rightarrow> (w_evs w2 @ ev3, cks @ out1 @ out2, sh3, st3)))"

text \<open>
  One shard: \<open>ids\<close> is the visiting order of its connections.  The chunks are published after
  the shard has been unlocked.
\<close>

definition cleanup_shard ::
  "config \<Rightarrow> time \<Rightarrow> (string \<Rightarrow> bool \<Rightarrow> u32 list) \<Rightarrow> string list \<Rightarrow> shard \<times> stats \<Rightarrow> tcp_event list \<times> shard \<times> stats" where
  "cleanup_shard cfg now seqs ids s = (case s of (sh, st) \<Rightarrow>
     case fold (cleanup_connection cfg now seqs) ids ([], [], sh, st) of
       (evs, cks, sh1, st1) \<Rightarrow> (evs @ map StreamData cks, sh1, st1))"

fun cleanup_shards ::
  "config \<Rightarrow> time \<Rightarrow> (nat \<Rightarrow> string \<Rightarrow> bool \<Rightarrow> u32 list) \<Rightarrow> (nat \<Rightarrow> string list) \<Rightarrow> nat \<Rightarrow>
   shard list \<Rightarrow> stats \<Rightarrow> tcp_event list \<times> shard list \<times> stats" where
  "cleanup_shards cfg now seqs ids i [] st = ([], [], st)"
| "cleanup_shards cfg now seqs ids i (sh # shs) st =
     (case cleanup_shard cfg now (seqs i) (ids i) (sh, st) of
        (ev1, sh1, st1) \<Rightarrow>
          (case cleanup_shards cfg now seqs ids (Suc i) shs st1 of
             (ev2, shs2, st2) \<Rightarrow> (ev1 @ ev2, sh1 # shs2, st2)))"

definition tcp_cleanup ::
  "time \<Rightarrow> (nat \<Rightarrow> string \<Rightarrow> bool \<Rightarrow> u32 list) \<Rightarrow> (nat \<Rightarrow> string list) \<Rightarrow> engine \<Rightarrow> tcp_event list \<times> engine" where
  "tcp_cleanup now seqs ids e =
     (case cleanup_shards (e_cfg e) now seqs ids 0 (e_shards e) (e_st e) of
        (evs, shs, st) \<Rightarrow> (evs, e\<lparr> e_shards := shs, e_st := st \<rparr>))"

end
