(* ===== verification/Tcp_Accounting.thy ===== *)
theory Tcp_Accounting
  imports Tcp_Reassembly
begin

text \<open>
  The memory bounds of the TCP reassembly engine.  Every operation on a direction keeps the
  three byte counts (direction, shard, engine) equal to the bytes that are really pending and
  within the configured limits; the operations on connections keep the connection count; the
  invariant of the engine follows for every sequence of packets and clean-up passes, whatever
  order the run-time visits its maps in.
\<close>

section \<open>One direction\<close>

definition seg_bytes :: "segment \<Rightarrow> int" where "seg_bytes sg = int (length (sg_data sg))"

definition dir_ok :: "direction \<Rightarrow> bool" where
  "dir_ok d \<longleftrightarrow> wf_map (d_pending d) \<and> d_buffered d = msum seg_bytes (d_pending d)"

definition dir_within :: "config \<Rightarrow> direction \<Rightarrow> bool" where
  "dir_within cfg d \<longleftrightarrow> int (length (d_pending d)) \<le> cf_MaxOutOfOrderSegments cfg \<and>
     d_buffered d \<le> cf_MaxBufferPerDirection cfg"

text \<open>
  What one operation on a direction may do to the counts around it.  Emitted and pending bytes
  move together with the three byte counts; connections are not touched.
\<close>

definition dir_step :: "config \<Rightarrow> direction \<times> world \<Rightarrow> direction \<times> world \<Rightarrow> bool" where
  "dir_step cfg s t \<longleftrightarrow> (case (s, t) of ((d, w), (d', w')) \<Rightarrow>
     dir_ok d \<longrightarrow>
       dir_ok d' \<and> d_buffered d' - d_buffered d = w_sbuf w' - w_sbuf w \<and>
       d_buffered d' - d_buffered d = st_buffered (w_st w') - st_buffered (w_st w) \<and>
       st_active (w_st w') = st_active (w_st w) \<and> st_opened (w_st w') = st_opened (w_st w) \<and>
       st_closed (w_st w') = st_closed (w_st w) \<and>
       (dir_within cfg d \<longrightarrow> dir_within cfg d') \<and>
       (st_buffered (w_st w) \<le> cf_MaxTotalBuffer cfg \<longrightarrow> st_buffered (w_st w') \<le> cf_MaxTotalBuffer cfg))"

lemma dir_step_refl [simp, intro]: "dir_step cfg s s"
  by (auto simp: dir_step_def)

lemma dir_step_trans [trans]: "dir_step cfg s t \<Longrightarrow> dir_step cfg t u \<Longrightarrow> dir_step cfg s u"
  by (cases s; cases t; cases u) (auto simp: dir_step_def)

lemma seg_bytes_nonneg: "0 \<le> seg_bytes sg" by (simp add: seg_bytes_def)

lemma msum_nonneg: "(\<And>v. 0 \<le> f v) \<Longrightarrow> 0 \<le> msum f m"
  by (auto simp: msum_def intro!: sum_list_nonneg)

lemma dir_ok_nonneg: "dir_ok d \<Longrightarrow> 0 \<le> d_buffered d"
  by (simp add: dir_ok_def msum_nonneg seg_bytes_nonneg)

text \<open>Changes of the fields that are not counted.\<close>

lemma dir_step_fields:
  assumes "d_pending d' = d_pending d" "d_buffered d' = d_buffered d" "w_sbuf w' = w_sbuf w"
    "st_buffered (w_st w') = st_buffered (w_st w)" "st_active (w_st w') = st_active (w_st w)"
    "st_opened (w_st w') = st_opened (w_st w)" "st_closed (w_st w') = st_closed (w_st w)"
  shows "dir_step cfg (d, w) (d', w')"
  using assms by (simp add: dir_step_def dir_ok_def dir_within_def)

lemma emit_bytes_step: "dir_step cfg (d, w) (snd (emit_bytes c f ov b t g (out, d, w)))"
  by (auto simp: emit_bytes_def Let_def intro: dir_step_fields)

lemma unbuffer_step:
  assumes "mget (d_pending d) seq = Some sg"
  shows "dir_step cfg (d, w) (unbuffer seq sg (d, w))"
  using msum_mdel [OF _ assms, of seg_bytes] length_mdel [OF _ assms] seg_bytes_nonneg [of sg]
  by (auto simp: dir_step_def unbuffer_def Let_def dir_ok_def dir_within_def seg_bytes_def)

lemma buffer_step:
  assumes "mget (d_pending d) seq = None" and "int (length (d_pending d)) < cf_MaxOutOfOrderSegments cfg"
    and "d_buffered d + int (length data) \<le> cf_MaxBufferPerDirection cfg"
    and "st_buffered (w_st w) + int (length data) \<le> cf_MaxTotalBuffer cfg"
  shows "dir_step cfg (d, w) (buffer_segment seq data ts (d, w))"
  using assms msum_mput [of "d_pending d" seg_bytes seq "\<lparr> sg_seq = seq, sg_data = data, sg_ts = ts \<rparr>"]
  by (auto simp: dir_step_def buffer_segment_def Let_def dir_ok_def dir_within_def seg_bytes_def length_mput)

lemma emit_pending_step: "dir_step cfg (d, w) (snd (emit_pending c f ov (out, d, w)))"
proof (induction c f ov "(out, d, w)" arbitrary: out d w rule: emit_pending.induct)
  case (1 c f ov out d w)
  show ?case
  proof (cases "mget (d_pending d) (d_next d)")
    case None
    then show ?thesis by (subst emit_pending.simps) simp
  next
    case (Some sg)
    obtain d1 w1 where u: "unbuffer (d_next d) sg (d, w) = (d1, w1)" by (metis prod.exhaust)
    obtain o2 d2 w2 where e: "emit_bytes c f ov (sg_data sg) (sg_ts sg) 0 (out, d1, w1) = (o2, d2, w2)"
      by (metis prod.exhaust)
    have "dir_step cfg (d, w) (d1, w1)" using unbuffer_step [OF Some, of cfg w] u by simp
    also have "dir_step cfg (d1, w1) (d2, w2)"
      using emit_bytes_step [of cfg d1 w1 c f ov "sg_data sg" "sg_ts sg" 0 out] e by simp
    also have "dir_step cfg (d2, w2) (snd (emit_pending c f ov (o2, d2, w2)))"
      by (rule 1 [OF Some u [symmetric] refl, unfolded e]) simp
    finally show ?thesis using Some u e by (subst emit_pending.simps) simp
  qed
qed

lemma emitContiguous_step: "dir_step cfg (d, w) (snd (emitContiguous c f data ts g ov (d, w)))"
proof -
  obtain o1 d1 w1 where e: "emit_bytes c f ov data ts g ([], d, w) = (o1, d1, w1)" by (metis prod.exhaust)
  obtain o2 d2 w2 where p: "emit_pending c f ov (o1, d1, w1) = (o2, d2, w2)" by (metis prod.exhaust)
  have "dir_step cfg (d, w) (d1, w1)" using emit_bytes_step [of cfg d w c f ov data ts g "[]"] e by simp
  also have "dir_step cfg (d1, w1) (d2, w2)" using emit_pending_step [of cfg d1 w1 c f ov o1] p by simp
  also have "dir_step cfg (d2, w2) (if d_pending d2 = [] then d2\<lparr> d_gapSince := 0 \<rparr> else d2, w2)"
    by (rule dir_step_fields) simp_all
  finally show ?thesis by (simp add: emitContiguous_def e p)
qed

lemma accept_ahead_step: "dir_step cfg (d, w) (accept_ahead cfg c f seq data ts (d, w))"
proof (cases "over_limit cfg d w seq data")
  case True
  then show ?thesis by (auto simp: accept_ahead_def Let_def intro: dir_step_fields)
next
  case lim: False
  then have l: "int (length (d_pending d)) < cf_MaxOutOfOrderSegments cfg"
    "d_buffered d + int (length data) \<le> cf_MaxBufferPerDirection cfg"
    "st_buffered (w_st w) + int (length data) \<le> cf_MaxTotalBuffer cfg"
    by (auto simp: over_limit_def)
  show ?thesis
  proof (cases "mget (d_pending d) seq")
    case None
    obtain d1 w1 where b: "buffer_segment seq data ts (d, w) = (d1, w1)" by (metis prod.exhaust)
    have "dir_step cfg (d, w) (d1, w1)" using buffer_step [OF None l, of ts] b by simp
    also have "dir_step cfg (d1, w1)
        (if is_zero_time (d_gapSince d1) then d1\<lparr> d_gapSince := ts \<rparr> else d1,
         w1\<lparr> w_st := (w_st w1)\<lparr> st_outOfOrder := st_outOfOrder (w_st w1) + 1 \<rparr> \<rparr>)"
      by (rule dir_step_fields) simp_all
    finally show ?thesis using lim None b by (simp add: accept_ahead_def)
  next
    case (Some old)
    define w1 where "w1 = w\<lparr> w_st := (w_st w)\<lparr> st_overlaps := st_overlaps (w_st w) + 1,
       st_overlapConflicts := st_overlapConflicts (w_st w) + (if overlapConflict (sg_data old) data then 1 else 0) \<rparr> \<rparr>"
    have s1: "dir_step cfg (d, w) (d, w1)" by (rule dir_step_fields) (simp_all add: w1_def)
    show ?thesis
    proof (cases "cf_OverlapPolicy cfg = ''last_seen''")
      case False
      with lim Some s1 show ?thesis by (simp add: accept_ahead_def w1_def Let_def)
    next
      case True
      obtain d2 w2 where u: "unbuffer seq old (d, w1) = (d2, w2)" by (metis prod.exhaust)
      have s2: "dir_step cfg (d, w1) (d2, w2)" using unbuffer_step [OF Some, of cfg w1] u by simp
      have f: "mget (d_pending d2) seq = None" "int (length (d_pending d2)) < cf_MaxOutOfOrderSegments cfg"
        "d_buffered d2 + int (length data) \<le> cf_MaxBufferPerDirection cfg"
        "st_buffered (w_st w2) + int (length data) \<le> cf_MaxTotalBuffer cfg"
        using l u length_mdel_le [of seq "d_pending d"]
        by (auto simp: unbuffer_def Let_def w1_def)
      have "dir_step cfg (d2, w2) (buffer_segment seq data ts (d2, w2))" by (rule buffer_step [OF f])
      with s1 s2 have "dir_step cfg (d, w) (buffer_segment seq data ts (d2, w2))" by (blast intro: dir_step_trans)
      with lim Some True u show ?thesis by (simp add: accept_ahead_def w1_def Let_def)
    qed
  qed
qed

lemma acceptLocked_step: "dir_step cfg (d, w) (snd (acceptLocked cfg c f seq data ts (d, w)))"
proof (cases "data = []")
  case True
  then show ?thesis by (simp add: acceptLocked_def)
next
  case False
  define d1 where "d1 = (if d_initialized d then d else d\<lparr> d_initialized := True, d_next := seq, d_midstream := True \<rparr>)"
  have s1: "dir_step cfg (d, w) (d1, w)" by (rule dir_step_fields) (simp_all add: d1_def)
  show ?thesis
  proof (cases "seqLess seq (d_next d1)")
    case True
    define w1 where "w1 = w\<lparr> w_st := (w_st w)\<lparr> st_retransmitted :=
       st_retransmitted (w_st w) + ucast (minU32 (d_next d1 - seq) (of_nat (length data))) \<rparr> \<rparr>"
    define w2 where "w2 = w1\<lparr> w_st := (w_st w1)\<lparr> st_overlaps := st_overlaps (w_st w1) + 1 \<rparr> \<rparr>"
    have s2: "dir_step cfg (d1, w) (d1, w1)" by (rule dir_step_fields) (simp_all add: w1_def)
    have s3: "dir_step cfg (d1, w1) (d1, w2)" by (rule dir_step_fields) (simp_all add: w2_def)
    have s4: "dir_step cfg (d1, w2)
       (snd (emitContiguous c f (drop (unat (d_next d1 - seq)) data) ts 0 True (d1, w2)))"
      by (rule emitContiguous_step)
    from s1 s2 s3 s4 True \<open>data \<noteq> []\<close> show ?thesis
      by (auto simp: acceptLocked_def Let_def d1_def [symmetric] w1_def [symmetric] w2_def [symmetric]
          intro: dir_step_trans)
  next
    case ahead: False
    have "dir_step cfg (d1, w) (accept_ahead cfg c f seq data ts (d1, w))" by (rule accept_ahead_step)
    moreover have "dir_step cfg (d1, w) (snd (emitContiguous c f data ts 0 False (d1, w)))"
      by (rule emitContiguous_step)
    ultimately show ?thesis using s1 ahead \<open>data \<noteq> []\<close>
      by (auto simp: acceptLocked_def Let_def d1_def [symmetric] intro: dir_step_trans)
  qed
qed

lemma recoverDirection_step: "dir_step cfg (d, w) (snd (recoverDirection cfg seqs c f now (d, w)))"
proof (cases "is_zero_time (d_gapSince d) \<or> time_sub now (d_gapSince d) < cf_GapRecoveryTimeout cfg \<or> d_pending d = []")
  case True
  then show ?thesis by (simp add: recoverDirection_def)
next
  case go: False
  show ?thesis
  proof (cases "go_sort seqLess seqs")
    case Nil
    with go show ?thesis by (simp add: recoverDirection_def del: go_sort_Nil_iff)
  next
    case (Cons first rest)
    show ?thesis
    proof (cases "mget (d_pending d) first")
      case None
      with go Cons show ?thesis by (simp add: recoverDirection_def)
    next
      case (Some sg)
      define d1 where "d1 = d\<lparr> d_next := first, d_gapped := True, d_gapSince := 0 \<rparr>"
      define w1 where "w1 = w\<lparr> w_st := (w_st w)\<lparr> st_gapRecoveries := st_gapRecoveries (w_st w) + 1 \<rparr>,
        w_evs := w_evs w @ [lifecycle_event (set_dir f d1 c) ''gapped'' ''gap_recovery''] \<rparr>"
      have "dir_step cfg (d, w) (d1, w1)" by (rule dir_step_fields) (simp_all add: d1_def w1_def)
      also have "dir_step cfg (d1, w1) (unbuffer first sg (d1, w1))"
        by (rule unbuffer_step) (simp add: d1_def Some)
      also obtain d2 w2 where u: "unbuffer first sg (d1, w1) = (d2, w2)" by (metis prod.exhaust)
      also have "dir_step cfg (d2, w2)
          (snd (emitContiguous c f (sg_data sg) (sg_ts sg) (first - d_next d) False (d2, w2)))"
        by (rule emitContiguous_step)
      finally show ?thesis using go Cons Some u
        by (simp add: recoverDirection_def Let_def d1_def [symmetric] w1_def [symmetric])
    qed
  qed
qed

section \<open>Connections and shards\<close>

definition conn_bytes :: "connection \<Rightarrow> int" where
  "conn_bytes c = d_buffered (c_a2b c) + d_buffered (c_b2a c)"

definition conn_ok :: "config \<Rightarrow> connection \<Rightarrow> bool" where
  "conn_ok cfg c \<longleftrightarrow> dir_ok (c_a2b c) \<and> dir_ok (c_b2a c) \<and> dir_within cfg (c_a2b c) \<and> dir_within cfg (c_b2a c)"

definition shard_ok :: "config \<Rightarrow> shard \<Rightarrow> bool" where
  "shard_ok cfg sh \<longleftrightarrow> wf_map (sh_conns sh) \<and> sh_buffered sh = msum conn_bytes (sh_conns sh) \<and>
     (\<forall>(k, c) \<in> set (sh_conns sh). conn_ok cfg c)"

definition shard_step :: "config \<Rightarrow> shard \<times> stats \<Rightarrow> shard \<times> stats \<Rightarrow> bool" where
  "shard_step cfg s t \<longleftrightarrow> (case (s, t) of ((sh, st), (sh', st')) \<Rightarrow>
     shard_ok cfg sh \<longrightarrow>
       shard_ok cfg sh' \<and> st_buffered st' - st_buffered st = sh_buffered sh' - sh_buffered sh \<and>
       st_active st' - st_active st = int (length (sh_conns sh')) - int (length (sh_conns sh)) \<and>
       st_opened st' - st_closed st' - of_int (st_active st') = st_opened st - st_closed st - of_int (st_active st) \<and>
       (st_buffered st \<le> cf_MaxTotalBuffer cfg \<longrightarrow> st_buffered st' \<le> cf_MaxTotalBuffer cfg))"

lemma shard_step_refl [simp, intro]: "shard_step cfg s s"
  by (auto simp: shard_step_def)

lemma shard_step_trans [trans]: "shard_step cfg s t \<Longrightarrow> shard_step cfg t u \<Longrightarrow> shard_step cfg s u"
  by (cases s; cases t; cases u) (auto simp: shard_step_def)

lemma shard_ok_conn: "shard_ok cfg sh \<Longrightarrow> mget (sh_conns sh) k = Some c \<Longrightarrow> conn_ok cfg c"
  by (auto simp: shard_ok_def dest!: mget_SomeD)

lemma conn_ok_bytes: "conn_ok cfg c \<Longrightarrow> 0 \<le> conn_bytes c"
  by (simp add: conn_ok_def conn_bytes_def dir_ok_nonneg)

lemma removeLocked_step:
  assumes "mget (sh_conns sh) k = Some c"
  shows "shard_step cfg (sh, st) (snd (removeLocked k c reason (sh, st)))"
proof -
  have "shard_ok cfg sh \<Longrightarrow> msum conn_bytes (mdel k (sh_conns sh)) = msum conn_bytes (sh_conns sh) - conn_bytes c"
    "shard_ok cfg sh \<Longrightarrow> Suc (length (mdel k (sh_conns sh))) = length (sh_conns sh)"
    using msum_mdel [OF _ assms] length_mdel [OF _ assms] by (auto simp: shard_ok_def)
  moreover have "shard_ok cfg sh \<Longrightarrow> 0 \<le> conn_bytes c"
    using shard_ok_conn [OF _ assms] conn_ok_bytes by blast
  ultimately show ?thesis
    by (auto simp: shard_step_def removeLocked_def Let_def shard_ok_def conn_bytes_def
        intro: mdel_forall [where P = "\<lambda>k c. conn_ok cfg c", simplified])
      (auto simp: mdel_def)
qed

lemma evictOldest_step: "shard_step cfg (sh, st) (snd (evictOldest ids reason (sh, st)))"
proof (cases "sh_conns sh = []")
  case True
  then show ?thesis by (simp add: evictOldest_def)
next
  case ne: False
  define seen where "seen = (\<lambda>i. case mget (sh_conns sh) i of None \<Rightarrow> 0 | Some c \<Rightarrow> c_lastSeen c)"
  show ?thesis
  proof (cases "go_sort (\<lambda>i j. seen i < seen j) ids")
    case Nil
    with ne show ?thesis by (simp add: evictOldest_def seen_def Let_def del: go_sort_Nil_iff)
  next
    case (Cons k ks)
    show ?thesis
    proof (cases "mget (sh_conns sh) k")
      case None
      with ne Cons show ?thesis by (simp add: evictOldest_def seen_def Let_def)
    next
      case (Some c)
      obtain ev sh1 st1 where r: "removeLocked k c reason (sh, st) = (ev, sh1, st1)" by (metis prod.exhaust)
      have "shard_step cfg (sh, st) (sh1, st1)" using removeLocked_step [OF Some, of cfg st reason] r by simp
      also have "shard_step cfg (sh1, st1) (sh1, st1\<lparr> st_evicted := st_evicted st1 + 1 \<rparr>)"
        by (simp add: shard_step_def)
      finally show ?thesis using ne Cons Some r by (simp add: evictOldest_def seen_def Let_def)
    qed
  qed
qed

lemma new_connection_ok:
  assumes "0 \<le> cf_MaxOutOfOrderSegments cfg" "0 \<le> cf_MaxBufferPerDirection cfg"
  shows "conn_ok cfg (new_connection p k f) \<and> conn_bytes (new_connection p k f) = 0"
  using assms by (simp add: conn_ok_def conn_bytes_def new_connection_def zero_direction_def dir_ok_def dir_within_def)

definition limits_ok :: "config \<Rightarrow> bool" where
  "limits_ok cfg \<longleftrightarrow> 0 \<le> cf_MaxOutOfOrderSegments cfg \<and> 0 \<le> cf_MaxBufferPerDirection cfg \<and>
     0 \<le> cf_MaxTotalBuffer cfg \<and> 0 \<le> cf_MaxConnections cfg"

text \<open>Storing a connection back, or a new one.\<close>

lemma store_connection:
  assumes "shard_ok cfg sh" and "conn_ok cfg c"
  shows "shard_ok cfg (sh\<lparr> sh_conns := mput k c (sh_conns sh), sh_buffered := sh_buffered sh + conn_bytes c -
     (case mget (sh_conns sh) k of None \<Rightarrow> 0 | Some c0 \<Rightarrow> conn_bytes c0) \<rparr>)"
  using assms msum_mput [of "sh_conns sh" conn_bytes k c]
    mput_forall [of "sh_conns sh" "\<lambda>k c. conn_ok cfg c" k c]
  by (auto simp: shard_ok_def)

lemma open_connection_found:
  assumes "mget (sh_conns sh) (fst (canonical p)) = Some c"
  shows "open_connection cfg ids p (sh, st) = ([], c, sh, st)"
  using assms by (simp add: open_connection_def case_prod_beta)

lemma open_connection_fresh:
  assumes "mget (sh_conns sh) (fst (canonical p)) = None"
    and "(if st_active st \<ge> cf_MaxConnections cfg then evictOldest ids ''connection_limit'' (sh, st)
          else ([], sh, st)) = (ev1, sh1, st1)"
    and "c = new_connection p (fst (canonical p)) (snd (canonical p))"
  shows "open_connection cfg ids p (sh, st) =
    (ev1 @ [lifecycle_event c ''opened'' []], c,
     sh1\<lparr> sh_conns := mput (fst (canonical p)) c (sh_conns sh1) \<rparr>,
     st1\<lparr> st_active := st_active st1 + 1, st_opened := st_opened st1 + 1 \<rparr>)"
proof -
  obtain k f where c: "canonical p = (k, f)" by (metis prod.exhaust)
  have n: "mget (sh_conns sh) k = None" using assms(1) c by simp
  show ?thesis
    unfolding open_connection_def by (simp only: c n assms(2,3) prod.case Let_def option.case fst_conv snd_conv)
qed

lemma evict_absent:
  "mget (sh_conns sh) k = None \<Longrightarrow> mget (sh_conns (fst (snd (evictOldest ids reason (sh, st))))) k = None"
  by (auto simp: evictOldest_def removeLocked_def Let_def split: list.splits option.splits)

lemma open_connection_step:
  assumes "limits_ok cfg" and "open_connection cfg ids p (sh, st) = (ev, c, sh', st')"
  shows "shard_step cfg (sh, st) (sh', st') \<and> mget (sh_conns sh') (fst (canonical p)) = Some c"
proof (cases "mget (sh_conns sh) (fst (canonical p))")
  case (Some c0)
  with assms(2) open_connection_found [OF Some] show ?thesis by auto
next
  case None
  obtain ev1 sh1 st1 where e: "(if st_active st \<ge> cf_MaxConnections cfg
     then evictOldest ids ''connection_limit'' (sh, st) else ([], sh, st)) = (ev1, sh1, st1)"
    by (metis prod.exhaust)
  have s1: "shard_step cfg (sh, st) (sh1, st1)"
    using evictOldest_step [of cfg sh st ids "''connection_limit''"] e by (auto split: if_splits)
  have n: "mget (sh_conns sh1) (fst (canonical p)) = None"
    using evict_absent [OF None, of ids "''connection_limit''" st] None e by (auto split: if_splits)
  define c1 where "c1 = new_connection p (fst (canonical p)) (snd (canonical p))"
  have ok: "conn_ok cfg c1 \<and> conn_bytes c1 = 0"
    using assms(1) new_connection_ok [of cfg] by (simp add: limits_ok_def c1_def)
  have res: "c = c1" "sh' = sh1\<lparr> sh_conns := mput (fst (canonical p)) c1 (sh_conns sh1) \<rparr>"
    "st' = st1\<lparr> st_active := st_active st1 + 1, st_opened := st_opened st1 + 1 \<rparr>"
    using open_connection_fresh [OF None e c1_def] assms(2) by auto
  have "shard_step cfg (sh1, st1) (sh', st')"
    using store_connection [of cfg sh1 c1 "fst (canonical p)"] ok n
    by (auto simp: shard_step_def res length_mput shard_ok_def)
  with s1 res show ?thesis by (auto intro: shard_step_trans)
qed

text \<open>An operation on one direction of a stored connection is an operation on the shard.\<close>

lemma direction_in_shard:
  assumes "dir_step cfg (get_dir f c, \<lparr> w_st = st, w_sbuf = sh_buffered sh, w_evs = ev \<rparr>) (d', w')"
    and "mget (sh_conns sh) k = Some c0"
    and "c_a2b c = c_a2b c0" and "c_b2a c = c_b2a c0"
    and "c_a2b c' = c_a2b (set_dir f d' c)" and "c_b2a c' = c_b2a (set_dir f d' c)"
  shows "shard_step cfg (sh, st) (sh\<lparr> sh_conns := mput k c' (sh_conns sh), sh_buffered := w_sbuf w' \<rparr>, w_st w')"
proof -
  have "shard_step cfg (sh, st) (sh\<lparr> sh_conns := mput k c' (sh_conns sh), sh_buffered := w_sbuf w' \<rparr>, w_st w')"
    if ok: "shard_ok cfg sh"
  proof -
    have c0: "conn_ok cfg c0" using ok assms(2) by (rule shard_ok_conn)
    have dok: "dir_ok (get_dir f c)" "dir_within cfg (get_dir f c)"
      using c0 assms(3,4) by (auto simp: get_dir_def conn_ok_def)
    with assms(1) have d': "dir_ok d'" "dir_within cfg d'"
      "d_buffered d' - d_buffered (get_dir f c) = w_sbuf w' - sh_buffered sh"
      "d_buffered d' - d_buffered (get_dir f c) = st_buffered (w_st w') - st_buffered st"
      "st_active (w_st w') = st_active st" "st_opened (w_st w') = st_opened st" "st_closed (w_st w') = st_closed st"
      "st_buffered st \<le> cf_MaxTotalBuffer cfg \<longrightarrow> st_buffered (w_st w') \<le> cf_MaxTotalBuffer cfg"
      by (auto simp: dir_step_def)
    have c': "conn_ok cfg c'" using c0 d'(1,2) assms(3-6) by (auto simp: conn_ok_def set_dir_def)
    have b: "conn_bytes c' - conn_bytes c0 = d_buffered d' - d_buffered (get_dir f c)"
      using assms(3-6) by (auto simp: conn_bytes_def set_dir_def get_dir_def)
    have "w_sbuf w' = sh_buffered sh + conn_bytes c' - conn_bytes c0" using b d'(3) by simp
    with store_connection [OF ok c', of k] assms(2)
    have "shard_ok cfg (sh\<lparr> sh_conns := mput k c' (sh_conns sh), sh_buffered := w_sbuf w' \<rparr>)" by simp
    with d' b assms(2) show ?thesis by (simp add: shard_step_def length_mput)
  qed
  then show ?thesis by (auto simp: shard_step_def)
qed

lemma push_connection_step:
  assumes "mget (sh_conns sh) (fst (canonical p)) = Some c0"
  shows "shard_step cfg (sh, st) (snd (snd (push_connection cfg p c0 (sh, st))))"
proof -
  define f where "f = snd (canonical p)"
  define c where "c = c0\<lparr> c_lastSeen := pk_Timestamp p \<rparr>"
  define seq where "seq = (if hasFlag (pk_TCPFlags p) ''SYN'' then pk_TCPSeq p + 1 else pk_TCPSeq p)"
  obtain cks d1 w1 where a: "acceptLocked cfg c f seq (pk_AppPayload p) (pk_Timestamp p)
      (get_dir f c, \<lparr> w_st = st, w_sbuf = sh_buffered sh, w_evs = [] \<rparr>) = (cks, d1, w1)" by (metis prod.exhaust)
  have "dir_step cfg (get_dir f c, \<lparr> w_st = st, w_sbuf = sh_buffered sh, w_evs = [] \<rparr>) (d1, w1)"
    using acceptLocked_step [of cfg "get_dir f c" "\<lparr> w_st = st, w_sbuf = sh_buffered sh, w_evs = [] \<rparr>" c f seq
        "pk_AppPayload p" "pk_Timestamp p"] a by simp
  moreover define c2 where "c2 = (if hasFlag (pk_TCPFlags p) ''FIN'' \<or> hasFlag (pk_TCPFlags p) ''RST''
      then (set_dir f d1 c)\<lparr> c_closedAt := pk_Timestamp p \<rparr> else set_dir f d1 c)"
  ultimately have "shard_step cfg (sh, st)
      (sh\<lparr> sh_conns := mput (fst (canonical p)) c2 (sh_conns sh), sh_buffered := w_sbuf w1 \<rparr>, w_st w1)"
    using assms by (intro direction_in_shard [where f = f and c = c]) (auto simp: c_def)
  then show ?thesis using a
    by (auto simp: push_connection_def case_prod_beta Let_def f_def [symmetric] c_def [symmetric]
        seq_def [symmetric] c2_def split: if_splits)
qed

lemma cleanup_connection_step:
  "shard_step cfg (sh, st) (snd (snd (cleanup_connection cfg now seqs k (evs, cks, sh, st))))"
proof (cases "mget (sh_conns sh) k")
  case None
  then show ?thesis by (simp add: cleanup_connection_def)
next
  case (Some c)
  obtain o1 d1 w1 where r1: "recoverDirection cfg (seqs k True) c True now
      (c_a2b c, \<lparr> w_st = st, w_sbuf = sh_buffered sh, w_evs = evs \<rparr>) = (o1, d1, w1)" by (metis prod.exhaust)
  define c1 where "c1 = set_dir True d1 c"
  obtain o2 d2 w2 where r2: "recoverDirection cfg (seqs k False) c1 False now (c_b2a c1, w1) = (o2, d2, w2)"
    by (metis prod.exhaust)
  define c2 where "c2 = set_dir False d2 c1"
  define sh1 where "sh1 = sh\<lparr> sh_conns := mput k c1 (sh_conns sh), sh_buffered := w_sbuf w1 \<rparr>"
  define sh2 where "sh2 = sh\<lparr> sh_conns := mput k c2 (sh_conns sh), sh_buffered := w_sbuf w2 \<rparr>"
  have m1: "mget (sh_conns sh1) k = Some c1" by (simp add: sh1_def)
  have "dir_step cfg (c_a2b c, \<lparr> w_st = st, w_sbuf = sh_buffered sh, w_evs = evs \<rparr>) (d1, w1)"
    using recoverDirection_step [of cfg "c_a2b c" "\<lparr> w_st = st, w_sbuf = sh_buffered sh, w_evs = evs \<rparr>" "seqs k True" c True now]
      r1 by simp
  then have s1: "shard_step cfg (sh, st) (sh1, w_st w1)"
    unfolding sh1_def by (intro direction_in_shard [where f = True and c = c, OF _ Some]) (auto simp: get_dir_def c1_def)
  have w1: "w1 = \<lparr> w_st = w_st w1, w_sbuf = sh_buffered sh1, w_evs = w_evs w1 \<rparr>" by (simp add: sh1_def)
  have "dir_step cfg (c_b2a c1, w1) (d2, w2)"
    using recoverDirection_step [of cfg "c_b2a c1" w1 "seqs k False" c1 False now] r2 by simp
  then have st2: "dir_step cfg (get_dir False c1, \<lparr> w_st = w_st w1, w_sbuf = sh_buffered sh1, w_evs = w_evs w1 \<rparr>) (d2, w2)"
    using w1 by (simp add: get_dir_def)
  have "shard_step cfg (sh1, w_st w1) (sh1\<lparr> sh_conns := mput k c2 (sh_conns sh1), sh_buffered := w_sbuf w2 \<rparr>, w_st w2)"
    by (rule direction_in_shard [OF st2 m1]) (auto simp: c2_def)
  moreover have "sh1\<lparr> sh_conns := mput k c2 (sh_conns sh1), sh_buffered := w_sbuf w2 \<rparr> = sh2"
    by (simp add: sh1_def sh2_def mput_def update_triv)
  ultimately have s2: "shard_step cfg (sh, st) (sh2, w_st w2)" using s1 by (auto intro: shard_step_trans)
  have m2: "mget (sh_conns sh2) k = Some c2" by (simp add: sh2_def)
  from s2 removeLocked_step [OF m2, of cfg "w_st w2"]
  have s3: "shard_step cfg (sh, st) (snd (removeLocked k c2 reason (sh2, w_st w2)))" for reason
    by (blast intro: shard_step_trans)
  show ?thesis using Some r1 r2 s2 s3
    by (auto simp: cleanup_connection_def Let_def c1_def [symmetric] c2_def [symmetric] sh2_def [symmetric] case_prod_beta)
qed

lemma cleanup_fold_step:
  "shard_step cfg (sh, st) (snd (snd (fold (cleanup_connection cfg now seqs) ids (evs, cks, sh, st))))"
proof (induction ids arbitrary: evs cks sh st)
  case Nil
  then show ?case by simp
next
  case (Cons k ids)
  obtain evs1 cks1 sh1 st1 where c: "cleanup_connection cfg now seqs k (evs, cks, sh, st) = (evs1, cks1, sh1, st1)"
    by (metis prod.exhaust)
  have "shard_step cfg (sh, st) (sh1, st1)"
    using cleanup_connection_step [of cfg sh st now seqs k evs cks] c by simp
  also have "shard_step cfg (sh1, st1) (snd (snd (fold (cleanup_connection cfg now seqs) ids (evs1, cks1, sh1, st1))))"
    by (rule Cons.IH)
  finally show ?case by (simp add: c)
qed

lemma cleanup_shard_step: "shard_step cfg (sh, st) (snd (cleanup_shard cfg now seqs ids (sh, st)))"
  using cleanup_fold_step [of cfg sh st now seqs ids "[]" "[]"]
  by (simp add: cleanup_shard_def case_prod_beta)

section \<open>The engine\<close>

text \<open>
  The operations of a run: a packet (with the visiting order of the map it may have to scan)
  or a clean-up pass.
\<close>

datatype tcp_op =
    OpPush "string list" packet
  | OpCleanup time "nat \<Rightarrow> string \<Rightarrow> bool \<Rightarrow> u32 list" "nat \<Rightarrow> string list"

fun tcp_step :: "tcp_op \<Rightarrow> engine \<Rightarrow> engine" where
  "tcp_step (OpPush ids p) e = snd (tcp_push ids p e)"
| "tcp_step (OpCleanup now seqs ids) e = snd (tcp_cleanup now seqs ids e)"

definition total_buffered :: "shard list \<Rightarrow> int" where
  "total_buffered shs = sum_list (map sh_buffered shs)"

definition total_conns :: "shard list \<Rightarrow> int" where
  "total_conns shs = sum_list (map (\<lambda>sh. int (length (sh_conns sh))) shs)"

definition tcp_inv :: "engine \<Rightarrow> bool" where
  "tcp_inv e \<longleftrightarrow> limits_ok (e_cfg e) \<and> e_shards e \<noteq> [] \<and> (\<forall>sh \<in> set (e_shards e). shard_ok (e_cfg e) sh) \<and>
     st_buffered (e_st e) = total_buffered (e_shards e) \<and> st_active (e_st e) = total_conns (e_shards e) \<and>
     st_opened (e_st e) - st_closed (e_st e) = of_int (st_active (e_st e)) \<and>
     st_buffered (e_st e) \<le> cf_MaxTotalBuffer (e_cfg e)"

lemma total_update:
  fixes f :: "'a \<Rightarrow> int"
  shows "i < length xs \<Longrightarrow> sum_list (map f (xs[i := y])) = sum_list (map f xs) + f y - f (xs ! i)"
  using sum_list_map_update [of i xs f y] by simp

lemma shard_index_less: "0 < n \<Longrightarrow> shard_index k n < n"
  by (simp add: shard_index_def)

text \<open>What a packet does, seen from its shard.\<close>

definition count_segment :: "packet \<Rightarrow> stats \<Rightarrow> stats" where
  "count_segment p st = st\<lparr> st_segments := st_segments st + 1,
     st_bytes := st_bytes st + of_nat (length (pk_AppPayload p)) \<rparr>"

definition push_shard :: "config \<Rightarrow> string list \<Rightarrow> packet \<Rightarrow> shard \<times> stats \<Rightarrow> shard \<times> stats" where
  "push_shard cfg ids p s = (case open_connection cfg ids p s of
     (ev, c, sh, st) \<Rightarrow> snd (snd (push_connection cfg p c (sh, st))))"

lemma tcp_push_shard:
  assumes "pk_L4Protocol p = ''TCP''"
    and "i = shard_index (fst (canonical p)) (length (e_shards e))"
    and "push_shard (e_cfg e) ids p (e_shards e ! i, count_segment p (e_st e)) = (sh', st')"
  shows "snd (tcp_push ids p e) = e\<lparr> e_shards := (e_shards e)[i := sh'], e_st := st' \<rparr>"
  using assms by (simp add: tcp_push_def push_shard_def count_segment_def Let_def case_prod_beta)

lemma push_shard_step: "limits_ok cfg \<Longrightarrow> shard_step cfg (sh, st) (push_shard cfg ids p (sh, st))"
proof -
  assume l: "limits_ok cfg"
  obtain ev c sh1 st1 where o: "open_connection cfg ids p (sh, st) = (ev, c, sh1, st1)" by (metis prod.exhaust)
  from open_connection_step [OF l o] push_connection_step [of sh1 p c cfg st1]
  show ?thesis by (auto simp: push_shard_def o intro: shard_step_trans)
qed

lemma shard_step_engine:
  assumes "tcp_inv e" and "i < length (e_shards e)" and "shard_step (e_cfg e) (e_shards e ! i, st) (sh', st')"
    and "st_buffered st = st_buffered (e_st e)" "st_active st = st_active (e_st e)"
    "st_opened st = st_opened (e_st e)" "st_closed st = st_closed (e_st e)"
  shows "tcp_inv (e\<lparr> e_shards := (e_shards e)[i := sh'], e_st := st' \<rparr>)"
proof -
  have ok: "shard_ok (e_cfg e) (e_shards e ! i)" using assms(1,2) by (simp add: tcp_inv_def)
  then have sh': "shard_ok (e_cfg e) sh'" using assms(3) by (simp add: shard_step_def)
  have "\<forall>sh \<in> set ((e_shards e)[i := sh']). shard_ok (e_cfg e) sh"
    using assms(1) sh' set_update_subset_insert [of "e_shards e" i sh'] by (auto simp: tcp_inv_def)
  with assms ok show ?thesis
    by (auto simp: tcp_inv_def shard_step_def total_buffered_def total_conns_def total_update algebra_simps)
qed

lemma tcp_push_inv: "tcp_inv e \<Longrightarrow> tcp_inv (snd (tcp_push ids p e))"
proof (cases "pk_L4Protocol p = ''TCP''")
  case True
  assume inv: "tcp_inv e"
  define i where "i = shard_index (fst (canonical p)) (length (e_shards e))"
  obtain sh' st' where s: "push_shard (e_cfg e) ids p (e_shards e ! i, count_segment p (e_st e)) = (sh', st')"
    by (metis prod.exhaust)
  have "shard_step (e_cfg e) (e_shards e ! i, count_segment p (e_st e)) (sh', st')"
    using push_shard_step [of "e_cfg e" "e_shards e ! i" "count_segment p (e_st e)" ids p] inv s
    by (simp add: tcp_inv_def)
  moreover have "i < length (e_shards e)" using inv by (simp add: tcp_inv_def i_def shard_index_less)
  ultimately show ?thesis using inv tcp_push_shard [OF True i_def s]
    by (auto intro!: shard_step_engine simp: count_segment_def)
qed (simp add: tcp_push_def)

lemma cleanup_shards_inv:
  assumes "\<forall>sh \<in> set shs. shard_ok cfg sh"
    and "cleanup_shards cfg now seqs ids i shs st = (evs, shs', st')"
  shows "(\<forall>sh \<in> set shs'. shard_ok cfg sh) \<and> length shs' = length shs \<and>
    st_buffered st' - st_buffered st = total_buffered shs' - total_buffered shs \<and>
    st_active st' - st_active st = total_conns shs' - total_conns shs \<and>
    st_opened st' - st_closed st' - of_int (st_active st') = st_opened st - st_closed st - of_int (st_active st) \<and>
    (st_buffered st \<le> cf_MaxTotalBuffer cfg \<longrightarrow> st_buffered st' \<le> cf_MaxTotalBuffer cfg)"
  using assms
proof (induction shs arbitrary: i st evs shs' st')
  case Nil
  then show ?case by simp
next
  case (Cons sh shs)
  obtain ev1 sh1 st1 where c: "cleanup_shard cfg now (seqs i) (ids i) (sh, st) = (ev1, sh1, st1)"
    by (metis prod.exhaust)
  obtain ev2 shs2 st2 where r: "cleanup_shards cfg now seqs ids (Suc i) shs st1 = (ev2, shs2, st2)"
    by (metis prod.exhaust)
  have "shard_step cfg (sh, st) (sh1, st1)"
    using cleanup_shard_step [of cfg sh st now "seqs i" "ids i"] c by simp
  moreover have "shs' = sh1 # shs2" "st' = st2" using Cons.prems(2) c r by auto
  moreover have "\<forall>sh \<in> set shs. shard_ok cfg sh" "shard_ok cfg sh" using Cons.prems(1) by auto
  ultimately show ?case using Cons.IH [OF _ r]
    by (auto simp: shard_step_def total_buffered_def total_conns_def)
qed

lemma tcp_cleanup_inv: "tcp_inv e \<Longrightarrow> tcp_inv (snd (tcp_cleanup now seqs ids e))"
proof -
  assume inv: "tcp_inv e"
  obtain evs shs' st' where c: "cleanup_shards (e_cfg e) now seqs ids 0 (e_shards e) (e_st e) = (evs, shs', st')"
    by (metis prod.exhaust)
  from cleanup_shards_inv [OF _ c] inv show ?thesis
    by (auto simp: tcp_cleanup_def c tcp_inv_def algebra_simps)
qed

lemma tcp_new_inv: "tcp_inv (tcp_new cfg0)"
  by (auto simp: tcp_new_def tcp_inv_def limits_ok_def default_config_def Let_def total_buffered_def
      total_conns_def shard_ok_def zero_stats_def sum_list_replicate)

interpretation tcp_machine: invariant_machine tcp_step tcp_inv "tcp_new cfg0" for cfg0
proof
  show "tcp_inv (tcp_new cfg0)" by (rule tcp_new_inv)
next
  fix e op assume "tcp_inv e"
  then show "tcp_inv (tcp_step op e)" by (cases op) (simp_all add: tcp_push_inv tcp_cleanup_inv)
qed

text \<open>The bytes that are really pending in the maps of the engine.\<close>

definition pending_bytes :: "engine \<Rightarrow> int" where
  "pending_bytes e = sum_list (map (\<lambda>sh. msum (\<lambda>c. msum seg_bytes (d_pending (c_a2b c)) +
     msum seg_bytes (d_pending (c_b2a c))) (sh_conns sh)) (e_shards e))"

lemma msum_cong: "(\<And>k v. (k, v) \<in> set m \<Longrightarrow> f v = g v) \<Longrightarrow> msum f m = msum g m"
  unfolding msum_def by (rule arg_cong [of _ _ sum_list]) (auto intro: map_cong)

lemma pending_bytes_counted: "tcp_inv e \<Longrightarrow> pending_bytes e = st_buffered (e_st e)"
proof -
  assume inv: "tcp_inv e"
  have "msum (\<lambda>c. msum seg_bytes (d_pending (c_a2b c)) + msum seg_bytes (d_pending (c_b2a c))) (sh_conns sh) =
      sh_buffered sh" if "sh \<in> set (e_shards e)" for sh
  proof -
    have ok: "shard_ok (e_cfg e) sh" using inv that by (simp add: tcp_inv_def)
    have "msum (\<lambda>c. msum seg_bytes (d_pending (c_a2b c)) + msum seg_bytes (d_pending (c_b2a c))) (sh_conns sh) =
        msum conn_bytes (sh_conns sh)"
      using ok by (intro msum_cong) (auto simp: shard_ok_def conn_ok_def dir_ok_def conn_bytes_def)
    with ok show ?thesis by (simp add: shard_ok_def)
  qed
  then have "pending_bytes e = total_buffered (e_shards e)"
    unfolding pending_bytes_def total_buffered_def by (intro arg_cong [of _ _ sum_list] map_cong) auto
  with inv show ?thesis by (simp add: tcp_inv_def)
qed

text \<open>
  C3: The memory of the reassembly engine is bounded.  After any sequence of packets and
  clean-up passes, in any map visiting order, the byte counter of the engine equals the bytes
  held in its pending segments and is at most MaxTotalBuffer; no direction holds more than
  MaxBufferPerDirection bytes or MaxOutOfOrderSegments segments; and the connection counter is the
  number of connections in the maps, which is the number opened less the number closed.
\<close>

theorem tcp_memory_bounded:
  assumes "e = fold tcp_step ops (tcp_new cfg0)"
  shows "pending_bytes e = st_buffered (e_st e) \<and> st_buffered (e_st e) \<le> cf_MaxTotalBuffer (e_cfg e) \<and>
    (\<forall>sh \<in> set (e_shards e). \<forall>(k, c) \<in> set (sh_conns sh). \<forall>f.
       d_buffered (get_dir f c) = msum seg_bytes (d_pending (get_dir f c)) \<and>
       d_buffered (get_dir f c) \<le> cf_MaxBufferPerDirection (e_cfg e) \<and>
       int (length (d_pending (get_dir f c))) \<le> cf_MaxOutOfOrderSegments (e_cfg e)) \<and>
    st_active (e_st e) = total_conns (e_shards e) \<and>
    st_opened (e_st e) - st_closed (e_st e) = of_int (total_conns (e_shards e))"
proof -
  have inv: "tcp_inv e" unfolding assms by (rule tcp_machine.reachable_inv)
  then have "\<forall>sh \<in> set (e_shards e). \<forall>(k, c) \<in> set (sh_conns sh). conn_ok (e_cfg e) c"
    by (auto simp: tcp_inv_def shard_ok_def)
  then have "\<forall>sh \<in> set (e_shards e). \<forall>(k, c) \<in> set (sh_conns sh). \<forall>f.
       dir_ok (get_dir f c) \<and> dir_within (e_cfg e) (get_dir f c)"
    by (fastforce simp: conn_ok_def get_dir_def)
  with inv pending_bytes_counted [OF inv] show ?thesis
    by (fastforce simp: tcp_inv_def dir_ok_def dir_within_def)
qed

definition sample_config :: config where
  "sample_config = \<lparr> cf_Enabled = True, cf_MaxConnections = 1, cf_MaxBufferPerDirection = 64,
     cf_MaxTotalBuffer = 128, cf_IdleTimeout = 0, cf_ClosedTimeout = 0, cf_MaxOutOfOrderSegments = 4,
     cf_MaxSequenceGap = 0, cf_GapRecoveryTimeout = 0, cf_ShardCount = 2, cf_OverlapPolicy = ''first_seen'' \<rparr>"

definition sample_segment :: "string \<Rightarrow> u16 \<Rightarrow> u32 \<Rightarrow> bytes \<Rightarrow> packet" where
  "sample_segment ip port seq data = zero_packet\<lparr> pk_L4Protocol := ''TCP'', pk_SrcIP := ip, pk_SrcPort := port,
     pk_DstIP := ''10.0.0.9'', pk_DstPort := 502, pk_TCPSeq := seq, pk_AppPayload := data, pk_Timestamp := 1 \<rparr>"

theorem tcp_memory_bounded_witness:
  "let e = fold tcp_step [OpPush [] (sample_segment ''10.0.0.1'' 1024 5 [1, 2]),
       OpPush [] (sample_segment ''10.0.0.1'' 1024 9 [3])] (tcp_new sample_config)
   in pending_bytes e = st_buffered (e_st e) \<and> st_buffered (e_st e) \<le> cf_MaxTotalBuffer (e_cfg e)"
  unfolding Let_def by (rule tcp_memory_bounded [OF refl, THEN conjunct1, THEN conjI,
      OF tcp_memory_bounded [OF refl, THEN conjunct2, THEN conjunct1]])

section \<open>The number of connections\<close>

text \<open>A run in which the scans of the maps visit each of their keys exactly once.\<close>

inductive tcp_run :: "config \<Rightarrow> engine \<Rightarrow> bool" for cfg0 where
  tcp_start: "tcp_run cfg0 (tcp_new cfg0)"
| tcp_packet: "tcp_run cfg0 e \<Longrightarrow>
    range_order ids (sh_conns (e_shards e ! shard_index (fst (canonical p)) (length (e_shards e)))) \<Longrightarrow>
    tcp_run cfg0 (snd (tcp_push ids p e))"
| tcp_pass: "tcp_run cfg0 e \<Longrightarrow> tcp_run cfg0 (snd (tcp_cleanup now seqs ids e))"

definition occupied :: "shard \<Rightarrow> int" where
  "occupied sh = (if sh_conns sh = [] then 0 else 1)"

definition total_occupied :: "shard list \<Rightarrow> int" where
  "total_occupied shs = sum_list (map occupied shs)"

lemma tcp_run_inv: "tcp_run cfg0 e \<Longrightarrow> tcp_inv e"
  by (induction rule: tcp_run.induct) (auto intro: tcp_new_inv tcp_push_inv tcp_cleanup_inv)

lemma total_occupied_le: "total_occupied shs \<le> int (length shs)"
  unfolding total_occupied_def by (induction shs) (auto simp: occupied_def)

lemma push_connection_length:
  assumes "mget (sh_conns sh) (fst (canonical p)) = Some c0"
  shows "length (sh_conns (fst (snd (snd (push_connection cfg p c0 (sh, st)))))) = length (sh_conns sh)"
  using assms by (simp add: push_connection_def case_prod_beta Let_def length_mput)

lemma evict_removes:
  assumes "range_order ids (sh_conns sh)" and "sh_conns sh \<noteq> []" and "wf_map (sh_conns sh)"
  shows "Suc (length (sh_conns (fst (snd (evictOldest ids reason (sh, st)))))) = length (sh_conns sh)"
proof -
  define seen where "seen = (\<lambda>i. case mget (sh_conns sh) i of None \<Rightarrow> 0 | Some c \<Rightarrow> c_lastSeen c)"
  have "ids \<noteq> []" using assms(1,2) by (auto simp: range_order_def mkeys_def)
  then obtain k ks where s: "go_sort (\<lambda>i j. seen i < seen j) ids = k # ks"
    by (metis go_sort_Nil_iff neq_Nil_conv)
  then have "k \<in> set ids" by (metis list.set_intros(1) set_go_sort)
  then have "mget (sh_conns sh) k \<noteq> None" using assms(1) by (simp add: range_order_def mget_None_iff)
  then obtain c where c: "mget (sh_conns sh) k = Some c" by blast
  from length_mdel [OF assms(3) c] show ?thesis
    using assms(2) s c by (simp add: evictOldest_def seen_def [symmetric] removeLocked_def Let_def)
qed

definition oldest_connection :: "(string, connection) gomap \<Rightarrow> string \<Rightarrow> bool" where
  "oldest_connection m k \<longleftrightarrow> (\<exists>c. mget m k = Some c \<and> (\<forall>k' c'. mget m k' = Some c' \<longrightarrow> c_lastSeen c \<le> c_lastSeen c'))"

lemma evict_takes_oldest:
  assumes "range_order ids (sh_conns sh)" and "sh_conns sh \<noteq> []"
  shows "\<exists>k. oldest_connection (sh_conns sh) k \<and>
    set (mkeys (sh_conns (fst (snd (evictOldest ids reason (sh, st)))))) = set (mkeys (sh_conns sh)) - {k}"
proof -
  define seen where "seen = (\<lambda>i. case mget (sh_conns sh) i of None \<Rightarrow> 0 | Some c \<Rightarrow> c_lastSeen c)"
  have "ids \<noteq> []" using assms by (auto simp: range_order_def mkeys_def)
  then obtain k ks where s: "go_sort (\<lambda>i j. seen i < seen j) ids = k # ks"
    by (metis go_sort_Nil_iff neq_Nil_conv)
  then have k: "k \<in> set ids" by (metis list.set_intros(1) set_go_sort)
  then obtain c where c: "mget (sh_conns sh) k = Some c"
    using assms(1) mget_None_iff [of "sh_conns sh" k] by (auto simp: range_order_def)
  have "c_lastSeen c \<le> c_lastSeen c'" if c': "mget (sh_conns sh) k' = Some c'" for k' c'
  proof -
    have "k' \<in> set ids" using assms(1) c' mget_None_iff [of "sh_conns sh" k'] by (auto simp: range_order_def)
    from go_sort_least [of seen, OF s this] show ?thesis using c c' by (simp add: seen_def)
  qed
  then have "oldest_connection (sh_conns sh) k" using c by (auto simp: oldest_connection_def)
  moreover have "sh_conns (fst (snd (evictOldest ids reason (sh, st)))) = mdel k (sh_conns sh)"
    using assms(2) s c by (simp add: evictOldest_def seen_def [symmetric] removeLocked_def Let_def)
  ultimately show ?thesis by (auto simp: mkeys_mdel)
qed

text \<open>
  The connections of the shard of a packet, and the situation in which a packet evicts: it
  opens a connection in a shard that holds some, and the limit has been reached.
\<close>

definition conns_of :: "engine \<Rightarrow> packet \<Rightarrow> (string, connection) gomap" where
  "conns_of e p = sh_conns (e_shards e ! shard_index (fst (canonical p)) (length (e_shards e)))"

definition must_evict :: "engine \<Rightarrow> packet \<Rightarrow> bool" where
  "must_evict e p \<longleftrightarrow> pk_L4Protocol p = ''TCP'' \<and> conns_of e p \<noteq> [] \<and> mget (conns_of e p) (fst (canonical p)) = None \<and>
     cf_MaxConnections (e_cfg e) \<le> st_active (e_st e)"

lemma push_shard_evicts:
  assumes "limits_ok cfg" and "range_order ids (sh_conns sh)" and "sh_conns sh \<noteq> []"
    and "mget (sh_conns sh) (fst (canonical p)) = None" and "cf_MaxConnections cfg \<le> st_active st"
    and "push_shard cfg ids p (sh, st) = (sh', st')"
  shows "\<exists>k. oldest_connection (sh_conns sh) k \<and>
    set (mkeys (sh_conns sh')) = insert (fst (canonical p)) (set (mkeys (sh_conns sh)) - {k})"
proof -
  obtain ev c sh1 st1 where o: "open_connection cfg ids p (sh, st) = (ev, c, sh1, st1)" by (metis prod.exhaust)
  obtain ev1 sh2 st2 where e: "evictOldest ids ''connection_limit'' (sh, st) = (ev1, sh2, st2)" by (metis prod.exhaust)
  have "sh_conns sh1 = mput (fst (canonical p)) c (sh_conns sh2)"
    using open_connection_fresh [of sh p cfg st ids, OF assms(4) _ refl] e assms(5) o by auto
  moreover have "\<exists>x. sh_conns sh' = mput (fst (canonical p)) x (sh_conns sh1)"
    using assms(6) by (auto simp: push_shard_def o push_connection_def case_prod_beta Let_def)
  ultimately have "set (mkeys (sh_conns sh')) = insert (fst (canonical p)) (set (mkeys (sh_conns sh2)))"
    by (auto simp: mkeys_mput)
  with evict_takes_oldest [OF assms(2,3), of "''connection_limit''" st] e show ?thesis by auto
qed

lemma tcp_push_evicts:
  assumes "tcp_inv e" and "must_evict e p" and "range_order ids (conns_of e p)"
  shows "\<exists>k. oldest_connection (conns_of e p) k \<and>
    set (mkeys (conns_of (snd (tcp_push ids p e)) p)) = insert (fst (canonical p)) (set (mkeys (conns_of e p)) - {k})"
proof -
  define i where "i = shard_index (fst (canonical p)) (length (e_shards e))"
  have i: "i < length (e_shards e)" and l: "limits_ok (e_cfg e)" using assms(1) by (simp_all add: tcp_inv_def i_def shard_index_less)
  obtain sh' st' where s: "push_shard (e_cfg e) ids p (e_shards e ! i, count_segment p (e_st e)) = (sh', st')"
    by (metis prod.exhaust)
  have tcp: "pk_L4Protocol p = ''TCP''" using assms(2) by (simp add: must_evict_def)
  have c: "conns_of e p = sh_conns (e_shards e ! i)" by (simp add: conns_of_def i_def)
  have c': "conns_of (snd (tcp_push ids p e)) p = sh_conns sh'"
    using i by (simp add: tcp_push_shard [OF tcp i_def s] conns_of_def i_def [symmetric])
  show ?thesis unfolding c'
    using push_shard_evicts [OF l _ _ _ _ s] assms(2,3) by (simp add: c must_evict_def count_segment_def)
qed

lemma push_shard_count:
  assumes "shard_ok cfg sh" and "limits_ok cfg" and "range_order ids (sh_conns sh)"
    and "push_shard cfg ids p (sh, st) = (sh', st')"
  shows "int (length (sh_conns sh')) - int (length (sh_conns sh)) \<le> occupied sh' - occupied sh \<or>
     (st_active st < cf_MaxConnections cfg \<and> length (sh_conns sh') = Suc (length (sh_conns sh)))"
proof -
  obtain ev c sh1 st1 where o: "open_connection cfg ids p (sh, st) = (ev, c, sh1, st1)" by (metis prod.exhaust)
  have m: "mget (sh_conns sh1) (fst (canonical p)) = Some c" using open_connection_step [OF assms(2) o] by simp
  have len: "length (sh_conns sh') = length (sh_conns sh1)"
    using assms(4) push_connection_length [OF m, of cfg st1] by (simp add: push_shard_def o)
  show ?thesis
  proof (cases "mget (sh_conns sh) (fst (canonical p))")
    case (Some c0)
    with o open_connection_found [OF Some] have "sh1 = sh" by auto
    with len show ?thesis by (auto simp: occupied_def)
  next
    case None
    obtain ev1 sh2 st2 where e: "(if st_active st \<ge> cf_MaxConnections cfg
       then evictOldest ids ''connection_limit'' (sh, st) else ([], sh, st)) = (ev1, sh2, st2)"
      by (metis prod.exhaust)
    have n: "mget (sh_conns sh2) (fst (canonical p)) = None"
      using evict_absent [OF None, of ids "''connection_limit''" st] None e by (auto split: if_splits)
    have sh1: "sh_conns sh1 = mput (fst (canonical p)) c (sh_conns sh2)"
      using open_connection_fresh [OF None e refl] o by auto
    with n have len1: "length (sh_conns sh1) = Suc (length (sh_conns sh2))" by (simp add: length_mput)
    show ?thesis
    proof (cases "st_active st < cf_MaxConnections cfg")
      case True
      with e len len1 show ?thesis by auto
    next
      case False
      show ?thesis
      proof (cases "sh_conns sh = []")
        case True
        with False e have "sh2 = sh" by (auto simp: evictOldest_def)
        with True len len1 show ?thesis by (auto simp: occupied_def)
      next
        case ne: False
        have "wf_map (sh_conns sh)" using assms(1) by (simp add: shard_ok_def)
        from evict_removes [OF assms(3) ne this, of "''connection_limit''" st] False e
        have "Suc (length (sh_conns sh2)) = length (sh_conns sh)" by simp
        with ne len len1 show ?thesis by (auto simp: occupied_def)
      qed
    qed
  qed
qed

lemma cleanup_connection_shrinks:
  "length (sh_conns (fst (snd (snd (cleanup_connection cfg now seqs k (evs, cks, sh, st)))))) \<le> length (sh_conns sh)"
proof (cases "mget (sh_conns sh) k")
  case (Some c)
  then have "length (mput k c' (sh_conns sh)) = length (sh_conns sh)" for c' by (simp add: length_mput)
  moreover have "length (mdel k (mput k c' (sh_conns sh))) \<le> length (sh_conns sh)" for c'
    using length_mdel_le [of k "mput k c' (sh_conns sh)"] calculation [of c'] by simp
  ultimately show ?thesis using Some
    by (simp add: cleanup_connection_def Let_def case_prod_beta removeLocked_def)
qed (simp add: cleanup_connection_def)

lemma cleanup_fold_shrinks:
  "length (sh_conns (fst (snd (snd (fold (cleanup_connection cfg now seqs) ids (evs, cks, sh, st)))))) \<le> length (sh_conns sh)"
proof (induction ids arbitrary: evs cks sh st)
  case (Cons k ids)
  obtain evs1 cks1 sh1 st1 where c: "cleanup_connection cfg now seqs k (evs, cks, sh, st) = (evs1, cks1, sh1, st1)"
    by (metis prod.exhaust)
  have "length (sh_conns sh1) \<le> length (sh_conns sh)"
    using cleanup_connection_shrinks [of cfg now seqs k evs cks sh st] c by simp
  with Cons.IH [of evs1 cks1 sh1 st1] show ?case by (simp add: c)
qed simp

lemma cleanup_shards_shrinks:
  "cleanup_shards cfg now seqs ids i shs st = (evs, shs', st') \<Longrightarrow>
   total_conns shs' - total_conns shs \<le> total_occupied shs' - total_occupied shs"
proof (induction shs arbitrary: i st evs shs' st')
  case Nil
  then show ?case by simp
next
  case (Cons sh shs)
  obtain ev1 sh1 st1 where c: "cleanup_shard cfg now (seqs i) (ids i) (sh, st) = (ev1, sh1, st1)"
    by (metis prod.exhaust)
  obtain ev2 shs2 st2 where r: "cleanup_shards cfg now seqs ids (Suc i) shs st1 = (ev2, shs2, st2)"
    by (metis prod.exhaust)
  have "length (sh_conns sh1) \<le> length (sh_conns sh)"
    using cleanup_fold_shrinks [of cfg now "seqs i" "ids i" "[]" "[]" sh st] c
    by (simp add: cleanup_shard_def case_prod_beta)
  then have "int (length (sh_conns sh1)) - int (length (sh_conns sh)) \<le> occupied sh1 - occupied sh"
    by (auto simp: occupied_def)
  with Cons.IH [OF r] Cons.prems c r show ?case by (auto simp: total_conns_def total_occupied_def)
qed

lemma tcp_run_bounded:
  assumes "tcp_run cfg0 e"
  shows "st_active (e_st e) \<le> cf_MaxConnections (e_cfg e) + total_occupied (e_shards e) \<and>
    total_occupied (e_shards e) \<le> int (length (e_shards e))"
  using assms
proof (induction rule: tcp_run.induct)
  case tcp_start
  have "limits_ok (e_cfg (tcp_new cfg0))" using tcp_new_inv by (simp add: tcp_inv_def)
  then show ?case using total_occupied_le
    by (auto simp: tcp_new_def Let_def zero_stats_def total_occupied_def occupied_def sum_list_replicate limits_ok_def)
next
  case (tcp_packet e ids p)
  have inv: "tcp_inv e" using tcp_packet.hyps(1) by (rule tcp_run_inv)
  show ?case
  proof (cases "pk_L4Protocol p = ''TCP''")
    case False
    with tcp_packet.IH show ?thesis by (simp add: tcp_push_def)
  next
    case True
    define i where "i = shard_index (fst (canonical p)) (length (e_shards e))"
    have i: "i < length (e_shards e)" using inv by (simp add: tcp_inv_def i_def shard_index_less)
    obtain sh' st' where s: "push_shard (e_cfg e) ids p (e_shards e ! i, count_segment p (e_st e)) = (sh', st')"
      by (metis prod.exhaust)
    note e' = tcp_push_shard [OF True i_def s]
    have inv': "tcp_inv (snd (tcp_push ids p e))" using inv by (rule tcp_push_inv)
    have "shard_ok (e_cfg e) (e_shards e ! i)" "limits_ok (e_cfg e)" using inv i by (auto simp: tcp_inv_def)
    note count = push_shard_count [OF this tcp_packet.hyps(2) [folded i_def] s]
    have T: "total_conns ((e_shards e)[i := sh']) =
        total_conns (e_shards e) + int (length (sh_conns sh')) - int (length (sh_conns (e_shards e ! i)))"
      using i by (simp add: total_conns_def total_update)
    have K: "total_occupied ((e_shards e)[i := sh']) =
        total_occupied (e_shards e) + occupied sh' - occupied (e_shards e ! i)"
      using i by (simp add: total_occupied_def total_update)
    have act: "st_active (e_st e) = total_conns (e_shards e)" "st_active st' = total_conns ((e_shards e)[i := sh'])"
      "st_active (count_segment p (e_st e)) = st_active (e_st e)"
      using inv inv' by (simp_all add: e' tcp_inv_def count_segment_def)
    have "0 \<le> total_occupied ((e_shards e)[i := sh'])"
      unfolding total_occupied_def by (rule sum_list_nonneg) (auto simp: occupied_def)
    then have "st_active st' \<le> cf_MaxConnections (e_cfg e) + total_occupied ((e_shards e)[i := sh'])"
      using count tcp_packet.IH T K act by linarith
    then show ?thesis using total_occupied_le [of "(e_shards e)[i := sh']"] by (simp add: e')
  qed
next
  case (tcp_pass e now seqs ids)
  have inv: "tcp_inv e" using tcp_pass.hyps(1) by (rule tcp_run_inv)
  have inv': "tcp_inv (snd (tcp_cleanup now seqs ids e))" using inv by (rule tcp_cleanup_inv)
  obtain evs shs' st' where c: "cleanup_shards (e_cfg e) now seqs ids 0 (e_shards e) (e_st e) = (evs, shs', st')"
    by (metis prod.exhaust)
  from cleanup_shards_shrinks [OF c] inv inv' tcp_pass.IH total_occupied_le show ?case
    by (auto simp: tcp_cleanup_def c tcp_inv_def)
qed

text \<open>
  C4: The connection limit holds up to one connection per shard: at every point of a run the
  number of tracked connections is at most MaxConnections plus the number of shards that hold
  any.  And it is held by evicting the oldest: a packet that opens a connection in a shard that holds
  some, when the limit has been reached, replaces the connection of that shard whose last packet
  is the oldest, and no other, in whatever order the run-time visits the map.
\<close>

theorem tcp_connections_bounded:
  assumes "tcp_run cfg0 e"
  shows "st_active (e_st e) \<le> cf_MaxConnections (e_cfg e) + total_occupied (e_shards e) \<and>
    total_occupied (e_shards e) \<le> int (length (e_shards e)) \<and>
    (\<forall>p ids. must_evict e p \<and> range_order ids (conns_of e p) \<longrightarrow>
      (\<exists>k. oldest_connection (conns_of e p) k \<and>
        set (mkeys (conns_of (snd (tcp_push ids p e)) p)) = insert (fst (canonical p)) (set (mkeys (conns_of e p)) - {k})))"
  using tcp_run_bounded [OF assms] tcp_push_evicts [OF tcp_run_inv [OF assms]] by blast

theorem tcp_connections_bounded_witness:
  "st_active (e_st (snd (tcp_push [] (sample_segment ''10.0.0.1'' 1024 5 [1, 2]) (tcp_new sample_config)))) \<le>
   cf_MaxConnections (e_cfg (snd (tcp_push [] (sample_segment ''10.0.0.1'' 1024 5 [1, 2]) (tcp_new sample_config)))) +
   int (length (e_shards (snd (tcp_push [] (sample_segment ''10.0.0.1'' 1024 5 [1, 2]) (tcp_new sample_config)))))"
proof -
  have "sh_conns (e_shards (tcp_new sample_config) !
      shard_index (fst (canonical (sample_segment ''10.0.0.1'' 1024 5 [1, 2]))) (length (e_shards (tcp_new sample_config)))) = []"
    by (simp add: tcp_new_def Let_def default_config_def sample_config_def shard_index_less)
  then have "tcp_run sample_config (snd (tcp_push [] (sample_segment ''10.0.0.1'' 1024 5 [1, 2]) (tcp_new sample_config)))"
    by (intro tcp_packet tcp_start) (simp add: range_order_def mkeys_def)
  from tcp_connections_bounded [OF this] show ?thesis by linarith
qed

end
