(* ===== verification/Tcp_Stream.thy ===== *)
theory Tcp_Stream
  imports Tcp_Reassembly
begin

text \<open>
  What the TCP reassembly delivers.  The payload of one direction is a byte string \<open>S\<close>; a
  segment is a stretch of it whose sequence number is the initial one plus its offset, modulo
  \<open>2 ^ 32\<close>.  Streams are shorter than \<open>2 ^ 31\<close> bytes here, the range in which the program's
  signed comparison of sequence numbers is an order.
\<close>

section \<open>Identity of a connection\<close>

type_synonym endpoint = "string \<times> u16"

definition tcp_key :: "endpoint \<Rightarrow> endpoint \<Rightarrow> string" where
  "tcp_key x y = ordered_pair_text CHR ''-'' (endpoint_text (fst x) (snd x)) (endpoint_text (fst y) (snd y))"

definition pk_src :: "packet \<Rightarrow> endpoint" where "pk_src p = (pk_SrcIP p, pk_SrcPort p)"
definition pk_dst :: "packet \<Rightarrow> endpoint" where "pk_dst p = (pk_DstIP p, pk_DstPort p)"

definition no_dash :: "endpoint \<Rightarrow> bool" where "no_dash x \<longleftrightarrow> CHR ''-'' \<notin> set (fst x)"

lemma canonical_key: "fst (canonical p) = tcp_key (pk_src p) (pk_dst p)"
  by (simp add: canonical_def tcp_key_def ordered_pair_text_def pk_src_def pk_dst_def Let_def)

interpretation tcp_ids: conversation_key tcp_key no_dash
proof
  fix a b show "tcp_key a b = tcp_key b a"
    unfolding tcp_key_def by (rule ordered_pair_text_comm)
next
  fix a b c d :: endpoint
  assume v: "no_dash a" "no_dash b" "no_dash c" "no_dash d" and k: "tcp_key a b = tcp_key c d"
  have nd: "CHR ''-'' \<notin> set (endpoint_text (fst x) (snd x))" if "no_dash x" for x
    using that endpoint_text_sep(2) by (simp add: no_dash_def)
  from ordered_pair_text_inj [OF v [THEN nd] k [unfolded tcp_key_def]]
  show "a = c \<and> b = d \<or> a = d \<and> b = c" by (auto simp: prod_eq_iff)
qed

text \<open>
  A connection is identified by its two endpoints and nothing else: two packets are given the
  same connection exactly when they have the same unordered pair of address and port, provided the
  addresses contain no dash (none in the text form of an IP address does), so both directions of a
  conversation share one connection and different conversations never do; and the two directions
  of a conversation are told apart.
\<close>

theorem canonical_identifies_connection:
  assumes "no_dash (pk_src p)" "no_dash (pk_dst p)" "no_dash (pk_src q)" "no_dash (pk_dst q)"
  shows "(fst (canonical p) = fst (canonical q) \<longleftrightarrow> {pk_src p, pk_dst p} = {pk_src q, pk_dst q}) \<and>
    (pk_src p = pk_dst q \<and> pk_dst p = pk_src q \<and> pk_src p \<noteq> pk_dst p \<longrightarrow>
       snd (canonical p) \<noteq> snd (canonical q))"
proof -
  have "snd (canonical p) \<noteq> snd (canonical q)"
    if "pk_src p = pk_dst q" "pk_dst p = pk_src q" "pk_src p \<noteq> pk_dst p"
  proof -
    from that have "endpoint_text (pk_SrcIP p) (pk_SrcPort p) \<noteq> endpoint_text (pk_DstIP p) (pk_DstPort p)"
      by (simp add: pk_src_def pk_dst_def)
    with that show ?thesis
      by (auto simp: canonical_def pk_src_def pk_dst_def Let_def not_le dest: antisym)
  qed
  with tcp_ids.key_eq_iff [OF assms] show ?thesis unfolding canonical_key by blast
qed

theorem canonical_identifies_connection_witness:
  "fst (canonical (zero_packet\<lparr> pk_SrcIP := ''10.0.0.1'', pk_SrcPort := 1024, pk_DstIP := ''10.0.0.9'', pk_DstPort := 502 \<rparr>)) =
   fst (canonical (zero_packet\<lparr> pk_SrcIP := ''10.0.0.9'', pk_SrcPort := 502, pk_DstIP := ''10.0.0.1'', pk_DstPort := 1024 \<rparr>))"
proof -
  let ?p = "zero_packet\<lparr> pk_SrcIP := ''10.0.0.1'', pk_SrcPort := 1024, pk_DstIP := ''10.0.0.9'', pk_DstPort := 502 \<rparr>"
  let ?q = "zero_packet\<lparr> pk_SrcIP := ''10.0.0.9'', pk_SrcPort := 502, pk_DstIP := ''10.0.0.1'', pk_DstPort := 1024 \<rparr>"
  have "no_dash (pk_src ?p)" "no_dash (pk_dst ?p)" "no_dash (pk_src ?q)" "no_dash (pk_dst ?q)"
    by (simp_all add: no_dash_def pk_src_def pk_dst_def zero_packet_def)
  from canonical_identifies_connection [OF this] show ?thesis
    by (simp add: pk_src_def pk_dst_def insert_commute)
qed

section \<open>Sequence numbers\<close>

lemma unat_of_nat_u32: "n < 2 ^ 32 \<Longrightarrow> unat (of_nat n :: u32) = n"
  by (rule unat_of_nat_small) simp

lemma of_nat_u32_inj: "a < 2 ^ 32 \<Longrightarrow> b < 2 ^ 32 \<Longrightarrow> (of_nat a :: u32) = of_nat b \<longleftrightarrow> a = b"
  by (metis unat_of_nat_u32)

lemma sint_diff:
  assumes "a < 2 ^ 31" "b < 2 ^ 31"
  shows "sint (of_nat a - of_nat b :: u32) = int a - int b"
proof -
  have "(of_nat a - of_nat b :: u32) = word_of_int (int a - int b)" by simp
  moreover have "sint (word_of_int (int a - int b) :: u32) = signed_take_bit (LENGTH(32) - Suc 0) (int a - int b)"
    by (rule trans [OF signed_of_int]) simp
  moreover have "signed_take_bit (LENGTH(32) - Suc 0) (int a - int b) = int a - int b"
    by (rule signed_take_bit_int_eq_self) (use assms in auto)
  ultimately show ?thesis by (simp only:)
qed

lemma seqLess_offsets:
  "a < 2 ^ 31 \<Longrightarrow> b < 2 ^ 31 \<Longrightarrow> seqLess (isn + of_nat a) (isn + of_nat b) \<longleftrightarrow> a < b"
  by (simp add: seqLess_def sint_diff)

lemma skip_offsets:
  "a \<le> b \<Longrightarrow> b < 2 ^ 31 \<Longrightarrow> unat (isn + of_nat b - (isn + of_nat a) :: u32) = b - a"
proof -
  assume "a \<le> b" "b < 2 ^ 31"
  then have "isn + of_nat b - (isn + of_nat a) = (of_nat (b - a) :: u32)" by (simp add: of_nat_diff)
  moreover have "b - a < 2 ^ 32" using \<open>b < 2 ^ 31\<close> by simp
  ultimately show ?thesis by (simp add: unat_of_nat_u32)
qed

section \<open>Slices of the stream\<close>

definition stretch :: "bytes \<Rightarrow> nat \<Rightarrow> nat \<Rightarrow> bytes" where
  "stretch S off n = take n (drop off S)"

lemma length_stretch: "off + n \<le> length S \<Longrightarrow> length (stretch S off n) = n"
  by (simp add: stretch_def)

lemma stretch_append: "stretch S a m @ stretch S (a + m) n = stretch S a (m + n)"
  by (simp add: stretch_def take_add add.commute)

lemma drop_stretch: "m \<le> n \<Longrightarrow> drop m (stretch S a n) = stretch S (a + m) (n - m)"
  by (simp add: stretch_def drop_take add.commute)

definition delivered :: "chunk list \<Rightarrow> bytes" where
  "delivered out = concat (map ck_Data out)"

lemma delivered_append [simp]: "delivered (xs @ ys) = delivered xs @ delivered ys"
  by (simp add: delivered_def)

lemma delivered_Nil [simp]: "delivered [] = []"
  by (simp add: delivered_def)

text \<open>
  The direction expects byte \<open>k\<close> of \<open>S\<close> next, and everything it holds back is a stretch of \<open>S\<close>
  stored under its own sequence number.
\<close>

definition stream_inv :: "u32 \<Rightarrow> bytes \<Rightarrow> nat \<Rightarrow> direction \<Rightarrow> bool" where
  "stream_inv isn S k d \<longleftrightarrow> d_initialized d \<and> d_next d = isn + of_nat k \<and> k \<le> length S \<and>
     (\<forall>(q, sg) \<in> set (d_pending d). \<exists>off. q = isn + of_nat off \<and>
        off + length (sg_data sg) \<le> length S \<and> sg_data sg = stretch S off (length (sg_data sg)))"

lemma stream_inv_fields:
  "d_initialized d' = d_initialized d \<Longrightarrow> d_next d' = d_next d \<Longrightarrow> d_pending d' = d_pending d \<Longrightarrow>
   stream_inv isn S k d' = stream_inv isn S k d"
  by (simp add: stream_inv_def)

lemma emit_bytes_stream:
  assumes "stream_inv isn S k d" and "k + length b \<le> length S" and "b = stretch S k (length b)"
    and "emit_bytes c f ov b t g (out, d, w) = (out', d', w')"
  shows "stream_inv isn S (k + length b) d' \<and> delivered out' = delivered out @ b"
  using assms by (auto simp: emit_bytes_def Let_def stream_inv_def delivered_def make_chunk_def split: if_splits)

lemma unbuffer_stream:
  assumes "stream_inv isn S k d" and "unbuffer q sg (d, w) = (d', w')"
  shows "stream_inv isn S k d'"
  using assms by (auto simp: unbuffer_def Let_def stream_inv_def mdel_def)

lemma buffer_stream:
  assumes "stream_inv isn S k d" and "q = isn + of_nat off"
    and "off + length b \<le> length S" and "b = stretch S off (length b)"
    and "buffer_segment q b ts (d, w) = (d', w')"
  shows "stream_inv isn S k d'"
proof -
  let ?P = "\<lambda>q sg. \<exists>off. q = isn + of_nat off \<and> off + length (sg_data sg) \<le> length S \<and>
      sg_data sg = stretch S off (length (sg_data sg))"
  have "\<forall>(q, sg) \<in> set (mput q \<lparr> sg_seq = q, sg_data = b, sg_ts = ts \<rparr> (d_pending d)). ?P q sg"
    by (rule mput_forall) (use assms in \<open>auto simp: stream_inv_def\<close>)
  with assms show ?thesis by (auto simp: buffer_segment_def Let_def stream_inv_def)
qed

text \<open>A pending segment found at the next expected byte really starts there.\<close>

lemma pending_at_next:
  assumes "length S < 2 ^ 31" and "stream_inv isn S k d" and "mget (d_pending d) (d_next d) = Some sg"
  shows "k + length (sg_data sg) \<le> length S \<and> sg_data sg = stretch S k (length (sg_data sg))"
proof -
  from assms(2) mget_SomeD [OF assms(3)] obtain off where off: "d_next d = isn + of_nat off"
    "off + length (sg_data sg) \<le> length S" "sg_data sg = stretch S off (length (sg_data sg))"
    by (auto simp: stream_inv_def)
  moreover have "d_next d = isn + of_nat k" "k \<le> length S" using assms(2) by (auto simp: stream_inv_def)
  ultimately have "off = k" using assms(1) of_nat_u32_inj [of off k] by auto
  with off show ?thesis by simp
qed

lemma emit_pending_stream:
  assumes "length S < 2 ^ 31" and "stream_inv isn S k d"
    and "emit_pending c f ov (out, d, w) = (out', d', w')"
  shows "\<exists>n. stream_inv isn S (k + n) d' \<and> delivered out' = delivered out @ stretch S k n"
  using assms(2,3)
proof (induction c f ov "(out, d, w)" arbitrary: out d w k rule: emit_pending.induct)
  case (1 c f ov out d w)
  show ?case
  proof (cases "mget (d_pending d) (d_next d)")
    case None
    with "1.prems" show ?thesis by (subst (asm) emit_pending.simps) (auto simp: stretch_def intro: exI [of _ 0])
  next
    case (Some sg)
    obtain d1 w1 where u: "unbuffer (d_next d) sg (d, w) = (d1, w1)" by (metis prod.exhaust)
    obtain o2 d2 w2 where e: "emit_bytes c f ov (sg_data sg) (sg_ts sg) 0 (out, d1, w1) = (o2, d2, w2)"
      by (metis prod.exhaust)
    note at = pending_at_next [OF assms(1) "1.prems"(1) Some]
    have s1: "stream_inv isn S k d1" using "1.prems"(1) u by (rule unbuffer_stream)
    from emit_bytes_stream [OF s1 conjunct1 [OF at] conjunct2 [OF at] e]
    have s2: "stream_inv isn S (k + length (sg_data sg)) d2" and o2: "delivered o2 = delivered out @ sg_data sg"
      by simp_all
    have "emit_pending c f ov (o2, d2, w2) = (out', d', w')"
      using "1.prems"(2) Some u e by (subst (asm) emit_pending.simps) simp
    from "1.hyps" [OF Some u [symmetric] refl, unfolded e, OF refl s2 this] obtain n where
      "stream_inv isn S (k + length (sg_data sg) + n) d'"
      "delivered out' = delivered o2 @ stretch S (k + length (sg_data sg)) n" by blast
    then show ?thesis using o2 at
      by (intro exI [of _ "length (sg_data sg) + n"])
        (auto simp: add.assoc stretch_append [symmetric])
  qed
qed

lemma emitContiguous_stream:
  assumes "length S < 2 ^ 31" and "stream_inv isn S k d" and "k + length b \<le> length S" and "b = stretch S k (length b)"
    and "emitContiguous c f b ts g ov (d, w) = (out, d', w')"
  shows "\<exists>n. stream_inv isn S (k + n) d' \<and> delivered out = stretch S k n"
proof -
  obtain o1 d1 w1 where e: "emit_bytes c f ov b ts g ([], d, w) = (o1, d1, w1)" by (metis prod.exhaust)
  obtain o2 d2 w2 where p: "emit_pending c f ov (o1, d1, w1) = (o2, d2, w2)" by (metis prod.exhaust)
  from emit_bytes_stream [OF assms(2-4) e] have s1: "stream_inv isn S (k + length b) d1" "delivered o1 = b" by simp_all
  from emit_pending_stream [OF assms(1) s1(1) p] obtain n where
    n: "stream_inv isn S (k + length b + n) d2" "delivered o2 = b @ stretch S (k + length b) n" using s1(2) by auto
  have "d' = (if d_pending d2 = [] then d2\<lparr> d_gapSince := 0 \<rparr> else d2)" "out = o2"
    using assms(5) by (auto simp: emitContiguous_def e p)
  then have "stream_inv isn S (k + (length b + n)) d'" "delivered out = stretch S k (length b + n)"
    using n assms(4) stream_inv_fields [of d' d2] by (auto simp: add.assoc stretch_append [symmetric])
  then show ?thesis by blast
qed

lemma accept_ahead_stream:
  assumes "stream_inv isn S k d" and "q = isn + of_nat off"
    and "off + length b \<le> length S" and "b = stretch S off (length b)"
    and "accept_ahead cfg c f q b ts (d, w) = (d', w')"
  shows "stream_inv isn S k d'"
proof (cases "over_limit cfg d w q b")
  case True
  with assms(1,5) show ?thesis by (auto simp: accept_ahead_def Let_def stream_inv_def)
next
  case lim: False
  show ?thesis
  proof (cases "mget (d_pending d) q")
    case None
    obtain d1 w1 where bs: "buffer_segment q b ts (d, w) = (d1, w1)" by (metis prod.exhaust)
    have "stream_inv isn S k d1" by (rule buffer_stream [OF assms(1-4) bs])
    moreover have "d' = (if is_zero_time (d_gapSince d1) then d1\<lparr> d_gapSince := ts \<rparr> else d1)"
      using assms(5) lim None bs by (simp add: accept_ahead_def)
    ultimately show ?thesis using stream_inv_fields [of d' d1] by auto
  next
    case (Some old)
    show ?thesis
    proof (cases "cf_OverlapPolicy cfg = ''last_seen''")
      case False
      with assms(1,5) lim Some show ?thesis by (simp add: accept_ahead_def Let_def)
    next
      case True
      obtain d1 w1 w0 where u: "unbuffer q old (d, w0) = (d1, w1)"
        and r: "buffer_segment q b ts (d1, w1) = (d', w')"
        using assms(5) lim Some True by (auto simp: accept_ahead_def Let_def) (metis prod.exhaust)
      show ?thesis by (rule buffer_stream [OF unbuffer_stream [OF assms(1) u] assms(2-4) r])
    qed
  qed
qed

lemma acceptLocked_stream:
  assumes "length S < 2 ^ 31" and "stream_inv isn S k d" and "q = isn + of_nat off"
    and "off + length b \<le> length S" and "b = stretch S off (length b)"
    and "acceptLocked cfg c f q b ts (d, w) = (out, d', w')"
  shows "\<exists>n. stream_inv isn S (k + n) d' \<and> delivered out = stretch S k n"
proof (cases "b = []")
  case True
  with assms(2,6) show ?thesis by (auto simp: acceptLocked_def stretch_def intro: exI [of _ 0])
next
  case False
  have init: "d_initialized d" and next_byte: "d_next d = isn + of_nat k" and kS: "k \<le> length S"
    using assms(2) by (auto simp: stream_inv_def)
  have less: "seqLess q (d_next d) \<longleftrightarrow> off < k"
    unfolding assms(3) next_byte by (rule seqLess_offsets) (use assms(1,4) kS in auto)
  show ?thesis
  proof (cases "off < k")
    case behind: True
    have skip: "unat (d_next d - q) = k - off"
      unfolding assms(3) next_byte by (rule skip_offsets) (use behind assms(1) kS in auto)
    have all: "of_nat (length b) \<le> d_next d - q \<longleftrightarrow> length b \<le> k - off"
      using skip unat_of_nat_u32 [of "length b"] assms(1,4) by (simp add: word_le_nat_alt)
    show ?thesis
    proof (cases "length b \<le> k - off")
      case True
      with assms(2,6) False init less behind all show ?thesis
        by (auto simp: acceptLocked_def Let_def stretch_def intro: exI [of _ 0])
    next
      case part: False
      have b': "drop (k - off) b = stretch S k (length b - (k - off))"
        using behind part assms(5) drop_stretch [of "k - off" "length b" S off] by simp
      obtain w1 where "emitContiguous c f (drop (k - off) b) ts 0 True (d, w1) = (out, d', w')"
        using assms(6) False init less behind all skip part by (auto simp: acceptLocked_def Let_def)
      from emitContiguous_stream [OF assms(1,2) _ _ this] b' part behind assms(4) show ?thesis
        by (simp add: length_stretch)
    qed
  next
    case ahead: False
    show ?thesis
    proof (cases "q = d_next d")
      case True
      then have "off = k" using assms(1,3,4) kS next_byte of_nat_u32_inj [of off k] by auto
      moreover have run: "emitContiguous c f b ts 0 False (d, w) = (out, d', w')"
        using assms(6) False init less ahead True by (simp add: acceptLocked_def Let_def)
      ultimately show ?thesis using emitContiguous_stream [OF assms(1,2) _ _ run] assms(4,5) by simp
    next
      case gap: False
      have "accept_ahead cfg c f q b ts (d, w) = (d', w')" "out = []"
        using assms(6) False init less ahead gap by (auto simp: acceptLocked_def Let_def)
      with accept_ahead_stream [OF assms(2-5)] show ?thesis by (auto simp: stretch_def intro: exI [of _ 0])
    qed
  qed
qed

section \<open>Whole directions\<close>

text \<open>Feeding the segments of one direction in the order of capture.\<close>

fun feed ::
  "config \<Rightarrow> connection \<Rightarrow> bool \<Rightarrow> (u32 \<times> bytes \<times> time) list \<Rightarrow> direction \<times> world \<Rightarrow> chunk list \<times> direction \<times> world" where
  "feed cfg c f [] s = ([], s)"
| "feed cfg c f ((q, b, ts) # segs) s =
     (case acceptLocked cfg c f q b ts s of
        (out1, s1) \<Rightarrow> (case feed cfg c f segs s1 of (out2, s2) \<Rightarrow> (out1 @ out2, s2)))"

definition segment_of :: "u32 \<Rightarrow> bytes \<Rightarrow> u32 \<Rightarrow> bytes \<Rightarrow> bool" where
  "segment_of isn S q b \<longleftrightarrow> (\<exists>off. q = isn + of_nat off \<and> off + length b \<le> length S \<and> b = stretch S off (length b))"

lemma feed_stream:
  assumes "length S < 2 ^ 31" and "stream_inv isn S k d"
    and "\<forall>(q, b, ts) \<in> set segs. segment_of isn S q b"
    and "feed cfg c f segs (d, w) = (out, d', w')"
  shows "\<exists>n. stream_inv isn S (k + n) d' \<and> delivered out = stretch S k n"
  using assms(2-4)
proof (induction segs arbitrary: k d w out)
  case Nil
  then show ?case by (auto simp: stretch_def intro: exI [of _ 0])
next
  case (Cons seg segs)
  obtain q b ts where seg: "seg = (q, b, ts)" by (metis prod.exhaust)
  obtain out1 d1 w1 where a: "acceptLocked cfg c f q b ts (d, w) = (out1, d1, w1)" by (metis prod.exhaust)
  obtain out2 where r: "feed cfg c f segs (d1, w1) = (out2, d', w')" and out: "out = out1 @ out2"
    using Cons.prems(3) by (auto simp: seg a split: prod.splits)
  from Cons.prems(2) obtain off where "q = isn + of_nat off" "off + length b \<le> length S" "b = stretch S off (length b)"
    by (auto simp: seg segment_of_def)
  from acceptLocked_stream [OF assms(1) Cons.prems(1) this a] obtain m where
    m: "stream_inv isn S (k + m) d1" "delivered out1 = stretch S k m" by blast
  from Cons.IH [OF m(1) _ r] Cons.prems(2) obtain n where
    "stream_inv isn S (k + m + n) d'" "delivered out2 = stretch S (k + m) n" by auto
  with m out show ?case by (intro exI [of _ "m + n"]) (simp add: add.assoc stretch_append)
qed

lemma first_segment_starts:
  "b \<noteq> [] \<Longrightarrow> acceptLocked cfg c f q b ts (zero_direction, w) =
   acceptLocked cfg c f q b ts
     (zero_direction\<lparr> d_initialized := True, d_next := q, d_midstream := True \<rparr>, w)"
  by (simp add: acceptLocked_def zero_direction_def Let_def)

text \<open>
  C2: Without gap recovery, reassembly never invents, loses, repeats or reorders a byte of a stream
  of fewer than 2^31 bytes (the distance within which 32-bit sequence numbers can be compared).  Let
  the first segment seen be non-empty and let all segments carry bytes of the stream at their own
  position; whatever further segments arrive, retransmitted, overlapping, out of order or past the limits,
  under either overlap policy and from any initial sequence number (also when it wraps around), the
  bytes delivered are a contiguous run of the stream that starts with the first segment seen, and the
  next expected sequence number is the one after the last byte delivered.
\<close>

theorem tcp_delivers_contiguous_run:
  assumes "length S < 2 ^ 31" and "segs = (isn + of_nat start, b, ts) # rest" and "b \<noteq> []"
    and "start + length b \<le> length S" and "b = stretch S start (length b)"
    and "\<forall>(q, b, ts) \<in> set rest. segment_of isn S q b"
    and "feed cfg c f segs (zero_direction, w) = (out, d', w')"
  shows "\<exists>n. delivered out = stretch S start n \<and> start + n \<le> length S \<and>
             d_next d' = isn + of_nat (start + n)"
proof -
  let ?d0 = "zero_direction\<lparr> d_initialized := True, d_next := isn + of_nat start, d_midstream := True \<rparr>"
  have "feed cfg c f segs (?d0, w) = (out, d', w')"
    using assms(2,3,7) first_segment_starts [of b cfg c f "isn + of_nat start" ts w] by simp
  moreover have "stream_inv isn S start ?d0"
    using assms(4) by (simp add: stream_inv_def zero_direction_def)
  moreover have "\<forall>(q, b, ts) \<in> set segs. segment_of isn S q b"
    using assms(2,4,5,6) by (auto simp: segment_of_def)
  ultimately obtain n where "stream_inv isn S (start + n) d'" "delivered out = stretch S start n"
    using feed_stream [OF assms(1)] by blast
  then show ?thesis by (auto simp: stream_inv_def)
qed

definition sample_connection :: connection where
  "sample_connection = \<lparr> c_id = ''x'', c_aIP = ''10.0.0.1'', c_bIP = ''10.0.0.9'', c_aPort = 1024, c_bPort = 502,
     c_a2b = zero_direction, c_b2a = zero_direction, c_lastSeen = 1, c_closedAt = 0 \<rparr>"

definition sample_world :: world where
  "sample_world = \<lparr> w_st = zero_stats, w_sbuf = 0, w_evs = [] \<rparr>"

definition sample_limits :: config where
  "sample_limits = default_config \<lparr> cf_Enabled = True, cf_MaxConnections = 0, cf_MaxBufferPerDirection = 0,
     cf_MaxTotalBuffer = 0, cf_IdleTimeout = 0, cf_ClosedTimeout = 0, cf_MaxOutOfOrderSegments = 0,
     cf_MaxSequenceGap = 0, cf_GapRecoveryTimeout = 0, cf_ShardCount = 0, cf_OverlapPolicy = [] \<rparr>"

theorem tcp_delivers_contiguous_run_witness:
  "\<exists>n. delivered (fst (feed sample_limits sample_connection True
      [(0xffffffff, [1, 2], 5), (3, [5, 6], 6), (1, [3, 4], 7)] (zero_direction, sample_world))) =
     stretch [1, 2, 3, 4, 5, 6] 0 n"
proof -
  obtain out d' w' where f: "feed sample_limits sample_connection True
      [(0xffffffff, [1, 2], 5), (3, [5, 6], 6), (1, [3, 4], 7)] (zero_direction, sample_world) = (out, d', w')"
    by (metis prod.exhaust)
  have "segment_of 0xffffffff [1, 2, 3, 4, 5, 6] 3 [5, 6]" "segment_of 0xffffffff [1, 2, 3, 4, 5, 6] 1 [3, 4]"
    unfolding segment_of_def by (rule exI [of _ 4], simp add: stretch_def) (rule exI [of _ 2], simp add: stretch_def)
  then have "\<exists>n. delivered out = stretch [1, 2, 3, 4, 5, 6] 0 n \<and> 0 + n \<le> length [1 :: u8, 2, 3, 4, 5, 6] \<and>
      d_next d' = 0xffffffff + of_nat (0 + n)"
    by (intro tcp_delivers_contiguous_run [where b = "[1, 2]" and ts = 5, OF _ _ _ _ _ _ f])
      (auto simp: stretch_def)
  then show ?thesis using f by auto
qed

section \<open>Every byte arrives\<close>

text \<open>
  A stream cut into segments, each of them possibly captured many times and in any order after
  the first.  \<open>offs parts i\<close> is where the \<open>i\<close>-th segment starts.
\<close>

definition offs :: "bytes list \<Rightarrow> nat \<Rightarrow> nat" where
  "offs parts i = length (concat (take i parts))"

lemma offs_0 [simp]: "offs parts 0 = 0" by (simp add: offs_def)

lemma offs_Suc: "i < length parts \<Longrightarrow> offs parts (Suc i) = offs parts i + length (parts ! i)"
  by (simp add: offs_def take_Suc_conv_app_nth)

lemma offs_all: "offs parts (length parts) = length (concat parts)" by (simp add: offs_def)

lemma offs_mono: "i \<le> j \<Longrightarrow> offs parts i \<le> offs parts j"
  by (auto simp: offs_def le_iff_add take_add)

lemma offs_strict: "[] \<notin> set parts \<Longrightarrow> i < j \<Longrightarrow> j \<le> length parts \<Longrightarrow> offs parts i < offs parts j"
proof -
  assume a: "[] \<notin> set parts" "i < j" "j \<le> length parts"
  then have "parts ! i \<noteq> []" by (metis nth_mem less_le_trans)
  then have "offs parts i < offs parts (Suc i)" using a by (simp add: offs_Suc)
  also have "\<dots> \<le> offs parts j" using a by (intro offs_mono) simp
  finally show ?thesis .
qed

lemma offs_inj: "[] \<notin> set parts \<Longrightarrow> i \<le> length parts \<Longrightarrow> j \<le> length parts \<Longrightarrow>
    offs parts i = offs parts j \<longleftrightarrow> i = j"
  by (metis linorder_neqE_nat nat_less_le offs_strict)

lemma part_stretch:
  assumes "i < length parts"
  shows "parts ! i = stretch (concat parts) (offs parts i) (length (parts ! i))"
proof -
  have "concat parts = concat (take i parts) @ parts ! i @ concat (drop (Suc i) parts)"
    using assms by (metis append_take_drop_id concat.simps(2) concat_append Cons_nth_drop_Suc)
  then show ?thesis by (simp add: stretch_def offs_def)
qed

text \<open>
  \<open>j\<close> segments have been delivered, what is held back are whole segments, and each segment in
  \<open>R\<close> (those seen so far) has been delivered or is held back.
\<close>

definition cut_inv :: "u32 \<Rightarrow> bytes list \<Rightarrow> nat set \<Rightarrow> nat \<Rightarrow> direction \<Rightarrow> bool" where
  "cut_inv isn parts R j d \<longleftrightarrow> d_initialized d \<and> d_next d = isn + of_nat (offs parts j) \<and> j \<le> length parts \<and>
     (\<forall>(q, sg) \<in> set (d_pending d). \<exists>i < length parts. q = isn + of_nat (offs parts i) \<and> sg_data sg = parts ! i) \<and>
     (\<forall>i \<in> R. i < length parts \<and> (i < j \<or> mget (d_pending d) (isn + of_nat (offs parts i)) \<noteq> None))"

lemma cut_inv_fields:
  "d_initialized d' = d_initialized d \<Longrightarrow> d_next d' = d_next d \<Longrightarrow> d_pending d' = d_pending d \<Longrightarrow>
   cut_inv isn parts R j d' = cut_inv isn parts R j d"
  by (simp add: cut_inv_def)

lemma emit_bytes_gapped [simp]:
  "d_gapped (fst (snd (emit_bytes c f ov b t g (out, d, w)))) = d_gapped d"
  by (simp add: emit_bytes_def Let_def)

lemma emit_pending_gapped [simp]:
  "d_gapped (fst (snd (emit_pending c f ov (out, d, w)))) = d_gapped d"
proof (induction c f ov "(out, d, w)" arbitrary: out d w rule: emit_pending.induct)
  case (1 c f ov out d w)
  show ?case
  proof (cases "mget (d_pending d) (d_next d)")
    case None
    then show ?thesis by (subst emit_pending.simps) simp
  next
    case (Some sg)
    obtain d1 w1 where u: "unbuffer (d_next d) sg (d, w) = (d1, w1)" by (metis prod.exhaust)
    obtain o2 d2 w2 where e: "emit_bytes c f ov (sg_data sg) (sg_ts sg) 0 (out, d1, w1) = (o2, d2, w2)"
      by (metis prod.exhaust)
    have "d_gapped d1 = d_gapped d" using u by (auto simp: unbuffer_def Let_def)
    moreover have "d_gapped d2 = d_gapped d1"
      using emit_bytes_gapped [of c f ov "sg_data sg" "sg_ts sg" 0 out d1 w1] e by simp
    ultimately show ?thesis using "1" [OF Some u [symmetric] refl, unfolded e, OF refl] Some u e
      by (subst emit_pending.simps) simp
  qed
qed

lemma accept_gapped: "d_gapped d \<Longrightarrow> d_gapped (fst (snd (acceptLocked cfg c f q b ts (d, w))))"
proof -
  assume g: "d_gapped d"
  have emit: "d_gapped (fst (snd (emitContiguous c f b' ts g' ov (d', w'))))" if "d_gapped d'" for b' g' ov d' w'
  proof -
    obtain o1 d1 w1 where e: "emit_bytes c f ov b' ts g' ([], d', w') = (o1, d1, w1)" by (metis prod.exhaust)
    obtain o2 d2 w2 where p: "emit_pending c f ov (o1, d1, w1) = (o2, d2, w2)" by (metis prod.exhaust)
    have "d_gapped d2"
      using emit_bytes_gapped [of c f ov b' ts g' "[]" d' w'] emit_pending_gapped [of c f ov o1 d1 w1] e p that by simp
    then show ?thesis by (simp add: emitContiguous_def e p)
  qed
  have ahead: "d_gapped (fst (accept_ahead cfg c f q' b' ts (d', w')))" if "d_gapped d'" for q' b' d' w'
    using that by (auto simp: accept_ahead_def buffer_segment_def unbuffer_def Let_def split: option.splits)
  show ?thesis using g emit ahead by (auto simp: acceptLocked_def Let_def)
qed

lemma feed_gapped: "d_gapped d \<Longrightarrow> feed cfg c f segs (d, w) = (out, d', w') \<Longrightarrow> d_gapped d'"
proof (induction segs arbitrary: d w out)
  case (Cons seg segs)
  obtain q b ts where seg: "seg = (q, b, ts)" by (metis prod.exhaust)
  obtain out1 d1 w1 where a: "acceptLocked cfg c f q b ts (d, w) = (out1, d1, w1)" by (metis prod.exhaust)
  have "d_gapped d1" using accept_gapped [OF Cons.prems(1), of cfg c f q b ts w] a by simp
  then show ?case using Cons by (auto simp: seg a split: prod.splits)
qed simp

lemma drop_take_step:
  assumes "i \<le> j" and "j \<le> k"
  shows "drop i (take j xs) @ drop j (take k xs) = drop i (take k xs)"
proof -
  obtain m n where k: "j = m + i" "k = (n + m) + i" using assms by (metis le_Suc_ex add.commute add.assoc)
  have "drop j (take k xs) = take n (drop m (drop i xs))" by (simp only: k take_drop [symmetric] drop_drop add.assoc)
  moreover have "take (m + n) (drop i xs) = take m (drop i xs) @ take n (drop m (drop i xs))" by (rule take_add)
  ultimately show ?thesis by (simp only: k take_drop add.commute [of n m])
qed

locale cut_stream =
  fixes isn :: u32 and parts :: "bytes list"
  assumes short: "length (concat parts) < 2 ^ 31" and nonempty: "[] \<notin> set parts"
begin

lemma part_not_Nil: "i < length parts \<Longrightarrow> parts ! i \<noteq> []"
  using nonempty nth_mem by metis

lemma offs_bound: "i \<le> length parts \<Longrightarrow> offs parts i < 2 ^ 31"
  using offs_mono [of i "length parts" parts] short by (simp add: offs_all)

lemma seq_inj: "i \<le> length parts \<Longrightarrow> j \<le> length parts \<Longrightarrow>
    isn + of_nat (offs parts i) = isn + of_nat (offs parts j) \<longleftrightarrow> i = j"
  using of_nat_u32_inj [of "offs parts i" "offs parts j"] offs_bound [of i] offs_bound [of j]
    offs_inj [OF nonempty, of i j] by auto

lemma emit_cut:
  assumes "cut_inv isn parts R j d" and "j < length parts"
    and "emit_bytes c f ov (parts ! j) t g (out, d, w) = (out', d', w')"
  shows "cut_inv isn parts R (Suc j) d' \<and> delivered out' = delivered out @ parts ! j"
  using assms part_not_Nil [OF assms(2)]
  by (auto simp: emit_bytes_def Let_def cut_inv_def delivered_def make_chunk_def offs_Suc add.assoc
      intro: less_SucI split: if_splits)

lemma unbuffer_cut:
  assumes "cut_inv isn parts R j d" and "j < length parts"
    and "unbuffer (isn + of_nat (offs parts j)) sg (d, w) = (d1, w1)"
  shows "cut_inv isn parts (R - {j}) j d1"
proof -
  have d1: "d_pending d1 = mdel (isn + of_nat (offs parts j)) (d_pending d)"
    "d_initialized d1 = d_initialized d" "d_next d1 = d_next d"
    using assms(3) by (auto simp: unbuffer_def Let_def)
  have "mget (d_pending d1) (isn + of_nat (offs parts i)) \<noteq> None" if i: "i \<in> R" "i \<noteq> j" "\<not> i < j" for i
  proof -
    have "i < length parts" "mget (d_pending d) (isn + of_nat (offs parts i)) \<noteq> None"
      using assms(1) i by (auto simp: cut_inv_def)
    with i(2) assms(2) seq_inj [of i j] show ?thesis by (simp add: d1)
  qed
  with assms(1) show ?thesis
    by (auto simp: cut_inv_def d1 mdel_def)
qed

lemma emit_pending_cut:
  assumes "cut_inv isn parts R j d" and "emit_pending c f ov (out, d, w) = (out', d', w')"
  shows "\<exists>j'. cut_inv isn parts R j' d' \<and> j \<le> j' \<and> mget (d_pending d') (d_next d') = None \<and>
     delivered out' = delivered out @ concat (drop j (take j' parts))"
  using assms
proof (induction c f ov "(out, d, w)" arbitrary: out d w j rule: emit_pending.induct)
  case (1 c f ov out d w)
  show ?case
  proof (cases "mget (d_pending d) (d_next d)")
    case None
    with "1.prems" show ?thesis by (subst (asm) emit_pending.simps) (auto intro: exI [of _ j])
  next
    case (Some sg)
    obtain d1 w1 where u: "unbuffer (d_next d) sg (d, w) = (d1, w1)" by (metis prod.exhaust)
    obtain o2 d2 w2 where e: "emit_bytes c f ov (sg_data sg) (sg_ts sg) 0 (out, d1, w1) = (o2, d2, w2)"
      by (metis prod.exhaust)
    have nj: "d_next d = isn + of_nat (offs parts j)" "j \<le> length parts"
      using "1.prems"(1) by (auto simp: cut_inv_def)
    from "1.prems"(1) mget_SomeD [OF Some] obtain i where i: "i < length parts"
      "d_next d = isn + of_nat (offs parts i)" "sg_data sg = parts ! i" by (auto simp: cut_inv_def)
    then have "i = j" using nj seq_inj [of i j] by auto
    with i have j: "j < length parts" "sg_data sg = parts ! j" by auto
    have "cut_inv isn parts (R - {j}) j d1" using unbuffer_cut [OF "1.prems"(1) j(1)] u nj(1) by simp
    from emit_cut [OF this j(1)] e j have
      c2: "cut_inv isn parts (R - {j}) (Suc j) d2" and o2: "delivered o2 = delivered out @ parts ! j" by auto
    then have c3: "cut_inv isn parts R (Suc j) d2" by (auto simp: cut_inv_def)
    have "emit_pending c f ov (o2, d2, w2) = (out', d', w')"
      using "1.prems"(2) Some u e by (subst (asm) emit_pending.simps) simp
    from "1.hyps" [OF Some u [symmetric] refl, unfolded e, OF refl c3 this] obtain j' where
      j': "cut_inv isn parts R j' d'" "Suc j \<le> j'" "mget (d_pending d') (d_next d') = None"
        "delivered out' = delivered o2 @ concat (drop (Suc j) (take j' parts))" by blast
    have "drop j (take j' parts) = parts ! j # drop (Suc j) (take j' parts)"
      using j'(2) j(1) by (subst Cons_nth_drop_Suc [symmetric]) auto
    with j' o2 show ?thesis by (intro exI [of _ j']) simp
  qed
qed

lemma emitContiguous_cut:
  assumes "cut_inv isn parts R j d" and "j < length parts"
    and "emitContiguous c f (parts ! j) ts g ov (d, w) = (out, d', w')"
  shows "\<exists>j'. cut_inv isn parts (insert j R) j' d' \<and> j \<le> j' \<and> mget (d_pending d') (d_next d') = None \<and>
     delivered out = concat (drop j (take j' parts)) \<and> (d_gapped d' \<longleftrightarrow> d_gapped d)"
proof -
  obtain o1 d1 w1 where e: "emit_bytes c f ov (parts ! j) ts g ([], d, w) = (o1, d1, w1)" by (metis prod.exhaust)
  obtain o2 d2 w2 where p: "emit_pending c f ov (o1, d1, w1) = (o2, d2, w2)" by (metis prod.exhaust)
  from emit_cut [OF assms(1,2) e] have c1: "cut_inv isn parts (insert j R) (Suc j) d1" "delivered o1 = parts ! j"
    by (auto simp: cut_inv_def)
  from emit_pending_cut [OF c1(1) p] obtain j' where
    j': "cut_inv isn parts (insert j R) j' d2" "Suc j \<le> j'" "mget (d_pending d2) (d_next d2) = None"
      "delivered o2 = parts ! j @ concat (drop (Suc j) (take j' parts))" using c1(2) by auto
  have "drop j (take j' parts) = parts ! j # drop (Suc j) (take j' parts)"
    using j'(2) assms(2) by (subst Cons_nth_drop_Suc [symmetric]) auto
  moreover have "d' = (if d_pending d2 = [] then d2\<lparr> d_gapSince := 0 \<rparr> else d2)" "out = o2"
    using assms(3) by (auto simp: emitContiguous_def e p)
  moreover have "d_gapped d2 = d_gapped d"
    using emit_bytes_gapped [of c f ov "parts ! j" ts g "[]" d w] emit_pending_gapped [of c f ov o1 d1 w1] e p by simp
  ultimately show ?thesis using j' cut_inv_fields [of d' d2] by (intro exI [of _ j']) auto
qed

lemma ahead_cut:
  assumes "cut_inv isn parts R j d" and "i < length parts" and "j < i"
    and "accept_ahead cfg c f (isn + of_nat (offs parts i)) (parts ! i) ts (d, w) = (d', w')"
    and "\<not> d_gapped d'"
  shows "cut_inv isn parts (insert i R) j d'"
proof -
  let ?q = "isn + of_nat (offs parts i)"
  have lim: "\<not> over_limit cfg d w ?q (parts ! i)"
    using assms(4,5) by (auto simp: accept_ahead_def Let_def)
  have put: "cut_inv isn parts (insert i R) j d2"
    if "d_pending d2 = mput ?q \<lparr> sg_seq = ?q, sg_data = parts ! i, sg_ts = ts \<rparr> m"
      and "d_initialized d2 = d_initialized d" "d_next d2 = d_next d"
      and "m = d_pending d \<or> m = mdel ?q (d_pending d)" for d2 m
  proof -
    let ?P = "\<lambda>q sg. \<exists>i < length parts. q = isn + of_nat (offs parts i) \<and> sg_data sg = parts ! i"
    have "\<forall>(q, sg) \<in> set m. ?P q sg" using that(4) assms(1) by (auto simp: cut_inv_def mdel_def)
    then have "\<forall>(q, sg) \<in> set (d_pending d2). ?P q sg"
      unfolding that(1) by (rule mput_forall) (use assms(2) in auto)
    with assms(1,2) that show ?thesis by (auto simp: cut_inv_def)
  qed
  show ?thesis
  proof (cases "mget (d_pending d) ?q")
    case None
    then have "d_pending d' = mput ?q \<lparr> sg_seq = ?q, sg_data = parts ! i, sg_ts = ts \<rparr> (d_pending d)"
      "d_initialized d' = d_initialized d" "d_next d' = d_next d"
      using assms(4) lim by (auto simp: accept_ahead_def buffer_segment_def Let_def split: if_splits)
    then show ?thesis by (rule put) simp
  next
    case (Some old)
    show ?thesis
    proof (cases "cf_OverlapPolicy cfg = ''last_seen''")
      case True
      then have "d_pending d' = mput ?q \<lparr> sg_seq = ?q, sg_data = parts ! i, sg_ts = ts \<rparr> (mdel ?q (d_pending d))"
        "d_initialized d' = d_initialized d" "d_next d' = d_next d"
        using assms(4) lim Some by (auto simp: accept_ahead_def unbuffer_def buffer_segment_def Let_def split: if_splits)
      then show ?thesis by (rule put) simp
    next
      case False
      then have "d' = d" using assms(4) lim Some by (simp add: accept_ahead_def Let_def)
      with assms(1,2) Some show ?thesis by (auto simp: cut_inv_def)
    qed
  qed
qed

lemma accept_cut:
  assumes "cut_inv isn parts R j d" and "mget (d_pending d) (d_next d) = None" and "i < length parts"
    and "acceptLocked cfg c f (isn + of_nat (offs parts i)) (parts ! i) ts (d, w) = (out, d', w')"
    and "\<not> d_gapped d'"
  shows "\<exists>j'. cut_inv isn parts (insert i R) j' d' \<and> j \<le> j' \<and> mget (d_pending d') (d_next d') = None \<and>
     delivered out = concat (drop j (take j' parts)) \<and> \<not> d_gapped d"
proof -
  let ?q = "isn + of_nat (offs parts i)"
  have ne: "parts ! i \<noteq> []" using assms(3) by (rule part_not_Nil)
  have init: "d_initialized d" and nx: "d_next d = isn + of_nat (offs parts j)" and j: "j \<le> length parts"
    using assms(1) by (auto simp: cut_inv_def)
  have less: "seqLess ?q (d_next d) \<longleftrightarrow> offs parts i < offs parts j"
    unfolding nx by (rule seqLess_offsets) (use offs_bound assms(3) j in auto)
  consider (old) "i < j" | (now) "i = j" | (later) "j < i" by linarith
  then show ?thesis
  proof cases
    case old
    have lt: "offs parts i < offs parts j" using nonempty old j by (rule offs_strict)
    have "offs parts (Suc i) \<le> offs parts j" using old by (intro offs_mono) simp
    then have len: "length (parts ! i) \<le> offs parts j - offs parts i" using assms(3) by (simp add: offs_Suc)
    have "unat (d_next d - ?q) = offs parts j - offs parts i"
      unfolding nx by (rule skip_offsets) (use lt offs_bound [OF j] in auto)
    moreover have "offs parts j < 2 ^ 32" using offs_bound [OF j] by simp
    ultimately have "of_nat (length (parts ! i)) \<le> d_next d - ?q"
      using len unat_of_nat_u32 [of "length (parts ! i)"] by (simp add: word_le_nat_alt)
    then have "out = [] \<and> d' = d" using assms(4) ne init less lt by (simp add: acceptLocked_def Let_def)
    with assms(1,2,3,5) old show ?thesis by (intro exI [of _ j]) (auto simp: cut_inv_def)
  next
    case now
    then have "emitContiguous c f (parts ! j) ts 0 False (d, w) = (out, d', w')"
      using assms(4) ne init less nx by (simp add: acceptLocked_def Let_def)
    from emitContiguous_cut [OF assms(1) _ this] now assms(3,5) show ?thesis by auto
  next
    case later
    have lt: "offs parts j < offs parts i" using nonempty later assms(3) by (intro offs_strict) auto
    have "?q \<noteq> d_next d" using seq_inj [of i j] later j assms(3) nx by auto
    then have a: "accept_ahead cfg c f ?q (parts ! i) ts (d, w) = (d', w')" and "out = []"
      using assms(4) ne init less lt by (auto simp: acceptLocked_def Let_def)
    have "d_next d' = d_next d" "\<not> d_gapped d"
      using a assms(5) by (auto simp: accept_ahead_def buffer_segment_def unbuffer_def Let_def split: if_splits option.splits)
    moreover have "mget (d_pending d') (d_next d) = None"
      using a assms(2,5) \<open>?q \<noteq> d_next d\<close>
      by (auto simp: accept_ahead_def buffer_segment_def unbuffer_def Let_def split: if_splits option.splits)
    ultimately show ?thesis using ahead_cut [OF assms(1,3) later a assms(5)] \<open>out = []\<close>
      by (intro exI [of _ j]) auto
  qed
qed

lemma feed_cut:
  assumes "cut_inv isn parts R j d" and "mget (d_pending d) (d_next d) = None"
    and "\<forall>i \<in> set is'. i < length parts"
    and "feed cfg c f (map (\<lambda>i. (isn + of_nat (offs parts i), parts ! i, ts i)) is') (d, w) = (out, d', w')"
    and "\<not> d_gapped d'"
  shows "\<exists>j'. cut_inv isn parts (R \<union> set is') j' d' \<and> j \<le> j' \<and> mget (d_pending d') (d_next d') = None \<and>
     delivered out = concat (drop j (take j' parts)) \<and> \<not> d_gapped d"
  using assms
proof (induction is' arbitrary: R j d w out)
  case Nil
  then show ?case by (auto intro: exI [of _ j])
next
  case (Cons i is')
  let ?q = "isn + of_nat (offs parts i)"
  obtain out1 d1 w1 where a: "acceptLocked cfg c f ?q (parts ! i) (ts i) (d, w) = (out1, d1, w1)" by (metis prod.exhaust)
  obtain out2 where r: "feed cfg c f (map (\<lambda>i. (isn + of_nat (offs parts i), parts ! i, ts i)) is') (d1, w1) = (out2, d', w')"
    and out: "out = out1 @ out2" using Cons.prems(4) by (auto simp: a split: prod.splits)
  have i: "i < length parts" using Cons.prems(3) by simp
  have "\<not> d_gapped d1"
    using feed_gapped [OF _ r] Cons.prems(5) by blast
  from accept_cut [OF Cons.prems(1,2) i a this] obtain j1 where
    j1: "cut_inv isn parts (insert i R) j1 d1" "j \<le> j1" "mget (d_pending d1) (d_next d1) = None"
      "delivered out1 = concat (drop j (take j1 parts))" "\<not> d_gapped d" by blast
  from Cons.IH [OF j1(1,3) _ r Cons.prems(5)] Cons.prems(3) obtain j2 where
    j2: "cut_inv isn parts (insert i R \<union> set is') j2 d'" "j1 \<le> j2" "mget (d_pending d') (d_next d') = None"
      "delivered out2 = concat (drop j1 (take j2 parts))" by auto
  have "drop j (take j1 parts) @ drop j1 (take j2 parts) = drop j (take j2 parts)"
    by (rule drop_take_step) (rule j1(2), rule j2(2))
  with j1 j2 out show ?case
    by (intro exI [of _ j2]) (auto simp: concat_append [symmetric] simp del: concat_append)
qed

end

definition good_cut :: "bytes list \<Rightarrow> bool" where
  "good_cut parts \<longleftrightarrow> length (concat parts) < 2 ^ 31 \<and> [] \<notin> set parts"

interpretation cut: cut_stream isn "if good_cut parts then parts else []" for isn parts
  by unfold_locales (auto simp: good_cut_def)

text \<open>The first segment of a direction only fixes where the direction starts.\<close>

lemma accept_initialises:
  "\<not> d_initialized d \<Longrightarrow> b \<noteq> [] \<Longrightarrow> acceptLocked cfg c f q b ts (d, w) =
     acceptLocked cfg c f q b ts (d\<lparr> d_initialized := True, d_next := q, d_midstream := True \<rparr>, w)"
  by (simp add: acceptLocked_def)

lemma feed_initialises:
  "\<not> d_initialized d \<Longrightarrow> b \<noteq> [] \<Longrightarrow> feed cfg c f ((q, b, ts) # segs) (d, w) =
     feed cfg c f ((q, b, ts) # segs) (d\<lparr> d_initialized := True, d_next := q, d_midstream := True \<rparr>, w)"
  by (simp add: accept_initialises [of d])

text \<open>
  C1: a stream cut into non-empty segments of fewer than 2^31 bytes altogether, its first segment
  captured first, the others in any order and any number of times, is delivered completely, once
  and in order, as soon as every segment has been seen: whatever the initial sequence number
  (wrap-around included) and the overlap policy, unless a limit of the configuration made the
  engine drop a segment (then the direction is marked as gapped).
\<close>

theorem tcp_delivers_everything:
  assumes "good_cut parts" and "parts \<noteq> []"
    and "set (0 # rest) = {..< length parts}"
    and "feed cfg c f (map (\<lambda>i. (isn + of_nat (offs parts i), parts ! i, ts i)) (0 # rest))
           (zero_direction, w) = (out, d', w')"
    and "\<not> d_gapped d'"
  shows "delivered out = concat parts"
proof -
  let ?d = "zero_direction\<lparr> d_initialized := True, d_next := isn, d_midstream := True \<rparr>"
  have "parts ! 0 \<noteq> []" using assms(1,2) unfolding good_cut_def by (metis length_greater_0_conv nth_mem)
  then have f: "feed cfg c f (map (\<lambda>i. (isn + of_nat (offs parts i), parts ! i, ts i)) (0 # rest)) (?d, w) = (out, d', w')"
    using assms(4) feed_initialises [of zero_direction "parts ! 0" cfg c f isn "ts 0"]
    by (simp add: zero_direction_def)
  have "cut_inv isn parts {} 0 ?d" "mget (d_pending ?d) (d_next ?d) = None"
    by (simp_all add: cut_inv_def zero_direction_def)
  from cut.feed_cut [where parts = parts, unfolded if_P [OF assms(1)], OF this _ f assms(5)] assms(3)
  obtain j where j: "cut_inv isn parts {..< length parts} j d'" "mget (d_pending d') (d_next d') = None"
    "delivered out = concat (take j parts)" by auto
  have "\<not> j < length parts" using j(1,2) by (auto simp: cut_inv_def)
  with j(3) show ?thesis by simp
qed

theorem tcp_delivers_everything_witness:
  "delivered (fst (feed sample_limits sample_connection True
      [(0xffffffff, [1, 2], 0), (4, [6], 3), (1, [3, 4], 1), (0xffffffff, [1, 2], 0), (3, [5], 2)]
      (zero_direction, sample_world))) = [1, 2, 3, 4, 5, 6]"
proof -
  let ?parts = "[[1, 2], [3, 4], [5], [6]] :: bytes list"
  let ?segs = "[(0xffffffff, [1, 2], 0), (4, [6], 3), (1, [3, 4], 1), (0xffffffff, [1, 2], 0), (3, [5], 2)] ::
     (u32 \<times> bytes \<times> time) list"
  obtain out d' w' where f: "feed sample_limits sample_connection True ?segs (zero_direction, sample_world)
     = (out, d', w')" by (metis prod.exhaust)
  have "\<not> d_gapped (fst (snd (feed sample_limits sample_connection True ?segs (zero_direction, sample_world))))"
    by code_simp
  then have g: "\<not> d_gapped d'" unfolding f by simp
  have "map (\<lambda>i. (0xffffffff + of_nat (offs ?parts i), ?parts ! i, int i)) (0 # [3, 1, 0, 2]) = ?segs"
    by (simp add: offs_def)
  with f have r: "feed sample_limits sample_connection True
     (map (\<lambda>i. (0xffffffff + of_nat (offs ?parts i), ?parts ! i, int i)) (0 # [3, 1, 0, 2]))
     (zero_direction, sample_world) = (out, d', w')" by (simp only:)
  have "set (0 # [3, 1, 0, 2]) = {..< length ?parts}" by auto
  from tcp_delivers_everything [OF _ _ this r g] have "delivered out = concat ?parts"
    unfolding good_cut_def by simp
  then show ?thesis unfolding f by simp
qed

section \<open>Gap recovery\<close>

text \<open>A run of segments in one direction, then one recovery pass over it.\<close>

definition feed_then_recover ::
  "config \<Rightarrow> connection \<Rightarrow> bool \<Rightarrow> (u32 \<times> bytes \<times> time) list \<Rightarrow> u32 list \<Rightarrow> time \<Rightarrow> direction \<times> world \<Rightarrow> chunk list \<times> direction" where
  "feed_then_recover cfg c forward segs seqs now s =
     (case feed cfg c forward segs s of (out1, s1) \<Rightarrow>
       (case recoverDirection cfg seqs c forward now s1 of (out2, d2, _) \<Rightarrow> (out1 @ out2, d2)))"

text \<open>
  Gap recovery does not trim: a held-back segment that an overlapping in-order segment has
  already covered stays in the map, and the recovery sets the next expected byte backwards to
  it.  Here the bytes [1,2] at 100 and [3,4,5] at 102 are delivered while [5,6] at 104 is held
  back; after the recovery time-out the byte 5 is delivered a second time, in a chunk that
  claims a gap of 2^32 - 1 bytes.
\<close>

theorem recovery_delivers_a_byte_twice:
  "delivered (fst (feed_then_recover sample_limits sample_connection True
     [(100, [1, 2], 1), (104, [5, 6], 2), (102, [3, 4, 5], 3)] [104] (2 + 3 * second)
     (zero_direction, sample_world))) = [1, 2, 3, 4, 5, 5, 6] \<and>
   map ck_GapBefore (fst (feed_then_recover sample_limits sample_connection True
     [(100, [1, 2], 1), (104, [5, 6], 2), (102, [3, 4, 5], 3)] [104] (2 + 3 * second)
     (zero_direction, sample_world))) = [0, 0, 0xffffffff]"
  by (rule conjI) (code_simp, code_simp)

end
