(* ===== verification/Ipfix_Decode.thy ===== *)
theory Ipfix_Decode
  imports Packet_Parser
begin

text \<open>
  internal/ipfix: the IPFIX collector.  A message is a header and sets; template sets tell how
  the records of later data sets are laid out, and the store of templates survives the message.
  Every index and slice expression of the decoder is checked, so that a run-time panic would
  be the value \<open>None\<close>.  The UDP socket and the retry loop around it are not modelled.
\<close>

section \<open>Data\<close>

definition ieOctetDeltaCount :: u16 where "ieOctetDeltaCount = 1"
definition iePacketDeltaCount :: u16 where "iePacketDeltaCount = 2"
definition ieProtocolIdentifier :: u16 where "ieProtocolIdentifier = 4"
definition ieSourceTransportPort :: u16 where "ieSourceTransportPort = 7"
definition ieSourceIPv4Address :: u16 where "ieSourceIPv4Address = 8"
definition ieDestinationTransportPort :: u16 where "ieDestinationTransportPort = 11"
definition ieDestinationIPv4Address :: u16 where "ieDestinationIPv4Address = 12"
definition ieSourceIPv6Address :: u16 where "ieSourceIPv6Address = 27"
definition ieDestinationIPv6Address :: u16 where "ieDestinationIPv6Address = 28"
definition enterpriseBit :: u16 where "enterpriseBit = 0x8000"

lemmas ie_defs = ieOctetDeltaCount_def iePacketDeltaCount_def ieProtocolIdentifier_def
  ieSourceTransportPort_def ieSourceIPv4Address_def ieDestinationTransportPort_def
  ieDestinationIPv4Address_def ieSourceIPv6Address_def ieDestinationIPv6Address_def enterpriseBit_def

definition setIDTemplate :: u16 where "setIDTemplate = 2"
definition setIDOptionsTemplate :: u16 where "setIDOptionsTemplate = 3"
definition minDataSetID :: u16 where "minDataSetID = 256"
definition messageHeaderLength :: nat where "messageHeaderLength = 16"
definition setHeaderLength :: nat where "setHeaderLength = 4"

record messageHeader =
  mh_Version :: u16
  mh_Length :: u16
  mh_ExportTime :: u32
  mh_SequenceNumber :: u32
  mh_ObservationDomain :: u32

record fieldSpecifier =
  fs_InformationElement :: u16
  fs_Length :: u16
  fs_EnterpriseNumber :: u32

record ipfix_template =
  tp_ID :: u16
  tp_Fields :: "fieldSpecifier list"

record flow_record =
  fr_SrcIP :: string
  fr_DstIP :: string
  fr_SrcPort :: u16
  fr_DstPort :: u16
  fr_Protocol :: string
  fr_Packets :: u64
  fr_Bytes :: u64

definition zero_flow_record :: flow_record where
  "zero_flow_record = \<lparr> fr_SrcIP = [], fr_DstIP = [], fr_SrcPort = 0, fr_DstPort = 0,
     fr_Protocol = [], fr_Packets = 0, fr_Bytes = 0 \<rparr>"

definition protocolName :: "u8 \<Rightarrow> string" where
  "protocolName n = (if n = 1 then ''ICMP'' else if n = 6 then ''TCP'' else if n = 17 then ''UDP''
     else if n = 58 then ''ICMPv6'' else ''OTHER'')"

section \<open>The store of templates\<close>

type_synonym template_store = "(string, ipfix_template) gomap"

definition templateKey :: "u32 \<Rightarrow> u16 \<Rightarrow> string" where
  "templateKey odom ident = dec (unat odom) @ '':'' @ dec (unat ident)"

definition store_get :: "template_store \<Rightarrow> u32 \<Rightarrow> u16 \<Rightarrow> ipfix_template option" where
  "store_get s odom ident = mget s (templateKey odom ident)"

definition store_put :: "u32 \<Rightarrow> ipfix_template \<Rightarrow> template_store \<Rightarrow> template_store" where
  "store_put odom t s = mput (templateKey odom (tp_ID t)) t s"

lemma templateKey_inj [simp]: "templateKey d i = templateKey d' i' \<longleftrightarrow> d = d' \<and> i = i'"
proof
  assume "templateKey d i = templateKey d' i'"
  then have "dec (unat d) @ CHR '':'' # dec (unat i) = dec (unat d') @ CHR '':'' # dec (unat i')"
    by (simp add: templateKey_def)
  then have "dec (unat d) = dec (unat d') \<and> dec (unat i) = dec (unat i')"
    by (rule split_at_last_eq) simp_all
  then show "d = d' \<and> i = i'" by (simp add: word_unat_eq_iff)
qed simp

section \<open>Numbers of any width\<close>

text \<open>The last bytes of the field, padded on the left with zero bytes.\<close>

definition pad_left :: "nat \<Rightarrow> bytes \<Rightarrow> bytes" where
  "pad_left n b = (let b' = (if length b > n then drop (length b - n) b else b)
                   in replicate (n - length b') 0 @ b')"

definition decodeUint16 :: "bytes \<Rightarrow> u16 go" where
  "decodeUint16 b = rd_be16 (pad_left 2 b) 0"

definition rd_be64 :: "bytes \<Rightarrow> nat \<Rightarrow> u64 go" where
  "rd_be64 b i = do { hi \<leftarrow> rd_be32 b i; lo \<leftarrow> rd_be32 b (i + 4);
     go_ret (push_bit 32 (ucast hi) OR ucast lo) }"

definition decodeUint64 :: "bytes \<Rightarrow> u64 go" where
  "decodeUint64 b = rd_be64 (pad_left 8 b) 0"

section \<open>Template sets\<close>

text \<open>
  The fields of one template record: \<open>None\<close> inside the result is the early return of the
  code on a truncated record.
\<close>

fun template_fields :: "bytes \<Rightarrow> nat \<Rightarrow> nat \<Rightarrow> fieldSpecifier list \<Rightarrow> (fieldSpecifier list \<times> nat) option go" where
  "template_fields body 0 off acc = go_ret (Some (acc, off))"
| "template_fields body (Suc n) off acc =
     (if off + 4 > length body then go_ret None
      else do {
        rawIE \<leftarrow> rd_be16 body off;
        len \<leftarrow> rd_be16 body (off + 2);
        let fld = \<lparr> fs_InformationElement = rawIE AND NOT enterpriseBit, fs_Length = len, fs_EnterpriseNumber = 0 \<rparr>;
        if rawIE AND enterpriseBit \<noteq> 0 then
          if off + 4 + 4 > length body then go_ret None
          else do {
            ent \<leftarrow> rd_be32 body (off + 4);
            template_fields body n (off + 8) (acc @ [fld\<lparr> fs_EnterpriseNumber := ent \<rparr>])
          }
        else template_fields body n (off + 4) (acc @ [fld])
      })"

lemma template_fields_offset:
  "template_fields body n off acc = Some (Some (fs, off')) \<Longrightarrow> off \<le> off'"
  by (induction body n off acc rule: template_fields.induct)
    (fastforce simp: Let_def split: if_splits Option.bind_splits)+

function decodeTemplateSet :: "bytes \<Rightarrow> u32 \<Rightarrow> nat \<Rightarrow> template_store \<Rightarrow> template_store go" where
  "decodeTemplateSet body odom off store =
     (if off + 4 > length body then go_ret store
      else case (rd_be16 body off, rd_be16 body (off + 2)) of
        (Some templateID, Some fieldCount) \<Rightarrow>
          (case template_fields body (unat fieldCount) (off + 4) [] of
             None \<Rightarrow> go_panic
           | Some None \<Rightarrow> go_ret store
           | Some (Some (flds, off')) \<Rightarrow>
               decodeTemplateSet body odom off' (store_put odom \<lparr> tp_ID = templateID, tp_Fields = flds \<rparr> store))
      | _ \<Rightarrow> go_panic)"
  by pat_completeness auto
termination
  by (relation "measure (\<lambda>(body, odom, off, store). length body - off)")
    (auto dest!: template_fields_offset)

declare decodeTemplateSet.simps [simp del]

section \<open>Data sets\<close>

definition set_field :: "fieldSpecifier \<Rightarrow> bytes \<Rightarrow> flow_record \<Rightarrow> flow_record go" where
  "set_field f val fr =
     (let ie = fs_InformationElement f; len = unat (fs_Length f)
      in if ie = ieSourceIPv4Address then go_ret (if len = 4 then fr\<lparr> fr_SrcIP := ip_text val \<rparr> else fr)
      else if ie = ieDestinationIPv4Address then go_ret (if len = 4 then fr\<lparr> fr_DstIP := ip_text val \<rparr> else fr)
      else if ie = ieSourceIPv6Address then go_ret (if len = 16 then fr\<lparr> fr_SrcIP := ip_text val \<rparr> else fr)
      else if ie = ieDestinationIPv6Address then go_ret (if len = 16 then fr\<lparr> fr_DstIP := ip_text val \<rparr> else fr)
      else if ie = ieSourceTransportPort then map_option (\<lambda>v. fr\<lparr> fr_SrcPort := v \<rparr>) (decodeUint16 val)
      else if ie = ieDestinationTransportPort then map_option (\<lambda>v. fr\<lparr> fr_DstPort := v \<rparr>) (decodeUint16 val)
      else if ie = ieProtocolIdentifier then
        (if 1 \<le> len then map_option (\<lambda>v. fr\<lparr> fr_Protocol := protocolName v \<rparr>) (go_idx val 0) else go_ret fr)
      else if ie = iePacketDeltaCount then map_option (\<lambda>v. fr\<lparr> fr_Packets := v \<rparr>) (decodeUint64 val)
      else if ie = ieOctetDeltaCount then map_option (\<lambda>v. fr\<lparr> fr_Bytes := v \<rparr>) (decodeUint64 val)
      else go_ret fr)"

fun decode_fields :: "bytes \<Rightarrow> fieldSpecifier list \<Rightarrow> nat \<Rightarrow> flow_record \<Rightarrow> flow_record go" where
  "decode_fields rec [] off fr = go_ret fr"
| "decode_fields rec (f # fs) off fr =
     (let len = unat (fs_Length f)
      in if off + len > length rec then go_ret fr
         else do { val \<leftarrow> go_slice rec off (off + len);
                   fr' \<leftarrow> set_field f val fr;
                   decode_fields rec fs (off + len) fr' })"

definition decodeRecord :: "bytes \<Rightarrow> fieldSpecifier list \<Rightarrow> flow_record go" where
  "decodeRecord rec flds = decode_fields rec flds 0 zero_flow_record"

definition recordLength :: "ipfix_template \<Rightarrow> nat" where
  "recordLength t = sum_list (map (\<lambda>f. unat (fs_Length f)) (tp_Fields t))"

function data_records :: "bytes \<Rightarrow> fieldSpecifier list \<Rightarrow> nat \<Rightarrow> nat \<Rightarrow> flow_record list \<Rightarrow> flow_record list go" where
  "data_records body flds n off acc =
     (if n = 0 \<or> off + n > length body then go_ret acc
      else case go_slice body off (off + n) of
             None \<Rightarrow> go_panic
           | Some rec \<Rightarrow> (case decodeRecord rec flds of
               None \<Rightarrow> go_panic
             | Some fr \<Rightarrow> data_records body flds n (off + n) (acc @ [fr])))"
  by pat_completeness auto
termination
  by (relation "measure (\<lambda>(body, flds, n, off, acc). length body - off)") auto

declare data_records.simps [simp del]

definition decodeDataSet :: "bytes \<Rightarrow> ipfix_template \<Rightarrow> flow_record list go" where
  "decodeDataSet body t =
     (if recordLength t = 0 then go_ret [] else data_records body (tp_Fields t) (recordLength t) 0 [])"

section \<open>Messages\<close>

datatype ipfix_error = TooShort nat | UnsupportedVersion u16

function decode_sets ::
  "bytes \<Rightarrow> u32 \<Rightarrow> nat \<Rightarrow> nat \<Rightarrow> template_store \<Rightarrow> flow_record list \<Rightarrow> (flow_record list \<times> template_store) go" where
  "decode_sets data odom msgLen off store recs =
     (if off + setHeaderLength > msgLen then go_ret (recs, store)
      else case (rd_be16 data off, rd_be16 data (off + 2)) of
        (Some setID, Some setLen) \<Rightarrow>
          let setEnd = off + unat setLen
          in if unat setLen < setHeaderLength \<or> setEnd > msgLen then go_ret (recs, store)
             else case go_slice data (off + setHeaderLength) setEnd of
               None \<Rightarrow> go_panic
             | Some body \<Rightarrow>
                 if setID = setIDTemplate \<or> setID = setIDOptionsTemplate then
                   (case decodeTemplateSet body odom 0 store of
                      None \<Rightarrow> go_panic
                    | Some store' \<Rightarrow> decode_sets data odom msgLen setEnd store' recs)
                 else if minDataSetID \<le> setID then
                   (case store_get store odom setID of
                      None \<Rightarrow> decode_sets data odom msgLen setEnd store recs
                    | Some t \<Rightarrow> (case decodeDataSet body t of
                        None \<Rightarrow> go_panic
                      | Some frs \<Rightarrow> decode_sets data odom msgLen setEnd store (recs @ frs)))
                 else decode_sets data odom msgLen setEnd store recs
      | _ \<Rightarrow> go_panic)"
  by pat_completeness auto
termination
  by (relation "measure (\<lambda>(data, odom, msgLen, off, store, recs). msgLen - off)")
    (auto simp: setHeaderLength_def)

declare decode_sets.simps [simp del]

definition DecodeMessage ::
  "bytes \<Rightarrow> template_store \<Rightarrow> (ipfix_error + flow_record list \<times> template_store) go" where
  "DecodeMessage data store =
     (if length data < messageHeaderLength then go_ret (Inl (TooShort (length data)))
      else do {
        version \<leftarrow> rd_be16 data 0;
        len \<leftarrow> rd_be16 data 2;
        exportTime \<leftarrow> rd_be32 data 4;
        seqNo \<leftarrow> rd_be32 data 8;
        odom \<leftarrow> rd_be32 data 12;
        let h = \<lparr> mh_Version = version, mh_Length = len, mh_ExportTime = exportTime,
                  mh_SequenceNumber = seqNo, mh_ObservationDomain = odom \<rparr>;
        if mh_Version h \<noteq> 10 then go_ret (Inl (UnsupportedVersion (mh_Version h)))
        else map_option Inr (decode_sets data (mh_ObservationDomain h)
               (min (unat (mh_Length h)) (length data)) messageHeaderLength store [])
      })"

section \<open>No message makes the decoder panic\<close>

lemma length_pad_left [simp]: "length (pad_left n b) = n"
  by (simp add: pad_left_def Let_def)

lemma decodeUint16_Some: "\<exists>v. decodeUint16 b = Some v"
  by (simp add: decodeUint16_def)

lemma decodeUint64_Some: "\<exists>v. decodeUint64 b = Some v"
  using rd_be32_Some [of 0 "pad_left 8 b"] rd_be32_Some [of 4 "pad_left 8 b"]
  by (auto simp: decodeUint64_def rd_be64_def)

lemma set_field_Some: "length val = unat (fs_Length f) \<Longrightarrow> \<exists>fr'. set_field f val fr = Some fr'"
  using decodeUint16_Some [of val] decodeUint64_Some [of val] by (auto simp: set_field_def Let_def)

lemma decode_fields_Some: "\<exists>fr'. decode_fields rec fs off fr = Some fr'"
proof (induction fs arbitrary: off fr)
  case (Cons f fs)
  let ?val = "take (unat (fs_Length f)) (drop off rec)"
  show ?case
  proof (cases "off + unat (fs_Length f) > length rec")
    case False
    then obtain fr' where "set_field f ?val fr = Some fr'" using set_field_Some [of ?val f fr] by auto
    with False Cons.IH show ?thesis by (simp add: Let_def)
  qed simp
qed simp

lemma decodeRecord_Some: "\<exists>fr. decodeRecord rec fs = Some fr"
  unfolding decodeRecord_def by (rule decode_fields_Some)

lemma data_records_Some: "\<exists>frs. data_records body fs n off acc = Some frs"
proof (induction body fs n off acc rule: data_records.induct)
  case (1 body fs n off acc)
  show ?case
  proof (cases "n = 0 \<or> off + n > length body")
    case True
    then show ?thesis by (subst data_records.simps) simp
  next
    case False
    let ?rec = "take n (drop off body)"
    obtain fr where "decodeRecord ?rec fs = Some fr" using decodeRecord_Some by blast
    with False "1.IH" show ?thesis by (subst data_records.simps) simp
  qed
qed

lemma decodeDataSet_Some: "\<exists>frs. decodeDataSet body t = Some frs"
  using data_records_Some by (simp add: decodeDataSet_def)

lemma template_fields_Some: "\<exists>r. template_fields body n off acc = Some r"
proof (induction body n off acc rule: template_fields.induct)
  case (2 body n off acc)
  show ?case
  proof (cases "off + 4 > length body")
    case False
    then obtain a b where ab: "rd_be16 body off = Some a" "rd_be16 body (off + 2) = Some b" by simp
    show ?thesis
    proof (cases "a AND enterpriseBit \<noteq> 0 \<and> off + 4 + 4 \<le> length body")
      case True
      then obtain e where "rd_be32 body (off + 4) = Some e" using rd_be32_Some by blast
      with False ab True "2.IH"(1) [OF _ ab refl] show ?thesis by (simp add: Let_def)
    next
      case no: False
      with False ab "2.IH"(2) [OF _ ab refl] show ?thesis by (cases "a AND enterpriseBit = 0") (simp_all add: Let_def)
    qed
  qed simp
qed simp

lemma decodeTemplateSet_Some: "\<exists>s. decodeTemplateSet body odom off store = Some s"
proof (induction body odom off store rule: decodeTemplateSet.induct)
  case (1 body odom off store)
  show ?case
  proof (cases "off + 4 > length body")
    case True
    then show ?thesis by (subst decodeTemplateSet.simps) simp
  next
    case False
    then obtain a b where ab: "rd_be16 body off = Some a" "rd_be16 body (off + 2) = Some b" by simp
    from template_fields_Some obtain r where "template_fields body (unat b) (off + 4) [] = Some r" by blast
    with False ab "1.IH" show ?thesis
      by (subst decodeTemplateSet.simps) (cases r; auto)
  qed
qed

lemma decode_sets_Some: "msgLen \<le> length data \<Longrightarrow> \<exists>r. decode_sets data odom msgLen off store recs = Some r"
proof (induction data odom msgLen off store recs rule: decode_sets.induct)
  case (1 data odom msgLen off store recs)
  show ?case
  proof (cases "off + setHeaderLength > msgLen")
    case True
    then show ?thesis by (subst decode_sets.simps) simp
  next
    case False
    then obtain a b where ab: "rd_be16 data off = Some a" "rd_be16 data (off + 2) = Some b"
      using "1.prems" by (simp add: setHeaderLength_def)
    show ?thesis
    proof (cases "unat b < setHeaderLength \<or> off + unat b > msgLen")
      case True
      with False ab show ?thesis by (subst decode_sets.simps) (auto simp: Let_def)
    next
      case ok: False
      then obtain body where body: "go_slice data (off + setHeaderLength) (off + unat b) = Some body"
        using "1.prems" by simp
      obtain st where st: "decodeTemplateSet body odom 0 store = Some st" using decodeTemplateSet_Some by blast
      note IH = "1.IH" [OF False refl ab refl ok body]
      show ?thesis
      proof (cases "store_get store odom a")
        case None
        with False ab ok body st IH "1.prems" show ?thesis by (subst decode_sets.simps) (auto simp: Let_def)
      next
        case (Some t)
        obtain frs where "decodeDataSet body t = Some frs" using decodeDataSet_Some by blast
        with False ab ok body st Some IH "1.prems" show ?thesis by (subst decode_sets.simps) (auto simp: Let_def)
      qed
    qed
  qed
qed

text \<open>
  C10: whatever bytes arrive in a datagram and whatever templates are stored, decoding ends with a
  result or an error value: no index or slice expression of the decoder is out of range, and
  the three nested loops terminate.
\<close>

theorem DecodeMessage_total: "\<exists>r. DecodeMessage data store = Some r"
proof (cases "length data < messageHeaderLength")
  case True
  then show ?thesis by (simp add: DecodeMessage_def)
next
  case False
  then have len: "16 \<le> length data" by (simp add: messageHeaderLength_def)
  then obtain a b c d e where "rd_be16 data 0 = Some a" "rd_be16 data 2 = Some b" "rd_be32 data 4 = Some c"
    "rd_be32 data 8 = Some d" "rd_be32 data 12 = Some e"
    using rd_be32_Some [of 4 data] rd_be32_Some [of 8 data] rd_be32_Some [of 12 data] by auto
  with False decode_sets_Some [of "min (unat b) (length data)" data e messageHeaderLength store "[]"]
  show ?thesis by (auto simp: DecodeMessage_def Let_def)
qed

section \<open>Encoding, and the round trips\<close>

definition encode_field :: "fieldSpecifier \<Rightarrow> bytes" where
  "encode_field f =
     (if fs_EnterpriseNumber f = 0 then u16_bytes (fs_InformationElement f) @ u16_bytes (fs_Length f)
      else u16_bytes (fs_InformationElement f OR enterpriseBit) @ u16_bytes (fs_Length f) @ u32_bytes (fs_EnterpriseNumber f))"

definition encode_template :: "ipfix_template \<Rightarrow> bytes" where
  "encode_template t = u16_bytes (tp_ID t) @ u16_bytes (of_nat (length (tp_Fields t))) @
     concat (map encode_field (tp_Fields t))"

text \<open>What a template record can express: element numbers of 15 bits, fewer than 2^16 fields.\<close>

definition good_template :: "ipfix_template \<Rightarrow> bool" where
  "good_template t \<longleftrightarrow> length (tp_Fields t) < 2 ^ 16 \<and>
     (\<forall>f \<in> set (tp_Fields t). fs_InformationElement f AND enterpriseBit = 0)"

lemma enterprise_masks:
  fixes w :: u16
  assumes "w AND enterpriseBit = 0"
  shows "w AND NOT enterpriseBit = w" "(w OR enterpriseBit) AND NOT enterpriseBit = w"
    "(w OR enterpriseBit) AND enterpriseBit \<noteq> 0"
proof -
  have nb: "\<not> bit w k" if "bit enterpriseBit k" for k
    using assms that by (metis bit_and_iff bit_0_eq bot_apply bot_bool_def)
  show "w AND NOT enterpriseBit = w" "(w OR enterpriseBit) AND NOT enterpriseBit = w"
    by (rule bit_word_eqI; use nb in \<open>auto simp: bit_simps\<close>)+
  have "(w OR enterpriseBit) AND enterpriseBit = enterpriseBit"
    by (rule bit_word_eqI) (auto simp: bit_simps)
  then show "(w OR enterpriseBit) AND enterpriseBit \<noteq> 0" by (simp add: enterpriseBit_def)
qed

lemma field_eta [simp]:
  "\<lparr> fs_InformationElement = fs_InformationElement f, fs_Length = fs_Length f,
     fs_EnterpriseNumber = fs_EnterpriseNumber f \<rparr> = f"
  by simp

lemma field_eta_standard:
  "fs_EnterpriseNumber f = 0 \<Longrightarrow>
   \<lparr> fs_InformationElement = fs_InformationElement f, fs_Length = fs_Length f, fs_EnterpriseNumber = 0 \<rparr> = f"
  using field_eta [of f] by simp

lemma template_eta [simp]: "\<lparr> tp_ID = tp_ID t, tp_Fields = tp_Fields t \<rparr> = t"
  by simp

lemma template_fields_encode:
  assumes "\<forall>f \<in> set fs. fs_InformationElement f AND enterpriseBit = 0"
  shows "template_fields (xs @ concat (map encode_field fs) @ ys) (length fs) (length xs) acc =
    Some (Some (acc @ fs, length xs + length (concat (map encode_field fs))))"
  using assms
proof (induction fs arbitrary: xs acc)
  case (Cons f fs)
  let ?b = "xs @ concat (map encode_field (f # fs)) @ ys"
  note m = enterprise_masks [of "fs_InformationElement f"]
  have IH: "template_fields ?b (length fs) (length (xs @ encode_field f)) (acc @ [f]) =
      Some (Some (acc @ f # fs, length xs + length (concat (map encode_field (f # fs)))))"
    using Cons.IH [of "xs @ encode_field f" "acc @ [f]"] Cons.prems by simp
  show ?case
  proof (cases "fs_EnterpriseNumber f = 0")
    case True
    then have e: "encode_field f = u16_bytes (fs_InformationElement f) @ u16_bytes (fs_Length f)"
      by (simp add: encode_field_def)
    have "rd_be16 ?b (length xs) = Some (fs_InformationElement f)"
      using rd_be16_at [of xs "fs_InformationElement f" "u16_bytes (fs_Length f) @ concat (map encode_field fs) @ ys"]
      by (simp only: e list.map concat.simps append_assoc)
    moreover have "rd_be16 ?b (length xs + 2) = Some (fs_Length f)"
      using rd_be16_at [of "xs @ u16_bytes (fs_InformationElement f)" "fs_Length f" "concat (map encode_field fs) @ ys"]
      by (simp only: e list.map concat.simps append_assoc length_append length_u16_bytes)
    moreover note field_eta_standard [OF True]
    moreover have "length (encode_field f) = 4" by (simp add: e)
    ultimately show ?thesis using IH Cons.prems m by (simp add: Let_def)
  next
    case False
    then have e: "encode_field f = u16_bytes (fs_InformationElement f OR enterpriseBit) @ u16_bytes (fs_Length f) @
        u32_bytes (fs_EnterpriseNumber f)" by (simp add: encode_field_def)
    have "rd_be16 ?b (length xs) = Some (fs_InformationElement f OR enterpriseBit)"
      using rd_be16_at [of xs "fs_InformationElement f OR enterpriseBit"
          "u16_bytes (fs_Length f) @ u32_bytes (fs_EnterpriseNumber f) @ concat (map encode_field fs) @ ys"]
      by (simp only: e list.map concat.simps append_assoc)
    moreover have "rd_be16 ?b (length xs + 2) = Some (fs_Length f)"
      using rd_be16_at [of "xs @ u16_bytes (fs_InformationElement f OR enterpriseBit)" "fs_Length f"
          "u32_bytes (fs_EnterpriseNumber f) @ concat (map encode_field fs) @ ys"]
      by (simp only: e list.map concat.simps append_assoc length_append length_u16_bytes)
    moreover have "rd_be32 ?b (length xs + 4) = Some (fs_EnterpriseNumber f)"
      using rd_be32_at [of "xs @ u16_bytes (fs_InformationElement f OR enterpriseBit) @ u16_bytes (fs_Length f)"
          "fs_EnterpriseNumber f" "concat (map encode_field fs) @ ys"]
      by (simp add: e)
    moreover have "length (encode_field f) = 8" by (simp add: e)
    ultimately show ?thesis using IH Cons.prems m by (simp add: Let_def)
  qed
qed simp

lemma decodeTemplateSet_encode:
  assumes "\<forall>t \<in> set ts. good_template t" and "length pad < 4"
  shows "decodeTemplateSet (xs @ concat (map encode_template ts) @ pad) odom (length xs) store =
    Some (fold (store_put odom) ts store)"
  using assms(1)
proof (induction ts arbitrary: xs store)
  case Nil
  then show ?case using assms(2) by (subst decodeTemplateSet.simps) simp
next
  case (Cons t ts)
  let ?b = "xs @ concat (map encode_template (t # ts)) @ pad"
  let ?n = "of_nat (length (tp_Fields t)) :: u16"
  let ?fs = "concat (map encode_field (tp_Fields t))"
  have n: "unat ?n = length (tp_Fields t)" using Cons.prems by (simp add: good_template_def unat_of_nat_small)
  have b: "?b = (xs @ u16_bytes (tp_ID t) @ u16_bytes ?n) @ ?fs @ concat (map encode_template ts) @ pad"
    by (simp add: encode_template_def)
  have "rd_be16 ?b (length xs) = Some (tp_ID t)"
    using rd_be16_at [of xs "tp_ID t" "u16_bytes ?n @ ?fs @ concat (map encode_template ts) @ pad"]
    by (simp only: b append_assoc)
  moreover have "rd_be16 ?b (length xs + 2) = Some ?n"
    using rd_be16_at [of "xs @ u16_bytes (tp_ID t)" ?n "?fs @ concat (map encode_template ts) @ pad"]
    by (simp only: b append_assoc length_append length_u16_bytes)
  moreover have "template_fields ?b (unat ?n) (length xs + 4) [] =
      Some (Some (tp_Fields t, length (xs @ encode_template t)))"
    using template_fields_encode [of "tp_Fields t" "xs @ u16_bytes (tp_ID t) @ u16_bytes ?n"
        "concat (map encode_template ts) @ pad" "[]"] Cons.prems
    unfolding b n by (simp add: good_template_def encode_template_def)
  moreover have "\<not> length xs + 4 > length ?b" by (simp add: encode_template_def)
  moreover have "decodeTemplateSet ?b odom (length (xs @ encode_template t)) (store_put odom t store) =
      Some (fold (store_put odom) (t # ts) store)"
    using Cons.IH [of "xs @ encode_template t" "store_put odom t store"] Cons.prems by simp
  ultimately show ?case by (subst decodeTemplateSet.simps) simp
qed

lemma data_records_chunks:
  assumes "0 < n" and "\<forall>r \<in> set rs. length r = n" and "length pad < n"
  shows "data_records (xs @ concat rs @ pad) fs n (length xs) acc =
    Some (acc @ map (\<lambda>r. the (decodeRecord r fs)) rs)"
  using assms(2)
proof (induction rs arbitrary: xs acc)
  case Nil
  then show ?case using assms(1,3) by (subst data_records.simps) simp
next
  case (Cons r rs)
  obtain fr where fr: "decodeRecord r fs = Some fr" using decodeRecord_Some by blast
  have "go_slice (xs @ concat (r # rs) @ pad) (length xs) (length xs + n) = Some r"
    using Cons.prems by (simp add: go_slice_def)
  moreover have "data_records (xs @ concat (r # rs) @ pad) fs n (length xs + n) (acc @ [fr]) =
      Some (acc @ map (\<lambda>r. the (decodeRecord r fs)) (r # rs))"
    using Cons.IH [of "xs @ r" "acc @ [fr]"] Cons.prems fr by simp
  moreover have "\<not> length xs + n > length (xs @ concat (r # rs) @ pad)" using Cons.prems by simp
  ultimately show ?case using assms(1) fr by (subst data_records.simps) simp
qed

lemma decodeDataSet_chunks:
  assumes "0 < recordLength t" and "\<forall>r \<in> set rs. length r = recordLength t" and "length pad < recordLength t"
  shows "decodeDataSet (concat rs @ pad) t = Some (map (\<lambda>r. the (decodeRecord r (tp_Fields t))) rs)"
  using data_records_chunks [OF assms, of "[]" "tp_Fields t" "[]"] assms(1) by (simp add: decodeDataSet_def)

section \<open>The value of a counter\<close>

definition be_value :: "bytes \<Rightarrow> nat" where
  "be_value b = foldl (\<lambda>n x. n * 256 + unat x) 0 b"

lemma be_value_from: "foldl (\<lambda>n x. n * 256 + unat x) k b = k * 256 ^ length b + be_value b"
proof (induction b arbitrary: k)
  case (Cons x b)
  from Cons.IH [of "k * 256 + unat x"] Cons.IH [of "unat x"] show ?case
    by (simp add: be_value_def algebra_simps)
qed (simp add: be_value_def)

lemma be_value_append: "be_value (xs @ ys) = be_value xs * 256 ^ length ys + be_value ys"
  using be_value_from [of "be_value xs" ys] by (simp add: be_value_def)

lemma be_value_zeros [simp]: "be_value (replicate n 0 @ b) = be_value b"
proof -
  have "be_value (replicate n 0) = 0" by (induction n) (simp_all add: be_value_def)
  then show ?thesis by (simp add: be_value_append)
qed

lemma be_value_less: "be_value b < 256 ^ length b"
proof (induction b rule: rev_induct)
  case (snoc x b)
  have "unat x < 256" using unsigned_less [of x, where 'a = nat] by simp
  moreover have "(be_value b + 1) * 256 \<le> 256 ^ length b * 256" using snoc by (intro mult_le_mono1) simp
  ultimately show ?case by (simp add: be_value_append) (simp add: be_value_def)
qed (simp add: be_value_def)

lemma unat_be32: "unat (be32 a b c d) = ((unat a * 256 + unat b) * 256 + unat c) * 256 + unat d"
proof -
  have r: "unat (ucast x :: u32) = unat x" "unat x < 256" for x :: u8
    using unsigned_less [of x, where 'a = nat] by (simp_all add: unsigned_ucast_eq take_bit_nat_eq_self)
  have 1: "unat (push_bit 8 (ucast c) OR ucast d :: u32) = unat c * 2 ^ 8 + unat d"
    using or_push_bit_add [of 8 "ucast d :: u32" "ucast c"] r(2) [of c] r(2) [of d] by (simp add: r(1))
  have 2: "unat (push_bit 16 (ucast b) OR (push_bit 8 (ucast c) OR ucast d) :: u32) =
      unat b * 2 ^ 16 + (unat c * 2 ^ 8 + unat d)"
    using or_push_bit_add [of 16 "push_bit 8 (ucast c) OR ucast d :: u32" "ucast b"] r(2) [of b] r(2) [of c] r(2) [of d]
    by (simp add: r(1) 1)
  have "unat (push_bit 24 (ucast a) OR (push_bit 16 (ucast b) OR (push_bit 8 (ucast c) OR ucast d)) :: u32) =
      unat a * 2 ^ 24 + (unat b * 2 ^ 16 + (unat c * 2 ^ 8 + unat d))"
    using or_push_bit_add [of 24 "push_bit 16 (ucast b) OR (push_bit 8 (ucast c) OR ucast d) :: u32" "ucast a"]
      r(2) [of a] r(2) [of b] r(2) [of c] r(2) [of d] by (simp add: r(1) 2)
  then show ?thesis by (simp add: be32_def or.assoc)
qed

lemma rd_be32_value:
  assumes "length b = 4" and "rd_be32 (xs @ b @ ys) (length xs) = Some v"
  shows "unat v = be_value b"
proof -
  obtain p q r t where b: "b = [p, q, r, t]"
    using assms(1) by (auto simp: length_Suc_conv eval_nat_numeral)
  have "v = be32 p q r t" using assms(2) by (simp add: rd_be32_def b nth_append)
  then show ?thesis by (simp add: unat_be32 be_value_def b)
qed

lemma decodeUint64_pad: "\<exists>v. decodeUint64 b = Some v \<and> unat v = be_value (pad_left 8 b)"
proof -
  let ?p = "pad_left 8 b"
  have p: "?p = take 4 ?p @ drop 4 ?p" "length (take 4 ?p) = 4" "length (drop 4 ?p) = 4" by simp_all
  obtain hi where hi: "rd_be32 ?p 0 = Some hi" using rd_be32_Some [of 0 ?p] by auto
  obtain lo where lo: "rd_be32 ?p 4 = Some lo" using rd_be32_Some [of 4 ?p] by auto
  have vhi: "unat hi = be_value (take 4 ?p)"
    using rd_be32_value [OF p(2), of "[]" "drop 4 ?p" hi] hi by simp
  have vlo: "unat lo = be_value (drop 4 ?p)"
    using rd_be32_value [OF p(3), of "take 4 ?p" "[]" lo] lo by simp
  have r: "unat (ucast x :: u64) = unat x" "unat x < 2 ^ 32" for x :: u32
    using unsigned_less [of x, where 'a = nat] by (simp_all add: unsigned_ucast_eq take_bit_nat_eq_self)
  have "unat (push_bit 32 (ucast hi) OR ucast lo :: u64) = unat hi * 2 ^ 32 + unat lo"
    using or_push_bit_add [of 32 "ucast lo :: u64" "ucast hi"] r(2) [of hi] r(2) [of lo] by (simp add: r(1))
  also have "\<dots> = be_value ?p"
    using be_value_append [of "take 4 ?p" "drop 4 ?p"] by (simp add: vhi vlo)
  finally show ?thesis using hi lo by (simp add: decodeUint64_def rd_be64_def)
qed

text \<open>
  A counter of any declared width is read as the big-endian number its bytes spell, modulo
  2^64: exactly for widths up to eight bytes, and by the last eight bytes beyond that.
\<close>

theorem decodeUint64_value:
  "\<exists>v. decodeUint64 b = Some v \<and> unat v = be_value b mod 2 ^ 64"
proof -
  have "be_value (pad_left 8 b) = be_value b mod 2 ^ 64"
  proof (cases "length b > 8")
    case True
    let ?hi = "take (length b - 8) b" and ?lo = "drop (length b - 8) b"
    have lo: "be_value ?lo < 2 ^ 64" using be_value_less [of ?lo] True by simp
    have "be_value b = be_value ?hi * 2 ^ 64 + be_value ?lo"
      using be_value_append [of ?hi ?lo] True by simp
    with True lo show ?thesis by (simp add: pad_left_def Let_def)
  next
    case False
    have "be_value b < 256 ^ length b" by (rule be_value_less)
    also have "\<dots> \<le> 256 ^ 8" using False by (intro power_increasing) auto
    finally show ?thesis using False by (simp add: pad_left_def Let_def)
  qed
  with decodeUint64_pad [of b] show ?thesis by simp
qed

section \<open>Whole messages\<close>

definition encode_set :: "u16 \<Rightarrow> bytes \<Rightarrow> bytes" where
  "encode_set ident body = u16_bytes ident @ u16_bytes (of_nat (4 + length body)) @ body"

definition encode_message :: "u32 \<Rightarrow> u32 \<Rightarrow> u32 \<Rightarrow> bytes \<Rightarrow> bytes" where
  "encode_message odom exported seqNo body = u16_bytes 10 @ u16_bytes (of_nat (16 + length body)) @
     u32_bytes exported @ u32_bytes seqNo @ u32_bytes odom @ body"

lemma length_encode_set [simp]: "length (encode_set ident body) = 4 + length body"
  by (simp add: encode_set_def)

lemma decode_sets_encode:
  assumes "4 + length body < 2 ^ 16" and "length xs + 4 + length body \<le> msgLen"
    and "data = xs @ encode_set ident body @ ys"
  shows "decode_sets data odom msgLen (length xs) store recs =
    (if ident = setIDTemplate \<or> ident = setIDOptionsTemplate then
       Option.bind (decodeTemplateSet body odom 0 store)
         (\<lambda>st. decode_sets data odom msgLen (length (xs @ encode_set ident body)) st recs)
     else if minDataSetID \<le> ident then
       (case store_get store odom ident of
          None \<Rightarrow> decode_sets data odom msgLen (length (xs @ encode_set ident body)) store recs
        | Some t \<Rightarrow> Option.bind (decodeDataSet body t)
            (\<lambda>frs. decode_sets data odom msgLen (length (xs @ encode_set ident body)) store (recs @ frs)))
     else decode_sets data odom msgLen (length (xs @ encode_set ident body)) store recs)"
proof -
  let ?n = "of_nat (4 + length body) :: u16"
  have n: "unat ?n = 4 + length body" using assms(1) by (intro unat_of_nat_small) simp
  have "rd_be16 data (length xs) = Some ident"
    unfolding assms(3) encode_set_def using rd_be16_at [of xs ident "u16_bytes ?n @ body @ ys"] by (simp only: append_assoc)
  moreover have "rd_be16 data (length xs + 2) = Some ?n"
    unfolding assms(3) encode_set_def using rd_be16_at [of "xs @ u16_bytes ident" ?n "body @ ys"]
    by (simp only: append_assoc length_append length_u16_bytes)
  moreover have "go_slice data (length xs + setHeaderLength) (length xs + unat ?n) = Some body"
    unfolding assms(3) encode_set_def n setHeaderLength_def by (simp add: go_slice_def)
  moreover have "\<not> length xs + setHeaderLength > msgLen" "\<not> (unat ?n < setHeaderLength \<or> length xs + unat ?n > msgLen)"
    using assms(2) by (simp_all only: n) (simp_all add: setHeaderLength_def)
  moreover have "length xs + unat ?n = length (xs @ encode_set ident body)" by (simp only: n) simp
  ultimately show ?thesis
    by (subst decode_sets.simps) (simp add: Let_def split: option.split del: of_nat_add)
qed

lemma DecodeMessage_encode:
  assumes "16 + length body < 2 ^ 16"
  shows "DecodeMessage (encode_message odom exported seqNo body) store =
    map_option Inr (decode_sets (encode_message odom exported seqNo body) odom (16 + length body) 16 store [])"
proof -
  let ?n = "of_nat (16 + length body) :: u16"
  let ?d = "encode_message odom exported seqNo body"
  have n: "unat ?n = 16 + length body" using assms by (intro unat_of_nat_small) simp
  note d = encode_message_def append_assoc length_append length_u16_bytes length_u32_bytes
  have "rd_be16 ?d 0 = Some 10"
    using rd_be16_at [of "[]" 10 "u16_bytes ?n @ u32_bytes exported @ u32_bytes seqNo @ u32_bytes odom @ body"]
    by (simp only: d append_Nil list.size)
  moreover have "rd_be16 ?d 2 = Some ?n"
    using rd_be16_at [of "u16_bytes 10" ?n "u32_bytes exported @ u32_bytes seqNo @ u32_bytes odom @ body"]
    by (simp only: d)
  moreover have "rd_be32 ?d 4 = Some exported"
    using rd_be32_at [of "u16_bytes 10 @ u16_bytes ?n" exported "u32_bytes seqNo @ u32_bytes odom @ body"]
    by (simp add: d)
  moreover have "rd_be32 ?d 8 = Some seqNo"
    using rd_be32_at [of "u16_bytes 10 @ u16_bytes ?n @ u32_bytes exported" seqNo "u32_bytes odom @ body"]
    by (simp add: d)
  moreover have "rd_be32 ?d 12 = Some odom"
    using rd_be32_at [of "u16_bytes 10 @ u16_bytes ?n @ u32_bytes exported @ u32_bytes seqNo" odom body]
    by (simp add: d)
  moreover have "length ?d = 16 + length body" by (simp add: encode_message_def)
  ultimately show ?thesis
    by (simp add: DecodeMessage_def messageHeaderLength_def Let_def n del: of_nat_add)
qed

text \<open>The usual template of a router, and a flow exported with it.\<close>

record exported =
  ex_src :: bytes
  ex_dst :: bytes
  ex_sport :: u16
  ex_dport :: u16
  ex_proto :: u8
  ex_packets :: u64
  ex_octets :: u64

definition good_export :: "exported \<Rightarrow> bool" where
  "good_export x \<longleftrightarrow> length (ex_src x) = 4 \<and> length (ex_dst x) = 4"

definition standard_template :: "u16 \<Rightarrow> ipfix_template" where
  "standard_template ident = \<lparr> tp_ID = ident, tp_Fields =
     map (\<lambda>(ie, n). \<lparr> fs_InformationElement = ie, fs_Length = n, fs_EnterpriseNumber = 0 \<rparr>)
       [(8, 4), (12, 4), (7, 2), (11, 2), (4, 1), (2, 8), (1, 8)] \<rparr>"

definition u64_bytes :: "u64 \<Rightarrow> bytes" where
  "u64_bytes w = u32_bytes (ucast (drop_bit 32 w)) @ u32_bytes (ucast w)"

definition encode_flow :: "exported \<Rightarrow> bytes" where
  "encode_flow x = ex_src x @ ex_dst x @ u16_bytes (ex_sport x) @ u16_bytes (ex_dport x) @ [ex_proto x] @
     u64_bytes (ex_packets x) @ u64_bytes (ex_octets x)"

definition flow_of :: "exported \<Rightarrow> flow_record" where
  "flow_of x = \<lparr> fr_SrcIP = ip_text (ex_src x), fr_DstIP = ip_text (ex_dst x), fr_SrcPort = ex_sport x,
     fr_DstPort = ex_dport x, fr_Protocol = protocolName (ex_proto x), fr_Packets = ex_packets x,
     fr_Bytes = ex_octets x \<rparr>"

lemma length_u64_bytes [simp]: "length (u64_bytes w) = 8" by (simp add: u64_bytes_def)

lemma decodeUint16_bytes [simp]: "decodeUint16 (u16_bytes w) = Some w"
  using rd_be16_at [of "[]" w "[]"] by (simp add: decodeUint16_def pad_left_def)

lemma decodeUint64_bytes [simp]: "decodeUint64 (u64_bytes w) = Some w"
proof -
  have p: "pad_left 8 (u64_bytes w) = u64_bytes w" by (simp add: pad_left_def)
  have "rd_be32 (u64_bytes w) 0 = Some (ucast (drop_bit 32 w))"
    using rd_be32_at [of "[]" "ucast (drop_bit 32 w)" "u32_bytes (ucast w)"] by (simp add: u64_bytes_def)
  moreover have "rd_be32 (u64_bytes w) 4 = Some (ucast w)"
    using rd_be32_at [of "u32_bytes (ucast (drop_bit 32 w))" "ucast w" "[]"] by (simp add: u64_bytes_def)
  moreover have "push_bit 32 (ucast (ucast (drop_bit 32 w) :: u32)) OR ucast (ucast w :: u32) = w"
    by (rule bit_word_eqI) (auto simp: bit_simps)
  ultimately show ?thesis by (simp add: decodeUint64_def rd_be64_def p)
qed

lemma decode_fields_at:
  assumes "length val = unat (fs_Length f)"
  shows "decode_fields (xs @ val @ ys) (f # fs) (length xs) fr =
    Option.bind (set_field f val fr) (decode_fields (xs @ val @ ys) fs (length xs + length val))"
  using assms by (simp add: Let_def)

lemma decodeRecord_encode_flow:
  assumes "good_export x"
  shows "decodeRecord (encode_flow x) (tp_Fields (standard_template ident)) = Some (flow_of x)"
proof -
  let ?F = "\<lambda>ie n. \<lparr> fs_InformationElement = ie, fs_Length = n, fs_EnterpriseNumber = 0 \<rparr>"
  let ?s = "ex_src x" and ?d = "ex_dst x" and ?sp = "u16_bytes (ex_sport x)" and ?dp = "u16_bytes (ex_dport x)"
    and ?p = "[ex_proto x]" and ?k = "u64_bytes (ex_packets x)" and ?o = "u64_bytes (ex_octets x)"
  have l: "length ?s = 4" "length ?d = 4" using assms by (simp_all add: good_export_def)
  note at = decode_fields_at [unfolded append_assoc]
  show ?thesis
    unfolding decodeRecord_def standard_template_def encode_flow_def ipfix_template.select_convs list.map prod.case
    using at [of ?s "?F 8 4" "[]" "?d @ ?sp @ ?dp @ ?p @ ?k @ ?o"]
      at [of ?d "?F 12 4" ?s "?sp @ ?dp @ ?p @ ?k @ ?o"]
      at [of ?sp "?F 7 2" "?s @ ?d" "?dp @ ?p @ ?k @ ?o"]
      at [of ?dp "?F 11 2" "?s @ ?d @ ?sp" "?p @ ?k @ ?o"]
      at [of ?p "?F 4 1" "?s @ ?d @ ?sp @ ?dp" "?k @ ?o"]
      at [of ?k "?F 2 8" "?s @ ?d @ ?sp @ ?dp @ ?p" ?o]
      at [of ?o "?F 1 8" "?s @ ?d @ ?sp @ ?dp @ ?p @ ?k" "[]"]
    by (simp add: l set_field_def ie_defs zero_flow_record_def flow_of_def del: decode_fields.simps(2))
qed

text \<open>
  C9: Flows exported with the usual template are recovered exactly.  A message that announces the
  template under a data set identifier (256 or above) and carries records of IPv4 flows laid out by
  it, as many as fit into the 16-bit length of a message, is decoded, whatever templates the collector
  had stored before, to the addresses, ports, protocol and counters of the flows in order, and the
  template is stored under the observation domain of the message.
\<close>

theorem exported_flows_roundtrip:
  assumes "256 \<le> ident" and "\<forall>x \<in> set flows. good_export x" and "56 + 29 * length flows < 2 ^ 16"
  shows "DecodeMessage (encode_message odom exported seqNo
      (encode_set setIDTemplate (encode_template (standard_template ident)) @
       encode_set ident (concat (map encode_flow flows)))) store =
    Some (Inr (map flow_of flows, store_put odom (standard_template ident) store))"
proof -
  let ?t = "standard_template ident"
  let ?A = "encode_set setIDTemplate (encode_template ?t)"
  let ?B = "encode_set ident (concat (map encode_flow flows))"
  let ?h = "u16_bytes 10 @ u16_bytes (of_nat (16 + length (?A @ ?B))) @ u32_bytes exported @ u32_bytes seqNo @ u32_bytes odom"
  let ?D = "encode_message odom exported seqNo (?A @ ?B)"
  have gt: "good_template ?t" by (simp add: good_template_def standard_template_def enterpriseBit_def)
  have rl: "recordLength ?t = 29" by (simp add: recordLength_def standard_template_def)
  have lt: "length (encode_template ?t) = 32"
    by (simp add: encode_template_def standard_template_def encode_field_def)
  have lr: "length (encode_flow x) = 29" if "x \<in> set flows" for x
    using assms(2) that by (simp add: encode_flow_def good_export_def)
  have lc: "length (concat (map encode_flow flows)) = 29 * length flows"
    using lr by (induction flows) auto
  have D: "?D = ?h @ ?A @ ?B" by (simp add: encode_message_def)
  have h: "length ?h = 16" by simp
  have T: "decodeTemplateSet (encode_template ?t) odom 0 store = Some (store_put odom ?t store)"
    using decodeTemplateSet_encode [of "[?t]" "[]" "[]" odom store] gt by simp
  have B: "decodeDataSet (concat (map encode_flow flows)) ?t = Some (map flow_of flows)"
    using decodeDataSet_chunks [of ?t "map encode_flow flows" "[]"] rl lr assms(2) decodeRecord_encode_flow [of _ ident]
    by simp
  have G: "store_get (store_put odom ?t store) odom ident = Some ?t"
    by (simp add: store_get_def store_put_def standard_template_def)
  have k: "ident \<noteq> setIDTemplate" "ident \<noteq> setIDOptionsTemplate" "minDataSetID \<le> ident"
    using assms(1) by (auto simp: setIDTemplate_def setIDOptionsTemplate_def minDataSetID_def)
  have E: "decode_sets ?D odom (16 + length (?A @ ?B)) (length (?h @ ?A @ ?B)) st frs = Some (frs, st)" for st frs
    by (subst decode_sets.simps) (simp add: setHeaderLength_def)
  have "decode_sets ?D odom (16 + length (?A @ ?B)) (length (?h @ ?A)) (store_put odom ?t store) [] =
      Some (map flow_of flows, store_put odom ?t store)"
    using decode_sets_encode [of "concat (map encode_flow flows)" "?h @ ?A" "16 + length (?A @ ?B)" ?D ident "[]" odom
        "store_put odom ?t store" "[]"] D lc lt assms(3) k B G E
    by (simp add: h)
  then have "decode_sets ?D odom (16 + length (?A @ ?B)) (length ?h) store [] =
      Some (map flow_of flows, store_put odom ?t store)"
    using decode_sets_encode [of "encode_template ?t" ?h "16 + length (?A @ ?B)" ?D setIDTemplate ?B odom store "[]"]
      D lt T by simp
  then show ?thesis
    using DecodeMessage_encode [of "?A @ ?B" odom exported seqNo store] lc lt assms(3) h by simp
qed

theorem exported_flows_roundtrip_witness:
  "DecodeMessage (encode_message 7 0 1
      (encode_set setIDTemplate (encode_template (standard_template 256)) @
       encode_set 256 (concat (map encode_flow
         [\<lparr> ex_src = [10, 0, 0, 1], ex_dst = [10, 0, 0, 9], ex_sport = 1024, ex_dport = 502, ex_proto = 6,
            ex_packets = 12, ex_octets = 3400 \<rparr>])))) [] =
    Some (Inr ([\<lparr> fr_SrcIP = ip_text [10, 0, 0, 1], fr_DstIP = ip_text [10, 0, 0, 9], fr_SrcPort = 1024,
      fr_DstPort = 502, fr_Protocol = ''TCP'', fr_Packets = 12, fr_Bytes = 3400 \<rparr>],
      [(''7:256'', standard_template 256)]))"
proof -
  let ?x = "\<lparr> ex_src = [10, 0, 0, 1], ex_dst = [10, 0, 0, 9], ex_sport = 1024, ex_dport = 502, ex_proto = 6,
            ex_packets = 12, ex_octets = 3400 \<rparr>"
  have p: "store_put 7 (standard_template 256) [] = [(''7:256'', standard_template 256)]" by code_simp
  have f: "map flow_of [?x] = [\<lparr> fr_SrcIP = ip_text [10, 0, 0, 1], fr_DstIP = ip_text [10, 0, 0, 9], fr_SrcPort = 1024,
      fr_DstPort = 502, fr_Protocol = ''TCP'', fr_Packets = 12, fr_Bytes = 3400 \<rparr>]"
    by (simp add: flow_of_def protocolName_def)
  have g: "(256 :: u16) \<le> 256" "\<forall>x \<in> set [?x]. good_export x" "56 + 29 * length [?x] < 2 ^ 16" by (simp_all add: good_export_def)
  show ?thesis by (rule exported_flows_roundtrip [OF g, of 7 0 1 "[]", unfolded p f])
qed

section \<open>Vendor elements\<close>

lemma set_field_enterprise: "set_field (f\<lparr> fs_EnterpriseNumber := k \<rparr>) v fr = set_field f v fr"
  by (simp add: set_field_def)

lemma decode_fields_enterprise:
  "decode_fields rec (map (\<lambda>f. f\<lparr> fs_EnterpriseNumber := k f \<rparr>) fs) off fr = decode_fields rec fs off fr"
  by (induction fs arbitrary: off fr) (simp_all add: set_field_enterprise Let_def cong: Option.bind_cong)

text \<open>
  The enterprise number of a field is read and stored but never looked at: two templates that
  differ only in the enterprise numbers decode every data set alike.  A vendor element whose
  15-bit number happens to be one of the nine supported ones is taken for the standard element.
\<close>

theorem enterprise_number_ignored:
  "decodeDataSet body (t\<lparr> tp_Fields := map (\<lambda>f. f\<lparr> fs_EnterpriseNumber := k f \<rparr>) (tp_Fields t) \<rparr>) =
   decodeDataSet body t"
proof -
  let ?g = "map (\<lambda>f. f\<lparr> fs_EnterpriseNumber := k f \<rparr>)"
  have r: "decodeRecord r (?g fs) = decodeRecord r fs" for r fs
    unfolding decodeRecord_def by (rule decode_fields_enterprise)
  have "data_records b (?g fs) n off acc = data_records b fs n off acc" for b fs n off acc
  proof (induction b fs n off acc rule: data_records.induct)
    case (1 b fs n off acc)
    then show ?case
      by (subst (1 2) data_records.simps) (auto simp: r split: option.splits)
  qed
  moreover have "recordLength (t\<lparr> tp_Fields := ?g (tp_Fields t) \<rparr>) = recordLength t"
    by (simp add: recordLength_def o_def)
  ultimately show ?thesis by (simp add: decodeDataSet_def)
qed

end
