(* ===== verification/Flow_Engine.thy ===== *)
theory Flow_Engine
  imports Ipfix_Decode
begin

text \<open>
  internal/flow: conversations folded in both directions, and their synchronisation with the
  central server.  One operation of the engine is one function here; the mutex makes each of
  them atomic.  \<open>now\<close> stands for the result of \<open>time.Now()\<close>.
\<close>

section \<open>State\<close>

record flow =
  fl_ID :: string
  fl_SrcIP :: string
  fl_DstIP :: string
  fl_SrcPort :: u16
  fl_DstPort :: u16
  fl_Protocol :: string
  fl_InitiatorIP :: string
  fl_ResponderIP :: string
  fl_InitiatorPort :: u16
  fl_ResponderPort :: u16
  fl_PacketsAToB :: u64
  fl_PacketsBToA :: u64
  fl_BytesAToB :: u64
  fl_BytesBToA :: u64
  fl_Packets :: u64
  fl_Bytes :: u64
  fl_FirstSeen :: time
  fl_LastSeen :: time
  fl_FromAnalysis :: bool
  fl_HoneypotInitiated :: bool
  fl_VLANID :: u16
  fl_Synced :: bool

record sync_snapshot =
  ss_ID :: string
  ss_InitiatorIP :: string
  ss_ResponderIP :: string
  ss_InitiatorPort :: u16
  ss_ResponderPort :: u16
  ss_PacketsAToB :: u64
  ss_PacketsBToA :: u64
  ss_BytesAToB :: u64
  ss_BytesBToA :: u64
  ss_Packets :: u64
  ss_Bytes :: u64
  ss_LastSeen :: time
  ss_VLANID :: u16

record flow_engine =
  fe_flows :: "(string, flow) gomap"
  fe_deceptionScores :: "(string, int) gomap"
  fe_honeypotThreshold :: int

definition flow_new :: "(string, int) gomap \<Rightarrow> int \<Rightarrow> flow_engine" where
  "flow_new scores threshold = \<lparr> fe_flows = [], fe_deceptionScores = scores, fe_honeypotThreshold = threshold \<rparr>"

definition flowKey :: "string \<Rightarrow> string \<Rightarrow> u16 \<Rightarrow> string \<Rightarrow> u16 \<Rightarrow> string" where
  "flowKey protocol ip1 port1 ip2 port2 =
     protocol @ ''|'' @ ordered_pair_text CHR ''|'' (endpoint_text ip1 port1) (endpoint_text ip2 port2)"

section \<open>Operations\<close>

text \<open>The record that the first sighting creates, before its counters are touched.\<close>

definition fresh_flow :: "string \<Rightarrow> string \<Rightarrow> string \<Rightarrow> u16 \<Rightarrow> string \<Rightarrow> u16 \<Rightarrow> time \<Rightarrow> bool \<Rightarrow> flow" where
  "fresh_flow key protocol sip sport dip dport now analysis =
     \<lparr> fl_ID = key, fl_SrcIP = sip, fl_DstIP = dip, fl_SrcPort = sport, fl_DstPort = dport,
       fl_Protocol = protocol, fl_InitiatorIP = sip, fl_ResponderIP = dip,
       fl_InitiatorPort = sport, fl_ResponderPort = dport,
       fl_PacketsAToB = 0, fl_PacketsBToA = 0, fl_BytesAToB = 0, fl_BytesBToA = 0,
       fl_Packets = 0, fl_Bytes = 0, fl_FirstSeen = now, fl_LastSeen = 0,
       fl_FromAnalysis = analysis, fl_HoneypotInitiated = False, fl_VLANID = 0, fl_Synced = False \<rparr>"

definition from_honeypot :: "flow_engine \<Rightarrow> string \<Rightarrow> bool" where
  "from_honeypot e ip \<longleftrightarrow> (case mget (fe_deceptionScores e) ip of
     None \<Rightarrow> False | Some score \<Rightarrow> score \<ge> fe_honeypotThreshold e)"

definition opens_connection :: "packet \<Rightarrow> bool" where
  "opens_connection p \<longleftrightarrow> pk_L4Protocol p = ''TCP'' \<and> go_contains (pk_TCPFlags p) ''SYN'' \<and>
     \<not> go_contains (pk_TCPFlags p) ''ACK''"

text \<open>What one packet does to its flow, from the look-up of the record on.\<close>

definition count_packet :: "packet \<Rightarrow> flow \<Rightarrow> flow" where
  "count_packet p f =
     (let n = of_int (pk_Length p) :: u64;
          f1 = (if opens_connection p
                then f\<lparr> fl_InitiatorIP := pk_SrcIP p, fl_ResponderIP := pk_DstIP p,
                       fl_InitiatorPort := pk_SrcPort p, fl_ResponderPort := pk_DstPort p \<rparr>
                else f);
          f2 = f1\<lparr> fl_Packets := fl_Packets f1 + 1, fl_Bytes := fl_Bytes f1 + n \<rparr>;
          f3 = (if pk_SrcIP p = fl_InitiatorIP f2 \<and> pk_SrcPort p = fl_InitiatorPort f2
                then f2\<lparr> fl_PacketsAToB := fl_PacketsAToB f2 + 1, fl_BytesAToB := fl_BytesAToB f2 + n \<rparr>
                else f2\<lparr> fl_PacketsBToA := fl_PacketsBToA f2 + 1, fl_BytesBToA := fl_BytesBToA f2 + n \<rparr>)
      in f3\<lparr> fl_LastSeen := pk_Timestamp p, fl_Synced := False \<rparr>)"

definition packet_key :: "packet \<Rightarrow> string" where
  "packet_key p = flowKey (pk_L4Protocol p) (pk_SrcIP p) (pk_SrcPort p) (pk_DstIP p) (pk_DstPort p)"

definition flow_update :: "packet \<Rightarrow> flow_engine \<Rightarrow> flow_engine" where
  "flow_update p e =
     (let key = packet_key p;
          f0 = (case mget (fe_flows e) key of
                  None \<Rightarrow> fresh_flow key (pk_L4Protocol p) (pk_SrcIP p) (pk_SrcPort p) (pk_DstIP p)
                            (pk_DstPort p) (pk_Timestamp p) (pk_FromAnalysis p)
                | Some f \<Rightarrow> (if pk_FromAnalysis p then f else f\<lparr> fl_FromAnalysis := False \<rparr>));
          f1 = (if from_honeypot e (pk_SrcIP p) then f0\<lparr> fl_HoneypotInitiated := True \<rparr> else f0);
          f2 = (if pk_VLANID p \<noteq> 0 then f1\<lparr> fl_VLANID := pk_VLANID p \<rparr> else f1)
      in e\<lparr> fe_flows := mput key (count_packet p f2) (fe_flows e) \<rparr>)"

definition flow_handle :: "packet \<Rightarrow> flow_engine \<Rightarrow> flow_engine" where
  "flow_handle p e = (if pk_SrcIP p = [] \<or> pk_DstIP p = [] then e else flow_update p e)"

definition ApplyExternalDelta ::
  "time \<Rightarrow> string \<Rightarrow> string \<Rightarrow> u16 \<Rightarrow> string \<Rightarrow> u16 \<Rightarrow> u64 \<Rightarrow> u64 \<Rightarrow> flow_engine \<Rightarrow> flow_engine" where
  "ApplyExternalDelta now protocol sip sport dip dport packets octets e =
     (let key = flowKey protocol sip sport dip dport;
          f0 = (case mget (fe_flows e) key of
                  None \<Rightarrow> fresh_flow key protocol sip sport dip dport now False
                | Some f \<Rightarrow> (if fl_FromAnalysis f then f\<lparr> fl_FromAnalysis := False \<rparr> else f));
          f1 = (if from_honeypot e sip then f0\<lparr> fl_HoneypotInitiated := True \<rparr> else f0);
          f2 = f1\<lparr> fl_Packets := fl_Packets f1 + packets, fl_Bytes := fl_Bytes f1 + octets,
                   fl_PacketsAToB := fl_PacketsAToB f1 + packets, fl_BytesAToB := fl_BytesAToB f1 + octets,
                   fl_LastSeen := now, fl_Synced := False \<rparr>
      in e\<lparr> fe_flows := mput key f2 (fe_flows e) \<rparr>)"

text \<open>One decoded IPFIX record, as the watcher of the bus applies it.\<close>

definition flow_external :: "time \<Rightarrow> flow_record \<Rightarrow> flow_engine \<Rightarrow> flow_engine" where
  "flow_external now r e =
     (if fr_SrcIP r = [] \<or> fr_DstIP r = [] then e
      else ApplyExternalDelta now (fr_Protocol r) (fr_SrcIP r) (fr_SrcPort r) (fr_DstIP r) (fr_DstPort r)
             (fr_Packets r) (fr_Bytes r) e)"

definition upgrade_flow :: "flow \<Rightarrow> flow" where
  "upgrade_flow f =
     (if fl_InitiatorIP f \<noteq> [] then f
      else
        let f1 = f\<lparr> fl_InitiatorIP := fl_SrcIP f, fl_ResponderIP := fl_DstIP f,
                    fl_InitiatorPort := fl_SrcPort f, fl_ResponderPort := fl_DstPort f \<rparr>
        in if fl_PacketsAToB f1 + fl_PacketsBToA f1 = 0
           then f1\<lparr> fl_PacketsAToB := fl_Packets f1, fl_BytesAToB := fl_Bytes f1 \<rparr> else f1)"

definition flow_restore :: "flow list \<Rightarrow> flow_engine \<Rightarrow> flow_engine" where
  "flow_restore fs e = e\<lparr> fe_flows := fold (\<lambda>f m. mput (fl_ID f) (upgrade_flow f) m) fs [] \<rparr>"

definition flow_prune :: "time \<Rightarrow> duration \<Rightarrow> flow_engine \<Rightarrow> nat \<times> flow_engine" where
  "flow_prune now maxAge e =
     (let cutoff = now - maxAge;
          kept = filter (\<lambda>(key, f). fl_FromAnalysis f \<or> \<not> fl_LastSeen f < cutoff) (fe_flows e)
      in (length (fe_flows e) - length kept, e\<lparr> fe_flows := kept \<rparr>))"

definition flow_clear :: "flow_engine \<Rightarrow> flow_engine" where
  "flow_clear e = e\<lparr> fe_flows := [] \<rparr>"

section \<open>Synchronisation\<close>

definition maxDirtyFlowsPerSync :: nat where "maxDirtyFlowsPerSync = 500"

text \<open>The loop of \<open>GetDirtyFlows\<close> over the keys in the order the run-time visits them.\<close>

fun dirty_loop :: "(string, flow) gomap \<Rightarrow> string list \<Rightarrow> flow list \<Rightarrow> flow list" where
  "dirty_loop m [] result = result"
| "dirty_loop m (k # ks) result =
     (case mget m k of
        None \<Rightarrow> dirty_loop m ks result
      | Some f \<Rightarrow>
          if fl_Synced f then dirty_loop m ks result
          else let result' = result @ [f]
               in if length result' \<ge> maxDirtyFlowsPerSync then result' else dirty_loop m ks result')"

definition GetDirtyFlows :: "string list \<Rightarrow> flow_engine \<Rightarrow> flow list" where
  "GetDirtyFlows ks e = dirty_loop (fe_flows e) ks []"

text \<open>The part of a flow that the synchronisation worker sends and hands back.\<close>

definition snapshot_of :: "flow \<Rightarrow> sync_snapshot" where
  "snapshot_of f = \<lparr> ss_ID = fl_ID f, ss_InitiatorIP = fl_InitiatorIP f, ss_ResponderIP = fl_ResponderIP f,
     ss_InitiatorPort = fl_InitiatorPort f, ss_ResponderPort = fl_ResponderPort f,
     ss_PacketsAToB = fl_PacketsAToB f, ss_PacketsBToA = fl_PacketsBToA f,
     ss_BytesAToB = fl_BytesAToB f, ss_BytesBToA = fl_BytesBToA f,
     ss_Packets = fl_Packets f, ss_Bytes = fl_Bytes f, ss_LastSeen = fl_LastSeen f, ss_VLANID = fl_VLANID f \<rparr>"

definition changed_since :: "flow \<Rightarrow> sync_snapshot \<Rightarrow> bool" where
  "changed_since f s \<longleftrightarrow>
     fl_Packets f \<noteq> ss_Packets s \<or> fl_Bytes f \<noteq> ss_Bytes s \<or>
     fl_PacketsAToB f \<noteq> ss_PacketsAToB s \<or> fl_PacketsBToA f \<noteq> ss_PacketsBToA s \<or>
     fl_BytesAToB f \<noteq> ss_BytesAToB s \<or> fl_BytesBToA f \<noteq> ss_BytesBToA s \<or>
     fl_LastSeen f \<noteq> ss_LastSeen s \<or> fl_VLANID f \<noteq> ss_VLANID s \<or>
     fl_InitiatorIP f \<noteq> ss_InitiatorIP s \<or> fl_ResponderIP f \<noteq> ss_ResponderIP s \<or>
     fl_InitiatorPort f \<noteq> ss_InitiatorPort s \<or> fl_ResponderPort f \<noteq> ss_ResponderPort s"

definition mark_one :: "sync_snapshot \<Rightarrow> (string, flow) gomap \<Rightarrow> (string, flow) gomap" where
  "mark_one s m = (case mget m (ss_ID s) of
     None \<Rightarrow> m
   | Some f \<Rightarrow> if changed_since f s then m else mput (ss_ID s) (f\<lparr> fl_Synced := True \<rparr>) m)"

definition MarkFlowsSynced :: "sync_snapshot list \<Rightarrow> flow_engine \<Rightarrow> flow_engine" where
  "MarkFlowsSynced sent e = (if sent = [] then e else e\<lparr> fe_flows := fold mark_one sent (fe_flows e) \<rparr>)"

section \<open>The key of a flow\<close>

definition no_bar :: "string \<times> u16 \<Rightarrow> bool" where "no_bar x \<longleftrightarrow> CHR ''|'' \<notin> set (fst x)"

interpretation flow_ids: conversation_key
  "\<lambda>x y. flowKey proto (fst x) (snd x) (fst y) (snd y)" no_bar for proto
proof
  fix a b :: "string \<times> u16"
  show "flowKey proto (fst a) (snd a) (fst b) (snd b) = flowKey proto (fst b) (snd b) (fst a) (snd a)"
    unfolding flowKey_def using ordered_pair_text_comm by metis
next
  fix a b c d :: "string \<times> u16"
  assume v: "no_bar a" "no_bar b" "no_bar c" "no_bar d"
    and k: "flowKey proto (fst a) (snd a) (fst b) (snd b) = flowKey proto (fst c) (snd c) (fst d) (snd d)"
  have nd: "CHR ''|'' \<notin> set (endpoint_text (fst x) (snd x))" if "no_bar x" for x
    using that endpoint_text_sep(1) by (simp add: no_bar_def)
  from k have "ordered_pair_text CHR ''|'' (endpoint_text (fst a) (snd a)) (endpoint_text (fst b) (snd b)) =
      ordered_pair_text CHR ''|'' (endpoint_text (fst c) (snd c)) (endpoint_text (fst d) (snd d))"
    by (simp add: flowKey_def)
  from ordered_pair_text_inj [OF nd [OF v(1)] nd [OF v(2)] nd [OF v(3)] nd [OF v(4)] this]
  show "(a = c \<and> b = d) \<or> (a = d \<and> b = c)" by (auto simp: prod_eq_iff)
qed

lemma flowKey_protocol:
  assumes "CHR ''|'' \<notin> set p" "CHR ''|'' \<notin> set q"
    and "flowKey p a s b t = flowKey q a' s' b' t'"
  shows "p = q"
proof -
  have t: "takeWhile (\<lambda>x. x \<noteq> CHR ''|'') (r @ ''|'' @ xs) = r" if "CHR ''|'' \<notin> set r" for r xs
    using that by (induction r) auto
  from assms(3) show ?thesis unfolding flowKey_def using t [OF assms(1)] t [OF assms(2)] by metis
qed

text \<open>
  The key of a flow is the same for both directions, and two packets share a flow exactly when
  they have the same protocol and the same unordered pair of endpoints (in texts without the
  separator, which addresses and protocol names are).
\<close>

theorem flowKey_identifies_conversation:
  assumes "CHR ''|'' \<notin> set p" "CHR ''|'' \<notin> set q"
    and "no_bar (a, s)" "no_bar (b, t)" "no_bar (a', s')" "no_bar (b', t')"
  shows "flowKey p a s b t = flowKey q a' s' b' t' \<longleftrightarrow> p = q \<and> {(a, s), (b, t)} = {(a', s'), (b', t')}"
proof
  assume k: "flowKey p a s b t = flowKey q a' s' b' t'"
  then have "p = q" using assms(1,2) flowKey_protocol by blast
  with k flow_ids.key_eq_iff [OF assms(3-6), of q] show "p = q \<and> {(a, s), (b, t)} = {(a', s'), (b', t')}" by simp
next
  assume "p = q \<and> {(a, s), (b, t)} = {(a', s'), (b', t')}"
  with flow_ids.key_eq_iff [OF assms(3-6), of q] show "flowKey p a s b t = flowKey q a' s' b' t'" by simp
qed

theorem flowKey_identifies_conversation_witness:
  "flowKey ''TCP'' ''10.0.0.1'' 1024 ''10.0.0.9'' 502 = flowKey ''TCP'' ''10.0.0.9'' 502 ''10.0.0.1'' 1024 \<and>
   flowKey ''TCP'' ''10.0.0.1'' 1024 ''10.0.0.9'' 502 \<noteq> flowKey ''UDP'' ''10.0.0.1'' 1024 ''10.0.0.9'' 502"
  using flowKey_identifies_conversation [of "''TCP''" "''TCP''" "''10.0.0.1''" 1024 "''10.0.0.9''" 502 "''10.0.0.9''" 502 "''10.0.0.1''" 1024]
    flowKey_identifies_conversation [of "''TCP''" "''UDP''" "''10.0.0.1''" 1024 "''10.0.0.9''" 502 "''10.0.0.1''" 1024 "''10.0.0.9''" 502]
  by (simp add: no_bar_def insert_commute)

section \<open>Totals and directional counters\<close>

datatype flow_op =
    FlowPacket packet
  | FlowExternal time flow_record
  | FlowPrune time duration
  | FlowClear
  | FlowSynced "sync_snapshot list"

fun flow_step :: "flow_op \<Rightarrow> flow_engine \<Rightarrow> flow_engine" where
  "flow_step (FlowPacket p) e = flow_handle p e"
| "flow_step (FlowExternal now r) e = flow_external now r e"
| "flow_step (FlowPrune now age) e = snd (flow_prune now age e)"
| "flow_step FlowClear e = flow_clear e"
| "flow_step (FlowSynced sent) e = MarkFlowsSynced sent e"

definition balanced :: "flow \<Rightarrow> bool" where
  "balanced f \<longleftrightarrow> fl_Packets f = fl_PacketsAToB f + fl_PacketsBToA f \<and> fl_Bytes f = fl_BytesAToB f + fl_BytesBToA f"

definition flows_ok :: "(string, flow) gomap \<Rightarrow> bool" where
  "flows_ok m \<longleftrightarrow> wf_map m \<and> (\<forall>(k, f) \<in> set m. fl_ID f = k \<and> balanced f)"

definition flow_inv :: "flow_engine \<Rightarrow> bool" where
  "flow_inv e \<longleftrightarrow> flows_ok (fe_flows e)"

lemma flows_ok_mput: "flows_ok m \<Longrightarrow> fl_ID f = k \<Longrightarrow> balanced f \<Longrightarrow> flows_ok (mput k f m)"
  using mput_forall [of m "\<lambda>k f. fl_ID f = k \<and> balanced f" k f] by (simp add: flows_ok_def)

lemma flows_ok_get: "flows_ok m \<Longrightarrow> mget m k = Some f \<Longrightarrow> fl_ID f = k \<and> balanced f"
  by (auto simp: flows_ok_def dest: mget_SomeD)

lemma flow_inv_mput:
  "flow_inv e \<Longrightarrow> fl_ID f = k \<Longrightarrow> balanced f \<Longrightarrow> flow_inv (e\<lparr> fe_flows := mput k f (fe_flows e) \<rparr>)"
  by (simp add: flow_inv_def flows_ok_mput)

lemma flow_inv_get: "flow_inv e \<Longrightarrow> mget (fe_flows e) k = Some f \<Longrightarrow> fl_ID f = k \<and> balanced f"
  unfolding flow_inv_def by (rule flows_ok_get)

lemma balanced_fresh [simp]: "balanced (fresh_flow k pr a s b t now an)" "fl_ID (fresh_flow k pr a s b t now an) = k"
  by (simp_all add: balanced_def fresh_flow_def)

lemma balanced_count_packet: "balanced f \<Longrightarrow> balanced (count_packet p f) \<and> fl_ID (count_packet p f) = fl_ID f"
  by (auto simp: balanced_def count_packet_def Let_def)

lemma flow_inv_update: "flow_inv e \<Longrightarrow> flow_inv (flow_update p e)"
  unfolding flow_update_def Let_def
  by (rule flow_inv_mput)
    (auto simp: balanced_def count_packet_def Let_def fresh_flow_def dest: flow_inv_get split: option.splits)

lemma flow_inv_external: "flow_inv e \<Longrightarrow> flow_inv (flow_external now r e)"
  unfolding flow_external_def ApplyExternalDelta_def Let_def
  by (cases "fr_SrcIP r = [] \<or> fr_DstIP r = []", simp, simp only: if_False, rule flow_inv_mput)
    (auto simp: balanced_def fresh_flow_def dest: flow_inv_get split: option.splits)

lemma mark_one_ok: "flows_ok m \<Longrightarrow> flows_ok (mark_one s m)"
  by (auto simp: mark_one_def balanced_def dest: flows_ok_get intro!: flows_ok_mput split: option.splits)

lemma flow_inv_marks: "flow_inv e \<Longrightarrow> flow_inv (MarkFlowsSynced sent e)"
proof -
  have "flows_ok m \<Longrightarrow> flows_ok (fold mark_one sent m)" for m
    by (induction sent arbitrary: m) (simp_all add: mark_one_ok)
  then show "flow_inv e \<Longrightarrow> flow_inv (MarkFlowsSynced sent e)"
    by (simp add: flow_inv_def MarkFlowsSynced_def)
qed

lemma flow_inv_prune: "flow_inv e \<Longrightarrow> flow_inv (snd (flow_prune now age e))"
  by (auto simp: flow_inv_def flows_ok_def flow_prune_def Let_def wf_map_def distinct_map_filter)

interpretation flow_machine: invariant_machine flow_step flow_inv "flow_new scores threshold" for scores threshold
proof
  show "flow_inv (flow_new scores threshold)" by (simp add: flow_inv_def flows_ok_def flow_new_def)
  show "flow_inv (flow_step opn e)" if "flow_inv e" for opn e
    using that flow_inv_update flow_inv_external flow_inv_prune flow_inv_marks
    by (cases opn) (simp_all add: flow_handle_def flow_clear_def flow_inv_def [of "e\<lparr>fe_flows := []\<rparr>"] flows_ok_def)
qed

text \<open>
  A persisted flow is either one that this version wrote, or an older one without roles and
  directional counters.
\<close>

definition restorable :: "flow \<Rightarrow> bool" where
  "restorable f \<longleftrightarrow> balanced f \<and> fl_InitiatorIP f \<noteq> [] \<or>
     fl_InitiatorIP f = [] \<and> fl_PacketsAToB f = 0 \<and> fl_PacketsBToA f = 0 \<and> fl_BytesAToB f = 0 \<and> fl_BytesBToA f = 0"

lemma upgrade_balanced: "restorable f \<Longrightarrow> balanced (upgrade_flow f) \<and> fl_ID (upgrade_flow f) = fl_ID f"
  by (auto simp: restorable_def upgrade_flow_def balanced_def Let_def)

lemma flow_inv_restore: "\<forall>f \<in> set fs. restorable f \<Longrightarrow> flow_inv (flow_restore fs e)"
proof -
  have "\<forall>f \<in> set fs. restorable f \<Longrightarrow> flows_ok m \<Longrightarrow>
      flows_ok (fold (\<lambda>f m. mput (fl_ID f) (upgrade_flow f) m) fs m)" for m
    by (induction fs arbitrary: m) (simp_all add: flows_ok_mput upgrade_balanced)
  from this [of "[]"] show "\<forall>f \<in> set fs. restorable f \<Longrightarrow> flow_inv (flow_restore fs e)"
    unfolding flow_restore_def flow_inv_def by (simp add: flows_ok_def [of "[]"])
qed

text \<open>
  Every operation gives a flow an initiator, so a flow that this version stored is not taken for
  one of an older version when it is read back.
\<close>

definition roles_known :: "flow_engine \<Rightarrow> bool" where
  "roles_known e \<longleftrightarrow> (\<forall>(k, f) \<in> set (fe_flows e). fl_InitiatorIP f \<noteq> [])"

lemma roles_known_get: "roles_known e \<Longrightarrow> mget (fe_flows e) k = Some f \<Longrightarrow> fl_InitiatorIP f \<noteq> []"
  by (auto simp: roles_known_def dest: mget_SomeD)

lemma roles_known_mput: "roles_known e \<Longrightarrow> fl_InitiatorIP f \<noteq> [] \<Longrightarrow> roles_known (e\<lparr> fe_flows := mput k f (fe_flows e) \<rparr>)"
  using mput_forall [of "fe_flows e" "\<lambda>k f. fl_InitiatorIP f \<noteq> []" k f] by (simp add: roles_known_def)

lemma roles_known_marks: "roles_known e \<Longrightarrow> roles_known (MarkFlowsSynced sent e)"
proof -
  have "roles_known e \<Longrightarrow> roles_known (e\<lparr> fe_flows := fold mark_one sent (fe_flows e) \<rparr>)" for e
  proof (induction sent arbitrary: e)
    case (Cons s sent)
    have "roles_known (e\<lparr> fe_flows := mark_one s (fe_flows e) \<rparr>)"
      using Cons.prems roles_known_get [OF Cons.prems] roles_known_mput [OF Cons.prems]
      by (auto simp: mark_one_def split: option.split)
    from Cons.IH [OF this] show ?case by simp
  qed simp
  then show "roles_known e \<Longrightarrow> roles_known (MarkFlowsSynced sent e)" by (simp add: MarkFlowsSynced_def)
qed

lemma roles_known_step: "roles_known e \<Longrightarrow> roles_known (flow_step x e)"
proof (cases x)
  case (FlowPacket p)
  assume ok: "roles_known e"
  show ?thesis
  proof (cases "pk_SrcIP p = [] \<or> pk_DstIP p = []")
    case False
    have "roles_known (flow_update p e)"
      unfolding flow_update_def Let_def
      by (rule roles_known_mput [OF ok])
        (use False roles_known_get [OF ok] in \<open>auto simp: count_packet_def Let_def fresh_flow_def split: option.splits\<close>)
    with FlowPacket False show ?thesis by (simp add: flow_handle_def)
  qed (use FlowPacket ok in \<open>simp add: flow_handle_def\<close>)
next
  case (FlowExternal now r)
  assume ok: "roles_known e"
  show ?thesis
  proof (cases "fr_SrcIP r = [] \<or> fr_DstIP r = []")
    case False
    have "roles_known (flow_external now r e)"
      unfolding flow_external_def ApplyExternalDelta_def Let_def if_not_P [OF False]
      by (rule roles_known_mput [OF ok])
        (use False roles_known_get [OF ok] in \<open>auto simp: fresh_flow_def split: option.splits\<close>)
    with FlowExternal show ?thesis by simp
  qed (use FlowExternal ok in \<open>simp add: flow_external_def\<close>)
qed (auto simp: flow_prune_def flow_clear_def roles_known_def Let_def roles_known_marks [unfolded roles_known_def])

text \<open>
  The life of the engine: its operations, and restarts in which the flows that it has, visited in some
  order, are stored and read back.
\<close>

datatype flow_life = Running flow_op | Restart "string list"

fun flow_live :: "flow_life \<Rightarrow> flow_engine \<Rightarrow> flow_engine" where
  "flow_live (Running x) e = flow_step x e"
| "flow_live (Restart ks) e = flow_restore (List.map_filter (mget (fe_flows e)) ks) e"

text \<open>A flow of a version that had neither roles nor directional counters; both are empty when it is read.\<close>

definition older_flow :: "flow \<Rightarrow> bool" where
  "older_flow f \<longleftrightarrow> fl_SrcIP f \<noteq> [] \<and> fl_InitiatorIP f = [] \<and>
     fl_PacketsAToB f = 0 \<and> fl_PacketsBToA f = 0 \<and> fl_BytesAToB f = 0 \<and> fl_BytesBToA f = 0"

lemma roles_known_restore:
  assumes "\<forall>f \<in> set fs. fl_SrcIP f \<noteq> [] \<or> fl_InitiatorIP f \<noteq> []"
  shows "roles_known (flow_restore fs e)"
proof -
  have "roles_known e \<Longrightarrow> roles_known (e\<lparr> fe_flows := fold (\<lambda>f m. mput (fl_ID f) (upgrade_flow f) m) fs (fe_flows e) \<rparr>)" for e
    using assms
  proof (induction fs arbitrary: e)
    case (Cons f fs)
    have "fl_InitiatorIP (upgrade_flow f) \<noteq> []" using Cons.prems(2) by (auto simp: upgrade_flow_def Let_def)
    from Cons.IH [OF roles_known_mput [OF Cons.prems(1) this, of "fl_ID f"]] Cons.prems(2) show ?case by simp
  qed simp
  from this [of "e\<lparr> fe_flows := [] \<rparr>"] show ?thesis by (simp add: flow_restore_def roles_known_def)
qed

definition flow_life_inv :: "flow_engine \<Rightarrow> bool" where
  "flow_life_inv e \<longleftrightarrow> flow_inv e \<and> roles_known e"

interpretation flow_life: invariant_machine flow_live flow_life_inv "flow_new scores threshold" for scores threshold
proof
  show "flow_life_inv (flow_new scores threshold)"
    using flow_machine.reachable_inv [of "[]"] by (simp add: flow_life_inv_def roles_known_def flow_new_def)
  fix x e
  assume ok: "flow_life_inv e"
  show "flow_life_inv (flow_live x e)"
  proof (cases x)
    case (Running y)
    with ok flow_machine.step_inv [of e y] roles_known_step [of e y] show ?thesis by (simp add: flow_life_inv_def)
  next
    case (Restart ks)
    have own: "fl_InitiatorIP f \<noteq> [] \<and> restorable f" if "f \<in> set (List.map_filter (mget (fe_flows e)) ks)" for f
    proof -
      from that obtain k where "mget (fe_flows e) k = Some f" by (auto simp: List.map_filter_def)
      with ok roles_known_get flow_inv_get show ?thesis by (auto simp: flow_life_inv_def restorable_def)
    qed
    then show ?thesis using flow_inv_restore roles_known_restore by (simp add: Restart flow_life_inv_def)
  qed
qed

text \<open>
  C22: The totals of every flow are the sums of its two directional counters (modulo 2^64), and
  every flow is stored under its own identifier: in every life of the engine, through any sequence of
  packets, IPFIX records, prunings, wipes, acknowledgements and restarts that read back the stored
  flows.  The life may start with flows of an older version, which had neither roles nor
  directional counters.
\<close>

theorem flow_totals_are_sums:
  assumes "\<forall>f \<in> set fs. older_flow f"
    and "mget (fe_flows (fold flow_live ops (flow_restore fs e))) k = Some f"
  shows "fl_ID f = k \<and> fl_Packets f = fl_PacketsAToB f + fl_PacketsBToA f \<and>
    fl_Bytes f = fl_BytesAToB f + fl_BytesBToA f"
proof -
  have "flow_life_inv (flow_restore fs e)"
    using assms(1) by (auto simp: flow_life_inv_def older_flow_def restorable_def intro!: flow_inv_restore roles_known_restore)
  from flow_life.run_inv [OF this, of ops] assms(2) flow_inv_get [of "fold flow_live ops (flow_restore fs e)"] show ?thesis
    by (simp add: flow_life_inv_def balanced_def)
qed

definition request :: packet where
  "request = zero_packet\<lparr> pk_SrcIP := ''10.0.0.1'', pk_SrcPort := 1024, pk_DstIP := ''10.0.0.9'', pk_DstPort := 502,
     pk_L4Protocol := ''TCP'', pk_TCPFlags := ''ACK'', pk_Length := 66, pk_Timestamp := 10 \<rparr>"

definition response :: packet where
  "response = zero_packet\<lparr> pk_SrcIP := ''10.0.0.9'', pk_SrcPort := 502, pk_DstIP := ''10.0.0.1'', pk_DstPort := 1024,
     pk_L4Protocol := ''TCP'', pk_TCPFlags := ''ACK'', pk_Length := 60, pk_Timestamp := 11 \<rparr>"

lemma sample_packets:
  "pk_SrcIP request = ''10.0.0.1''" "pk_DstIP request = ''10.0.0.9''" "pk_SrcPort request = 1024"
  "pk_DstPort request = 502" "pk_L4Protocol request = ''TCP''" "pk_TCPFlags request = ''ACK''"
  "pk_Length request = 66" "pk_Timestamp request = 10" "pk_VLANID request = 0" "\<not> pk_FromAnalysis request"
  "pk_SrcIP response = ''10.0.0.9''" "pk_DstIP response = ''10.0.0.1''" "pk_SrcPort response = 502"
  "pk_DstPort response = 1024" "pk_L4Protocol response = ''TCP''" "pk_TCPFlags response = ''ACK''"
  "pk_Length response = 60" "pk_Timestamp response = 11" "pk_VLANID response = 0" "\<not> pk_FromAnalysis response"
  by (simp_all add: request_def response_def zero_packet_def)

lemma sample_flow:
  "\<exists>f. mget (fe_flows (fold flow_step [FlowPacket request, FlowPacket response] (flow_restore [] (flow_new [] 0))))
     (packet_key request) = Some f \<and> fl_Packets f = 2 \<and> fl_PacketsAToB f = 1 \<and> fl_PacketsBToA f = 1 \<and>
     fl_Bytes f = 126 \<and> fl_BytesAToB f = 66"
proof -
  have "\<not> opens_connection request" "\<not> opens_connection response" by code_simp+
  moreover have "packet_key response = packet_key request"
    using flow_ids.key_eq_iff [of "(''10.0.0.9'', 502)" "(''10.0.0.1'', 1024)" "(''10.0.0.1'', 1024)" "(''10.0.0.9'', 502)" "''TCP''"]
    by (simp add: packet_key_def sample_packets no_bar_def insert_commute)
  ultimately show ?thesis
    by (simp add: flow_handle_def flow_update_def Let_def flow_restore_def flow_new_def from_honeypot_def
        sample_packets count_packet_def fresh_flow_def)
qed

theorem flow_totals_are_sums_witness:
  "\<exists>f. mget (fe_flows (fold flow_live [Running (FlowPacket request), Running (FlowPacket response)] (flow_restore [] (flow_new [] 0))))
     (packet_key request) = Some f \<and> fl_Packets f = 2 \<and> fl_Bytes f = 126 \<and> fl_BytesBToA f = 60"
proof -
  from sample_flow obtain f where f: "mget (fe_flows (fold flow_live [Running (FlowPacket request), Running (FlowPacket response)]
      (flow_restore [] (flow_new [] 0)))) (packet_key request) = Some f"
    "fl_Packets f = 2" "fl_Bytes f = 126" "fl_BytesAToB f = 66" by auto
  from flow_totals_are_sums [OF _ f(1)] f(3,4) have "fl_BytesBToA f = 126 - 66" by (simp add: algebra_simps)
  with f show ?thesis by simp
qed

section \<open>Acknowledging what was sent\<close>

definition hits :: "string \<Rightarrow> packet \<Rightarrow> bool" where
  "hits k p \<longleftrightarrow> pk_SrcIP p \<noteq> [] \<and> pk_DstIP p \<noteq> [] \<and> packet_key p = k"

definition packets_at :: "string \<Rightarrow> flow_engine \<Rightarrow> u64" where
  "packets_at k e = (case mget (fe_flows e) k of None \<Rightarrow> 0 | Some f \<Rightarrow> fl_Packets f)"

lemma handle_misses: "\<not> hits k p \<Longrightarrow> mget (fe_flows (flow_handle p e)) k = mget (fe_flows e) k"
  by (auto simp: hits_def flow_handle_def flow_update_def Let_def)

lemma handle_hits:
  "hits k p \<Longrightarrow> \<exists>f. mget (fe_flows (flow_handle p e)) k = Some f \<and> \<not> fl_Synced f \<and>
     fl_Packets f = packets_at k e + 1"
  by (auto simp: hits_def flow_handle_def flow_update_def Let_def count_packet_def packets_at_def fresh_flow_def
      split: option.splits)

lemma packets_at_handle: "packets_at k (flow_handle p e) = packets_at k e + (if hits k p then 1 else 0)"
  using handle_hits [of k p e] handle_misses [of k p e] by (auto simp: packets_at_def)

lemma packets_at_fold:
  "packets_at k (fold flow_handle ps e) = packets_at k e + of_nat (length (filter (hits k) ps))"
  by (induction ps arbitrary: e) (simp_all add: packets_at_handle)

lemma handled_flow_dirty:
  "\<exists>p \<in> set ps. hits k p \<Longrightarrow> \<exists>f. mget (fe_flows (fold flow_handle ps e)) k = Some f \<and> \<not> fl_Synced f"
proof (induction ps rule: rev_induct)
  case (snoc p ps)
  then show ?case
    using handle_hits [of k p "fold flow_handle ps e"] handle_misses [of k p "fold flow_handle ps e"]
    by (cases "hits k p") auto
qed simp

lemma mark_one_keeps:
  assumes "mget m k = Some f" and "ss_ID s = k \<longrightarrow> changed_since f s"
  shows "mget (mark_one s m) k = Some f"
  using assms by (auto simp: mark_one_def split: option.splits)

lemma fold_marks_keep:
  "mget m k = Some f \<Longrightarrow> \<forall>s \<in> set sent. ss_ID s = k \<longrightarrow> changed_since f s \<Longrightarrow>
   mget (fold mark_one sent m) k = Some f"
  by (induction sent arbitrary: m) (simp_all add: mark_one_keeps)

text \<open>
  C5: no update is lost to an acknowledgement in flight.  If packets of a flow arrive between the
  moment its snapshot was taken and the moment the central server acknowledges the snapshot
  (fewer than 2^64 of them, of any number of other flows as well), the flow stays marked for
  the next synchronisation.
\<close>

theorem newer_version_stays_dirty:
  assumes "flow_inv e" and "set sent \<subseteq> set (mvals (fe_flows e))"
    and "length ps < 2 ^ 64" and "p \<in> set ps" and "hits k p"
  shows "\<exists>f. mget (fe_flows (MarkFlowsSynced (map snapshot_of sent) (fold flow_handle ps e))) k = Some f \<and>
    \<not> fl_Synced f"
proof -
  let ?n = "length (filter (hits k) ps)"
  obtain f where f: "mget (fe_flows (fold flow_handle ps e)) k = Some f" "\<not> fl_Synced f"
    using handled_flow_dirty [of ps k e] assms(4,5) by blast
  have n: "0 < ?n" "?n < 2 ^ 64"
    using assms(3-5) le_less_trans [OF length_filter_le [of "hits k" ps]] by (auto simp: filter_empty_conv)
  have new: "fl_Packets f = packets_at k e + of_nat ?n"
    using packets_at_fold [of k ps e] f(1) by (simp add: packets_at_def)
  have "changed_since f (snapshot_of g)" if "g \<in> set sent" "fl_ID g = k" for g
  proof -
    from that(1) assms(2) obtain k' where "(k', g) \<in> set (fe_flows e)" by (auto simp: mvals_def)
    with assms(1) that(2) have "mget (fe_flows e) k = Some g"
      by (auto simp: flow_inv_def flows_ok_def mget_Some_iff)
    then have "fl_Packets f = fl_Packets g + of_nat ?n" by (simp add: new packets_at_def)
    moreover have "unat (of_nat ?n :: u64) = ?n" using n(2) by (intro unat_of_nat_small) simp
    with n(1) have "of_nat ?n \<noteq> (0 :: u64)" by (metis less_irrefl unat_0)
    ultimately show ?thesis by (simp add: changed_since_def snapshot_of_def)
  qed
  then have "mget (fold mark_one (map snapshot_of sent) (fe_flows (fold flow_handle ps e))) k = Some f"
    by (intro fold_marks_keep [OF f(1)]) (auto simp: snapshot_of_def)
  with f show ?thesis by (simp add: MarkFlowsSynced_def)
qed

theorem newer_version_stays_dirty_witness:
  "\<exists>f. mget (fe_flows (MarkFlowsSynced (map snapshot_of (mvals (fe_flows (flow_handle request (flow_new [] 0)))))
      (fold flow_handle [request] (flow_handle request (flow_new [] 0))))) (packet_key request) = Some f \<and>
    \<not> fl_Synced f"
proof (rule newer_version_stays_dirty [of _ _ _ request])
  show "flow_inv (flow_handle request (flow_new [] 0))"
    using flow_machine.reachable_inv [of "[FlowPacket request]" "[]" 0] by simp
qed (simp_all add: hits_def sample_packets)

text \<open>The number of flows waiting for synchronisation.\<close>

definition dirty_count :: "(string, flow) gomap \<Rightarrow> int" where
  "dirty_count m = msum (\<lambda>f. if fl_Synced f then 0 else 1) m"

lemma mark_own_snapshot:
  assumes "flows_ok m" and "mget m (fl_ID f) = Some f" and "\<not> fl_Synced f"
  shows "dirty_count (mark_one (snapshot_of f) m) = dirty_count m - 1"
    and "fl_ID g \<noteq> fl_ID f \<Longrightarrow> mget (mark_one (snapshot_of f) m) (fl_ID g) = mget m (fl_ID g)"
proof -
  have "mark_one (snapshot_of f) m = mput (fl_ID f) (f\<lparr> fl_Synced := True \<rparr>) m"
    using assms(2) by (simp add: mark_one_def changed_since_def snapshot_of_def)
  with assms show "dirty_count (mark_one (snapshot_of f) m) = dirty_count m - 1"
    and "fl_ID g \<noteq> fl_ID f \<Longrightarrow> mget (mark_one (snapshot_of f) m) (fl_ID g) = mget m (fl_ID g)"
    by (simp_all add: dirty_count_def msum_mput flows_ok_def)
qed

lemma mark_all_own:
  assumes "flows_ok m" and "\<forall>f \<in> set fs. mget m (fl_ID f) = Some f \<and> \<not> fl_Synced f" and "distinct (map fl_ID fs)"
  shows "dirty_count (fold mark_one (map snapshot_of fs) m) = dirty_count m - int (length fs)"
  using assms
proof (induction fs arbitrary: m)
  case (Cons f fs)
  have f: "mget m (fl_ID f) = Some f" "\<not> fl_Synced f" using Cons.prems by auto
  have "mget (mark_one (snapshot_of f) m) (fl_ID g) = Some g \<and> \<not> fl_Synced g" if "g \<in> set fs" for g
  proof -
    have "fl_ID g \<noteq> fl_ID f" using Cons.prems(3) that by (auto simp: image_iff)
    with that Cons.prems mark_own_snapshot(2) [OF Cons.prems(1) f, of g] show ?thesis by simp
  qed
  with Cons mark_own_snapshot(1) [OF Cons.prems(1) f] show ?case by (simp add: mark_one_ok)
qed simp

lemma dirty_loop_result:
  "length acc < maxDirtyFlowsPerSync \<Longrightarrow> dirty_loop m ks acc =
   take maxDirtyFlowsPerSync (acc @ filter (\<lambda>f. \<not> fl_Synced f) (List.map_filter (mget m) ks))"
proof (induction m ks acc rule: dirty_loop.induct)
  case (2 m k ks acc)
  show ?case
  proof (cases "mget m k")
    case None
    with 2 show ?thesis by (simp add: List.map_filter_simps)
  next
    case (Some f)
    with 2 show ?thesis
      by (cases "fl_Synced f"; cases "Suc (length acc) \<ge> maxDirtyFlowsPerSync")
        (simp_all add: List.map_filter_simps Let_def take_Cons')
  qed
qed (simp add: List.map_filter_simps)

lemma GetDirtyFlows_take:
  "GetDirtyFlows ks e =
   take maxDirtyFlowsPerSync (filter (\<lambda>f. \<not> fl_Synced f) (List.map_filter (mget (fe_flows e)) ks))"
  by (simp add: GetDirtyFlows_def dirty_loop_result maxDirtyFlowsPerSync_def)

lemma map_filter_ids:
  assumes "flows_ok m" and "set ks \<subseteq> set (mkeys m)"
  shows "map fl_ID (List.map_filter (mget m) ks) = ks"
  using assms(2)
proof (induction ks)
  case (Cons k ks)
  then obtain f where "mget m k = Some f" using mget_None_iff [of m k] by auto
  with Cons flows_ok_get [OF assms(1)] show ?case by (simp add: List.map_filter_simps)
qed (simp add: List.map_filter_simps)

lemma map_filter_get: "flows_ok m \<Longrightarrow> f \<in> set (List.map_filter (mget m) ks) \<Longrightarrow> mget m (fl_ID f) = Some f"
  by (auto simp: List.map_filter_def dest: flows_ok_get)

lemma dirty_count_filter:
  assumes "flows_ok m" and "range_order ks m"
  shows "dirty_count m = int (length (filter (\<lambda>f. \<not> fl_Synced f) (List.map_filter (mget m) ks)))"
proof -
  let ?vs = "List.map_filter (mget m) ks"
  have ids: "map fl_ID ?vs = ks" using assms by (intro map_filter_ids) (auto simp: range_order_def)
  have "mset (mkeys m) = mset ks"
    using assms by (metis flows_ok_def mkeys_def range_order_def set_eq_iff_mset_eq_distinct wf_map_def)
  moreover have "mset (map snd m) = image_mset (the \<circ> mget m) (mset (mkeys m))"
  proof -
    have "map snd m = map (the \<circ> mget m) (mkeys m)"
      using assms(1) by (auto simp: mkeys_def mget_def flows_ok_def wf_map_def)
    then show ?thesis by simp
  qed
  moreover have "?vs = map (the \<circ> mget m) ks"
  proof -
    have "\<forall>f \<in> set ?vs. (the \<circ> mget m) (fl_ID f) = f" using map_filter_get [OF assms(1)] by auto
    then have "map (the \<circ> mget m) (map fl_ID ?vs) = ?vs" by (simp add: map_idI)
    with ids show ?thesis by simp
  qed
  ultimately have "mset (map snd m) = mset ?vs" by simp
  then have s: "sum_list (map g (map snd m)) = sum_list (map g ?vs)" for g :: "flow \<Rightarrow> int"
    by (metis mset_map sum_mset_sum_list)
  have "sum_list (map (\<lambda>f. if fl_Synced f then 0 else 1) vs) = int (length (filter (\<lambda>f. \<not> fl_Synced f) vs))" for vs
    by (induction vs) auto
  with s show ?thesis by (simp add: dirty_count_def msum_def)
qed

text \<open>
  C6: a synchronisation that is not disturbed makes progress: whatever order the run-time visits
  the flows in, acknowledging what \<open>GetDirtyFlows\<close> returned leaves exactly 500 fewer flows to
  send, or none.
\<close>

theorem sync_makes_progress:
  assumes "flow_inv e" and "range_order ks (fe_flows e)"
  shows "dirty_count (fe_flows (MarkFlowsSynced (map snapshot_of (GetDirtyFlows ks e)) e)) =
    max 0 (dirty_count (fe_flows e) - 500)"
proof -
  let ?vs = "List.map_filter (mget (fe_flows e)) ks"
  let ?d = "filter (\<lambda>f. \<not> fl_Synced f) ?vs"
  have ok: "flows_ok (fe_flows e)" using assms(1) by (simp add: flow_inv_def)
  have "distinct (map fl_ID ?vs)"
    using map_filter_ids [OF ok, of ks] assms(2) by (simp add: range_order_def)
  then have "distinct (map fl_ID (GetDirtyFlows ks e))"
    by (simp add: GetDirtyFlows_take distinct_map_filter flip: take_map)
  moreover have "\<forall>f \<in> set (GetDirtyFlows ks e). mget (fe_flows e) (fl_ID f) = Some f \<and> \<not> fl_Synced f"
    using map_filter_get [OF ok] by (auto simp: GetDirtyFlows_take dest!: in_set_takeD)
  ultimately have "dirty_count (fold mark_one (map snapshot_of (GetDirtyFlows ks e)) (fe_flows e)) =
      dirty_count (fe_flows e) - int (length (GetDirtyFlows ks e))"
    using mark_all_own [OF ok, of "GetDirtyFlows ks e"] by simp
  moreover have "int (length (GetDirtyFlows ks e)) = min 500 (dirty_count (fe_flows e))"
    using dirty_count_filter [OF ok assms(2)] by (simp add: GetDirtyFlows_take maxDirtyFlowsPerSync_def)
  ultimately show ?thesis by (auto simp: MarkFlowsSynced_def)
qed

theorem sync_makes_progress_witness:
  "dirty_count (fe_flows (MarkFlowsSynced (map snapshot_of
      (GetDirtyFlows [packet_key request] (flow_handle request (flow_new [] 0)))) (flow_handle request (flow_new [] 0)))) = 0"
proof -
  let ?e = "flow_handle request (flow_new [] 0)"
  have inv: "flow_inv ?e" using flow_machine.reachable_inv [of "[FlowPacket request]" "[]" 0] by simp
  have e: "\<exists>f. fe_flows ?e = [(packet_key request, f)] \<and> \<not> fl_Synced f"
    by (simp add: flow_handle_def flow_update_def flow_new_def sample_packets mput_def count_packet_def Let_def)
  then have "range_order [packet_key request] (fe_flows ?e)" "dirty_count (fe_flows ?e) = 1"
    by (auto simp: range_order_def mkeys_def dirty_count_def msum_def)
  with sync_makes_progress [OF inv, of "[packet_key request]"] show ?thesis by simp
qed

section \<open>Directions\<close>

text \<open>
  A handshake packet that corrects the roles of a flow does not exchange the two directional
  counters: what the former initiator sent stays in the counter of the new initiator.
\<close>

theorem late_handshake_mixes_directions:
  assumes "mget (fe_flows e) (packet_key p) = Some f" and "opens_connection p"
    and "pk_SrcIP p \<noteq> []" and "pk_DstIP p \<noteq> []"
  shows "\<exists>f'. mget (fe_flows (flow_handle p e)) (packet_key p) = Some f' \<and>
    fl_InitiatorIP f' = pk_SrcIP p \<and> fl_InitiatorPort f' = pk_SrcPort p \<and>
    fl_PacketsAToB f' = fl_PacketsAToB f + 1 \<and> fl_PacketsBToA f' = fl_PacketsBToA f"
  using assms by (simp add: flow_handle_def flow_update_def count_packet_def Let_def)

definition late_syn :: packet where
  "late_syn = zero_packet\<lparr> pk_SrcIP := ''10.0.0.1'', pk_SrcPort := 1024, pk_DstIP := ''10.0.0.9'', pk_DstPort := 502,
     pk_L4Protocol := ''TCP'', pk_TCPFlags := ''SYN'', pk_Length := 60, pk_Timestamp := 12 \<rparr>"

theorem late_handshake_mixes_directions_witness:
  "\<exists>f. mget (fe_flows (flow_handle late_syn (flow_handle response (flow_new [] 0)))) (packet_key late_syn) = Some f \<and>
     fl_InitiatorIP f = ''10.0.0.1'' \<and> fl_PacketsAToB f = 2 \<and> fl_PacketsBToA f = 0"
proof -
  have k: "packet_key response = packet_key late_syn"
    using flow_ids.key_eq_iff [of "(''10.0.0.9'', 502)" "(''10.0.0.1'', 1024)" "(''10.0.0.1'', 1024)" "(''10.0.0.9'', 502)" "''TCP''"]
    by (simp add: packet_key_def sample_packets late_syn_def zero_packet_def no_bar_def insert_commute)
  have s: "opens_connection late_syn" "\<not> opens_connection response" by code_simp+
  have "\<exists>f. mget (fe_flows (flow_handle response (flow_new [] 0))) (packet_key late_syn) = Some f \<and>
      fl_PacketsAToB f = 1 \<and> fl_PacketsBToA f = 0"
    by (simp add: flow_handle_def flow_update_def flow_new_def sample_packets count_packet_def fresh_flow_def
        from_honeypot_def Let_def s(2) k)
  then obtain f where f: "mget (fe_flows (flow_handle response (flow_new [] 0))) (packet_key late_syn) = Some f"
    "fl_PacketsAToB f = 1" "fl_PacketsBToA f = 0" by blast
  have "pk_SrcIP late_syn = ''10.0.0.1''" "pk_DstIP late_syn = ''10.0.0.9''" by (simp_all add: late_syn_def)
  with late_handshake_mixes_directions [OF f(1) s(1)] f(2,3) show ?thesis by auto
qed

text \<open>
  An IPFIX record is counted as sent by the initiator of its flow whichever endpoint it names
  as the source; the counters of the other direction never move.
\<close>

theorem external_record_counts_as_initiator:
  assumes "mget (fe_flows e) (flowKey (fr_Protocol r) (fr_SrcIP r) (fr_SrcPort r) (fr_DstIP r) (fr_DstPort r)) = Some f"
    and "fr_SrcIP r \<noteq> []" and "fr_DstIP r \<noteq> []"
  shows "\<exists>f'. mget (fe_flows (flow_external now r e))
      (flowKey (fr_Protocol r) (fr_SrcIP r) (fr_SrcPort r) (fr_DstIP r) (fr_DstPort r)) = Some f' \<and>
    fl_InitiatorIP f' = fl_InitiatorIP f \<and> fl_InitiatorPort f' = fl_InitiatorPort f \<and>
    fl_PacketsAToB f' = fl_PacketsAToB f + fr_Packets r \<and> fl_BytesAToB f' = fl_BytesAToB f + fr_Bytes r \<and>
    fl_PacketsBToA f' = fl_PacketsBToA f \<and> fl_BytesBToA f' = fl_BytesBToA f"
  using assms by (simp add: flow_external_def ApplyExternalDelta_def Let_def)

theorem external_record_counts_as_initiator_witness:
  "\<exists>f. mget (fe_flows (flow_external 20
       \<lparr> fr_SrcIP = ''10.0.0.9'', fr_DstIP = ''10.0.0.1'', fr_SrcPort = 502, fr_DstPort = 1024, fr_Protocol = ''TCP'',
         fr_Packets = 7, fr_Bytes = 700 \<rparr> (flow_handle request (flow_new [] 0)))) (packet_key response) = Some f \<and>
     fl_InitiatorIP f = ''10.0.0.1'' \<and> fl_PacketsAToB f = 8 \<and> fl_PacketsBToA f = 0"
proof -
  let ?r = "\<lparr> fr_SrcIP = ''10.0.0.9'', fr_DstIP = ''10.0.0.1'', fr_SrcPort = 502, fr_DstPort = 1024, fr_Protocol = ''TCP'',
         fr_Packets = 7, fr_Bytes = 700 \<rparr>"
  have k: "packet_key request = packet_key response"
    using flow_ids.key_eq_iff [of "(''10.0.0.9'', 502)" "(''10.0.0.1'', 1024)" "(''10.0.0.1'', 1024)" "(''10.0.0.9'', 502)" "''TCP''"]
    by (simp add: packet_key_def sample_packets no_bar_def insert_commute)
  have r: "flowKey (fr_Protocol ?r) (fr_SrcIP ?r) (fr_SrcPort ?r) (fr_DstIP ?r) (fr_DstPort ?r) = packet_key response"
    by (simp add: packet_key_def sample_packets)
  have s: "\<not> opens_connection request" by code_simp
  have "\<exists>f. mget (fe_flows (flow_handle request (flow_new [] 0))) (packet_key response) = Some f \<and>
      fl_InitiatorIP f = ''10.0.0.1'' \<and> fl_PacketsAToB f = 1 \<and> fl_PacketsBToA f = 0"
    by (simp add: flow_handle_def flow_update_def flow_new_def sample_packets count_packet_def fresh_flow_def
        from_honeypot_def Let_def s k)
  then obtain f where f: "mget (fe_flows (flow_handle request (flow_new [] 0))) (packet_key response) = Some f"
    "fl_InitiatorIP f = ''10.0.0.1''" "fl_PacketsAToB f = 1" "fl_PacketsBToA f = 0" by blast
  from external_record_counts_as_initiator [of "flow_handle request (flow_new [] 0)" ?r f 20, unfolded r, OF f(1)] f(2-4)
  show ?thesis by auto
qed

end
