(* ===== verification/Net_Addr.thy ===== *)
theory Net_Addr
  imports Packet_Parser
begin

text \<open>
  The part of package net/netip that the program compares endpoints with: parsing an address
  from text, and the order of addresses (by family, then by value, then by zone).
\<close>

section \<open>Addresses\<close>

record addr =
  ad_is6 :: bool
  ad_value :: int
  ad_zone :: string

text \<open>\<open>a.Compare(b) < 0\<close>.\<close>

definition addr_less :: "addr \<Rightarrow> addr \<Rightarrow> bool" where
  "addr_less a b \<longleftrightarrow>
     (if ad_is6 a \<noteq> ad_is6 b then ad_is6 b
      else if ad_value a \<noteq> ad_value b then ad_value a < ad_value b
      else ad_zone a < ad_zone b)"

lemma addr_less_irrefl [simp]: "\<not> addr_less a a" by (simp add: addr_less_def)

lemma addr_less_asym: "addr_less a b \<Longrightarrow> \<not> addr_less b a"
  by (auto simp: addr_less_def split: if_splits)

lemma addr_less_linear: "a \<noteq> b \<Longrightarrow> addr_less a b \<or> addr_less b a"
  by (cases a; cases b) (auto simp: addr_less_def not_less_iff_gr_or_eq)

section \<open>Parsing\<close>

definition digit_value :: "nat \<Rightarrow> char \<Rightarrow> nat option" where
  "digit_value base c =
     (let n = (of_char c :: nat);
          v = (if 48 \<le> n \<and> n \<le> 57 then n - 48
               else if 97 \<le> n \<and> n \<le> 102 then n - 87
               else if 65 \<le> n \<and> n \<le> 70 then n - 55 else base)
      in if v < base then Some v else None)"

definition digits_value :: "nat \<Rightarrow> string \<Rightarrow> nat option" where
  "digits_value base s = foldl (\<lambda>acc c. case (acc, digit_value base c) of
      (Some n, Some d) \<Rightarrow> Some (n * base + d) | _ \<Rightarrow> None) (Some 0) s"

text \<open>One decimal octet: no empty field, no leading zero, at most 255.\<close>

definition parse_octet :: "string \<Rightarrow> nat option" where
  "parse_octet s =
     (if s = [] \<or> (1 < length s \<and> hd s = CHR ''0'') then None
      else case digits_value 10 s of None \<Rightarrow> None | Some n \<Rightarrow> if n \<le> 255 then Some n else None)"

definition parse_ipv4_fields :: "string \<Rightarrow> nat list option" where
  "parse_ipv4_fields s =
     (let ws = split_on CHR ''.'' s
      in if length ws = 4 then those (map parse_octet ws) else None)"

definition value_of :: "nat list \<Rightarrow> int" where
  "value_of bs = foldl (\<lambda>n b. n * 256 + int b) 0 bs"

definition parseIPv4 :: "string \<Rightarrow> addr option" where
  "parseIPv4 s = map_option (\<lambda>bs. \<lparr> ad_is6 = False, ad_value = value_of bs, ad_zone = [] \<rparr>) (parse_ipv4_fields s)"

definition hex_prefix :: "string \<Rightarrow> string" where
  "hex_prefix s = takeWhile (\<lambda>c. digit_value 16 c \<noteq> None) s"

text \<open>
  The loop over the groups of an IPv6 address: the bytes so far and where the double colon
  was.  The first argument bounds the number of groups; eight are enough.
\<close>

fun ipv6_loop :: "nat \<Rightarrow> string \<Rightarrow> nat list \<Rightarrow> nat option \<Rightarrow> (nat list \<times> nat option) option" where
  "ipv6_loop 0 s ip ell = (if s = [] then Some (ip, ell) else None)"
| "ipv6_loop (Suc n) s ip ell =
     (let h = hex_prefix s; rest = drop (length h) s
      in if h = [] \<or> length h > 4 then None
         else if rest \<noteq> [] \<and> hd rest = CHR ''.'' then
           (if (ell = None \<and> length ip \<noteq> 12) \<or> length ip + 4 > 16 then None
            else case parse_ipv4_fields s of None \<Rightarrow> None | Some bs \<Rightarrow> Some (ip @ bs, ell))
         else
           case digits_value 16 h of
             None \<Rightarrow> None
           | Some v \<Rightarrow>
               let ip1 = ip @ [v div 256, v mod 256]
               in if rest = [] then Some (ip1, ell)
                  else if hd rest \<noteq> CHR '':'' \<or> length rest = 1 then None
                  else let s1 = tl rest
                       in if hd s1 = CHR '':'' then
                            (if ell \<noteq> None then None
                             else if tl s1 = [] then Some (ip1, Some (length ip1))
                             else ipv6_loop n (tl s1) ip1 (Some (length ip1)))
                          else ipv6_loop n s1 ip1 ell)"

definition expand_ellipsis :: "nat list \<times> nat option \<Rightarrow> nat list option" where
  "expand_ellipsis r = (case r of (ip, ell) \<Rightarrow>
     if length ip < 16 then
       (case ell of None \<Rightarrow> None
        | Some e \<Rightarrow> Some (take e ip @ replicate (16 - length ip) 0 @ drop e ip))
     else if ell = None then Some ip else None)"

definition parseIPv6 :: "string \<Rightarrow> addr option" where
  "parseIPv6 s0 =
     (let s = takeWhile (\<lambda>c. c \<noteq> CHR ''%'') s0; has_zone = (CHR ''%'' \<in> set s0);
          zone = drop (Suc (length s)) s0
      in if has_zone \<and> zone = [] then None
         else
           let done = (\<lambda>bs. \<lparr> ad_is6 = True, ad_value = value_of bs, ad_zone = zone \<rparr>)
           in if take 2 s = ''::'' then
                (if length s = 2 then Some (done (replicate 16 0))
                 else map_option done (Option.bind (ipv6_loop 8 (drop 2 s) [] (Some 0)) expand_ellipsis))
              else map_option done (Option.bind (ipv6_loop 8 s [] None) expand_ellipsis))"

definition ParseAddr :: "string \<Rightarrow> addr option" where
  "ParseAddr s =
     (case dropWhile (\<lambda>c. c \<notin> {CHR ''.'', CHR '':'', CHR ''%''}) s of
        [] \<Rightarrow> None
      | c # _ \<Rightarrow> if c = CHR ''.'' then parseIPv4 s else if c = CHR '':'' then parseIPv6 s else None)"

section \<open>Printing an IPv4 address and parsing it back\<close>

lemma split_on_join:
  "ws \<noteq> [] \<Longrightarrow> \<forall>w \<in> set ws. c \<notin> set w \<Longrightarrow> split_on c (join_with [c] ws) = ws"
proof (induction "[c]" ws rule: join_with.induct)
  case (2 w)
  then show ?case by (induction w) auto
next
  case (3 w v ws)
  have "split_on c (w @ c # s) = w # split_on c s" if "c \<notin> set w" for w s
    using that by (induction w) (auto split: list.splits)
  with 3 show ?case by simp
qed simp

lemma digit_value_dec: "d < 10 \<Longrightarrow> digit_value 10 (''0123456789abcdef'' ! d) = Some d"
  by (auto simp: less_Suc_eq numeral_eq_Suc digit_value_def)

lemma digits_value_snoc:
  "digits_value b (s @ [c]) = (case (digits_value b s, digit_value b c) of
     (Some n, Some d) \<Rightarrow> Some (n * b + d) | _ \<Rightarrow> None)"
  by (simp add: digits_value_def)

lemma digits_value_dec: "digits_value 10 (dec n) = Some n"
proof (induction n rule: less_induct)
  case (less n)
  show ?case
  proof (cases "n < 10")
    case True
    then show ?thesis by (simp add: dec_def digits_single digits_value_def digit_value_dec)
  next
    case False
    then have "digits_value 10 (dec (n div 10)) = Some (n div 10)" by (intro less.IH) simp
    with False show ?thesis
      using digit_value_dec [of "n mod 10"] by (simp add: dec_def digits_snoc digits_value_snoc)
  qed
qed

lemma dec_leading: "1 < length (dec n) \<Longrightarrow> hd (dec n) \<noteq> CHR ''0''"
proof (induction n rule: less_induct)
  case (less n)
  show ?case
  proof (cases "n < 10")
    case True
    with less.prems show ?thesis by (simp add: dec_def digits_single)
  next
    case False
    have step: "dec n = dec (n div 10) @ [''0123456789abcdef'' ! (n mod 10)]"
      using False by (simp add: dec_def digits_snoc)
    then have h: "hd (dec n) = hd (dec (n div 10))" by simp
    show ?thesis
    proof (cases "n div 10 < 10")
      case True
      have "0 < n div 10" using False by simp
      then have "''0123456789abcdef'' ! (n div 10) \<noteq> CHR ''0''"
        using digit_inj [of "n div 10" 0] True by auto
      with True h show ?thesis by (simp add: dec_def digits_single)
    next
      case big: False
      then have "1 < length (dec (n div 10))"
        by (simp add: dec_def digits_snoc)
      with less.IH [of "n div 10"] False h show ?thesis by simp
    qed
  qed
qed

lemma parse_octet_dec: "n \<le> 255 \<Longrightarrow> parse_octet (dec n) = Some n"
  using dec_leading [of n] by (auto simp: parse_octet_def digits_value_dec)

lemma dec_no_dot: "CHR ''.'' \<notin> set (dec n)" "CHR ''%'' \<notin> set (dec n)"
  using dec_digits [of n] by auto

lemma parse_ipv4_text:
  assumes "length b = 4"
  shows "ParseAddr (ipv4_text b) = Some \<lparr> ad_is6 = False, ad_value = value_of (map unat b), ad_zone = [] \<rparr>"
proof -
  obtain p q r t where b: "b = [p, q, r, t]" using assms by (auto simp: length_Suc_conv eval_nat_numeral)
  have "split_on CHR ''.'' (ipv4_text b) = map byte_text b"
    unfolding ipv4_text_def by (rule split_on_join) (simp_all add: b byte_text_def dec_no_dot)
  moreover have "parse_octet (byte_text x) = Some (unat x)" for x :: u8
    using unsigned_less [of x, where 'a = nat] unfolding byte_text_def by (intro parse_octet_dec) simp
  ultimately have "parse_ipv4_fields (ipv4_text b) = Some (map unat b)"
    by (simp add: parse_ipv4_fields_def b)
  moreover have "\<exists>s. dropWhile (\<lambda>c. c \<notin> {CHR ''.'', CHR '':'', CHR ''%''}) (ipv4_text b) = CHR ''.'' # s"
  proof -
    have "dropWhile P (w @ x # s) = x # s" if "\<forall>c \<in> set w. P c" "\<not> P x" for P w and x :: char and s
      using that by (induction w) auto
    moreover have "ipv4_text b = byte_text p @ CHR ''.'' # byte_text q @ ''.'' @ byte_text r @ ''.'' @ byte_text t"
      by (simp add: ipv4_text_def b)
    moreover have "\<forall>c \<in> set (byte_text p). c \<notin> {CHR ''.'', CHR '':'', CHR ''%''}"
      using dec_no_dot [of "unat p"] dec_no_sep(1) [of "unat p"] by (auto simp: byte_text_def)
    ultimately show ?thesis by simp
  qed
  ultimately show ?thesis by (auto simp: ParseAddr_def parseIPv4_def)
qed

end
