(* ===== verification/Udp_Conversation.thy ===== *)
theory Udp_Conversation
  imports Net_Addr
begin

text \<open>
  internal/udpconversation: the table of bidirectional UDP conversations.  The table is a vector
  of shards, each a map with a least-recently-used list; one counter of active conversations
  is shared by all shards.  The list element of a key (\<open>lruNodes\<close>) is entered and removed
  together with the conversation, so the model keeps the list of keys only.  An operation that
  holds one shard mutex is one function; \<open>Reset\<close> is also given in its two parts, because other
  packets can come between them.  Round-trip times stay durations here, the division into
  floating-point milliseconds is not modelled.
\<close>

section \<open>Keys\<close>

record ukey =
  uk_EndpointAIP :: string
  uk_EndpointAPort :: u16
  uk_EndpointBIP :: string
  uk_EndpointBPort :: u16

definition endpointLess :: "string \<Rightarrow> u16 \<Rightarrow> string \<Rightarrow> u16 \<Rightarrow> bool" where
  "endpointLess aIP aPort bIP bPort =
     (case (ParseAddr aIP, ParseAddr bIP) of
        (Some a, Some b) \<Rightarrow>
          if addr_less a b then True else if addr_less b a then False else aPort < bPort
      | _ \<Rightarrow> endpoint_text aIP aPort < endpoint_text bIP bPort)"

definition NewKey :: "string \<Rightarrow> u16 \<Rightarrow> string \<Rightarrow> u16 \<Rightarrow> ukey" where
  "NewKey aip aport bip bport =
     (if endpointLess bip bport aip aport
      then \<lparr> uk_EndpointAIP = bip, uk_EndpointAPort = bport, uk_EndpointBIP = aip, uk_EndpointBPort = aport \<rparr>
      else \<lparr> uk_EndpointAIP = aip, uk_EndpointAPort = aport, uk_EndpointBIP = bip, uk_EndpointBPort = bport \<rparr>)"

definition isDirectionA :: "ukey \<Rightarrow> string \<Rightarrow> u16 \<Rightarrow> bool" where
  "isDirectionA k srcIP srcPort \<longleftrightarrow> srcIP = uk_EndpointAIP k \<and> srcPort = uk_EndpointAPort k"

section \<open>State\<close>

datatype udp_direction = NoDirection | DirectionAToB | DirectionBToA

record conversation =
  cv_ID :: string
  cv_FlowID :: string
  cv_SensorID :: string
  cv_Key :: ukey
  cv_Protocol :: string
  cv_StartedAt :: time
  cv_LastSeenAt :: time
  cv_Packets :: u64
  cv_Bytes :: u64
  cv_DirectionA :: u64
  cv_DirectionB :: u64
  cv_DirectionABytes :: u64
  cv_DirectionBBytes :: u64
  cv_lastDirection :: udp_direction
  cv_lastPacketAt :: time

record manager_config =
  mc_Disabled :: bool
  mc_SensorID :: string
  mc_MaxActive :: int
  mc_MaxPackets :: u64
  mc_IdleTimeout :: duration

record parse_context =
  pc_ConversationID :: string
  pc_FlowID :: string
  pc_SensorID :: string
  pc_Direction :: udp_direction
  pc_PacketIndex :: u64
  pc_StartedAt :: time
  pc_RTT :: duration

record manager_shard =
  ms_conversations :: "(ukey, conversation) gomap"
  ms_lru :: "ukey list"

record manager_counters =
  mn_active :: u64
  mn_created :: u64
  mn_updated :: u64
  mn_expired :: u64
  mn_evicted :: u64
  mn_dropped :: u64
  mn_packets :: u64
  mn_bytes :: u64

record protocol_counters =
  pn_dns :: u64
  pn_dhcp :: u64
  pn_ntp :: u64
  pn_snmp :: u64
  pn_sip :: u64
  pn_dtls :: u64
  pn_openvpn :: u64
  pn_bittorrent :: u64
  pn_udp :: u64

record manager =
  m_shards :: "manager_shard list"
  m_config :: manager_config
  m_stats :: manager_counters
  m_protocolPackets :: protocol_counters

definition zero_counters :: manager_counters where
  "zero_counters = \<lparr> mn_active = 0, mn_created = 0, mn_updated = 0, mn_expired = 0, mn_evicted = 0,
     mn_dropped = 0, mn_packets = 0, mn_bytes = 0 \<rparr>"

definition zero_protocols :: protocol_counters where
  "zero_protocols = \<lparr> pn_dns = 0, pn_dhcp = 0, pn_ntp = 0, pn_snmp = 0, pn_sip = 0, pn_dtls = 0,
     pn_openvpn = 0, pn_bittorrent = 0, pn_udp = 0 \<rparr>"

definition zero_context :: parse_context where
  "zero_context = \<lparr> pc_ConversationID = [], pc_FlowID = [], pc_SensorID = [], pc_Direction = NoDirection,
     pc_PacketIndex = 0, pc_StartedAt = 0, pc_RTT = 0 \<rparr>"

definition empty_shard :: manager_shard where
  "empty_shard = \<lparr> ms_conversations = [], ms_lru = [] \<rparr>"

definition managerShardCount :: nat where "managerShardCount = 256"

definition NewManagerWithConfig :: "manager_config \<Rightarrow> manager" where
  "NewManagerWithConfig cfg =
     (let c1 = (if mc_MaxActive cfg \<le> 0 then cfg\<lparr> mc_MaxActive := 100000 \<rparr> else cfg);
          c2 = (if mc_MaxPackets c1 = 0 then c1\<lparr> mc_MaxPackets := 100000 \<rparr> else c1);
          n = (if mc_MaxActive c2 < int managerShardCount * 16 then 1 else managerShardCount)
      in \<lparr> m_shards = replicate n empty_shard, m_config = c2, m_stats = zero_counters,
           m_protocolPackets = zero_protocols \<rparr>)"

section \<open>Helpers\<close>

definition classify_port :: "u16 \<Rightarrow> string" where
  "classify_port port =
     (if port = 53 then ''dns''
      else if port = 67 \<or> port = 68 then ''dhcp''
      else if port = 123 then ''ntp''
      else if port = 161 \<or> port = 162 then ''snmp''
      else if port = 5060 then ''sip''
      else if port = 443 \<or> port = 5684 then ''dtls''
      else if port = 1194 then ''openvpn''
      else if port = 6969 then ''bittorrent''
      else [])"

definition classifyProtocol :: "u16 \<Rightarrow> u16 \<Rightarrow> string" where
  "classifyProtocol source destination =
     (if classify_port source \<noteq> [] then classify_port source
      else if classify_port destination \<noteq> [] then classify_port destination
      else ''udp'')"

definition protocol_add :: "string \<Rightarrow> protocol_counters \<Rightarrow> protocol_counters" where
  "protocol_add p c =
     (if p = ''dns'' then c\<lparr> pn_dns := pn_dns c + 1 \<rparr>
      else if p = ''dhcp'' then c\<lparr> pn_dhcp := pn_dhcp c + 1 \<rparr>
      else if p = ''ntp'' then c\<lparr> pn_ntp := pn_ntp c + 1 \<rparr>
      else if p = ''snmp'' then c\<lparr> pn_snmp := pn_snmp c + 1 \<rparr>
      else if p = ''sip'' then c\<lparr> pn_sip := pn_sip c + 1 \<rparr>
      else if p = ''dtls'' then c\<lparr> pn_dtls := pn_dtls c + 1 \<rparr>
      else if p = ''openvpn'' then c\<lparr> pn_openvpn := pn_openvpn c + 1 \<rparr>
      else if p = ''bittorrent'' then c\<lparr> pn_bittorrent := pn_bittorrent c + 1 \<rparr>
      else c\<lparr> pn_udp := pn_udp c + 1 \<rparr>)"

definition protocol_snapshot :: "protocol_counters \<Rightarrow> (string \<times> u64) list" where
  "protocol_snapshot c = filter (\<lambda>(_, v). 0 < v)
     [(''dns'', pn_dns c), (''dhcp'', pn_dhcp c), (''ntp'', pn_ntp c), (''snmp'', pn_snmp c),
      (''sip'', pn_sip c), (''dtls'', pn_dtls c), (''openvpn'', pn_openvpn c),
      (''bittorrent'', pn_bittorrent c), (''udp'', pn_udp c)]"

definition hashKey :: "ukey \<Rightarrow> u32" where
  "hashKey k =
     (let add = (\<lambda>h (v :: u8). (h XOR ucast v) * 16777619);
          port = (\<lambda>(p :: u16). [ucast (drop_bit 8 p) :: u8, ucast p])
      in foldl add 2166136261
           (bytes_of (uk_EndpointAIP k) @ port (uk_EndpointAPort k) @
            bytes_of (uk_EndpointBIP k) @ port (uk_EndpointBPort k)))"

definition shardFor :: "manager \<Rightarrow> ukey \<Rightarrow> nat" where
  "shardFor m k = nat (uint (hashKey k) mod int (length (m_shards m)))"

text \<open>\<open>t.UnixNano()\<close>, and \<open>%x\<close> of a signed number.\<close>

definition unix_nano :: "time \<Rightarrow> int" where "unix_nano t = t - 62135596800 * second"

definition hex_int :: "int \<Rightarrow> string" where
  "hex_int n = (if n < 0 then CHR ''-'' # hex (nat (- n)) else hex (nat n))"

definition conversationID :: "ukey \<Rightarrow> time \<Rightarrow> string" where
  "conversationID k startedAt =
     endpoint_text (uk_EndpointAIP k) (uk_EndpointAPort k) @ ''-'' @
     endpoint_text (uk_EndpointBIP k) (uk_EndpointBPort k) @ ''-udp-'' @ hex_int (unix_nano startedAt)"

definition udp_flowID :: "string \<Rightarrow> u16 \<Rightarrow> string \<Rightarrow> u16 \<Rightarrow> string" where
  "udp_flowID aip aport bip bport =
     ''UDP|'' @ ordered_pair_text CHR ''|'' (endpoint_text aip aport) (endpoint_text bip bport)"

definition flowID :: "ukey \<Rightarrow> string" where
  "flowID k = udp_flowID (uk_EndpointAIP k) (uk_EndpointAPort k) (uk_EndpointBIP k) (uk_EndpointBPort k)"

definition packetFlowID :: "packet \<Rightarrow> string" where
  "packetFlowID p = udp_flowID (pk_SrcIP p) (pk_SrcPort p) (pk_DstIP p) (pk_DstPort p)"

definition newConversation :: "manager \<Rightarrow> ukey \<Rightarrow> time \<Rightarrow> string \<Rightarrow> conversation" where
  "newConversation m k now fid =
     \<lparr> cv_ID = conversationID k now, cv_FlowID = fid, cv_SensorID = mc_SensorID (m_config m), cv_Key = k,
       cv_Protocol = ''udp'', cv_StartedAt = now, cv_LastSeenAt = now, cv_Packets = 0, cv_Bytes = 0,
       cv_DirectionA = 0, cv_DirectionB = 0, cv_DirectionABytes = 0, cv_DirectionBBytes = 0,
       cv_lastDirection = NoDirection, cv_lastPacketAt = 0 \<rparr>"

definition packetDirection :: "ukey \<Rightarrow> packet \<Rightarrow> udp_direction" where
  "packetDirection k p = (if isDirectionA k (pk_SrcIP p) (pk_SrcPort p) then DirectionAToB else DirectionBToA)"

definition answers :: "conversation \<Rightarrow> udp_direction \<Rightarrow> time \<Rightarrow> bool" where
  "answers c dir now \<longleftrightarrow> cv_lastDirection c \<noteq> NoDirection \<and> cv_lastDirection c \<noteq> dir \<and> \<not> now < cv_lastPacketAt c"

definition contextFor :: "conversation \<Rightarrow> ukey \<Rightarrow> packet \<Rightarrow> time \<Rightarrow> parse_context" where
  "contextFor c k p now =
     (let dir = packetDirection k p
      in \<lparr> pc_ConversationID = cv_ID c, pc_FlowID = cv_FlowID c, pc_SensorID = cv_SensorID c,
           pc_Direction = dir, pc_PacketIndex = cv_Packets c, pc_StartedAt = cv_StartedAt c,
           pc_RTT = (if answers c dir now then time_sub now (cv_lastPacketAt c) else 0) \<rparr>)"

section \<open>Operations\<close>

text \<open>
  \<open>prepareSlotLocked\<close>: take a place if there is one, otherwise give the place of the least
  recently used conversation of the same shard to the new one.
\<close>

definition prepareSlot :: "manager_config \<Rightarrow> manager_shard \<times> manager_counters \<Rightarrow> bool \<times> manager_shard \<times> manager_counters" where
  "prepareSlot cfg s = (case s of (sh, st) \<Rightarrow>
     if mn_active st < of_int (mc_MaxActive cfg) then (True, sh, st\<lparr> mn_active := mn_active st + 1 \<rparr>)
     else case ms_lru sh of
       [] \<Rightarrow> (False, sh, st)
     | k # ks \<Rightarrow> (True, sh\<lparr> ms_conversations := mdel k (ms_conversations sh), ms_lru := ks \<rparr>,
                   st\<lparr> mn_evicted := mn_evicted st + 1 \<rparr>))"

text \<open>A new conversation in its shard, or \<open>False\<close> with the packet counted as dropped.\<close>

definition insertConversation ::
  "manager_config \<Rightarrow> conversation \<Rightarrow> manager_shard \<times> manager_counters \<Rightarrow> bool \<times> manager_shard \<times> manager_counters" where
  "insertConversation cfg c s =
     (case prepareSlot cfg s of
        (False, sh, st) \<Rightarrow> (False, sh, st\<lparr> mn_dropped := mn_dropped st + 1 \<rparr>)
      | (True, sh, st) \<Rightarrow> (True,
          sh\<lparr> ms_conversations := mput (cv_Key c) c (ms_conversations sh), ms_lru := ms_lru sh @ [cv_Key c] \<rparr>,
          st\<lparr> mn_created := mn_created st + 1 \<rparr>))"

definition GetOrCreate :: "time \<Rightarrow> ukey \<Rightarrow> manager \<Rightarrow> conversation option \<times> manager" where
  "GetOrCreate now k m =
     (let i = shardFor m k; sh = m_shards m ! i
      in case mget (ms_conversations sh) k of
           Some c \<Rightarrow> (Some c, m)
         | None \<Rightarrow>
             let c = newConversation m k now (flowID k)
             in case insertConversation (m_config m) c (sh, m_stats m) of
                  (ok, sh1, st1) \<Rightarrow>
                    (if ok then Some c else None, m\<lparr> m_shards := (m_shards m)[i := sh1], m_stats := st1 \<rparr>))"

definition countPacketTelemetry :: "packet \<Rightarrow> manager \<Rightarrow> bool \<times> manager" where
  "countPacketTelemetry p m =
     (if pk_L4Protocol p \<noteq> ''UDP'' then (False, m)
      else (True, m\<lparr> m_stats := (m_stats m)\<lparr> mn_packets := mn_packets (m_stats m) + 1,
                       mn_bytes := mn_bytes (m_stats m) + of_int (max 0 (pk_Length p)) \<rparr>,
                     m_protocolPackets := protocol_add (classifyProtocol (pk_SrcPort p) (pk_DstPort p)) (m_protocolPackets m) \<rparr>))"

text \<open>An accepted packet updates its conversation.\<close>

definition countInConversation :: "ukey \<Rightarrow> packet \<Rightarrow> time \<Rightarrow> conversation \<Rightarrow> conversation" where
  "countInConversation k p now c =
     (let size = of_int (max 0 (pk_Length p)) :: u64; dir = packetDirection k p;
          c1 = c\<lparr> cv_Packets := cv_Packets c + 1, cv_Bytes := cv_Bytes c + size \<rparr>;
          c2 = (if dir = DirectionAToB
                then c1\<lparr> cv_DirectionA := cv_DirectionA c1 + 1, cv_DirectionABytes := cv_DirectionABytes c1 + size \<rparr>
                else c1\<lparr> cv_DirectionB := cv_DirectionB c1 + 1, cv_DirectionBBytes := cv_DirectionBBytes c1 + size \<rparr>)
      in c2\<lparr> cv_lastDirection := dir, cv_lastPacketAt := now,
             cv_Protocol := classifyProtocol (pk_SrcPort p) (pk_DstPort p) \<rparr>)"

text \<open>
  The last part of \<open>ObserveWithContext\<close>, on a conversation that is in the table: the limit on
  packets, the counters, the round-trip time.
\<close>

definition observeIn ::
  "manager_config \<Rightarrow> ukey \<Rightarrow> packet \<Rightarrow> time \<Rightarrow> conversation \<Rightarrow> manager_shard \<times> manager_counters \<Rightarrow>
   (conversation \<times> parse_context \<times> bool) \<times> manager_shard \<times> manager_counters" where
  "observeIn cfg k p now c0 s = (case s of (sh, st) \<Rightarrow>
     let c = (if now > cv_LastSeenAt c0 then c0\<lparr> cv_LastSeenAt := now \<rparr> else c0);
         put = (\<lambda>c'. sh\<lparr> ms_conversations := mput k c' (ms_conversations sh) \<rparr>)
     in if cv_Packets c \<ge> mc_MaxPackets cfg
        then ((c, contextFor c k p now, False), put c, st\<lparr> mn_dropped := mn_dropped st + 1 \<rparr>)
        else
          let dir = packetDirection k p;
              rtt = (if cv_Packets c > 0 \<and> answers c dir now then time_sub now (cv_lastPacketAt c) else 0);
              c' = countInConversation k p now c
          in ((c', (contextFor c' k p now)\<lparr> pc_Direction := dir, pc_RTT := rtt \<rparr>, True), put c', st))"

definition touch :: "ukey \<Rightarrow> ukey list \<Rightarrow> ukey list" where
  "touch k ks = (if k \<in> set ks then filter (\<lambda>k'. k' \<noteq> k) ks @ [k] else ks)"

definition ObserveWithContext ::
  "time \<Rightarrow> packet \<Rightarrow> manager \<Rightarrow> (conversation option \<times> parse_context \<times> bool) \<times> manager" where
  "ObserveWithContext clock p m0 =
     (case countPacketTelemetry p m0 of
        (False, m) \<Rightarrow> ((None, zero_context, False), m)
      | (True, m) \<Rightarrow>
          let now = (if is_zero_time (pk_Timestamp p) then clock else pk_Timestamp p);
              k = NewKey (pk_SrcIP p) (pk_SrcPort p) (pk_DstIP p) (pk_DstPort p);
              i = shardFor m k; sh = m_shards m ! i;
              done = (\<lambda>(r, sh1, st1). (case r of (c, cx, ok) \<Rightarrow>
                 ((Some c, cx, ok), m\<lparr> m_shards := (m_shards m)[i := sh1], m_stats := st1 \<rparr>)))
          in case mget (ms_conversations sh) k of
               Some c \<Rightarrow> done (observeIn (m_config m) k p now c
                 (sh\<lparr> ms_lru := touch k (ms_lru sh) \<rparr>, (m_stats m)\<lparr> mn_updated := mn_updated (m_stats m) + 1 \<rparr>))
             | None \<Rightarrow>
                 let c = newConversation m k now (packetFlowID p)
                 in case insertConversation (m_config m) c (sh, m_stats m) of
                      (False, sh1, st1) \<Rightarrow>
                        ((None, zero_context, False), m\<lparr> m_shards := (m_shards m)[i := sh1], m_stats := st1 \<rparr>)
                    | (True, sh1, st1) \<Rightarrow> done (observeIn (m_config m) k p now c (sh1, st1)))"

definition ObserveTelemetryOnly :: "packet \<Rightarrow> manager \<Rightarrow> bool \<times> manager" where
  "ObserveTelemetryOnly p m = countPacketTelemetry p m"

text \<open>\<open>process\<close>: the context that travels on with the packet.\<close>

definition udp_process :: "time \<Rightarrow> packet \<Rightarrow> manager \<Rightarrow> parse_context \<times> manager" where
  "udp_process clock p m =
     (if mc_Disabled (m_config m) then (zero_context, snd (ObserveTelemetryOnly p m))
      else case ObserveWithContext clock p m of ((_, cx, _), m1) \<Rightarrow> (cx, m1))"

text \<open>The engine only passes UDP packets on.\<close>

definition udp_handle :: "time \<Rightarrow> packet \<Rightarrow> manager \<Rightarrow> manager" where
  "udp_handle clock p m = (if pk_L4Protocol p = ''UDP'' then snd (udp_process clock p m) else m)"

definition expired :: "time \<Rightarrow> duration \<Rightarrow> conversation \<Rightarrow> bool" where
  "expired now idle c \<longleftrightarrow> \<not> time_sub now (cv_LastSeenAt c) \<le> idle"

definition expire_shard :: "time \<Rightarrow> duration \<Rightarrow> manager_shard \<Rightarrow> manager_shard" where
  "expire_shard now idle sh =
     (let gone = map fst (filter (\<lambda>(k, c). expired now idle c) (ms_conversations sh))
      in sh\<lparr> ms_conversations := filter (\<lambda>(k, c). \<not> expired now idle c) (ms_conversations sh),
             ms_lru := filter (\<lambda>k. k \<notin> set gone) (ms_lru sh) \<rparr>)"

definition conversation_count :: "manager_shard list \<Rightarrow> nat" where
  "conversation_count shs = sum_list (map (\<lambda>sh. length (ms_conversations sh)) shs)"

text \<open>The counter is decreased by adding the complement of \<open>expired - 1\<close>.\<close>

definition udp_expire :: "time \<Rightarrow> duration \<Rightarrow> manager \<Rightarrow> nat \<times> manager" where
  "udp_expire now idle m =
     (if idle \<le> 0 then (0, m)
      else
        let shs = map (expire_shard now idle) (m_shards m);
            n = conversation_count (m_shards m) - conversation_count shs;
            m1 = m\<lparr> m_shards := shs \<rparr>
        in (n, if n > 0 then m1\<lparr> m_stats := (m_stats m)\<lparr>
                   mn_active := mn_active (m_stats m) + NOT (of_nat (n - 1)),
                   mn_expired := mn_expired (m_stats m) + of_nat n \<rparr> \<rparr> else m1))"

definition ExpireIdle :: "time \<Rightarrow> manager \<Rightarrow> nat \<times> manager" where
  "ExpireIdle now m = udp_expire now (mc_IdleTimeout (m_config m)) m"

definition reset_shards :: "manager \<Rightarrow> manager" where
  "reset_shards m = m\<lparr> m_shards := map (\<lambda>_. empty_shard) (m_shards m) \<rparr>"

definition reset_counters :: "manager \<Rightarrow> manager" where
  "reset_counters m = m\<lparr> m_stats := zero_counters, m_protocolPackets := zero_protocols \<rparr>"

definition udp_reset :: "manager \<Rightarrow> manager" where
  "udp_reset m = reset_counters (reset_shards m)"

definition udp_get :: "ukey \<Rightarrow> manager \<Rightarrow> conversation option" where
  "udp_get k m = mget (ms_conversations (m_shards m ! shardFor m k)) k"

definition Conversations :: "manager \<Rightarrow> conversation list" where
  "Conversations m = concat (map (\<lambda>sh. mvals (ms_conversations sh)) (m_shards m))"

end
