(* ===== verification/Udp_Table.thy ===== *)
theory Udp_Table
  imports Udp_Conversation
begin

text \<open>
  The table of UDP conversations is bounded and its bookkeeping exact: the invariant of a
  shard and of the manager, its preservation by every operation, and what follows.
\<close>

section \<open>The invariant of a shard\<close>

definition conv_ok :: "u64 \<Rightarrow> conversation \<Rightarrow> bool" where
  "conv_ok limit c \<longleftrightarrow> cv_Packets c = cv_DirectionA c + cv_DirectionB c \<and>
     cv_Bytes c = cv_DirectionABytes c + cv_DirectionBBytes c \<and> cv_Packets c \<le> limit"

definition shard_ok :: "u64 \<Rightarrow> manager_shard \<Rightarrow> bool" where
  "shard_ok limit sh \<longleftrightarrow> wf_map (ms_conversations sh) \<and> distinct (ms_lru sh) \<and>
     set (ms_lru sh) = set (mkeys (ms_conversations sh)) \<and>
     (\<forall>(k, c) \<in> set (ms_conversations sh). cv_Key c = k \<and> conv_ok limit c)"

lemma shard_okI:
  assumes "wf_map m" "distinct ks" "set ks = set (mkeys m)" "\<forall>(k, c) \<in> set m. cv_Key c = k \<and> conv_ok limit c"
    and "ms_conversations sh = m" "ms_lru sh = ks"
  shows "shard_ok limit sh"
  using assms by (simp add: shard_ok_def)

lemma shard_ok_empty [simp]: "shard_ok limit empty_shard"
  by (simp add: shard_ok_def empty_shard_def mkeys_def)

lemma empty_shard_empty [simp]: "ms_conversations empty_shard = []" "ms_lru empty_shard = []"
  by (simp_all add: empty_shard_def)

lemma shard_ok_get: "shard_ok limit sh \<Longrightarrow> mget (ms_conversations sh) k = Some c \<Longrightarrow> cv_Key c = k \<and> conv_ok limit c"
  by (auto simp: shard_ok_def dest: mget_SomeD)

lemma set_touch [simp]: "set (touch k ks) = set ks"
  by (auto simp: touch_def)

lemma distinct_touch [simp]: "distinct ks \<Longrightarrow> distinct (touch k ks)"
  by (auto simp: touch_def)

lemma shard_ok_touch: "shard_ok limit sh \<Longrightarrow> shard_ok limit (sh\<lparr> ms_lru := touch k (ms_lru sh) \<rparr>)"
  by (simp add: shard_ok_def)

lemma shard_ok_replace:
  assumes "shard_ok limit sh" and "mget (ms_conversations sh) k = Some c0" and "cv_Key c = k" and "conv_ok limit c"
  shows "shard_ok limit (sh\<lparr> ms_conversations := mput k c (ms_conversations sh) \<rparr>)"
proof -
  have "k \<in> set (mkeys (ms_conversations sh))" using assms(2) mget_None_iff [of "ms_conversations sh" k] by auto
  then show ?thesis
    using assms mput_forall [of "ms_conversations sh" "\<lambda>k c. cv_Key c = k \<and> conv_ok limit c" k c]
    by (auto simp: shard_ok_def mkeys_mput insert_absorb)
qed

lemma shard_ok_new:
  assumes "shard_ok limit sh" and "mget (ms_conversations sh) (cv_Key c) = None" and "conv_ok limit c"
  shows "shard_ok limit (sh\<lparr> ms_conversations := mput (cv_Key c) c (ms_conversations sh), ms_lru := ms_lru sh @ [cv_Key c] \<rparr>)"
    and "length (mput (cv_Key c) c (ms_conversations sh)) = Suc (length (ms_conversations sh))"
proof -
  have "cv_Key c \<notin> set (ms_lru sh)" using assms(1,2) by (auto simp: shard_ok_def mget_None_iff)
  then show "shard_ok limit (sh\<lparr> ms_conversations := mput (cv_Key c) c (ms_conversations sh), ms_lru := ms_lru sh @ [cv_Key c] \<rparr>)"
    using assms mput_forall [of "ms_conversations sh" "\<lambda>k c. cv_Key c = k \<and> conv_ok limit c" "cv_Key c" c]
    by (auto simp: shard_ok_def mkeys_mput)
  show "length (mput (cv_Key c) c (ms_conversations sh)) = Suc (length (ms_conversations sh))"
    using assms(2) by (simp add: length_mput)
qed

lemma shard_ok_evict:
  assumes "shard_ok limit sh" and "ms_lru sh = k # ks"
  shows "shard_ok limit (sh\<lparr> ms_conversations := mdel k (ms_conversations sh), ms_lru := ks \<rparr>)"
    and "Suc (length (mdel k (ms_conversations sh))) = length (ms_conversations sh)"
proof -
  have d: "distinct (k # ks)" "set (k # ks) = set (mkeys (ms_conversations sh))"
    using assms by (simp_all only: shard_ok_def)
  then have "set ks = set (mkeys (mdel k (ms_conversations sh)))" by (auto simp: mkeys_mdel)
  with assms d show "shard_ok limit (sh\<lparr> ms_conversations := mdel k (ms_conversations sh), ms_lru := ks \<rparr>)"
    using mdel_forall [of "ms_conversations sh" "\<lambda>k c. cv_Key c = k \<and> conv_ok limit c" k] by (simp add: shard_ok_def)
  have "k \<in> set (mkeys (ms_conversations sh))" using d(2) by auto
  then obtain c where "mget (ms_conversations sh) k = Some c" using mget_None_iff [of "ms_conversations sh" k] by auto
  then show "Suc (length (mdel k (ms_conversations sh))) = length (ms_conversations sh)"
    using assms(1) by (intro length_mdel) (simp_all add: shard_ok_def)
qed

section \<open>Steps inside a shard\<close>

text \<open>
  What is kept: the shard is well formed, the number of its conversations and the shared
  counter move together, and the counter stays within the limit.
\<close>

definition slot_kept :: "manager_config \<Rightarrow> manager_shard \<times> manager_counters \<Rightarrow> manager_shard \<times> manager_counters \<Rightarrow> bool" where
  "slot_kept cfg s t = (case (s, t) of ((sh, st), (sh', st')) \<Rightarrow>
     shard_ok (mc_MaxPackets cfg) sh' \<and>
     int (length (ms_conversations sh')) - int (length (ms_conversations sh)) =
       uint (mn_active st') - uint (mn_active st) \<and>
     uint (mn_active st') \<le> mc_MaxActive cfg)"

definition good_config :: "manager_config \<Rightarrow> bool" where
  "good_config cfg \<longleftrightarrow> 0 < mc_MaxActive cfg \<and> mc_MaxActive cfg < 2 ^ 63"

lemma uint_of_int_u64: "0 \<le> n \<Longrightarrow> n < 2 ^ 64 \<Longrightarrow> uint (of_int n :: u64) = n"
  by (simp add: unsigned_of_int take_bit_int_eq_self)

lemma active_less:
  assumes "good_config cfg"
  shows "a < of_int (mc_MaxActive cfg) \<longleftrightarrow> uint (a :: u64) < mc_MaxActive cfg"
proof -
  have "uint (of_int (mc_MaxActive cfg) :: u64) = mc_MaxActive cfg"
    using assms by (intro uint_of_int_u64) (auto simp: good_config_def)
  then show ?thesis by (simp add: word_less_def)
qed

lemma uint_suc_small: "uint (a :: u64) < n \<Longrightarrow> n < 2 ^ 63 \<Longrightarrow> uint (a + 1) = uint a + 1"
proof -
  assume "uint a < n" "n < 2 ^ 63"
  moreover have "0 \<le> uint a" by simp
  ultimately show ?thesis by (simp add: uint_word_ariths)
qed

lemma insert_kept:
  assumes "good_config cfg" and "shard_ok (mc_MaxPackets cfg) sh" and "conv_ok (mc_MaxPackets cfg) c"
    and "mget (ms_conversations sh) (cv_Key c) = None" and "uint (mn_active st) \<le> mc_MaxActive cfg"
    and "insertConversation cfg c (sh, st) = (ok, sh', st')"
  shows "slot_kept cfg (sh, st) (sh', st') \<and> (ok \<longrightarrow> mget (ms_conversations sh') (cv_Key c) = Some c)"
proof (cases "mn_active st < of_int (mc_MaxActive cfg)")
  case True
  then have a: "uint (mn_active st + 1) = uint (mn_active st) + 1" "uint (mn_active st) < mc_MaxActive cfg"
    using assms(1) active_less [OF assms(1)] uint_suc_small by (auto simp: good_config_def)
  from True assms(6) have "sh' = sh\<lparr> ms_conversations := mput (cv_Key c) c (ms_conversations sh), ms_lru := ms_lru sh @ [cv_Key c] \<rparr>"
    "mn_active st' = mn_active st + 1"
    by (auto simp: insertConversation_def prepareSlot_def)
  with a shard_ok_new [OF assms(2,4,3)] show ?thesis by (simp add: slot_kept_def)
next
  case False
  show ?thesis
  proof (cases "ms_lru sh")
    case Nil
    with False assms show ?thesis by (auto simp: insertConversation_def prepareSlot_def slot_kept_def)
  next
    case (Cons k ks)
    let ?sh = "sh\<lparr> ms_conversations := mdel k (ms_conversations sh), ms_lru := ks \<rparr>"
    have "mget (ms_conversations ?sh) (cv_Key c) = None" using assms(4) by simp
    note new = shard_ok_new [OF shard_ok_evict(1) [OF assms(2) Cons] this assms(3)]
    from False Cons assms(6) have
      "sh' = ?sh\<lparr> ms_conversations := mput (cv_Key c) c (ms_conversations ?sh), ms_lru := ms_lru ?sh @ [cv_Key c] \<rparr>"
      "mn_active st' = mn_active st"
      by (auto simp: insertConversation_def prepareSlot_def)
    with new shard_ok_evict(2) [OF assms(2) Cons] assms(5) show ?thesis by (simp add: slot_kept_def)
  qed
qed

lemma conv_ok_count: "conv_ok limit c \<Longrightarrow> cv_Packets c < limit \<Longrightarrow> conv_ok limit (countInConversation k p now c)"
proof -
  assume "conv_ok limit c" "cv_Packets c < limit"
  then show ?thesis by (auto simp: conv_ok_def countInConversation_def Let_def inc_le)
qed

lemma observeIn_kept:
  assumes "shard_ok (mc_MaxPackets cfg) sh" and "mget (ms_conversations sh) k = Some c"
    and "uint (mn_active st) \<le> mc_MaxActive cfg"
    and "observeIn cfg k p now c (sh, st) = (r, sh', st')"
  shows "slot_kept cfg (sh, st) (sh', st')"
proof -
  let ?c = "if now > cv_LastSeenAt c then c\<lparr> cv_LastSeenAt := now \<rparr> else c"
  have c: "cv_Key ?c = k" "conv_ok (mc_MaxPackets cfg) ?c"
    using shard_ok_get [OF assms(1,2)] by (auto simp: conv_ok_def)
  obtain c' where c': "sh' = sh\<lparr> ms_conversations := mput k c' (ms_conversations sh) \<rparr>" "mn_active st' = mn_active st"
    "cv_Key c' = k" "conv_ok (mc_MaxPackets cfg) c'"
  proof (cases "cv_Packets ?c \<ge> mc_MaxPackets cfg")
    case True
    with assms(4) c that [of ?c] show thesis unfolding observeIn_def Let_def by auto
  next
    case False
    then have "conv_ok (mc_MaxPackets cfg) (countInConversation k p now ?c)" using c(2) by (intro conv_ok_count) auto
    moreover have "cv_Key (countInConversation k p now ?c) = k" using c(1) by (simp add: countInConversation_def Let_def)
    ultimately show thesis
      using False assms(4) that [of "countInConversation k p now ?c"] unfolding observeIn_def Let_def by auto
  qed
  with shard_ok_replace [OF assms(1,2) c'(3,4)] assms(2,3) show ?thesis
    by (simp add: slot_kept_def length_mput)
qed

lemma slot_kept_trans: "slot_kept cfg s t \<Longrightarrow> slot_kept cfg t u \<Longrightarrow> slot_kept cfg s u"
  by (auto simp: slot_kept_def split: prod.splits)

section \<open>The invariant of the table\<close>

definition table_ok :: "manager \<Rightarrow> bool" where
  "table_ok m \<longleftrightarrow> m_shards m \<noteq> [] \<and> (\<forall>sh \<in> set (m_shards m). shard_ok (mc_MaxPackets (m_config m)) sh) \<and>
     uint (mn_active (m_stats m)) = int (conversation_count (m_shards m)) \<and>
     uint (mn_active (m_stats m)) \<le> mc_MaxActive (m_config m)"

text \<open>The limit on conversations is a Go \<open>int\<close>, so below \<open>2^63\<close>.\<close>

definition manager_inv :: "manager \<Rightarrow> bool" where
  "manager_inv m \<longleftrightarrow> (good_config (m_config m) \<longrightarrow> table_ok m)"

datatype udp_op =
    UdpPacket time packet
  | UdpLookup time ukey
  | UdpExpire time duration
  | UdpReset

fun udp_step :: "udp_op \<Rightarrow> manager \<Rightarrow> manager" where
  "udp_step (UdpPacket clock p) m = udp_handle clock p m"
| "udp_step (UdpLookup clock k) m = snd (GetOrCreate clock k m)"
| "udp_step (UdpExpire now idle) m = snd (udp_expire now idle m)"
| "udp_step UdpReset m = udp_reset m"

lemma count_update:
  "i < length shs \<Longrightarrow> int (conversation_count (shs[i := sh])) =
     int (conversation_count shs) + int (length (ms_conversations sh)) - int (length (ms_conversations (shs ! i)))"
  using sum_list_map_update [of i shs "\<lambda>sh. length (ms_conversations sh)" sh] by (simp add: conversation_count_def)

lemma shardFor_less: "m_shards m \<noteq> [] \<Longrightarrow> shardFor m k < length (m_shards m)"
  by (simp add: shardFor_def nat_less_iff)

lemma table_ok_slot:
  assumes "table_ok m" and "i < length (m_shards m)" and "slot_kept (m_config m) (m_shards m ! i, m_stats m) (sh, st)"
  shows "table_ok (m\<lparr> m_shards := (m_shards m)[i := sh], m_stats := st \<rparr>)"
  using assms count_update [OF assms(2), of sh] set_update_subset_insert [of "m_shards m" i sh]
  by (auto simp: table_ok_def slot_kept_def)

lemma conv_ok_new: "conv_ok limit (newConversation m k now fid)" "cv_Key (newConversation m k now fid) = k"
  by (simp_all add: conv_ok_def newConversation_def)

lemma table_ok_shard: "table_ok m \<Longrightarrow> shard_ok (mc_MaxPackets (m_config m)) (m_shards m ! shardFor m k)"
  using shardFor_less [of m k] by (simp add: table_ok_def)

lemma table_ok_lookup:
  assumes "good_config (m_config m)" and "table_ok m"
  shows "table_ok (snd (GetOrCreate now k m))"
proof (cases "mget (ms_conversations (m_shards m ! shardFor m k)) k")
  case None
  let ?c = "newConversation m k now (flowID k)"
  obtain ok sh st where r: "insertConversation (m_config m) ?c (m_shards m ! shardFor m k, m_stats m) = (ok, sh, st)"
    by (metis prod.exhaust)
  have "slot_kept (m_config m) (m_shards m ! shardFor m k, m_stats m) (sh, st)"
    using insert_kept [OF assms(1) table_ok_shard [OF assms(2)] conv_ok_new(1) _ _ r] None assms(2)
    by (simp add: conv_ok_new table_ok_def)
  moreover have "shardFor m k < length (m_shards m)" using assms(2) by (simp add: table_ok_def shardFor_less)
  ultimately show ?thesis using table_ok_slot [OF assms(2), of "shardFor m k" sh st] None r
    by (simp add: GetOrCreate_def Let_def)
qed (use assms in \<open>simp add: GetOrCreate_def\<close>)

lemma table_ok_telemetry: "table_ok m \<Longrightarrow> table_ok (snd (countPacketTelemetry p m))"
  by (simp add: countPacketTelemetry_def table_ok_def)

lemma table_ok_observe:
  assumes "good_config (m_config m0)" and "table_ok m0"
  shows "table_ok (snd (ObserveWithContext clock p m0))"
proof (cases "pk_L4Protocol p = ''UDP''")
  case False
  then show ?thesis using assms(2) by (simp add: ObserveWithContext_def countPacketTelemetry_def)
next
  case True
  obtain m where m: "countPacketTelemetry p m0 = (True, m)" using True by (simp add: countPacketTelemetry_def)
  have cfg: "m_config m = m_config m0" using m True by (auto simp: countPacketTelemetry_def)
  have good: "good_config (m_config m)" using assms(1) cfg by simp
  have ok: "table_ok m" using table_ok_telemetry [OF assms(2), of p] m by simp
  let ?now = "if is_zero_time (pk_Timestamp p) then clock else pk_Timestamp p"
  let ?k = "NewKey (pk_SrcIP p) (pk_SrcPort p) (pk_DstIP p) (pk_DstPort p)"
  let ?i = "shardFor m ?k"
  let ?sh = "m_shards m ! ?i"
  have i: "?i < length (m_shards m)" using ok by (simp add: table_ok_def shardFor_less)
  note sok = table_ok_shard [OF ok, of ?k]
  have act: "uint (mn_active (m_stats m)) \<le> mc_MaxActive (m_config m)" using ok by (simp add: table_ok_def)
  show ?thesis
  proof (cases "mget (ms_conversations ?sh) ?k")
    case None
    let ?c = "newConversation m ?k ?now (packetFlowID p)"
    obtain okb sh1 st1 where r: "insertConversation (m_config m) ?c (?sh, m_stats m) = (okb, sh1, st1)"
      by (metis prod.exhaust)
    have kept: "slot_kept (m_config m) (?sh, m_stats m) (sh1, st1)" "okb \<longrightarrow> mget (ms_conversations sh1) ?k = Some ?c"
      using insert_kept [OF good sok conv_ok_new(1) _ act r] None by (simp_all add: conv_ok_new)
    show ?thesis
    proof (cases okb)
      case False
      then show ?thesis using table_ok_slot [OF ok i kept(1)] None r m by (simp add: ObserveWithContext_def Let_def)
    next
      case yes: True
      obtain c' cx b sh2 st2 where o: "observeIn (m_config m) ?k p ?now ?c (sh1, st1) = ((c', cx, b), sh2, st2)"
        by (metis prod.exhaust)
      have "slot_kept (m_config m) (sh1, st1) (sh2, st2)"
        using observeIn_kept [OF _ _ _ o] kept yes by (simp add: slot_kept_def)
      from table_ok_slot [OF ok i slot_kept_trans [OF kept(1) this]] show ?thesis
        using None r m o yes by (simp add: ObserveWithContext_def Let_def)
    qed
  next
    case (Some c)
    let ?sh1 = "?sh\<lparr> ms_lru := touch ?k (ms_lru ?sh) \<rparr>"
    let ?st1 = "(m_stats m)\<lparr> mn_updated := mn_updated (m_stats m) + 1 \<rparr>"
    obtain c' cx b sh2 st2 where o: "observeIn (m_config m) ?k p ?now c (?sh1, ?st1) = ((c', cx, b), sh2, st2)"
      by (metis prod.exhaust)
    have "slot_kept (m_config m) (?sh1, ?st1) (sh2, st2)"
      using observeIn_kept [OF shard_ok_touch [OF sok] _ _ o] Some act by simp
    then have "slot_kept (m_config m) (?sh, m_stats m) (sh2, st2)" by (simp add: slot_kept_def)
    from table_ok_slot [OF ok i this] show ?thesis
      using Some m o by (simp add: ObserveWithContext_def Let_def)
  qed
qed

lemma expire_shard_ok: "shard_ok limit sh \<Longrightarrow> shard_ok limit (expire_shard now idle sh)"
proof -
  assume a: "shard_ok limit sh"
  let ?m = "ms_conversations sh"
  let ?P = "\<lambda>(k, c). expired now idle c"
  have d: "distinct (map fst ?m)" "set (ms_lru sh) = fst ` set ?m"
    using a by (simp_all add: shard_ok_def wf_map_def mkeys_def)
  have u: "x = y" if "x \<in> set ?m" "y \<in> set ?m" "fst x = fst y" for x y
    using d(1) that by (auto simp: distinct_map dest: inj_onD)
  show ?thesis
  proof (rule shard_okI [where m = "filter (\<lambda>x. \<not> ?P x) ?m" and ks = "filter (\<lambda>k. k \<notin> fst ` set (filter ?P ?m)) (ms_lru sh)"])
    show "wf_map (filter (\<lambda>x. \<not> ?P x) ?m)" using d(1) by (simp add: wf_map_def distinct_map_filter)
    show "distinct (filter (\<lambda>k. k \<notin> fst ` set (filter ?P ?m)) (ms_lru sh))" using a by (simp add: shard_ok_def)
    show "set (filter (\<lambda>k. k \<notin> fst ` set (filter ?P ?m)) (ms_lru sh)) = set (mkeys (filter (\<lambda>x. \<not> ?P x) ?m))"
      unfolding set_filter d(2) mkeys_def set_map using u by blast
    show "\<forall>(k, c) \<in> set (filter (\<lambda>x. \<not> ?P x) ?m). cv_Key c = k \<and> conv_ok limit c"
      using a by (auto simp: shard_ok_def)
  qed (simp_all add: expire_shard_def Let_def case_prod_beta')
qed

lemma expire_count_le: "conversation_count (map (expire_shard now idle) shs) \<le> conversation_count shs"
  unfolding conversation_count_def map_map
  by (rule sum_list_mono) (simp add: expire_shard_def Let_def)

lemma minus_by_complement: "0 < n \<Longrightarrow> (a :: u64) + NOT (of_nat (n - 1)) = a - of_nat n"
  by (cases n) (simp_all add: not_eq_complement algebra_simps)

lemma uint_minus_nat: "int n \<le> uint (a :: u64) \<Longrightarrow> uint (a - of_nat n) = uint a - int n"
proof -
  assume n: "int n \<le> uint a"
  have "uint a < 2 ^ 64" using uint_lt2p [of a] by simp
  with n have "uint (of_nat n :: u64) = int n" by (simp add: unsigned_of_nat take_bit_nat_eq_self)
  with n show ?thesis by (simp add: uint_sub_if')
qed

lemma table_ok_expire: "table_ok m \<Longrightarrow> table_ok (snd (udp_expire now idle m))"
proof (cases "idle \<le> 0")
  case False
  assume a: "table_ok m"
  define shs where "shs = map (expire_shard now idle) (m_shards m)"
  define n where "n = conversation_count (m_shards m) - conversation_count shs"
  have le: "int n = int (conversation_count (m_shards m)) - int (conversation_count shs)"
    unfolding n_def shs_def using expire_count_le [of now idle "m_shards m"] by (simp add: of_nat_diff)
  then have n: "int n \<le> uint (mn_active (m_stats m))" using a by (simp add: table_ok_def)
  have ok: "shs \<noteq> []" "\<forall>sh \<in> set shs. shard_ok (mc_MaxPackets (m_config m)) sh"
    using a by (auto simp: shs_def table_ok_def expire_shard_ok)
  have e: "snd (udp_expire now idle m) = (if 0 < n then m\<lparr> m_shards := shs, m_stats := (m_stats m)\<lparr>
       mn_active := mn_active (m_stats m) - of_nat n, mn_expired := mn_expired (m_stats m) + of_nat n \<rparr> \<rparr>
     else m\<lparr> m_shards := shs \<rparr>)"
    unfolding udp_expire_def Let_def shs_def [symmetric] n_def [symmetric]
    using False minus_by_complement [of n "mn_active (m_stats m)"] by (simp del: of_nat_diff)
  show ?thesis unfolding e using a ok le uint_minus_nat [OF n] by (auto simp: table_ok_def)
qed (simp add: udp_expire_def)

lemma conversation_count_empty: "conversation_count (map (\<lambda>_. empty_shard) shs) = 0"
  by (simp add: conversation_count_def empty_shard_def)

lemma table_ok_reset: "m_shards m \<noteq> [] \<Longrightarrow> good_config (m_config m) \<Longrightarrow> table_ok (udp_reset m)"
  by (auto simp: table_ok_def udp_reset_def reset_counters_def reset_shards_def zero_counters_def
      conversation_count_empty good_config_def)

lemma observe_config: "m_config (snd (ObserveWithContext clock p m)) = m_config m"
proof -
  have "m_config (snd (countPacketTelemetry p m)) = m_config m" by (simp add: countPacketTelemetry_def)
  moreover obtain b m1 where "countPacketTelemetry p m = (b, m1)" by fastforce
  ultimately show ?thesis by (simp add: ObserveWithContext_def Let_def split_def split: option.split bool.split)
qed

lemma step_config [simp]: "m_config (udp_step opn m) = m_config m"
proof (cases opn)
  case (UdpPacket clock p)
  have "m_config (snd (udp_process clock p m)) = m_config m"
    using observe_config [of clock p m]
    by (auto simp: udp_process_def ObserveTelemetryOnly_def countPacketTelemetry_def split: prod.splits)
  then show ?thesis by (simp add: UdpPacket udp_handle_def)
next
  case (UdpLookup clock k)
  then show ?thesis by (simp add: GetOrCreate_def Let_def split: option.splits prod.splits)
qed (simp_all add: udp_expire_def Let_def udp_reset_def reset_counters_def reset_shards_def)

lemma table_ok_process:
  assumes "good_config (m_config m)" and "table_ok m"
  shows "table_ok (udp_handle clock p m)"
proof -
  have "snd (udp_process clock p m) = (if mc_Disabled (m_config m) then snd (countPacketTelemetry p m)
      else snd (ObserveWithContext clock p m))"
    by (simp add: udp_process_def ObserveTelemetryOnly_def split: prod.splits)
  then show ?thesis
    using assms table_ok_telemetry [of m p] table_ok_observe [of m clock p] by (simp add: udp_handle_def)
qed

definition limit_of :: "manager_config \<Rightarrow> int" where
  "limit_of cfg = (if mc_MaxActive cfg \<le> 0 then 100000 else mc_MaxActive cfg)"

lemma new_manager_config: "mc_MaxActive (m_config (NewManagerWithConfig cfg)) = limit_of cfg"
  by (simp add: NewManagerWithConfig_def limit_of_def Let_def)

interpretation udp_machine: invariant_machine udp_step manager_inv "NewManagerWithConfig cfg" for cfg
proof
  show "manager_inv (NewManagerWithConfig cfg)"
    by (auto simp: manager_inv_def table_ok_def NewManagerWithConfig_def Let_def zero_counters_def good_config_def
        conversation_count_def sum_list_replicate managerShardCount_def)
  show "manager_inv (udp_step opn m)" if "manager_inv m" for opn m
    unfolding manager_inv_def step_config
  proof
    assume good: "good_config (m_config m)"
    with that have ok: "table_ok m" by (simp add: manager_inv_def)
    then have "m_shards m \<noteq> []" by (simp add: table_ok_def)
    with good ok show "table_ok (udp_step opn m)"
      by (cases opn) (simp_all add: table_ok_process table_ok_lookup table_ok_expire table_ok_reset)
  qed
qed

section \<open>What the table guarantees\<close>

lemma fold_config: "m_config (fold udp_step ops m) = m_config m"
  by (induction ops arbitrary: m) simp_all

lemma reachable_table:
  assumes "mc_MaxActive cfg < 2 ^ 63"
  shows "table_ok (fold udp_step ops (NewManagerWithConfig cfg))"
proof -
  have "good_config (m_config (NewManagerWithConfig cfg))"
    using assms by (simp add: good_config_def new_manager_config limit_of_def)
  with udp_machine.reachable_inv [of ops cfg] show ?thesis by (simp add: manager_inv_def fold_config)
qed

text \<open>
  C18: however packets, look-ups, expiries and resets follow one another, the counter of active
  conversations is exactly the number of conversations in all shards, that number never exceeds
  the configured limit, and the recency list of each shard holds its keys once each.
\<close>

theorem udp_table_bounded:
  assumes "mc_MaxActive cfg < 2 ^ 63"
  shows "let m = fold udp_step ops (NewManagerWithConfig cfg)
    in uint (mn_active (m_stats m)) = int (conversation_count (m_shards m)) \<and>
       int (conversation_count (m_shards m)) \<le> limit_of cfg \<and>
       (\<forall>sh \<in> set (m_shards m). distinct (ms_lru sh) \<and> set (ms_lru sh) = set (mkeys (ms_conversations sh)))"
  using reachable_table [OF assms, of ops]
  by (auto simp: Let_def table_ok_def fold_config new_manager_config shard_ok_def)

definition small_table :: manager_config where
  "small_table = \<lparr> mc_Disabled = False, mc_SensorID = ''s1'', mc_MaxActive = 2, mc_MaxPackets = 3,
     mc_IdleTimeout = 30 * second \<rparr>"

text \<open>The Unix epoch as an instant of the model.\<close>

definition epoch :: time where "epoch = 62135596800000000000"

definition query :: "string \<Rightarrow> u16 \<Rightarrow> time \<Rightarrow> packet" where
  "query ip port t = zero_packet\<lparr> pk_SrcIP := ip, pk_SrcPort := port, pk_DstIP := ''10.0.0.53'', pk_DstPort := 53,
     pk_L4Protocol := ''UDP'', pk_Length := 80, pk_Timestamp := epoch + t \<rparr>"

theorem udp_table_bounded_witness:
  "int (conversation_count (m_shards (fold udp_step
     [UdpPacket 0 (query ''10.0.0.1'' 7 5), UdpPacket 0 (query ''10.0.0.2'' 7 6),
      UdpPacket 0 (query ''10.0.0.3'' 7 7)] (NewManagerWithConfig small_table)))) \<le> 2"
proof -
  have "mc_MaxActive small_table < 2 ^ 63" and l: "limit_of small_table = 2"
    by (simp_all add: small_table_def limit_of_def)
  from udp_table_bounded [OF this(1), unfolded Let_def l] show ?thesis by blast
qed

text \<open>
  In every reachable table, a conversation stored under a key has that key, its totals are the
  sums of its two directional counters, and it has counted at most the configured number of
  packets.
\<close>

theorem udp_conversation_counters:
  assumes "mc_MaxActive cfg < 2 ^ 63"
    and "sh \<in> set (m_shards (fold udp_step ops (NewManagerWithConfig cfg)))"
    and "mget (ms_conversations sh) k = Some c"
  shows "cv_Key c = k \<and> cv_Packets c = cv_DirectionA c + cv_DirectionB c \<and>
    cv_Bytes c = cv_DirectionABytes c + cv_DirectionBBytes c \<and>
    cv_Packets c \<le> (if mc_MaxPackets cfg = 0 then 100000 else mc_MaxPackets cfg)"
proof -
  have "mc_MaxPackets (m_config (fold udp_step ops (NewManagerWithConfig cfg))) =
      (if mc_MaxPackets cfg = 0 then 100000 else mc_MaxPackets cfg)"
    by (simp add: fold_config NewManagerWithConfig_def Let_def)
  with reachable_table [OF assms(1), of ops] assms(2)
  have "shard_ok (if mc_MaxPackets cfg = 0 then 100000 else mc_MaxPackets cfg) sh" by (simp add: table_ok_def)
  from shard_ok_get [OF this assms(3)] show ?thesis unfolding conv_ok_def .
qed

definition tracked :: "manager \<Rightarrow> string \<Rightarrow> u16 \<Rightarrow> conversation option" where
  "tracked m ip port = mget (ms_conversations (hd (m_shards m))) (NewKey ip port ''10.0.0.53'' 53)"

theorem udp_conversation_counters_witness:
  "\<exists>c. tracked (fold udp_step [UdpPacket 0 (query ''10.0.0.1'' 7 5), UdpPacket 0 (query ''10.0.0.1'' 7 6)]
      (NewManagerWithConfig small_table)) ''10.0.0.1'' 7 = Some c \<and> cv_Packets c \<le> 3"
proof -
  let ?m = "fold udp_step [UdpPacket 0 (query ''10.0.0.1'' 7 5), UdpPacket 0 (query ''10.0.0.1'' 7 6)]
      (NewManagerWithConfig small_table)"
  have "tracked ?m ''10.0.0.1'' 7 \<noteq> None" by code_simp
  then obtain c where c: "tracked ?m ''10.0.0.1'' 7 = Some c" by blast
  have l: "mc_MaxActive small_table < 2 ^ 63" and p: "mc_MaxPackets small_table = 3" by (simp_all add: small_table_def)
  from reachable_table [OF l] have "m_shards ?m \<noteq> []" unfolding table_ok_def by blast
  then have h: "hd (m_shards ?m) \<in> set (m_shards ?m)" by (rule hd_in_set)
  have "cv_Packets c \<le> (if mc_MaxPackets small_table = 0 then 100000 else mc_MaxPackets small_table)"
    using udp_conversation_counters [OF l h c [unfolded tracked_def]] by blast
  then have "cv_Packets c \<le> 3" unfolding p by simp
  with c show ?thesis by blast
qed

section \<open>Telemetry\<close>

definition protocol_total :: "protocol_counters \<Rightarrow> u64" where
  "protocol_total c = pn_dns c + pn_dhcp c + pn_ntp c + pn_snmp c + pn_sip c + pn_dtls c + pn_openvpn c +
     pn_bittorrent c + pn_udp c"

lemma protocol_total_add: "protocol_total (protocol_add p c) = protocol_total c + 1"
  by (simp add: protocol_add_def protocol_total_def)

lemma insert_packets: "insertConversation cfg c (sh, st) = (ok, sh', st') \<Longrightarrow> mn_packets st' = mn_packets st \<and> mn_bytes st' = mn_bytes st"
  by (auto simp: insertConversation_def prepareSlot_def split: if_splits list.splits)

lemma observeIn_packets: "observeIn cfg k p now c (sh, st) = (r, sh', st') \<Longrightarrow> mn_packets st' = mn_packets st \<and> mn_bytes st' = mn_bytes st"
  by (auto simp: observeIn_def Let_def split: if_splits)

lemma observe_telemetry:
  "mn_packets (m_stats (snd (ObserveWithContext clock p m))) = mn_packets (m_stats (snd (countPacketTelemetry p m))) \<and>
   mn_bytes (m_stats (snd (ObserveWithContext clock p m))) = mn_bytes (m_stats (snd (countPacketTelemetry p m))) \<and>
   m_protocolPackets (snd (ObserveWithContext clock p m)) = m_protocolPackets (snd (countPacketTelemetry p m))"
proof -
  obtain b m1 where "countPacketTelemetry p m = (b, m1)" by fastforce
  then show ?thesis
    by (auto simp: ObserveWithContext_def Let_def dest!: observeIn_packets insert_packets
        split: option.splits prod.splits bool.splits)
qed

text \<open>
  Traffic telemetry does not depend on admission: the packet counter grows by one for every UDP
  packet, whether conversations are tracked or not, the table is full or the conversation has
  reached its limit; and the per-protocol counters grow by the same number altogether.
\<close>

theorem udp_telemetry_counts_every_packet:
  "let m' = fold (\<lambda>(clock, p). udp_handle clock p) ps m;
       n = of_nat (length (filter (\<lambda>(clock, p). pk_L4Protocol p = ''UDP'') ps))
   in mn_packets (m_stats m') = mn_packets (m_stats m) + n \<and>
      protocol_total (m_protocolPackets m') = protocol_total (m_protocolPackets m) + n"
proof -
  have step: "mn_packets (m_stats (udp_handle clock p m)) = mn_packets (m_stats m) + (if pk_L4Protocol p = ''UDP'' then 1 else 0)"
    "protocol_total (m_protocolPackets (udp_handle clock p m)) =
       protocol_total (m_protocolPackets m) + (if pk_L4Protocol p = ''UDP'' then 1 else 0)" for clock p m
    using observe_telemetry [of clock p m]
    by (auto simp: udp_handle_def udp_process_def ObserveTelemetryOnly_def countPacketTelemetry_def protocol_total_add
        split: prod.splits)
  show ?thesis
    unfolding Let_def by (induction ps arbitrary: m) (auto simp: step add.assoc)
qed

section \<open>Keys of conversations\<close>

text \<open>Endpoints whose address text is a dotted IPv4 address, or no address at all.\<close>

definition plain_endpoint :: "string \<times> u16 \<Rightarrow> bool" where
  "plain_endpoint x \<longleftrightarrow> ParseAddr (fst x) = None \<or> (\<exists>b. length b = 4 \<and> fst x = ipv4_text b)"

lemma base256: "int a * 256 + int b = int a' * 256 + int b' \<Longrightarrow> b < 256 \<Longrightarrow> b' < 256 \<Longrightarrow> a = a' \<and> b = b'"
proof -
  assume e: "int a * 256 + int b = int a' * 256 + int b'" and b: "b < 256" "b' < 256"
  have "int a = (int a * 256 + int b) div 256" "int a' = (int a' * 256 + int b') div 256" using b by simp_all
  with e have "int a = int a'" by simp
  with e show "a = a' \<and> b = b'" by simp
qed

lemma value_of_inj:
  assumes "length (b :: bytes) = 4" "length (c :: bytes) = 4" "value_of (map unat b) = value_of (map unat c)"
  shows "b = c"
proof -
  obtain p q r t where b: "b = [p, q, r, t]" using assms(1) by (auto simp: length_Suc_conv eval_nat_numeral)
  obtain p' q' r' t' where c: "c = [p', q', r', t']" using assms(2) by (auto simp: length_Suc_conv eval_nat_numeral)
  have l: "unat x < 256" for x :: u8 using unsigned_less [of x, where 'a = nat] by simp
  let ?v = "(unat p * 256 + unat q) * 256 + unat r" and ?v' = "(unat p' * 256 + unat q') * 256 + unat r'"
  have "int ?v * 256 + int (unat t) = int ?v' * 256 + int (unat t')"
    using assms(3) by (simp add: b c value_of_def)
  from base256 [OF this l l] have "int (unat p * 256 + unat q) * 256 + int (unat r) =
      int (unat p' * 256 + unat q') * 256 + int (unat r')" and t: "unat t = unat t'" by linarith+
  from base256 [OF this(1) l l] have "int (unat p) * 256 + int (unat q) = int (unat p') * 256 + int (unat q')"
    and r: "unat r = unat r'" by linarith+
  from base256 [OF this(1) l l] t r have "unat p = unat p' \<and> unat q = unat q' \<and> unat r = unat r' \<and> unat t = unat t'" by simp
  then show ?thesis by (simp add: b c word_unat_eq_iff)
qed

lemma plain_parse_inj:
  assumes "plain_endpoint x" "plain_endpoint y" "ParseAddr (fst x) = Some a" "ParseAddr (fst y) = Some a"
  shows "fst x = fst y"
proof -
  from assms obtain b c where bc: "length b = 4" "fst x = ipv4_text b" "length c = 4" "fst y = ipv4_text c"
    unfolding plain_endpoint_def by (metis option.distinct(1))
  have "value_of (map unat b) = value_of (map unat c)"
    using assms(3,4) parse_ipv4_text [OF bc(1)] parse_ipv4_text [OF bc(3)] unfolding bc(2,4) by (metis addr.select_convs(2) option.inject)
  from value_of_inj [OF bc(1,3) this] show ?thesis by (simp add: bc)
qed

lemma endpointLess_asym: "endpointLess a s b t \<Longrightarrow> \<not> endpointLess b t a s"
  by (auto simp: endpointLess_def split: option.splits if_splits dest: addr_less_asym)

lemma endpointLess_linear:
  assumes "plain_endpoint (a, s)" "plain_endpoint (b, t)" and "(a, s) \<noteq> (b, t)"
  shows "endpointLess a s b t \<or> endpointLess b t a s"
proof (cases "ParseAddr a \<noteq> None \<and> ParseAddr b \<noteq> None")
  case True
  then obtain x y where xy: "ParseAddr a = Some x" "ParseAddr b = Some y" by blast
  show ?thesis
  proof (cases "x = y")
    case True
    then have "a = b" using plain_parse_inj [OF assms(1,2)] xy by simp
    with assms(3) xy True show ?thesis by (auto simp: endpointLess_def)
  next
    case False
    with addr_less_linear xy show ?thesis by (auto simp: endpointLess_def)
  qed
next
  case False
  have "endpoint_text a s < endpoint_text b t \<or> endpoint_text b t < endpoint_text a s"
    using assms(3) neq_iff [of "endpoint_text a s" "endpoint_text b t"] by simp
  with False show ?thesis by (auto simp: endpointLess_def split: option.splits)
qed

interpretation udp_keys: conversation_key "\<lambda>x y. NewKey (fst x) (snd x) (fst y) (snd y)" plain_endpoint
proof
  fix x y assume v: "plain_endpoint x" "plain_endpoint y"
  show "NewKey (fst x) (snd x) (fst y) (snd y) = NewKey (fst y) (snd y) (fst x) (snd x)"
    using endpointLess_linear [of "fst x" "snd x" "fst y" "snd y"] endpointLess_asym v
    by (cases "x = y") (auto simp: NewKey_def prod_eq_iff)
next
  fix x y z u :: "string \<times> u16"
  assume "NewKey (fst x) (snd x) (fst y) (snd y) = NewKey (fst z) (snd z) (fst u) (snd u)"
  then show "(x = z \<and> y = u) \<or> (x = u \<and> y = z)"
    by (auto simp: NewKey_def prod_eq_iff split: if_splits)
qed

text \<open>
  For endpoints with dotted IPv4 addresses (the order of addresses is then the order of their
  values, through the parser of netip) and for texts that are no addresses, the key of a
  conversation is the same in both directions, and two packets share a key exactly when they
  have the same unordered pair of endpoints.
\<close>

theorem udp_key_identifies_conversation:
  assumes "plain_endpoint (a, s)" "plain_endpoint (b, t)" "plain_endpoint (c, u)" "plain_endpoint (d, v)"
  shows "NewKey a s b t = NewKey c u d v \<longleftrightarrow> {(a, s), (b, t)} = {(c, u), (d, v)}"
  using udp_keys.key_eq_iff [OF assms] by simp

theorem udp_key_identifies_conversation_witness:
  "NewKey ''10.0.0.10'' 7 ''10.0.0.9'' 53 = NewKey ''10.0.0.9'' 53 ''10.0.0.10'' 7"
proof -
  have t: "''10.0.0.10'' = ipv4_text [10, 0, 0, 10]" "''10.0.0.9'' = ipv4_text [10, 0, 0, 9]" by code_simp+
  have p: "plain_endpoint (ipv4_text [x, y, z, u], p)" for x y z u p
    unfolding plain_endpoint_def by (intro disjI2 exI [of _ "[x, y, z, u]"]) simp
  show ?thesis unfolding t udp_key_identifies_conversation [OF p p p p] by (simp add: insert_commute)
qed

section \<open>A reset that a packet interrupts\<close>

text \<open>No conversation and no free place: the state from which the table does not recover.\<close>

definition stuck :: "manager \<Rightarrow> bool" where
  "stuck m \<longleftrightarrow> m_shards m \<noteq> [] \<and> (\<forall>sh \<in> set (m_shards m). sh = empty_shard) \<and>
     \<not> mn_active (m_stats m) < of_int (mc_MaxActive (m_config m))"

lemma stuck_count: "stuck m \<Longrightarrow> conversation_count (m_shards m) = 0"
  by (auto simp: stuck_def conversation_count_def)

lemma stuck_handle: "stuck m \<Longrightarrow> stuck (udp_handle clock p m)"
proof -
  assume a: "stuck m"
  then have e: "m_shards m ! shardFor m k = empty_shard" for k using shardFor_less [of m k] by (simp add: stuck_def)
  have u: "(m_shards m)[i := empty_shard] = m_shards m" for i
  proof (cases "i < length (m_shards m)")
    case True
    then have "m_shards m ! i = empty_shard" using a nth_mem by (auto simp: stuck_def)
    then show ?thesis by (metis list_update_id)
  qed (simp add: list_update_beyond)
  show ?thesis
    using a e u
    by (auto simp: udp_handle_def udp_process_def ObserveTelemetryOnly_def ObserveWithContext_def countPacketTelemetry_def
        Let_def insertConversation_def prepareSlot_def stuck_def shardFor_def split: prod.splits)
qed

text \<open>
  \<open>Reset\<close> empties the shards first and zeroes the counters afterwards.  If a packet opens a
  conversation in between, the counter of active conversations is one too low; when that
  conversation expires the counter wraps around to 2^64 - 1, the table counts as full with no
  conversation in it, and no later packet is tracked.
\<close>

theorem interrupted_reset_disables_tracking:
  "let m = snd (udp_expire (epoch + 60 * second) (30 * second)
       (reset_counters (udp_handle 0 (query ''10.0.0.1'' 7 5) (reset_shards (NewManagerWithConfig small_table)))))
   in mn_active (m_stats m) = - 1 \<and>
      conversation_count (m_shards (fold (\<lambda>(clock, p). udp_handle clock p) ps m)) = 0"
proof -
  let ?m = "snd (udp_expire (epoch + 60 * second) (30 * second)
       (reset_counters (udp_handle 0 (query ''10.0.0.1'' 7 5) (reset_shards (NewManagerWithConfig small_table)))))"
  have a: "mn_active (m_stats ?m) = 0xffffffffffffffff" by code_simp
  have "m_shards ?m = [empty_shard]" by code_simp
  moreover have "mc_MaxActive (m_config ?m) = 2" by code_simp
  ultimately have "stuck ?m" using a by (simp add: stuck_def)
  then have "stuck (fold (\<lambda>(clock, p). udp_handle clock p) ps ?m)"
    by (induction ps rule: rev_induct) (auto simp: stuck_handle)
  with a show ?thesis using stuck_count by (simp add: Let_def)
qed

end
