(* ===== verification/Dns_Engine.thy ===== *)
theory Dns_Engine
  imports Udp_Conversation
begin

text \<open>
  internal/dns: passive DNS.  \<open>parse\<close> decodes one message with every index and slice expression
  checked; \<open>decodeName\<close> follows compression pointers with a bound on the number of hops.  The
  tracker pairs queries with responses inside a UDP conversation.  Where the code ranges over
  the map of pending queries, \<open>ord\<close> turns the keys into the order in which the run-time visits
  them.  The average round-trip time, a floating-point quotient, is not modelled; its two
  operands are.
\<close>

section \<open>Data\<close>

record observation =
  ob_Timestamp :: time
  ob_ConversationID :: string
  ob_Direction :: string
  ob_TransactionID :: u16
  ob_ClientIP :: string
  ob_ServerIP :: string
  ob_QueryName :: string
  ob_QueryType :: u16
  ob_ResponseCode :: u8
  ob_IsResponse :: bool
  ob_AnswerCount :: int
  ob_Answers :: "string list"
  ob_CNAMEs :: "string list"
  ob_TTL :: u32
  ob_PayloadBytes :: int

record dns_exchange =
  dx_ConversationID :: string
  dx_Direction :: string
  dx_TransactionID :: u16
  dx_QueryName :: string
  dx_QueryType :: u16
  dx_RequestedAt :: time
  dx_RespondedAt :: time
  dx_RTT :: duration
  dx_ResponseCode :: u8
  dx_Answers :: int
  dx_TTL :: u32
  dx_TimedOut :: bool

record dns_telemetry =
  dt_Queries :: u64
  dt_Responses :: u64
  dt_Timeouts :: u64
  dt_NXDOMAIN :: u64
  dt_SERVFAIL :: u64
  dt_Unmatched :: u64

record exchange_key =
  xk_conversationID :: string
  xk_transactionID :: u16
  xk_queryName :: string
  xk_queryType :: u16
  xk_queryDirection :: udp_direction

record tracker =
  tk_timeout :: duration
  tk_maxExchanges :: nat
  tk_pending :: "(exchange_key, dns_exchange) gomap"
  tk_exchanges :: "dns_exchange list"
  tk_telemetry :: dns_telemetry
  tk_totalRTT :: int
  tk_rttCount :: u64

record dns_engine =
  de_observations :: "observation list"
  de_maxObservations :: nat
  de_tracker :: tracker

definition zero_telemetry :: dns_telemetry where
  "zero_telemetry = \<lparr> dt_Queries = 0, dt_Responses = 0, dt_Timeouts = 0, dt_NXDOMAIN = 0, dt_SERVFAIL = 0,
     dt_Unmatched = 0 \<rparr>"

definition defaultExchangeTimeout :: duration where "defaultExchangeTimeout = 5 * second"
definition defaultMaxExchanges :: nat where "defaultMaxExchanges = 5000"
definition maxNamePointerHops :: nat where "maxNamePointerHops = 32"

definition NewTracker :: "duration \<Rightarrow> int \<Rightarrow> tracker" where
  "NewTracker timeout maxExchanges =
     \<lparr> tk_timeout = (if timeout \<le> 0 then defaultExchangeTimeout else timeout),
       tk_maxExchanges = (if maxExchanges \<le> 0 then defaultMaxExchanges else nat maxExchanges),
       tk_pending = [], tk_exchanges = [], tk_telemetry = zero_telemetry, tk_totalRTT = 0, tk_rttCount = 0 \<rparr>"

definition dns_new :: "int \<Rightarrow> duration \<Rightarrow> dns_engine" where
  "dns_new maxObservations timeout =
     (let n = (if maxObservations \<le> 0 then 5000 else maxObservations)
      in \<lparr> de_observations = [], de_maxObservations = nat n, de_tracker = NewTracker timeout n \<rparr>)"

text \<open>\<open>string(direction)\<close>.\<close>

fun direction_text :: "udp_direction \<Rightarrow> string" where
  "direction_text NoDirection = []"
| "direction_text DirectionAToB = ''a_to_b''"
| "direction_text DirectionBToA = ''b_to_a''"

fun opposite :: "udp_direction \<Rightarrow> udp_direction" where
  "opposite DirectionAToB = DirectionBToA"
| "opposite _ = DirectionAToB"

section \<open>Names\<close>

datatype dns_error = NameOutOfBounds | TruncatedPointer | PointerLoop | InvalidLabel

text \<open>
  The loop of \<open>decodeName\<close>.  The state is that of the code: the position, the end of the name
  in the message, whether a pointer has been followed, the number of hops and the labels.
\<close>

function name_loop ::
  "bytes \<Rightarrow> nat \<Rightarrow> nat \<Rightarrow> bool \<Rightarrow> nat \<Rightarrow> string list \<Rightarrow> (dns_error + string list \<times> nat) go" where
  "name_loop data pos fin jumped hops labels =
     (if pos \<ge> length data then go_ret (Inl NameOutOfBounds)
      else case go_idx data pos of
        None \<Rightarrow> go_panic
      | Some lb \<Rightarrow>
        let l = unat lb
        in if l = 0 then go_ret (Inr (labels, if jumped then fin else pos + 1))
           else if lb AND 0xc0 = 0xc0 then
             (if pos + 1 \<ge> length data then go_ret (Inl TruncatedPointer)
              else if hops + 1 > maxNamePointerHops then go_ret (Inl PointerLoop)
              else case rd_be16 data pos of
                None \<Rightarrow> go_panic
              | Some w \<Rightarrow>
                  name_loop data (unat (w AND 0x3fff)) (if jumped then fin else pos + 2) True (hops + 1) labels)
           else if l > 63 \<or> pos + 1 + l > length data then go_ret (Inl InvalidLabel)
           else case go_slice data (pos + 1) (pos + 1 + l) of
             None \<Rightarrow> go_panic
           | Some b \<Rightarrow> name_loop data (pos + 1 + l) fin jumped hops (labels @ [string_of b]))"
  by pat_completeness auto
termination
  by (relation "measures [\<lambda>(data, pos, e, j, hops, ls). maxNamePointerHops - hops,
      \<lambda>(data, pos, e, j, hops, ls). length data - pos]") auto

declare name_loop.simps [simp del]

definition decodeName :: "bytes \<Rightarrow> nat \<Rightarrow> (dns_error + string \<times> nat) go" where
  "decodeName data offset =
     map_option (map_sum id (\<lambda>(ls, e). (join_with ''.'' ls, e))) (name_loop data offset offset False 0 [])"

definition normalize :: "string \<Rightarrow> string" where
  "normalize s = trim_suffix (to_lower (trim_space s)) ''.''"

section \<open>Messages\<close>

definition isDNSPort :: "u16 \<Rightarrow> u16 \<Rightarrow> bool" where "isDNSPort a b \<longleftrightarrow> a = 53 \<or> b = 53"

text \<open>
  The question section: \<open>None\<close> inside the result rejects the message.  Only the first question
  is kept.
\<close>

fun parse_questions :: "bytes \<Rightarrow> nat \<Rightarrow> nat \<Rightarrow> nat \<Rightarrow> observation \<Rightarrow> (observation \<times> nat) option go" where
  "parse_questions data 0 i off obs = go_ret (Some (obs, off))"
| "parse_questions data (Suc n) i off obs =
     do {
       r \<leftarrow> decodeName data off;
       case r of
         Inl _ \<Rightarrow> go_ret None
       | Inr (name, next) \<Rightarrow>
           if next + 4 > length data then go_ret None
           else if i = 0 then do {
             qt \<leftarrow> rd_be16 data next;
             parse_questions data n (i + 1) (next + 4)
               (obs\<lparr> ob_QueryName := normalize name, ob_QueryType := qt \<rparr>)
           }
           else parse_questions data n (i + 1) (next + 4) obs
     }"

definition parse_rdata :: "bytes \<Rightarrow> u16 \<Rightarrow> nat \<Rightarrow> nat \<Rightarrow> observation \<Rightarrow> observation go" where
  "parse_rdata data ty rstart rdlen obs =
     (if ty = 1 then
        (if rdlen = 4 then map_option (\<lambda>b. obs\<lparr> ob_Answers := ob_Answers obs @ [ip_text b] \<rparr>) (go_slice data rstart (rstart + 4))
         else go_ret obs)
      else if ty = 28 then
        (if rdlen = 16 then map_option (\<lambda>b. obs\<lparr> ob_Answers := ob_Answers obs @ [ip_text b] \<rparr>) (go_slice data rstart (rstart + 16))
         else go_ret obs)
      else if ty = 5 then
        map_option (\<lambda>r. case r of Inl _ \<Rightarrow> obs
           | Inr (n, _) \<Rightarrow> obs\<lparr> ob_CNAMEs := ob_CNAMEs obs @ [normalize n] \<rparr>) (decodeName data rstart)
      else go_ret obs)"

text \<open>The answer section stops at the first record it cannot read and keeps what it has.\<close>

fun parse_answers :: "bytes \<Rightarrow> nat \<Rightarrow> nat \<Rightarrow> observation \<Rightarrow> observation go" where
  "parse_answers data 0 off obs = go_ret obs"
| "parse_answers data (Suc n) off obs =
     do {
       r \<leftarrow> decodeName data off;
       case r of
         Inl _ \<Rightarrow> go_ret obs
       | Inr (_, next) \<Rightarrow>
           if next + 10 > length data then go_ret obs
           else do {
             ty \<leftarrow> rd_be16 data next;
             ttl \<leftarrow> rd_be32 data (next + 4);
             rdlen \<leftarrow> rd_be16 data (next + 8);
             let rstart = next + 10;
             if rstart + unat rdlen > length data then go_ret obs
             else do {
               obs2 \<leftarrow> parse_rdata data ty rstart (unat rdlen)
                  (if ob_TTL obs = 0 \<or> ttl < ob_TTL obs then obs\<lparr> ob_TTL := ttl \<rparr> else obs);
               parse_answers data n (rstart + unat rdlen) obs2
             }
           }
     }"

definition zero_observation :: observation where
  "zero_observation = \<lparr> ob_Timestamp = 0, ob_ConversationID = [], ob_Direction = [], ob_TransactionID = 0,
     ob_ClientIP = [], ob_ServerIP = [], ob_QueryName = [], ob_QueryType = 0, ob_ResponseCode = 0,
     ob_IsResponse = False, ob_AnswerCount = 0, ob_Answers = [], ob_CNAMEs = [], ob_TTL = 0, ob_PayloadBytes = 0 \<rparr>"

text \<open>What the fixed header says; the client is the destination of a response.\<close>

definition header_observation :: "packet \<Rightarrow> u16 \<Rightarrow> u16 \<Rightarrow> u16 \<Rightarrow> observation" where
  "header_observation p tx flags an =
     (let isResponse = (flags AND 0x8000 \<noteq> 0)
      in zero_observation\<lparr> ob_Timestamp := pk_Timestamp p, ob_TransactionID := tx,
           ob_ResponseCode := ucast (flags AND 0x000f), ob_IsResponse := isResponse,
           ob_AnswerCount := int (unat an), ob_PayloadBytes := int (length (pk_AppPayload p)),
           ob_ClientIP := (if isResponse then pk_DstIP p else pk_SrcIP p),
           ob_ServerIP := (if isResponse then pk_SrcIP p else pk_DstIP p) \<rparr>)"

definition dns_parse :: "packet \<Rightarrow> (observation \<times> bool) go" where
  "dns_parse p =
     (let data = pk_AppPayload p
      in if length data < 12 then go_ret (zero_observation, False)
         else do {
           flags \<leftarrow> rd_be16 data 2;
           qd \<leftarrow> rd_be16 data 4;
           an \<leftarrow> rd_be16 data 6;
           tx \<leftarrow> rd_be16 data 0;
           q \<leftarrow> parse_questions data (unat qd) 0 12 (header_observation p tx flags an);
           case q of
             None \<Rightarrow> go_ret (zero_observation, False)
           | Some (obs1, off) \<Rightarrow> map_option (\<lambda>obs2. (obs2, ob_QueryName obs2 \<noteq> [])) (parse_answers data (unat an) off obs1)
         })"

section \<open>The tracker\<close>

definition append_exchange :: "nat \<Rightarrow> dns_exchange list \<Rightarrow> dns_exchange \<Rightarrow> dns_exchange list" where
  "append_exchange n xs x =
     (let ys = xs @ [x] in if length ys > n then take n (drop (length ys - n) ys) else ys)"

definition appendLocked :: "dns_exchange \<Rightarrow> tracker \<Rightarrow> tracker" where
  "appendLocked x t = t\<lparr> tk_exchanges := append_exchange (tk_maxExchanges t) (tk_exchanges t) x \<rparr>"

text \<open>The oldest pending exchange; the first one visited among equally old ones.\<close>

definition oldest_pending :: "exchange_key list \<Rightarrow> (exchange_key, dns_exchange) gomap \<Rightarrow> (exchange_key \<times> dns_exchange) option" where
  "oldest_pending ks m = foldl (\<lambda>best k. case mget m k of
       None \<Rightarrow> best
     | Some x \<Rightarrow> (case best of
         None \<Rightarrow> Some (k, x)
       | Some (k', y) \<Rightarrow> if dx_RequestedAt x < dx_RequestedAt y then Some (k, x) else Some (k', y))) None ks"

text \<open>A pending query ends as a time-out.\<close>

definition time_out :: "exchange_key \<Rightarrow> dns_exchange \<Rightarrow> tracker \<Rightarrow> tracker" where
  "time_out k x t = appendLocked (x\<lparr> dx_TimedOut := True \<rparr>)
     (t\<lparr> tk_pending := mdel k (tk_pending t),
         tk_telemetry := (tk_telemetry t)\<lparr> dt_Timeouts := dt_Timeouts (tk_telemetry t) + 1 \<rparr> \<rparr>)"

definition makePendingRoom :: "exchange_key list \<Rightarrow> tracker \<Rightarrow> tracker" where
  "makePendingRoom ks t =
     (if length (tk_pending t) < tk_maxExchanges t then t
      else case oldest_pending ks (tk_pending t) of
        None \<Rightarrow> t
      | Some (k, x) \<Rightarrow> time_out k x t)"

definition query_key :: "observation \<Rightarrow> parse_context \<Rightarrow> udp_direction \<Rightarrow> exchange_key" where
  "query_key ob cx dir = \<lparr> xk_conversationID = pc_ConversationID cx, xk_transactionID = ob_TransactionID ob,
     xk_queryName = ob_QueryName ob, xk_queryType = ob_QueryType ob, xk_queryDirection = dir \<rparr>"

definition new_exchange :: "observation \<Rightarrow> parse_context \<Rightarrow> dns_exchange" where
  "new_exchange ob cx = \<lparr> dx_ConversationID = pc_ConversationID cx, dx_Direction = direction_text (pc_Direction cx),
     dx_TransactionID = ob_TransactionID ob, dx_QueryName = ob_QueryName ob, dx_QueryType = ob_QueryType ob,
     dx_RequestedAt = ob_Timestamp ob, dx_RespondedAt = 0, dx_RTT = 0, dx_ResponseCode = 0, dx_Answers = 0,
     dx_TTL = 0, dx_TimedOut = False \<rparr>"

definition complete :: "observation \<Rightarrow> dns_exchange \<Rightarrow> dns_exchange" where
  "complete ob x = x\<lparr> dx_RespondedAt := ob_Timestamp ob,
     dx_RTT := (if \<not> ob_Timestamp ob < dx_RequestedAt x then time_sub (ob_Timestamp ob) (dx_RequestedAt x) else dx_RTT x),
     dx_ResponseCode := ob_ResponseCode ob, dx_Answers := ob_AnswerCount ob, dx_TTL := ob_TTL ob \<rparr>"

definition observeResponse :: "observation \<Rightarrow> parse_context \<Rightarrow> tracker \<Rightarrow> dns_exchange \<times> tracker" where
  "observeResponse ob cx t =
     (let k = query_key ob cx (opposite (pc_Direction cx))
      in case mget (tk_pending t) k of
           Some x \<Rightarrow>
             let x' = complete ob x;
                 t1 = t\<lparr> tk_pending := mdel k (tk_pending t) \<rparr>;
                 t2 = (if \<not> ob_Timestamp ob < dx_RequestedAt x
                       then t1\<lparr> tk_totalRTT := tk_totalRTT t1 + dx_RTT x', tk_rttCount := tk_rttCount t1 + 1 \<rparr> else t1)
             in (x', appendLocked x' t2)
         | None \<Rightarrow>
             let orphan = (new_exchange ob cx)\<lparr> dx_RequestedAt := 0, dx_RespondedAt := ob_Timestamp ob,
                   dx_ResponseCode := ob_ResponseCode ob, dx_Answers := ob_AnswerCount ob, dx_TTL := ob_TTL ob \<rparr>
             in (orphan, appendLocked orphan
                  (t\<lparr> tk_telemetry := (tk_telemetry t)\<lparr> dt_Unmatched := dt_Unmatched (tk_telemetry t) + 1 \<rparr> \<rparr>)))"

definition count_response :: "u8 \<Rightarrow> dns_telemetry \<Rightarrow> dns_telemetry" where
  "count_response code tel =
     (let tel1 = tel\<lparr> dt_Responses := dt_Responses tel + 1 \<rparr>
      in if code = 2 then tel1\<lparr> dt_SERVFAIL := dt_SERVFAIL tel1 + 1 \<rparr>
         else if code = 3 then tel1\<lparr> dt_NXDOMAIN := dt_NXDOMAIN tel1 + 1 \<rparr> else tel1)"

definition tracker_observe ::
  "(exchange_key list \<Rightarrow> exchange_key list) \<Rightarrow> observation \<Rightarrow> parse_context \<Rightarrow> tracker \<Rightarrow> dns_exchange option \<times> tracker" where
  "tracker_observe ord ob cx t =
     (if ob_IsResponse ob then
        (case observeResponse ob cx (t\<lparr> tk_telemetry := count_response (ob_ResponseCode ob) (tk_telemetry t) \<rparr>) of
           (x, t') \<Rightarrow> (Some x, t'))
      else
        let t1 = t\<lparr> tk_telemetry := (tk_telemetry t)\<lparr> dt_Queries := dt_Queries (tk_telemetry t) + 1 \<rparr> \<rparr>;
            k = query_key ob cx (pc_Direction cx)
        in if mget (tk_pending t1) k \<noteq> None then (None, t1)
           else let t2 = makePendingRoom (ord (mkeys (tk_pending t1))) t1
                in (None, t2\<lparr> tk_pending := mput k (new_exchange ob cx) (tk_pending t2) \<rparr>))"

text \<open>The body of the loop of \<open>Expire\<close> for one key.\<close>

definition expire_one :: "time \<Rightarrow> exchange_key \<Rightarrow> dns_exchange list \<times> tracker \<Rightarrow> dns_exchange list \<times> tracker" where
  "expire_one now k s = (case s of (out, t) \<Rightarrow>
     case mget (tk_pending t) k of
       None \<Rightarrow> (out, t)
     | Some x \<Rightarrow>
         if time_sub now (dx_RequestedAt x) \<le> tk_timeout t then (out, t)
         else (out @ [x\<lparr> dx_TimedOut := True \<rparr>], time_out k x t))"

definition tracker_expire :: "(exchange_key list \<Rightarrow> exchange_key list) \<Rightarrow> time \<Rightarrow> tracker \<Rightarrow> dns_exchange list \<times> tracker" where
  "tracker_expire ord now t = fold (expire_one now) (ord (mkeys (tk_pending t))) ([], t)"

definition tracker_reset :: "tracker \<Rightarrow> tracker" where
  "tracker_reset t = t\<lparr> tk_pending := [], tk_exchanges := [], tk_telemetry := zero_telemetry, tk_totalRTT := 0, tk_rttCount := 0 \<rparr>"

section \<open>The engine\<close>

definition push_observation :: "nat \<Rightarrow> observation list \<Rightarrow> observation \<Rightarrow> observation list" where
  "push_observation n xs x =
     (let ys = xs @ [x] in if length ys > n then take n (drop (length ys - n) ys) else ys)"

definition addObservation :: "observation \<Rightarrow> dns_engine \<Rightarrow> dns_engine" where
  "addObservation ob e = e\<lparr> de_observations := push_observation (de_maxObservations e) (de_observations e) ob \<rparr>"

text \<open>One contextual packet from the bus; the result is the exchange to publish.\<close>

definition dns_handle ::
  "(exchange_key list \<Rightarrow> exchange_key list) \<Rightarrow> packet \<Rightarrow> parse_context \<Rightarrow> dns_engine \<Rightarrow> (dns_exchange option \<times> dns_engine) go" where
  "dns_handle ord p cx e =
     (if length (pk_AppPayload p) < 12 \<or> \<not> isDNSPort (pk_SrcPort p) (pk_DstPort p) then go_ret (None, e)
      else map_option (\<lambda>(ob, ok).
        if \<not> ok then (None, e)
        else
          let ob1 = ob\<lparr> ob_ConversationID := pc_ConversationID cx, ob_Direction := direction_text (pc_Direction cx) \<rparr>;
              e1 = addObservation ob1 e
          in if pc_ConversationID cx = [] then (None, e1)
             else case tracker_observe ord ob1 cx (de_tracker e1) of
                    (x, t) \<Rightarrow> (x, e1\<lparr> de_tracker := t \<rparr>)) (dns_parse p))"

definition dns_expire :: "(exchange_key list \<Rightarrow> exchange_key list) \<Rightarrow> time \<Rightarrow> dns_engine \<Rightarrow> dns_exchange list \<times> dns_engine" where
  "dns_expire ord now e = (case tracker_expire ord now (de_tracker e) of (xs, t) \<Rightarrow> (xs, e\<lparr> de_tracker := t \<rparr>))"

definition dns_reset :: "dns_engine \<Rightarrow> dns_engine" where
  "dns_reset e = e\<lparr> de_observations := [], de_tracker := tracker_reset (de_tracker e) \<rparr>"

end
