(* ===== verification/Dns_Names.thy ===== *)
theory Dns_Names
  imports Dns_Engine
begin

text \<open>
  Decoding DNS messages is total and bounded, and a name encoded in labels, with or without a
  compression pointer, is read back.
\<close>

section \<open>Decoding a name\<close>

text \<open>One round of the loop, without the checked reads.\<close>

lemma name_loop_round:
  "name_loop data pos fin j hops ls =
     (if pos \<ge> length data then Some (Inl NameOutOfBounds)
      else if unat (data ! pos) = 0 then Some (Inr (ls, if j then fin else pos + 1))
      else if data ! pos AND 0xc0 = 0xc0 then
        (if pos + 1 \<ge> length data then Some (Inl TruncatedPointer)
         else if hops + 1 > maxNamePointerHops then Some (Inl PointerLoop)
         else name_loop data (unat (be16 (data ! pos) (data ! Suc pos) AND 0x3fff)) (if j then fin else pos + 2) True (hops + 1) ls)
      else if unat (data ! pos) > 63 \<or> pos + 1 + unat (data ! pos) > length data then Some (Inl InvalidLabel)
      else name_loop data (pos + 1 + unat (data ! pos)) fin j hops
        (ls @ [string_of (take (unat (data ! pos)) (drop (pos + 1) data))]))"
  by (subst name_loop.simps) (simp add: Let_def)

lemma name_loop_Some: "\<exists>r. name_loop data pos fin j hops ls = Some r"
proof (induction data pos fin j hops ls rule: name_loop.induct)
  case (1 data pos fin j hops ls)
  show ?case
  proof (cases "pos < length data")
    case False
    then show ?thesis by (subst name_loop_round) simp
  next
    case True
    let ?lb = "data ! pos"
    consider (zero) "unat ?lb = 0" | (ptr) "unat ?lb \<noteq> 0" "?lb AND 0xc0 = 0xc0"
      | (label) "unat ?lb \<noteq> 0" "?lb AND 0xc0 \<noteq> 0xc0" by blast
    then show ?thesis
    proof cases
      case zero
      with True show ?thesis by (subst name_loop_round) simp
    next
      case ptr
      with True "1.IH"(1) [OF _ _ refl] show ?thesis
        by (subst name_loop_round) (cases "pos + 1 \<ge> length data"; cases "hops + 1 > maxNamePointerHops"; simp)
    next
      case label
      with True "1.IH"(2) [OF _ _ refl] show ?thesis
        by (subst name_loop_round) (cases "unat ?lb > 63 \<or> pos + 1 + unat ?lb > length data"; simp)
    qed
  qed
qed

text \<open>Where a decoded name ends, and how long it can be.\<close>

definition label_bytes :: "string list \<Rightarrow> nat" where
  "label_bytes ls = sum_list (map (\<lambda>l. length l + 1) ls)"

lemma label_bytes_simps [simp]: "label_bytes [] = 0" "label_bytes (xs @ ys) = label_bytes xs + label_bytes ys"
  "label_bytes [l] = length l + 1"
  by (simp_all add: label_bytes_def)

lemma length_string_of [simp]: "length (string_of b) = length b"
  by (simp add: string_of_def)

lemma name_loop_end:
  assumes "name_loop data pos fin j hops ls = Some (Inr (ls', e))"
  shows "(j \<longrightarrow> e = fin) \<and> (\<not> j \<longrightarrow> pos < e \<and> e \<le> length data)"
  using assms
proof (induction data pos fin j hops ls rule: name_loop.induct)
  case (1 data pos fin j hops ls)
  have pos: "pos < length data" using "1.prems" by (subst (asm) name_loop_round) (simp split: if_splits)
  let ?lb = "data ! pos"
  consider (zero) "unat ?lb = 0" | (ptr) "unat ?lb \<noteq> 0" "?lb AND 0xc0 = 0xc0"
    | (label) "unat ?lb \<noteq> 0" "?lb AND 0xc0 \<noteq> 0xc0" by blast
  then show ?case
  proof cases
    case zero
    with pos "1.prems" show ?thesis by (subst (asm) name_loop_round) (auto split: if_splits)
  next
    case ptr
    with pos "1.prems" have c: "\<not> pos + 1 \<ge> length data" "\<not> hops + 1 > maxNamePointerHops"
      by (subst (asm) name_loop_round, auto split: if_splits)+
    let ?w = "be16 (data ! pos) (data ! Suc pos)"
    have w: "rd_be16 data pos = Some ?w" using c(1) by simp
    have "name_loop data (unat (?w AND 0x3fff)) (if j then fin else pos + 2) True (hops + 1) ls = Some (Inr (ls', e))"
      using "1.prems" pos ptr c by (subst (asm) name_loop_round) simp
    with "1.IH"(1) [OF _ _ refl _ _ c w] pos ptr c show ?thesis by auto
  next
    case label
    with pos "1.prems" have c: "\<not> (unat ?lb > 63 \<or> pos + 1 + unat ?lb > length data)"
      by (subst (asm) name_loop_round) (auto split: if_splits)
    let ?b = "take (unat ?lb) (drop (pos + 1) data)"
    have "name_loop data (pos + 1 + unat ?lb) fin j hops (ls @ [string_of ?b]) = Some (Inr (ls', e))"
      using "1.prems" pos label c by (subst (asm) name_loop_round) simp
    with "1.IH"(2) [OF _ _ refl _ _ c, of ?b] pos label c show ?thesis by auto
  qed
qed

lemma name_loop_length:
  assumes "name_loop data pos fin j hops ls = Some (Inr (ls', e))" and "hops \<le> maxNamePointerHops"
  shows "label_bytes ls' + pos \<le> label_bytes ls + (maxNamePointerHops - hops) * length data + length data"
  using assms
proof (induction data pos fin j hops ls rule: name_loop.induct)
  case (1 data pos fin j hops ls)
  have pos: "pos < length data" using "1.prems"(1) by (subst (asm) name_loop_round) (simp split: if_splits)
  let ?lb = "data ! pos"
  consider (zero) "unat ?lb = 0" | (ptr) "unat ?lb \<noteq> 0" "?lb AND 0xc0 = 0xc0"
    | (label) "unat ?lb \<noteq> 0" "?lb AND 0xc0 \<noteq> 0xc0" by blast
  then show ?case
  proof cases
    case zero
    with pos "1.prems"(1) show ?thesis by (subst (asm) name_loop_round) (auto split: if_splits)
  next
    case ptr
    with pos "1.prems"(1) have c: "\<not> pos + 1 \<ge> length data" "\<not> hops + 1 > maxNamePointerHops"
      by (subst (asm) name_loop_round, auto split: if_splits)+
    let ?w = "be16 (data ! pos) (data ! Suc pos)"
    have w: "rd_be16 data pos = Some ?w" using c(1) by simp
    have "name_loop data (unat (?w AND 0x3fff)) (if j then fin else pos + 2) True (hops + 1) ls = Some (Inr (ls', e))"
      using "1.prems"(1) pos ptr c by (subst (asm) name_loop_round) simp
    with "1.IH"(1) [OF _ _ refl _ _ c w] pos ptr c
    have "label_bytes ls' \<le> label_bytes ls + (maxNamePointerHops - (hops + 1)) * length data + length data" by simp
    also have "\<dots> = label_bytes ls + (maxNamePointerHops - hops) * length data"
    proof -
      have "maxNamePointerHops - hops = Suc (maxNamePointerHops - (hops + 1))" using c(2) by simp
      then show ?thesis by simp
    qed
    finally show ?thesis using pos by simp
  next
    case label
    with pos "1.prems"(1) have c: "\<not> (unat ?lb > 63 \<or> pos + 1 + unat ?lb > length data)"
      by (subst (asm) name_loop_round) (auto split: if_splits)
    let ?b = "take (unat ?lb) (drop (pos + 1) data)"
    have "name_loop data (pos + 1 + unat ?lb) fin j hops (ls @ [string_of ?b]) = Some (Inr (ls', e))"
      using "1.prems"(1) pos label c by (subst (asm) name_loop_round) simp
    with "1.IH"(2) [OF _ _ refl _ _ c, of ?b] "1.prems"(2) pos label c show ?thesis by simp
  qed
qed

lemma decodeName_Some: "\<exists>r. decodeName data off = Some r"
  using name_loop_Some by (simp add: decodeName_def)

lemma length_join_dot: "length (join_with ''.'' ls) \<le> label_bytes ls"
  by (induction "''.''" ls rule: join_with.induct) (simp_all add: label_bytes_def)

text \<open>
  C17: decoding a name ends on every input, whatever the pointers: with a name or an error value,
  never a panic.  A decoded name ends inside the message, beyond where it started, and is no
  longer than 33 times the message, so a message with pointer cycles costs a bounded amount of
  work and memory.
\<close>

theorem decodeName_terminates_bounded:
  "\<exists>r. decodeName data off = Some r \<and>
     (case r of Inl e \<Rightarrow> True
      | Inr (name, next) \<Rightarrow> off < next \<and> next \<le> length data \<and> length name \<le> 33 * length data)"
proof -
  obtain r where r: "name_loop data off off False 0 [] = Some r" using name_loop_Some by blast
  show ?thesis
  proof (cases r)
    case (Inl e)
    with r show ?thesis by (simp add: decodeName_def)
  next
    case (Inr p)
    obtain ls e where p: "p = (ls, e)" by (cases p)
    have "off < e \<and> e \<le> length data" using name_loop_end [OF r [unfolded Inr p]] by simp
    moreover have "label_bytes ls \<le> 33 * length data"
      using name_loop_length [OF r [unfolded Inr p]] by (simp add: maxNamePointerHops_def)
    ultimately show ?thesis using r Inr p length_join_dot [of ls] by (simp add: decodeName_def)
  qed
qed

section \<open>Messages\<close>

lemma parse_questions_Some: "\<exists>r. parse_questions data n i off obs = Some r"
proof (induction data n i off obs rule: parse_questions.induct)
  case (2 data n i off obs)
  obtain r where r: "decodeName data off = Some r" using decodeName_Some by blast
  show ?case
  proof (cases r)
    case (Inr p)
    obtain nm nx where p: "p = (nm, nx)" by (cases p)
    show ?thesis
    proof (cases "nx + 4 > length data")
      case False
      then obtain qt where "rd_be16 data nx = Some qt" by simp
      with False r Inr p "2.IH" show ?thesis by (cases "i = 0") simp_all
    qed (use r Inr p in simp)
  qed (use r in simp)
qed simp

lemma parse_rdata_Some: "rstart + rdlen \<le> length data \<Longrightarrow> \<exists>r. parse_rdata data ty rstart rdlen obs = Some r"
  using decodeName_Some [of data rstart] by (auto simp: parse_rdata_def)

lemma parse_answers_Some: "\<exists>r. parse_answers data n off obs = Some r"
proof (induction data n off obs rule: parse_answers.induct)
  case (2 data n off obs)
  obtain r where r: "decodeName data off = Some r" using decodeName_Some by blast
  show ?case
  proof (cases r)
    case (Inr p)
    obtain nm nx where p: "p = (nm, nx)" by (cases p)
    show ?thesis
    proof (cases "nx + 10 > length data")
      case False
      then obtain ty rl where a: "rd_be16 data nx = Some ty" "rd_be16 data (nx + 8) = Some rl" by simp
      from False rd_be32_Some [of "nx + 4" data] obtain ttl where b: "rd_be32 data (nx + 4) = Some ttl" by auto
      show ?thesis
      proof (cases "nx + 10 + unat rl > length data")
        case fits: False
        then obtain o2 where "parse_rdata data ty (nx + 10) (unat rl)
            (if ob_TTL obs = 0 \<or> ttl < ob_TTL obs then obs\<lparr> ob_TTL := ttl \<rparr> else obs) = Some o2"
          using parse_rdata_Some by (metis linorder_not_less)
        with False fits r Inr p a b "2.IH" show ?thesis by (simp add: Let_def)
      qed (use False r Inr p a b in \<open>simp add: Let_def\<close>)
    qed (use r Inr p in simp)
  qed (use r in simp)
qed simp

text \<open>
  No payload makes the DNS parser panic, whatever its counts, lengths and pointers say.
\<close>

theorem dns_parse_total: "\<exists>r. dns_parse p = Some r"
proof (cases "length (pk_AppPayload p) < 12")
  case True
  then show ?thesis by (auto simp: dns_parse_def)
next
  case False
  let ?d = "pk_AppPayload p"
  have q: "parse_questions ?d n i off obs \<noteq> None" for n i off obs using parse_questions_Some [of ?d n i off obs] by auto
  have a: "parse_answers ?d n off obs \<noteq> None" for n off obs using parse_answers_Some [of ?d n off obs] by auto
  from False obtain f qd an tx where "rd_be16 ?d 2 = Some f" "rd_be16 ?d 4 = Some qd" "rd_be16 ?d 6 = Some an" "rd_be16 ?d 0 = Some tx"
    by simp
  moreover obtain r where "parse_questions ?d (unat qd) 0 12 (header_observation p tx f an) = Some r"
    using parse_questions_Some by blast
  ultimately show ?thesis using False a by (cases r) (auto simp: dns_parse_def Let_def)
qed

section \<open>Encoding names\<close>

definition good_label :: "string \<Rightarrow> bool" where
  "good_label l \<longleftrightarrow> l \<noteq> [] \<and> length l \<le> 63"

definition encode_labels :: "string list \<Rightarrow> bytes" where
  "encode_labels ls = concat (map (\<lambda>l. of_nat (length l) # bytes_of l) ls)"

definition pointer_bytes :: "nat \<Rightarrow> bytes" where
  "pointer_bytes off = [of_nat (0xc0 + off div 256), of_nat (off mod 256)]"

lemma string_of_bytes_of [simp]: "string_of (bytes_of s) = s"
proof -
  have "char_of (unat (of_char c :: u8)) = c" for c
  proof -
    have "(of_char c :: nat) < 256" by simp
    then have "unat (of_nat (of_char c) :: u8) = of_char c" by (intro unat_of_nat_small) simp
    moreover have "of_nat (of_char c) = (of_char c :: u8)" by (rule of_nat_of_char)
    ultimately show ?thesis by (metis char_of_char)
  qed
  then show ?thesis by (simp add: string_of_def bytes_of_def o_def)
qed

lemma unat_of_nat_u8: "n < 256 \<Longrightarrow> unat (of_nat n :: u8) = n"
  by (rule unat_of_nat_small) simp

lemma small_label_bits: "\<forall>n \<in> set [0..<64]. (of_nat n :: u8) AND 0xc0 = 0"
  by code_simp

lemma pointer_label_bits: "\<forall>n \<in> set [0..<64]. (of_nat (0xc0 + n) :: u8) AND 0xc0 = 0xc0"
  by code_simp

lemma pointer_offset:
  assumes "off < 0x4000"
  shows "unat (be16 (of_nat (0xc0 + off div 256)) (of_nat (off mod 256)) AND 0x3fff) = off"
proof -
  let ?w = "be16 (of_nat (0xc0 + off div 256)) (of_nat (off mod 256))"
  have "unat (of_nat (0xc0 + off div 256) :: u8) = 0xc0 + off div 256" "unat (of_nat (off mod 256) :: u8) = off mod 256"
    using assms by (simp_all add: unat_of_nat_u8 del: of_nat_add)
  then have u: "unat ?w = 0xc000 + off" by (simp add: unat_be16 del: of_nat_add)
  have "?w AND 0x3fff = take_bit 14 ?w" by (simp add: take_bit_eq_mask mask_eq_exp_minus_1)
  then have "unat (?w AND 0x3fff) = take_bit 14 (0xc000 + off)" by (simp only: unsigned_take_bit_eq u)
  also have "\<dots> = (3 * 0x4000 + off) mod 0x4000" by (simp add: take_bit_eq_mod)
  also have "\<dots> = off" using assms by (simp only: mod_mult_self3) simp
  finally show ?thesis .
qed

lemma loop_label:
  assumes "good_label l" and "data = xs @ of_nat (length l) # bytes_of l @ ys"
  shows "name_loop data (length xs) fin j hops acc = name_loop data (length xs + Suc (length l)) fin j hops (acc @ [l])"
proof -
  have len: "length (bytes_of l) = length l" by (simp add: bytes_of_def)
  have l: "0 < length l" "length l \<le> 63" using assms(1) by (auto simp: good_label_def)
  then have "length l \<in> set [0..<64]" by simp
  then have bits: "(of_nat (length l) :: u8) AND 0xc0 \<noteq> 0xc0" using small_label_bits by fastforce
  have u: "unat (of_nat (length l) :: u8) = length l" using l by (simp add: unat_of_nat_u8)
  have d: "data ! length xs = of_nat (length l)" "length xs < length data"
    "take (length l) (drop (length xs + 1) data) = bytes_of l" "length xs + 1 + length l \<le> length data"
    by (simp_all add: assms(2) len)
  show ?thesis using l d bits u by (subst name_loop_round) simp
qed

lemma loop_labels:
  assumes "\<forall>l \<in> set ls. good_label l" and "data = xs @ encode_labels ls @ ys"
  shows "name_loop data (length xs) fin j hops acc =
    name_loop data (length xs + length (encode_labels ls)) fin j hops (acc @ ls)"
  using assms
proof (induction ls arbitrary: xs acc)
  case (Cons l ls)
  let ?x = "xs @ of_nat (length l) # bytes_of l"
  have e: "encode_labels (l # ls) = of_nat (length l) # bytes_of l @ encode_labels ls" by (simp add: encode_labels_def)
  have len: "length (bytes_of l) = length l" by (simp add: bytes_of_def)
  have "name_loop data (length xs) fin j hops acc = name_loop data (length xs + Suc (length l)) fin j hops (acc @ [l])"
    using Cons.prems by (intro loop_label [of l data xs "encode_labels ls @ ys"]) (simp_all add: e)
  also have "\<dots> = name_loop data (length ?x) fin j hops (acc @ [l])" by (simp add: len)
  also have "\<dots> = name_loop data (length ?x + length (encode_labels ls)) fin j hops ((acc @ [l]) @ ls)"
    using Cons.prems by (intro Cons.IH) (simp_all add: e)
  finally show ?case by (simp add: e len add.assoc)
qed (simp add: encode_labels_def)

lemma loop_end:
  assumes "data = xs @ 0 # ys"
  shows "name_loop data (length xs) fin j hops acc = Some (Inr (acc, if j then fin else length xs + 1))"
  using assms by (subst name_loop_round) simp

lemma loop_pointer:
  assumes "off < 0x4000" and "data = xs @ pointer_bytes off @ ys" and "hops < maxNamePointerHops"
  shows "name_loop data (length xs) fin j hops acc =
    name_loop data off (if j then fin else length xs + 2) True (hops + 1) acc"
proof -
  have h: "off div 256 \<in> set [0..<64]" using assms(1) by (simp add: less_mult_imp_div_less)
  have d: "data ! length xs = of_nat (0xc0 + off div 256)" "data ! Suc (length xs) = of_nat (off mod 256)"
    "length xs + 1 < length data"
    by (simp_all add: assms(2) pointer_bytes_def nth_append del: of_nat_add)
  have u: "unat (of_nat (0xc0 + off div 256) :: u8) \<noteq> 0" using h by (simp add: unat_of_nat_u8 del: of_nat_add)
  have b: "(of_nat (0xc0 + off div 256) :: u8) AND 0xc0 = 0xc0" using h pointer_label_bits by blast
  show ?thesis using d u b assms(3) pointer_offset [OF assms(1)]
    by (subst name_loop_round) (simp del: of_nat_add)
qed

text \<open>
  C16: a name is read back from its wire form.  Labels closed by the zero byte decode to the name
  and the offset behind it; labels that continue with a compression pointer to the rest of the
  name elsewhere in the message decode to the whole name, and the offset returned is the one
  behind the pointer.
\<close>

theorem dns_name_roundtrip:
  assumes "\<forall>l \<in> set (ls @ rest). good_label l"
    and "drop pos data = encode_labels ls @ 0 # ys \<and> rest = [] \<and> n = length (encode_labels ls) + 1 \<or>
      drop pos data = encode_labels ls @ pointer_bytes off @ ys \<and> off < 0x4000 \<and>
        drop off data = encode_labels rest @ 0 # zs \<and> n = length (encode_labels ls) + 2"
  shows "decodeName data pos = Some (Inr (join_with ''.'' (ls @ rest), pos + n))"
proof -
  have split: "\<exists>xs. data = xs @ t \<and> length xs = p" if "drop p data = t" "t \<noteq> []" for p and t :: bytes
  proof -
    have "p \<le> length data" using that by (metis drop_all nat_le_linear)
    then show ?thesis using that by (intro exI [of _ "take p data"]) (metis append_take_drop_id length_take min.absorb2)
  qed
  from assms(2) show ?thesis
  proof (elim disjE conjE)
    assume d: "drop pos data = encode_labels ls @ 0 # ys" and r: "rest = []" and n: "n = length (encode_labels ls) + 1"
    from split [OF d] obtain xs where x: "data = xs @ encode_labels ls @ 0 # ys" "length xs = pos" by auto
    have "name_loop data (length xs) pos False 0 [] =
        name_loop data (length xs + length (encode_labels ls)) pos False 0 ([] @ ls)"
      using assms(1) x by (intro loop_labels) auto
    also have "\<dots> = Some (Inr (ls, length xs + length (encode_labels ls) + 1))"
      using loop_end [of data "xs @ encode_labels ls" ys pos False 0 ls] x by simp
    finally show ?thesis using x n r by (simp add: decodeName_def)
  next
    assume d: "drop pos data = encode_labels ls @ pointer_bytes off @ ys" and o: "off < 0x4000"
      and e: "drop off data = encode_labels rest @ 0 # zs" and n: "n = length (encode_labels ls) + 2"
    have "encode_labels ls @ pointer_bytes off @ ys \<noteq> []" by (simp add: pointer_bytes_def)
    from split [OF d this] obtain xs where x: "data = xs @ encode_labels ls @ pointer_bytes off @ ys" "length xs = pos" by auto
    from split [OF e] obtain us where u: "data = us @ encode_labels rest @ 0 # zs" "length us = off" by auto
    have "name_loop data (length xs) pos False 0 [] =
        name_loop data (length xs + length (encode_labels ls)) pos False 0 ([] @ ls)"
      using assms(1) x by (intro loop_labels) auto
    also have "\<dots> = name_loop data off (length xs + length (encode_labels ls) + 2) True 1 ls"
      using loop_pointer [OF o, of data "xs @ encode_labels ls" ys 0 pos False ls] x by (simp add: maxNamePointerHops_def)
    also have "\<dots> = name_loop data (length us + length (encode_labels rest)) (length xs + length (encode_labels ls) + 2) True 1 (ls @ rest)"
      using loop_labels [of rest data us "0 # zs" "length xs + length (encode_labels ls) + 2" True 1 ls] assms(1) u by auto
    also have "\<dots> = Some (Inr (ls @ rest, length xs + length (encode_labels ls) + 2))"
      using loop_end [of data "us @ encode_labels rest" zs _ True 1 "ls @ rest"] u by simp
    finally show ?thesis using x n by (simp add: decodeName_def)
  qed
qed

theorem dns_name_roundtrip_witness:
  "decodeName [3, 0x70, 0x6c, 0x63, 0, 4, 0x68, 0x6d, 0x69, 0x31, 0xc0, 0] 5 = Some (Inr (''hmi1.plc'', 12))"
proof -
  have "encode_labels [''plc''] = [3, 0x70, 0x6c, 0x63]" "encode_labels [''hmi1''] = [4, 0x68, 0x6d, 0x69, 0x31]"
    "pointer_bytes 0 = [0xc0, 0]" by code_simp+
  then show ?thesis
    using dns_name_roundtrip [of "[''hmi1'']" "[''plc'']" 5
        "[3, 0x70, 0x6c, 0x63, 0, 4, 0x68, 0x6d, 0x69, 0x31, 0xc0, 0]" "[]" 7 0 "[4, 0x68, 0x6d, 0x69, 0x31, 0xc0, 0]"]
    by (simp add: good_label_def)
qed

end
