(* ===== verification/Dns_Tracker.thy ===== *)
theory Dns_Tracker
  imports Dns_Names
begin

text \<open>
  The DNS tracker: its tables are bounded, a response completes the query it answers, and every
  query that was admitted leaves the table of pending queries exactly once.
\<close>

section \<open>Histories\<close>

lemma append_exchange_last_n: "append_exchange n xs x = last_n n (xs @ [x])"
  by (auto simp: append_exchange_def last_n_def Let_def)

lemma push_observation_last_n: "push_observation n xs x = last_n n (xs @ [x])"
  by (auto simp: push_observation_def last_n_def Let_def)

interpretation exchange_log: bounded_log "append_exchange n" n for n
  by unfold_locales (rule append_exchange_last_n)

interpretation observation_log: bounded_log "push_observation n" n for n
  by unfold_locales (rule push_observation_last_n)

section \<open>The table of pending queries\<close>

definition key_matches :: "exchange_key \<Rightarrow> dns_exchange \<Rightarrow> bool" where
  "key_matches k x \<longleftrightarrow> xk_conversationID k = dx_ConversationID x \<and> xk_transactionID k = dx_TransactionID x \<and>
     xk_queryName k = dx_QueryName x \<and> xk_queryType k = dx_QueryType x \<and>
     direction_text (xk_queryDirection k) = dx_Direction x \<and> \<not> dx_TimedOut x"

definition tracker_ok :: "tracker \<Rightarrow> bool" where
  "tracker_ok t \<longleftrightarrow> 0 < tk_maxExchanges t \<and> wf_map (tk_pending t) \<and>
     length (tk_pending t) \<le> tk_maxExchanges t \<and> length (tk_exchanges t) \<le> tk_maxExchanges t \<and>
     (\<forall>(k, x) \<in> set (tk_pending t). key_matches k x)"

text \<open>An order of visits visits every key once.\<close>

definition visits :: "(exchange_key list \<Rightarrow> exchange_key list) \<Rightarrow> bool" where
  "visits ord \<longleftrightarrow> (\<forall>ks. mset (ord ks) = mset ks)"

lemma visits_set: "visits ord \<Longrightarrow> set (ord ks) = set ks"
  unfolding visits_def by (metis set_mset_mset)

definition older :: "(exchange_key, dns_exchange) gomap \<Rightarrow> (exchange_key \<times> dns_exchange) option \<Rightarrow> exchange_key \<Rightarrow> (exchange_key \<times> dns_exchange) option" where
  "older m best k = (case mget m k of
       None \<Rightarrow> best
     | Some x \<Rightarrow> (case best of
         None \<Rightarrow> Some (k, x)
       | Some (k', y) \<Rightarrow> if dx_RequestedAt x < dx_RequestedAt y then Some (k, x) else Some (k', y)))"

lemma oldest_pending_foldl: "oldest_pending ks m = foldl (older m) None ks"
  by (simp add: oldest_pending_def older_def [abs_def])

lemma older_sound:
  assumes "\<forall>k' y. best = Some (k', y) \<longrightarrow> mget m k' = Some y"
  shows "\<forall>k' y. older m best k = Some (k', y) \<longrightarrow> mget m k' = Some y"
proof (cases "mget m k")
  case (Some x)
  with assms show ?thesis by (cases best) (auto simp: older_def split: prod.splits if_splits)
qed (use assms in \<open>simp add: older_def\<close>)

lemma older_Some: "best \<noteq> None \<or> mget m k \<noteq> None \<Longrightarrow> older m best k \<noteq> None"
  by (cases "mget m k"; cases best) (simp_all add: older_def split: prod.splits)

lemma oldest_sound:
  "\<forall>k' y. best = Some (k', y) \<longrightarrow> mget m k' = Some y \<Longrightarrow> foldl (older m) best ks = Some (k, x) \<Longrightarrow> mget m k = Some x"
proof (induction ks arbitrary: best)
  case (Cons j ks)
  then show ?case using Cons.IH [OF older_sound [OF Cons.prems(1)]] by simp
qed simp

lemma oldest_found: "best \<noteq> None \<or> (\<exists>k \<in> set ks. mget m k \<noteq> None) \<Longrightarrow> foldl (older m) best ks \<noteq> None"
proof (induction ks arbitrary: best)
  case (Cons j ks)
  have "older m best j \<noteq> None \<or> (\<exists>k \<in> set ks. mget m k \<noteq> None)"
    using Cons.prems older_Some [of best m j] by (metis set_ConsD)
  from Cons.IH [OF this] show ?case by simp
qed simp

lemma oldest_pending_Some:
  assumes "m \<noteq> []" and "set ks = set (mkeys m)"
  shows "\<exists>k x. oldest_pending ks m = Some (k, x) \<and> mget m k = Some x"
proof -
  obtain k where "k \<in> set (mkeys m)" using assms(1) by (cases m) (auto simp: mkeys_def)
  then have "mget m k \<noteq> None" "k \<in> set ks" using mget_None_iff [of m k] assms(2) by auto
  then have "oldest_pending ks m \<noteq> None" unfolding oldest_pending_foldl by (intro oldest_found) blast
  moreover have "mget m j = Some y" if "oldest_pending ks m = Some (j, y)" for j y
    using that unfolding oldest_pending_foldl by (rule oldest_sound [rotated]) simp
  ultimately show ?thesis by auto
qed

lemma time_out_fields [simp]:
  "tk_pending (time_out k x t) = mdel k (tk_pending t)"
  "tk_maxExchanges (time_out k x t) = tk_maxExchanges t"
  "tk_timeout (time_out k x t) = tk_timeout t"
  "dt_Timeouts (tk_telemetry (time_out k x t)) = dt_Timeouts (tk_telemetry t) + 1"
  "dt_Responses (tk_telemetry (time_out k x t)) = dt_Responses (tk_telemetry t)"
  "dt_Unmatched (tk_telemetry (time_out k x t)) = dt_Unmatched (tk_telemetry t)"
  "tk_exchanges (time_out k x t) = append_exchange (tk_maxExchanges t) (tk_exchanges t) (x\<lparr> dx_TimedOut := True \<rparr>)"
  by (simp_all add: time_out_def appendLocked_def)

lemma tracker_ok_time_out: "tracker_ok t \<Longrightarrow> tracker_ok (time_out k x t)"
  using mdel_forall [of "tk_pending t" key_matches k] length_mdel_le [of k "tk_pending t"] exchange_log.push_length
  by (auto simp: tracker_ok_def intro: order_trans)

lemma makePendingRoom_ok:
  assumes "tracker_ok t" and "visits ord"
  shows "tracker_ok (makePendingRoom (ord (mkeys (tk_pending t))) t)"
    and "length (tk_pending (makePendingRoom (ord (mkeys (tk_pending t))) t)) < tk_maxExchanges t"
    and "tk_maxExchanges (makePendingRoom (ord (mkeys (tk_pending t))) t) = tk_maxExchanges t"
proof -
  have *: "tracker_ok (makePendingRoom (ord (mkeys (tk_pending t))) t) \<and>
    length (tk_pending (makePendingRoom (ord (mkeys (tk_pending t))) t)) < tk_maxExchanges t \<and>
    tk_maxExchanges (makePendingRoom (ord (mkeys (tk_pending t))) t) = tk_maxExchanges t"
  proof (cases "length (tk_pending t) < tk_maxExchanges t")
    case False
    then have "tk_pending t \<noteq> []" using assms(1) by (auto simp: tracker_ok_def)
    from oldest_pending_Some [OF this visits_set [OF assms(2)]] obtain k x where
      o: "oldest_pending (ord (mkeys (tk_pending t))) (tk_pending t) = Some (k, x)" "mget (tk_pending t) k = Some x" by blast
    have "length (mdel k (tk_pending t)) < tk_maxExchanges t"
      using length_mdel_less [OF o(2)] assms(1) by (simp add: tracker_ok_def)
    with o False tracker_ok_time_out [OF assms(1)] show ?thesis by (simp add: makePendingRoom_def)
  qed (use assms in \<open>simp add: makePendingRoom_def\<close>)
  from * show "tracker_ok (makePendingRoom (ord (mkeys (tk_pending t))) t)" by blast
  from * show "length (tk_pending (makePendingRoom (ord (mkeys (tk_pending t))) t)) < tk_maxExchanges t" by blast
  from * show "tk_maxExchanges (makePendingRoom (ord (mkeys (tk_pending t))) t) = tk_maxExchanges t" by blast
qed

lemma tracker_ok_telemetry [simp]: "tracker_ok (t\<lparr> tk_telemetry := tel \<rparr>) = tracker_ok t"
  by (simp add: tracker_ok_def)

lemma key_matches_new: "key_matches (query_key ob cx (pc_Direction cx)) (new_exchange ob cx)"
  by (simp add: key_matches_def query_key_def new_exchange_def)

lemma tracker_ok_put:
  assumes "tracker_ok t" and "length (tk_pending t) < tk_maxExchanges t" and "key_matches k x"
  shows "tracker_ok (t\<lparr> tk_pending := mput k x (tk_pending t) \<rparr>)"
  using assms mput_forall [of "tk_pending t" key_matches k x] by (auto simp: tracker_ok_def length_mput)

lemma tracker_ok_append: "tracker_ok t \<Longrightarrow> tracker_ok (appendLocked x t)"
  using exchange_log.push_length by (simp add: tracker_ok_def appendLocked_def)

lemma tracker_ok_del: "tracker_ok t \<Longrightarrow> tracker_ok (t\<lparr> tk_pending := mdel k (tk_pending t) \<rparr>)"
  using mdel_forall [of "tk_pending t" key_matches k] length_mdel_le [of k "tk_pending t"]
  by (auto simp: tracker_ok_def intro: order_trans)

lemma tracker_ok_rtt [simp]: "tracker_ok (t\<lparr> tk_totalRTT := r, tk_rttCount := c \<rparr>) = tracker_ok t"
  by (simp add: tracker_ok_def)

lemma tracker_ok_observe:
  assumes "tracker_ok t" and "visits ord"
  shows "tracker_ok (snd (tracker_observe ord ob cx t))"
proof (cases "ob_IsResponse ob")
  case True
  have "tracker_ok (snd (observeResponse ob cx u))" if "tracker_ok u" for u
    using that tracker_ok_del tracker_ok_append
    by (auto simp: observeResponse_def Let_def split: option.splits)
  with True assms(1) show ?thesis by (simp add: tracker_observe_def split: prod.splits) (metis snd_conv tracker_ok_telemetry)
next
  case False
  let ?t1 = "t\<lparr> tk_telemetry := (tk_telemetry t)\<lparr> dt_Queries := dt_Queries (tk_telemetry t) + 1 \<rparr> \<rparr>"
  have t1: "tracker_ok ?t1" using assms(1) by simp
  note room = makePendingRoom_ok [OF t1 assms(2)]
  have "tracker_ok ((makePendingRoom (ord (mkeys (tk_pending ?t1))) ?t1)\<lparr> tk_pending :=
      mput (query_key ob cx (pc_Direction cx)) (new_exchange ob cx) (tk_pending (makePendingRoom (ord (mkeys (tk_pending ?t1))) ?t1)) \<rparr>)"
    using room by (intro tracker_ok_put key_matches_new) simp_all
  with False t1 show ?thesis by (simp add: tracker_observe_def Let_def)
qed

lemma tracker_ok_expire: "tracker_ok t \<Longrightarrow> tracker_ok (snd (tracker_expire ord now t))"
proof -
  have "tracker_ok u \<Longrightarrow> tracker_ok (snd (fold (expire_one now) ks (out, u)))" for ks out u
  proof (induction ks arbitrary: out u)
    case (Cons k ks)
    obtain out1 u1 where e: "expire_one now k (out, u) = (out1, u1)" by (metis prod.exhaust)
    have "tracker_ok u1" using e Cons.prems tracker_ok_time_out by (auto simp: expire_one_def split: option.splits if_splits)
    with Cons.IH e show ?case by simp
  qed simp
  then show "tracker_ok t \<Longrightarrow> tracker_ok (snd (tracker_expire ord now t))" by (simp add: tracker_expire_def)
qed

lemma tracker_ok_reset: "tracker_ok t \<Longrightarrow> tracker_ok (tracker_reset t)"
  by (simp add: tracker_ok_def tracker_reset_def)

datatype tracker_op = TrackMessage observation parse_context | TrackExpire time | TrackReset

fun tracker_step :: "(exchange_key list \<Rightarrow> exchange_key list) \<Rightarrow> tracker_op \<Rightarrow> tracker \<Rightarrow> tracker" where
  "tracker_step ord (TrackMessage ob cx) t = snd (tracker_observe ord ob cx t)"
| "tracker_step ord (TrackExpire now) t = snd (tracker_expire ord now t)"
| "tracker_step ord TrackReset t = tracker_reset t"

interpretation tracker_machine: invariant_machine "tracker_step ord" "\<lambda>t. visits ord \<longrightarrow> tracker_ok t" "NewTracker timeout n"
  for ord timeout n
proof
  show "visits ord \<longrightarrow> tracker_ok (NewTracker timeout n)"
    by (simp add: tracker_ok_def NewTracker_def defaultMaxExchanges_def)
  show "visits ord \<longrightarrow> tracker_ok (tracker_step ord opn t)" if "visits ord \<longrightarrow> tracker_ok t" for opn t
    using that tracker_ok_observe tracker_ok_expire tracker_ok_reset by (cases opn) simp_all
qed

text \<open>
  Whatever messages, expiries and resets arrive, the tracker never holds more pending queries,
  nor remembers more exchanges, than its limit; and every pending exchange is stored under the
  conversation, transaction, question and direction it belongs to.
\<close>

theorem dns_tracker_bounded:
  assumes "visits ord"
  shows "let t = fold (tracker_step ord) ops (NewTracker timeout n); limit = (if n \<le> 0 then 5000 else nat n)
    in length (tk_pending t) \<le> limit \<and> length (tk_exchanges t) \<le> limit \<and>
       (\<forall>k x. mget (tk_pending t) k = Some x \<longrightarrow> key_matches k x)"
proof -
  have lim: "tk_maxExchanges (tracker_step ord opn t) = tk_maxExchanges t" for opn t
  proof -
    have room: "tk_maxExchanges (makePendingRoom ks u) = tk_maxExchanges u" for ks u
      by (auto simp: makePendingRoom_def split: option.splits)
    have ex: "tk_maxExchanges (snd (fold (expire_one now) ks (out, u))) = tk_maxExchanges u" for now ks out u
      by (induction ks arbitrary: out u) (auto simp: expire_one_def split: option.splits)
    show ?thesis
      by (cases opn) (auto simp: tracker_observe_def observeResponse_def appendLocked_def Let_def room ex
          tracker_expire_def tracker_reset_def split: option.splits)
  qed
  have "tk_maxExchanges (fold (tracker_step ord) ops (NewTracker timeout n)) = (if n \<le> 0 then 5000 else nat n)"
    by (induction ops rule: rev_induct) (simp_all add: lim NewTracker_def defaultMaxExchanges_def)
  with tracker_machine.reachable_inv [of ord ops timeout n] assms show ?thesis
    by (auto simp: tracker_ok_def Let_def dest: mget_SomeD)
qed

theorem dns_tracker_bounded_witness:
  "let t = fold (tracker_step (\<lambda>ks. ks)) [TrackReset] (NewTracker 0 0); limit = (if (0::int) \<le> 0 then 5000 else nat 0)
    in length (tk_pending t) \<le> limit \<and> length (tk_exchanges t) \<le> limit \<and>
       (\<forall>k x. mget (tk_pending t) k = Some x \<longrightarrow> key_matches k x)"
  by (rule dns_tracker_bounded) (simp add: visits_def)

section \<open>A query and its response\<close>

lemma makePendingRoom_fields [simp]:
  "dt_Responses (tk_telemetry (makePendingRoom ks t)) = dt_Responses (tk_telemetry t)"
  "dt_Unmatched (tk_telemetry (makePendingRoom ks t)) = dt_Unmatched (tk_telemetry t)"
  by (auto simp: makePendingRoom_def split: option.splits)

lemma query_admitted:
  assumes "\<not> ob_IsResponse q" and "mget (tk_pending t) (query_key q cq (pc_Direction cq)) = None"
  shows "mget (tk_pending (snd (tracker_observe ord q cq t))) (query_key q cq (pc_Direction cq)) = Some (new_exchange q cq)"
    and "fst (tracker_observe ord q cq t) = None"
    and "dt_Unmatched (tk_telemetry (snd (tracker_observe ord q cq t))) = dt_Unmatched (tk_telemetry t)"
  using assms by (simp_all add: tracker_observe_def Let_def)

lemma count_response_Unmatched [simp]: "dt_Unmatched (count_response c tel) = dt_Unmatched tel"
  by (simp add: count_response_def Let_def)

lemma response_matched:
  assumes "ob_IsResponse r" and "mget (tk_pending t) (query_key r cr (opposite (pc_Direction cr))) = Some x"
  shows "fst (tracker_observe ord r cr t) = Some (complete r x)"
    and "mget (tk_pending (snd (tracker_observe ord r cr t))) (query_key r cr (opposite (pc_Direction cr))) = None"
    and "dt_Unmatched (tk_telemetry (snd (tracker_observe ord r cr t))) = dt_Unmatched (tk_telemetry t)"
  using assms by (simp_all add: tracker_observe_def observeResponse_def Let_def appendLocked_def)

lemma response_orphan:
  assumes "ob_IsResponse r" and "mget (tk_pending t) (query_key r cr (opposite (pc_Direction cr))) = None"
  shows "\<exists>x. fst (tracker_observe ord r cr t) = Some x \<and> dx_RTT x = 0 \<and> dx_RequestedAt x = 0"
    and "dt_Unmatched (tk_telemetry (snd (tracker_observe ord r cr t))) = dt_Unmatched (tk_telemetry t) + 1"
  using assms by (simp_all add: tracker_observe_def observeResponse_def Let_def appendLocked_def new_exchange_def)

text \<open>
  C14: a query that is not a retransmission, followed by the response with its transaction and
  question from the other side of the conversation, yields one exchange with the query's time
  and the elapsed time as its RTT, and leaves the query answered; a second copy of the response
  is counted as unmatched and gets no RTT.
\<close>

theorem dns_response_completes_query:
  assumes "\<not> ob_IsResponse q" and "ob_IsResponse r"
    and "pc_ConversationID cr = pc_ConversationID cq" and "pc_Direction cq = opposite (pc_Direction cr)"
    and "ob_TransactionID r = ob_TransactionID q" and "ob_QueryName r = ob_QueryName q" and "ob_QueryType r = ob_QueryType q"
    and "mget (tk_pending t) (query_key q cq (pc_Direction cq)) = None"
    and "ob_Timestamp q \<le> ob_Timestamp r"
  shows "let (none, t1) = tracker_observe ord q cq t; (got, t2) = tracker_observe ord r cr t1;
             (again, t3) = tracker_observe ord r cr t2
    in none = None \<and>
       got = Some ((new_exchange q cq)\<lparr> dx_RespondedAt := ob_Timestamp r,
                     dx_RTT := time_sub (ob_Timestamp r) (ob_Timestamp q), dx_ResponseCode := ob_ResponseCode r,
                     dx_Answers := ob_AnswerCount r, dx_TTL := ob_TTL r \<rparr>) \<and>
       mget (tk_pending t2) (query_key q cq (pc_Direction cq)) = None \<and>
       dt_Unmatched (tk_telemetry t2) = dt_Unmatched (tk_telemetry t) \<and>
       dt_Unmatched (tk_telemetry t3) = dt_Unmatched (tk_telemetry t) + 1 \<and>
       (\<exists>y. again = Some y \<and> dx_RTT y = 0)"
proof -
  have k: "query_key r cr (opposite (pc_Direction cr)) = query_key q cq (pc_Direction cq)"
    using assms by (simp add: query_key_def)
  obtain n1 t1 where o1: "tracker_observe ord q cq t = (n1, t1)" by (metis prod.exhaust)
  obtain n2 t2 where o2: "tracker_observe ord r cr t1 = (n2, t2)" by (metis prod.exhaust)
  obtain n3 t3 where o3: "tracker_observe ord r cr t2 = (n3, t3)" by (metis prod.exhaust)
  note s1 = query_admitted [OF assms(1) assms(8), of ord, unfolded o1, simplified]
  note s2 = response_matched [OF assms(2), of t1 cr "new_exchange q cq" ord, unfolded k o2, simplified, OF s1(1)]
  note s3 = response_orphan [OF assms(2), of t2 cr ord, unfolded k o3, simplified, OF s2(2)]
  have "complete r (new_exchange q cq) = (new_exchange q cq)\<lparr> dx_RespondedAt := ob_Timestamp r,
      dx_RTT := time_sub (ob_Timestamp r) (ob_Timestamp q), dx_ResponseCode := ob_ResponseCode r,
      dx_Answers := ob_AnswerCount r, dx_TTL := ob_TTL r \<rparr>"
    using assms(9) by (simp add: complete_def new_exchange_def)
  with s1 s2 s3 show ?thesis by (simp add: o1 o2 o3) blast
qed

definition sample_query :: observation where
  "sample_query = zero_observation\<lparr> ob_TransactionID := 7, ob_QueryName := ''plc.local'', ob_QueryType := 1, ob_Timestamp := 100 \<rparr>"

definition sample_context :: "udp_direction \<Rightarrow> parse_context" where
  "sample_context d = \<lparr> pc_ConversationID = ''c1'', pc_FlowID = ''f1'', pc_SensorID = ''s1'', pc_Direction = d,
     pc_PacketIndex = 1, pc_StartedAt = 0, pc_RTT = 0 \<rparr>"

theorem dns_response_completes_query_witness:
  "let q = sample_query; r = sample_query\<lparr> ob_IsResponse := True, ob_Timestamp := 130 \<rparr>;
       cq = sample_context DirectionAToB; cr = sample_context DirectionBToA in
   let (none, t1) = tracker_observe (\<lambda>ks. ks) q cq (NewTracker 0 0); (got, t2) = tracker_observe (\<lambda>ks. ks) r cr t1;
             (again, t3) = tracker_observe (\<lambda>ks. ks) r cr t2
    in none = None \<and>
       got = Some ((new_exchange q cq)\<lparr> dx_RespondedAt := ob_Timestamp r,
                     dx_RTT := time_sub (ob_Timestamp r) (ob_Timestamp q), dx_ResponseCode := ob_ResponseCode r,
                     dx_Answers := ob_AnswerCount r, dx_TTL := ob_TTL r \<rparr>) \<and>
       mget (tk_pending t2) (query_key q cq (pc_Direction cq)) = None \<and>
       dt_Unmatched (tk_telemetry t2) = dt_Unmatched (tk_telemetry (NewTracker 0 0)) \<and>
       dt_Unmatched (tk_telemetry t3) = dt_Unmatched (tk_telemetry (NewTracker 0 0)) + 1 \<and>
       (\<exists>y. again = Some y \<and> dx_RTT y = 0)"
proof -
  let ?q = sample_query and ?r = "sample_query\<lparr> ob_IsResponse := True, ob_Timestamp := 130 \<rparr>"
  let ?cq = "sample_context DirectionAToB" and ?cr = "sample_context DirectionBToA"
  have h: "\<not> ob_IsResponse ?q" "ob_IsResponse ?r" "pc_ConversationID ?cr = pc_ConversationID ?cq"
    "pc_Direction ?cq = opposite (pc_Direction ?cr)" "ob_TransactionID ?r = ob_TransactionID ?q"
    "ob_QueryName ?r = ob_QueryName ?q" "ob_QueryType ?r = ob_QueryType ?q"
    "mget (tk_pending (NewTracker 0 0)) (query_key ?q ?cq (pc_Direction ?cq)) = None"
    "ob_Timestamp ?q \<le> ob_Timestamp ?r"
    by (simp_all add: sample_query_def sample_context_def zero_observation_def NewTracker_def)
  show ?thesis
    unfolding Let_def [of sample_query] Let_def [of "sample_context _"] Let_def [of "_\<lparr> ob_Timestamp := _ \<rparr>"]
    by (rule dns_response_completes_query [OF h])
qed

section \<open>Conservation\<close>

text \<open>
  Queries the tracker has seen, less those it discarded as retransmissions, less those that
  ended in a match or a time-out, less those still pending.  The counters are 64-bit words and
  wrap; so does the balance.
\<close>

definition retransmission :: "tracker_op \<Rightarrow> tracker \<Rightarrow> bool" where
  "retransmission opn t = (case opn of
     TrackMessage ob cx \<Rightarrow> \<not> ob_IsResponse ob \<and> mget (tk_pending t) (query_key ob cx (pc_Direction cx)) \<noteq> None
   | _ \<Rightarrow> False)"

text \<open>The retransmissions of a run since its last reset.\<close>

fun retransmissions :: "(exchange_key list \<Rightarrow> exchange_key list) \<Rightarrow> tracker_op list \<Rightarrow> tracker \<Rightarrow> u64 \<Rightarrow> u64" where
  "retransmissions ord [] t r = r"
| "retransmissions ord (opn # ops) t r = retransmissions ord ops (tracker_step ord opn t)
     (if opn = TrackReset then 0 else if retransmission opn t then r + 1 else r)"

definition balance :: "tracker \<Rightarrow> u64" where
  "balance t = dt_Queries (tk_telemetry t) + dt_Unmatched (tk_telemetry t) - dt_Responses (tk_telemetry t)
     - dt_Timeouts (tk_telemetry t) - of_nat (length (tk_pending t))"

lemma balance_time_out:
  assumes "wf_map (tk_pending t)" and "mget (tk_pending t) k = Some x"
  shows "balance (time_out k x t) = balance t"
proof -
  have "(of_nat (length (tk_pending t)) :: u64) = of_nat (length (mdel k (tk_pending t))) + 1"
    using length_mdel [OF assms] by (metis of_nat_Suc add.commute)
  then show ?thesis by (simp add: balance_def time_out_def appendLocked_def)
qed

lemma balance_room:
  assumes "tracker_ok t" and "visits ord"
  shows "balance (makePendingRoom (ord (mkeys (tk_pending t))) t) = balance t"
proof (cases "length (tk_pending t) < tk_maxExchanges t")
  case False
  then have "tk_pending t \<noteq> []" using assms(1) by (auto simp: tracker_ok_def)
  from oldest_pending_Some [OF this visits_set [OF assms(2)]] obtain k x where
    o: "oldest_pending (ord (mkeys (tk_pending t))) (tk_pending t) = Some (k, x)" "mget (tk_pending t) k = Some x" by blast
  with False assms(1) balance_time_out [of t k x] show ?thesis by (simp add: makePendingRoom_def tracker_ok_def)
qed (simp add: makePendingRoom_def)

lemma room_absent:
  "mget (tk_pending t) k = None \<Longrightarrow> mget (tk_pending (makePendingRoom ks t)) k = None"
  by (auto simp: makePendingRoom_def split: option.splits)

lemma balance_response:
  assumes "wf_map (tk_pending t)" and "ob_IsResponse ob"
  shows "balance (snd (tracker_observe ord ob cx t)) = balance t"
proof (cases "mget (tk_pending t) (query_key ob cx (opposite (pc_Direction cx)))")
  case None
  with assms(2) show ?thesis
    by (simp add: tracker_observe_def observeResponse_def Let_def appendLocked_def balance_def count_response_def)
next
  case (Some x)
  let ?k = "query_key ob cx (opposite (pc_Direction cx))"
  have "(of_nat (length (tk_pending t)) :: u64) = of_nat (length (mdel ?k (tk_pending t))) + 1"
    using length_mdel [OF assms(1) Some] by (metis of_nat_Suc add.commute)
  with assms(2) Some show ?thesis
    by (simp add: tracker_observe_def observeResponse_def Let_def appendLocked_def balance_def count_response_def)
qed

lemma balance_query:
  assumes "tracker_ok t" and "visits ord" and "\<not> ob_IsResponse ob"
  shows "balance (snd (tracker_observe ord ob cx t)) =
    balance t + (if retransmission (TrackMessage ob cx) t then 1 else 0)"
proof -
  let ?t1 = "t\<lparr> tk_telemetry := (tk_telemetry t)\<lparr> dt_Queries := dt_Queries (tk_telemetry t) + 1 \<rparr> \<rparr>"
  have t1: "balance ?t1 = balance t + 1" by (simp add: balance_def)
  show ?thesis
  proof (cases "mget (tk_pending t) (query_key ob cx (pc_Direction cx))")
    case (Some x)
    with assms(3) t1 show ?thesis by (simp add: tracker_observe_def retransmission_def Let_def)
  next
    case None
    let ?t2 = "makePendingRoom (ord (mkeys (tk_pending ?t1))) ?t1"
    have "balance ?t2 = balance t + 1" using balance_room [of ?t1 ord] assms(1,2) t1 by simp
    moreover have "mget (tk_pending ?t2) (query_key ob cx (pc_Direction cx)) = None"
      using room_absent [of ?t1] None by simp
    then have "balance (?t2\<lparr> tk_pending := mput (query_key ob cx (pc_Direction cx)) (new_exchange ob cx) (tk_pending ?t2) \<rparr>) = balance ?t2 - 1"
      by (simp add: balance_def length_mput)
    ultimately show ?thesis using assms(3) None by (simp add: tracker_observe_def retransmission_def Let_def)
  qed
qed

lemma balance_expire: "tracker_ok t \<Longrightarrow> balance (snd (tracker_expire ord now t)) = balance t"
proof -
  have "tracker_ok u \<Longrightarrow> balance (snd (fold (expire_one now) ks (out, u))) = balance u" for ks out u
  proof (induction ks arbitrary: out u)
    case (Cons k ks)
    obtain out1 u1 where e: "expire_one now k (out, u) = (out1, u1)" by (metis prod.exhaust)
    have "tracker_ok u1" using e Cons.prems tracker_ok_time_out by (auto simp: expire_one_def split: option.splits if_splits)
    moreover have "balance u1 = balance u"
      using e Cons.prems balance_time_out [of u k]
      by (auto simp: expire_one_def tracker_ok_def split: option.splits if_splits)
    ultimately show ?case using Cons.IH [of u1 out1] e by simp
  qed simp
  then show "tracker_ok t \<Longrightarrow> balance (snd (tracker_expire ord now t)) = balance t" by (simp add: tracker_expire_def)
qed

lemma balance_step:
  assumes "tracker_ok t" and "visits ord"
  shows "balance (tracker_step ord opn t) =
    (if opn = TrackReset then 0 else balance t + (if retransmission opn t then 1 else 0))"
proof (cases opn)
  case (TrackMessage ob cx)
  with assms show ?thesis
    using balance_query [OF assms, of ob cx] balance_response [of t ob ord cx]
    by (cases "ob_IsResponse ob") (simp_all add: retransmission_def tracker_ok_def)
next
  case (TrackExpire now)
  with assms balance_expire show ?thesis by (simp add: retransmission_def)
next
  case TrackReset
  then show ?thesis by (simp add: balance_def tracker_reset_def zero_telemetry_def)
qed

lemma tracker_ok_step: "visits ord \<Longrightarrow> tracker_ok t \<Longrightarrow> tracker_ok (tracker_step ord opn t)"
  by (cases opn) (simp_all add: tracker_ok_observe tracker_ok_expire tracker_ok_reset)

lemma balance_run:
  assumes "visits ord" and "tracker_ok t" and "balance t = r"
  shows "balance (fold (tracker_step ord) ops t) = retransmissions ord ops t r"
  using assms(2,3)
proof (induction ops arbitrary: t r)
  case (Cons opn ops)
  have "balance (tracker_step ord opn t) = (if opn = TrackReset then 0 else if retransmission opn t then r + 1 else r)"
    using balance_step [OF Cons.prems(1) assms(1), of opn] Cons.prems(2) by simp
  from Cons.IH [OF tracker_ok_step [OF assms(1) Cons.prems(1)] this] show ?case by simp
qed simp

text \<open>
  C15: no query is lost or counted twice: in every run the queries seen since the last reset are
  the retransmissions, those still pending, those timed out (by expiry or to make room) and
  those answered, the responses that were not unmatched.
\<close>

theorem dns_queries_conserved:
  assumes "visits ord"
  shows "let t = fold (tracker_step ord) ops (NewTracker timeout n); tel = tk_telemetry t
    in dt_Queries tel = retransmissions ord ops (NewTracker timeout n) 0 + of_nat (length (tk_pending t))
         + dt_Timeouts tel + (dt_Responses tel - dt_Unmatched tel)"
proof -
  have "tracker_ok (NewTracker timeout n)" using tracker_machine.start_inv [of ord timeout n] assms by simp
  moreover have "balance (NewTracker timeout n) = 0" by (simp add: balance_def NewTracker_def zero_telemetry_def)
  ultimately have "balance (fold (tracker_step ord) ops (NewTracker timeout n)) = retransmissions ord ops (NewTracker timeout n) 0"
    using balance_run [OF assms] by blast
  then show ?thesis by (simp add: balance_def Let_def algebra_simps)
qed

theorem dns_queries_conserved_witness:
  "let ops = [TrackMessage sample_query (sample_context DirectionAToB), TrackMessage sample_query (sample_context DirectionAToB)];
       t = fold (tracker_step (\<lambda>ks. ks)) ops (NewTracker 0 0); tel = tk_telemetry t
    in dt_Queries tel = retransmissions (\<lambda>ks. ks) ops (NewTracker 0 0) 0 + of_nat (length (tk_pending t))
         + dt_Timeouts tel + (dt_Responses tel - dt_Unmatched tel)"
  unfolding Let_def [of "[_, _]"] by (rule dns_queries_conserved) (simp add: visits_def)

end
