(* ===== verification/Ics_Message.thy ===== *)
theory Ics_Message
  imports Core_Packet
begin

text \<open>
  internal/ics: the normalized message of an industrial protocol, its typed details, the
  semantic classification that every parser shares (\<open>setOperation\<close>), and the contract of a
  protocol parser.
\<close>

section \<open>Messages\<close>

text \<open>The dynamic types the parsers store in the details map.\<close>

datatype detail =
    D_int int
  | D_u8 u8
  | D_u16 u16
  | D_u32 u32
  | D_bool bool
  | D_string string
  | D_u16s "u16 list"
  | D_bools "bool list"

type_synonym details = "(string, detail) gomap"

record ics_message =
  im_Timestamp :: time
  im_FromAnalysis :: bool
  im_SrcIP :: string
  im_DstIP :: string
  im_SrcPort :: u16
  im_DstPort :: u16
  im_Protocol :: string
  im_FunctionCode :: u8
  im_FunctionName :: string
  im_IsException :: bool
  im_IsResponse :: bool
  im_UnitID :: u8
  im_Details :: details

text \<open>A parser rejects a packet (\<open>ok = false\<close>), returns a message, or panics.\<close>

type_synonym parsed = "ics_message option go"

abbreviation rejected :: parsed where "rejected \<equiv> go_ret None"
abbreviation accepted :: "ics_message \<Rightarrow> parsed" where "accepted m \<equiv> go_ret (Some m)"

definition newMessage :: "packet \<Rightarrow> string \<Rightarrow> ics_message" where
  "newMessage p protocol = \<lparr> im_Timestamp = pk_Timestamp p, im_FromAnalysis = pk_FromAnalysis p,
     im_SrcIP = pk_SrcIP p, im_DstIP = pk_DstIP p, im_SrcPort = pk_SrcPort p, im_DstPort = pk_DstPort p,
     im_Protocol = protocol, im_FunctionCode = 0, im_FunctionName = [], im_IsException = False,
     im_IsResponse = False, im_UnitID = 0,
     im_Details = mput ''payload_size'' (D_int (int (length (pk_AppPayload p)))) [] \<rparr>"

definition put_detail :: "string \<Rightarrow> detail \<Rightarrow> ics_message \<Rightarrow> ics_message" where
  "put_detail k v m = m\<lparr> im_Details := mput k v (im_Details m) \<rparr>"

text \<open>\<open>setOperation\<close>; its message is never nil in the program.\<close>

definition setOperation :: "string \<Rightarrow> bool \<Rightarrow> bool \<Rightarrow> bool \<Rightarrow> ics_message \<Rightarrow> ics_message" where
  "setOperation cls isWrite isCommand securityRelevant m =
     (let d1 = mput ''operation_class'' (D_string cls) (im_Details m);
          d2 = (if isWrite then mput ''is_write'' (D_bool True) d1 else d1);
          d3 = (if isCommand then mput ''is_command'' (D_bool True) d2 else d2);
          d4 = (if securityRelevant then mput ''security_relevant'' (D_bool True) d3 else d3)
      in m\<lparr> im_Details :=
        (if cls = ''program'' then mput ''is_programming'' (D_bool True) d4
         else if cls = ''mode'' then mput ''is_mode_change'' (D_bool True) d4
         else if cls = ''time'' then mput ''is_time_change'' (D_bool True) d4
         else if cls = ''config'' then mput ''is_config_change'' (D_bool True) d4
         else d4) \<rparr>)"

section \<open>Checked reads that report failure\<close>

text \<open>\<open>u16le\<close>, \<open>u16be\<close>, \<open>u32le\<close>: the offsets the program passes are never negative.\<close>

definition u16le :: "bytes \<Rightarrow> nat \<Rightarrow> u16 option" where
  "u16le b off = (if off + 2 > length b then None else rd_le16 b off)"

definition u16be :: "bytes \<Rightarrow> nat \<Rightarrow> u16 option" where
  "u16be b off = (if off + 2 > length b then None else rd_be16 b off)"

definition u32le :: "bytes \<Rightarrow> nat \<Rightarrow> u32 option" where
  "u32le b off = (if off + 4 > length b then None else rd_le32 b off)"

text \<open>A lookup of a Go map with string values; an absent key reads as the empty string.\<close>

definition name_of :: "('k, string) gomap \<Rightarrow> 'k \<Rightarrow> string" where
  "name_of m k = (case mget m k of None \<Rightarrow> [] | Some s \<Rightarrow> s)"

section \<open>Lemmas\<close>

definition detail_of :: "ics_message \<Rightarrow> string \<Rightarrow> detail option" where
  "detail_of m k = mget (im_Details m) k"

lemma detail_put [simp]: "detail_of (put_detail k v m) k' = (if k' = k then Some v else detail_of m k')"
  by (simp add: detail_of_def put_detail_def)

lemma detail_new [simp]:
  "detail_of (newMessage p n) k = (if k = ''payload_size'' then Some (D_int (int (length (pk_AppPayload p)))) else None)"
  by (simp add: detail_of_def newMessage_def)

lemma detail_update [simp]:
  "detail_of (m\<lparr> im_FunctionCode := a \<rparr>) k = detail_of m k"
  "detail_of (m\<lparr> im_FunctionName := n \<rparr>) k = detail_of m k"
  "detail_of (m\<lparr> im_IsException := e \<rparr>) k = detail_of m k"
  "detail_of (m\<lparr> im_IsResponse := r \<rparr>) k = detail_of m k"
  "detail_of (m\<lparr> im_UnitID := u \<rparr>) k = detail_of m k"
  by (simp_all add: detail_of_def)

definition operation_keys :: "string list" where
  "operation_keys = [''operation_class'', ''is_write'', ''is_command'', ''security_relevant'', ''is_programming'',
     ''is_mode_change'', ''is_time_change'', ''is_config_change'']"

lemma detail_setOperation:
  "k \<notin> set operation_keys \<Longrightarrow> detail_of (setOperation c w x s m) k = detail_of m k"
  by (auto simp: setOperation_def detail_of_def operation_keys_def Let_def)

lemma detail_setOperation_keys [simp]:
  "detail_of (setOperation c w x s m) ''operation_class'' = Some (D_string c)"
  "detail_of (setOperation c w x s m) ''is_write'' = (if w then Some (D_bool True) else detail_of m ''is_write'')"
  "detail_of (setOperation c w x s m) ''is_command'' = (if x then Some (D_bool True) else detail_of m ''is_command'')"
  "detail_of (setOperation c w x s m) ''security_relevant'' =
     (if s then Some (D_bool True) else detail_of m ''security_relevant'')"
  by (simp_all add: setOperation_def detail_of_def Let_def)

lemma detail_setOperation_other [simp]:
  "detail_of (setOperation c w x s m) ''address'' = detail_of m ''address''"
  "detail_of (setOperation c w x s m) ''quantity'' = detail_of m ''quantity''"
  "detail_of (setOperation c w x s m) ''value'' = detail_of m ''value''"
  "detail_of (setOperation c w x s m) ''s7_area'' = detail_of m ''s7_area''"
  "detail_of (setOperation c w x s m) ''s7_db'' = detail_of m ''s7_db''"
  "detail_of (setOperation c w x s m) ''payload_size'' = detail_of m ''payload_size''"
  "detail_of (setOperation c w x s m) ''and_mask'' = detail_of m ''and_mask''"
  "detail_of (setOperation c w x s m) ''or_mask'' = detail_of m ''or_mask''"
  by (simp_all add: detail_setOperation operation_keys_def)

section \<open>What every parser keeps\<close>

text \<open>A message reports the endpoints, the time and the origin of its packet.\<close>

definition describes :: "packet \<Rightarrow> string \<Rightarrow> ics_message \<Rightarrow> bool" where
  "describes p n m \<longleftrightarrow> im_Timestamp m = pk_Timestamp p \<and> im_FromAnalysis m = pk_FromAnalysis p \<and>
     im_SrcIP m = pk_SrcIP p \<and> im_DstIP m = pk_DstIP p \<and> im_SrcPort m = pk_SrcPort p \<and> im_DstPort m = pk_DstPort p \<and>
     im_Protocol m = n"

lemma describes_new [simp]: "describes p n (newMessage p n)"
  by (simp add: describes_def newMessage_def)

lemma describes_update [simp]:
  "describes p n (put_detail k v m) = describes p n m"
  "describes p n (setOperation c w x s m) = describes p n m"
  "describes p n (m\<lparr> im_FunctionCode := a \<rparr>) = describes p n m"
  "describes p n (m\<lparr> im_FunctionName := fn \<rparr>) = describes p n m"
  "describes p n (m\<lparr> im_IsException := e \<rparr>) = describes p n m"
  "describes p n (m\<lparr> im_IsResponse := r \<rparr>) = describes p n m"
  "describes p n (m\<lparr> im_UnitID := u \<rparr>) = describes p n m"
  "describes p n (m\<lparr> im_Details := d \<rparr>) = describes p n m"
  by (simp_all add: describes_def put_detail_def setOperation_def Let_def)

text \<open>
  The operation a message was classified as: nothing is marked security-relevant that is not
  also marked as a write and as a command, and is of class program or mode.
\<close>

definition critical_ok :: "ics_message \<Rightarrow> bool" where
  "critical_ok m \<longleftrightarrow> (detail_of m ''security_relevant'' = Some (D_bool True) \<longrightarrow>
     detail_of m ''is_write'' = Some (D_bool True) \<and> detail_of m ''is_command'' = Some (D_bool True) \<and>
     (detail_of m ''operation_class'' = Some (D_string ''program'') \<or> detail_of m ''operation_class'' = Some (D_string ''mode'')))"

definition unclassified :: "ics_message \<Rightarrow> bool" where
  "unclassified m \<longleftrightarrow> (\<forall>k \<in> set operation_keys. detail_of m k = None)"

lemma unclassified_critical_ok: "unclassified m \<Longrightarrow> critical_ok m"
  by (simp add: unclassified_def critical_ok_def operation_keys_def)

lemma unclassified_new [simp]: "unclassified (newMessage p n)"
  by (simp add: unclassified_def operation_keys_def)

lemma unclassified_update [simp]:
  "unclassified (m\<lparr> im_FunctionCode := a \<rparr>) = unclassified m"
  "unclassified (m\<lparr> im_FunctionName := fn \<rparr>) = unclassified m"
  "unclassified (m\<lparr> im_IsException := e \<rparr>) = unclassified m"
  "unclassified (m\<lparr> im_IsResponse := r \<rparr>) = unclassified m"
  "unclassified (m\<lparr> im_UnitID := u \<rparr>) = unclassified m"
  by (simp_all add: unclassified_def)

lemma unclassified_put [simp]: "k \<notin> set operation_keys \<Longrightarrow> unclassified (put_detail k v m) = unclassified m"
  by (auto simp: unclassified_def)

lemma critical_ok_set:
  "unclassified m \<Longrightarrow> (s \<longrightarrow> w \<and> x \<and> (c = ''program'' \<or> c = ''mode'')) \<Longrightarrow> critical_ok (setOperation c w x s m)"
  by (auto simp: critical_ok_def unclassified_def operation_keys_def)

lemma critical_ok_put [simp]: "k \<notin> set operation_keys \<Longrightarrow> critical_ok (put_detail k v m) = critical_ok m"
  by (auto simp: critical_ok_def operation_keys_def)

text \<open>The contract of a protocol parser.\<close>

locale protocol_parser =
  fixes parser_name :: string and parse :: "packet \<Rightarrow> parsed"
  assumes parse_returns: "\<exists>r. parse p = Some r"
    and parse_describes: "parse p = accepted m \<Longrightarrow> describes p parser_name m"
    and parse_critical: "parse p = accepted m \<Longrightarrow> critical_ok m"
    and parse_nonempty: "parse p = accepted m \<Longrightarrow> pk_AppPayload p \<noteq> []"
begin

lemma parse_cases:
  obtains (Rejected) "parse p = rejected" | (Accepted) m where "parse p = accepted m" "describes p parser_name m" "critical_ok m"
  using parse_returns [of p] parse_describes parse_critical by (metis not_None_eq)

lemma parse_empty: "pk_AppPayload p = [] \<Longrightarrow> parse p = rejected"
  using parse_returns [of p] parse_nonempty [of p] by (metis not_None_eq)

end

text \<open>How a parser is shown to have the contract.\<close>

definition parser_result :: "packet \<Rightarrow> string \<Rightarrow> parsed \<Rightarrow> bool" where
  "parser_result p n r \<longleftrightarrow> r = rejected \<or> (\<exists>m. r = accepted m \<and> describes p n m \<and> critical_ok m)"

lemma parser_result_rejected [simp]: "parser_result p n rejected"
  by (simp add: parser_result_def)

lemma parser_result_accepted [simp]: "parser_result p n (accepted m) \<longleftrightarrow> describes p n m \<and> critical_ok m"
  by (auto simp: parser_result_def)

context protocol_parser begin

lemma parse_result: "parser_result p parser_name (parse p)"
  by (rule parse_cases [of p]) simp_all

end

lemma protocol_parserI:
  assumes "\<And>p. parser_result p n (parse p)" and "\<And>p. pk_AppPayload p = [] \<Longrightarrow> parse p = rejected"
  shows "protocol_parser n parse"
proof
  fix p
  show "\<exists>r. parse p = Some r" using assms(1) [of p] by (auto simp: parser_result_def)
  fix m assume m: "parse p = accepted m"
  then show "describes p n m" "critical_ok m" using assms(1) [of p] by simp_all
  show "pk_AppPayload p \<noteq> []" using m assms(2) [of p] by auto
qed

end
