(* ===== verification/Ics_Modbus.thy ===== *)
theory Ics_Modbus
  imports Ics_Message
begin

text \<open>
  internal/ics/modbus.go: the Modbus/TCP parser, the decoding of register and coil lists, and
  their round trips with the wire format of a write request.
\<close>

section \<open>The parser\<close>

definition modbusFunctionNames :: "(u8, string) gomap" where
  "modbusFunctionNames = [(1, ''ReadCoils''), (2, ''ReadDiscreteInputs''), (3, ''ReadHoldingRegisters''),
     (4, ''ReadInputRegisters''), (5, ''WriteSingleCoil''), (6, ''WriteSingleRegister''), (7, ''ReadExceptionStatus''),
     (15, ''WriteMultipleCoils''), (16, ''WriteMultipleRegisters''), (17, ''ReportServerID''), (22, ''MaskWriteRegister''),
     (23, ''ReadWriteMultipleRegisters''), (43, ''EncapsulatedInterfaceTransport'')]"

definition modbusFunctionName :: "u8 \<Rightarrow> string" where
  "modbusFunctionName fc = (case mget modbusFunctionNames fc of
     Some n \<Rightarrow> n
   | None \<Rightarrow> ''Unknown('' @ dec (unat fc) @ '')'')"

text \<open>The two loops; \<open>i\<close> is the loop variable and the second argument what is left of it.\<close>

fun read_registers :: "bytes \<Rightarrow> nat \<Rightarrow> nat \<Rightarrow> u16 list go" where
  "read_registers data i 0 = go_ret []"
| "read_registers data i (Suc n) =
     do { v \<leftarrow> rd_be16 data (i * 2); vs \<leftarrow> read_registers data (i + 1) n; go_ret (v # vs) }"

definition decodeModbusRegisters :: "bytes \<Rightarrow> u8 \<Rightarrow> u16 list go" where
  "decodeModbusRegisters data byteCount =
     (let n = (if unat byteCount > length data then length data else unat byteCount)
      in read_registers data 0 (n div 2))"

definition byte_bits :: "u8 \<Rightarrow> bool list" where
  "byte_bits b = map (\<lambda>k. b AND push_bit k 1 \<noteq> 0) [0..<8]"

fun read_bits :: "bytes \<Rightarrow> nat \<Rightarrow> nat \<Rightarrow> bool list go" where
  "read_bits data i 0 = go_ret []"
| "read_bits data i (Suc n) =
     do { b \<leftarrow> go_idx data i; bs \<leftarrow> read_bits data (i + 1) n; go_ret (byte_bits b @ bs) }"

definition decodeModbusBits :: "bytes \<Rightarrow> u8 \<Rightarrow> bool list go" where
  "decodeModbusBits data byteCount =
     (let n = (if unat byteCount > length data then length data else unat byteCount)
      in read_bits data 0 n)"

text \<open>
  The address and quantity of a 4-byte body, and the byte count and values of any other one, as
  read requests and responses are told apart.
\<close>

definition put_address_quantity :: "bytes \<Rightarrow> ics_message \<Rightarrow> ics_message go" where
  "put_address_quantity data m =
     do { a \<leftarrow> rd_be16 data 0; q \<leftarrow> rd_be16 data 2;
          go_ret (put_detail ''quantity'' (D_u16 q) (put_detail ''address'' (D_u16 a) m)) }"

definition decodeModbusData :: "u8 \<Rightarrow> bytes \<Rightarrow> ics_message \<Rightarrow> ics_message go" where
  "decodeModbusData fc data m =
     (if fc = 1 \<or> fc = 2 then
        (if length data = 4 then put_address_quantity data m
         else if length data \<ge> 1 then
           do { n \<leftarrow> go_idx data 0; rest \<leftarrow> go_from data 1; v \<leftarrow> decodeModbusBits rest n;
                go_ret (put_detail ''value'' (D_bools v) (put_detail ''byte_count'' (D_u8 n) m)) }
         else go_ret m)
      else if fc = 3 \<or> fc = 4 then
        (if length data = 4 then put_address_quantity data m
         else if length data \<ge> 1 then
           do { n \<leftarrow> go_idx data 0; rest \<leftarrow> go_from data 1; v \<leftarrow> decodeModbusRegisters rest n;
                go_ret (put_detail ''value'' (D_u16s v) (put_detail ''byte_count'' (D_u8 n) m)) }
         else go_ret m)
      else if fc = 5 then
        (if length data = 4 then
           do { a \<leftarrow> rd_be16 data 0; b \<leftarrow> go_idx data 2;
                go_ret (put_detail ''value'' (D_bool (b = 0xFF)) (put_detail ''address'' (D_u16 a) m)) }
         else go_ret m)
      else if fc = 6 then
        (if length data = 4 then
           do { a \<leftarrow> rd_be16 data 0; v \<leftarrow> rd_be16 data 2;
                go_ret (put_detail ''value'' (D_u16 v) (put_detail ''address'' (D_u16 a) m)) }
         else go_ret m)
      else if fc = 15 \<or> fc = 16 then
        (if length data \<ge> 4 then
           do { m1 \<leftarrow> put_address_quantity data m;
                if length data > 5 then
                  do { byteCount \<leftarrow> go_idx data 4; values \<leftarrow> go_from data 5;
                       if fc = 16 then
                         do { v \<leftarrow> decodeModbusRegisters values byteCount; go_ret (put_detail ''value'' (D_u16s v) m1) }
                       else
                         do { v \<leftarrow> decodeModbusBits values byteCount; go_ret (put_detail ''value'' (D_bools v) m1) } }
                else go_ret m1 }
         else go_ret m)
      else if fc = 22 then
        (if length data = 6 then
           do { a \<leftarrow> rd_be16 data 0; am \<leftarrow> rd_be16 data 2; om \<leftarrow> rd_be16 data 4;
                go_ret (put_detail ''or_mask'' (D_u16 om) (put_detail ''and_mask'' (D_u16 am) (put_detail ''address'' (D_u16 a) m))) }
         else go_ret m)
      else go_ret m)"

text \<open>The classification at the end of \<open>parseModbus\<close>.\<close>

definition modbus_operation :: "u8 \<Rightarrow> ics_message \<Rightarrow> ics_message" where
  "modbus_operation fc m =
     (if fc \<in> {5, 6, 15, 16, 22, 23} then setOperation ''write'' True True False m
      else if fc \<in> {1, 2, 3, 4, 7, 17, 43} then setOperation ''read'' False False False m
      else m)"

definition modbus_header :: "u16 \<Rightarrow> packet \<Rightarrow> u8 \<Rightarrow> u8 \<Rightarrow> ics_message" where
  "modbus_header modbusPort p unitID fc =
     (newMessage p ''Modbus'')\<lparr> im_UnitID := unitID, im_FunctionCode := fc AND NOT 0x80,
        im_FunctionName := modbusFunctionName (fc AND NOT 0x80), im_IsException := (fc AND 0x80 \<noteq> 0),
        im_IsResponse := (pk_SrcPort p = modbusPort) \<rparr>"

definition modbus_body :: "u8 \<Rightarrow> bytes \<Rightarrow> ics_message \<Rightarrow> ics_message go" where
  "modbus_body fc body m =
     (if fc AND 0x80 \<noteq> 0
      then (if length body \<ge> 1
            then do { c \<leftarrow> go_idx body 0; go_ret (put_detail ''exception_code'' (D_u8 c) m) }
            else go_ret m)
      else decodeModbusData (fc AND NOT 0x80) body m)"

definition parseModbus :: "u16 \<Rightarrow> packet \<Rightarrow> parsed" where
  "parseModbus modbusPort p =
     (let data = pk_AppPayload p in
      if length data < 8 then rejected
      else do {
        protocolID \<leftarrow> rd_be16 data 2;
        if protocolID \<noteq> 0 then rejected
        else do {
          unitID \<leftarrow> go_idx data 6;
          pdu \<leftarrow> go_from data 7;
          fc \<leftarrow> go_idx pdu 0;
          body \<leftarrow> go_from pdu 1;
          m \<leftarrow> modbus_body fc body (modbus_header modbusPort p unitID fc);
          accepted (modbus_operation (fc AND NOT 0x80) m)
        }
      })"

section \<open>The parser never panics\<close>

lemma read_registers_total: "i * 2 + n * 2 \<le> length data \<Longrightarrow> \<exists>vs. read_registers data i n = Some vs"
proof (induction n arbitrary: i)
  case (Suc n)
  then have "(i + 1) * 2 + n * 2 \<le> length data" by simp
  from Suc.IH [OF this] Suc.prems show ?case by auto
qed simp

lemma decodeModbusRegisters_total: "\<exists>vs. decodeModbusRegisters data n = Some vs"
  unfolding decodeModbusRegisters_def Let_def by (rule read_registers_total) auto

lemma read_bits_total: "i + n \<le> length data \<Longrightarrow> \<exists>vs. read_bits data i n = Some vs"
proof (induction n arbitrary: i)
  case (Suc n)
  then have "(i + 1) + n \<le> length data" by simp
  from Suc.IH [OF this] Suc.prems show ?case by auto
qed simp

lemma decodeModbusBits_total: "\<exists>vs. decodeModbusBits data n = Some vs"
  unfolding decodeModbusBits_def Let_def by (rule read_bits_total) auto

text \<open>What decoding a body does to a message: it only adds details of its own.\<close>

definition decoded_from :: "ics_message \<Rightarrow> ics_message \<Rightarrow> bool" where
  "decoded_from m m' \<longleftrightarrow> (\<forall>p n. describes p n m' = describes p n m) \<and> unclassified m' = unclassified m \<and>
     critical_ok m' = critical_ok m"

lemma decoded_from_refl [simp]: "decoded_from m m"
  by (simp add: decoded_from_def)

lemma decoded_from_put: "k \<notin> set operation_keys \<Longrightarrow> decoded_from m m' \<Longrightarrow> decoded_from m (put_detail k v m')"
  by (simp add: decoded_from_def)

lemma put_address_quantity_ok:
  "length data \<ge> 4 \<Longrightarrow> \<exists>m'. put_address_quantity data m = Some m' \<and> decoded_from m m'"
  by (auto simp: put_address_quantity_def operation_keys_def intro!: decoded_from_put)

lemma decodeModbusData_ok: "\<exists>m'. decodeModbusData fc data m = Some m' \<and> decoded_from m m'"
proof -
  have keys: "''value'' \<notin> set operation_keys" "''byte_count'' \<notin> set operation_keys" "''address'' \<notin> set operation_keys"
    "''or_mask'' \<notin> set operation_keys" "''and_mask'' \<notin> set operation_keys"
    by (simp_all add: operation_keys_def)
  note put = keys [THEN decoded_from_put]
  consider (bits) "fc = 1 \<or> fc = 2" | (regs) "fc = 3 \<or> fc = 4" | (coil) "fc = 5" | (reg) "fc = 6"
    | (many) "fc = 15 \<or> fc = 16" | (mask) "fc = 22" | (other) "fc \<notin> {1, 2, 3, 4, 5, 6, 15, 16, 22}" by auto
  then show ?thesis
  proof cases
    case bits
    obtain v where "decodeModbusBits (drop 1 data) (data ! 0) = Some v" using decodeModbusBits_total by blast
    with bits put_address_quantity_ok [of data m] show ?thesis by (auto simp: decodeModbusData_def Suc_le_eq intro!: put)
  next
    case regs
    obtain v where "decodeModbusRegisters (drop 1 data) (data ! 0) = Some v" using decodeModbusRegisters_total by blast
    with regs put_address_quantity_ok [of data m] show ?thesis by (auto simp: decodeModbusData_def Suc_le_eq intro!: put)
  next
    case many
    obtain v where v: "decodeModbusRegisters (drop 5 data) (data ! 4) = Some v" using decodeModbusRegisters_total by blast
    obtain u where u: "decodeModbusBits (drop 5 data) (data ! 4) = Some u" using decodeModbusBits_total by blast
    show ?thesis
    proof (cases "length data \<ge> 4")
      case True
      from put_address_quantity_ok [OF this, of m] obtain m1 where
        "put_address_quantity data m = Some m1" "decoded_from m m1" by blast
      with True many u v show ?thesis
        by (cases "length data > 5"; cases "fc = 16") (auto simp: decodeModbusData_def intro!: put)
    qed (use many in \<open>auto simp: decodeModbusData_def\<close>)
  qed (auto simp: decodeModbusData_def intro!: put)
qed

lemma modbus_body_ok: "\<exists>m'. modbus_body fc body m = Some m' \<and> decoded_from m m'"
  using decodeModbusData_ok [of "fc AND NOT 0x80" body m]
  by (cases "fc AND 0x80 = 0"; cases "length body \<ge> 1")
    (simp_all add: modbus_body_def decoded_from_put operation_keys_def Suc_le_eq)

lemma modbus_operation_ok: "unclassified m \<Longrightarrow> critical_ok (modbus_operation fc m)"
  using critical_ok_set [of m False] unclassified_critical_ok [of m] by (simp add: modbus_operation_def)

lemma describes_modbus_operation [simp]: "describes p n (modbus_operation fc m) = describes p n m"
  by (simp add: modbus_operation_def)

lemma modbus_header_ok [simp]: "unclassified (modbus_header port p u fc)" "describes p ''Modbus'' (modbus_header port p u fc)"
  by (simp_all add: modbus_header_def)

text \<open>The parser on a payload with an MBAP header.\<close>

lemma parseModbus_mbap:
  assumes "length (pk_AppPayload p) \<ge> 8" and "rd_be16 (pk_AppPayload p) 2 = Some 0"
  shows "parseModbus port p = do {
    m \<leftarrow> modbus_body (pk_AppPayload p ! 7) (drop 8 (pk_AppPayload p))
           (modbus_header port p (pk_AppPayload p ! 6) (pk_AppPayload p ! 7));
    accepted (modbus_operation (pk_AppPayload p ! 7 AND NOT 0x80) m) }"
  using assms unfolding parseModbus_def Let_def by (simp del: rd_be16_ok)

lemma parseModbus_rejects:
  assumes "\<not> (length (pk_AppPayload p) \<ge> 8 \<and> rd_be16 (pk_AppPayload p) 2 = Some 0)"
  shows "parseModbus port p = rejected"
  using assms by (auto simp: parseModbus_def Let_def)

lemma parseModbus_ok: "parser_result p ''Modbus'' (parseModbus port p)"
proof (cases "length (pk_AppPayload p) \<ge> 8 \<and> rd_be16 (pk_AppPayload p) 2 = Some 0")
  case False
  then show ?thesis by (simp add: parseModbus_rejects)
next
  case True
  let ?h = "modbus_header port p (pk_AppPayload p ! 6) (pk_AppPayload p ! 7)"
  obtain m where m: "modbus_body (pk_AppPayload p ! 7) (drop 8 (pk_AppPayload p)) ?h = Some m" "decoded_from ?h m"
    using modbus_body_ok by blast
  then have "unclassified m" "describes p ''Modbus'' m" by (simp_all add: decoded_from_def)
  then show ?thesis using True m(1) by (simp add: parser_result_def parseModbus_mbap modbus_operation_ok del: rd_be16_ok)
qed

interpretation modbus: protocol_parser "''Modbus''" "parseModbus port" for port
  by (rule protocol_parserI) (rule parseModbus_ok, simp add: parseModbus_def)

section \<open>Round trips\<close>

lemma read_registers_encode:
  "read_registers (concat (map u16_bytes us) @ concat (map u16_bytes vs) @ ys) (length us) (length vs) = Some vs"
proof (induction vs arbitrary: us)
  case (Cons v vs)
  have len: "length (concat (map u16_bytes us)) = length us * 2" for us by (induction us) simp_all
  have "rd_be16 (concat (map u16_bytes us) @ concat (map u16_bytes (v # vs)) @ ys) (length us * 2) = Some v"
    using rd_be16_at [of "concat (map u16_bytes us)" v "concat (map u16_bytes vs) @ ys"] by (simp add: len)
  moreover have "read_registers (concat (map u16_bytes us) @ concat (map u16_bytes (v # vs)) @ ys) (length us + 1) (length vs) = Some vs"
    using Cons.IH [of "us @ [v]"] by simp
  ultimately show ?case by simp
qed simp

lemma decodeModbusRegisters_encode:
  assumes "length vs * 2 < 256"
  shows "decodeModbusRegisters (concat (map u16_bytes vs) @ ys) (of_nat (length vs * 2)) = Some vs"
proof -
  have "length (concat (map u16_bytes vs)) = length vs * 2" by (induction vs) simp_all
  moreover have "unat (of_nat (length vs * 2) :: u8) = length vs * 2" by (rule unat_of_nat_small) (use assms in simp)
  ultimately show ?thesis using read_registers_encode [of "[]" vs ys]
    by (simp add: decodeModbusRegisters_def del: of_nat_mult)
qed

text \<open>Coils on the wire: eight to a byte, the first one in the lowest bit.\<close>

fun coil_byte :: "bool list \<Rightarrow> u8" where
  "coil_byte [] = 0"
| "coil_byte (b # bs) = 2 * coil_byte bs OR (if b then 1 else 0)"

function pack_coils :: "bool list \<Rightarrow> bytes" where
  "pack_coils bs = (if bs = [] then [] else coil_byte (take 8 bs) # pack_coils (drop 8 bs))"
  by pat_completeness auto
termination by (relation "measure length") auto

declare pack_coils.simps [simp del]

lemma bit_coil_byte: "k < 8 \<Longrightarrow> bit (coil_byte bs) k \<longleftrightarrow> k < length bs \<and> bs ! k"
proof (induction bs arbitrary: k)
  case (Cons b bs)
  then show ?case by (cases k) (auto simp: bit_simps)
qed simp

lemma byte_bits_bit: "byte_bits b = map (bit b) [0..<8]"
proof -
  have "(b AND push_bit k 1 \<noteq> 0) = bit b k" for k
    by (simp add: bit_iff_and_push_bit_not_eq_0)
  then show ?thesis by (simp add: byte_bits_def)
qed

lemma byte_bits_coil_byte: "length bs \<le> 8 \<Longrightarrow> byte_bits (coil_byte bs) = bs @ replicate (8 - length bs) False"
  by (rule nth_equalityI) (auto simp: byte_bits_bit bit_coil_byte nth_append)

lemma length_pack_coils: "length (pack_coils bs) = (length bs + 7) div 8"
proof (induction bs rule: pack_coils.induct)
  case (1 bs)
  have nil: "pack_coils [] = []" by (subst pack_coils.simps) simp
  show ?case
  proof (cases "length bs \<le> 8")
    case True
    then have "(length bs + 7) div 8 = 1" if "bs \<noteq> []" using that by (intro div_nat_eqI) (cases bs, auto)
    with True nil show ?thesis by (subst pack_coils.simps) simp
  next
    case False
    then have "(length bs + 7) div 8 = Suc ((length bs - 8 + 7) div 8)" by simp
    moreover have "bs \<noteq> []" using False by auto
    ultimately show ?thesis using 1 by (subst pack_coils.simps) simp
  qed
qed

lemma read_bits_pack:
  "\<exists>k < 8. read_bits (xs @ pack_coils bs @ ys) (length xs) (length (pack_coils bs)) = Some (bs @ replicate k False)"
proof (induction bs arbitrary: xs rule: pack_coils.induct)
  case (1 bs)
  show ?case
  proof (cases "bs = []")
    case True
    then show ?thesis by (subst (1 2) pack_coils.simps) auto
  next
    case False
    then have p: "pack_coils bs = coil_byte (take 8 bs) # pack_coils (drop 8 bs)" by (subst pack_coils.simps) simp
    from 1 [OF False, of "xs @ [coil_byte (take 8 bs)]"] obtain k where
      k: "k < 8" "read_bits (xs @ coil_byte (take 8 bs) # pack_coils (drop 8 bs) @ ys) (length xs + 1)
            (length (pack_coils (drop 8 bs))) = Some (drop 8 bs @ replicate k False)" by auto
    have b: "byte_bits (coil_byte (take 8 bs)) = take 8 bs @ replicate (8 - length bs) False"
      by (cases "length bs \<le> 8") (simp_all add: byte_bits_coil_byte)
    show ?thesis
    proof (cases "length bs \<le> 8")
      case True
      have "pack_coils [] = []" by (subst pack_coils.simps) simp
      then have "read_bits (xs @ pack_coils bs @ ys) (length xs) (length (pack_coils bs)) = Some (bs @ replicate (8 - length bs) False)"
        using True b by (simp add: p)
      moreover have "8 - length bs < 8" using False by (cases bs) auto
      ultimately show ?thesis by blast
    next
      case no: False
      then have "read_bits (xs @ pack_coils bs @ ys) (length xs) (length (pack_coils bs)) = Some (bs @ replicate k False)"
        using k(2) b by (simp add: p)
      with k(1) show ?thesis by blast
    qed
  qed
qed

lemma decodeModbusBits_encode:
  assumes "length (pack_coils bs) < 256"
  shows "\<exists>k < 8. decodeModbusBits (pack_coils bs @ ys) (of_nat (length (pack_coils bs))) = Some (bs @ replicate k False)"
proof -
  have "unat (of_nat (length (pack_coils bs)) :: u8) = length (pack_coils bs)" using assms by (simp add: unat_of_nat_small)
  with read_bits_pack [of "[]" bs ys] show ?thesis by (simp add: decodeModbusBits_def)
qed

text \<open>The wire form of a request that writes several registers or coils.\<close>

definition mbap_header :: "u16 \<Rightarrow> nat \<Rightarrow> u8 \<Rightarrow> bytes" where
  "mbap_header tx n unit = u16_bytes tx @ [0, 0] @ u16_bytes (of_nat (n + 1)) @ [unit]"

definition write_registers_adu :: "u16 \<Rightarrow> u8 \<Rightarrow> u16 \<Rightarrow> u16 list \<Rightarrow> bytes" where
  "write_registers_adu tx unit start vs = mbap_header tx (6 + 2 * length vs) unit @
     [16] @ u16_bytes start @ u16_bytes (of_nat (length vs)) @ [of_nat (length vs * 2)] @ concat (map u16_bytes vs)"

definition write_coils_adu :: "u16 \<Rightarrow> u8 \<Rightarrow> u16 \<Rightarrow> bool list \<Rightarrow> bytes" where
  "write_coils_adu tx unit start bs = mbap_header tx (6 + length (pack_coils bs)) unit @
     [15] @ u16_bytes start @ u16_bytes (of_nat (length bs)) @ [of_nat (length (pack_coils bs))] @ pack_coils bs"

lemma mbap_shape:
  assumes "pk_AppPayload p = mbap_header tx n unit @ fc # body"
  shows "parseModbus port p = do {
    m \<leftarrow> modbus_body fc body (modbus_header port p unit fc); accepted (modbus_operation (fc AND NOT 0x80) m) }"
proof -
  have "length (pk_AppPayload p) \<ge> 8" "rd_be16 (pk_AppPayload p) 2 = Some 0" "pk_AppPayload p ! 6 = unit"
    "pk_AppPayload p ! 7 = fc" "drop 8 (pk_AppPayload p) = body"
    by (simp_all add: assms mbap_header_def u16_bytes_def be16_def)
  with parseModbus_mbap [of p port] show ?thesis by simp
qed

lemma header_detail [simp]:
  "detail_of (modbus_header port p u fc) k = (if k = ''payload_size'' then Some (D_int (int (length (pk_AppPayload p)))) else None)"
  by (simp add: modbus_header_def)

lemma put_address_quantity_encode:
  "put_address_quantity (u16_bytes a @ u16_bytes q @ ys) m =
     Some (put_detail ''quantity'' (D_u16 q) (put_detail ''address'' (D_u16 a) m))"
  using rd_be16_at [of "[]" a "u16_bytes q @ ys"] rd_be16_at [of "u16_bytes a" q ys]
  by (simp add: put_address_quantity_def del: rd_be16_ok)

definition modbus_write_seen :: "ics_message \<Rightarrow> u8 \<Rightarrow> u8 \<Rightarrow> u16 \<Rightarrow> nat \<Rightarrow> bool" where
  "modbus_write_seen m unit fc start n \<longleftrightarrow> im_UnitID m = unit \<and> im_FunctionCode m = fc \<and> \<not> im_IsException m \<and>
     detail_of m ''address'' = Some (D_u16 start) \<and> detail_of m ''quantity'' = Some (D_u16 (of_nat n)) \<and>
     detail_of m ''is_write'' = Some (D_bool True)"

lemma put_fields [simp]:
  "im_UnitID (put_detail k v m) = im_UnitID m" "im_FunctionCode (put_detail k v m) = im_FunctionCode m"
  "im_IsException (put_detail k v m) = im_IsException m" "im_FunctionName (put_detail k v m) = im_FunctionName m"
  "im_IsResponse (put_detail k v m) = im_IsResponse m"
  by (simp_all add: put_detail_def)

lemma set_fields [simp]:
  "im_UnitID (setOperation c w x s m) = im_UnitID m" "im_FunctionCode (setOperation c w x s m) = im_FunctionCode m"
  "im_IsException (setOperation c w x s m) = im_IsException m" "im_FunctionName (setOperation c w x s m) = im_FunctionName m"
  "im_IsResponse (setOperation c w x s m) = im_IsResponse m"
  by (simp_all add: setOperation_def Let_def)

lemma header_fields [simp]:
  "im_UnitID (modbus_header port p u fc) = u" "im_FunctionCode (modbus_header port p u fc) = fc AND NOT 0x80"
  "im_IsException (modbus_header port p u fc) = (fc AND 0x80 \<noteq> 0)"
  "im_IsResponse (modbus_header port p u fc) = (pk_SrcPort p = port)"
  by (simp_all add: modbus_header_def)

lemma write_registers_parsed:
  assumes "pk_AppPayload p = write_registers_adu tx unit start vs" and "vs \<noteq> []" and "length vs \<le> 123"
  shows "\<exists>m. parseModbus port p = accepted m \<and> modbus_write_seen m unit 16 start (length vs) \<and>
           im_IsResponse m = (pk_SrcPort p = port) \<and> detail_of m ''value'' = Some (D_u16s vs)"
proof -
  let ?body = "u16_bytes start @ u16_bytes (of_nat (length vs)) @ of_nat (length vs * 2) # concat (map u16_bytes vs)"
  have p: "pk_AppPayload p = mbap_header tx (6 + 2 * length vs) unit @ 16 # ?body"
    by (simp add: assms(1) write_registers_adu_def)
  have "length (concat (map u16_bytes vs)) = length vs * 2" by (induction vs) simp_all
  then have len: "length ?body > 5" "?body ! 4 = of_nat (length vs * 2)" "drop 5 ?body = concat (map u16_bytes vs)"
    using assms(2) by (simp_all add: u16_bytes_def)
  have dec: "decodeModbusRegisters (concat (map u16_bytes vs)) (of_nat (length vs * 2)) = Some vs"
    using decodeModbusRegisters_encode [of vs "[]"] assms(3) by simp
  have "modbus_body 16 ?body m = Some (put_detail ''value'' (D_u16s vs) (put_detail ''quantity'' (D_u16 (of_nat (length vs)))
    (put_detail ''address'' (D_u16 start) m)))" for m
    using len dec put_address_quantity_encode [of start "of_nat (length vs)" "of_nat (length vs * 2) # concat (map u16_bytes vs)" m]
    by (simp add: modbus_body_def decodeModbusData_def del: append_assoc)
  with mbap_shape [OF p, of port] show ?thesis by (simp add: modbus_operation_def modbus_write_seen_def)
qed

lemma write_coils_parsed:
  assumes "pk_AppPayload p = write_coils_adu tx unit start bs" and "bs \<noteq> []" and "length bs \<le> 1968"
  shows "\<exists>m k. parseModbus port p = accepted m \<and> modbus_write_seen m unit 15 start (length bs) \<and>
           k < 8 \<and> detail_of m ''value'' = Some (D_bools (bs @ replicate k False))"
proof -
  let ?n = "of_nat (length (pack_coils bs)) :: u8"
  let ?body = "u16_bytes start @ u16_bytes (of_nat (length bs)) @ ?n # pack_coils bs"
  have p: "pk_AppPayload p = mbap_header tx (6 + length (pack_coils bs)) unit @ 15 # ?body"
    by (simp add: assms(1) write_coils_adu_def)
  have "(length bs + 7) div 8 < 256" "0 < (length bs + 7) div 8" using assms(2,3) by (simp_all add: div_greater_zero_iff Suc_le_eq)
  then have n: "length (pack_coils bs) < 256" "0 < length (pack_coils bs)" by (simp_all only: length_pack_coils)
  obtain k where k: "k < 8" "decodeModbusBits (pack_coils bs) ?n = Some (bs @ replicate k False)"
    using decodeModbusBits_encode [OF n(1), of "[]"] by auto
  have len: "length ?body > 5" "?body ! 4 = ?n" "drop 5 ?body = pack_coils bs"
    using n(2) by (simp_all add: u16_bytes_def)
  have "modbus_body 15 ?body m = Some (put_detail ''value'' (D_bools (bs @ replicate k False))
    (put_detail ''quantity'' (D_u16 (of_nat (length bs))) (put_detail ''address'' (D_u16 start) m)))" for m
    using len k put_address_quantity_encode [of start "of_nat (length bs)" "?n # pack_coils bs" m]
    by (simp add: modbus_body_def decodeModbusData_def del: append_assoc)
  with mbap_shape [OF p, of port] k(1) show ?thesis by (auto simp: modbus_operation_def modbus_write_seen_def)
qed

text \<open>Requests that write one coil or register, or bits of one register.\<close>

definition modbus_adu :: "u16 \<Rightarrow> u8 \<Rightarrow> u8 \<Rightarrow> bytes \<Rightarrow> bytes" where
  "modbus_adu tx unit fc body = mbap_header tx (1 + length body) unit @ fc # body"

definition write_coil_adu :: "u16 \<Rightarrow> u8 \<Rightarrow> u16 \<Rightarrow> bool \<Rightarrow> bytes" where
  "write_coil_adu tx unit a on = modbus_adu tx unit 5 (u16_bytes a @ [if on then 0xFF else 0, 0])"

definition write_register_adu :: "u16 \<Rightarrow> u8 \<Rightarrow> u16 \<Rightarrow> u16 \<Rightarrow> bytes" where
  "write_register_adu tx unit a v = modbus_adu tx unit 6 (u16_bytes a @ u16_bytes v)"

definition mask_write_adu :: "u16 \<Rightarrow> u8 \<Rightarrow> u16 \<Rightarrow> u16 \<Rightarrow> u16 \<Rightarrow> bytes" where
  "mask_write_adu tx unit a andm orm = modbus_adu tx unit 22 (u16_bytes a @ u16_bytes andm @ u16_bytes orm)"

definition modbus_write_at :: "ics_message \<Rightarrow> u8 \<Rightarrow> u8 \<Rightarrow> u16 \<Rightarrow> bool" where
  "modbus_write_at m unit fc start \<longleftrightarrow> im_UnitID m = unit \<and> im_FunctionCode m = fc \<and> \<not> im_IsException m \<and>
     detail_of m ''address'' = Some (D_u16 start) \<and> detail_of m ''is_write'' = Some (D_bool True)"

lemma adu_parsed:
  "parseModbus port (p\<lparr> pk_AppPayload := modbus_adu tx unit fc body \<rparr>) = do {
     m \<leftarrow> modbus_body fc body (modbus_header port (p\<lparr> pk_AppPayload := modbus_adu tx unit fc body \<rparr>) unit fc);
     accepted (modbus_operation (fc AND NOT 0x80) m) }"
  by (rule mbap_shape) (simp add: modbus_adu_def)

lemma u16_reads:
  "rd_be16 (u16_bytes a @ ys) 0 = Some a" "rd_be16 (u16_bytes a @ u16_bytes b @ ys) 2 = Some b"
  "rd_be16 (u16_bytes a @ u16_bytes b @ u16_bytes c) 4 = Some c"
  using rd_be16_at [of "[]" a ys] rd_be16_at [of "u16_bytes a" b ys] rd_be16_at [of "u16_bytes a @ u16_bytes b" c "[]"]
  by simp_all

lemma write_coil_parsed:
  "\<exists>m. parseModbus port (p\<lparr> pk_AppPayload := write_coil_adu tx unit a on \<rparr>) = accepted m \<and>
     modbus_write_at m unit 5 a \<and> detail_of m ''value'' = Some (D_bool on)"
proof -
  let ?body = "u16_bytes a @ [if on then 0xFF else 0, 0]"
  have "length ?body = 4" "go_idx ?body 2 = Some (if on then 0xFF else 0)" by (simp_all add: u16_bytes_def go_idx_def)
  then have "modbus_body 5 ?body m = Some (put_detail ''value'' (D_bool on) (put_detail ''address'' (D_u16 a) m))" for m
    by (simp add: modbus_body_def decodeModbusData_def u16_reads del: rd_be16_ok)
  then show ?thesis unfolding write_coil_adu_def adu_parsed by (simp add: modbus_operation_def modbus_write_at_def)
qed

lemma write_register_parsed:
  "\<exists>m. parseModbus port (p\<lparr> pk_AppPayload := write_register_adu tx unit a v \<rparr>) = accepted m \<and>
     modbus_write_at m unit 6 a \<and> detail_of m ''value'' = Some (D_u16 v)"
proof -
  have "modbus_body 6 (u16_bytes a @ u16_bytes v) m = Some (put_detail ''value'' (D_u16 v) (put_detail ''address'' (D_u16 a) m))" for m
    using u16_reads(2) [of a v "[]"] by (simp add: modbus_body_def decodeModbusData_def u16_reads del: rd_be16_ok)
  then show ?thesis unfolding write_register_adu_def adu_parsed by (simp add: modbus_operation_def modbus_write_at_def)
qed

lemma mask_write_parsed:
  "\<exists>m. parseModbus port (p\<lparr> pk_AppPayload := mask_write_adu tx unit a andm orm \<rparr>) = accepted m \<and>
     modbus_write_at m unit 22 a \<and> detail_of m ''and_mask'' = Some (D_u16 andm) \<and> detail_of m ''or_mask'' = Some (D_u16 orm)"
proof -
  have "modbus_body 22 (u16_bytes a @ u16_bytes andm @ u16_bytes orm) m =
      Some (put_detail ''or_mask'' (D_u16 orm) (put_detail ''and_mask'' (D_u16 andm) (put_detail ''address'' (D_u16 a) m)))" for m
    by (simp add: modbus_body_def decodeModbusData_def u16_reads del: rd_be16_ok)
  then show ?thesis unfolding mask_write_adu_def adu_parsed by (simp add: modbus_operation_def modbus_write_at_def)
qed

text \<open>Function 23 is marked as a write, but its body is not decoded.\<close>

lemma read_write_parsed:
  "\<exists>m. parseModbus port (p\<lparr> pk_AppPayload := modbus_adu tx unit 23 body \<rparr>) = accepted m \<and> im_UnitID m = unit \<and>
     im_FunctionCode m = 23 \<and> detail_of m ''is_write'' = Some (D_bool True) \<and>
     detail_of m ''address'' = None \<and> detail_of m ''value'' = None"
  unfolding adu_parsed by (simp add: modbus_body_def decodeModbusData_def modbus_operation_def)

text \<open>
  C11: A Modbus/TCP request that writes is decoded to what was written, for the five functions that
  the decoder knows: Write Multiple Registers (16, up to 123 values) and Write Multiple Coils (15,
  up to 1968, with at most seven bits of padding behind them) to the start address, the quantity and
  every value in order; Write Single Coil (5) and Write Single Register (6) to the address and the
  value; Mask Write Register (22) to the address and both masks.  Each is marked as a write of its
  unit.  Read/Write Multiple Registers (23) is marked as a write too, but nothing of its body is decoded.
\<close>

theorem modbus_write_roundtrip:
  assumes "vs \<noteq> []" and "length vs \<le> 123" and "bs \<noteq> []" and "length bs \<le> 1968"
  shows "(\<exists>m. parseModbus port (p\<lparr> pk_AppPayload := write_registers_adu tx unit start vs \<rparr>) = accepted m \<and>
            modbus_write_seen m unit 16 start (length vs) \<and> detail_of m ''value'' = Some (D_u16s vs)) \<and>
         (\<exists>m k. parseModbus port (p\<lparr> pk_AppPayload := write_coils_adu tx unit start bs \<rparr>) = accepted m \<and>
            modbus_write_seen m unit 15 start (length bs) \<and> k < 8 \<and>
            detail_of m ''value'' = Some (D_bools (bs @ replicate k False))) \<and>
         (\<exists>m. parseModbus port (p\<lparr> pk_AppPayload := write_coil_adu tx unit start on \<rparr>) = accepted m \<and>
            modbus_write_at m unit 5 start \<and> detail_of m ''value'' = Some (D_bool on)) \<and>
         (\<exists>m. parseModbus port (p\<lparr> pk_AppPayload := write_register_adu tx unit start v \<rparr>) = accepted m \<and>
            modbus_write_at m unit 6 start \<and> detail_of m ''value'' = Some (D_u16 v)) \<and>
         (\<exists>m. parseModbus port (p\<lparr> pk_AppPayload := mask_write_adu tx unit start andm orm \<rparr>) = accepted m \<and>
            modbus_write_at m unit 22 start \<and>
            detail_of m ''and_mask'' = Some (D_u16 andm) \<and> detail_of m ''or_mask'' = Some (D_u16 orm)) \<and>
         (\<exists>m. parseModbus port (p\<lparr> pk_AppPayload := modbus_adu tx unit 23 body \<rparr>) = accepted m \<and> im_UnitID m = unit \<and>
            im_FunctionCode m = 23 \<and> detail_of m ''is_write'' = Some (D_bool True) \<and>
            detail_of m ''address'' = None \<and> detail_of m ''value'' = None)"
  by (intro conjI write_coil_parsed write_register_parsed mask_write_parsed read_write_parsed)
    (use write_registers_parsed [of "p\<lparr> pk_AppPayload := write_registers_adu tx unit start vs \<rparr>" tx unit start vs port]
      write_coils_parsed [of "p\<lparr> pk_AppPayload := write_coils_adu tx unit start bs \<rparr>" tx unit start bs port] assms in auto)

theorem modbus_write_roundtrip_witness:
  "(\<exists>m. parseModbus 502 (zero_packet\<lparr> pk_AppPayload := write_registers_adu 1 17 100 [42, 7] \<rparr>) = accepted m \<and>
     modbus_write_seen m 17 16 100 2 \<and> detail_of m ''value'' = Some (D_u16s [42, 7])) \<and>
   (\<exists>m. parseModbus 502 (zero_packet\<lparr> pk_AppPayload := write_register_adu 1 17 100 9 \<rparr>) = accepted m \<and>
     modbus_write_at m 17 6 100 \<and> detail_of m ''value'' = Some (D_u16 9))"
  using modbus_write_roundtrip [where vs = "[42, 7]" and bs = "[True]" and port = 502 and p = zero_packet and tx = 1
      and unit = 17 and start = 100 and v = 9] by (simp add: numeral_2_eq_2)

section \<open>A read response that is taken for a request\<close>

text \<open>The response to a read of coils or discrete inputs.\<close>

definition read_bits_response :: "u16 \<Rightarrow> u8 \<Rightarrow> u8 \<Rightarrow> bytes \<Rightarrow> bytes" where
  "read_bits_response tx unit fc data = mbap_header tx (2 + length data) unit @ [fc, of_nat (length data)] @ data"

text \<open>
  The response to a read of 17 to 24 coils or discrete inputs carries three bytes of values,
  so its body is four bytes long like that of a request, and the parser takes it for one: it
  reports an address made of the byte count and the first eight coils, and no value.
\<close>

theorem modbus_coil_response_misread:
  assumes "fc = 1 \<or> fc = 2"
  shows "\<exists>m. parseModbus port (p\<lparr> pk_AppPayload := read_bits_response tx unit fc [a, b, c] \<rparr>) = accepted m \<and>
    im_UnitID m = unit \<and> im_FunctionCode m = fc \<and> im_IsResponse m = (pk_SrcPort p = port) \<and>
    detail_of m ''address'' = Some (D_u16 (be16 3 a)) \<and> detail_of m ''quantity'' = Some (D_u16 (be16 b c)) \<and>
    detail_of m ''value'' = None"
proof -
  let ?p = "p\<lparr> pk_AppPayload := read_bits_response tx unit fc [a, b, c] \<rparr>"
  have shape: "pk_AppPayload ?p = mbap_header tx 5 unit @ fc # [3, a, b, c]"
    by (simp add: read_bits_response_def)
  have "modbus_body fc [3, a, b, c] m = Some (put_detail ''quantity'' (D_u16 (be16 b c)) (put_detail ''address'' (D_u16 (be16 3 a)) m))" for m
    using assms by (auto simp: modbus_body_def decodeModbusData_def put_address_quantity_def)
  with mbap_shape [OF shape, of port] assms show ?thesis by (auto simp: modbus_operation_def)
qed

theorem modbus_coil_response_misread_witness:
  "\<exists>m. parseModbus 502 (zero_packet\<lparr> pk_SrcPort := 502, pk_AppPayload := read_bits_response 1 17 1 [255, 0, 1] \<rparr>) = accepted m \<and>
    im_UnitID m = 17 \<and> im_FunctionCode m = 1 \<and> im_IsResponse m = (pk_SrcPort (zero_packet\<lparr> pk_SrcPort := 502 \<rparr>) = 502) \<and>
    detail_of m ''address'' = Some (D_u16 (be16 3 255)) \<and> detail_of m ''quantity'' = Some (D_u16 (be16 0 1)) \<and>
    detail_of m ''value'' = None"
  by (rule modbus_coil_response_misread) simp

end
