(* ===== verification/Ics_S7.thy ===== *)
theory Ics_S7
  imports Ics_Modbus
begin

text \<open>
  internal/ics/s7comm.go: the layers TPKT, COTP and S7, the address of the first item of a
  request, the value of the first item of a write, and the round trip with the wire form of a
  WriteVar request.
\<close>

section \<open>The parser\<close>

definition s7ROSCTRNames :: "(u8, string) gomap" where
  "s7ROSCTRNames = [(1, ''Job''), (2, ''Ack''), (3, ''AckData''), (7, ''UserData'')]"

definition s7FunctionNames :: "(u8, string) gomap" where
  "s7FunctionNames = [(0x04, ''ReadVar''), (0x05, ''WriteVar''), (0x1A, ''RequestDownload''), (0x1B, ''DownloadBlock''),
     (0x1C, ''DownloadEnded''), (0x1D, ''StartUpload''), (0x1E, ''Upload''), (0x1F, ''EndUpload''), (0x28, ''PLCControl''),
     (0x29, ''PLCStop''), (0xF0, ''SetupCommunication'')]"

text \<open>\<open>%02X\<close> of a byte.\<close>

definition hex_byte :: "u8 \<Rightarrow> string" where
  "hex_byte b = [''0123456789ABCDEF'' ! (unat b div 16), ''0123456789ABCDEF'' ! (unat b mod 16)]"

definition s7FunctionName :: "u8 \<Rightarrow> string" where
  "s7FunctionName fc = (case mget s7FunctionNames fc of
     Some n \<Rightarrow> n
   | None \<Rightarrow> ''Unknown(0x'' @ hex_byte fc @ '')'')"

record s7ItemAddress =
  s7_area :: string
  s7_dbNumber :: u16
  s7_bitAddress :: u32
  s7_transportSize :: u8

definition s7_area_name :: "u8 \<Rightarrow> string option" where
  "s7_area_name b =
     (if b = 0x81 then Some ''I'' else if b = 0x82 then Some ''Q'' else if b = 0x83 then Some ''M''
      else if b = 0x84 then Some ''DB'' else if b = 0x1C then Some ''C'' else if b = 0x1D then Some ''T'' else None)"

definition parseS7FirstItemAddress :: "bytes \<Rightarrow> s7ItemAddress option go" where
  "parseS7FirstItemAddress param =
     (if length param < 2 then go_ret None
      else do {
        n \<leftarrow> go_idx param 1;
        if n = 0 then go_ret None
        else do {
          item \<leftarrow> go_from param 2;
          if length item < 12 then go_ret None
          else do {
            spec \<leftarrow> go_idx item 0;
            syntx \<leftarrow> go_idx item 2;
            if spec \<noteq> 0x12 \<or> syntx \<noteq> 0x10 then go_ret None
            else do {
              size \<leftarrow> go_idx item 3;
              db \<leftarrow> rd_be16 item 6;
              ab \<leftarrow> go_idx item 8;
              a \<leftarrow> go_idx item 9;
              b \<leftarrow> go_idx item 10;
              c \<leftarrow> go_idx item 11;
              go_ret (map_option (\<lambda>area. \<lparr> s7_area = area, s7_dbNumber = db,
                  s7_bitAddress = push_bit 16 (ucast a) OR push_bit 8 (ucast b) OR ucast c,
                  s7_transportSize = size \<rparr>) (s7_area_name ab))
            }
          }
        }
      })"

definition parseS7FirstItemValue :: "bytes \<Rightarrow> detail option go" where
  "parseS7FirstItemValue data =
     (if length data < 4 then go_ret None
      else do {
        code \<leftarrow> go_idx data 0;
        if code \<noteq> 0xFF then go_ret None
        else do {
          size \<leftarrow> go_idx data 1;
          lengthField \<leftarrow> rd_be16 data 2;
          payload \<leftarrow> go_from data 4;
          if size = 0x03 then
            (if length payload < 1 then go_ret None
             else do { b \<leftarrow> go_idx payload 0; go_ret (Some (D_bool (b AND 1 \<noteq> 0))) })
          else
            let byteLen = (if unat lengthField > length payload then length payload else unat lengthField)
            in if byteLen = 1 then do { b \<leftarrow> go_idx payload 0; go_ret (Some (D_u8 b)) }
               else if byteLen = 2 then do { w \<leftarrow> rd_be16 payload 0; go_ret (Some (D_u16 w)) }
               else if byteLen \<ge> 4 then do { w \<leftarrow> rd_be32 payload 0; go_ret (Some (D_u32 w)) }
               else go_ret None
        }
      })"

definition s7_operation :: "u8 \<Rightarrow> ics_message \<Rightarrow> ics_message" where
  "s7_operation fc m =
     (if fc = 0x05 then setOperation ''write'' True True False m
      else if fc \<in> {0x1A, 0x1B, 0x1C} then setOperation ''program'' True True True m
      else if fc \<in> {0x28, 0x29} then setOperation ''mode'' True True True m
      else if fc = 0x04 then setOperation ''read'' False False False m
      else if fc \<in> {0x1D, 0x1E, 0x1F} then setOperation ''program_read'' False False False m
      else if fc = 0xF0 then setOperation ''session'' False False False m
      else m)"

text \<open>The address, and for a write the value, of the first item of a request.\<close>

definition put_item_address :: "s7ItemAddress \<Rightarrow> ics_message \<Rightarrow> ics_message" where
  "put_item_address item m =
     (let m1 = put_detail ''address'' (D_u32 (s7_bitAddress item)) (put_detail ''s7_area'' (D_string (s7_area item)) m)
      in if s7_area item = ''DB'' then put_detail ''s7_db'' (D_u16 (s7_dbNumber item)) m1 else m1)"

definition s7_item :: "u8 \<Rightarrow> bytes \<Rightarrow> nat \<Rightarrow> nat \<Rightarrow> nat \<Rightarrow> bytes \<Rightarrow> ics_message \<Rightarrow> ics_message go" where
  "s7_item fc s7 headerLen paramLength dataLength param m =
     do {
       r \<leftarrow> parseS7FirstItemAddress param;
       case r of
         None \<Rightarrow> go_ret m
       | Some item \<Rightarrow>
           if fc = 0x05 \<and> dataLength > 0 \<and> length s7 \<ge> headerLen + paramLength + dataLength then do {
             sect \<leftarrow> go_slice s7 (headerLen + paramLength) (headerLen + paramLength + dataLength);
             v \<leftarrow> parseS7FirstItemValue sect;
             go_ret (case v of None \<Rightarrow> put_item_address item m
                             | Some d \<Rightarrow> put_detail ''value'' d (put_item_address item m))
           }
           else go_ret (put_item_address item m)
     }"

definition s7_header_message :: "packet \<Rightarrow> u8 \<Rightarrow> u16 \<Rightarrow> ics_message" where
  "s7_header_message p rosctr pduReference =
     (put_detail ''pdu_reference'' (D_u16 pduReference)
       (put_detail ''rosctr'' (D_string (name_of s7ROSCTRNames rosctr)) (newMessage p ''S7comm'')))
     \<lparr> im_IsResponse := (rosctr = 2 \<or> rosctr = 3) \<rparr>"

definition parseS7Header :: "packet \<Rightarrow> bytes \<Rightarrow> parsed" where
  "parseS7Header p s7 =
     (if length s7 < 10 then rejected
      else do {
        magic \<leftarrow> go_idx s7 0;
        if magic \<noteq> 0x32 then rejected
        else do {
          rosctr \<leftarrow> go_idx s7 1;
          let headerLen = (if rosctr = 3 then 12 else 10);
          if length s7 < headerLen then rejected
          else do {
            pduReference \<leftarrow> rd_be16 s7 4;
            paramLength \<leftarrow> rd_be16 s7 6;
            dataLength \<leftarrow> rd_be16 s7 8;
            let m = s7_header_message p rosctr pduReference;
            if paramLength = 0 \<or> length s7 < headerLen + unat paramLength then accepted m
            else do {
              param \<leftarrow> go_slice s7 headerLen (headerLen + unat paramLength);
              fc \<leftarrow> go_idx param 0;
              let m1 = s7_operation fc (m\<lparr> im_FunctionCode := fc, im_FunctionName := s7FunctionName fc \<rparr>);
              m2 \<leftarrow> (if rosctr = 1 \<and> (fc = 4 \<or> fc = 5)
                     then s7_item fc s7 headerLen (unat paramLength) (unat dataLength) param m1
                     else go_ret m1);
              accepted m2
            }
          }
        }
      })"

definition parseS7Comm :: "packet \<Rightarrow> parsed" where
  "parseS7Comm p =
     (let data = pk_AppPayload p in
      if length data < 4 then rejected
      else do {
        version \<leftarrow> go_idx data 0;
        if version \<noteq> 3 then rejected
        else do {
          tpktLength \<leftarrow> rd_be16 data 2;
          if unat tpktLength > length data then rejected
          else do {
            cotp \<leftarrow> go_from data 4;
            if length cotp < 2 then rejected
            else do {
              li \<leftarrow> go_idx cotp 0;
              pduByte \<leftarrow> go_idx cotp 1;
              let pduType = pduByte AND 0xF0;
              if pduType = 0xE0 \<or> pduType = 0xD0 \<or> pduType = 0x80 then rejected
              else if pduType = 0xF0 then
                (let headerEnd = 1 + unat li
                 in if headerEnd \<ge> length cotp then rejected
                    else do { s7 \<leftarrow> go_from cotp headerEnd; parseS7Header p s7 })
              else rejected
            }
          }
        }
      })"

section \<open>The parser never panics\<close>

lemma parseS7FirstItemAddress_total: "\<exists>r. parseS7FirstItemAddress param = Some r"
  by (cases "length param < 2"; cases "param ! 1 = 0"; cases "length (drop 2 param) < 12")
    (simp_all add: parseS7FirstItemAddress_def)

lemma parseS7FirstItemValue_total: "\<exists>r. parseS7FirstItemValue data = Some r"
proof (cases "length data < 4 \<or> data ! 0 \<noteq> 0xFF")
  case True
  have "data \<noteq> []" if "\<not> length data < 4" using that by auto
  with True show ?thesis by (cases "length data < 4") (auto simp: parseS7FirstItemValue_def)
next
  case False
  obtain w where w: "4 \<le> length (drop 4 data) \<Longrightarrow> rd_be32 (drop 4 data) 0 = Some w"
    using rd_be32_Some [of 0 "drop 4 data"] by (cases "4 \<le> length (drop 4 data)") auto
  have "data \<noteq> []" "Suc 0 < length data" using False by auto
  with False w show ?thesis by (auto simp: parseS7FirstItemValue_def Let_def Suc_le_eq)
qed

lemma decoded_from_item: "decoded_from m m' \<Longrightarrow> decoded_from m (put_item_address item m')"
  by (simp add: put_item_address_def Let_def decoded_from_put operation_keys_def)

lemma s7_item_ok:
  assumes "decoded_from m0 m"
  shows "\<exists>m'. s7_item fc s7 h pl dl param m = Some m' \<and> decoded_from m0 m'"
proof -
  obtain r where r: "parseS7FirstItemAddress param = Some r" using parseS7FirstItemAddress_total by blast
  obtain v where v: "parseS7FirstItemValue (take dl (drop (h + pl) s7)) = Some v" using parseS7FirstItemValue_total by blast
  show ?thesis
  proof (cases r)
    case None
    with r assms show ?thesis by (simp add: s7_item_def)
  next
    case (Some item)
    with r v assms show ?thesis
      by (auto simp: s7_item_def decoded_from_item decoded_from_put operation_keys_def split: option.splits)
  qed
qed

lemma s7_operation_ok: "unclassified m \<Longrightarrow> critical_ok (s7_operation fc m)"
  using critical_ok_set [of m False] critical_ok_set [of m True True True "''program''"]
    critical_ok_set [of m True True True "''mode''"] unclassified_critical_ok [of m]
  by (simp add: s7_operation_def)

lemma describes_s7_operation [simp]: "describes p n (s7_operation fc m) = describes p n m"
  by (simp add: s7_operation_def)

lemma s7_header_message_ok [simp]:
  "unclassified (s7_header_message p r w)" "describes p ''S7comm'' (s7_header_message p r w)"
  by (simp_all add: s7_header_message_def operation_keys_def)

text \<open>The part of \<open>parseS7Header\<close> after the fixed header.\<close>

lemma parseS7Header_params:
  assumes "length s7 \<ge> headerLen" and "10 \<le> headerLen" and "s7 ! 0 = 0x32" and "headerLen = (if s7 ! 1 = 3 then 12 else 10)"
    and "rd_be16 s7 4 = Some ref" and "rd_be16 s7 6 = Some pl" and "rd_be16 s7 8 = Some dl"
    and "pl \<noteq> 0" and "headerLen + unat pl \<le> length s7"
  shows "parseS7Header p s7 = do {
     let m1 = s7_operation (s7 ! headerLen) ((s7_header_message p (s7 ! 1) ref)
        \<lparr> im_FunctionCode := s7 ! headerLen, im_FunctionName := s7FunctionName (s7 ! headerLen) \<rparr>);
     m2 \<leftarrow> (if s7 ! 1 = 1 \<and> (s7 ! headerLen = 4 \<or> s7 ! headerLen = 5)
            then s7_item (s7 ! headerLen) s7 headerLen (unat pl) (unat dl) (take (unat pl) (drop headerLen s7)) m1
            else go_ret m1);
     accepted m2 }"
proof -
  have "s7 \<noteq> []" "Suc 0 < length s7" using assms(1,2) by auto
  moreover have "unat pl > 0" using assms(8) by (simp add: unat_gt_0)
  then have "take (unat pl) (drop headerLen s7) \<noteq> []" "take (unat pl) (drop headerLen s7) ! 0 = s7 ! headerLen"
    using assms(9) by auto
  ultimately show ?thesis using assms by (auto simp: parseS7Header_def Let_def go_idx_def simp del: rd_be16_ok)
qed

lemma parseS7Header_ok: "parser_result p ''S7comm'' (parseS7Header p s7)"
proof -
  let ?h = "if s7 ! 1 = 3 then 12 else 10 :: nat"
  show ?thesis
  proof (cases "length s7 \<ge> ?h \<and> s7 ! 0 = 0x32")
    case False
    have "length s7 < 10 \<Longrightarrow> parseS7Header p s7 = rejected" by (simp add: parseS7Header_def)
    moreover have "parseS7Header p s7 = rejected" if "10 \<le> length s7"
    proof -
      have "s7 \<noteq> []" "Suc 0 < length s7" using that by auto
      with that False show ?thesis by (auto simp: parseS7Header_def Let_def go_idx_def)
    qed
    ultimately show ?thesis by (metis not_le parser_result_rejected)
  next
    case True
    then have len: "10 \<le> length s7" by (simp split: if_splits)
    then obtain ref pl dl where r: "rd_be16 s7 4 = Some ref" "rd_be16 s7 6 = Some pl" "rd_be16 s7 8 = Some dl"
      by (simp add: rd_be16_def)
    show ?thesis
    proof (cases "pl = 0 \<or> length s7 < ?h + unat pl")
      case none: True
      have "s7 \<noteq> []" "Suc 0 < length s7" using len by auto
      then have "parseS7Header p s7 = accepted (s7_header_message p (s7 ! 1) ref)"
        using none True r len by (auto simp: parseS7Header_def Let_def go_idx_def simp del: rd_be16_ok)
      then show ?thesis by (simp add: parser_result_def unclassified_critical_ok)
    next
      case False
      let ?fc = "s7 ! ?h"
      let ?m1 = "s7_operation ?fc ((s7_header_message p (s7 ! 1) ref)\<lparr> im_FunctionCode := ?fc, im_FunctionName := s7FunctionName ?fc \<rparr>)"
      have m1: "critical_ok ?m1" "describes p ''S7comm'' ?m1" by (simp_all add: s7_operation_ok)
      obtain m2 where m2: "s7_item ?fc s7 ?h (unat pl) (unat dl) (take (unat pl) (drop ?h s7)) ?m1 = Some m2" "decoded_from ?m1 m2"
        using s7_item_ok [OF decoded_from_refl] by blast
      have "parser_result p ''S7comm'' (parseS7Header p s7)"
        using parseS7Header_params [of ?h s7 ref pl dl p] True False r m1 m2
        by (cases "s7 ! 1 = 1 \<and> (?fc = 4 \<or> ?fc = 5)") (auto simp: parser_result_def Let_def decoded_from_def)
      then show ?thesis .
    qed
  qed
qed

lemma parseS7Comm_ok: "parser_result p ''S7comm'' (parseS7Comm p)"
proof -
  let ?d = "pk_AppPayload p"
  consider (short) "length ?d < 4" | (bad) "4 \<le> length ?d" "?d ! 0 \<noteq> 3 \<or> unat (be16 (?d ! 2) (?d ! 3)) > length ?d \<or> length ?d < 6"
    | (dt) "6 \<le> length ?d" "?d ! 0 = 3" "unat (be16 (?d ! 2) (?d ! 3)) \<le> length ?d" by fastforce
  then show ?thesis
  proof cases
    case bad
    then have "?d \<noteq> []" by auto
    with bad have "parseS7Comm p = rejected" by (auto simp: parseS7Comm_def Let_def go_idx_def numeral_eq_Suc)
    then show ?thesis by simp
  next
    case dt
    then have "?d \<noteq> []" by auto
    with dt parseS7Header_ok [of p "drop (5 + unat (?d ! 4)) ?d"] show ?thesis
      by (auto simp: parseS7Comm_def Let_def go_idx_def numeral_eq_Suc)
  qed (simp add: parseS7Comm_def)
qed

lemma parseS7Comm_empty: "pk_AppPayload p = [] \<Longrightarrow> parseS7Comm p = rejected"
  by (simp add: parseS7Comm_def)

interpretation s7comm: protocol_parser "''S7comm''" parseS7Comm
  by (rule protocol_parserI) (rule parseS7Comm_ok, erule parseS7Comm_empty)

section \<open>Round trip of a write request\<close>

definition u24_bytes :: "u32 \<Rightarrow> bytes" where
  "u24_bytes w = [ucast (drop_bit 16 w), ucast (drop_bit 8 w), ucast w]"

lemma u24_split:
  "push_bit 16 (ucast (ucast (drop_bit 16 w) :: u8)) OR push_bit 8 (ucast (ucast (drop_bit 8 w) :: u8)) OR ucast (ucast w :: u8)
     = (take_bit 24 w :: u32)" for w :: u32
proof (rule bit_word_eqI)
  fix k assume "k < LENGTH(32)"
  then consider "k < 8" | "8 \<le> k" "k < 16" | "16 \<le> k" "k < 24" | "24 \<le> k" "k < 32" by fastforce
  then show "bit (push_bit 16 (ucast (ucast (drop_bit 16 w) :: u8)) OR push_bit 8 (ucast (ucast (drop_bit 8 w) :: u8)) OR
      ucast (ucast w :: u8) :: u32) k = bit (take_bit 24 w) k"
    by cases (auto simp: bit_simps)
qed

text \<open>
  The parameters and the data of a job that writes one word to a data block, behind the S7, COTP
  and TPKT headers; \<open>code\<close> is the return code of the data record.
\<close>

definition write_var_param :: "u8 \<Rightarrow> u16 \<Rightarrow> u32 \<Rightarrow> bytes" where
  "write_var_param tsz db addr = [5, 1, 0x12, 0x0A, 0x10, tsz, 0, 1] @ u16_bytes db @ [0x84] @ u24_bytes addr"

definition write_var_s7 :: "u16 \<Rightarrow> u8 \<Rightarrow> u16 \<Rightarrow> u32 \<Rightarrow> u8 \<Rightarrow> u16 \<Rightarrow> bytes" where
  "write_var_s7 ref tsz db addr code v =
     [0x32, 1, 0, 0] @ u16_bytes ref @ [0, 14, 0, 6] @ write_var_param tsz db addr @ [code, 4, 0, 2] @ u16_bytes v"

definition write_var_packet :: "u16 \<Rightarrow> u8 \<Rightarrow> u16 \<Rightarrow> u32 \<Rightarrow> u8 \<Rightarrow> u16 \<Rightarrow> bytes" where
  "write_var_packet ref tsz db addr code v = [3, 0, 0, 37, 2, 0xF0, 0x80] @ write_var_s7 ref tsz db addr code v"

lemma be16_low [simp]: "be16 0 x = ucast x"
  by (simp add: be16_def)

lemma item_address_encode:
  "parseS7FirstItemAddress (write_var_param tsz db addr) =
     Some (Some \<lparr> s7_area = ''DB'', s7_dbNumber = db, s7_bitAddress = take_bit 24 addr, s7_transportSize = tsz \<rparr>)"
  by (simp add: parseS7FirstItemAddress_def write_var_param_def u16_bytes_def u24_bytes_def s7_area_name_def be16_split
      u24_split go_idx_def)

lemma item_value_encode:
  "parseS7FirstItemValue ([code, 4, 0, 2] @ u16_bytes v) = Some (if code = 0xFF then Some (D_u16 v) else None)"
  by (simp add: parseS7FirstItemValue_def u16_bytes_def be16_split go_idx_def)

lemma write_var_s7_shape:
  "length (write_var_s7 ref tsz db addr code v) = 30" "write_var_s7 ref tsz db addr code v ! 0 = 0x32"
  "write_var_s7 ref tsz db addr code v ! 1 = 1" "write_var_s7 ref tsz db addr code v ! 10 = 5"
  "rd_be16 (write_var_s7 ref tsz db addr code v) 4 = Some ref"
  "rd_be16 (write_var_s7 ref tsz db addr code v) 6 = Some 14"
  "rd_be16 (write_var_s7 ref tsz db addr code v) 8 = Some 6"
  "take 14 (drop 10 (write_var_s7 ref tsz db addr code v)) = write_var_param tsz db addr"
  "take 6 (drop 24 (write_var_s7 ref tsz db addr code v)) = [code, 4, 0, 2] @ u16_bytes v"
  by (simp_all add: write_var_s7_def write_var_param_def u16_bytes_def u24_bytes_def be16_split)

lemma parseS7Comm_write_var:
  assumes "pk_AppPayload p = write_var_packet ref tsz db addr code v"
  shows "parseS7Comm p = parseS7Header p (write_var_s7 ref tsz db addr code v)"
proof -
  have "length (write_var_packet ref tsz db addr code v) = 37" by (simp add: write_var_packet_def write_var_s7_shape)
  then show ?thesis
    by (simp add: parseS7Comm_def assms write_var_packet_def go_idx_def Let_def)
qed

text \<open>
  C13: an S7 job that writes one word to a data block is decoded to the block, the 24-bit address,
  the function and its classification as a write.  The value is decoded only if the data record
  carries the return code 0xFF of a successful answer; a record with any other code, the reserved
  code 0 of a request included, leaves no value.
\<close>

theorem s7_write_var_roundtrip:
  "\<exists>m. parseS7Comm (p\<lparr> pk_AppPayload := write_var_packet ref tsz db addr code v \<rparr>) = accepted m \<and>
     im_FunctionName m = ''WriteVar'' \<and> \<not> im_IsResponse m \<and> detail_of m ''is_write'' = Some (D_bool True) \<and>
     detail_of m ''s7_area'' = Some (D_string ''DB'') \<and> detail_of m ''s7_db'' = Some (D_u16 db) \<and>
     detail_of m ''address'' = Some (D_u32 (take_bit 24 addr)) \<and>
     detail_of m ''value'' = (if code = 0xFF then Some (D_u16 v) else None)"
proof -
  let ?p = "p\<lparr> pk_AppPayload := write_var_packet ref tsz db addr code v \<rparr>"
  let ?s7 = "write_var_s7 ref tsz db addr code v"
  let ?m1 = "s7_operation 5 ((s7_header_message ?p 1 ref)\<lparr> im_FunctionCode := 5, im_FunctionName := s7FunctionName 5 \<rparr>)"
  let ?item = "\<lparr> s7_area = ''DB'', s7_dbNumber = db, s7_bitAddress = take_bit 24 addr, s7_transportSize = tsz \<rparr>"
  let ?m2 = "if code = 0xFF then put_detail ''value'' (D_u16 v) (put_item_address ?item ?m1) else put_item_address ?item ?m1"
  have item: "s7_item 5 ?s7 10 14 6 (write_var_param tsz db addr) ?m1 = Some ?m2"
    using item_value_encode [of code v]
    by (simp add: s7_item_def item_address_encode write_var_s7_shape)
  have "parseS7Comm ?p = parseS7Header ?p ?s7" by (rule parseS7Comm_write_var) simp
  also have "\<dots> = accepted ?m2"
  proof -
    have n: "unat (14 :: u16) = 14" "unat (6 :: u16) = 6" "(14 :: u16) \<noteq> 0" by simp_all
    note sh = write_var_s7_shape [of ref tsz db addr code v]
    have "parseS7Header ?p ?s7 = do {
       let m1 = s7_operation (?s7 ! 10) ((s7_header_message ?p (?s7 ! 1) ref)
          \<lparr> im_FunctionCode := ?s7 ! 10, im_FunctionName := s7FunctionName (?s7 ! 10) \<rparr>);
       m2 \<leftarrow> (if ?s7 ! 1 = 1 \<and> (?s7 ! 10 = 4 \<or> ?s7 ! 10 = 5)
              then s7_item (?s7 ! 10) ?s7 10 (unat (14 :: u16)) (unat (6 :: u16)) (take (unat (14 :: u16)) (drop 10 ?s7)) m1
              else go_ret m1);
       accepted m2 }"
      by (rule parseS7Header_params [OF _ _ sh(2) _ sh(5-7)]) (simp_all add: sh(1-3) sh(3) [simplified])
    also have "\<dots> = accepted ?m2" unfolding sh n Let_def using item by simp
    finally show ?thesis .
  qed
  finally show ?thesis
    by (simp add: put_item_address_def Let_def s7_operation_def s7_header_message_def s7FunctionName_def
        s7FunctionNames_def mget_def)
qed

end
