(* ===== verification/Ics_Parsers.thy ===== *)
theory Ics_Parsers
  imports Ics_S7
begin

text \<open>
  internal/ics: the parsers of DNP3, IEC 60870-5-104, BACnet/IP, EtherNet/IP, OPC UA and
  PROFINET DCP, each with the contract of a protocol parser.
\<close>

section \<open>DNP3\<close>

definition PortDNP3 :: u16 where "PortDNP3 = 20000"

definition dnpFunctions :: "(u8, string) gomap" where
  "dnpFunctions = [(0, ''Confirm''), (1, ''Read''), (2, ''Write''), (3, ''Select''), (4, ''Operate''), (5, ''DirectOperate''),
     (6, ''DirectOperateNoAck''), (7, ''ImmediateFreeze''), (8, ''ImmediateFreezeNoAck''), (9, ''FreezeClear''),
     (10, ''FreezeClearNoAck''), (13, ''ColdRestart''), (14, ''WarmRestart''), (18, ''StopApplication''),
     (19, ''SaveConfiguration''), (20, ''EnableUnsolicited''), (21, ''DisableUnsolicited''), (23, ''DelayMeasurement''),
     (24, ''RecordCurrentTime''), (129, ''Response''), (130, ''UnsolicitedResponse'')]"

definition dnp3_operation :: "u8 \<Rightarrow> ics_message \<Rightarrow> ics_message" where
  "dnp3_operation fc m =
     (if fc = 2 then setOperation ''write'' True True False m
      else if fc = 3 then setOperation ''select'' False True False m
      else if fc \<in> {4, 5, 6} then setOperation ''operate'' True True False m
      else if fc \<in> {7, 8, 9, 10} then setOperation ''process_control'' True True False m
      else if fc \<in> {13, 14, 18} then setOperation ''mode'' True True True m
      else if fc = 19 then setOperation ''config'' True True False m
      else if fc = 24 then setOperation ''time'' True True False m
      else if fc = 1 then setOperation ''read'' False False False m
      else m)"

definition put_opt :: "string \<Rightarrow> ('a \<Rightarrow> detail) \<Rightarrow> 'a option \<Rightarrow> ics_message \<Rightarrow> ics_message" where
  "put_opt k f v m = (case v of None \<Rightarrow> m | Some x \<Rightarrow> put_detail k (f x) m)"

definition parseDNP3 :: "packet \<Rightarrow> parsed" where
  "parseDNP3 p =
     (let b = pk_AppPayload p in
      if length b < 10 then rejected
      else do {
        s0 \<leftarrow> go_idx b 0;
        s1 \<leftarrow> go_idx b 1;
        if s0 \<noteq> 0x05 \<or> s1 \<noteq> 0x64 then rejected
        else if length b \<le> 12 then rejected
        else do {
          fc \<leftarrow> go_idx b 12;
          let n = (if name_of dnpFunctions fc = [] then ''Function'' else name_of dnpFunctions fc);
          let m = (newMessage p ''DNP3'')\<lparr> im_IsResponse := (pk_SrcPort p = PortDNP3), im_FunctionCode := fc, im_FunctionName := n \<rparr>;
          let m1 = put_opt ''source'' D_u16 (u16le b 6) (put_opt ''destination'' D_u16 (u16le b 4) m);
          accepted (dnp3_operation fc m1)
        }
      })"

lemma put_opt_ok [simp]:
  "describes p n (put_opt k f v m) = describes p n m"
  "k \<notin> set operation_keys \<Longrightarrow> unclassified (put_opt k f v m) = unclassified m"
  "k \<notin> set operation_keys \<Longrightarrow> critical_ok (put_opt k f v m) = critical_ok m"
  by (cases v; simp add: put_opt_def)+

lemma parser_operation_keys [simp]:
  "''destination'' \<notin> set operation_keys" "''source'' \<notin> set operation_keys" "''type_id'' \<notin> set operation_keys"
  "''bvlc_function'' \<notin> set operation_keys" "''pdu_type'' \<notin> set operation_keys" "''session_handle'' \<notin> set operation_keys"
  "''status'' \<notin> set operation_keys" "''encapsulation_command'' \<notin> set operation_keys" "''cip_service'' \<notin> set operation_keys"
  "''message_type'' \<notin> set operation_keys" "''chunk_type'' \<notin> set operation_keys" "''message_size'' \<notin> set operation_keys"
  "''frame_id'' \<notin> set operation_keys" "''service_type'' \<notin> set operation_keys"
  by (simp_all add: operation_keys_def)

text \<open>Classification keeps an unclassified message within the contract.\<close>

lemma classify_ok:
  "unclassified m \<Longrightarrow> critical_ok (setOperation c w x False m)"
  "unclassified m \<Longrightarrow> critical_ok (setOperation ''mode'' True True True m)"
  "unclassified m \<Longrightarrow> critical_ok m"
  by (simp_all add: critical_ok_set unclassified_critical_ok)

lemma dnp3_operation_ok: "unclassified m \<Longrightarrow> critical_ok (dnp3_operation fc m)"
  by (simp add: dnp3_operation_def classify_ok)

lemma describes_dnp3_operation [simp]: "describes p n (dnp3_operation fc m) = describes p n m"
  by (simp add: dnp3_operation_def)

interpretation dnp3: protocol_parser "''DNP3''" parseDNP3
proof (rule protocol_parserI)
  fix p :: packet
  let ?b = "pk_AppPayload p"
  show "parser_result p ''DNP3'' (parseDNP3 p)"
  proof (cases "length ?b < 10")
    case False
    then have "?b \<noteq> []" "Suc 0 < length ?b" by auto
    with False show ?thesis by (simp add: parseDNP3_def Let_def dnp3_operation_ok)
  qed (simp add: parseDNP3_def)
qed (simp add: parseDNP3_def)

section \<open>IEC 60870-5-104\<close>

definition PortIEC104 :: u16 where "PortIEC104 = 2404"

definition iecTypes :: "(u8, string) gomap" where
  "iecTypes = [(1, ''SinglePoint''), (3, ''DoublePoint''), (9, ''MeasuredNormalized''), (11, ''MeasuredScaled''),
     (13, ''MeasuredFloat''), (30, ''SinglePointTime''), (45, ''SingleCommand''), (46, ''DoubleCommand''),
     (47, ''RegulatingStepCommand''), (48, ''SetPointNormalized''), (49, ''SetPointScaled''), (50, ''SetPointFloat''),
     (100, ''Interrogation''), (103, ''ClockSync''), (105, ''ResetProcess''), (107, ''TestCommandTime'')]"

definition iec104_operation :: "u8 \<Rightarrow> ics_message \<Rightarrow> ics_message" where
  "iec104_operation ty m =
     (if ty \<ge> 45 \<and> ty \<le> 50 then setOperation ''command'' True True False m
      else if ty = 103 then setOperation ''time'' True True False m
      else if ty = 105 then setOperation ''mode'' True True True m
      else if ty = 100 then setOperation ''read'' False False False m
      else m)"

definition parseIEC104 :: "packet \<Rightarrow> parsed" where
  "parseIEC104 p =
     (let b = pk_AppPayload p in
      if length b < 6 then rejected
      else do {
        start \<leftarrow> go_idx b 0;
        len \<leftarrow> go_idx b 1;
        if start \<noteq> 0x68 \<or> unat len + 2 > length b then rejected
        else
          let m = (newMessage p ''IEC 60870-5-104'')\<lparr> im_IsResponse := (pk_SrcPort p = PortIEC104) \<rparr>
          in if length b = 6 then accepted (m\<lparr> im_FunctionName := ''U/S-format'' \<rparr>)
             else do {
               ty \<leftarrow> go_idx b 6;
               let n = (if name_of iecTypes ty = [] then ''ASDU'' else name_of iecTypes ty);
               accepted (iec104_operation ty (put_detail ''type_id'' (D_u8 ty) (m\<lparr> im_FunctionCode := ty, im_FunctionName := n \<rparr>)))
             }
      })"

lemma iec104_operation_ok: "unclassified m \<Longrightarrow> critical_ok (iec104_operation ty m)"
  by (simp add: iec104_operation_def classify_ok)

lemma describes_iec104_operation [simp]: "describes p n (iec104_operation ty m) = describes p n m"
  by (simp add: iec104_operation_def)

interpretation iec104: protocol_parser "''IEC 60870-5-104''" parseIEC104
proof (rule protocol_parserI)
  fix p :: packet
  let ?b = "pk_AppPayload p"
  show "parser_result p ''IEC 60870-5-104'' (parseIEC104 p)"
  proof (cases "length ?b < 6")
    case False
    then have "?b \<noteq> []" "Suc 0 < length ?b" by auto
    with False show ?thesis by (auto simp: parseIEC104_def Let_def iec104_operation_ok classify_ok go_idx_def)
  qed (simp add: parseIEC104_def)
qed (simp add: parseIEC104_def)

section \<open>BACnet/IP\<close>

definition PortBACnet :: u16 where "PortBACnet = 47808"

definition bacnetServices :: "(u8, string) gomap" where
  "bacnetServices = [(0, ''AcknowledgeAlarm''), (5, ''SubscribeCOV''), (12, ''ReadProperty''), (14, ''ReadPropertyMultiple''),
     (15, ''WriteProperty''), (16, ''WritePropertyMultiple''), (17, ''DeviceCommunicationControl''), (20, ''ReinitializeDevice''),
     (26, ''ReadRange'')]"

definition bacnetUnconfirmed :: "(u8, string) gomap" where
  "bacnetUnconfirmed = [(0, ''I-Am''), (2, ''UnconfirmedCOVNotification''), (8, ''Who-Is''), (7, ''Who-Has''),
     (6, ''TimeSynchronization'')]"

text \<open>One of the three tests that name the service: guard, offset and table.\<close>

definition bacnet_service :: "bool \<Rightarrow> bytes \<Rightarrow> nat \<Rightarrow> (u8, string) gomap \<Rightarrow> ics_message \<Rightarrow> ics_message go" where
  "bacnet_service guard b i names m =
     (if guard \<and> length b > i
      then do { svc \<leftarrow> go_idx b i; go_ret (m\<lparr> im_FunctionCode := svc, im_FunctionName := name_of names svc \<rparr>) }
      else go_ret m)"

definition bacnet_operation :: "ics_message \<Rightarrow> ics_message" where
  "bacnet_operation m =
     (let n = im_FunctionName m in
      if n = ''WriteProperty'' \<or> n = ''WritePropertyMultiple'' then setOperation ''write'' True True False m
      else if n = ''DeviceCommunicationControl'' \<or> n = ''ReinitializeDevice'' then setOperation ''mode'' True True True m
      else if n = ''TimeSynchronization'' then setOperation ''time'' True True False m
      else if n = ''ReadProperty'' \<or> n = ''ReadPropertyMultiple'' \<or> n = ''ReadRange'' then setOperation ''read'' False False False m
      else m)"

definition parseBACnet :: "packet \<Rightarrow> parsed" where
  "parseBACnet p =
     (let b = pk_AppPayload p in
      if length b < 6 then rejected
      else do {
        kind \<leftarrow> go_idx b 0;
        if kind \<noteq> 0x81 then rejected
        else do {
          bvlc \<leftarrow> go_idx b 1;
          let m = put_detail ''bvlc_function'' (D_u8 bvlc)
             ((newMessage p ''BACnet/IP'')\<lparr> im_IsResponse := (pk_SrcPort p = PortBACnet) \<rparr>);
          if length b \<le> 4 then accepted m
          else do {
            npdu \<leftarrow> go_idx b 4;
            if npdu \<noteq> 0x01 then rejected
            else if length b \<le> 6 then accepted m
            else do {
              apdu \<leftarrow> go_idx b 6;
              let pdu = drop_bit 4 apdu;
              m1 \<leftarrow> bacnet_service (pdu = 1) b 9 bacnetServices (put_detail ''pdu_type'' (D_u8 pdu) m);
              m2 \<leftarrow> bacnet_service (pdu = 0) b 9 bacnetServices m1;
              m3 \<leftarrow> bacnet_service (pdu = 1) b 7 bacnetUnconfirmed m2;
              accepted (bacnet_operation (if im_FunctionName m3 = [] then m3\<lparr> im_FunctionName := ''BVLC/NPDU'' \<rparr> else m3))
            }
          }
        }
      })"

lemma bacnet_service_ok:
  "\<exists>m'. bacnet_service g b i names m = Some m' \<and> (\<forall>p n. describes p n m' = describes p n m) \<and> unclassified m' = unclassified m"
  by (simp add: bacnet_service_def)

lemma bacnet_operation_ok: "unclassified m \<Longrightarrow> critical_ok (bacnet_operation m)"
  by (simp add: bacnet_operation_def Let_def classify_ok)

lemma describes_bacnet_operation [simp]: "describes p n (bacnet_operation m) = describes p n m"
  by (simp add: bacnet_operation_def Let_def)

interpretation bacnet: protocol_parser "''BACnet/IP''" parseBACnet
proof (rule protocol_parserI)
  fix p :: packet
  let ?b = "pk_AppPayload p"
  show "parser_result p ''BACnet/IP'' (parseBACnet p)"
  proof (cases "length ?b < 6")
    case False
    let ?m = "put_detail ''pdu_type'' (D_u8 (drop_bit 4 (?b ! 6))) (put_detail ''bvlc_function'' (D_u8 (?b ! 1))
        ((newMessage p ''BACnet/IP'')\<lparr> im_IsResponse := (pk_SrcPort p = PortBACnet) \<rparr>))"
    let ?c = "drop_bit 4 (?b ! 6) = 1" and ?u = "drop_bit 4 (?b ! 6) = 0"
    have m: "unclassified ?m" "describes p ''BACnet/IP'' ?m" by simp_all
    obtain m1 where 1: "bacnet_service ?c ?b 9 bacnetServices ?m = Some m1" "describes p ''BACnet/IP'' m1" "unclassified m1"
      using bacnet_service_ok [of ?c ?b 9 bacnetServices ?m] m by auto
    obtain m2 where 2: "bacnet_service ?u ?b 9 bacnetServices m1 = Some m2" "describes p ''BACnet/IP'' m2" "unclassified m2"
      using bacnet_service_ok [of ?u ?b 9 bacnetServices m1] 1 by auto
    obtain m3 where 3: "bacnet_service ?c ?b 7 bacnetUnconfirmed m2 = Some m3" "describes p ''BACnet/IP'' m3" "unclassified m3"
      using bacnet_service_ok [of ?c ?b 7 bacnetUnconfirmed m2] 2 by auto
    have "?b \<noteq> []" "Suc 0 < length ?b" "4 < length ?b" using False by auto
    with False 1(1) 2(1) 3 show ?thesis
      by (simp add: parseBACnet_def Let_def bacnet_operation_ok classify_ok)
  qed (simp add: parseBACnet_def)
qed (simp add: parseBACnet_def)

section \<open>EtherNet/IP\<close>

definition PortEtherNetIP :: u16 where "PortEtherNetIP = 44818"

definition enipCommands :: "(u16, string) gomap" where
  "enipCommands = [(0x0001, ''NOP''), (0x0004, ''ListServices''), (0x0063, ''ListIdentity''), (0x0064, ''ListInterfaces''),
     (0x0065, ''RegisterSession''), (0x0066, ''UnregisterSession''), (0x006f, ''SendRRData''), (0x0070, ''SendUnitData'')]"

definition enip_operation :: "u8 \<Rightarrow> ics_message \<Rightarrow> ics_message" where
  "enip_operation svc m =
     (if svc \<in> {0x4d, 0x4e, 0x10, 0x53} then setOperation ''write'' True True False m
      else if svc \<in> {0x01, 0x0e, 0x4c} then setOperation ''read'' False False False m
      else m)"

text \<open>The encapsulated CIP service, taken from the last byte of the payload.\<close>

definition enip_service :: "bytes \<Rightarrow> u16 \<Rightarrow> string \<Rightarrow> ics_message \<Rightarrow> ics_message go" where
  "enip_service b cmd n m =
     (if cmd = 0x006f \<or> cmd = 0x0070 then
        let m1 = put_detail ''encapsulation_command'' (D_string n) m
        in if length b > 40
           then do { svc \<leftarrow> go_idx b (length b - 1); go_ret (enip_operation svc (put_detail ''cip_service'' (D_u8 svc) m1)) }
           else go_ret m1
      else go_ret m)"

definition enip_header :: "packet \<Rightarrow> u16 \<Rightarrow> string \<Rightarrow> ics_message" where
  "enip_header p cmd n =
     (let b = pk_AppPayload p;
          m = (newMessage p ''EtherNet/IP'')\<lparr> im_FunctionCode := ucast cmd, im_FunctionName := n,
                im_IsResponse := (pk_SrcPort p = PortEtherNetIP) \<rparr>;
          m1 = put_opt ''session_handle'' D_u32 (u32le b 4) m
      in case u32le b 8 of
           None \<Rightarrow> m1
         | Some st \<Rightarrow> (put_detail ''status'' (D_u32 st) m1)\<lparr> im_IsException := (st \<noteq> 0) \<rparr>)"

definition parseEtherNetIP :: "packet \<Rightarrow> parsed" where
  "parseEtherNetIP p =
     (let b = pk_AppPayload p in
      if length b < 24 then rejected
      else
        let cmd = (case u16le b 0 of None \<Rightarrow> 0 | Some c \<Rightarrow> c)
        in case mget enipCommands cmd of
             None \<Rightarrow> rejected
           | Some n \<Rightarrow> map_option Some (enip_service b cmd n (enip_header p cmd n)))"

lemma enip_header_ok [simp]: "unclassified (enip_header p cmd n)" "describes p ''EtherNet/IP'' (enip_header p cmd n)"
  by (simp_all add: enip_header_def Let_def split: option.splits)

lemma enip_operation_ok [simp]:
  "unclassified m \<Longrightarrow> critical_ok (enip_operation svc m)" "describes p n (enip_operation svc m) = describes p n m"
  by (simp_all add: enip_operation_def classify_ok)

interpretation ethernetip: protocol_parser "''EtherNet/IP''" parseEtherNetIP
proof (rule protocol_parserI)
  fix p :: packet
  show "parser_result p ''EtherNet/IP'' (parseEtherNetIP p)"
  proof (cases "length (pk_AppPayload p) < 24")
    case False
    then have "length (pk_AppPayload p) - 1 < length (pk_AppPayload p)" by simp
    then show ?thesis
      by (simp add: parseEtherNetIP_def enip_service_def Let_def classify_ok split: option.split)
  qed (simp add: parseEtherNetIP_def)
qed (simp add: parseEtherNetIP_def)

section \<open>OPC UA\<close>

definition PortOPCUA :: u16 where "PortOPCUA = 4840"

definition opcTypes :: "(string, string) gomap" where
  "opcTypes = [(''HEL'', ''Hello''), (''ACK'', ''Acknowledge''), (''ERR'', ''Error''), (''RHE'', ''ReverseHello''),
     (''OPN'', ''OpenSecureChannel''), (''CLO'', ''CloseSecureChannel''), (''MSG'', ''SecureMessage'')]"

definition opcua_message :: "packet \<Rightarrow> string \<Rightarrow> u8 \<Rightarrow> u8 \<Rightarrow> ics_message" where
  "opcua_message p ty first chunk =
     put_opt ''message_size'' D_u32 (u32le (pk_AppPayload p) 4)
       (put_detail ''chunk_type'' (D_string (string_of [chunk])) (put_detail ''message_type'' (D_string ty)
         ((newMessage p ''OPC UA'')\<lparr> im_FunctionName := name_of opcTypes ty, im_FunctionCode := first,
            im_IsResponse := (pk_SrcPort p = PortOPCUA) \<rparr>)))"

definition parseOPCUA :: "packet \<Rightarrow> parsed" where
  "parseOPCUA p =
     (let b = pk_AppPayload p in
      if length b < 8 then rejected
      else do {
        t3 \<leftarrow> go_slice b 0 3;
        let ty = string_of t3;
        if name_of opcTypes ty = [] then rejected
        else do {
          chunk \<leftarrow> go_idx b 3;
          if chunk \<noteq> 70 \<and> chunk \<noteq> 67 \<and> chunk \<noteq> 65 then rejected
          else do {
            first \<leftarrow> go_idx b 0;
            let m = opcua_message p ty first chunk;
            accepted (if ty = ''OPN'' \<or> ty = ''CLO'' \<or> ty = ''HEL'' \<or> ty = ''ACK''
                      then setOperation ''session'' False False False m else m)
          }
        }
      })"

lemma opcua_message_ok [simp]: "unclassified (opcua_message p ty f c)" "describes p ''OPC UA'' (opcua_message p ty f c)"
  by (simp_all add: opcua_message_def)

interpretation opcua: protocol_parser "''OPC UA''" parseOPCUA
proof (rule protocol_parserI)
  fix p :: packet
  show "parser_result p ''OPC UA'' (parseOPCUA p)"
  proof (cases "length (pk_AppPayload p) < 8")
    case False
    then have "pk_AppPayload p \<noteq> []" by auto
    with False show ?thesis by (simp add: parseOPCUA_def Let_def classify_ok)
  qed (simp add: parseOPCUA_def)
qed (simp add: parseOPCUA_def)

section \<open>PROFINET DCP\<close>

definition profinet_can_parse :: "packet \<Rightarrow> bool go" where
  "profinet_can_parse p =
     (if pk_EtherType p = ''PROFINET'' then go_ret True
      else if pk_EtherType p = ''UnknownEthernetType'' \<and> length (pk_AppPayload p) \<ge> 2
      then map_option (\<lambda>b. b \<ge> 0xfe) (go_idx (pk_AppPayload p) 0)
      else go_ret False)"

definition profinet_services :: "(u8, string) gomap" where
  "profinet_services = [(3, ''Get''), (4, ''Set''), (5, ''Identify''), (6, ''Hello'')]"

definition profinet_operation :: "u8 \<Rightarrow> ics_message \<Rightarrow> ics_message" where
  "profinet_operation svc m =
     (if svc = 4 then setOperation ''config'' True True False m
      else if svc = 3 \<or> svc = 5 then setOperation ''discovery'' False False False m
      else m)"

definition parse_profinet :: "packet \<Rightarrow> parsed" where
  "parse_profinet p =
     (let b = pk_AppPayload p in
      if length b < 12 then rejected
      else
        let frameID = (case u16be b 0 of None \<Rightarrow> 0 | Some w \<Rightarrow> w)
        in if frameID < 0xfefe \<or> frameID > 0xfeff then rejected
           else do {
             svc \<leftarrow> go_idx b 2;
             kind \<leftarrow> go_idx b 3;
             let n = (if name_of profinet_services svc = [] then ''DCP'' else name_of profinet_services svc);
             accepted (profinet_operation svc (put_detail ''service_type'' (D_u8 kind) (put_detail ''frame_id'' (D_u16 frameID)
               ((newMessage p ''PROFINET DCP'')\<lparr> im_FunctionCode := svc, im_FunctionName := n \<rparr>))))
           })"

lemma profinet_can_parse_total: "profinet_can_parse p \<noteq> None"
proof -
  have "pk_AppPayload p \<noteq> []" if "2 \<le> length (pk_AppPayload p)" using that by auto
  then show ?thesis unfolding profinet_can_parse_def by (simp only: split: if_split) auto
qed

lemma profinet_operation_ok [simp]:
  "unclassified m \<Longrightarrow> critical_ok (profinet_operation svc m)" "describes p n (profinet_operation svc m) = describes p n m"
  by (simp_all add: profinet_operation_def classify_ok)

interpretation profinet: protocol_parser "''PROFINET DCP''" parse_profinet
  by (rule protocol_parserI) (simp_all add: parse_profinet_def Let_def)

end
