(* ===== verification/Ics_Engine.thy ===== *)
theory Ics_Engine
  imports Ics_Parsers
begin

text \<open>
  internal/ics/engine.go: the ordered list of protocol parsers, the dispatch of a packet to the
  first parser that can parse it, and the malformed-frame signal.
\<close>

section \<open>The engine\<close>

record ics_config =
  ic_ModbusPort :: u16
  ic_S7Port :: u16
  ic_EtherNetIPPort :: u16
  ic_DNP3Port :: u16
  ic_OPCUAPort :: u16
  ic_BACnetPort :: u16
  ic_IEC104Port :: u16

definition PortModbus :: u16 where "PortModbus = 502"
definition PortS7Comm :: u16 where "PortS7Comm = 102"

text \<open>The values behind the interface \<open>protocolParser\<close>.\<close>

record protocol_handler =
  ph_Name :: string
  ph_CanParse :: "packet \<Rightarrow> bool go"
  ph_Parse :: "packet \<Rightarrow> parsed"

definition port_can_parse :: "string \<Rightarrow> u16 \<Rightarrow> packet \<Rightarrow> bool" where
  "port_can_parse transport port p \<longleftrightarrow>
     pk_L4Protocol p = transport \<and> (pk_SrcPort p = port \<or> pk_DstPort p = port) \<and> length (pk_AppPayload p) > 0"

definition portParser :: "string \<Rightarrow> string \<Rightarrow> u16 \<Rightarrow> (packet \<Rightarrow> parsed) \<Rightarrow> protocol_handler" where
  "portParser name transport port parse =
     \<lparr> ph_Name = name, ph_CanParse = (\<lambda>p. go_ret (port_can_parse transport port p)), ph_Parse = parse \<rparr>"

definition or_default :: "u16 \<Rightarrow> u16 \<Rightarrow> u16" where
  "or_default d port = (if port = 0 then d else port)"

definition ics_defaults :: "ics_config \<Rightarrow> ics_config" where
  "ics_defaults c =
     \<lparr> ic_ModbusPort = or_default PortModbus (ic_ModbusPort c), ic_S7Port = or_default PortS7Comm (ic_S7Port c),
       ic_EtherNetIPPort = or_default PortEtherNetIP (ic_EtherNetIPPort c), ic_DNP3Port = or_default PortDNP3 (ic_DNP3Port c),
       ic_OPCUAPort = or_default PortOPCUA (ic_OPCUAPort c), ic_BACnetPort = or_default PortBACnet (ic_BACnetPort c),
       ic_IEC104Port = or_default PortIEC104 (ic_IEC104Port c) \<rparr>"

definition ics_parsers :: "ics_config \<Rightarrow> protocol_handler list" where
  "ics_parsers cfg =
     (let c = ics_defaults cfg in
      [portParser ''Modbus'' ''TCP'' (ic_ModbusPort c) (parseModbus (ic_ModbusPort c)),
       portParser ''S7comm'' ''TCP'' (ic_S7Port c) parseS7Comm,
       portParser ''EtherNet/IP'' ''TCP'' (ic_EtherNetIPPort c) parseEtherNetIP,
       portParser ''DNP3'' ''TCP'' (ic_DNP3Port c) parseDNP3,
       portParser ''OPC UA'' ''TCP'' (ic_OPCUAPort c) parseOPCUA,
       portParser ''BACnet/IP'' ''UDP'' (ic_BACnetPort c) parseBACnet,
       portParser ''IEC 60870-5-104'' ''TCP'' (ic_IEC104Port c) parseIEC104,
       \<lparr> ph_Name = ''PROFINET DCP'', ph_CanParse = profinet_can_parse, ph_Parse = parse_profinet \<rparr>])"

definition looksLikeICSFrame :: "string \<Rightarrow> bytes \<Rightarrow> bool go" where
  "looksLikeICSFrame name b =
     (if length b = 0 then go_ret False
      else if name = ''Modbus'' then go_and (go_ret (length b \<ge> 4)) (go_and (go_is b 2 0) (go_is b 3 0))
      else if name = ''S7comm'' then go_and (go_ret (length b \<ge> 2)) (go_and (go_is b 0 0x03) (go_is b 1 0x00))
      else if name = ''DNP3'' then go_and (go_ret (length b \<ge> 2)) (go_and (go_is b 0 0x05) (go_is b 1 0x64))
      else if name = ''IEC 60870-5-104'' then go_is b 0 0x68
      else if name = ''BACnet/IP'' then go_is b 0 0x81
      else if name = ''OPC UA'' then
        (if length b < 3 then go_ret False
         else do { t \<leftarrow> go_slice b 0 3; go_ret (mget opcTypes (string_of t) \<noteq> None) })
      else if name = ''EtherNet/IP'' then
        (if length b < 2 then go_ret False
         else do { lo \<leftarrow> go_idx b 0; hi \<leftarrow> go_idx b 1;
                   go_ret (mget enipCommands (ucast lo OR push_bit 8 (ucast hi)) \<noteq> None) })
      else if name = ''PROFINET DCP'' then go_ret (length b \<ge> 3)
      else go_ret False)"

text \<open>What the engine publishes for one packet.\<close>

datatype ics_event = IcsMessage ics_message | IcsParseError string packet

fun dispatch :: "protocol_handler list \<Rightarrow> packet \<Rightarrow> ics_event option go" where
  "dispatch [] p = go_ret None"
| "dispatch (h # hs) p =
     do {
       can \<leftarrow> ph_CanParse h p;
       if \<not> can then dispatch hs p
       else do {
         r \<leftarrow> ph_Parse h p;
         case r of
           Some m \<Rightarrow> go_ret (Some (IcsMessage m))
         | None \<Rightarrow> do {
             like \<leftarrow> looksLikeICSFrame (ph_Name h) (pk_AppPayload p);
             go_ret (if like then Some (IcsParseError (ph_Name h) p) else None) }
       }
     }"

definition ics_handle :: "ics_config \<Rightarrow> packet \<Rightarrow> ics_event option go" where
  "ics_handle cfg p = dispatch (ics_parsers cfg) p"

text \<open>\<open>decode\<close> tries every parser that can parse the packet.\<close>

fun decode_with :: "protocol_handler list \<Rightarrow> packet \<Rightarrow> parsed" where
  "decode_with [] p = rejected"
| "decode_with (h # hs) p =
     do {
       can \<leftarrow> ph_CanParse h p;
       if \<not> can then decode_with hs p
       else do { r \<leftarrow> ph_Parse h p; case r of Some m \<Rightarrow> accepted m | None \<Rightarrow> decode_with hs p }
     }"

definition ics_decode :: "ics_config \<Rightarrow> packet \<Rightarrow> parsed" where
  "ics_decode cfg p = decode_with (ics_parsers cfg) p"

section \<open>Every packet is handled\<close>

definition handler_ok :: "protocol_handler \<Rightarrow> bool" where
  "handler_ok h \<longleftrightarrow> (\<forall>p. ph_CanParse h p \<noteq> None) \<and> (\<forall>p. parser_result p (ph_Name h) (ph_Parse h p))"

lemma handler_ok_port: "(\<And>p. parser_result p n (parse p)) \<Longrightarrow> handler_ok (portParser n t port parse)"
  by (simp add: handler_ok_def portParser_def)

lemma ics_parsers_ok: "h \<in> set (ics_parsers cfg) \<Longrightarrow> handler_ok h"
  by (auto simp: ics_parsers_def Let_def intro!: handler_ok_port modbus.parse_result s7comm.parse_result
      ethernetip.parse_result dnp3.parse_result opcua.parse_result bacnet.parse_result iec104.parse_result)
    (simp add: handler_ok_def profinet_can_parse_total profinet.parse_result)

text \<open>The parser that a packet is given to: the first one that can parse it.\<close>

definition chosen :: "protocol_handler list \<Rightarrow> packet \<Rightarrow> protocol_handler option" where
  "chosen hs p = find (\<lambda>h. ph_CanParse h p = Some True) hs"

definition verdict :: "protocol_handler \<Rightarrow> packet \<Rightarrow> parsed \<Rightarrow> ics_event option go" where
  "verdict h p r = do {
     x \<leftarrow> r;
     case x of
       Some m \<Rightarrow> go_ret (Some (IcsMessage m))
     | None \<Rightarrow> do {
         like \<leftarrow> looksLikeICSFrame (ph_Name h) (pk_AppPayload p);
         go_ret (if like then Some (IcsParseError (ph_Name h) p) else None) } }"

text \<open>The guards of \<open>looksLikeICSFrame\<close> cover every byte that it reads.\<close>

lemma looksLikeICSFrame_total: "looksLikeICSFrame name b \<noteq> None"
  by (auto simp: looksLikeICSFrame_def go_None_iffs bind_eq_None_conv simp del: go_and_ret go_is_ok not_None_eq split: if_splits)

lemma dispatch_chosen:
  assumes "\<And>h. h \<in> set hs \<Longrightarrow> handler_ok h"
  shows "dispatch hs p = (case chosen hs p of None \<Rightarrow> go_ret None | Some h \<Rightarrow> verdict h p (ph_Parse h p))"
  using assms
proof (induction hs)
  case (Cons h hs)
  obtain can where can: "ph_CanParse h p = Some can" using Cons.prems [of h] by (auto simp: handler_ok_def)
  obtain r where r: "ph_Parse h p = Some r" using Cons.prems [of h] by (auto simp: handler_ok_def parser_result_def)
  have IH: "dispatch hs p = (case chosen hs p of None \<Rightarrow> go_ret None | Some h \<Rightarrow> verdict h p (ph_Parse h p))"
    using Cons by simp
  show ?case
  proof (cases can)
    case True
    with can r show ?thesis by (cases r) (simp_all add: chosen_def verdict_def)
  next
    case False
    with can IH show ?thesis by (simp add: chosen_def)
  qed
qed (simp add: chosen_def)

lemma ics_handle_chosen:
  "ics_handle cfg p = (case chosen (ics_parsers cfg) p of None \<Rightarrow> go_ret None | Some h \<Rightarrow> verdict h p (ph_Parse h p))"
  unfolding ics_handle_def by (rule dispatch_chosen) (rule ics_parsers_ok)

lemma chosenD: "chosen hs p = Some h \<Longrightarrow> h \<in> set hs \<and> ph_CanParse h p = Some True"
  by (auto simp: chosen_def find_Some_iff)

text \<open>
  C12: Whatever the configuration and the payload, dispatching a packet ends without a panic: no
  parser, and no test of the frame that a parser rejected, reads beyond the payload.  A message
  published carries the endpoints, ports, time and origin of the packet and the protocol of a
  parser that accepts packets of that transport and port; what it marks as security-relevant is a
  write command of class program or mode.  A parse error is published only if such a parser
  rejected the packet and the payload looks like a frame of its protocol; it carries the packet itself.
\<close>

theorem ics_handle_sound:
  "\<exists>r. ics_handle cfg p = Some r \<and>
     (case r of
        None \<Rightarrow> True
      | Some (IcsMessage m) \<Rightarrow> critical_ok m \<and>
          (\<exists>h \<in> set (ics_parsers cfg). ph_CanParse h p = Some True \<and> describes p (ph_Name h) m)
      | Some (IcsParseError n q) \<Rightarrow> q = p \<and> looksLikeICSFrame n (pk_AppPayload p) = Some True \<and>
          (\<exists>h \<in> set (ics_parsers cfg). ph_CanParse h p = Some True \<and> ph_Name h = n \<and> ph_Parse h p = rejected))"
proof (cases "chosen (ics_parsers cfg) p")
  case None
  then show ?thesis by (simp add: ics_handle_chosen)
next
  case (Some h)
  then have h: "h \<in> set (ics_parsers cfg)" "ph_CanParse h p = Some True" using chosenD by blast+
  from ics_parsers_ok [OF h(1)] have "parser_result p (ph_Name h) (ph_Parse h p)" by (simp add: handler_ok_def)
  then consider (no) "ph_Parse h p = rejected" | (yes) m where "ph_Parse h p = accepted m" "describes p (ph_Name h) m" "critical_ok m"
    by (auto simp: parser_result_def)
  then show ?thesis
  proof cases
    case no
    obtain like where "looksLikeICSFrame (ph_Name h) (pk_AppPayload p) = Some like" using looksLikeICSFrame_total by fast
    with no Some h show ?thesis by (cases like) (auto simp: ics_handle_chosen verdict_def)
  next
    case yes
    with Some h show ?thesis by (auto simp: ics_handle_chosen verdict_def)
  qed
qed

section \<open>The two entry points agree\<close>

text \<open>The messages of the parsers that can parse a packet and accept it, in their order.\<close>

definition accepted_messages :: "protocol_handler list \<Rightarrow> packet \<Rightarrow> ics_message list" where
  "accepted_messages hs p = [m. h \<leftarrow> hs, ph_CanParse h p = Some True, Some (Some m) \<leftarrow> [ph_Parse h p]]"

lemma decode_with_first:
  assumes "\<And>h. h \<in> set hs \<Longrightarrow> handler_ok h"
  shows "decode_with hs p = (case accepted_messages hs p of [] \<Rightarrow> rejected | m # _ \<Rightarrow> accepted m)"
  using assms
proof (induction hs)
  case (Cons h hs)
  obtain can where can: "ph_CanParse h p = Some can" using Cons.prems [of h] by (auto simp: handler_ok_def)
  obtain r where r: "ph_Parse h p = Some r" using Cons.prems [of h] by (auto simp: handler_ok_def parser_result_def)
  from Cons can r show ?case by (cases can; cases r) (simp_all add: accepted_messages_def)
qed (simp add: accepted_messages_def)

lemma handle_message_iff:
  "ics_handle cfg p = Some (Some (IcsMessage m)) \<longleftrightarrow>
   (\<exists>h hs. filter (\<lambda>h. ph_CanParse h p = Some True) (ics_parsers cfg) = h # hs \<and> ph_Parse h p = accepted m)"
proof -
  have find: "chosen hs p = (case filter (\<lambda>h. ph_CanParse h p = Some True) hs of [] \<Rightarrow> None | h # _ \<Rightarrow> Some h)" for hs
    by (induction hs) (simp_all add: chosen_def)
  show ?thesis
    unfolding ics_handle_chosen find verdict_def
    by (auto split: list.split option.splits bind_splits)
qed

text \<open>
  C26: The two entry points, against one list of parsers.  \<open>decode\<close> returns the first message that
  any parser which can parse the packet accepts, in the order of the list, and nothing only if
  all of them reject it.  The event-driven path publishes a message exactly if the first parser
  that can parse the packet accepts it; later parsers are not asked.  So what is published is what
  \<open>decode\<close> returns.
\<close>

theorem ics_decode_agrees:
  "ics_decode cfg p = (case accepted_messages (ics_parsers cfg) p of [] \<Rightarrow> rejected | m # _ \<Rightarrow> accepted m) \<and>
   (ics_handle cfg p = Some (Some (IcsMessage m)) \<longleftrightarrow>
     (\<exists>h hs. filter (\<lambda>h. ph_CanParse h p = Some True) (ics_parsers cfg) = h # hs \<and> ph_Parse h p = accepted m)) \<and>
   (ics_handle cfg p = Some (Some (IcsMessage m)) \<longrightarrow> ics_decode cfg p = accepted m)"
proof -
  have d: "ics_decode cfg p = (case accepted_messages (ics_parsers cfg) p of [] \<Rightarrow> rejected | m # _ \<Rightarrow> accepted m)"
    unfolding ics_decode_def by (rule decode_with_first) (rule ics_parsers_ok)
  have "accepted_messages hs p = accepted_messages (filter (\<lambda>h. ph_CanParse h p = Some True) hs) p" for hs
    by (induction hs) (simp_all add: accepted_messages_def)
  moreover have "accepted_messages (h # hs) p = m # accepted_messages hs p"
    if "filter (\<lambda>h. ph_CanParse h p = Some True) (ics_parsers cfg) = h # hs" "ph_Parse h p = accepted m" for h hs
    using that by (auto simp: accepted_messages_def filter_eq_Cons_iff)
  ultimately have "ics_decode cfg p = accepted m"
    if "filter (\<lambda>h. ph_CanParse h p = Some True) (ics_parsers cfg) = h # hs" "ph_Parse h p = accepted m" for h hs
    using d that by (metis list.simps(5))
  with d handle_message_iff [of cfg p m] show ?thesis by blast
qed

definition default_ports :: ics_config where
  "default_ports = \<lparr> ic_ModbusPort = 0, ic_S7Port = 0, ic_EtherNetIPPort = 0, ic_DNP3Port = 0, ic_OPCUAPort = 0,
     ic_BACnetPort = 0, ic_IEC104Port = 0 \<rparr>"

definition opcua_hello :: packet where
  "opcua_hello = zero_packet\<lparr> pk_L4Protocol := ''TCP'', pk_SrcPort := 40000, pk_DstPort := 4840,
     pk_AppPayload := [72, 69, 76, 70, 8, 0, 0, 0] \<rparr>"

theorem ics_decode_agrees_witness:
  "\<exists>m. ics_handle default_ports opcua_hello = Some (Some (IcsMessage m)) \<and> ics_decode default_ports opcua_hello = accepted m"
proof -
  let ?m = "setOperation ''session'' False False False (opcua_message opcua_hello ''HEL'' 72 70)"
  have "string_of [72, 69, 76] = ''HEL''" by code_simp
  then have "parseOPCUA opcua_hello = accepted ?m"
    by (simp add: parseOPCUA_def opcua_hello_def go_idx_def name_of_def opcTypes_def mget_def)
  moreover have "chosen (ics_parsers default_ports) opcua_hello = Some (portParser ''OPC UA'' ''TCP'' 4840 parseOPCUA)"
    by (simp add: chosen_def ics_parsers_def default_ports_def ics_defaults_def or_default_def PortModbus_def PortS7Comm_def
        PortEtherNetIP_def PortDNP3_def PortOPCUA_def portParser_def port_can_parse_def opcua_hello_def zero_packet_def)
  ultimately have "ics_handle default_ports opcua_hello = Some (Some (IcsMessage ?m))"
    by (simp add: ics_handle_chosen verdict_def portParser_def)
  with ics_decode_agrees [of default_ports opcua_hello ?m] show ?thesis by blast
qed

section \<open>Frames that are not what they are taken for\<close>

text \<open>A TPKT with a COTP connection request, connection confirm or disconnect request.\<close>

definition cotp_frame :: "u8 \<Rightarrow> u8 \<Rightarrow> bytes \<Rightarrow> bytes" where
  "cotp_frame li pdu rest = [3, 0] @ u16_bytes (of_nat (6 + length rest)) @ [li, pdu] @ rest"

lemma cotp_frame_rejected:
  assumes "pdu AND 0xF0 \<in> {0xE0, 0xD0, 0x80}" and "pk_AppPayload p = cotp_frame li pdu rest"
  shows "parseS7Comm p = rejected"
  using assms by (auto simp: parseS7Comm_def Let_def cotp_frame_def u16_bytes_def go_idx_def)

text \<open>
  The connection setup and teardown of S7 are counted as malformed frames: every well-formed
  COTP connection request, confirm or disconnect request on the S7 port makes the engine publish
  a parse error, although the parser recognises these messages and only does not decode them.
\<close>

theorem s7_connection_setup_reported_malformed:
  assumes "pdu AND 0xF0 \<in> {0xE0, 0xD0, 0x80}" and "pk_AppPayload p = cotp_frame li pdu rest"
    and "pk_L4Protocol p = ''TCP''" and "pk_DstPort p = 102" and "pk_SrcPort p \<noteq> 502"
  shows "ics_handle \<lparr> ic_ModbusPort = 0, ic_S7Port = 0, ic_EtherNetIPPort = 0, ic_DNP3Port = 0, ic_OPCUAPort = 0,
     ic_BACnetPort = 0, ic_IEC104Port = 0 \<rparr> p = Some (Some (IcsParseError ''S7comm'' p))"
proof -
  let ?cfg = "\<lparr> ic_ModbusPort = 0, ic_S7Port = 0, ic_EtherNetIPPort = 0, ic_DNP3Port = 0, ic_OPCUAPort = 0,
     ic_BACnetPort = 0, ic_IEC104Port = 0 \<rparr>"
  have "pk_AppPayload p \<noteq> []" by (simp add: assms(2) cotp_frame_def)
  then have "chosen (ics_parsers ?cfg) p = Some (portParser ''S7comm'' ''TCP'' 102 parseS7Comm)"
    using assms(3-5) by (simp add: chosen_def ics_parsers_def ics_defaults_def or_default_def PortModbus_def PortS7Comm_def
        portParser_def port_can_parse_def Let_def)
  then have "ics_handle ?cfg p = verdict (portParser ''S7comm'' ''TCP'' 102 parseS7Comm) p (parseS7Comm p)"
    by (simp add: ics_handle_chosen portParser_def)
  with cotp_frame_rejected [OF assms(1,2)] show ?thesis
    by (simp add: verdict_def portParser_def looksLikeICSFrame_def assms(2) cotp_frame_def go_is_def)
qed

theorem s7_connection_setup_reported_malformed_witness:
  "let p = zero_packet\<lparr> pk_L4Protocol := ''TCP'', pk_SrcPort := 40000, pk_DstPort := 102,
         pk_AppPayload := cotp_frame 17 0xE0 [0, 0, 0, 1, 0] \<rparr> in
   ics_handle \<lparr> ic_ModbusPort = 0, ic_S7Port = 0, ic_EtherNetIPPort = 0, ic_DNP3Port = 0, ic_OPCUAPort = 0,
     ic_BACnetPort = 0, ic_IEC104Port = 0 \<rparr> p = Some (Some (IcsParseError ''S7comm'' p))"
proof -
  let ?p = "zero_packet\<lparr> pk_L4Protocol := ''TCP'', pk_SrcPort := 40000, pk_DstPort := 102,
         pk_AppPayload := cotp_frame 17 0xE0 [0, 0, 0, 1, 0] \<rparr>"
  have "(0xE0 :: u8) AND 0xF0 \<in> {0xE0, 0xD0, 0x80}" by simp
  from s7_connection_setup_reported_malformed [OF this, of ?p 17 "[0, 0, 0, 1, 0]"] show ?thesis by (simp add: Let_def)
qed

text \<open>
  In a segment with an IEC 104 control frame and, behind it, further frames, the parser takes the start
  byte of the second frame for a type identification: whatever command the second frame carries,
  the message has type 104 and is not marked as a write.
\<close>

theorem iec104_following_command_missed:
  "\<exists>m. parseIEC104 (p\<lparr> pk_AppPayload := [0x68, 4, c1, c2, c3, c4] @ 0x68 # frames \<rparr>) = accepted m \<and>
     im_FunctionName m = ''ASDU'' \<and> im_FunctionCode m = 104 \<and> detail_of m ''is_write'' = None \<and>
     detail_of m ''operation_class'' = None"
  by (simp add: parseIEC104_def Let_def go_idx_def iec104_operation_def name_of_def iecTypes_def mget_def)

end
