(* ===== verification/Tag_Baseline.thy ===== *)
theory Tag_Baseline
  imports Complex_Main Otl_Prelude
begin

text \<open>
  internal/store/engine.go: the robust baseline of one process variable.  A reservoir of at most
  128 samples, exponentially weighted typical change and rate, median, median absolute deviation
  and two quantiles, and the bounds derived from them.  The program computes in float64; the
  model computes the same expressions exactly, in rational numbers.
\<close>

section \<open>State and operations\<close>

record robust_baseline =
  rb_Samples :: "rat list"
  rb_SampleCount :: u64
  rb_Median :: rat
  rb_MAD :: rat
  rb_P05 :: rat
  rb_P95 :: rat
  rb_TypicalDelta :: rat
  rb_TypicalRate :: rat
  rb_LastNumeric :: rat
  rb_LastNumericAt :: time
  rb_HasNumeric :: bool

definition empty_baseline :: robust_baseline where
  "empty_baseline = \<lparr> rb_Samples = [], rb_SampleCount = 0, rb_Median = 0, rb_MAD = 0, rb_P05 = 0, rb_P95 = 0,
     rb_TypicalDelta = 0, rb_TypicalRate = 0, rb_LastNumeric = 0, rb_LastNumericAt = 0, rb_HasNumeric = False \<rparr>"

definition robustValueReservoir :: nat where "robustValueReservoir = 128"

text \<open>\<open>Duration.Seconds\<close>.\<close>

definition seconds :: "duration \<Rightarrow> rat" where "seconds d = of_int d / 1000000000"

text \<open>The closure \<open>quantile\<close> over the sorted values.\<close>

definition quantile :: "rat list \<Rightarrow> rat \<Rightarrow> rat" where
  "quantile values q =
     (if length values = 1 then values ! 0
      else
        let pos = q * of_nat (length values - 1);
            lo = nat \<lfloor>pos\<rfloor>;
            hi = nat \<lceil>pos\<rceil>
        in if lo = hi then values ! lo
           else let f = pos - of_nat lo in values ! lo * (1 - f) + values ! hi * f)"

definition median_deviation :: "rat list \<Rightarrow> rat" where
  "median_deviation dev =
     (let n = length dev
      in if n mod 2 = 0 \<and> n > 1 then (dev ! (n div 2 - 1) + dev ! (n div 2)) / 2 else dev ! (n div 2))"

definition finalizeRobustBaseline :: "robust_baseline \<Rightarrow> robust_baseline" where
  "finalizeRobustBaseline b =
     (if rb_Samples b = [] then b
      else
        let values = sort (rb_Samples b);
            median = quantile values (1 / 2);
            dev = sort (map (\<lambda>v. \<bar>v - median\<bar>) values)
        in b\<lparr> rb_Median := median, rb_MAD := median_deviation dev, rb_P05 := quantile values (5 / 100),
              rb_P95 := quantile values (95 / 100) \<rparr>)"

text \<open>The exponentially weighted change and rate.\<close>

definition smooth :: "rat \<Rightarrow> rat \<Rightarrow> rat" where
  "smooth old new = (if old = 0 then new else 9 / 10 * old + 1 / 10 * new)"

definition learn_change :: "rat \<Rightarrow> time \<Rightarrow> robust_baseline \<Rightarrow> robust_baseline" where
  "learn_change v now b =
     (let delta = \<bar>v - rb_LastNumeric b\<bar>
      in if rb_HasNumeric b \<and> delta > 0 then
           let b1 = b\<lparr> rb_TypicalDelta := smooth (rb_TypicalDelta b) delta \<rparr>
           in if \<not> is_zero_time (rb_LastNumericAt b) \<and> rb_LastNumericAt b < now
              then b1\<lparr> rb_TypicalRate := smooth (rb_TypicalRate b) (delta / seconds (time_sub now (rb_LastNumericAt b))) \<rparr>
              else b1
         else b)"

definition reservoir_index :: "u64 \<Rightarrow> nat" where
  "reservoir_index samples_seen = unat ((samples_seen * 11400714819323198485) mod 128)"

definition store_sample :: "u64 \<Rightarrow> rat \<Rightarrow> rat list \<Rightarrow> rat list" where
  "store_sample samples_seen v samples =
     (if length samples < robustValueReservoir then samples @ [v] else samples[reservoir_index samples_seen := v])"

definition updateRobustBaseline :: "rat \<Rightarrow> time \<Rightarrow> robust_baseline \<Rightarrow> robust_baseline" where
  "updateRobustBaseline v now b =
     (let samples_seen = rb_SampleCount b + 1;
          b1 = (learn_change v now (b\<lparr> rb_SampleCount := samples_seen \<rparr>))
               \<lparr> rb_LastNumeric := v, rb_LastNumericAt := now, rb_HasNumeric := True \<rparr>;
          b2 = b1\<lparr> rb_Samples := store_sample samples_seen v (rb_Samples b1) \<rparr>
      in if samples_seen mod 32 = 0 then finalizeRobustBaseline b2 else b2)"

text \<open>The bounds; when both quantiles are still zero the statistics are computed first.\<close>

definition deadband :: "robust_baseline \<Rightarrow> rat" where
  "deadband b =
     (let span = rb_P95 b - rb_P05 b;
          d = max (span * (25 / 100)) (rb_MAD b * 3 * (14826 / 10000))
      in if d = 0 then max 1 (\<bar>rb_Median b\<bar> * (2 / 100)) else d)"

definition robustBaselineBounds :: "robust_baseline \<Rightarrow> (rat \<times> rat) option \<times> robust_baseline" where
  "robustBaselineBounds b =
     (if rb_SampleCount b < 30 \<or> length (rb_Samples b) < 10 then (None, b)
      else
        let b1 = (if rb_P05 b = 0 \<and> rb_P95 b = 0 then finalizeRobustBaseline b else b)
        in (Some (rb_P05 b1 - deadband b1, rb_P95 b1 + deadband b1), b1))"

section \<open>Quantiles\<close>

lemma position_bounds:
  fixes x :: rat
  assumes "0 \<le> x" and "x \<le> of_nat m"
  shows "nat \<lfloor>x\<rfloor> \<le> m" and "nat \<lceil>x\<rceil> \<le> m" and "nat \<lfloor>x\<rfloor> \<le> nat \<lceil>x\<rceil>"
    and "0 \<le> x - of_nat (nat \<lfloor>x\<rfloor>)" and "x - of_nat (nat \<lfloor>x\<rfloor>) \<le> 1"
proof -
  have "\<lceil>x\<rceil> \<le> int m" using assms(2) by (simp add: ceiling_le_iff)
  then show "nat \<lceil>x\<rceil> \<le> m" by linarith
  show le: "nat \<lfloor>x\<rfloor> \<le> nat \<lceil>x\<rceil>" by (intro nat_mono floor_le_ceiling)
  with \<open>nat \<lceil>x\<rceil> \<le> m\<close> show "nat \<lfloor>x\<rfloor> \<le> m" by linarith
  have "(of_nat (nat \<lfloor>x\<rfloor>) :: rat) = of_int \<lfloor>x\<rfloor>" using assms(1) by simp
  moreover have "of_int \<lfloor>x\<rfloor> \<le> x" "x \<le> of_int \<lfloor>x\<rfloor> + 1" using floor_correct [of x] by simp_all
  ultimately show "0 \<le> x - of_nat (nat \<lfloor>x\<rfloor>)" "x - of_nat (nat \<lfloor>x\<rfloor>) \<le> 1" by (simp_all only: diff_ge_0_iff_ge le_diff_eq diff_le_eq add.commute)
qed

lemma quantile_position:
  fixes q :: rat
  assumes "0 \<le> q" and "q \<le> 1"
  shows "0 \<le> q * of_nat n" and "q * of_nat n \<le> of_nat n"
proof -
  show "0 \<le> q * of_nat n" using assms(1) by simp
  have "q * of_nat n \<le> 1 * of_nat n" using assms(2) by (rule mult_right_mono) simp
  then show "q * of_nat n \<le> of_nat n" by simp
qed

text \<open>Between two neighbours of a sorted list the interpolation stays between them.\<close>

lemma between_mono:
  fixes a :: rat
  assumes "a \<le> b" and "0 \<le> f" and "f \<le> 1"
  shows "a \<le> a * (1 - f) + b * f" and "a * (1 - f) + b * f \<le> b"
proof -
  have "a * (1 - f) + b * f = a + (b - a) * f" by (simp add: algebra_simps)
  moreover have "0 \<le> (b - a) * f" using assms by simp
  moreover have "(b - a) * f \<le> (b - a) * 1" using assms by (intro mult_left_mono) simp_all
  ultimately show "a \<le> a * (1 - f) + b * f" "a * (1 - f) + b * f \<le> b" by simp_all
qed

lemma quantile_between:
  assumes "sorted xs" and "xs \<noteq> []" and "0 \<le> q" and "q \<le> 1"
  shows "xs ! nat \<lfloor>q * of_nat (length xs - 1)\<rfloor> \<le> quantile xs q"
    and "quantile xs q \<le> xs ! nat \<lceil>q * of_nat (length xs - 1)\<rceil>"
proof -
  let ?pos = "q * of_nat (length xs - 1)"
  let ?lo = "nat \<lfloor>?pos\<rfloor>" and ?hi = "nat \<lceil>?pos\<rceil>"
  note i = position_bounds [OF quantile_position [OF assms(3,4)], of "length xs - 1"]
  have "length xs - 1 < length xs" using assms(2) by (cases xs) simp_all
  with i(2) have "?hi < length xs" by (rule le_less_trans)
  then have le: "xs ! ?lo \<le> xs ! ?hi" using sorted_nth_mono [OF assms(1) i(3)] by blast
  have "quantile xs q = xs ! ?lo * (1 - (?pos - of_nat ?lo)) + xs ! ?hi * (?pos - of_nat ?lo) \<or>
    quantile xs q = xs ! ?lo \<and> ?lo = ?hi"
    unfolding quantile_def Let_def by simp
  with between_mono [OF le i(4,5)]
  show "xs ! ?lo \<le> quantile xs q" "quantile xs q \<le> xs ! ?hi" by (elim disjE conjE; simp only: order_refl)+
qed

lemma quantile_mono:
  assumes "sorted xs" and "xs \<noteq> []" and "0 \<le> p" and "p \<le> q" and "q \<le> 1"
  shows "quantile xs p \<le> quantile xs q"
proof -
  let ?n = "length xs - 1"
  let ?x = "p * of_nat ?n" and ?y = "q * of_nat ?n"
  have p: "p \<le> 1" and q: "0 \<le> q" using assms by linarith+
  note px = position_bounds [OF quantile_position [OF assms(3) p], of ?n]
  note qy = position_bounds [OF quantile_position [OF q assms(5)], of ?n]
  have xy: "?x \<le> ?y" using assms(4) by (intro mult_right_mono) simp_all
  have len: "?n < length xs" using assms(2) by (cases xs) simp_all
  show ?thesis
  proof (cases "nat \<lceil>?x\<rceil> \<le> nat \<lfloor>?y\<rfloor>")
    case True
    have "quantile xs p \<le> xs ! nat \<lceil>?x\<rceil>" using quantile_between(2) [OF assms(1,2,3) p] .
    also have "\<dots> \<le> xs ! nat \<lfloor>?y\<rfloor>" using True qy(1) len by (intro sorted_nth_mono [OF assms(1)]) simp_all
    also have "\<dots> \<le> quantile xs q" using quantile_between(1) [OF assms(1,2) q assms(5)] .
    finally show ?thesis .
  next
    case False
    have sq: "c = a \<and> b = a + 1 \<and> d = b" if "a \<le> c" "b \<le> d" "b \<le> a + 1" "d \<le> c + 1" "c < b" for a b c d :: int
      using that by linarith
    have "0 \<le> \<lfloor>?x\<rfloor>" "0 \<le> \<lfloor>?y\<rfloor>" using quantile_position(1) [OF assms(3) p] quantile_position(1) [OF q assms(5)] by simp_all
    have "\<lfloor>?y\<rfloor> < \<lceil>?x\<rceil>" using False nat_mono [of "\<lceil>?x\<rceil>" "\<lfloor>?y\<rfloor>"] by (meson not_le)
    have up: "\<lceil>z\<rceil> \<le> \<lfloor>z\<rfloor> + 1" for z :: rat by (simp add: ceiling_altdef)
    from sq [OF floor_mono [OF xy] ceiling_mono [OF xy] up up \<open>\<lfloor>?y\<rfloor> < \<lceil>?x\<rceil>\<close>]
    have eqs: "\<lfloor>?y\<rfloor> = \<lfloor>?x\<rfloor>" "\<lceil>?x\<rceil> = \<lfloor>?x\<rfloor> + 1" "\<lceil>?y\<rceil> = \<lceil>?x\<rceil>" by blast+
    have eq: "nat \<lfloor>?y\<rfloor> = nat \<lfloor>?x\<rfloor>" "nat \<lceil>?y\<rceil> = nat \<lceil>?x\<rceil>" by (simp_all only: eqs)
    have ne: "nat \<lfloor>?x\<rfloor> \<noteq> nat \<lceil>?x\<rceil>" unfolding eqs(2) using \<open>0 \<le> \<lfloor>?x\<rfloor>\<close> by (simp add: nat_add_distrib)
    have le: "xs ! nat \<lfloor>?x\<rfloor> \<le> xs ! nat \<lceil>?x\<rceil>" using px(2,3) len by (intro sorted_nth_mono [OF assms(1)]) simp_all
    have "length xs \<noteq> 1" using ne by auto
    then have 1: "quantile xs r = xs ! nat \<lfloor>?x\<rfloor> + (xs ! nat \<lceil>?x\<rceil> - xs ! nat \<lfloor>?x\<rfloor>) * (r * of_nat ?n - of_nat (nat \<lfloor>?x\<rfloor>))"
      if "nat \<lfloor>r * of_nat ?n\<rfloor> = nat \<lfloor>?x\<rfloor>" "nat \<lceil>r * of_nat ?n\<rceil> = nat \<lceil>?x\<rceil>" for r
      using that ne unfolding quantile_def Let_def by (simp add: algebra_simps del: One_nat_def)
    show ?thesis unfolding 1 [OF refl refl] 1 [OF eq(1,2)] using le xy by (intro add_left_mono mult_left_mono) simp_all
  qed
qed

section \<open>The reservoir\<close>

lemma update_Samples [simp]:
  "rb_Samples (updateRobustBaseline v now b) = store_sample (rb_SampleCount b + 1) v (rb_Samples b)"
  by (auto simp: updateRobustBaseline_def learn_change_def finalizeRobustBaseline_def Let_def)

lemma update_SampleCount [simp]: "rb_SampleCount (updateRobustBaseline v now b) = rb_SampleCount b + 1"
  by (auto simp: updateRobustBaseline_def learn_change_def finalizeRobustBaseline_def Let_def)

text \<open>The slot of a sample is 21 times its number, modulo 128: the multiplier is odd.\<close>

lemma reservoir_index_eq: "reservoir_index c = 21 * unat c mod 128"
proof -
  have m: "unat (11400714819323198485 :: u64) = 11400714819323198485" by simp
  have "reservoir_index c = (unat c * 11400714819323198485 mod 2 ^ 64) mod 128"
    by (simp add: reservoir_index_def unat_mod unat_word_ariths m)
  also have "\<dots> = unat c * 11400714819323198485 mod 128"
    by (rule mod_mod_cancel) simp
  also have "\<dots> = unat c * (11400714819323198485 mod 128) mod 128" by (simp only: mod_mult_right_eq)
  finally show ?thesis by (simp add: mult.commute)
qed

lemma reservoir_index_less: "reservoir_index c < 128"
  by (simp add: reservoir_index_eq)

lemma slot_inj:
  assumes "21 * x mod 128 = 21 * y mod (128 :: nat)"
  shows "x mod 128 = y mod 128"
proof -
  have inv: "61 * (21 * z mod 128) mod 128 = z mod 128" for z :: nat
  proof -
    have "61 * (21 * z mod 128) mod 128 = (1281 * z) mod 128" by (simp add: mod_mult_right_eq)
    also have "\<dots> = (1281 mod 128) * z mod 128" by (simp only: mod_mult_left_eq)
    finally show ?thesis by simp
  qed
  show ?thesis using inv [of x] inv [of y] assms by simp
qed

lemma unat_add_of_nat_mod: "unat (c + of_nat i :: u64) mod 128 = (unat c + i) mod 128"
proof -
  have "unat (c + of_nat i :: u64) = (unat c + i) mod 2 ^ 64"
    by (simp add: unat_word_ariths unsigned_of_nat take_bit_eq_mod mod_add_right_eq)
  then show ?thesis by (simp add: mod_mod_cancel)
qed

lemma residue_inj: "(n + i) mod 128 = (n + j) mod (128 :: nat) \<Longrightarrow> i < 128 \<Longrightarrow> j < 128 \<Longrightarrow> i = j"
proof (induction i j rule: linorder_wlog)
  case (le i j)
  from le.prems(1) have "128 dvd (n + j) - (n + i)" using le.hyps by (subst mod_eq_dvd_iff_nat [symmetric]) simp_all
  then have "128 dvd j - i" by simp
  moreover have "j - i < 128" using le.prems(3) by linarith
  ultimately have "j - i = 0" using nat_dvd_not_less by blast
  with le.hyps show ?case by simp
next
  case (sym i j)
  from sym.IH [OF sym.prems(1) [symmetric] sym.prems(3,2)] show ?case by simp
qed

lemma slots_distinct: "distinct (map (\<lambda>i. reservoir_index (c + of_nat i)) [0..<128])"
proof -
  have "inj_on (\<lambda>i. reservoir_index (c + of_nat i)) {0..<128}"
  proof (rule inj_onI)
    fix i j assume ij: "i \<in> {0..<128 :: nat}" "j \<in> {0..<128}"
      and "reservoir_index (c + of_nat i) = reservoir_index (c + of_nat j)"
    then have "unat (c + of_nat i) mod 128 = unat (c + of_nat j) mod 128"
      by (simp only: reservoir_index_eq) (rule slot_inj)
    then have "(unat c + i) mod 128 = (unat c + j) mod 128" by (simp only: unat_add_of_nat_mod)
    then show "i = j" using ij residue_inj [of "unat c" i j] by simp
  qed
  then show ?thesis by (simp add: distinct_map)
qed

lemma slots_mset: "mset (map (\<lambda>i. reservoir_index (c + of_nat i)) [0..<128]) = mset [0..<128]"
proof -
  let ?is = "map (\<lambda>i. reservoir_index (c + of_nat i)) [0..<128]"
  have sub: "set ?is \<subseteq> {0..<128}" using reservoir_index_less by auto
  have "card (set ?is) = 128" using distinct_card [OF slots_distinct [of c]] by simp
  with sub have "set ?is = set [0..<128]" using card_subset_eq [of "{0..<128}" "set ?is"] by simp
  then show ?thesis using set_eq_iff_mset_eq_distinct [OF slots_distinct distinct_upt] by blast
qed

text \<open>Writing to distinct slots, one after the other.\<close>

lemma fold_update_other:
  "j \<notin> set is \<Longrightarrow> fold (\<lambda>(i, v) xs. xs[i := v]) (zip is vs) xs ! j = xs ! j"
proof (induction "is" arbitrary: vs xs)
  case (Cons i "is")
  then show ?case by (cases vs) auto
qed simp

lemma fold_update_slots:
  "distinct is \<Longrightarrow> length is = length vs \<Longrightarrow> \<forall>i \<in> set is. i < length xs \<Longrightarrow>
   map ((!) (fold (\<lambda>(i, v) xs. xs[i := v]) (zip is vs) xs)) is = vs"
proof (induction "is" arbitrary: vs xs)
  case (Cons i "is")
  then obtain v ws where vs: "vs = v # ws" by (cases vs) auto
  with Cons show ?case using fold_update_other [of i "is" ws "xs[i := v]"] by simp
qed simp

lemma fold_update_length: "length (fold (\<lambda>(i, v) xs. xs[i := v]) ivs xs) = length xs"
  by (induction ivs arbitrary: xs) auto

lemma fold_update_all_slots:
  assumes "mset is = mset [0..<length xs]" and "length vs = length is"
  shows "mset (fold (\<lambda>(i, v) xs. xs[i := v]) (zip is vs) xs) = mset vs"
proof -
  let ?r = "fold (\<lambda>(i, v) xs. xs[i := v]) (zip is vs) xs"
  have "distinct is" "set is = {0..<length xs}"
    using assms(1) by (metis distinct_upt mset_eq_imp_distinct_iff, metis mset_eq_setD set_upt)
  then have "map ((!) ?r) is = vs" using assms(2) by (intro fold_update_slots) simp_all
  then have "mset vs = image_mset ((!) ?r) (mset is)" by (metis mset_map)
  also have "\<dots> = mset (map ((!) ?r) [0..<length ?r])" unfolding assms(1) by (simp add: fold_update_length)
  also have "\<dots> = mset ?r" by (simp only: map_nth)
  finally show ?thesis by simp
qed

text \<open>Learning a series of values with their times.\<close>

definition learn :: "(rat \<times> time) list \<Rightarrow> robust_baseline \<Rightarrow> robust_baseline" where
  "learn obs b = fold (\<lambda>(v, t). updateRobustBaseline v t) obs b"

lemma learn_Nil [simp]: "learn [] b = b" by (simp add: learn_def)
lemma learn_Cons [simp]: "learn (o1 # obs) b = learn obs (updateRobustBaseline (fst o1) (snd o1) b)"
  by (simp add: learn_def case_prod_beta)
lemma learn_append [simp]: "learn (xs @ ys) b = learn ys (learn xs b)" by (simp add: learn_def)

lemma learn_SampleCount [simp]: "rb_SampleCount (learn obs b) = rb_SampleCount b + of_nat (length obs)"
  by (induction obs arbitrary: b) (simp_all add: algebra_simps)

lemma learn_filling:
  "length (rb_Samples b) + length obs \<le> 128 \<Longrightarrow> rb_Samples (learn obs b) = rb_Samples b @ map fst obs"
  by (induction obs arbitrary: b) (simp_all add: store_sample_def robustValueReservoir_def)

lemma learn_full_length: "length (rb_Samples b) = 128 \<Longrightarrow> length (rb_Samples (learn obs b)) = 128"
  by (induction obs arbitrary: b) (simp_all add: store_sample_def robustValueReservoir_def)

lemma learn_length: "length (rb_Samples (learn obs empty_baseline)) = min 128 (length obs)"
proof (cases "length obs \<le> 128")
  case True
  then show ?thesis using learn_filling [of empty_baseline obs] by (simp add: empty_baseline_def)
next
  case False
  have "rb_Samples (learn (take 128 obs) empty_baseline) = map fst (take 128 obs)"
    using learn_filling [of empty_baseline "take 128 obs"] False by (simp add: empty_baseline_def)
  then have "length (rb_Samples (learn (drop 128 obs) (learn (take 128 obs) empty_baseline))) = 128"
    using False by (subst learn_full_length) simp_all
  with False show ?thesis by (metis learn_append append_take_drop_id min.absorb1 nat_le_linear)
qed

lemma learn_full_slots:
  assumes "length (rb_Samples b) = 128"
  shows "rb_Samples (learn obs b) = fold (\<lambda>(i, v) xs. xs[i := v])
    (zip (map (\<lambda>i. reservoir_index (rb_SampleCount b + 1 + of_nat i)) [0..<length obs]) (map fst obs)) (rb_Samples b)"
  using assms
proof (induction obs arbitrary: b)
  case (Cons x obs)
  let ?b = "updateRobustBaseline (fst x) (snd x) b"
  have b: "rb_Samples ?b = (rb_Samples b)[reservoir_index (rb_SampleCount b + 1) := fst x]"
    using Cons.prems by (simp add: store_sample_def robustValueReservoir_def)
  have upt: "[0..<length (x # obs)] = 0 # map Suc [0..<length obs]" by (simp add: upt_conv_Cons map_Suc_upt del: upt_Suc)
  show ?case
    using Cons.IH [of ?b] Cons.prems b unfolding upt by (simp add: comp_def algebra_simps)
qed simp

text \<open>
  C21: the reservoir keeps the newest samples.  Up to 128 of them it is the list of all; once 256
  values have been learned it holds, in some order, exactly the last 128: the slots that the
  multiplicative hash of the sample number picks visit the reservoir cyclically.
\<close>

theorem reservoir_is_sliding_window:
  "(length obs \<le> 128 \<longrightarrow> rb_Samples (learn obs empty_baseline) = map fst obs) \<and>
   (length obs \<ge> 256 \<longrightarrow> mset (rb_Samples (learn obs empty_baseline)) = mset (last_n 128 (map fst obs)))"
proof (intro conjI impI)
  assume "length obs \<le> 128"
  then show "rb_Samples (learn obs empty_baseline) = map fst obs"
    using learn_filling [of empty_baseline obs] by (simp add: empty_baseline_def)
next
  assume n: "256 \<le> length obs"
  let ?k = "length obs - 128"
  let ?b = "learn (take ?k obs) empty_baseline"
  let ?is = "map (\<lambda>i. reservoir_index (rb_SampleCount ?b + 1 + of_nat i)) [0..<128]"
  have full: "length (rb_Samples ?b) = 128" using n learn_length [of "take ?k obs"] by simp
  have "rb_Samples (learn obs empty_baseline) = rb_Samples (learn (drop ?k obs) ?b)"
    by (metis append_take_drop_id learn_append)
  also have "\<dots> = fold (\<lambda>(i, v) xs. xs[i := v]) (zip ?is (map fst (drop ?k obs))) (rb_Samples ?b)"
    using learn_full_slots [OF full, of "drop ?k obs"] n by simp
  also have "mset \<dots> = mset (map fst (drop ?k obs))"
    using full n slots_mset [of "rb_SampleCount ?b + 1"] by (intro fold_update_all_slots) simp_all
  finally show "mset (rb_Samples (learn obs empty_baseline)) = mset (last_n 128 (map fst obs))"
    by (simp add: last_n_def drop_map)
qed

theorem reservoir_is_sliding_window_witness:
  "rb_Samples (learn [(1, 10), (2, 20)] empty_baseline) = [1, 2] \<and>
   (let obs = map (\<lambda>i. (of_nat i, int i)) [0..<300] in
    mset (rb_Samples (learn obs empty_baseline)) = mset (last_n 128 (map fst obs)))"
  using reservoir_is_sliding_window [of "[(1, 10), (2, 20)]"]
    reservoir_is_sliding_window [of "map (\<lambda>i. (of_nat i, int i)) [0..<300]"] by (simp add: Let_def del: upt_conv_Cons learn_Cons)

section \<open>Statistics\<close>

lemma filter_mset_none: "\<forall>y \<in># M. \<not> P y \<Longrightarrow> filter_mset P M = {#}"
  by (induction M) auto

text \<open>At most one element of a sorted list exceeds a bound, so every other position respects it.\<close>

lemma all_but_one_le:
  fixes xs :: "rat list"
  assumes "sorted xs" and "mset xs = add_mset x M" and "\<forall>y \<in># M. y \<le> h" and "i + 2 \<le> length xs"
  shows "xs ! i \<le> h"
proof (rule ccontr)
  assume "\<not> xs ! i \<le> h"
  then have "h < xs ! (i + j)" if "i + j < length xs" for j
    using sorted_nth_mono [OF assms(1), of i "i + j"] that by simp
  then have "\<forall>y \<in> set (drop i xs). h < y" by (auto simp: in_set_conv_nth)
  then have "filter (\<lambda>y. h < y) (drop i xs) = drop i xs" by (simp add: filter_id_conv)
  then have "length (drop i xs) \<le> length (filter (\<lambda>y. h < y) xs)"
    by (metis append_take_drop_id filter_append length_append le_add2)
  then have "2 \<le> length (filter (\<lambda>y. h < y) xs)" using assms(4) by simp
  also have "\<dots> = size (filter_mset (\<lambda>y. h < y) (mset xs))" by (metis mset_filter size_mset)
  also have "\<dots> \<le> 1"
  proof -
    have e: "filter_mset (\<lambda>y. h < y) M = {#}" using assms(3) by (intro filter_mset_none) auto
    show ?thesis unfolding assms(2) filter_mset_add_mset e by simp
  qed
  finally show False by simp
qed

lemma all_but_one_ge:
  fixes xs :: "rat list"
  assumes "sorted xs" and "mset xs = add_mset x M" and "\<forall>y \<in># M. l \<le> y" and "1 \<le> i" and "i < length xs"
  shows "l \<le> xs ! i"
proof (rule ccontr)
  assume "\<not> l \<le> xs ! i"
  then have "xs ! j < l" if "j \<le> i" for j
    using sorted_nth_mono [OF assms(1) that] assms(5) by simp
  then have "\<forall>y \<in> set (take (Suc i) xs). y < l" by (auto simp: in_set_conv_nth less_Suc_eq_le)
  then have "filter (\<lambda>y. y < l) (take (Suc i) xs) = take (Suc i) xs" by (simp add: filter_id_conv)
  then have "length (take (Suc i) xs) \<le> length (filter (\<lambda>y. y < l) xs)"
    by (metis append_take_drop_id filter_append length_append le_add1)
  then have "2 \<le> length (filter (\<lambda>y. y < l) xs)" using assms(4,5) by simp
  also have "\<dots> = size (filter_mset (\<lambda>y. y < l) (mset xs))" by (metis mset_filter size_mset)
  also have "\<dots> \<le> 1"
  proof -
    have e: "filter_mset (\<lambda>y. y < l) M = {#}" using assms(3) by (intro filter_mset_none) auto
    show ?thesis unfolding assms(2) filter_mset_add_mset e by simp
  qed
  finally show False by simp
qed

text \<open>The statistics a finalized baseline has.\<close>

definition statistics_ok :: "robust_baseline \<Rightarrow> bool" where
  "statistics_ok b \<longleftrightarrow> rb_P05 b \<le> rb_Median b \<and> rb_Median b \<le> rb_P95 b \<and> 0 \<le> rb_MAD b"

lemma median_deviation_ge:
  assumes "dev \<noteq> []" and "\<forall>x \<in> set dev. l \<le> x"
  shows "l \<le> median_deviation dev"
proof -
  have n: "length dev div 2 < length dev" "length dev div 2 - 1 < length dev" using assms(1) by (cases dev; simp)+
  then have "l \<le> dev ! (length dev div 2)" "l \<le> dev ! (length dev div 2 - 1)" using assms(2) by simp_all
  then show ?thesis by (simp add: median_deviation_def Let_def)
qed

lemma finalize_statistics: "statistics_ok b \<Longrightarrow> statistics_ok (finalizeRobustBaseline b)"
proof (cases "rb_Samples b = []")
  case False
  let ?xs = "sort (rb_Samples b)"
  have xs: "sorted ?xs" by simp
  have ne: "?xs \<noteq> []" using False by (metis length_0_conv length_sort)
  let ?dev = "sort (map (\<lambda>v. \<bar>v - quantile ?xs (1 / 2)\<bar>) ?xs)"
  have "0 \<le> median_deviation ?dev" using ne by (intro median_deviation_ge) (auto dest!: arg_cong [of "sort _" _ length])
  with quantile_mono [OF xs ne, of "5 / 100" "1 / 2"] quantile_mono [OF xs ne, of "1 / 2" "95 / 100"] False show ?thesis
    by (simp add: statistics_ok_def finalizeRobustBaseline_def Let_def)
qed (simp add: finalizeRobustBaseline_def)

lemma update_statistics: "statistics_ok b \<Longrightarrow> statistics_ok (updateRobustBaseline v now b)"
proof -
  have l: "statistics_ok (learn_change v now c) = statistics_ok c" for c
    by (simp add: statistics_ok_def learn_change_def Let_def)
  have u: "statistics_ok (c\<lparr> rb_Samples := s \<rparr>) = statistics_ok c" "statistics_ok (c\<lparr> rb_SampleCount := n \<rparr>) = statistics_ok c"
    "statistics_ok (c\<lparr> rb_LastNumeric := v, rb_LastNumericAt := now, rb_HasNumeric := True \<rparr>) = statistics_ok c" for c s n
    by (simp_all add: statistics_ok_def)
  assume "statistics_ok b"
  then have ok: "statistics_ok ((learn_change v now (b\<lparr> rb_SampleCount := rb_SampleCount b + 1 \<rparr>))
       \<lparr> rb_LastNumeric := v, rb_LastNumericAt := now, rb_HasNumeric := True \<rparr>)" by (simp only: u l)
  show ?thesis unfolding updateRobustBaseline_def Let_def
    using ok by (simp only: u split: if_split) (simp only: finalize_statistics u ok simp_thms)
qed

lemma learn_statistics: "statistics_ok (learn obs empty_baseline)"
proof (induction obs rule: rev_induct)
  case Nil
  show ?case by (simp add: statistics_ok_def empty_baseline_def)
next
  case (snoc x obs)
  then show ?case by (simp add: update_statistics)
qed

lemma deadband_pos: "statistics_ok b \<Longrightarrow> 0 < deadband b"
proof -
  assume b: "statistics_ok b"
  let ?d = "max ((rb_P95 b - rb_P05 b) * (25 / 100)) (rb_MAD b * 3 * (14826 / 10000))"
  have "0 \<le> rb_P95 b - rb_P05 b" using b by (simp add: statistics_ok_def)
  then have "0 \<le> ?d" by (simp add: le_max_iff_disj)
  moreover have "0 < max 1 (\<bar>rb_Median b\<bar> * (2 / 100))" by (simp add: less_max_iff_disj)
  ultimately show ?thesis unfolding deadband_def Let_def by (simp only: less_le split: if_split) simp
qed

text \<open>
  Whatever values a variable is taught, the envelope derived from them is a proper interval that
  contains the learned quantiles and the median with room on both sides: monitoring never alarms
  on a value between the fifth and the ninety-fifth percentile.
\<close>

theorem robust_bounds_contain_median:
  assumes "robustBaselineBounds (learn obs empty_baseline) = (Some (low, high), b)"
  shows "low < rb_P05 b \<and> rb_P05 b \<le> rb_Median b \<and> rb_Median b \<le> rb_P95 b \<and> rb_P95 b < high \<and>
    30 \<le> rb_SampleCount b \<and> rb_Samples b = rb_Samples (learn obs empty_baseline)"
proof -
  let ?b = "learn obs empty_baseline"
  have ok: "statistics_ok ?b" by (rule learn_statistics)
  have fin: "rb_SampleCount (finalizeRobustBaseline c) = rb_SampleCount c" "rb_Samples (finalizeRobustBaseline c) = rb_Samples c" for c
    by (simp_all add: finalizeRobustBaseline_def Let_def)
  have "statistics_ok b" using assms finalize_statistics [OF ok] ok
    by (auto simp: robustBaselineBounds_def Let_def split: if_splits)
  with deadband_pos [OF this] assms show ?thesis
    by (auto simp: robustBaselineBounds_def Let_def fin statistics_ok_def split: if_splits)
qed

theorem robust_bounds_contain_median_witness:
  "\<exists>low high b. robustBaselineBounds (learn (replicate 30 (5, 1)) empty_baseline) = (Some (low, high), b) \<and>
     low < rb_P05 b \<and> rb_P05 b \<le> rb_Median b \<and> rb_Median b \<le> rb_P95 b \<and> rb_P95 b < high"
proof -
  let ?b = "learn (replicate 30 (5, 1)) empty_baseline"
  have "rb_SampleCount ?b = 30" using learn_SampleCount [of "replicate 30 (5, 1)" empty_baseline]
    unfolding length_replicate by (simp add: empty_baseline_def)
  moreover have "length (rb_Samples ?b) = 30" using learn_length [of "replicate 30 (5, 1)"] unfolding length_replicate by simp
  ultimately obtain low high b where "robustBaselineBounds ?b = (Some (low, high), b)"
    by (simp add: robustBaselineBounds_def Let_def)
  with robust_bounds_contain_median [OF this] show ?thesis by blast
qed

lemma median_deviation_le:
  assumes "\<And>i. i + 2 \<le> length dev \<Longrightarrow> dev ! i \<le> c" and "4 \<le> length dev"
  shows "median_deviation dev \<le> c"
proof -
  have "dev ! (length dev div 2) \<le> c" "dev ! (length dev div 2 - 1) \<le> c"
    using assms(2) by (intro assms(1), simp)+
  moreover have "(a + b) / 2 \<le> c" if "a \<le> c" "b \<le> c" for a b :: rat using that by simp
  ultimately show ?thesis by (simp add: median_deviation_def Let_def)
qed

text \<open>One outlier among the samples.\<close>

lemma outlier_quantile:
  fixes xs :: "rat list"
  assumes "sorted xs" and "mset xs = add_mset x M" and "\<forall>y \<in># M. l \<le> y \<and> y \<le> h"
    and "1 / of_nat (length xs - 1) \<le> q" and "q \<le> 1 - 1 / of_nat (length xs - 1)" and "2 \<le> length xs - 1"
  shows "l \<le> quantile xs q \<and> quantile xs q \<le> h"
proof -
  let ?n = "length xs - 1"
  have n: "(0::rat) < of_nat ?n" using assms(6) by simp
  have q: "0 \<le> q" "q \<le> 1" using assms(4,5) n by (simp_all add: order_trans [OF _ assms(4)] order_trans [OF assms(5)])
  have ne: "xs \<noteq> []" using assms(6) by auto
  have "1 \<le> q * of_nat ?n" using assms(4) n by (simp add: pos_divide_le_eq)
  have "1 \<le> y \<Longrightarrow> 1 \<le> nat \<lfloor>y\<rfloor>" for y :: rat by linarith
  from this [OF \<open>1 \<le> q * of_nat ?n\<close>] have "1 \<le> nat \<lfloor>q * of_nat ?n\<rfloor>" .
  moreover have "q * of_nat ?n \<le> of_nat (?n - 1)"
  proof -
    have "q * of_nat ?n \<le> (1 - 1 / of_nat ?n) * of_nat ?n" using assms(5) n by (intro mult_right_mono) simp_all
    also have "\<dots> = of_nat (?n - 1)" using n assms(6) by (simp add: algebra_simps of_nat_diff)
    finally show ?thesis .
  qed
  note pos = position_bounds [OF quantile_position(1) [OF q] this]
  note b = quantile_between [OF assms(1) ne q]
  have "l \<le> xs ! nat \<lfloor>q * of_nat ?n\<rfloor>"
    using all_but_one_ge [OF assms(1,2), of l "nat \<lfloor>q * of_nat ?n\<rfloor>"] assms(3,6) pos(1) calculation by simp
  moreover have "xs ! nat \<lceil>q * of_nat ?n\<rceil> \<le> h"
    using all_but_one_le [OF assms(1,2), of h "nat \<lceil>q * of_nat ?n\<rceil>"] assms(3,6) pos(2) by simp
  ultimately show ?thesis using b by linarith
qed

text \<open>
  C20: a single commissioning outlier does not move the learned envelope: if all the samples but
  one lie between \<open>l\<close> and \<open>h\<close> and there are at least 21 of them, then the median, both
  quantiles lie there too and the median absolute deviation is at most \<open>h - l\<close>, however far
  away the outlier is.
\<close>

theorem single_outlier_ignored:
  assumes "mset (rb_Samples b) = add_mset x M" and "\<forall>y \<in># M. l \<le> y \<and> y \<le> h" and "21 \<le> length (rb_Samples b)"
  shows "let f = finalizeRobustBaseline b in l \<le> rb_P05 f \<and> rb_P95 f \<le> h \<and> l \<le> rb_Median f \<and> rb_Median f \<le> h \<and>
    rb_MAD f \<le> h - l"
proof -
  let ?xs = "sort (rb_Samples b)"
  let ?med = "quantile ?xs (1 / 2)"
  let ?dev = "sort (map (\<lambda>v. \<bar>v - ?med\<bar>) ?xs)"
  have xs: "sorted ?xs" "mset ?xs = add_mset x M" using assms(1) by simp_all
  have len: "length ?xs = length (rb_Samples b)" "length ?dev = length (rb_Samples b)" by simp_all
  have n: "(20::rat) \<le> of_nat (length ?xs - 1)" "2 \<le> length ?xs - 1" using assms(3) by simp_all
  have e: "1 / of_nat (length ?xs - 1) \<le> (1 / 20 :: rat)" by (rule divide_left_mono [OF n(1)]) (use assms(3) in simp_all)
  have q: "l \<le> quantile ?xs q \<and> quantile ?xs q \<le> h" if "1 / 20 \<le> q" "q \<le> 1 - 1 / 20" for q
    by (rule outlier_quantile [OF xs assms(2) order_trans [OF e that(1)] order_trans [OF that(2) diff_left_mono [OF e]] n(2)])
  have med: "l \<le> ?med" "?med \<le> h" using q [of "1 / 2"] by simp_all
  have dev: "sorted ?dev" "mset ?dev = add_mset \<bar>x - ?med\<bar> (image_mset (\<lambda>v. \<bar>v - ?med\<bar>) M)"
    using assms(1) by simp_all
  have M: "\<forall>y \<in># image_mset (\<lambda>v. \<bar>v - ?med\<bar>) M. y \<le> h - l" using assms(2) med by (auto simp: abs_le_iff)
  have "?dev ! i \<le> h - l" if "i + 2 \<le> length ?dev" for i using all_but_one_le [OF dev M that] .
  moreover have "4 \<le> length ?dev" unfolding len(2) using assms(3) by linarith
  ultimately have "median_deviation ?dev \<le> h - l" by (rule median_deviation_le)
  then have mad: "rb_MAD (finalizeRobustBaseline b) \<le> h - l" using assms(3) by (auto simp: finalizeRobustBaseline_def Let_def)
  have "rb_Samples b \<noteq> []" using assms(3) by auto
  with mad med q [of "5 / 100"] q [of "95 / 100"] show ?thesis by (simp add: finalizeRobustBaseline_def Let_def)
qed

theorem single_outlier_ignored_witness:
  "let f = finalizeRobustBaseline (empty_baseline\<lparr> rb_Samples := 10000 # replicate 20 50 \<rparr>) in 50 \<le> rb_P05 f \<and> rb_P95 f \<le> 50 \<and>
     50 \<le> rb_Median f \<and> rb_Median f \<le> 50 \<and> rb_MAD f \<le> 50 - 50"
  by (rule single_outlier_ignored [of _ 10000 "mset (replicate 20 50)"]) simp_all

end
