(* ===== verification/Tag_Model.thy ===== *)
theory Tag_Model
  imports Tag_Baseline Ics_Engine
begin

text \<open>
  internal/store: one record per process variable, updated in place, and two bounded histories.
  A value is one of the scalars the parsers produce, or, after a restart, the float64 that JSON
  gives back for it; that float holds a natural number below 2 to the power of 53.
\<close>

section \<open>Data\<close>

datatype tag_value = V_wire detail | V_float nat

record tag =
  tg_Key :: string
  tg_Protocol :: string
  tg_DeviceIP :: string
  tg_DevicePort :: u16
  tg_UnitID :: u8
  tg_AddressSpace :: string
  tg_Address :: u32
  tg_Operation :: string
  tg_LastValue :: "tag_value option"
  tg_PreviousValue :: "tag_value option"
  tg_LastChangeAt :: time
  tg_MinValue :: "tag_value option"
  tg_MaxValue :: "tag_value option"
  tg_Baseline :: robust_baseline
  tg_FirstSeen :: time
  tg_LastSeen :: time
  tg_PollCount :: u64
  tg_ChangeCount :: u64
  tg_FromAnalysis :: bool

record value_change =
  vc_TagKey :: string
  vc_OldValue :: "tag_value option"
  vc_NewValue :: "tag_value option"
  vc_Timestamp :: time
  vc_FromAnalysis :: bool

record control_event =
  ce_TagKey :: string
  ce_Protocol :: string
  ce_FunctionName :: string
  ce_SrcIP :: string
  ce_DstIP :: string
  ce_SrcPort :: u16
  ce_DstPort :: u16
  ce_SecurityRelevant :: bool
  ce_Timestamp :: time
  ce_FromAnalysis :: bool

text \<open>\<open>core.OutOfRangeValue\<close>, the payload of the alarm.\<close>

record out_of_range =
  or_TagKey :: string
  or_DeviceIP :: string
  or_DevicePort :: u16
  or_AddressSpace :: string
  or_Address :: u32
  or_MinValue :: rat
  or_MaxValue :: rat
  or_Value :: "tag_value option"
  or_Reason :: string
  or_Delta :: rat
  or_Rate :: rat
  or_RateLimit :: rat

record tag_store =
  st_tags :: "(string, tag) gomap"
  st_valueChanges :: "value_change list"
  st_maxValueChanges :: nat
  st_controlEvents :: "control_event list"
  st_maxControlEvents :: nat
  st_learningActive :: bool

definition defaultMaxValueChanges :: nat where "defaultMaxValueChanges = 1000"
definition defaultMaxControlEvents :: nat where "defaultMaxControlEvents = 1000"

definition NewTagEngine :: "int \<Rightarrow> int \<Rightarrow> tag_store" where
  "NewTagEngine maxValueChanges maxControlEvents =
     \<lparr> st_tags = [], st_valueChanges = [],
       st_maxValueChanges = (if maxValueChanges \<le> 0 then defaultMaxValueChanges else nat maxValueChanges),
       st_controlEvents = [],
       st_maxControlEvents = (if maxControlEvents \<le> 0 then defaultMaxControlEvents else nat maxControlEvents),
       st_learningActive = True \<rparr>"

section \<open>Identity of a variable\<close>

definition BuildKey :: "string \<Rightarrow> string \<Rightarrow> u16 \<Rightarrow> u8 \<Rightarrow> string \<Rightarrow> u32 \<Rightarrow> string" where
  "BuildKey protocol deviceIP devicePort unitID addressSpace address =
     protocol @ ''|'' @ deviceIP @ '':'' @ dec (unat devicePort) @ ''|'' @ dec (unat unitID) @ ''|'' @ addressSpace @ ''|'' @
     dec (unat address)"

definition modbusAddressSpace :: "u8 \<Rightarrow> string" where
  "modbusAddressSpace fc =
     (if fc \<in> {1, 5, 15} then ''Coil'' else if fc = 2 then ''DiscreteInput''
      else if fc \<in> {3, 6, 16, 22} then ''HoldingRegister'' else if fc = 4 then ''InputRegister'' else ''Unknown'')"

definition extractModbusAddress :: "ics_message \<Rightarrow> (string \<times> u32) option" where
  "extractModbusAddress m = (case detail_of m ''address'' of
     Some (D_u16 a) \<Rightarrow> Some (modbusAddressSpace (im_FunctionCode m), ucast a)
   | _ \<Rightarrow> None)"

definition extractS7Address :: "ics_message \<Rightarrow> (string \<times> u32) option" where
  "extractS7Address m =
     (let fallback = (if im_FunctionName m = [] then None else Some (''Function'', ucast (im_FunctionCode m)))
      in case detail_of m ''s7_area'' of
           Some (D_string area) \<Rightarrow>
             (case detail_of m ''address'' of
                Some (D_u32 addr) \<Rightarrow>
                  Some (if area = ''DB'' then
                          (case detail_of m ''s7_db'' of Some (D_u16 db) \<Rightarrow> ''DB'' @ dec (unat db) | _ \<Rightarrow> area)
                        else area, addr)
              | _ \<Rightarrow> fallback)
         | _ \<Rightarrow> fallback)"

definition extractAddress :: "ics_message \<Rightarrow> (string \<times> u32) option" where
  "extractAddress m =
     (if im_Protocol m = ''Modbus'' then extractModbusAddress m
      else if im_Protocol m = ''S7comm'' then extractS7Address m
      else None)"

definition isWriteOperation :: "ics_message \<Rightarrow> bool" where
  "isWriteOperation m =
     (let p = im_Protocol m; n = im_FunctionName m in
      if p = ''Modbus'' then im_FunctionCode m \<in> {5, 6, 15, 16, 22}
      else if p = ''S7comm'' then n = ''WriteVar''
      else if p = ''EtherNet/IP'' then n = ''SendRRData'' \<or> n = ''SendUnitData''
      else if p = ''DNP3'' then n = ''Write'' \<or> n = ''Select'' \<or> n = ''Operate'' \<or> n = ''DirectOperate'' \<or> n = ''DirectOperateNoAck''
      else if p = ''BACnet/IP'' then n = ''WriteProperty'' \<or> n = ''WritePropertyMultiple''
      else if p = ''IEC 60870-5-104'' then im_FunctionCode m \<ge> 45 \<and> im_FunctionCode m \<le> 50
      else False)"

definition isSecurityRelevant :: "ics_message \<Rightarrow> bool" where
  "isSecurityRelevant m \<longleftrightarrow> detail_of m ''security_relevant'' = Some (D_bool True)"

section \<open>Values\<close>

definition numericValue :: "tag_value option \<Rightarrow> rat option" where
  "numericValue v = (case v of
     Some (V_wire (D_u8 w)) \<Rightarrow> Some (of_nat (unat w))
   | Some (V_wire (D_u16 w)) \<Rightarrow> Some (of_nat (unat w))
   | Some (V_wire (D_u32 w)) \<Rightarrow> Some (of_nat (unat w))
   | Some (V_float n) \<Rightarrow> Some (of_nat n)
   | _ \<Rightarrow> None)"

text \<open>
  \<open>fmt.Sprint\<close> of a float64 that holds a natural number: plain below one million, and from there
  on the shortest digits in exponent notation.
\<close>

definition float_text :: "nat \<Rightarrow> string" where
  "float_text n =
     (if n < 1000000 then dec n
      else
        let ds = dec n;
            e = length ds - 1;
            sig = rev (dropWhile (\<lambda>c. c = CHR ''0'') (rev ds));
            mant = (case sig of [] \<Rightarrow> [] | [d] \<Rightarrow> [d] | d # rest \<Rightarrow> d # CHR ''.'' # rest)
        in mant @ ''e+'' @ (if e < 10 then ''0'' else []) @ dec e)"

fun list_text :: "string list \<Rightarrow> string" where
  "list_text ws = ''['' @ join_with '' '' ws @ '']''"

definition bool_text :: "bool \<Rightarrow> string" where
  "bool_text b = (if b then ''true'' else ''false'')"

fun value_text :: "tag_value \<Rightarrow> string" where
  "value_text (V_wire (D_int i)) = (if i < 0 then ''-'' @ dec (nat (- i)) else dec (nat i))"
| "value_text (V_wire (D_u8 w)) = dec (unat w)"
| "value_text (V_wire (D_u16 w)) = dec (unat w)"
| "value_text (V_wire (D_u32 w)) = dec (unat w)"
| "value_text (V_wire (D_bool b)) = bool_text b"
| "value_text (V_wire (D_string s)) = s"
| "value_text (V_wire (D_u16s ws)) = list_text (map (\<lambda>w. dec (unat w)) ws)"
| "value_text (V_wire (D_bools bs)) = list_text (map bool_text bs)"
| "value_text (V_float n) = float_text n"

definition sprint :: "tag_value option \<Rightarrow> string" where
  "sprint v = (case v of None \<Rightarrow> ''<nil>'' | Some x \<Rightarrow> value_text x)"

definition valuesEqual :: "tag_value option \<Rightarrow> tag_value option \<Rightarrow> bool" where
  "valuesEqual a b \<longleftrightarrow> sprint a = sprint b"

text \<open>\<open>expandAddressRange\<close>: the addresses and, with each, its value.\<close>

definition range_length :: "nat \<Rightarrow> u16 \<Rightarrow> nat" where
  "range_length n quantity = (if quantity > 0 \<and> unat quantity < n then unat quantity else n)"

definition expandAddressRange :: "u32 \<Rightarrow> detail option \<Rightarrow> u16 \<Rightarrow> (u32 \<times> tag_value option) list" where
  "expandAddressRange start value quantity = (case value of
     None \<Rightarrow> [(start, None)]
   | Some (D_u16s v) \<Rightarrow> map (\<lambda>i. (start + of_nat i, Some (V_wire (D_u16 (v ! i))))) [0..<range_length (length v) quantity]
   | Some (D_bools v) \<Rightarrow> map (\<lambda>i. (start + of_nat i, Some (V_wire (D_bool (v ! i))))) [0..<range_length (length v) quantity]
   | Some d \<Rightarrow> [(start, Some (V_wire d))])"

section \<open>Histories\<close>

definition appendBounded :: "nat \<Rightarrow> 'a list \<Rightarrow> 'a \<Rightarrow> 'a list" where
  "appendBounded n xs x = (let ys = xs @ [x] in if length ys > n then drop (length ys - n) ys else ys)"

definition filterRecent :: "'a list \<Rightarrow> time \<Rightarrow> ('a \<Rightarrow> time) \<Rightarrow> ('a \<Rightarrow> bool) \<Rightarrow> 'a list" where
  "filterRecent items cutoff tsFn protectedFn = filter (\<lambda>x. protectedFn x \<or> \<not> tsFn x < cutoff) items"

definition appendValueChange :: "value_change \<Rightarrow> tag_store \<Rightarrow> tag_store" where
  "appendValueChange vc e = e\<lparr> st_valueChanges := appendBounded (st_maxValueChanges e) (st_valueChanges e) vc \<rparr>"

definition control_event_of :: "ics_message \<Rightarrow> string \<Rightarrow> control_event" where
  "control_event_of m tagKey = \<lparr> ce_TagKey = tagKey, ce_Protocol = im_Protocol m, ce_FunctionName = im_FunctionName m,
     ce_SrcIP = im_SrcIP m, ce_DstIP = im_DstIP m, ce_SrcPort = im_SrcPort m, ce_DstPort = im_DstPort m,
     ce_SecurityRelevant = isSecurityRelevant m, ce_Timestamp = im_Timestamp m, ce_FromAnalysis = im_FromAnalysis m \<rparr>"

definition recordControlEvent :: "ics_message \<Rightarrow> string \<Rightarrow> tag_store \<Rightarrow> tag_store" where
  "recordControlEvent m tagKey e =
     e\<lparr> st_controlEvents := appendBounded (st_maxControlEvents e) (st_controlEvents e) (control_event_of m tagKey) \<rparr>"

section \<open>One observation of a variable\<close>

text \<open>What an observation says of its variable, apart from the value.\<close>

record sighting =
  sg_key :: string
  sg_deviceIP :: string
  sg_devicePort :: u16
  sg_addressSpace :: string
  sg_address :: u32
  sg_operation :: string
  sg_now :: time

definition new_tag :: "sighting \<Rightarrow> ics_message \<Rightarrow> tag" where
  "new_tag s m = \<lparr> tg_Key = sg_key s, tg_Protocol = im_Protocol m, tg_DeviceIP = sg_deviceIP s, tg_DevicePort = sg_devicePort s,
     tg_UnitID = im_UnitID m, tg_AddressSpace = sg_addressSpace s, tg_Address = sg_address s, tg_Operation = sg_operation s,
     tg_LastValue = None, tg_PreviousValue = None, tg_LastChangeAt = 0, tg_MinValue = None, tg_MaxValue = None,
     tg_Baseline = empty_baseline, tg_FirstSeen = sg_now s, tg_LastSeen = 0, tg_PollCount = 0, tg_ChangeCount = 0,
     tg_FromAnalysis = im_FromAnalysis m \<rparr>"

text \<open>The branch of \<open>updateTag\<close> while the baseline is learned.\<close>

definition learn_range :: "tag_value option \<Rightarrow> rat \<Rightarrow> time \<Rightarrow> tag \<Rightarrow> tag" where
  "learn_range value x now t =
     t\<lparr> tg_MinValue := (case numericValue (tg_MinValue t) of
           Some lo \<Rightarrow> if x < lo then value else tg_MinValue t | None \<Rightarrow> value),
        tg_MaxValue := (case numericValue (tg_MaxValue t) of
           Some hi \<Rightarrow> if x > hi then value else tg_MaxValue t | None \<Rightarrow> value),
        tg_Baseline := updateRobustBaseline x now (tg_Baseline t) \<rparr>"

text \<open>The branch once learning is over: the limits, the change and its rate, and the alarm.\<close>

definition value_limits :: "tag \<Rightarrow> (rat \<times> rat) option \<times> robust_baseline" where
  "value_limits t =
     (case robustBaselineBounds (tg_Baseline t) of
        (Some b, rb) \<Rightarrow> (Some b, rb)
      | (None, rb) \<Rightarrow> ((case (numericValue (tg_MinValue t), numericValue (tg_MaxValue t)) of
            (Some lo, Some hi) \<Rightarrow> Some (lo, hi) | _ \<Rightarrow> None), rb))"

definition or_zero :: "rat option \<Rightarrow> rat" where
  "or_zero v = (case v of None \<Rightarrow> 0 | Some x \<Rightarrow> x)"

definition change_and_rate :: "tag_value option \<Rightarrow> rat \<Rightarrow> time \<Rightarrow> time \<Rightarrow> rat \<times> rat" where
  "change_and_rate oldValue x previousSeen now = (case numericValue oldValue of
     None \<Rightarrow> (0, 0)
   | Some y \<Rightarrow> (\<bar>x - y\<bar>, if \<not> is_zero_time previousSeen \<and> previousSeen < now
                           then \<bar>x - y\<bar> / seconds (time_sub now previousSeen) else 0))"

definition alarm_reason :: "(rat \<times> rat) option \<Rightarrow> rat \<Rightarrow> rat \<Rightarrow> rat \<Rightarrow> string" where
  "alarm_reason limits x rate rateLimit =
     (if (case limits of None \<Rightarrow> False | Some (lo, hi) \<Rightarrow> x < lo \<or> x > hi) then ''robust_range''
      else if rateLimit > 0 \<and> rate > rateLimit then ''rate_of_change'' else [])"

definition check_range :: "sighting \<Rightarrow> tag_value option \<Rightarrow> rat \<Rightarrow> tag_value option \<Rightarrow> time \<Rightarrow> tag \<Rightarrow> tag \<times> out_of_range list" where
  "check_range s value x oldValue previousSeen t =
     (case value_limits t of (limits, rb) \<Rightarrow>
        let (delta, rate) = change_and_rate oldValue x previousSeen (sg_now s);
            rateLimit = rb_TypicalRate rb * 6;
            reason = alarm_reason limits x rate rateLimit;
            lo = (case limits of Some (l, h) \<Rightarrow> l | None \<Rightarrow> or_zero (numericValue (tg_MinValue t)));
            hi = (case limits of Some (l, h) \<Rightarrow> h | None \<Rightarrow> or_zero (numericValue (tg_MaxValue t)))
        in (t\<lparr> tg_Baseline := rb \<rparr>,
            if reason = [] then []
            else [\<lparr> or_TagKey = sg_key s, or_DeviceIP = sg_deviceIP s, or_DevicePort = sg_devicePort s,
                    or_AddressSpace = sg_addressSpace s, or_Address = sg_address s, or_MinValue = lo, or_MaxValue = hi,
                    or_Value = value, or_Reason = reason, or_Delta = delta, or_Rate = rate, or_RateLimit = rateLimit \<rparr>]))"

text \<open>Storing the value itself; the result says whether it changed.\<close>

definition store_value :: "bool \<Rightarrow> tag_value option \<Rightarrow> time \<Rightarrow> tag \<Rightarrow> bool \<times> tag" where
  "store_value present value now t =
     (let changed = (present \<and> tg_LastValue t \<noteq> None \<and> \<not> valuesEqual (tg_LastValue t) value);
          t1 = (if changed then t\<lparr> tg_ChangeCount := tg_ChangeCount t + 1, tg_PreviousValue := tg_LastValue t, tg_LastChangeAt := now \<rparr> else t)
      in (changed, t1\<lparr> tg_LastValue := value \<rparr>))"

definition sight_tag :: "sighting \<Rightarrow> ics_message \<Rightarrow> tag option \<Rightarrow> tag" where
  "sight_tag s m found =
     (let t = (case found of
           None \<Rightarrow> new_tag s m
         | Some t \<Rightarrow> if im_FromAnalysis m then t else t\<lparr> tg_FromAnalysis := False \<rparr>)
      in t\<lparr> tg_LastSeen := sg_now s, tg_PollCount := tg_PollCount t + 1, tg_Operation := sg_operation s \<rparr>)"

definition previous_seen :: "tag option \<Rightarrow> time" where
  "previous_seen found = (case found of None \<Rightarrow> 0 | Some t \<Rightarrow> tg_LastSeen t)"

definition observe_value ::
  "bool \<Rightarrow> sighting \<Rightarrow> tag option \<Rightarrow> tag_value option \<Rightarrow> tag \<Rightarrow> tag \<times> tag_value option \<times> bool \<times> out_of_range list" where
  "observe_value learning s found value t =
     (if value = None then (t, None, False, [])
      else
        let oldValue = tg_LastValue t;
            (changed, t1) = store_value (found \<noteq> None) value (sg_now s) t
        in case numericValue value of
             None \<Rightarrow> (t1, oldValue, changed, [])
           | Some x \<Rightarrow>
               if learning then (learn_range value x (sg_now s) t1, oldValue, changed, [])
               else (case check_range s value x oldValue (previous_seen found) t1 of (t2, evs) \<Rightarrow> (t2, oldValue, changed, evs)))"

definition updateTag ::
  "sighting \<Rightarrow> ics_message \<Rightarrow> tag_value option \<Rightarrow> tag_store \<Rightarrow> (tag_value option \<times> bool \<times> out_of_range list) \<times> tag_store" where
  "updateTag s m value e =
     (let found = mget (st_tags e) (sg_key s)
      in case observe_value (st_learningActive e) s found value (sight_tag s m found) of
           (t, oldValue, changed, evs) \<Rightarrow> ((oldValue, changed, evs), e\<lparr> st_tags := mput (sg_key s) t (st_tags e) \<rparr>))"

section \<open>Messages\<close>

definition device_of :: "ics_message \<Rightarrow> string \<times> u16" where
  "device_of m = (if im_IsResponse m then (im_SrcIP m, im_SrcPort m) else (im_DstIP m, im_DstPort m))"

definition sighting_of :: "ics_message \<Rightarrow> string \<Rightarrow> u32 \<Rightarrow> sighting" where
  "sighting_of m space addr = \<lparr> sg_key = BuildKey (im_Protocol m) (fst (device_of m)) (snd (device_of m)) (im_UnitID m) space addr,
     sg_deviceIP = fst (device_of m), sg_devicePort = snd (device_of m), sg_addressSpace = space, sg_address = addr,
     sg_operation = (if isWriteOperation m then ''Write'' else ''Read''), sg_now = im_Timestamp m \<rparr>"

text \<open>One round of the loop of \<open>handle\<close> over the addresses.\<close>

definition handle_address ::
  "ics_message \<Rightarrow> string \<Rightarrow> u32 \<times> tag_value option \<Rightarrow> tag_store \<times> out_of_range list \<Rightarrow> tag_store \<times> out_of_range list" where
  "handle_address m space av s = (case s of (e, out) \<Rightarrow>
     let sg = sighting_of m space (fst av)
     in case updateTag sg m (snd av) e of
          ((oldValue, changed, evs), e1) \<Rightarrow>
            ((if changed
              then appendValueChange \<lparr> vc_TagKey = sg_key sg, vc_OldValue = oldValue, vc_NewValue = snd av,
                     vc_Timestamp = im_Timestamp m, vc_FromAnalysis = im_FromAnalysis m \<rparr> e1
              else e1), out @ evs))"

definition message_quantity :: "ics_message \<Rightarrow> u16" where
  "message_quantity m = (case detail_of m ''quantity'' of Some (D_u16 q) \<Rightarrow> q | _ \<Rightarrow> 0)"

definition store_handle :: "ics_message \<Rightarrow> tag_store \<Rightarrow> tag_store \<times> out_of_range list" where
  "store_handle m e =
     (case extractAddress m of
        None \<Rightarrow> ((if isSecurityRelevant m then recordControlEvent m [] e else e), [])
      | Some (space, start) \<Rightarrow>
          let avs = expandAddressRange start (detail_of m ''value'') (message_quantity m);
              (e1, out) = fold (handle_address m space) avs (e, []);
              lastKey = (if avs = [] then [] else sg_key (sighting_of m space (fst (last avs))))
          in ((if isWriteOperation m \<or> isSecurityRelevant m then recordControlEvent m lastKey e1 else e1), out))"

section \<open>The other operations\<close>

text \<open>The handler of the end of learning.\<close>

definition map_tags :: "(tag \<Rightarrow> tag) \<Rightarrow> tag_store \<Rightarrow> tag_store" where
  "map_tags f e = e\<lparr> st_tags := map (\<lambda>(k, t). (k, f t)) (st_tags e) \<rparr>"

definition learning_complete :: "tag_store \<Rightarrow> tag_store" where
  "learning_complete e = map_tags (\<lambda>t. t\<lparr> tg_Baseline := finalizeRobustBaseline (tg_Baseline t) \<rparr>) (e\<lparr> st_learningActive := False \<rparr>)"

definition ResetBaseline :: "tag_store \<Rightarrow> tag_store" where
  "ResetBaseline e = map_tags (\<lambda>t. t\<lparr> tg_MinValue := None, tg_MaxValue := None, tg_Baseline := empty_baseline \<rparr>)
     (e\<lparr> st_learningActive := True \<rparr>)"

definition RestoreTags :: "tag list \<Rightarrow> tag_store \<Rightarrow> tag_store" where
  "RestoreTags ts e = e\<lparr> st_tags := fold (\<lambda>t m. mput (tg_Key t) t m) ts [] \<rparr>"

definition RestoreValueChanges :: "value_change list \<Rightarrow> tag_store \<Rightarrow> tag_store" where
  "RestoreValueChanges vcs e = e\<lparr> st_valueChanges := vcs \<rparr>"

definition RestoreControlEvents :: "control_event list \<Rightarrow> tag_store \<Rightarrow> tag_store" where
  "RestoreControlEvents ces e = e\<lparr> st_controlEvents := ces \<rparr>"

definition PruneTags :: "time \<Rightarrow> duration \<Rightarrow> tag_store \<Rightarrow> nat \<times> tag_store" where
  "PruneTags now maxAge e =
     (let kept = filter (\<lambda>(k, t). tg_FromAnalysis t \<or> \<not> tg_LastSeen t < now - maxAge) (st_tags e)
      in (length (st_tags e) - length kept, e\<lparr> st_tags := kept \<rparr>))"

definition PruneHistory :: "time \<Rightarrow> duration \<Rightarrow> tag_store \<Rightarrow> tag_store" where
  "PruneHistory now maxAge e =
     e\<lparr> st_valueChanges := filterRecent (st_valueChanges e) (now - maxAge) vc_Timestamp vc_FromAnalysis,
        st_controlEvents := filterRecent (st_controlEvents e) (now - maxAge) ce_Timestamp ce_FromAnalysis \<rparr>"

definition store_clear :: "tag_store \<Rightarrow> tag_store" where
  "store_clear e = e\<lparr> st_tags := [], st_valueChanges := [], st_controlEvents := [] \<rparr>"

definition CountTags :: "tag_store \<Rightarrow> nat" where "CountTags e = length (st_tags e)"

definition GetTags :: "tag_store \<Rightarrow> tag list" where "GetTags e = mvals (st_tags e)"

end
