(* ===== verification/Tag_Store.thy ===== *)
theory Tag_Store
  imports Tag_Model
begin

text \<open>
  The store of process variables: the key identifies the variable, the record of a variable is
  the summary of its observations, the histories are bounded, and what of a Modbus write reaches
  the store.
\<close>

section \<open>Keys\<close>

lemma split_at_first_eq:
  assumes "xs @ c # ds = ys @ c # es" and "c \<notin> set xs" and "c \<notin> set ys"
  shows "xs = ys \<and> ds = es"
proof -
  have "rev ds @ c # rev xs = rev es @ c # rev ys" using arg_cong [OF assms(1), of rev] by simp
  from split_at_last_eq [OF this] assms(2,3) show ?thesis by simp
qed

text \<open>
  The key of a variable identifies it: as long as protocol, address and address space contain
  no bar, two observations have the same key exactly if they agree in protocol, device address
  and port, unit, address space and address.
\<close>

theorem BuildKey_identifies_variable:
  assumes "CHR ''|'' \<notin> set protocol" "CHR ''|'' \<notin> set ip" "CHR ''|'' \<notin> set space"
    and "CHR ''|'' \<notin> set protocol'" "CHR ''|'' \<notin> set ip'" "CHR ''|'' \<notin> set space'"
  shows "BuildKey protocol ip port u space addr = BuildKey protocol' ip' port' u' space' addr' \<longleftrightarrow>
    protocol = protocol' \<and> ip = ip' \<and> port = port' \<and> u = u' \<and> space = space' \<and> addr = addr'"
proof
  assume "BuildKey protocol ip port u space addr = BuildKey protocol' ip' port' u' space' addr'"
  then have "protocol @ CHR ''|'' # (endpoint_text ip port @ CHR ''|'' # (dec (unat u) @ CHR ''|'' # (space @ CHR ''|'' # dec (unat addr)))) =
    protocol' @ CHR ''|'' # (endpoint_text ip' port' @ CHR ''|'' # (dec (unat u') @ CHR ''|'' # (space' @ CHR ''|'' # dec (unat addr'))))"
    by (simp add: BuildKey_def endpoint_text_def)
  from split_at_first_eq [OF this assms(1,4)] have 1: "protocol = protocol'"
    "endpoint_text ip port @ CHR ''|'' # (dec (unat u) @ CHR ''|'' # (space @ CHR ''|'' # dec (unat addr))) =
     endpoint_text ip' port' @ CHR ''|'' # (dec (unat u') @ CHR ''|'' # (space' @ CHR ''|'' # dec (unat addr')))" by blast+
  from split_at_first_eq [OF 1(2) endpoint_text_sep(1) [OF assms(2)] endpoint_text_sep(1) [OF assms(5)]]
  have 2: "endpoint_text ip port = endpoint_text ip' port'"
    "dec (unat u) @ CHR ''|'' # (space @ CHR ''|'' # dec (unat addr)) = dec (unat u') @ CHR ''|'' # (space' @ CHR ''|'' # dec (unat addr'))"
    by blast+
  from split_at_first_eq [OF 2(2)] have 3: "unat u = unat u'"
    "space @ CHR ''|'' # dec (unat addr) = space' @ CHR ''|'' # dec (unat addr')" by simp_all
  from split_at_first_eq [OF 3(2) assms(3,6)] have 4: "space = space'" "unat addr = unat addr'" by simp_all
  from 1 2 3 4 show "protocol = protocol' \<and> ip = ip' \<and> port = port' \<and> u = u' \<and> space = space' \<and> addr = addr'"
    by (simp add: word_unat_eq_iff)
qed simp

theorem BuildKey_identifies_variable_witness:
  "BuildKey ''Modbus'' ''10.0.0.5'' 502 3 ''Coil'' 7 = BuildKey ''S7comm'' ''10.0.0.5'' 102 3 ''DB1'' 7 \<longleftrightarrow>
    ''Modbus'' = ''S7comm'' \<and> ''10.0.0.5'' = ''10.0.0.5'' \<and> (502 :: u16) = 102 \<and> (3 :: u8) = 3 \<and> ''Coil'' = ''DB1'' \<and> (7 :: u32) = 7"
  by (rule BuildKey_identifies_variable) simp_all

section \<open>Values across a restart\<close>

lemma dec_no_e: "CHR ''e'' \<notin> set (dec n)"
  using dec_digits [of n] by auto

lemma float_text_big: "\<not> n < 1000000 \<Longrightarrow> CHR ''e'' \<in> set (float_text n)"
  by (simp add: float_text_def Let_def)

text \<open>
  A double word that was stored before a restart compares equal to the same double word on the
  wire exactly if it is below one million: from there on the float64 that JSON gives back prints
  with an exponent, so the first observation after the restart reports a change that never took
  place.  Bytes and words always compare equal.
\<close>

theorem restored_value_compares:
  "(valuesEqual (Some (V_float (unat w))) (Some (V_wire (D_u32 w))) \<longleftrightarrow> unat w < 1000000) \<and>
   valuesEqual (Some (V_float (unat (v :: u16)))) (Some (V_wire (D_u16 v)))"
proof
  show "valuesEqual (Some (V_float (unat w))) (Some (V_wire (D_u32 w))) \<longleftrightarrow> unat w < 1000000"
    using float_text_big [of "unat w"] dec_no_e [of "unat w"]
    by (cases "unat w < 1000000") (auto simp: valuesEqual_def sprint_def float_text_def)
  have "unat v < 2 ^ 16" using unsigned_less [of v, where 'a = nat] by simp
  then show "valuesEqual (Some (V_float (unat v))) (Some (V_wire (D_u16 v)))"
    by (simp add: valuesEqual_def sprint_def float_text_def)
qed

section \<open>What a variable's record says\<close>

text \<open>An observation of a variable.\<close>

type_synonym tag_obs = "sighting \<times> ics_message \<times> tag_value option"

definition observations_of :: "ics_message \<Rightarrow> tag_obs list" where
  "observations_of m = (case extractAddress m of
     None \<Rightarrow> []
   | Some (space, start) \<Rightarrow> map (\<lambda>(a, v). (sighting_of m space a, m, v))
       (expandAddressRange start (detail_of m ''value'') (message_quantity m)))"

definition observe_tag :: "bool \<Rightarrow> tag_obs \<Rightarrow> tag option \<Rightarrow> tag" where
  "observe_tag learning ob found = (case ob of (s, m, v) \<Rightarrow> fst (observe_value learning s found v (sight_tag s m found)))"

definition obs_key :: "tag_obs \<Rightarrow> string" where "obs_key ob = sg_key (fst ob)"

definition tags_step :: "bool \<Rightarrow> tag_obs \<Rightarrow> (string, tag) gomap \<Rightarrow> (string, tag) gomap" where
  "tags_step learning ob tags = mput (obs_key ob) (observe_tag learning ob (mget tags (obs_key ob))) tags"

lemma updateTag_tags:
  "st_tags (snd (updateTag s m v e)) = tags_step (st_learningActive e) (s, m, v) (st_tags e)"
  "st_learningActive (snd (updateTag s m v e)) = st_learningActive e"
  by (simp_all add: updateTag_def tags_step_def observe_tag_def obs_key_def Let_def split: prod.splits)

lemma append_change_fields [simp]:
  "st_tags (appendValueChange vc e) = st_tags e" "st_learningActive (appendValueChange vc e) = st_learningActive e"
  "st_tags (recordControlEvent m k e) = st_tags e" "st_learningActive (recordControlEvent m k e) = st_learningActive e"
  by (simp_all add: appendValueChange_def recordControlEvent_def)

lemma handle_address_tags:
  "st_tags (fst (handle_address m space av (e, out))) = tags_step (st_learningActive e) (sighting_of m space (fst av), m, snd av) (st_tags e)"
  "st_learningActive (fst (handle_address m space av (e, out))) = st_learningActive e"
proof -
  obtain r e1 where u: "updateTag (sighting_of m space (fst av)) m (snd av) e = (r, e1)" by (metis prod.exhaust)
  obtain o1 c1 v1 where r: "r = (o1, c1, v1)" by (metis prod.exhaust)
  note t = updateTag_tags [of "sighting_of m space (fst av)" m "snd av" e, unfolded u snd_conv]
  show "st_tags (fst (handle_address m space av (e, out))) = tags_step (st_learningActive e) (sighting_of m space (fst av), m, snd av) (st_tags e)"
    "st_learningActive (fst (handle_address m space av (e, out))) = st_learningActive e"
    by (simp_all add: handle_address_def Let_def u r t)
qed

lemma fold_address_tags:
  "st_tags (fst (fold (handle_address m space) avs (e, out))) =
     fold (tags_step (st_learningActive e)) (map (\<lambda>(a, v). (sighting_of m space a, m, v)) avs) (st_tags e) \<and>
   st_learningActive (fst (fold (handle_address m space) avs (e, out))) = st_learningActive e"
proof (induction avs arbitrary: e out)
  case (Cons av avs)
  obtain e1 out1 where h: "handle_address m space av (e, out) = (e1, out1)" by (metis prod.exhaust)
  have "st_tags e1 = tags_step (st_learningActive e) (sighting_of m space (fst av), m, snd av) (st_tags e)"
    "st_learningActive e1 = st_learningActive e" using handle_address_tags [of m space av e out] by (simp_all add: h)
  with Cons.IH [of e1 out1] show ?case by (simp add: h case_prod_beta)
qed simp

lemma store_handle_tags:
  "st_tags (fst (store_handle m e)) = fold (tags_step (st_learningActive e)) (observations_of m) (st_tags e)"
  "st_learningActive (fst (store_handle m e)) = st_learningActive e"
proof -
  have "st_tags (fst (store_handle m e)) = fold (tags_step (st_learningActive e)) (observations_of m) (st_tags e) \<and>
    st_learningActive (fst (store_handle m e)) = st_learningActive e"
  proof (cases "extractAddress m")
    case None
    then show ?thesis by (simp add: store_handle_def observations_of_def)
  next
    case (Some sa)
    obtain space start where sa: "sa = (space, start)" by (metis prod.exhaust)
    let ?avs = "expandAddressRange start (detail_of m ''value'') (message_quantity m)"
    obtain e1 out where f: "fold (handle_address m space) ?avs (e, []) = (e1, out)" by (metis prod.exhaust)
    from fold_address_tags [of m space ?avs e "[]"] Some show ?thesis
      by (simp add: store_handle_def observations_of_def sa f Let_def)
  qed
  then show "st_tags (fst (store_handle m e)) = fold (tags_step (st_learningActive e)) (observations_of m) (st_tags e)"
    "st_learningActive (fst (store_handle m e)) = st_learningActive e" by blast+
qed

text \<open>The observations of one variable, the values they carry, and the numbers among them.\<close>

definition history :: "string \<Rightarrow> tag_obs list \<Rightarrow> tag_obs list" where
  "history k obs = filter (\<lambda>ob. obs_key ob = k) obs"

definition seen_values :: "tag_obs list \<Rightarrow> tag_value list" where
  "seen_values h = concat (map (\<lambda>(s, m, v). case v of None \<Rightarrow> [] | Some x \<Rightarrow> [x]) h)"

definition numbers :: "tag_value list \<Rightarrow> rat list" where
  "numbers vs = concat (map (\<lambda>v. case numericValue (Some v) of None \<Rightarrow> [] | Some x \<Rightarrow> [x]) vs)"

text \<open>How often a value differs from the one before.\<close>

fun changes :: "tag_value list \<Rightarrow> nat" where
  "changes (x # y # vs) = (if valuesEqual (Some x) (Some y) then 0 else 1) + changes (y # vs)"
| "changes _ = 0"

definition last_opt :: "'a list \<Rightarrow> 'a option" where
  "last_opt xs = (if xs = [] then None else Some (last xs))"

definition summarises :: "tag \<Rightarrow> tag_obs list \<Rightarrow> bool" where
  "summarises t h \<longleftrightarrow>
     tg_PollCount t = of_nat (length h) \<and>
     tg_ChangeCount t = of_nat (changes (seen_values h)) \<and>
     tg_LastValue t = last_opt (seen_values h) \<and>
     tg_FirstSeen t = sg_now (fst (hd h)) \<and> tg_LastSeen t = sg_now (fst (last h)) \<and>
     tg_Operation t = sg_operation (fst (last h)) \<and>
     tg_FromAnalysis t = (\<forall>(s, m, v) \<in> set h. im_FromAnalysis m) \<and>
     numericValue (tg_MinValue t) = (if numbers (seen_values h) = [] then None else Some (Min (set (numbers (seen_values h))))) \<and>
     numericValue (tg_MaxValue t) = (if numbers (seen_values h) = [] then None else Some (Max (set (numbers (seen_values h))))) \<and>
     rb_SampleCount (tg_Baseline t) = of_nat (length (numbers (seen_values h)))"

definition summarised :: "tag option \<Rightarrow> tag_obs list \<Rightarrow> bool" where
  "summarised found h \<longleftrightarrow> (case found of None \<Rightarrow> h = [] | Some t \<Rightarrow> h \<noteq> [] \<and> summarises t h)"

lemma changes_snoc:
  "vs \<noteq> [] \<Longrightarrow> changes (vs @ [v]) = changes vs + (if valuesEqual (Some (last vs)) (Some v) then 0 else 1)"
  by (induction vs rule: changes.induct) auto

lemma seen_values_snoc [simp]:
  "seen_values (h @ [(s, m, None)]) = seen_values h" "seen_values (h @ [(s, m, Some x)]) = seen_values h @ [x]"
  by (simp_all add: seen_values_def)

lemma numbers_snoc:
  "numbers (vs @ [v]) = numbers vs @ (case numericValue (Some v) of None \<Rightarrow> [] | Some x \<Rightarrow> [x])"
  by (simp add: numbers_def)

lemma last_opt_snoc [simp]: "last_opt (xs @ [x]) = Some x" by (simp add: last_opt_def)
lemma last_opt_Nil [simp]: "last_opt [] = None" by (simp add: last_opt_def)
lemma seen_values_Nil [simp]: "seen_values [] = []" by (simp add: seen_values_def)
lemma numbers_Nil [simp]: "numbers [] = []" by (simp add: numbers_def)

text \<open>Before its value is looked at: what every sighting updates.\<close>

definition sighted :: "tag \<Rightarrow> tag_obs list \<Rightarrow> tag_obs \<Rightarrow> bool" where
  "sighted t h ob \<longleftrightarrow> tg_PollCount t = of_nat (length (h @ [ob])) \<and> tg_FirstSeen t = sg_now (fst (hd (h @ [ob]))) \<and>
     tg_LastSeen t = sg_now (fst ob) \<and> tg_Operation t = sg_operation (fst ob) \<and>
     tg_FromAnalysis t = (\<forall>(s, m, v) \<in> set (h @ [ob]). im_FromAnalysis m)"

definition values_as :: "tag \<Rightarrow> tag_obs list \<Rightarrow> bool" where
  "values_as t h \<longleftrightarrow> tg_ChangeCount t = of_nat (changes (seen_values h)) \<and> tg_LastValue t = last_opt (seen_values h) \<and>
     numericValue (tg_MinValue t) = (if numbers (seen_values h) = [] then None else Some (Min (set (numbers (seen_values h))))) \<and>
     numericValue (tg_MaxValue t) = (if numbers (seen_values h) = [] then None else Some (Max (set (numbers (seen_values h))))) \<and>
     rb_SampleCount (tg_Baseline t) = of_nat (length (numbers (seen_values h)))"

lemma summarises_split: "summarises t (h @ [ob]) \<longleftrightarrow> sighted t h ob \<and> values_as t (h @ [ob])"
  by (auto simp: summarises_def sighted_def values_as_def)

lemma sight_tag_sighted:
  assumes "summarised found h"
  shows "sighted (sight_tag s m found) h (s, m, v)" and "values_as (sight_tag s m found) h"
proof -
  show "sighted (sight_tag s m found) h (s, m, v)"
    using assms by (cases found) (auto simp: summarised_def summarises_def sighted_def sight_tag_def new_tag_def Let_def)
  show "values_as (sight_tag s m found) h"
    using assms by (cases found)
      (auto simp: summarised_def summarises_def values_as_def sight_tag_def new_tag_def Let_def numericValue_def empty_baseline_def)
qed

lemma sighted_update [simp]:
  "sighted (t\<lparr> tg_ChangeCount := c, tg_PreviousValue := p, tg_LastChangeAt := a \<rparr>) h ob = sighted t h ob"
  "sighted (t\<lparr> tg_LastValue := l \<rparr>) h ob = sighted t h ob"
  "sighted (t\<lparr> tg_MinValue := mi, tg_MaxValue := ma, tg_Baseline := b \<rparr>) h ob = sighted t h ob"
  by (simp_all add: sighted_def)

lemma store_value_spec:
  assumes "values_as t h" and "present \<or> seen_values h = []" and "store_value present (Some x) now t = (c, t1)"
  shows "tg_ChangeCount t1 = of_nat (changes (seen_values h @ [x])) \<and> tg_LastValue t1 = Some x \<and>
    tg_MinValue t1 = tg_MinValue t \<and> tg_MaxValue t1 = tg_MaxValue t \<and> tg_Baseline t1 = tg_Baseline t \<and>
    (\<forall>h ob. sighted t1 h ob = sighted t h ob)"
proof (cases "seen_values h = []")
  case True
  with assms show ?thesis by (auto simp: store_value_def values_as_def)
next
  case False
  with assms show ?thesis
    using changes_snoc [OF False, of x] by (auto simp: store_value_def values_as_def last_opt_def Let_def)
qed

lemma min_if: "min x m = (if x < m then x else m)" for m :: rat by (auto simp: min_def)
lemma max_if: "max x m = (if m < x then x else m)" for m :: rat by (auto simp: max_def)

lemma learn_limit:
  "numericValue (tg_MinValue t) = Some lo \<Longrightarrow> numericValue (Some y) = Some x \<Longrightarrow>
     numericValue (tg_MinValue (learn_range (Some y) x now t)) = Some (if x < lo then x else lo)"
  "numericValue (tg_MaxValue t) = Some hi \<Longrightarrow> numericValue (Some y) = Some x \<Longrightarrow>
     numericValue (tg_MaxValue (learn_range (Some y) x now t)) = Some (if hi < x then x else hi)"
  by (simp_all add: learn_range_def)

lemma learn_range_spec:
  assumes "values_as t0 h" and "tg_MinValue t = tg_MinValue t0" "tg_MaxValue t = tg_MaxValue t0" "tg_Baseline t = tg_Baseline t0"
    and "tg_ChangeCount t = of_nat (changes (seen_values h @ [y]))" and "tg_LastValue t = Some y" and "numericValue (Some y) = Some x"
  shows "values_as (learn_range (Some y) x now t) (h @ [(s, m, Some y)])"
proof -
  let ?ns = "numbers (seen_values h)"
  have mi: "Min (insert x (set ?ns)) = (if x < Min (set ?ns) then x else Min (set ?ns))" if "?ns \<noteq> []"
    using that min_if [of x "Min (set ?ns)"] by (simp only: Min.insert finite_set set_empty simp_thms)
  have ma: "Max (insert x (set ?ns)) = (if Max (set ?ns) < x then x else Max (set ?ns))" if "?ns \<noteq> []"
    using that max_if [of x "Max (set ?ns)"] by (simp only: Max.insert finite_set set_empty simp_thms)
  have "numericValue (tg_MinValue (learn_range (Some y) x now t)) = Some (Min (insert x (set ?ns)))"
  proof (cases "?ns = []")
    case False
    with assms(1,2) have "numericValue (tg_MinValue t) = Some (Min (set ?ns))" by (simp add: values_as_def)
    from learn_limit(1) [OF this assms(7)] show ?thesis by (simp only: mi [OF False])
  qed (use assms in \<open>simp add: values_as_def learn_range_def\<close>)
  moreover have "numericValue (tg_MaxValue (learn_range (Some y) x now t)) = Some (Max (insert x (set ?ns)))"
  proof (cases "?ns = []")
    case False
    with assms(1,3) have "numericValue (tg_MaxValue t) = Some (Max (set ?ns))" by (simp add: values_as_def)
    from learn_limit(2) [OF this assms(7)] show ?thesis by (simp only: ma [OF False])
  qed (use assms in \<open>simp add: values_as_def learn_range_def\<close>)
  ultimately show ?thesis using assms
    by (simp add: values_as_def numbers_snoc learn_range_def)
qed

lemma observe_tag_summarises:
  assumes "summarised found h"
  shows "summarised (Some (observe_tag True (s, m, v) found)) (h @ [(s, m, v)])"
proof -
  let ?t = "sight_tag s m found"
  note sight = sight_tag_sighted(1) [OF assms, of s m v] sight_tag_sighted(2) [OF assms, of s m]
  show ?thesis
  proof (cases v)
    case None
    have "values_as ?t (h @ [(s, m, None)])" using sight(2) by (simp add: values_as_def)
    with sight(1) None show ?thesis by (simp add: summarised_def summarises_split observe_tag_def observe_value_def)
  next
    case (Some y)
    obtain c t1 where st: "store_value (found \<noteq> None) (Some y) (sg_now s) ?t = (c, t1)" by (metis prod.exhaust)
    have "found \<noteq> None \<or> seen_values h = []" using assms by (cases found) (simp_all add: summarised_def)
    note spec = store_value_spec [OF sight(2) this st]
    show ?thesis
    proof (cases "numericValue (Some y)")
      case None
      have "values_as t1 (h @ [(s, m, Some y)])" using spec sight(2) None by (simp add: values_as_def numbers_snoc)
      with spec sight(1) Some st None show ?thesis
        by (simp add: summarised_def summarises_split observe_tag_def observe_value_def Let_def)
    next
      case num: (Some x)
      have v1: "values_as (learn_range (Some y) x (sg_now s) t1) (h @ [(s, m, Some y)])"
        using spec by (intro learn_range_spec [OF sight(2) _ _ _ _ _ num]) simp_all
      have "sighted (learn_range (Some y) x (sg_now s) t1) h (s, m, v)"
        using spec sight(1) by (simp add: learn_range_def)
      with v1 Some st num show ?thesis
        by (simp add: summarised_def summarises_split observe_tag_def observe_value_def Let_def)
    qed
  qed
qed

lemma fold_tags_summarised:
  "summarised (mget (fold (tags_step True) obs []) k) (history k obs)"
proof (induction obs arbitrary: k rule: rev_induct)
  case Nil
  show ?case by (simp add: summarised_def history_def)
next
  case (snoc ob obs)
  obtain s m v where ob: "ob = (s, m, v)" by (metis prod.exhaust)
  show ?case
  proof (cases "obs_key ob = k")
    case True
    have "history k (obs @ [ob]) = history k obs @ [(s, m, v)]" using True by (simp add: history_def ob)
    with True observe_tag_summarises [OF snoc.IH [of k], of s m v] show ?thesis by (simp add: tags_step_def ob)
  next
    case False
    with snoc.IH [of k] show ?thesis by (simp add: tags_step_def history_def)
  qed
qed

lemma store_messages_tags:
  "st_learningActive e \<Longrightarrow>
   st_tags (fold (\<lambda>m e. fst (store_handle m e)) ms e) = fold (tags_step True) (concat (map observations_of ms)) (st_tags e)"
proof (induction ms arbitrary: e)
  case (Cons m ms)
  with Cons.IH [of "fst (store_handle m e)"] show ?case by (simp add: store_handle_tags)
qed simp

text \<open>
  C8: the record of a variable is the summary of everything observed of it.  Whatever messages
  arrive while the baseline is learned, a variable has a record exactly if it was observed, and
  the record holds the number of its observations, how often its value differed from the one
  before, its last value, first and last time, whether every observation came from an analysed
  file, and as its learned range the least and the greatest number seen; observations of
  other variables have no influence.
\<close>

theorem tag_summarises_observations:
  "let e = fold (\<lambda>m e. fst (store_handle m e)) ms (NewTagEngine maxChanges maxEvents);
       h = history k (concat (map observations_of ms))
   in case mget (st_tags e) k of None \<Rightarrow> h = [] | Some t \<Rightarrow> h \<noteq> [] \<and> summarises t h"
  using fold_tags_summarised [of "concat (map observations_of ms)" k] store_messages_tags [of "NewTagEngine maxChanges maxEvents" ms]
  by (simp add: Let_def summarised_def NewTagEngine_def split: option.splits)

section \<open>Bounded histories and well-formed tables\<close>

lemma appendBounded_last_n: "appendBounded n xs x = last_n n (xs @ [x])"
  by (auto simp: appendBounded_def last_n_def Let_def)

interpretation tag_log: bounded_log "appendBounded n" n for n
  by unfold_locales (rule appendBounded_last_n)

text \<open>Every record is stored under its own key, built from its own fields.\<close>

definition tag_keyed :: "string \<Rightarrow> tag \<Rightarrow> bool" where
  "tag_keyed k t \<longleftrightarrow> tg_Key t = k \<and>
     k = BuildKey (tg_Protocol t) (tg_DeviceIP t) (tg_DevicePort t) (tg_UnitID t) (tg_AddressSpace t) (tg_Address t)"

definition tags_ok :: "(string, tag) gomap \<Rightarrow> bool" where
  "tags_ok tags \<longleftrightarrow> wf_map tags \<and> (\<forall>(k, t) \<in> set tags. tag_keyed k t \<and> statistics_ok (tg_Baseline t))"

text \<open>The fields an observation leaves alone.\<close>

definition same_identity :: "tag \<Rightarrow> tag \<Rightarrow> bool" where
  "same_identity t u \<longleftrightarrow> tg_Key t = tg_Key u \<and> tg_Protocol t = tg_Protocol u \<and> tg_DeviceIP t = tg_DeviceIP u \<and>
     tg_DevicePort t = tg_DevicePort u \<and> tg_UnitID t = tg_UnitID u \<and> tg_AddressSpace t = tg_AddressSpace u \<and> tg_Address t = tg_Address u"

lemma tag_keyed_same: "same_identity t u \<Longrightarrow> tag_keyed k t = tag_keyed k u"
  by (simp add: tag_keyed_def same_identity_def)

lemma store_value_same: "same_identity (snd (store_value p v now t)) t \<and> tg_Baseline (snd (store_value p v now t)) = tg_Baseline t"
  by (simp add: store_value_def same_identity_def Let_def)

lemma bounds_statistics:
  "statistics_ok b \<Longrightarrow> statistics_ok (snd (robustBaselineBounds b))"
  by (simp add: robustBaselineBounds_def Let_def finalize_statistics)

lemma observe_value_same:
  "same_identity (fst (observe_value l s found v t)) t \<and>
   (statistics_ok (tg_Baseline t) \<longrightarrow> statistics_ok (tg_Baseline (fst (observe_value l s found v t))))"
proof (cases v)
  case None
  then show ?thesis by (simp add: observe_value_def same_identity_def)
next
  case (Some y)
  obtain c t1 where st: "store_value (found \<noteq> None) v (sg_now s) t = (c, t1)" by (metis prod.exhaust)
  have 1: "same_identity t1 t" "tg_Baseline t1 = tg_Baseline t" using store_value_same [of "found \<noteq> None" v "sg_now s" t]
    unfolding st snd_conv by blast+
  obtain b rb where rb: "robustBaselineBounds (tg_Baseline t) = (b, rb)" by (metis prod.exhaust)
  have 2: "statistics_ok (tg_Baseline t) \<Longrightarrow> statistics_ok rb" using bounds_statistics [of "tg_Baseline t"] by (simp add: rb)
  have lim: "snd (value_limits t1) = rb" by (simp add: value_limits_def rb 1(2) split: option.split)
  show ?thesis
  proof (cases "numericValue v")
    case None
    with Some st 1 show ?thesis by (simp add: observe_value_def)
  next
    case num: (Some x)
    obtain lims rb' where l: "value_limits t1 = (lims, rb')" by (metis prod.exhaust)
    have "fst (check_range s v x (tg_LastValue t) (previous_seen found) t1) = t1\<lparr> tg_Baseline := rb \<rparr>"
      using lim by (simp add: check_range_def l Let_def split: prod.split)
    with Some st num have "fst (observe_value l s found v t) =
        (if l then learn_range v x (sg_now s) t1 else t1\<lparr> tg_Baseline := rb \<rparr>)"
      by (simp add: observe_value_def Let_def case_prod_beta)
    with 1 2 update_statistics show ?thesis by (simp add: learn_range_def same_identity_def)
  qed
qed

lemma observe_tag_keyed:
  assumes "found = Some t \<Longrightarrow> tag_keyed (sg_key s) t \<and> statistics_ok (tg_Baseline t)"
    and "sg_key s = BuildKey (im_Protocol m) (sg_deviceIP s) (sg_devicePort s) (im_UnitID m) (sg_addressSpace s) (sg_address s)"
    and "found = None \<or> found = Some t"
  shows "tag_keyed (sg_key s) (observe_tag l (s, m, v) found) \<and> statistics_ok (tg_Baseline (observe_tag l (s, m, v) found))"
proof -
  have "tag_keyed (sg_key s) (sight_tag s m found) \<and> statistics_ok (tg_Baseline (sight_tag s m found))"
    using assms by (cases found) (auto simp: sight_tag_def new_tag_def tag_keyed_def statistics_ok_def empty_baseline_def Let_def)
  with observe_value_same [of l s found v "sight_tag s m found"] tag_keyed_same show ?thesis
    by (auto simp: observe_tag_def)
qed

lemma tags_step_ok:
  assumes "tags_ok tags" and "ob \<in> set (observations_of m)"
  shows "tags_ok (tags_step l ob tags)"
proof -
  obtain space a v where ob: "ob = (sighting_of m space a, m, v)"
    using assms(2) by (auto simp: observations_of_def split: option.splits)
  let ?s = "sighting_of m space a"
  have k: "sg_key ?s = BuildKey (im_Protocol m) (sg_deviceIP ?s) (sg_devicePort ?s) (im_UnitID m) (sg_addressSpace ?s) (sg_address ?s)"
    by (simp add: sighting_of_def)
  have f: "mget tags (sg_key ?s) = Some t \<Longrightarrow> tag_keyed (sg_key ?s) t \<and> statistics_ok (tg_Baseline t)" for t
    using assms(1) by (auto simp: tags_ok_def dest: mget_SomeD)
  have "tag_keyed (sg_key ?s) (observe_tag l ob (mget tags (sg_key ?s))) \<and> statistics_ok (tg_Baseline (observe_tag l ob (mget tags (sg_key ?s))))"
    unfolding ob using observe_tag_keyed [of "mget tags (sg_key ?s)" _ ?s m l v, OF f k] by (cases "mget tags (sg_key ?s)") auto
  with assms(1) show ?thesis
    using mput_forall [of tags "\<lambda>k t. tag_keyed k t \<and> statistics_ok (tg_Baseline t)"]
    by (simp add: tags_ok_def tags_step_def ob obs_key_def)
qed

lemma fold_tags_ok: "set obs \<subseteq> set (observations_of m) \<Longrightarrow> tags_ok tags \<Longrightarrow> tags_ok (fold (tags_step l) obs tags)"
  by (induction obs arbitrary: tags) (auto intro: tags_step_ok)

text \<open>The histories and their limits under the operations.\<close>

definition logs_ok :: "tag_store \<Rightarrow> bool" where
  "logs_ok e \<longleftrightarrow> length (st_valueChanges e) \<le> st_maxValueChanges e \<and> length (st_controlEvents e) \<le> st_maxControlEvents e"

lemma logs_append: "logs_ok e \<Longrightarrow> logs_ok (appendValueChange vc e)" "logs_ok e \<Longrightarrow> logs_ok (recordControlEvent m k e)"
  using tag_log.push_length by (auto simp: logs_ok_def appendValueChange_def recordControlEvent_def)

lemma logs_update: "logs_ok (snd (updateTag s m v e)) = logs_ok e"
  by (simp add: logs_ok_def updateTag_def Let_def split: prod.split)

lemma logs_handle_address: "logs_ok e \<Longrightarrow> logs_ok (fst (handle_address m space av (e, out)))"
proof -
  assume e: "logs_ok e"
  obtain r e1 where u: "updateTag (sighting_of m space (fst av)) m (snd av) e = (r, e1)" by (metis prod.exhaust)
  have "logs_ok e1" using logs_update [of "sighting_of m space (fst av)" m "snd av" e] e by (simp add: u)
  with logs_append show ?thesis by (cases r) (simp add: handle_address_def Let_def u)
qed

lemma logs_fold: "logs_ok e \<Longrightarrow> logs_ok (fst (fold (handle_address m space) avs (e, out)))"
proof (induction avs arbitrary: e out)
  case (Cons av avs)
  obtain e1 out1 where h: "handle_address m space av (e, out) = (e1, out1)" by (metis prod.exhaust)
  with logs_handle_address [OF Cons.prems, of m space av out] Cons.IH [of e1 out1] show ?case by simp
qed simp

lemma logs_store_handle: "logs_ok e \<Longrightarrow> logs_ok (fst (store_handle m e))"
proof -
  assume e: "logs_ok e"
  have "logs_ok (fst (fold (handle_address m space) avs (e, [])))" for space avs using logs_fold [OF e] .
  with e logs_append show ?thesis
    by (auto simp: store_handle_def Let_def split: option.split prod.split) (metis fst_conv)+
qed

datatype store_op =
    StoreMessage ics_message
  | StoreLearned
  | StoreResetBaseline
  | StorePruneTags time duration
  | StorePruneHistory time duration
  | StoreClear

fun store_step :: "store_op \<Rightarrow> tag_store \<Rightarrow> tag_store" where
  "store_step (StoreMessage m) e = fst (store_handle m e)"
| "store_step StoreLearned e = learning_complete e"
| "store_step StoreResetBaseline e = ResetBaseline e"
| "store_step (StorePruneTags now maxAge) e = snd (PruneTags now maxAge e)"
| "store_step (StorePruneHistory now maxAge) e = PruneHistory now maxAge e"
| "store_step StoreClear e = store_clear e"

definition store_inv :: "tag_store \<Rightarrow> bool" where
  "store_inv e \<longleftrightarrow> tags_ok (st_tags e) \<and> logs_ok e"

lemma tags_ok_map:
  assumes "tags_ok tags" and "\<And>t. same_identity (f t) t" and "\<And>t. statistics_ok (tg_Baseline t) \<Longrightarrow> statistics_ok (tg_Baseline (f t))"
  shows "tags_ok (map (\<lambda>(k, t). (k, f t)) tags)"
proof -
  have "map fst (map (\<lambda>(k, t). (k, f t)) tags) = map fst tags" by (induction tags) auto
  then have "wf_map (map (\<lambda>(k, t). (k, f t)) tags)" using assms(1) unfolding wf_map_def tags_ok_def by metis
  with assms tag_keyed_same [OF assms(2)] show ?thesis by (auto simp: tags_ok_def)
qed

lemma tags_ok_filter: "tags_ok tags \<Longrightarrow> tags_ok (filter P tags)"
  by (auto simp: tags_ok_def wf_map_def intro: distinct_map_filter)

lemma st_tags_map_tags: "st_tags (map_tags f (e\<lparr> st_learningActive := b \<rparr>)) = map (\<lambda>(k, t). (k, f t)) (st_tags e)"
  by (simp add: map_tags_def)

lemma store_inv_step: "store_inv e \<Longrightarrow> store_inv (store_step opn e)"
proof (cases opn)
  case (StoreMessage m)
  assume "store_inv e"
  then show ?thesis
    using fold_tags_ok [of "observations_of m" m "st_tags e" "st_learningActive e"] logs_store_handle [of e m]
    by (simp add: StoreMessage store_inv_def store_handle_tags)
next
  case StoreLearned
  assume e: "store_inv e"
  have "tags_ok (st_tags (learning_complete e))"
    unfolding learning_complete_def st_tags_map_tags
    by (rule tags_ok_map) (use e in \<open>simp_all add: store_inv_def same_identity_def finalize_statistics\<close>)
  with e show ?thesis by (simp add: StoreLearned store_inv_def logs_ok_def learning_complete_def map_tags_def)
next
  case StoreResetBaseline
  assume e: "store_inv e"
  have "tags_ok (st_tags (ResetBaseline e))"
    unfolding ResetBaseline_def st_tags_map_tags
    by (rule tags_ok_map) (use e in \<open>simp_all add: store_inv_def same_identity_def statistics_ok_def empty_baseline_def\<close>)
  with e show ?thesis by (simp add: StoreResetBaseline store_inv_def logs_ok_def ResetBaseline_def map_tags_def)
next
  case (StorePruneTags now maxAge)
  assume "store_inv e"
  then show ?thesis by (simp add: StorePruneTags store_inv_def logs_ok_def PruneTags_def Let_def tags_ok_filter)
next
  case (StorePruneHistory now maxAge)
  assume "store_inv e"
  then show ?thesis
    by (auto simp: StorePruneHistory store_inv_def logs_ok_def PruneHistory_def filterRecent_def intro: le_trans [OF length_filter_le])
next
  case StoreClear
  then show ?thesis by (simp add: store_inv_def logs_ok_def store_clear_def tags_ok_def)
qed

interpretation store_machine: invariant_machine store_step store_inv "NewTagEngine maxChanges maxEvents" for maxChanges maxEvents
proof
  show "store_inv (NewTagEngine maxChanges maxEvents)"
    by (simp add: store_inv_def logs_ok_def NewTagEngine_def tags_ok_def)
qed (rule store_inv_step)

lemma store_limits: "st_maxValueChanges (store_step opn e) = st_maxValueChanges e \<and> st_maxControlEvents (store_step opn e) = st_maxControlEvents e"
proof -
  have app: "st_maxValueChanges (appendValueChange vc e) = st_maxValueChanges e" "st_maxControlEvents (appendValueChange vc e) = st_maxControlEvents e"
    "st_maxValueChanges (recordControlEvent m k e) = st_maxValueChanges e" "st_maxControlEvents (recordControlEvent m k e) = st_maxControlEvents e"
    for vc m k e by (simp_all add: appendValueChange_def recordControlEvent_def)
  have upd: "st_maxValueChanges (snd (updateTag s m v e)) = st_maxValueChanges e \<and> st_maxControlEvents (snd (updateTag s m v e)) = st_maxControlEvents e"
    for s m v e by (simp add: updateTag_def Let_def split: prod.split)
  have addr: "st_maxValueChanges (fst (handle_address m space av (e, out))) = st_maxValueChanges e \<and>
    st_maxControlEvents (fst (handle_address m space av (e, out))) = st_maxControlEvents e" for m space av e out
    using upd [of "sighting_of m space (fst av)" m "snd av" e] by (auto simp: handle_address_def Let_def app split: prod.split)
  have fold: "st_maxValueChanges (fst (fold (handle_address m space) avs (e, out))) = st_maxValueChanges e \<and>
    st_maxControlEvents (fst (fold (handle_address m space) avs (e, out))) = st_maxControlEvents e" for m space avs e out
  proof (induction avs arbitrary: e out)
    case (Cons av avs)
    obtain e1 out1 where "handle_address m space av (e, out) = (e1, out1)" by (metis prod.exhaust)
    with addr [of m space av e out] Cons.IH [of e1 out1] show ?case by simp
  qed simp
  have "st_maxValueChanges (fst (store_handle m e)) = st_maxValueChanges e \<and> st_maxControlEvents (fst (store_handle m e)) = st_maxControlEvents e" for m
  proof (cases "extractAddress m")
    case (Some sa)
    obtain space start where sa: "sa = (space, start)" by (metis prod.exhaust)
    let ?avs = "expandAddressRange start (detail_of m ''value'') (message_quantity m)"
    obtain e1 out where f: "fold (handle_address m space) ?avs (e, []) = (e1, out)" by (metis prod.exhaust)
    from fold [of m space ?avs e "[]"] Some show ?thesis by (simp add: store_handle_def sa f Let_def app)
  qed (simp add: store_handle_def app)
  then show ?thesis
    by (cases opn) (simp_all add: learning_complete_def ResetBaseline_def map_tags_def PruneTags_def PruneHistory_def store_clear_def Let_def)
qed

text \<open>
  C19: whatever messages, prunings, resets and ends of learning happen, both histories stay within
  their limits, and every variable is stored once, under the key built from its own protocol,
  device, unit, address space and address.
\<close>

theorem store_bounded_and_keyed:
  "let e = fold store_step ops (NewTagEngine maxChanges maxEvents)
   in length (st_valueChanges e) \<le> (if maxChanges \<le> 0 then 1000 else nat maxChanges) \<and>
      length (st_controlEvents e) \<le> (if maxEvents \<le> 0 then 1000 else nat maxEvents) \<and>
      distinct (mkeys (st_tags e)) \<and> list_all (\<lambda>(k, t). tag_keyed k t) (st_tags e)"
proof -
  let ?e = "fold store_step ops (NewTagEngine maxChanges maxEvents)"
  have "st_maxValueChanges ?e = (if maxChanges \<le> 0 then 1000 else nat maxChanges) \<and>
      st_maxControlEvents ?e = (if maxEvents \<le> 0 then 1000 else nat maxEvents)"
    by (induction ops rule: rev_induct) (simp_all add: store_limits NewTagEngine_def defaultMaxValueChanges_def defaultMaxControlEvents_def)
  with store_machine.reachable_inv [of ops maxChanges maxEvents] show ?thesis
    by (auto simp: store_inv_def logs_ok_def tags_ok_def wf_map_def mkeys_def list_all_iff Let_def)
qed

section \<open>A write, from the wire to the store\<close>

lemma mget_tags_step: "mget (tags_step l a tags) k = (if k = obs_key a then Some (observe_tag l a (mget tags k)) else mget tags k)"
  by (simp add: tags_step_def)

lemma fold_tags_absent: "k \<notin> obs_key ` set obs \<Longrightarrow> mget (fold (tags_step l) obs tags) k = mget tags k"
  by (induction obs arbitrary: tags) (auto simp: mget_tags_step)

lemma fold_tags_once:
  "distinct (map obs_key obs) \<Longrightarrow> ob \<in> set obs \<Longrightarrow>
   mget (fold (tags_step l) obs tags) (obs_key ob) = Some (observe_tag l ob (mget tags (obs_key ob)))"
proof (induction obs arbitrary: tags)
  case (Cons a obs)
  show ?case
  proof (cases "ob = a")
    case True
    with Cons.prems fold_tags_absent [of "obs_key a" obs l "tags_step l a tags"] show ?thesis by (simp add: mget_tags_step)
  next
    case False
    with Cons.prems have ob: "ob \<in> set obs" by simp
    then have "obs_key ob \<in> obs_key ` set obs" by (rule imageI)
    with Cons.prems(1) have "obs_key ob \<noteq> obs_key a" by auto
    note ob this
    with Cons.IH [of "tags_step l a tags"] Cons.prems(1) show ?thesis by (simp add: mget_tags_step)
  qed
qed simp

lemma observe_value_stores:
  "tg_LastValue (fst (observe_value l s found (Some y) t)) = Some y \<and>
   tg_Operation (fst (observe_value l s found (Some y) t)) = tg_Operation t"
proof -
  obtain c t1 where st: "store_value (found \<noteq> None) (Some y) (sg_now s) t = (c, t1)" by (metis prod.exhaust)
  have 1: "tg_LastValue t1 = Some y" "tg_Operation t1 = tg_Operation t"
    using st by (auto simp: store_value_def Let_def split: if_splits)
  have 2: "tg_LastValue (fst (check_range s v x o1 prev t1)) = tg_LastValue t1" "tg_Operation (fst (check_range s v x o1 prev t1)) = tg_Operation t1"
    for v x o1 prev by (simp_all add: check_range_def Let_def split: prod.split)
  show ?thesis
    unfolding observe_value_def Let_def case_prod_beta st by (cases "numericValue (Some y)") (simp_all add: 1 2 learn_range_def)
qed

lemma observe_tag_stores:
  "tg_LastValue (observe_tag l (s, m, Some y) found) = Some y" "tg_Operation (observe_tag l (s, m, Some y) found) = sg_operation s"
  using observe_value_stores [of l s found y "sight_tag s m found"] by (simp_all add: observe_tag_def sight_tag_def Let_def)

lemma BuildKey_address [simp]: "BuildKey p ip port u space a = BuildKey p ip port u space b \<longleftrightarrow> a = b"
  by (simp add: BuildKey_def word_unat_eq_iff)

lemma of_nat_u32_eq: "i < 2 ^ 32 \<Longrightarrow> j < 2 ^ 32 \<Longrightarrow> (of_nat i :: u32) = of_nat j \<longleftrightarrow> i = j"
  by (simp add: word_of_nat_eq_iff take_bit_nat_eq_self)

lemma fold_address_events:
  "st_controlEvents (fst (fold (handle_address m space) avs (e, out))) = st_controlEvents e \<and>
   st_maxControlEvents (fst (fold (handle_address m space) avs (e, out))) = st_maxControlEvents e"
proof (induction avs arbitrary: e out)
  case (Cons av avs)
  obtain r e1 where u: "updateTag (sighting_of m space (fst av)) m (snd av) e = (r, e1)" by (metis prod.exhaust)
  have "st_controlEvents e1 = st_controlEvents e" "st_maxControlEvents e1 = st_maxControlEvents e"
    using u by (auto simp: updateTag_def Let_def split: prod.splits)
  then show ?case using Cons.IH by (cases r) (simp add: handle_address_def Let_def u appendValueChange_def)
qed simp

text \<open>The control event of a message that is a write.\<close>

lemma store_handle_write:
  assumes "extractAddress m = Some (space, start)" and "isWriteOperation m"
    and "expandAddressRange start (detail_of m ''value'') (message_quantity m) = avs" and "avs \<noteq> []"
  shows "st_controlEvents (fst (store_handle m e)) = appendBounded (st_maxControlEvents e) (st_controlEvents e)
    (control_event_of m (sg_key (sighting_of m space (fst (last avs)))))"
proof -
  obtain e1 out where f: "fold (handle_address m space) avs (e, []) = (e1, out)" by (metis prod.exhaust)
  with fold_address_events [of m space avs e "[]"] assms show ?thesis
    by (simp add: store_handle_def Let_def recordControlEvent_def)
qed

text \<open>The observations in a request that writes registers, one for each register.\<close>

lemma write_registers_observations:
  assumes "im_Protocol m = ''Modbus''" and "modbus_write_seen m unit 16 start (length vs)"
    and "detail_of m ''value'' = Some (D_u16s vs)" and "length vs \<le> 123"
  shows "extractAddress m = Some (''HoldingRegister'', ucast start)"
    and "expandAddressRange (ucast start) (detail_of m ''value'') (message_quantity m) =
      map (\<lambda>i. (ucast start + of_nat i, Some (V_wire (D_u16 (vs ! i))))) [0..<length vs]"
proof -
  show "extractAddress m = Some (''HoldingRegister'', ucast start)"
    using assms(1,2) by (simp add: extractAddress_def extractModbusAddress_def modbus_write_seen_def modbusAddressSpace_def)
  have "unat (of_nat (length vs) :: u16) = length vs" using assms(4) by (intro unat_of_nat_small) simp
  then show "expandAddressRange (ucast start) (detail_of m ''value'') (message_quantity m) =
      map (\<lambda>i. (ucast start + of_nat i, Some (V_wire (D_u16 (vs ! i))))) [0..<length vs]"
    using assms(2,3) by (simp add: expandAddressRange_def message_quantity_def modbus_write_seen_def range_length_def)
qed

definition register_key :: "packet \<Rightarrow> u8 \<Rightarrow> u16 \<Rightarrow> nat \<Rightarrow> string" where
  "register_key p unit start i = BuildKey ''Modbus'' (pk_DstIP p) (pk_DstPort p) unit ''HoldingRegister'' (ucast start + of_nat i)"

text \<open>
  C7: A Write Multiple Registers request (function 16, 1 to 123 values) from a client, that is, not from the
  Modbus port itself, ends in the store, if the store keeps control events at all: whatever was
  stored before, the record of each written register then holds the value written to it and the
  operation Write, and the command is recorded once, linked to the last register it wrote.
\<close>

theorem write_request_reaches_store:
  assumes "pk_AppPayload p = write_registers_adu tx unit start vs" and "vs \<noteq> []" and "length vs \<le> 123"
    and "pk_SrcPort p \<noteq> port" and "0 < st_maxControlEvents e"
  shows "\<exists>m. parseModbus port p = accepted m \<and>
    (\<forall>i < length vs. \<exists>t. mget (st_tags (fst (store_handle m e))) (register_key p unit start i) = Some t \<and>
       tg_LastValue t = Some (V_wire (D_u16 (vs ! i))) \<and> tg_Operation t = ''Write'') \<and>
    st_controlEvents (fst (store_handle m e)) =
      appendBounded (st_maxControlEvents e) (st_controlEvents e) (control_event_of m (register_key p unit start (length vs - 1)))"
proof -
  obtain m where m: "parseModbus port p = accepted m" "modbus_write_seen m unit 16 start (length vs)"
    "im_IsResponse m = (pk_SrcPort p = port)" "detail_of m ''value'' = Some (D_u16s vs)"
    using write_registers_parsed [OF assms(1-3), of port] by blast
  have d: "describes p ''Modbus'' m" using modbus.parse_describes [OF m(1)] .
  then have proto: "im_Protocol m = ''Modbus''" by (simp add: describes_def)
  note obs = write_registers_observations [OF proto m(2,4) assms(3)]
  have wr: "isWriteOperation m" using proto m(2) by (simp add: isWriteOperation_def modbus_write_seen_def)
  have key: "sg_key (sighting_of m ''HoldingRegister'' (ucast start + of_nat i)) = register_key p unit start i" for i
    using d m(2,3) assms(4) by (simp add: sighting_of_def register_key_def device_of_def describes_def modbus_write_seen_def)
  let ?ob = "\<lambda>i. (sighting_of m ''HoldingRegister'' (ucast start + of_nat i), m, Some (V_wire (D_u16 (vs ! i))))"
  have os: "observations_of m = map ?ob [0..<length vs]" by (simp add: observations_of_def obs comp_def)
  have "inj_on (\<lambda>i. register_key p unit start i) (set [0..<length vs])"
    using assms(3) by (intro inj_onI) (simp add: register_key_def of_nat_u32_eq)
  then have dist: "distinct (map obs_key (observations_of m))" by (simp add: os comp_def obs_key_def key distinct_map)
  have tags: "\<exists>t. mget (st_tags (fst (store_handle m e))) (register_key p unit start i) = Some t \<and>
       tg_LastValue t = Some (V_wire (D_u16 (vs ! i))) \<and> tg_Operation t = ''Write''" if "i < length vs" for i
  proof -
    have "?ob i \<in> set (observations_of m)" using that by (auto simp: os)
    from fold_tags_once [OF dist this, of "st_learningActive e" "st_tags e"] show ?thesis
      by (simp add: store_handle_tags obs_key_def key observe_tag_stores) (simp add: sighting_of_def wr)
  qed
  have "st_controlEvents (fst (store_handle m e)) =
      appendBounded (st_maxControlEvents e) (st_controlEvents e) (control_event_of m (register_key p unit start (length vs - 1)))"
    using assms(2) by (simp add: store_handle_write [OF obs(1) wr obs(2)] last_map key)
  with m(1) tags show ?thesis by blast
qed

theorem write_request_reaches_store_witness:
  "let p = zero_packet\<lparr> pk_SrcPort := 40000, pk_DstPort := 502, pk_AppPayload := write_registers_adu 1 17 100 [42, 7] \<rparr>
   in \<exists>m. parseModbus 502 p = accepted m \<and>
        (\<forall>i < length [42, 7 :: u16]. \<exists>t. mget (st_tags (fst (store_handle m (NewTagEngine 0 0)))) (register_key p 17 100 i) = Some t \<and>
           tg_LastValue t = Some (V_wire (D_u16 ([42, 7] ! i))) \<and> tg_Operation t = ''Write'') \<and>
        st_controlEvents (fst (store_handle m (NewTagEngine 0 0))) =
          appendBounded (st_maxControlEvents (NewTagEngine 0 0)) (st_controlEvents (NewTagEngine 0 0))
            (control_event_of m (register_key p 17 100 (length [42, 7 :: u16] - 1)))"
  unfolding Let_def by (rule write_request_reaches_store) (simp_all add: NewTagEngine_def defaultMaxControlEvents_def)

text \<open>
  A Modbus request that reads and writes registers in one transaction (function 23) is
  marked as a write by the parser and then leaves no trace in the store: no variable is touched and
  no control event is recorded.
\<close>

theorem read_write_multiple_not_recorded:
  assumes "pk_AppPayload p = mbap_header tx n unit @ 23 # body"
  shows "\<exists>m. parseModbus port p = accepted m \<and> im_FunctionName m = ''ReadWriteMultipleRegisters'' \<and>
    detail_of m ''is_write'' = Some (D_bool True) \<and> store_handle m e = (e, [])"
proof -
  have b: "modbus_body 23 body m = Some m" for m by (simp add: modbus_body_def decodeModbusData_def)
  have "mget modbusFunctionNames 23 = Some ''ReadWriteMultipleRegisters''" by code_simp
  then have name: "modbusFunctionName 23 = ''ReadWriteMultipleRegisters''" by (simp add: modbusFunctionName_def)
  let ?m = "modbus_operation 23 (modbus_header port p unit 23)"
  have "parseModbus port p = accepted ?m" using mbap_shape [OF assms, of port] by (simp add: b)
  moreover have "im_FunctionName ?m = ''ReadWriteMultipleRegisters''" "im_Protocol ?m = ''Modbus''"
    by (simp_all add: modbus_operation_def modbus_header_def name newMessage_def setOperation_def Let_def)
  moreover have "detail_of ?m ''is_write'' = Some (D_bool True)" "detail_of ?m ''address'' = None" "\<not> isSecurityRelevant ?m"
    by (simp_all add: modbus_operation_def isSecurityRelevant_def)
  ultimately show ?thesis by (auto simp: store_handle_def extractAddress_def extractModbusAddress_def)
qed

theorem read_write_multiple_not_recorded_witness:
  "\<exists>m. parseModbus 502 (zero_packet\<lparr> pk_AppPayload := mbap_header 1 2 17 @ [23] \<rparr>) = accepted m \<and>
    im_FunctionName m = ''ReadWriteMultipleRegisters'' \<and> detail_of m ''is_write'' = Some (D_bool True) \<and>
    store_handle m (NewTagEngine 0 0) = (NewTagEngine 0 0, [])"
  by (rule read_write_multiple_not_recorded) simp

end
