(* ===== verification/Smb_Stream.thy ===== *)
theory Smb_Stream
  imports Tcp_Reassembly
begin

text \<open>
  internal/smb/engine.go, the framing: SMB messages are cut out of the byte stream of a TCP
  direction by the four-byte NetBIOS header in front of each.  The buffer of a direction holds
  what has not been consumed.  The contract \<open>stream_framer\<close> says that cutting may be
  interrupted anywhere.
\<close>

section \<open>Frames\<close>

definition validSMBFramePrefix :: "bytes \<Rightarrow> bool" where
  "validSMBFramePrefix b =
     (if length b < 8 \<or> b ! 0 \<noteq> 0 then False
      else take 4 (drop 4 b) = smb_magic 0xfe \<or> take 4 (drop 4 b) = smb_magic 0xfd)"

text \<open>\<open>int(b[1])<<16 | int(b[2])<<8 | int(b[3])\<close>.\<close>

definition frame_length :: "bytes \<Rightarrow> nat" where
  "frame_length b = unat (b ! 1) * 65536 + unat (b ! 2) * 256 + unat (b ! 3)"

definition max_frame :: nat where "max_frame = 8 * 2 ^ 20"

text \<open>\<open>resyncSMB\<close>: \<open>None\<close> is the result \<open>(b, false)\<close>.\<close>

fun resyncSMB :: "bytes \<Rightarrow> bytes option" where
  "resyncSMB [] = None"
| "resyncSMB (x # xs) =
     (if length (x # xs) < 8 then None
      else if validSMBFramePrefix (x # xs) \<and> 4 \<le> frame_length (x # xs) \<and> frame_length (x # xs) \<le> max_frame
      then Some (x # xs)
      else resyncSMB xs)"

lemma resyncSMB_suffix: "resyncSMB b = Some rb \<Longrightarrow> \<exists>xs. b = xs @ rb"
proof (induction b)
  case (Cons x b)
  then show ?case by (auto split: if_splits intro: exI [of _ "x # _"])
qed simp

lemma resyncSMB_length: "resyncSMB b = Some rb \<Longrightarrow> length rb \<le> length b"
  using resyncSMB_suffix by fastforce

text \<open>
  The loop of \<open>parseStreamChunk\<close>: the records, what stays in the buffer, and whether the loop
  had to look for a frame.
\<close>

function smb_frames :: "bytes \<Rightarrow> bytes list \<times> bytes \<times> bool" where
  "smb_frames b =
     (if length b < 8 then ([], b, False)
      else if \<not> validSMBFramePrefix b then
        (case resyncSMB (drop 1 b) of
           Some rb \<Rightarrow> (case smb_frames rb of (rs, rest, _) \<Rightarrow> (rs, rest, True))
         | None \<Rightarrow> ([], (if length b > 7 then drop (length b - 7) b else b), False))
      else if frame_length b < 4 \<or> frame_length b > max_frame then
        (case smb_frames (drop 1 b) of (rs, rest, _) \<Rightarrow> (rs, rest, True))
      else if length b < 4 + frame_length b then ([], b, False)
      else
        (case smb_frames (drop (4 + frame_length b) b) of
           (rs, rest, rsync) \<Rightarrow> (take (frame_length b) (drop 4 b) # rs, rest, rsync)))"
  by pat_completeness auto
termination
proof (relation "measure length", goal_cases)
  case (2 b rb)
  from resyncSMB_length [OF 2(3)] 2(1) show ?case by simp
qed auto

declare smb_frames.simps [simp del]

text \<open>The part of \<open>parseStreamChunk\<close> that changes the buffer of the direction.\<close>

definition gap_resync :: "chunk \<Rightarrow> bytes \<Rightarrow> bytes \<times> bool" where
  "gap_resync c b =
     (if ck_GapBefore c > 0 \<or> ck_Midstream c
      then (case resyncSMB b of Some rb \<Rightarrow> (rb, True) | None \<Rightarrow> (b, False))
      else (b, False))"

definition limit_buffer :: "bytes \<Rightarrow> bytes \<times> bool" where
  "limit_buffer b =
     (if length b > max_frame
      then ((case resyncSMB (drop (length b - max_frame) b) of Some rb \<Rightarrow> rb | None \<Rightarrow> drop (length b - 7) b), True)
      else (b, False))"

definition chunk_frames :: "chunk \<Rightarrow> bytes \<Rightarrow> bytes list \<times> bytes \<times> bool" where
  "chunk_frames c buffered =
     (let (b1, r1) = gap_resync c (buffered @ ck_Data c);
          (b2, r2) = limit_buffer b1;
          (rs, rest, r3) = smb_frames b2
      in (rs, rest, r1 \<or> r2 \<or> r3))"

section \<open>What the loop computes\<close>

text \<open>A position that the loop accepts as the start of a frame.\<close>

definition frame_start :: "bytes \<Rightarrow> bool" where
  "frame_start b \<longleftrightarrow> validSMBFramePrefix b \<and> 4 \<le> frame_length b \<and> frame_length b \<le> max_frame"

lemma frame_start_length: "frame_start b \<Longrightarrow> 8 \<le> length b"
  by (auto simp: frame_start_def validSMBFramePrefix_def split: if_splits)

lemma resyncSMB_short: "length b < 8 \<Longrightarrow> resyncSMB b = None"
  by (cases b) auto

lemma resyncSMB_simp: "resyncSMB b = (if b = [] then None else if frame_start b then Some b else resyncSMB (tl b))"
proof (cases b)
  case (Cons x xs)
  then show ?thesis by (auto simp: frame_start_def validSMBFramePrefix_def resyncSMB_short)
qed simp

lemma resyncSMB_frame_start: "resyncSMB b = Some rb \<Longrightarrow> frame_start rb"
  by (induction b) (auto simp: frame_start_def split: if_splits)

definition framed :: "bytes \<Rightarrow> bytes list \<times> bytes" where
  "framed b = (fst (smb_frames b), fst (snd (smb_frames b)))"

lemma framed_short: "length b < 8 \<Longrightarrow> framed b = ([], b)"
  by (simp add: framed_def smb_frames.simps [of b])

lemma framed_partial: "frame_start b \<Longrightarrow> length b < 4 + frame_length b \<Longrightarrow> framed b = ([], b)"
  using frame_start_length [of b] by (simp add: framed_def smb_frames.simps [of b] frame_start_def)

lemma framed_frame:
  "frame_start b \<Longrightarrow> 4 + frame_length b \<le> length b \<Longrightarrow>
   framed b = (take (frame_length b) (drop 4 b) # fst (framed (drop (4 + frame_length b) b)),
               snd (framed (drop (4 + frame_length b) b)))"
  using frame_start_length [of b]
  by (simp add: framed_def smb_frames.simps [of b] frame_start_def split: prod.split)

lemma last_n_tl: "n < length c \<Longrightarrow> last_n n (tl c) = last_n n c"
proof (cases c)
  case (Cons x xs)
  moreover assume "n < length c"
  ultimately have "length c - n = Suc (length xs - n)" by simp
  then show ?thesis by (simp add: last_n_def Cons)
qed simp

text \<open>Where no frame starts the loop drops bytes, one by one or up to the next frame.\<close>

lemma framed_skip:
  assumes "\<not> frame_start b" and "8 \<le> length b"
  shows "framed b = framed (tl b)"
  using assms
proof (induction "length b" arbitrary: b rule: less_induct)
  case less
  then have ne: "b \<noteq> []" by auto
  show ?case
  proof (cases "validSMBFramePrefix b")
    case True
    with less.prems show ?thesis
      by (auto simp: framed_def smb_frames.simps [of b] frame_start_def drop_Suc split: prod.split)
  next
    case False
    have via: "framed c = (case resyncSMB c of Some rb \<Rightarrow> framed rb | None \<Rightarrow> ([], last_n 7 c))" if "7 \<le> length c" "length c < length b" for c
      using that
    proof (induction "length c" arbitrary: c rule: less_induct)
      case inner: less
      show ?case
      proof (cases "frame_start c")
        case True
        then show ?thesis using frame_start_length [OF True] by (subst resyncSMB_simp) auto
      next
        case nf: False
        show ?thesis
        proof (cases "length c = 7")
          case True
          then show ?thesis using nf inner.prems
            by (simp add: framed_short resyncSMB_short)
        next
          case False
          then have "framed c = framed (tl c)" using less.hyps [of c] inner.prems nf by simp
          also have "\<dots> = (case resyncSMB (tl c) of Some rb \<Rightarrow> framed rb | None \<Rightarrow> ([], last_n 7 (tl c)))"
            using inner.hyps [of "tl c"] inner.prems False by simp
          also have "last_n 7 (tl c) = last_n 7 c" using False inner.prems by (simp add: last_n_tl)
          finally show ?thesis using nf False inner.prems by (subst resyncSMB_simp) (auto split: option.split)
        qed
      qed
    qed
    have "framed b = (case resyncSMB (tl b) of Some rb \<Rightarrow> framed rb | None \<Rightarrow> ([], last_n 7 b))"
      using False less.prems by (auto simp: framed_def smb_frames.simps [of b] drop_Suc last_n_def split: option.split prod.split)
    moreover have "last_n 7 (tl b) = last_n 7 b" using less.prems by (simp add: last_n_tl)
    ultimately show ?thesis using via [of "tl b"] less.prems ne by (auto split: option.split)
  qed
qed

lemma framed_resync: "resyncSMB b = Some rb \<Longrightarrow> framed b = framed rb"
proof (induction b)
  case (Cons x b)
  show ?case
  proof (cases "frame_start (x # b)")
    case True
    with Cons.prems show ?thesis by (subst (asm) resyncSMB_simp) simp
  next
    case False
    with Cons.prems have tl: "resyncSMB b = Some rb" by (subst (asm) resyncSMB_simp) simp
    then have "8 \<le> length b" using frame_start_length [OF resyncSMB_frame_start [OF tl]] resyncSMB_length [OF tl] by linarith
    with framed_skip [OF False] Cons.IH [OF tl] show ?thesis by simp
  qed
qed simp

section \<open>Cutting may be interrupted anywhere\<close>

text \<open>
  The contract of a framer: what it cuts from a stream does not depend on how the stream is
  divided, as long as it is given its own rest in front of the next piece.
\<close>

primrec feed :: "('a list \<Rightarrow> 'r list \<times> 'a list) \<Rightarrow> 'a list list \<Rightarrow> 'a list \<Rightarrow> 'r list \<times> 'a list" where
  "feed frm [] b = ([], b)"
| "feed frm (c # cs) b =
     (case frm (b @ c) of (rs, rest) \<Rightarrow> (case feed frm cs rest of (rs', rest') \<Rightarrow> (rs @ rs', rest')))"

locale stream_framer =
  fixes frm :: "'a list \<Rightarrow> 'r list \<times> 'a list"
  assumes frm_Nil: "frm [] = ([], [])"
    and frm_append: "frm (xs @ ys) =
      (fst (frm xs) @ fst (frm (snd (frm xs) @ ys)), snd (frm (snd (frm xs) @ ys)))"
begin

lemma frm_rest: "frm (snd (frm xs)) = ([], snd (frm xs))"
  using frm_append [of xs "[]"] by (cases "frm (snd (frm xs))") (simp add: prod_eq_iff)

lemma feed_frm: "frm b = ([], b) \<Longrightarrow> feed frm cs b = frm (b @ concat cs)"
proof (induction cs arbitrary: b)
  case (Cons c cs)
  obtain rs rest where c: "frm (b @ c) = (rs, rest)" by (metis prod.exhaust)
  with frm_rest [of "b @ c"] have "frm rest = ([], rest)" by simp
  from Cons.IH [OF this] have "feed frm (c # cs) b = (rs @ fst (frm (rest @ concat cs)), snd (frm (rest @ concat cs)))"
    by (simp add: c split: prod.split)
  also have "\<dots> = frm ((b @ c) @ concat cs)" using frm_append [of "b @ c" "concat cs"] by (simp add: c)
  finally show ?case by simp
qed simp

lemma feed_chunks: "feed frm cs [] = frm (concat cs)"
  using feed_frm [of "[]" cs] by (simp add: frm_Nil)

end

lemma frame_length_append: "8 \<le> length b \<Longrightarrow> frame_length (b @ ys) = frame_length b"
  by (simp add: frame_length_def nth_append)

lemma frame_start_append: "8 \<le> length b \<Longrightarrow> frame_start (b @ ys) = frame_start b"
  by (auto simp: frame_start_def frame_length_append validSMBFramePrefix_def nth_append)

lemma framed_append:
  "framed (xs @ ys) = (fst (framed xs) @ fst (framed (snd (framed xs) @ ys)), snd (framed (snd (framed xs) @ ys)))"
proof (induction "length xs" arbitrary: xs rule: less_induct)
  case less
  consider (short) "length xs < 8" | (skip) "8 \<le> length xs" "\<not> frame_start xs"
    | (partial) "frame_start xs" "length xs < 4 + frame_length xs" | (full) "frame_start xs" "4 + frame_length xs \<le> length xs"
    by linarith
  then show ?case
  proof cases
    case skip
    then have "xs \<noteq> []" by auto
    with skip have "\<not> frame_start (xs @ ys)" "tl (xs @ ys) = tl xs @ ys" by (simp_all add: frame_start_append)
    with framed_skip [of "xs @ ys"] framed_skip [of xs] skip less [of "tl xs"] show ?thesis by simp
  next
    case full
    have n: "8 \<le> length xs" "frame_length (xs @ ys) = frame_length xs" "frame_start (xs @ ys)"
      using full frame_start_length by (auto simp: frame_length_append frame_start_append)
    have "length (drop (4 + frame_length xs) xs) < length xs" using n by simp
    from less [OF this] framed_frame [of xs] framed_frame [of "xs @ ys"] full n show ?thesis by simp
  qed (simp_all add: framed_short framed_partial)
qed

interpretation smb: stream_framer framed
  by unfold_locales (simp add: framed_short, rule framed_append)

section \<open>The chunks of a direction\<close>

definition chunk_framed :: "chunk \<Rightarrow> bytes \<Rightarrow> bytes list \<times> bytes" where
  "chunk_framed c b = (case chunk_frames c b of (rs, rest, _) \<Rightarrow> (rs, rest))"

lemma gap_resync_framed: "framed (fst (gap_resync c b)) = framed b \<and> length (fst (gap_resync c b)) \<le> length b"
  using framed_resync resyncSMB_length by (auto simp: gap_resync_def split: option.split)

lemma chunk_framed_small:
  assumes "length (b @ ck_Data c) \<le> max_frame"
  shows "chunk_framed c b = framed (b @ ck_Data c)"
proof -
  obtain b1 r1 where g: "gap_resync c (b @ ck_Data c) = (b1, r1)" by (metis prod.exhaust)
  with gap_resync_framed [of c "b @ ck_Data c"] assms have "framed b1 = framed (b @ ck_Data c)" "length b1 \<le> max_frame" by simp_all
  moreover have "chunk_framed c b = framed b1" if "length b1 \<le> max_frame"
    using that by (simp add: chunk_framed_def chunk_frames_def g limit_buffer_def framed_def Let_def case_prod_beta)
  ultimately show ?thesis by simp
qed

text \<open>
  Resynchronisation after a gap has no effect on the data.  Whatever the buffer holds and
  whatever the flags of the chunk are, the records and the rest are the same as those of a chunk
  without a gap: the buffered part of an interrupted frame is never discarded.
\<close>

theorem smb_gap_resync_has_no_effect:
  assumes "length (b @ ck_Data c) \<le> max_frame"
  shows "chunk_framed c b = chunk_framed (c\<lparr> ck_Midstream := False, ck_Gapped := False, ck_GapBefore := 0 \<rparr>) b"
  using chunk_framed_small [OF assms] chunk_framed_small [of b "c\<lparr> ck_Midstream := False, ck_Gapped := False, ck_GapBefore := 0 \<rparr>"] assms
  by simp

definition gap_chunk :: "bytes \<Rightarrow> chunk" where
  "gap_chunk d = \<lparr> ck_ConnectionID = [], ck_SrcIP = [], ck_DstIP = [], ck_SrcPort = 445, ck_DstPort = 0, ck_Timestamp = 0,
     ck_Data = d, ck_Midstream = False, ck_Gapped = True, ck_GapBefore = 100, ck_Overlap = False, ck_Protocol = ''smb'' \<rparr>"

text \<open>The wire form of a record, and the records whose frames fit the buffer with \<open>n\<close> bytes to spare.\<close>

definition smb_frame :: "bytes \<Rightarrow> bytes" where
  "smb_frame r = [0, of_nat (length r div 65536), of_nat (length r div 256), of_nat (length r)] @ r"

definition smb_record :: "nat \<Rightarrow> bytes \<Rightarrow> bool" where
  "smb_record n r \<longleftrightarrow> 4 \<le> length r \<and> 4 + length r + n \<le> max_frame \<and> (take 4 r = smb_magic 0xfe \<or> take 4 r = smb_magic 0xfd)"

theorem smb_gap_resync_has_no_effect_witness:
  "length (smb_frame (smb_magic 0xfe @ [1, 2]) @ ck_Data (gap_chunk [3])) \<le> max_frame \<and>
   chunk_framed (gap_chunk [3]) (smb_frame (smb_magic 0xfe @ [1, 2])) =
   chunk_framed (gap_chunk [3]\<lparr> ck_Midstream := False, ck_Gapped := False, ck_GapBefore := 0 \<rparr>) (smb_frame (smb_magic 0xfe @ [1, 2]))"
proof -
  have "length (smb_frame (smb_magic 0xfe @ [1, 2]) @ ck_Data (gap_chunk [3])) \<le> max_frame"
    by (simp add: smb_frame_def smb_magic_def gap_chunk_def max_frame_def)
  with smb_gap_resync_has_no_effect show ?thesis by blast
qed

lemma frame_length_frame:
  assumes "length r \<le> max_frame"
  shows "frame_length (smb_frame r @ ys) = length r"
proof -
  define n where "n = length r"
  have n: "n < 2 ^ 24" using assms by (simp add: n_def max_frame_def)
  have b: "unat (of_nat m :: u8) = m mod 256" for m by (simp add: unsigned_of_nat take_bit_eq_mod)
  have m: "n div 65536 mod 256 = n div 65536" using n by (intro mod_less) (simp add: less_mult_imp_div_less)
  have "n div 65536 = n div 256 div 256" by (simp add: div_mult2_eq [symmetric])
  then have "n div 65536 * 65536 + n div 256 mod 256 * 256 + n mod 256 = n"
    using div_mult_mod_eq [of n 256] div_mult_mod_eq [of "n div 256" 256] by linarith
  then show ?thesis by (simp add: frame_length_def smb_frame_def b n_def [symmetric] m)
qed

lemma frame_start_frame:
  assumes "smb_record n r"
  shows "frame_start (smb_frame r @ ys)" and "frame_length (smb_frame r @ ys) = length r"
proof -
  have "length r \<le> max_frame" using assms by (simp add: smb_record_def)
  note len = frame_length_frame [OF this]
  then show "frame_length (smb_frame r @ ys) = length r" .
  have "take 4 (drop 4 (smb_frame r @ ys)) = take 4 r" using assms by (simp add: smb_frame_def smb_record_def)
  with assms len show "frame_start (smb_frame r @ ys)"
    by (simp add: frame_start_def validSMBFramePrefix_def smb_record_def) (simp add: smb_frame_def)
qed

lemma length_smb_frame [simp]: "length (smb_frame r) = 4 + length r" by (simp add: smb_frame_def)

lemma framed_smb_frame: "smb_record n r \<Longrightarrow> framed (smb_frame r @ ys) = (r # fst (framed ys), snd (framed ys))"
proof -
  assume r: "smb_record n r"
  have "framed (smb_frame r @ ys) = (take (length r) (drop 4 (smb_frame r @ ys)) # fst (framed (drop (4 + length r) (smb_frame r @ ys))),
      snd (framed (drop (4 + length r) (smb_frame r @ ys))))"
    using framed_frame [OF frame_start_frame(1) [OF r, of ys]] frame_start_frame(2) [OF r, of ys] by simp
  moreover have "take (length r) (drop 4 (smb_frame r @ ys)) = r" by (simp add: smb_frame_def)
  moreover have "drop (length (smb_frame r)) (smb_frame r @ ys) = ys" by (simp del: length_smb_frame)
  ultimately show ?thesis by simp
qed

lemma framed_frames: "\<forall>r \<in> set rs. smb_record n r \<Longrightarrow> framed (concat (map smb_frame rs)) = (rs, [])"
  by (induction rs) (auto simp: framed_short framed_smb_frame [of n])

lemma framed_frame_part:
  assumes "smb_record n r" and "k < 4 + length r"
  shows "framed (take k (smb_frame r)) = ([], take k (smb_frame r))"
proof (cases "k < 8")
  case False
  then have "8 \<le> length (take k (smb_frame r))" using assms(2) by simp
  from frame_start_append [OF this, of "drop k (smb_frame r)"] frame_length_append [OF this, of "drop k (smb_frame r)"]
    frame_start_frame [OF assms(1), of "[]"]
  have "frame_start (take k (smb_frame r))" "frame_length (take k (smb_frame r)) = length r" by simp_all
  with framed_partial [of "take k (smb_frame r)"] assms(2) show ?thesis by simp
qed (simp add: framed_short)

text \<open>While frames arrive the buffer keeps room for a piece of \<open>n\<close> bytes.\<close>

lemma framed_rest_room:
  assumes "\<forall>r \<in> set rs. smb_record n r" and "n \<le> max_frame" and "concat (map smb_frame rs) = xs @ ys"
  shows "length (snd (framed xs)) + n \<le> max_frame"
  using assms(1,3)
proof (induction rs arbitrary: xs)
  case (Cons r rs)
  have r: "smb_record n r" using Cons.prems by simp
  show ?case
  proof (cases "4 + length r \<le> length xs")
    case True
    define zs where "zs = drop (4 + length r) xs"
    have "smb_frame r @ concat (map smb_frame rs) = xs @ ys" using Cons.prems(2) by simp
    with True have xs: "xs = smb_frame r @ zs" "concat (map smb_frame rs) = zs @ ys"
      by (auto simp: zs_def append_eq_append_conv_if)
    from Cons.IH [OF _ xs(2)] Cons.prems(1) show ?thesis by (simp add: xs framed_smb_frame [OF r])
  next
    case False
    have "smb_frame r @ concat (map smb_frame rs) = xs @ ys" using Cons.prems(2) by simp
    with False have "xs = take (length xs) (smb_frame r)" by (auto simp: append_eq_append_conv_if)
    with framed_frame_part [OF r, of "length xs"] False r show ?thesis by (simp add: smb_record_def)
  qed
qed (use assms(2) in \<open>simp add: framed_short\<close>)

primrec smb_stream :: "chunk list \<Rightarrow> bytes \<Rightarrow> bytes list \<times> bytes" where
  "smb_stream [] b = ([], b)"
| "smb_stream (c # cs) b =
     (case chunk_framed c b of (rs, rest) \<Rightarrow> (case smb_stream cs rest of (rs', rest') \<Rightarrow> (rs @ rs', rest')))"

lemma smb_stream_feed:
  assumes "\<forall>r \<in> set rs. smb_record n r" and "\<forall>c \<in> set cs. length (ck_Data c) \<le> n" and "n \<le> max_frame"
    and "pre @ concat (map ck_Data cs) = concat (map smb_frame rs)"
  shows "smb_stream cs (snd (framed pre)) = feed framed (map ck_Data cs) (snd (framed pre))"
  using assms(2,4)
proof (induction cs arbitrary: pre)
  case (Cons c cs)
  let ?b = "snd (framed pre)"
  have "length ?b + n \<le> max_frame" using framed_rest_room [OF assms(1,3)] Cons.prems(2) by metis
  then have c: "chunk_framed c ?b = framed (?b @ ck_Data c)" using Cons.prems(1) by (intro chunk_framed_small) auto
  have rest: "snd (framed (pre @ ck_Data c)) = snd (framed (?b @ ck_Data c))" by (simp add: framed_append [of pre])
  have "smb_stream cs (snd (framed (pre @ ck_Data c))) = feed framed (map ck_Data cs) (snd (framed (pre @ ck_Data c)))"
    by (rule Cons.IH) (use Cons.prems in simp_all)
  with c rest show ?case by (simp add: case_prod_beta)
qed simp

text \<open>
  A byte stream of SMB frames is cut into exactly the records that were framed, in order and
  with nothing left over, however TCP divides it into chunks and whatever flags these carry, as
  long as each frame and the chunk that ends it fit the buffer of 8 MiB together.
\<close>

theorem smb_stream_delivers_records:
  assumes "\<forall>r \<in> set rs. smb_record n r" and "\<forall>c \<in> set cs. length (ck_Data c) \<le> n" and "n \<le> max_frame"
    and "concat (map ck_Data cs) = concat (map smb_frame rs)"
  shows "smb_stream cs [] = (rs, [])"
  using smb_stream_feed [OF assms(1-3), of "[]"] smb.feed_chunks [of "map ck_Data cs"] framed_frames [OF assms(1)] assms(4)
  by (simp add: framed_short)

theorem smb_stream_delivers_records_witness:
  "smb_stream [gap_chunk [0, 0], gap_chunk [0, 6, 0xfe, 0x53, 0x4d], gap_chunk [0x42, 1, 2]] [] = ([smb_magic 0xfe @ [1, 2]], [])"
  by (rule smb_stream_delivers_records [of _ 5])
    (simp_all add: smb_record_def smb_magic_def gap_chunk_def smb_frame_def max_frame_def)

end
