(* ===== verification/Smb_Engine.thy ===== *)
theory Smb_Engine
  imports Smb_Stream
begin

text \<open>
  internal/smb/engine.go and model.go, internal/dcerpc/engine.go: SMB2 headers, the correlation of
  requests and responses, the names of shares and files, and the DCE/RPC fragments that are
  written to named pipes.  Text on the wire is UTF-16; a name becomes the bytes of its UTF-8
  form.  One goroutine calls the parser, so an operation runs to its end before the next one.
\<close>

section \<open>State\<close>

record smb_obs =
  so_Timestamp :: time
  so_ClientIP :: string
  so_ServerIP :: string
  so_ClientPort :: u16
  so_ServerPort :: u16
  so_Dialect :: string
  so_Command :: string
  so_MessageID :: u64
  so_SessionID :: u64
  so_TreeID :: u32
  so_FileIDPersistent :: u64
  so_FileIDVolatile :: u64
  so_RequestCommand :: string
  so_RequestMatched :: bool
  so_StreamGapped :: bool
  so_StreamResynced :: bool
  so_ShareName :: string
  so_FileName :: string
  so_NamedPipe :: string
  so_Direction :: string
  so_Bytes :: u64
  so_Status :: u32
  so_IsResponse :: bool
  so_IsAdminShare :: bool
  so_IsExecutable :: bool
  so_IsScript :: bool
  so_IsEncrypted :: bool

definition zero_smb_obs :: smb_obs where
  "zero_smb_obs = \<lparr> so_Timestamp = 0, so_ClientIP = [], so_ServerIP = [], so_ClientPort = 0, so_ServerPort = 0,
     so_Dialect = [], so_Command = [], so_MessageID = 0, so_SessionID = 0, so_TreeID = 0, so_FileIDPersistent = 0,
     so_FileIDVolatile = 0, so_RequestCommand = [], so_RequestMatched = False, so_StreamGapped = False,
     so_StreamResynced = False, so_ShareName = [], so_FileName = [], so_NamedPipe = [], so_Direction = [], so_Bytes = 0,
     so_Status = 0, so_IsResponse = False, so_IsAdminShare = False, so_IsExecutable = False, so_IsScript = False,
     so_IsEncrypted = False \<rparr>"

definition maxObservations :: nat where "maxObservations = 5000"

record smb_engine =
  sm_observations :: "smb_obs list"
  sm_trees :: "(string, string) gomap"
  sm_files :: "(string, string) gomap"
  sm_requests :: "(string, smb_obs) gomap"
  sm_useStreams :: bool
  sm_streamBuffers :: "(string, bytes) gomap"

definition NewSmb :: "bool \<Rightarrow> smb_engine" where
  "NewSmb streamMode = \<lparr> sm_observations = [], sm_trees = [], sm_files = [], sm_requests = [], sm_useStreams = streamMode,
     sm_streamBuffers = [] \<rparr>"

definition smb_reset :: "smb_engine \<Rightarrow> smb_engine" where
  "smb_reset e = e\<lparr> sm_observations := [], sm_trees := [], sm_files := [], sm_requests := [], sm_streamBuffers := [] \<rparr>"

record dcerpc_fragment =
  df_Timestamp :: time
  df_ConnectionID :: string
  df_ClientIP :: string
  df_ServerIP :: string
  df_NamedPipe :: string
  df_Data :: bytes

section \<open>Keys and names\<close>

function utoa_loop :: "u64 \<Rightarrow> string \<Rightarrow> string" where
  "utoa_loop v b = (if v = 0 then b else utoa_loop (v div 10) (char_of (48 + unat (v mod 10)) # b))"
  by pat_completeness auto
termination
  by (relation "measure (\<lambda>(v, b). unat v)") (auto simp: unat_div unat_gt_0)

declare utoa_loop.simps [simp del]

definition utoa :: "u64 \<Rightarrow> string" where
  "utoa v = (if v = 0 then ''0'' else utoa_loop v [])"

definition smb_key :: "u64 \<Rightarrow> u64 \<Rightarrow> string" where
  "smb_key a b = join_with ''|'' [utoa a, utoa b]"

definition requestKey :: "string \<Rightarrow> string \<Rightarrow> u64 \<Rightarrow> u64 \<Rightarrow> string" where
  "requestKey client server session message = client @ ''|'' @ server @ ''|'' @ smb_key session message"

definition smbCommandNames :: "(u16, string) gomap" where
  "smbCommandNames = [(0, ''negotiate''), (1, ''session_setup''), (3, ''tree_connect''), (4, ''tree_disconnect''), (5, ''create''),
     (6, ''close''), (8, ''read''), (9, ''write''), (11, ''ioctl''), (13, ''echo''), (14, ''query_directory''), (16, ''query_info''),
     (17, ''set_info'')]"

definition commandName :: "u16 \<Rightarrow> string" where
  "commandName c = (case mget smbCommandNames c of Some s \<Rightarrow> s | None \<Rightarrow> ''command_'' @ utoa (ucast c))"

text \<open>\<open>utf16.Decode\<close>, and the conversion of its runes to a string.\<close>

fun utf16_decode :: "u16 list \<Rightarrow> nat list" where
  "utf16_decode [] = []"
| "utf16_decode [r] = [if unat r < 0xD800 \<or> 0xE000 \<le> unat r then unat r else 0xFFFD]"
| "utf16_decode (r # s # us) =
     (if unat r < 0xD800 \<or> 0xE000 \<le> unat r then unat r # utf16_decode (s # us)
      else if unat r < 0xDC00 \<and> 0xDC00 \<le> unat s \<and> unat s < 0xE000
      then ((unat r - 0xD800) * 1024 + (unat s - 0xDC00) + 0x10000) # utf16_decode us
      else 0xFFFD # utf16_decode (s # us))"

definition utf8_rune :: "nat \<Rightarrow> string" where
  "utf8_rune n =
     (if n < 0x80 then [char_of n]
      else if n < 0x800 then [char_of (0xC0 + n div 64), char_of (0x80 + n mod 64)]
      else if n < 0x10000 then [char_of (0xE0 + n div 4096), char_of (0x80 + n div 64 mod 64), char_of (0x80 + n mod 64)]
      else [char_of (0xF0 + n div 262144), char_of (0x80 + n div 4096 mod 64), char_of (0x80 + n div 64 mod 64), char_of (0x80 + n mod 64)])"

text \<open>\<open>strings.Trim(s, "\x00")\<close>.\<close>

definition trim_nul :: "string \<Rightarrow> string" where
  "trim_nul s = rev (dropWhile (\<lambda>c. c = CHR 0x00) (rev (dropWhile (\<lambda>c. c = CHR 0x00) s)))"

fun read_u16s :: "bytes \<Rightarrow> nat \<Rightarrow> nat \<Rightarrow> u16 list go" where
  "read_u16s body off 0 = go_ret []"
| "read_u16s body off (Suc n) = do { u \<leftarrow> rd_le16 body off; us \<leftarrow> read_u16s body (off + 2) n; go_ret (u # us) }"

definition decodeUTF16At :: "bytes \<Rightarrow> int \<Rightarrow> int \<Rightarrow> string go" where
  "decodeUTF16At body off ln =
     (if off < 0 \<or> ln \<le> 0 \<or> off + ln > int (length body) \<or> ln mod 2 \<noteq> 0 then go_ret []
      else do {
        u \<leftarrow> read_u16s body (nat off) (nat ln div 2);
        go_ret (trim_nul (map (\<lambda>c. if c = CHR ''/'' then CHR 0x5C else c) (concat (map utf8_rune (utf16_decode u)))))
      })"

text \<open>\<open>filepath.Ext\<close>.\<close>

definition file_ext :: "string \<Rightarrow> string" where
  "file_ext path =
     (let tail = takeWhile (\<lambda>c. c \<noteq> CHR ''/'' \<and> c \<noteq> CHR ''.'') (rev path)
      in case drop (length tail) (rev path) of
           c # _ \<Rightarrow> if c = CHR ''.'' then c # rev tail else []
         | [] \<Rightarrow> [])"

definition classify :: "smb_obs \<Rightarrow> smb_obs" where
  "classify ob =
     (let s = to_upper (trim_space (so_ShareName ob));
          ext = to_lower (file_ext (to_lower (so_FileName ob)));
          ob1 = ob\<lparr> so_IsAdminShare := has_suffix s (CHR 0x5C # ''ADMIN$'') \<or> has_suffix s (CHR 0x5C # ''C$'') \<or>
                    has_suffix s (CHR 0x5C # ''IPC$'') \<or> s = ''ADMIN$'' \<or> s = ''C$'' \<or> s = ''IPC$'' \<rparr>;
          ob2 = (if ext \<in> {''.exe'', ''.dll'', ''.sys'', ''.msi'', ''.scr'', ''.com''} then ob1\<lparr> so_IsExecutable := True \<rparr>
                 else if ext \<in> {''.ps1'', ''.bat'', ''.cmd'', ''.vbs'', ''.js'', ''.hta'', ''.wsf''} then ob1\<lparr> so_IsScript := True \<rparr>
                 else ob1)
      in if go_contains (to_lower (so_ShareName ob2)) ''ipc$'' \<and> so_FileName ob2 \<noteq> []
         then ob2\<lparr> so_NamedPipe := so_FileName ob2 \<rparr> else ob2)"

section \<open>What the body of a message says\<close>

definition tree_key :: "smb_obs \<Rightarrow> string" where
  "tree_key ob = smb_key (so_SessionID ob) (ucast (so_TreeID ob))"

text \<open>
  The switch of \<open>enrich\<close> over the command: the observation, the key of the file it is about
  (empty when there is none), and the engine.
\<close>

definition enrich_tree_connect :: "bytes \<Rightarrow> smb_obs \<Rightarrow> smb_engine \<Rightarrow> (smb_obs \<times> smb_engine) go" where
  "enrich_tree_connect b ob e =
     (if \<not> so_IsResponse ob \<and> length b \<ge> 8
      then do {
        off \<leftarrow> rd_le16 b 4;
        ln \<leftarrow> rd_le16 b 6;
        share \<leftarrow> decodeUTF16At b (int (unat off) - 64) (int (unat ln));
        go_ret (ob\<lparr> so_ShareName := share \<rparr>,
                if share \<noteq> [] then e\<lparr> sm_trees := mput (tree_key ob) share (sm_trees e) \<rparr> else e)
      }
      else go_ret (ob, e))"

definition with_file :: "u64 \<Rightarrow> u64 \<Rightarrow> smb_obs \<Rightarrow> smb_obs \<times> string" where
  "with_file p v ob = (ob\<lparr> so_FileIDPersistent := p, so_FileIDVolatile := v \<rparr>, smb_key p v)"

definition enrich_create :: "bytes \<Rightarrow> smb_obs \<Rightarrow> (smb_obs \<times> string) go" where
  "enrich_create b ob =
     do {
       ob1 \<leftarrow> (if \<not> so_IsResponse ob \<and> length b \<ge> 48
               then do {
                 off \<leftarrow> rd_le16 b 44;
                 ln \<leftarrow> rd_le16 b 46;
                 name \<leftarrow> decodeUTF16At b (int (unat off) - 64) (int (unat ln));
                 go_ret (ob\<lparr> so_FileName := name \<rparr>)
               }
               else go_ret ob);
       if so_IsResponse ob1 \<and> length b \<ge> 80
       then do { p \<leftarrow> rd_le64 b 64; v \<leftarrow> rd_le64 b 72; go_ret (with_file p v ob1) }
       else go_ret (ob1, [])
     }"

text \<open>READ and WRITE: the same two branches.\<close>

definition enrich_transfer :: "bytes \<Rightarrow> smb_obs \<Rightarrow> (smb_obs \<times> string) go" where
  "enrich_transfer b ob =
     do {
       r \<leftarrow> (if \<not> so_IsResponse ob \<and> length b \<ge> 32
             then do {
               n \<leftarrow> rd_le32 b 4;
               p \<leftarrow> rd_le64 b 16;
               v \<leftarrow> rd_le64 b 24;
               go_ret (with_file p v (ob\<lparr> so_Bytes := ucast n \<rparr>))
             }
             else go_ret (ob, []));
       if so_IsResponse (fst r) \<and> length b \<ge> 8
       then do { n \<leftarrow> rd_le32 b 4; go_ret ((fst r)\<lparr> so_Bytes := ucast n \<rparr>, snd r) }
       else go_ret r
     }"

definition enrich_close :: "bytes \<Rightarrow> smb_obs \<Rightarrow> (smb_obs \<times> string) go" where
  "enrich_close b ob =
     (if \<not> so_IsResponse ob \<and> length b \<ge> 24
      then do { p \<leftarrow> rd_le64 b 8; v \<leftarrow> rd_le64 b 16; go_ret (with_file p v ob) }
      else go_ret (ob, []))"

definition enrich_command :: "u16 \<Rightarrow> bytes \<Rightarrow> smb_obs \<Rightarrow> smb_engine \<Rightarrow> (smb_obs \<times> string \<times> smb_engine) go" where
  "enrich_command cmd b ob e =
     (if cmd = 3 then do { (ob1, e1) \<leftarrow> enrich_tree_connect b ob e; go_ret (ob1, [], e1) }
      else if cmd = 5 then do { (ob1, k) \<leftarrow> enrich_create b ob; go_ret (ob1, k, e) }
      else if cmd = 8 \<or> cmd = 9 then do { (ob1, k) \<leftarrow> enrich_transfer b ob; go_ret (ob1, k, e) }
      else if cmd = 6 then do { (ob1, k) \<leftarrow> enrich_close b ob; go_ret (ob1, k, e) }
      else go_ret (ob, [], e))"

definition map_text :: "(string, string) gomap \<Rightarrow> string \<Rightarrow> string" where
  "map_text m k = (case mget m k of Some s \<Rightarrow> s | None \<Rightarrow> [])"

text \<open>The names known from earlier messages, and what a CREATE teaches.\<close>

definition known_names :: "string \<Rightarrow> smb_obs \<Rightarrow> smb_engine \<Rightarrow> smb_obs" where
  "known_names fileKey ob e =
     (let ob1 = (if so_ShareName ob = [] then ob\<lparr> so_ShareName := map_text (sm_trees e) (tree_key ob) \<rparr> else ob)
      in if so_FileName ob1 = [] \<and> fileKey \<noteq> [] then ob1\<lparr> so_FileName := map_text (sm_files e) fileKey \<rparr> else ob1)"

definition learn_create :: "u16 \<Rightarrow> string \<Rightarrow> smb_obs \<Rightarrow> smb_engine \<Rightarrow> smb_obs \<times> smb_engine" where
  "learn_create cmd fileKey ob e =
     (let pending = smb_key (so_SessionID ob) (so_MessageID ob);
          e1 = (if cmd = 5 \<and> \<not> so_IsResponse ob \<and> so_FileName ob \<noteq> []
                then e\<lparr> sm_files := mput pending (so_FileName ob) (sm_files e) \<rparr> else e)
      in if cmd = 5 \<and> so_IsResponse ob \<and> fileKey \<noteq> [] \<and> map_text (sm_files e1) pending \<noteq> []
         then (ob\<lparr> so_FileName := map_text (sm_files e1) pending \<rparr>,
               e1\<lparr> sm_files := mput fileKey (map_text (sm_files e1) pending) (sm_files e1) \<rparr>)
         else (ob, e1))"

definition enrich :: "u16 \<Rightarrow> bytes \<Rightarrow> smb_obs \<Rightarrow> smb_engine \<Rightarrow> (smb_obs \<times> smb_engine) go" where
  "enrich cmd b ob e =
     do {
       (ob1, fileKey, e1) \<leftarrow> enrich_command cmd b ob e;
       go_ret (learn_create cmd fileKey (known_names fileKey ob1 e1) e1)
     }"

definition handoffDCERPC :: "packet \<Rightarrow> smb_obs \<Rightarrow> u16 \<Rightarrow> bytes \<Rightarrow> dcerpc_fragment list go" where
  "handoffDCERPC p ob cmd body =
     (if cmd \<noteq> 9 \<or> so_IsResponse ob \<or> so_NamedPipe ob = [] \<or> length body < 32 then go_ret []
      else do {
        off \<leftarrow> map_option (\<lambda>w. int (unat w) - 64) (rd_le16 body 2);
        ln \<leftarrow> map_option (\<lambda>w. int (unat w)) (rd_le32 body 4);
        if off < 0 \<or> ln \<le> 0 \<or> off + ln > int (length body) then go_ret []
        else do {
          data \<leftarrow> go_slice body (nat off) (nat (off + ln));
          if length data < 16 then go_ret []
          else do {
            major \<leftarrow> go_idx data 0;
            minor \<leftarrow> go_idx data 1;
            if major \<noteq> 5 \<or> minor \<noteq> 0 then go_ret []
            else go_ret [\<lparr> df_Timestamp = so_Timestamp ob,
              df_ConnectionID = pk_SrcIP p @ '':'' @ utoa (ucast (pk_SrcPort p)) @ ''-'' @ pk_DstIP p @ '':'' @ utoa (ucast (pk_DstPort p)),
              df_ClientIP = so_ClientIP ob, df_ServerIP = so_ServerIP ob, df_NamedPipe = so_NamedPipe ob, df_Data = data \<rparr>]
          }
        }
      })"

section \<open>Messages and records\<close>

text \<open>The direction of a packet and the observation of its header.\<close>

definition smb_endpoints :: "packet \<Rightarrow> smb_obs" where
  "smb_endpoints p =
     (if pk_SrcPort p = 445
      then zero_smb_obs\<lparr> so_Timestamp := pk_Timestamp p, so_ClientIP := pk_DstIP p, so_ServerIP := pk_SrcIP p,
             so_ClientPort := pk_DstPort p, so_ServerPort := pk_SrcPort p, so_Direction := ''server_to_client'' \<rparr>
      else zero_smb_obs\<lparr> so_Timestamp := pk_Timestamp p, so_ClientIP := pk_SrcIP p, so_ServerIP := pk_DstIP p,
             so_ClientPort := pk_SrcPort p, so_ServerPort := pk_DstPort p, so_Direction := ''client_to_server'' \<rparr>)"

record smb_header =
  sh_cmd :: u16
  sh_next :: nat
  sh_isResp :: bool
  sh_status :: u32
  sh_message :: u64
  sh_tree :: u32
  sh_session :: u64

definition smb_header_of :: "bytes \<Rightarrow> smb_header go" where
  "smb_header_of h =
     do {
       cmd \<leftarrow> rd_le16 h 12;
       flags \<leftarrow> rd_le32 h 16;
       next \<leftarrow> rd_le32 h 20;
       mid \<leftarrow> rd_le64 h 24;
       tree \<leftarrow> rd_le32 h 36;
       session \<leftarrow> rd_le64 h 40;
       status \<leftarrow> (if flags AND 1 \<noteq> 0 then rd_le32 h 8 else go_ret 0);
       go_ret \<lparr> sh_cmd = cmd, sh_next = unat next, sh_isResp = (flags AND 1 \<noteq> 0), sh_status = status, sh_message = mid,
                sh_tree = tree, sh_session = session \<rparr>
     }"

definition header_obs :: "packet \<Rightarrow> smb_header \<Rightarrow> smb_obs" where
  "header_obs p h = (smb_endpoints p)\<lparr> so_Command := commandName (sh_cmd h), so_MessageID := sh_message h, so_TreeID := sh_tree h,
     so_SessionID := sh_session h, so_IsResponse := sh_isResp h, so_Status := sh_status h \<rparr>"

definition rkey_of :: "smb_obs \<Rightarrow> string" where
  "rkey_of ob = requestKey (so_ClientIP ob) (so_ServerIP ob) (so_SessionID ob) (so_MessageID ob)"

text \<open>What a response takes over from its request; an absent request is the zero observation.\<close>

definition pending_request :: "smb_obs \<Rightarrow> smb_engine \<Rightarrow> smb_obs" where
  "pending_request ob e =
     (if so_IsResponse ob then (case mget (sm_requests e) (rkey_of ob) of Some r \<Rightarrow> r | None \<Rightarrow> zero_smb_obs) else zero_smb_obs)"

definition take_over :: "smb_obs \<Rightarrow> smb_obs \<Rightarrow> smb_obs" where
  "take_over req ob =
     (if so_Command req \<noteq> []
      then ob\<lparr> so_RequestMatched := True, so_RequestCommand := so_Command req, so_ShareName := so_ShareName req,
               so_FileName := so_FileName req, so_NamedPipe := so_NamedPipe req \<rparr>
      else ob)"

text \<open>After \<open>enrich\<close>: a request is stored, a response removes its request and confirms names.\<close>

definition correlate :: "u16 \<Rightarrow> smb_obs \<Rightarrow> smb_obs \<Rightarrow> smb_engine \<Rightarrow> smb_obs \<times> smb_engine" where
  "correlate cmd req ob e =
     (if \<not> so_IsResponse ob then (ob, e\<lparr> sm_requests := mput (rkey_of ob) ob (sm_requests e) \<rparr>)
      else if so_Command req \<noteq> [] then
        let e1 = e\<lparr> sm_requests := mdel (rkey_of ob) (sm_requests e) \<rparr>;
            (ob2, e2) = (if cmd = 3 \<and> so_Status ob = 0 \<and> so_ShareName req \<noteq> []
                         then (ob\<lparr> so_ShareName := so_ShareName req \<rparr>,
                               e1\<lparr> sm_trees := mput (tree_key ob) (so_ShareName req) (sm_trees e1) \<rparr>)
                         else (ob, e1))
        in if cmd = 5 \<and> so_Status ob2 = 0 \<and> (so_FileIDPersistent ob2 \<noteq> 0 \<or> so_FileIDVolatile ob2 \<noteq> 0) \<and> so_FileName req \<noteq> []
           then (ob2\<lparr> so_FileName := so_FileName req \<rparr>,
                 e2\<lparr> sm_files := mput (smb_key (so_FileIDPersistent ob2) (so_FileIDVolatile ob2)) (so_FileName req) (sm_files e2) \<rparr>)
           else (ob2, e2)
      else (ob, e))"

text \<open>One round of the loop of \<open>parseRecord\<close>; \<open>h\<close> is the record from the header on.\<close>

definition parse_message ::
  "packet \<Rightarrow> bytes \<Rightarrow> smb_engine \<Rightarrow> (nat \<times> smb_obs \<times> dcerpc_fragment list \<times> smb_engine) go" where
  "parse_message p h e =
     do {
       hd \<leftarrow> smb_header_of h;
       body \<leftarrow> go_slice h 64 (if sh_next hd > 0 \<and> sh_next hd < length h then sh_next hd else length h);
       let ob = header_obs p hd;
       let req = pending_request ob e;
       (ob1, e1) \<leftarrow> enrich (sh_cmd hd) body (take_over req ob) e;
       let (ob2, e2) = correlate (sh_cmd hd) req ob1 e1;
       let ob3 = classify ob2;
       frs \<leftarrow> handoffDCERPC p ob3 (sh_cmd hd) body;
       go_ret (sh_next hd, ob3, frs, e2)
     }"

function record_loop ::
  "packet \<Rightarrow> bytes \<Rightarrow> nat \<Rightarrow> smb_engine \<Rightarrow> (smb_obs list \<times> dcerpc_fragment list \<times> smb_engine) go" where
  "record_loop p data off e =
     (if off + 64 \<le> length data \<and> take 4 (drop off data) = smb_magic 0xfe
      then case parse_message p (drop off data) e of
             None \<Rightarrow> go_panic
           | Some (next, ob, frs, e1) \<Rightarrow>
               if next = 0 \<or> off + next \<ge> length data then go_ret ([ob], frs, e1)
               else (case record_loop p data (off + next) e1 of
                       None \<Rightarrow> go_panic
                     | Some (obs, frs2, e2) \<Rightarrow> go_ret (ob # obs, frs @ frs2, e2))
      else go_ret ([], [], e))"
  by pat_completeness auto
termination
  by (relation "measure (\<lambda>(p, data, off, e). length data - off)") auto

declare record_loop.simps [simp del]

definition parseRecord :: "packet \<Rightarrow> bytes \<Rightarrow> smb_engine \<Rightarrow> (smb_obs list \<times> dcerpc_fragment list \<times> smb_engine) go" where
  "parseRecord p data e =
     (if length data < 4 then go_ret ([], [], e)
      else if take 4 data = smb_magic 0xfd
      then go_ret ([(smb_endpoints p)\<lparr> so_Command := ''encrypted_transform'', so_Bytes := of_nat (length data), so_IsEncrypted := True \<rparr>], [], e)
      else if take 4 data \<noteq> smb_magic 0xfe \<or> length data < 64 then go_ret ([], [], e)
      else record_loop p data 0 e)"

primrec parse_records ::
  "packet \<Rightarrow> bytes list \<Rightarrow> smb_engine \<Rightarrow> (smb_obs list \<times> dcerpc_fragment list \<times> smb_engine) go" where
  "parse_records p [] e = go_ret ([], [], e)"
| "parse_records p (r # rs) e =
     do {
       (obs, frs, e1) \<leftarrow> parseRecord p r e;
       (obs2, frs2, e2) \<leftarrow> parse_records p rs e1;
       go_ret (obs @ obs2, frs @ frs2, e2)
     }"

text \<open>The two sources of records: single packets, or the chunks of reassembled streams.\<close>

function packet_records :: "bytes \<Rightarrow> bytes list" where
  "packet_records data =
     (if length data \<ge> 4
      then let n = frame_length data
           in if data ! 0 = 0 \<and> n \<le> length data - 4
              then (if n = 0 then [] else take n (drop 4 data) # packet_records (drop (4 + n) data))
              else [data]
      else [])"
  by pat_completeness auto
termination
  by (relation "measure length") auto

declare packet_records.simps [simp del]

definition parsePacket :: "packet \<Rightarrow> smb_engine \<Rightarrow> (smb_obs list \<times> dcerpc_fragment list \<times> smb_engine) go" where
  "parsePacket p e = parse_records p (packet_records (pk_AppPayload p)) e"

definition stream_key :: "chunk \<Rightarrow> string" where
  "stream_key c = ck_ConnectionID c @ ''|'' @ ck_SrcIP c @ ''|'' @ utoa (ucast (ck_SrcPort c))"

definition chunk_packet :: "chunk \<Rightarrow> packet" where
  "chunk_packet c = zero_packet\<lparr> pk_SrcIP := ck_SrcIP c, pk_DstIP := ck_DstIP c, pk_SrcPort := ck_SrcPort c,
     pk_DstPort := ck_DstPort c, pk_L4Protocol := ''TCP'', pk_Timestamp := ck_Timestamp c \<rparr>"

definition parseStreamChunk :: "chunk \<Rightarrow> smb_engine \<Rightarrow> (smb_obs list \<times> dcerpc_fragment list \<times> smb_engine) go" where
  "parseStreamChunk c e =
     (let b = (case mget (sm_streamBuffers e) (stream_key c) of Some x \<Rightarrow> x | None \<Rightarrow> []);
          (records, rest, resynced) = chunk_frames c b;
          e1 = e\<lparr> sm_streamBuffers := mput (stream_key c) rest (sm_streamBuffers e) \<rparr>
      in do {
        (obs, frs, e2) \<leftarrow> parse_records (chunk_packet c) records e1;
        go_ret (map (\<lambda>ob. ob\<lparr> so_StreamGapped := ck_Gapped c \<or> ck_GapBefore c > 0, so_StreamResynced := resynced \<rparr>) obs, frs, e2)
      })"

definition smb_publish :: "smb_obs list \<Rightarrow> smb_engine \<Rightarrow> smb_engine" where
  "smb_publish rows e =
     e\<lparr> sm_observations := foldl (\<lambda>xs ob. let ys = xs @ [ob] in if length ys > maxObservations then drop (length ys - maxObservations) ys else ys)
          (sm_observations e) rows \<rparr>"

definition smb_stream_event :: "chunk \<Rightarrow> smb_engine \<Rightarrow> (smb_obs list \<times> dcerpc_fragment list \<times> smb_engine) go" where
  "smb_stream_event c e =
     do {
       other \<leftarrow> go_and (go_ret (ck_Protocol c \<noteq> ''smb'' \<and> ck_SrcPort c \<noteq> 445 \<and> ck_DstPort c \<noteq> 445))
                 (map_option (\<lambda>n. n \<noteq> ''smb'') (Detect (ck_Data c)));
       if other then go_ret ([], [], e)
       else do { (obs, frs, e1) \<leftarrow> parseStreamChunk c e; go_ret (obs, frs, smb_publish obs e1) } }"

definition smb_packet_event :: "packet \<Rightarrow> smb_engine \<Rightarrow> (smb_obs list \<times> dcerpc_fragment list \<times> smb_engine) go" where
  "smb_packet_event p e =
     (if pk_L4Protocol p \<noteq> ''TCP'' \<or> (pk_SrcPort p \<noteq> 445 \<and> pk_DstPort p \<noteq> 445) \<or> length (pk_AppPayload p) < 4 then go_ret ([], [], e)
      else do { (obs, frs, e1) \<leftarrow> parsePacket p e; go_ret (obs, frs, smb_publish obs e1) })"

section \<open>DCE/RPC\<close>

record dcerpc_obs =
  dr_Timestamp :: time
  dr_ConnectionID :: string
  dr_ClientIP :: string
  dr_ServerIP :: string
  dr_NamedPipe :: string
  dr_PacketType :: u8
  dr_CallID :: u32
  dr_Opnum :: u16
  dr_FragmentLength :: u16
  dr_FirstFragment :: bool
  dr_LastFragment :: bool
  dr_InterfaceHint :: string

definition pipeHint :: "string \<Rightarrow> string" where
  "pipeHint p =
     (let s = to_lower p in
      if go_contains s ''svcctl'' then ''service_control_manager''
      else if go_contains s ''samr'' then ''security_account_manager''
      else if go_contains s ''lsarpc'' then ''local_security_authority''
      else if go_contains s ''winreg'' then ''remote_registry''
      else if go_contains s ''atsvc'' then ''task_scheduler''
      else [])"

text \<open>The outer option is the panic, the inner one the second result of \<open>Parse\<close>.\<close>

definition dcerpc_parse :: "dcerpc_fragment \<Rightarrow> dcerpc_obs option go" where
  "dcerpc_parse f =
     (let d = df_Data f in
      if length d < 16 then go_ret None
      else do {
        major \<leftarrow> go_idx d 0;
        minor \<leftarrow> go_idx d 1;
        if major \<noteq> 5 \<or> minor \<noteq> 0 then go_ret None
        else do {
          frag \<leftarrow> rd_le16 d 8;
          if frag < 16 then go_ret None
          else do {
            ptype \<leftarrow> go_idx d 2;
            flags \<leftarrow> go_idx d 3;
            call \<leftarrow> rd_le32 d 12;
            opnum \<leftarrow> (if ptype = 0 \<and> length d \<ge> 24 then rd_le16 d 22 else go_ret 0);
            go_ret (Some \<lparr> dr_Timestamp = df_Timestamp f, dr_ConnectionID = df_ConnectionID f, dr_ClientIP = df_ClientIP f,
              dr_ServerIP = df_ServerIP f, dr_NamedPipe = df_NamedPipe f, dr_PacketType = ptype, dr_CallID = call, dr_Opnum = opnum,
              dr_FragmentLength = frag, dr_FirstFragment = (flags AND 1 \<noteq> 0), dr_LastFragment = (flags AND 2 \<noteq> 0),
              dr_InterfaceHint = pipeHint (df_NamedPipe f) \<rparr>)
          }
        }
      })"

definition dcerpc_event :: "dcerpc_fragment \<Rightarrow> dcerpc_obs list \<Rightarrow> dcerpc_obs list go" where
  "dcerpc_event f obs =
     do {
       r \<leftarrow> dcerpc_parse f;
       case r of
         None \<Rightarrow> go_ret obs
       | Some ob \<Rightarrow> let ys = obs @ [ob] in go_ret (if length ys > 5000 then drop (length ys - 5000) ys else ys)
     }"

end
