(* ===== verification/Smb_Tracking.thy ===== *)
theory Smb_Tracking
  imports Smb_Engine
begin

text \<open>
  The properties of the SMB engine: which records make the parser panic, the keys, the names
  that writes to files and pipes are attributed to, and which of its tables are bounded.
\<close>

section \<open>Keys\<close>

lemma digit_char: "d < 10 \<Longrightarrow> char_of (48 + d :: nat) = ''0123456789abcdef'' ! d"
proof -
  have "\<forall>d \<in> set [0..<10]. char_of (48 + d :: nat) = ''0123456789abcdef'' ! d" by code_simp
  then show "d < 10 \<Longrightarrow> ?thesis" by simp
qed

lemma utoa_loop_dec: "utoa_loop v b = (if v = 0 then b else dec (unat v) @ b)"
proof (induction v b rule: utoa_loop.induct)
  case (1 v b)
  show ?case
  proof (cases "v = 0")
    case True
    then show ?thesis by (subst utoa_loop.simps) simp
  next
    case False
    let ?d = "''0123456789abcdef'' ! (unat v mod 10)"
    have step: "utoa_loop v b = utoa_loop (v div 10) (char_of (48 + unat (v mod 10)) # b)"
      using False by (simp add: utoa_loop.simps [of v])
    have c: "char_of (48 + unat (v mod 10)) = ?d"
      using digit_char [of "unat v mod 10"] by (simp add: unat_mod)
    show ?thesis
    proof (cases "v div 10 = 0")
      case True
      then have "unat v < 10" using unat_div [of v 10] by simp
      with 1 [OF False] step c True False show ?thesis by (simp add: dec_def digits_single)
    next
      case ge: False
      have "unat (v div 10) = unat v div 10" by (simp add: unat_div)
      with ge have "\<not> unat v < 10" by (auto simp: word_unat_eq_iff)
      with 1 [OF False] step c ge False show ?thesis by (simp add: dec_def unat_div digits_snoc)
    qed
  qed
qed

lemma utoa_dec: "utoa v = dec (unat v)"
  by (simp add: utoa_def utoa_loop_dec dec_def digits_single)

lemma smb_key_text: "smb_key a b = dec (unat a) @ CHR ''|'' # dec (unat b)"
  by (simp add: smb_key_def utoa_dec)

lemma smb_key_inj [simp]: "smb_key a b = smb_key a' b' \<longleftrightarrow> a = a' \<and> b = b'"
proof
  assume "smb_key a b = smb_key a' b'"
  then have "dec (unat b) = dec (unat b')" "dec (unat a) = dec (unat a')"
    using split_at_last_eq [of "dec (unat a)" "CHR ''|''" "dec (unat b)" "dec (unat a')" "dec (unat b')"]
    by (simp_all add: smb_key_text)
  then show "a = a' \<and> b = b'" by (simp add: word_unat_eq_iff)
qed simp

lemma smb_key_not_Nil [simp]: "smb_key a b \<noteq> []"
  by (simp add: smb_key_text)

lemma requestKey_same [simp]: "requestKey c s a b = requestKey c s a' b' \<longleftrightarrow> a = a' \<and> b = b'"
  by (simp add: requestKey_def)

lemma commandName_not_Nil [simp]: "commandName c \<noteq> []"
proof -
  have "\<forall>(k, v) \<in> set smbCommandNames. v \<noteq> []" by (simp add: smbCommandNames_def)
  then show ?thesis by (auto simp: commandName_def dest: mget_SomeD split: option.split)
qed

section \<open>Which records make the parser panic\<close>

lemma read_u16s_total: "off + 2 * n \<le> length body \<Longrightarrow> \<exists>us. read_u16s body off n = Some us"
proof (induction n arbitrary: off)
  case (Suc n)
  then have "off + 2 + 2 * n \<le> length body" by simp
  from Suc.IH [OF this] Suc.prems show ?case by auto
qed simp

lemma decodeUTF16At_total: "\<exists>s. decodeUTF16At body off ln = Some s"
proof (cases "off < 0 \<or> ln \<le> 0 \<or> off + ln > int (length body) \<or> ln mod 2 \<noteq> 0")
  case False
  then have "nat off + 2 * (nat ln div 2) \<le> length body" by linarith
  from read_u16s_total [OF this] False show ?thesis by (auto simp: decodeUTF16At_def)
qed (simp add: decodeUTF16At_def)

lemma enrich_command_total: "\<exists>r. enrich_command cmd b ob e = Some r"
proof -
  note total = decodeUTF16At_total [of b]
  have tree: "\<exists>r. enrich_tree_connect b ob e = Some r"
    using total [of "int (unat (be16 (b ! 5) (b ! 4))) - 64" "int (unat (be16 (b ! 7) (b ! 6)))"]
    by (cases "\<not> so_IsResponse ob \<and> length b \<ge> 8") (auto simp: enrich_tree_connect_def)
  have create: "\<exists>r. enrich_create b ob = Some r"
    using total [of "int (unat (be16 (b ! 45) (b ! 44))) - 64" "int (unat (be16 (b ! 47) (b ! 46)))"]
      rd_le64_Some [of 64 b] rd_le64_Some [of 72 b]
    by (cases "so_IsResponse ob"; cases "length b \<ge> 80"; cases "length b \<ge> 48") (auto simp: enrich_create_def)
  have transfer: "\<exists>r. enrich_transfer b ob = Some r"
    using rd_le64_Some [of 16 b] rd_le64_Some [of 24 b] rd_le32_Some [of 4 b]
    by (cases "so_IsResponse ob"; cases "length b \<ge> 32"; cases "length b \<ge> 8")
      (auto simp: enrich_transfer_def with_file_def)
  have closing: "\<exists>r. enrich_close b ob = Some r"
    using rd_le64_Some [of 8 b] rd_le64_Some [of 16 b]
    by (cases "so_IsResponse ob"; cases "length b \<ge> 24") (auto simp: enrich_close_def)
  show ?thesis using tree create transfer closing by (auto simp: enrich_command_def)
qed

lemma enrich_total: "\<exists>ob' e'. enrich cmd b ob e = Some (ob', e')"
  using enrich_command_total [of cmd b ob e] by (auto simp: enrich_def)

lemma handoff_total: "\<exists>frs. handoffDCERPC p ob cmd body = Some frs"
proof (cases "cmd \<noteq> 9 \<or> so_IsResponse ob \<or> so_NamedPipe ob = [] \<or> length body < 32")
  case False
  then obtain w v where r: "rd_le16 body 2 = Some w" "rd_le32 body 4 = Some v" using rd_le32_Some [of 4 body] by auto
  show ?thesis
  proof (cases "int (unat w) - 64 < 0 \<or> int (unat v) \<le> 0 \<or> int (unat w) - 64 + int (unat v) > int (length body)")
    case no: False
    then have "nat (int (unat w) - 64) \<le> nat (int (unat w) - 64 + int (unat v))"
      "nat (int (unat w) - 64 + int (unat v)) \<le> length body" by linarith+
    then obtain d where "go_slice body (nat (int (unat w) - 64)) (nat (int (unat w) - 64 + int (unat v))) = Some d" by simp
    moreover have "length d < 16 \<or> 0 < length d \<and> Suc 0 < length d \<and> d \<noteq> []" by (cases d) auto
    ultimately show ?thesis using False no r by (auto simp: handoffDCERPC_def Let_def)
  qed (use False r in \<open>auto simp: handoffDCERPC_def Let_def\<close>)
qed (simp add: handoffDCERPC_def)

text \<open>The length of the header chain a record claims: the \<open>NextCommand\<close> field.\<close>

definition next_command :: "bytes \<Rightarrow> nat" where
  "next_command h = (case rd_le32 h 20 of Some w \<Rightarrow> unat w | None \<Rightarrow> 0)"

lemma smb_header_next:
  assumes "64 \<le> length h"
  shows "\<exists>hd. smb_header_of h = Some hd \<and> sh_next hd = next_command h"
proof -
  from assms obtain f n m t s st where
    "rd_le32 h 16 = Some f" "rd_le32 h 20 = Some n" "rd_le64 h 24 = Some m" "rd_le32 h 36 = Some t" "rd_le64 h 40 = Some s" "rd_le32 h 8 = Some st"
    using rd_le32_Some [of 16 h] rd_le32_Some [of 20 h] rd_le64_Some [of 24 h] rd_le32_Some [of 36 h] rd_le64_Some [of 40 h] rd_le32_Some [of 8 h]
    by auto
  with assms show ?thesis by (cases "f AND 1 = 0") (simp_all add: smb_header_of_def next_command_def)
qed

lemma parse_message_panics:
  assumes "64 \<le> length h"
  shows "parse_message p h e = None \<longleftrightarrow> 0 < next_command h \<and> next_command h < 64"
    and "parse_message p h e = Some (n, r) \<Longrightarrow> n = next_command h"
proof -
  obtain hd where hd: "smb_header_of h = Some hd" "sh_next hd = next_command h" using smb_header_next [OF assms] by blast
  let ?fin = "if next_command h > 0 \<and> next_command h < length h then next_command h else length h"
  have all: "\<exists>r. parse_message p h e = Some (next_command h, r)" if "go_slice h 64 ?fin = Some body" for body
  proof -
    let ?ob = "header_obs p hd" and ?req = "pending_request (header_obs p hd) e"
    obtain ob1 e1 where "enrich (sh_cmd hd) body (take_over ?req ?ob) e = Some (ob1, e1)" using enrich_total by blast
    moreover obtain ob2 e2 where "correlate (sh_cmd hd) ?req ob1 e1 = (ob2, e2)" by (metis prod.exhaust)
    moreover obtain frs where "handoffDCERPC p (classify ob2) (sh_cmd hd) body = Some frs" using handoff_total by blast
    ultimately show ?thesis
      by (simp only: parse_message_def hd that Option.bind.bind_lunit Let_def prod.case option.inject prod.inject) blast
  qed
  have none: "go_slice h 64 ?fin = None \<longleftrightarrow> 0 < next_command h \<and> next_command h < 64"
    using assms by (auto simp: go_slice_def)
  then have "parse_message p h e = None" if "0 < next_command h \<and> next_command h < 64"
  proof -
    have "go_slice h 64 ?fin = None" using none that by blast
    then show ?thesis by (simp only: parse_message_def hd Option.bind.bind_lunit Option.bind.bind_lzero)
  qed
  with all none show "parse_message p h e = None \<longleftrightarrow> 0 < next_command h \<and> next_command h < 64"
    by (metis not_None_eq option.distinct(1))
  show "parse_message p h e = Some (n, r) \<Longrightarrow> n = next_command h"
    using all none \<open>0 < next_command h \<and> next_command h < 64 \<Longrightarrow> parse_message p h e = None\<close>
    by (metis not_None_eq option.distinct(1) option.inject prod.inject)
qed

text \<open>The offsets of the headers that the loop visits in a compound record.\<close>

definition header_at :: "bytes \<Rightarrow> nat \<Rightarrow> bool" where
  "header_at data off \<longleftrightarrow> off + 64 \<le> length data \<and> take 4 (drop off data) = smb_magic 0xfe"

inductive visited :: "bytes \<Rightarrow> nat \<Rightarrow> nat \<Rightarrow> bool" for data :: bytes where
  here: "header_at data off \<Longrightarrow> visited data off off"
| further: "header_at data off \<Longrightarrow> 64 \<le> next_command (drop off data) \<Longrightarrow>
    visited data (off + next_command (drop off data)) off' \<Longrightarrow> visited data off off'"

inductive_cases visitedE: "visited data off off'"

definition short_header :: "bytes \<Rightarrow> nat \<Rightarrow> bool" where
  "short_header data off \<longleftrightarrow> 0 < next_command (drop off data) \<and> next_command (drop off data) < 64"

lemma visited_header: "visited data off off' \<Longrightarrow> header_at data off"
  by (auto elim: visitedE)

lemma record_loop_panics:
  "record_loop p data off e = None \<longleftrightarrow> (\<exists>off'. visited data off off' \<and> short_header data off')"
proof (induction p data off e rule: record_loop.induct)
  case (1 p data off e)
  let ?n = "next_command (drop off data)"
  show ?case
  proof (cases "header_at data off")
    case False
    then show ?thesis using visited_header [of data off] by (auto simp: record_loop.simps [of p data off] header_at_def)
  next
    case True
    then have h: "off + 64 \<le> length data \<and> take 4 (drop off data) = smb_magic 0xfe" and len: "64 \<le> length (drop off data)"
      by (auto simp: header_at_def)
    show ?thesis
    proof (cases "parse_message p (drop off data) e")
      case None
      then have "short_header data off" using parse_message_panics(1) [OF len, of p e] by (simp add: short_header_def)
      with visited.here [OF True] None h show ?thesis by (auto simp: record_loop.simps [of p data off])
    next
      case (Some r)
      then obtain ob frs e1 where m: "parse_message p (drop off data) e = Some (?n, ob, frs, e1)"
        using parse_message_panics(2) [OF len] by (metis prod.exhaust)
      have notshort: "\<not> short_header data off" using parse_message_panics(1) [OF len, of p e] m by (simp add: short_header_def)
      show ?thesis
      proof (cases "?n = 0 \<or> off + ?n \<ge> length data")
        case True
        then have "\<not> visited data (off + ?n) off'" if "64 \<le> ?n" for off' using that visited_header [of data "off + ?n" off'] by (auto simp: header_at_def)
        with True m h notshort show ?thesis by (auto simp: record_loop.simps [of p data off] elim: visitedE)
      next
        case False
        with notshort have "64 \<le> ?n" by (auto simp: short_header_def)
        then have "(\<exists>off'. visited data off off' \<and> short_header data off') \<longleftrightarrow> (\<exists>off'. visited data (off + ?n) off' \<and> short_header data off')"
          using notshort visited.further [OF True] by (auto elim: visitedE)
        moreover have "record_loop p data off e = None \<longleftrightarrow> record_loop p data (off + ?n) e1 = None"
          using m h False by (auto simp: record_loop.simps [of p data off] split: option.split)
        moreover have "record_loop p data (off + ?n) e1 = None \<longleftrightarrow> (\<exists>off'. visited data (off + ?n) off' \<and> short_header data off')"
          by (rule 1 [OF h m refl refl refl]) (use False in simp_all)
        ultimately show ?thesis by (simp only:)
      qed
    qed
  qed
qed

text \<open>
  C39: the parser panics, whatever its state, exactly on the SMB2 records in which some header of
  the compound chain has a \<open>NextCommand\<close> between 1 and 63, that is, smaller than a header.  A
  single such packet, from anyone, ends the sensor: nothing recovers the panic.
\<close>

theorem smb_record_panics_iff:
  "parseRecord p data e = None \<longleftrightarrow> (\<exists>off. visited data 0 off \<and> short_header data off)"
proof (cases "header_at data 0")
  case True
  then have "take 4 data = smb_magic 0xfe" "64 \<le> length data" by (simp_all add: header_at_def)
  moreover have "smb_magic 0xfe \<noteq> smb_magic 0xfd" by (simp add: smb_magic_def)
  ultimately show ?thesis using record_loop_panics [of p data 0 e] by (simp add: parseRecord_def)
next
  case False
  then have "parseRecord p data e \<noteq> None" by (auto simp: parseRecord_def header_at_def)
  with False visited_header [of data 0] show ?thesis by blast
qed

section \<open>Messages on the wire\<close>

definition u16_le :: "u16 \<Rightarrow> bytes" where "u16_le w = rev (u16_bytes w)"
definition u32_le :: "u32 \<Rightarrow> bytes" where "u32_le w = rev (u32_bytes w)"
definition u64_le :: "u64 \<Rightarrow> bytes" where "u64_le w = u32_le (ucast w) @ u32_le (ucast (drop_bit 32 w))"

lemma le_length [simp]: "length (u16_le w) = 2" "length (u32_le v) = 4" "length (u64_le x) = 8"
  by (simp_all add: u16_le_def u32_le_def u64_le_def)

lemma rd_le16_at: "length xs = n \<Longrightarrow> rd_le16 (xs @ u16_le w @ ys) n = Some w"
  using be16_split [of w] by (auto simp: rd_le16_def u16_le_def u16_bytes_def nth_append)

lemma rd_le32_at: "length xs = n \<Longrightarrow> rd_le32 (xs @ u32_le w @ ys) n = Some w"
  using be32_split [of w] by (auto simp: rd_le32_def u32_le_def u32_bytes_def nth_append)

lemma u64_halves: "push_bit 32 (ucast (ucast (drop_bit 32 w) :: u32)) OR ucast (ucast w :: u32) = (w :: u64)"
  by (rule bit_eqI) (auto simp: bit_simps)

lemma rd_le64_at: "length xs = n \<Longrightarrow> rd_le64 (xs @ u64_le w @ ys) n = Some w"
proof -
  assume n: "length xs = n"
  have lo: "rd_le32 (xs @ u64_le w @ ys) n = Some (ucast w)"
    using rd_le32_at [OF n, of "ucast w" "u32_le (ucast (drop_bit 32 w)) @ ys"] by (simp add: u64_le_def)
  have hi: "rd_le32 (xs @ u64_le w @ ys) (n + 4) = Some (ucast (drop_bit 32 w))"
    using rd_le32_at [of "xs @ u32_le (ucast w)" "n + 4" "ucast (drop_bit 32 w)" ys] n by (simp add: u64_le_def)
  have ix: "n + 4 + 1 = n + 5" "n + 4 + 2 = n + 6" "n + 4 + 3 = n + 7" by simp_all
  have "rd_le64 b n = Some (push_bit 32 (ucast y) OR ucast x)" if "rd_le32 b n = Some x" "rd_le32 b (n + 4) = Some y" for b x y
    using that unfolding rd_le64_def rd_le32_def ix by (auto split: if_splits)
  from this [OF lo hi] show ?thesis by (simp add: u64_halves)
qed

definition smb2_header :: "u16 \<Rightarrow> bool \<Rightarrow> u32 \<Rightarrow> u64 \<Rightarrow> u32 \<Rightarrow> u64 \<Rightarrow> bytes" where
  "smb2_header cmd resp status mid tree session =
     smb_magic 0xfe @ [64, 0, 0, 0] @ u32_le status @ u16_le cmd @ [1, 0] @ u32_le (if resp then 1 else 0) @ u32_le 0 @
     u64_le mid @ [0, 0, 0, 0] @ u32_le tree @ u64_le session @ replicate 16 0"

lemma length_smb2_header [simp]: "length (smb2_header cmd resp status mid tree session) = 64"
  by (simp add: smb2_header_def smb_magic_def)

lemma smb_header_of_wire:
  "smb_header_of (smb2_header cmd resp status mid tree session @ body) =
     Some \<lparr> sh_cmd = cmd, sh_next = 0, sh_isResp = resp, sh_status = (if resp then status else 0), sh_message = mid, sh_tree = tree,
            sh_session = session \<rparr>"
proof -
  let ?m = "smb_magic 0xfe @ [64, 0, 0, 0]" and ?t = "replicate 16 0 @ body"
  let ?f = "u32_le (if resp then 1 else 0)"
  let ?h = "smb2_header cmd resp status mid tree session @ body"
  have "rd_le16 ?h 12 = Some cmd"
    using rd_le16_at [of "?m @ u32_le status" 12 cmd] by (simp add: smb2_header_def smb_magic_def)
  moreover have "rd_le32 ?h 8 = Some status"
    using rd_le32_at [of ?m 8 status] by (simp add: smb2_header_def smb_magic_def)
  moreover have "rd_le32 ?h 16 = Some (if resp then 1 else 0)"
    using rd_le32_at [of "?m @ u32_le status @ u16_le cmd @ [1, 0]" 16] by (simp add: smb2_header_def smb_magic_def)
  moreover have "rd_le32 ?h 20 = Some 0"
    using rd_le32_at [of "?m @ u32_le status @ u16_le cmd @ [1, 0] @ ?f" 20] by (simp add: smb2_header_def smb_magic_def)
  moreover have "rd_le64 ?h 24 = Some mid"
    using rd_le64_at [of "?m @ u32_le status @ u16_le cmd @ [1, 0] @ ?f @ u32_le 0" 24] by (simp add: smb2_header_def smb_magic_def)
  moreover have "rd_le32 ?h 36 = Some tree"
    using rd_le32_at [of "?m @ u32_le status @ u16_le cmd @ [1, 0] @ ?f @ u32_le 0 @ u64_le mid @ [0, 0, 0, 0]" 36]
    by (simp add: smb2_header_def smb_magic_def)
  moreover have "rd_le64 ?h 40 = Some session"
    using rd_le64_at [of "?m @ u32_le status @ u16_le cmd @ [1, 0] @ ?f @ u32_le 0 @ u64_le mid @ [0, 0, 0, 0] @ u32_le tree" 40]
    by (simp add: smb2_header_def smb_magic_def)
  ultimately show ?thesis by (cases resp) (simp_all add: smb_header_of_def del: rd_le16_ok)
qed

text \<open>Names of ASCII text as UTF-16.\<close>

definition plain_name :: "string \<Rightarrow> bool" where
  "plain_name s \<longleftrightarrow> s \<noteq> [] \<and> length s < 1000 \<and> (\<forall>c \<in> set s. 0 < (of_char c :: nat) \<and> (of_char c :: nat) < 128 \<and> c \<noteq> CHR ''/'')"

definition utf16_text :: "string \<Rightarrow> bytes" where
  "utf16_text s = concat (map (\<lambda>c. u16_le (of_nat (of_char c))) s)"

lemma length_utf16_text [simp]: "length (utf16_text s) = 2 * length s"
  by (induction s) (simp_all add: utf16_text_def)

lemma read_u16s_text: "length xs = n \<Longrightarrow> read_u16s (xs @ utf16_text s @ ys) n (length s) = Some (map (\<lambda>c. of_nat (of_char c)) s)"
proof (induction s arbitrary: xs n)
  case (Cons c s)
  have "rd_le16 (xs @ utf16_text (c # s) @ ys) n = Some (of_nat (of_char c))"
    using rd_le16_at [OF Cons.prems, of "of_nat (of_char c)" "utf16_text s @ ys"] by (simp add: utf16_text_def)
  moreover have "read_u16s (xs @ utf16_text (c # s) @ ys) (n + 2) (length s) = Some (map (\<lambda>c. of_nat (of_char c)) s)"
    using Cons.IH [of "xs @ u16_le (of_nat (of_char c))" "n + 2"] Cons.prems by (simp add: utf16_text_def)
  ultimately show ?case by (simp del: rd_le16_ok)
qed simp

lemma utf16_decode_small: "\<forall>u \<in> set us. unat u < 0x80 \<Longrightarrow> utf16_decode us = map unat us"
  by (induction us rule: utf16_decode.induct) auto

lemma decode_text:
  assumes "plain_name s"
  shows "concat (map utf8_rune (utf16_decode (map (\<lambda>c. of_nat (of_char c)) s))) = s"
proof -
  have c: "unat (of_nat (of_char c) :: u16) = of_char c" for c
    by (rule unat_of_nat_small) (rule less_trans [OF nat_of_char_less_256], simp)
  with assms have "\<forall>u \<in> set (map (\<lambda>c. of_nat (of_char c)) s). unat (u :: u16) < 0x80" by (auto simp: plain_name_def)
  from utf16_decode_small [OF this] c have "utf16_decode (map (\<lambda>c. of_nat (of_char c)) s) = map of_char s" by simp
  moreover have "concat (map utf8_rune (map of_char t)) = t" if "\<forall>c \<in> set t. (of_char c :: nat) < 128" for t
    using that by (induction t) (auto simp: utf8_rune_def)
  ultimately show ?thesis using assms by (simp add: plain_name_def)
qed

lemma decodeUTF16At_text:
  assumes "plain_name s" and "length xs = nat off" and "0 \<le> off" and "ln = int (2 * length s)"
  shows "decodeUTF16At (xs @ utf16_text s @ ys) off ln = Some s"
proof -
  have "map (\<lambda>c. if c = CHR ''/'' then CHR 0x5C else c) s = s"
    by (rule map_idI) (use assms(1) in \<open>simp add: plain_name_def\<close>)
  moreover have "trim_nul s = s"
  proof -
    have nul: "c \<noteq> CHR 0x00" if "c \<in> set s" for c
    proof -
      have "0 < (of_char c :: nat)" using that assms(1) unfolding plain_name_def by blast
      then show ?thesis by (cases "c = CHR 0x00") simp_all
    qed
    have "s \<noteq> []" using assms(1) by (simp add: plain_name_def)
    then have "dropWhile (\<lambda>c. c = CHR 0x00) s = s" "dropWhile (\<lambda>c. c = CHR 0x00) (rev s) = rev s"
      using nul [of "hd s"] nul [of "last s"] by (simp_all add: dropWhile_eq_self_iff hd_rev)
    then show ?thesis by (simp add: trim_nul_def)
  qed
  moreover have "nat ln div 2 = length s" "ln mod 2 = 0" "0 < ln" using assms(1,4) by (auto simp: plain_name_def)
  moreover have "read_u16s (xs @ utf16_text s @ ys) (nat off) (length s) = Some (map (\<lambda>c. of_nat (of_char c)) s)"
    by (rule read_u16s_text) (rule assms(2))
  moreover have "\<not> (off < 0 \<or> ln \<le> 0 \<or> off + ln > int (length (xs @ utf16_text s @ ys)) \<or> ln mod 2 \<noteq> 0)"
    using assms calculation by simp
  ultimately show ?thesis using decode_text [OF assms(1)] by (simp add: decodeUTF16At_def)
qed

section \<open>A dialogue about a file\<close>

definition tree_connect_body :: "string \<Rightarrow> bytes" where
  "tree_connect_body share = [9, 0, 0, 0] @ u16_le 72 @ u16_le (of_nat (2 * length share)) @ utf16_text share"

definition create_body :: "string \<Rightarrow> bytes" where
  "create_body name = replicate 44 0 @ u16_le 112 @ u16_le (of_nat (2 * length name)) @ utf16_text name"

definition create_response_body :: "u64 \<Rightarrow> u64 \<Rightarrow> bytes" where
  "create_response_body p v = replicate 64 0 @ u64_le p @ u64_le v"

definition write_body :: "u64 \<Rightarrow> u64 \<Rightarrow> bytes \<Rightarrow> bytes" where
  "write_body p v data = [49, 0] @ u16_le 112 @ u32_le (of_nat (length data)) @ replicate 8 0 @ u64_le p @ u64_le v @ replicate 16 0 @ data"

text \<open>The header of a message without a successor, and what the parser makes of the message.\<close>

definition single_header :: "u16 \<Rightarrow> bool \<Rightarrow> u32 \<Rightarrow> u64 \<Rightarrow> u32 \<Rightarrow> u64 \<Rightarrow> smb_header" where
  "single_header cmd resp status mid tree session = \<lparr> sh_cmd = cmd, sh_next = 0, sh_isResp = resp,
     sh_status = (if resp then status else 0), sh_message = mid, sh_tree = tree, sh_session = session \<rparr>"

lemma parseRecord_wire:
  assumes "ob = header_obs p (single_header cmd resp status mid tree session)" and "req = pending_request ob e"
    and "enrich cmd body (take_over req ob) e = Some (ob1, e1)" and "correlate cmd req ob1 e1 = (ob2, e2)"
    and "handoffDCERPC p (classify ob2) cmd body = Some frs"
  shows "parseRecord p (smb2_header cmd resp status mid tree session @ body) e = Some ([classify ob2], frs, e2)"
proof -
  let ?h = "smb2_header cmd resp status mid tree session @ body"
  have hd: "smb_header_of ?h = Some (single_header cmd resp status mid tree session)"
    by (simp add: smb_header_of_wire single_header_def)
  have fields: "sh_next (single_header cmd resp status mid tree session) = 0" "sh_cmd (single_header cmd resp status mid tree session) = cmd"
    by (simp_all add: single_header_def)
  have "go_slice ?h 64 (length ?h) = Some body" by (simp add: go_slice_def)
  with assms have "parse_message p ?h e = Some (0, classify ob2, frs, e2)"
    unfolding parse_message_def by (simp add: hd fields Let_def)
  moreover have "take 4 ?h = smb_magic 0xfe" "64 \<le> length ?h" by (simp_all add: smb2_header_def smb_magic_def)
  moreover have "smb_magic 0xfe \<noteq> smb_magic 0xfd" by (simp add: smb_magic_def)
  ultimately show ?thesis by (simp add: parseRecord_def record_loop.simps [of p ?h 0])
qed

lemma header_obs_fields [simp]:
  "so_Command (header_obs p (single_header cmd resp status mid tree session)) = commandName cmd"
  "so_MessageID (header_obs p (single_header cmd resp status mid tree session)) = mid"
  "so_SessionID (header_obs p (single_header cmd resp status mid tree session)) = session"
  "so_TreeID (header_obs p (single_header cmd resp status mid tree session)) = tree"
  "so_IsResponse (header_obs p (single_header cmd resp status mid tree session)) = resp"
  "so_Status (header_obs p (single_header cmd resp status mid tree session)) = (if resp then status else 0)"
  "so_ShareName (header_obs p (single_header cmd resp status mid tree session)) = []"
  "so_FileName (header_obs p (single_header cmd resp status mid tree session)) = []"
  "so_ClientIP (header_obs p (single_header cmd resp status mid tree session)) = so_ClientIP (smb_endpoints p)"
  "so_ServerIP (header_obs p (single_header cmd resp status mid tree session)) = so_ServerIP (smb_endpoints p)"
  "so_Timestamp (header_obs p (single_header cmd resp status mid tree session)) = pk_Timestamp p"
  by (simp_all add: header_obs_def single_header_def smb_endpoints_def zero_smb_obs_def)

text \<open>The two directions of a connection to port 445.\<close>

definition smb_connection :: "packet \<Rightarrow> packet \<Rightarrow> bool" where
  "smb_connection pc ps \<longleftrightarrow> pk_SrcPort pc \<noteq> 445 \<and> pk_SrcPort ps = 445 \<and> pk_SrcIP ps = pk_DstIP pc \<and> pk_DstIP ps = pk_SrcIP pc"

definition dialogue_key :: "packet \<Rightarrow> u64 \<Rightarrow> u64 \<Rightarrow> string" where
  "dialogue_key pc session mid = requestKey (pk_SrcIP pc) (pk_DstIP pc) session mid"

lemma connection_endpoints:
  assumes "smb_connection pc ps"
  shows "so_ClientIP (smb_endpoints pc) = pk_SrcIP pc" "so_ServerIP (smb_endpoints pc) = pk_DstIP pc"
    "so_ClientIP (smb_endpoints ps) = pk_SrcIP pc" "so_ServerIP (smb_endpoints ps) = pk_DstIP pc"
  using assms by (simp_all add: smb_connection_def smb_endpoints_def)

lemma name_length:
  assumes "plain_name s"
  shows "uint (of_nat (2 * length s) :: u16) = int (2 * length s)"
proof -
  have "unat (of_nat (2 * length s) :: u16) = 2 * length s"
    by (rule unat_of_nat_small) (use assms in \<open>simp add: plain_name_def\<close>)
  then show ?thesis by (metis uint_nat)
qed

lemma plain_name_not_Nil: "plain_name s \<Longrightarrow> s \<noteq> []"
  by (simp add: plain_name_def)

lemma tree_request:
  assumes c: "smb_connection pc ps" and n: "plain_name share"
  shows "\<exists>ob r e1. parseRecord pc (smb2_header 3 False 0 mid tree session @ tree_connect_body share) e = Some ([ob], [], e1) \<and>
    mget (sm_requests e1) (dialogue_key pc session mid) = Some r \<and> so_ShareName r = share \<and> so_Command r \<noteq> []"
proof -
  let ?ob = "header_obs pc (single_header 3 False 0 mid tree session)"
  let ?b = "tree_connect_body share"
  have b: "8 \<le> length ?b" "rd_le16 ?b 4 = Some 72" "rd_le16 ?b 6 = Some (of_nat (2 * length share))"
    using rd_le16_at [of "[9, 0, 0, 0]" 4 72] rd_le16_at [of "[9, 0, 0, 0] @ u16_le 72" 6] by (simp_all add: tree_connect_body_def del: rd_le16_ok)
  have "decodeUTF16At ?b (int (unat (72 :: u16)) - 64) (int (2 * length share)) = Some share"
    using decodeUTF16At_text [OF n, of "[9, 0, 0, 0] @ u16_le 72 @ u16_le (of_nat (2 * length share))" 8 "int (2 * length share)" "[]"]
    by (simp add: tree_connect_body_def)
  with b name_length [OF n] plain_name_not_Nil [OF n] have "enrich_tree_connect ?b ?ob e = Some (?ob\<lparr> so_ShareName := share \<rparr>, e\<lparr> sm_trees := mput (tree_key ?ob) share (sm_trees e) \<rparr>)"
    by (simp add: enrich_tree_connect_def del: rd_le16_ok of_nat_mult)
  then have "enrich 3 ?b (take_over zero_smb_obs ?ob) e =
      Some (?ob\<lparr> so_ShareName := share \<rparr>, e\<lparr> sm_trees := mput (tree_key ?ob) share (sm_trees e) \<rparr>)"
    using n by (simp add: enrich_def enrich_command_def take_over_def zero_smb_obs_def known_names_def learn_create_def plain_name_def Let_def)
  from parseRecord_wire [OF refl _ this _ ] connection_endpoints [OF c] show ?thesis
    by (fastforce simp: pending_request_def correlate_def handoffDCERPC_def rkey_of_def dialogue_key_def)
qed

lemma tree_response:
  assumes c: "smb_connection pc ps" and r: "mget (sm_requests e) (dialogue_key pc session mid) = Some r"
    and n: "so_ShareName r \<noteq> []" "so_Command r \<noteq> []"
  shows "\<exists>ob e1. parseRecord ps (smb2_header 3 True 0 mid tree session @ body) e = Some ([ob], [], e1) \<and>
    mget (sm_trees e1) (smb_key session (ucast tree)) = Some (so_ShareName r)"
proof -
  let ?ob = "header_obs ps (single_header 3 True 0 mid tree session)"
  have req: "pending_request ?ob e = r"
    using r connection_endpoints [OF c] by (simp add: pending_request_def rkey_of_def dialogue_key_def)
  have "enrich 3 body (take_over r ?ob) e = Some (take_over r ?ob, e)"
    using n by (simp add: enrich_def enrich_command_def enrich_tree_connect_def take_over_def known_names_def learn_create_def Let_def)
  from parseRecord_wire [OF refl req [symmetric] this] n show ?thesis
    by (fastforce simp: correlate_def handoffDCERPC_def take_over_def tree_key_def Let_def)
qed

lemma create_request:
  assumes c: "smb_connection pc ps" and n: "plain_name name" and t: "mget (sm_trees e) (smb_key session (ucast tree)) = Some share"
  shows "\<exists>ob r e1. parseRecord pc (smb2_header 5 False 0 mid tree session @ create_body name) e = Some ([ob], [], e1) \<and>
    mget (sm_requests e1) (dialogue_key pc session mid) = Some r \<and> so_FileName r = name \<and> so_Command r \<noteq> [] \<and>
    mget (sm_trees e1) (smb_key session (ucast tree)) = Some share"
proof -
  let ?ob = "header_obs pc (single_header 5 False 0 mid tree session)"
  let ?b = "create_body name"
  have b: "48 \<le> length ?b" "rd_le16 ?b 44 = Some 112" "rd_le16 ?b 46 = Some (of_nat (2 * length name))"
    using rd_le16_at [of "replicate 44 0" 44 112] rd_le16_at [of "replicate 44 0 @ u16_le 112" 46]
    by (simp_all add: create_body_def del: rd_le16_ok)
  have "decodeUTF16At ?b (int (unat (112 :: u16)) - 64) (int (2 * length name)) = Some name"
    using decodeUTF16At_text [OF n, of "replicate 44 0 @ u16_le 112 @ u16_le (of_nat (2 * length name))" 48 "int (2 * length name)" "[]"]
    by (simp add: create_body_def)
  with b name_length [OF n] have "enrich_create ?b ?ob = Some (?ob\<lparr> so_FileName := name \<rparr>, [])"
    by (simp add: enrich_create_def del: rd_le16_ok of_nat_mult)
  then have "enrich 5 ?b (take_over zero_smb_obs ?ob) e =
      Some (?ob\<lparr> so_FileName := name, so_ShareName := share \<rparr>, e\<lparr> sm_files := mput (smb_key session mid) name (sm_files e) \<rparr>)"
    using plain_name_not_Nil [OF n] t
    by (simp add: enrich_def enrich_command_def take_over_def zero_smb_obs_def known_names_def learn_create_def tree_key_def map_text_def Let_def)
  from parseRecord_wire [OF refl _ this] connection_endpoints [OF c] t show ?thesis
    by (fastforce simp: pending_request_def correlate_def handoffDCERPC_def rkey_of_def dialogue_key_def)
qed

lemma known_names_fields [simp]:
  "so_IsResponse (known_names k ob e) = so_IsResponse ob" "so_Status (known_names k ob e) = so_Status ob"
  "so_FileIDPersistent (known_names k ob e) = so_FileIDPersistent ob" "so_FileIDVolatile (known_names k ob e) = so_FileIDVolatile ob"
  by (simp_all add: known_names_def Let_def)

lemma learn_create_fields:
  "learn_create cmd k ob e = (ob1, e1) \<Longrightarrow> so_IsResponse ob1 = so_IsResponse ob \<and> so_Status ob1 = so_Status ob \<and>
     so_FileIDPersistent ob1 = so_FileIDPersistent ob \<and> so_FileIDVolatile ob1 = so_FileIDVolatile ob \<and> sm_trees e1 = sm_trees e"
  by (auto simp: learn_create_def Let_def split: if_splits)

lemma create_response:
  assumes c: "smb_connection pc ps" and r: "mget (sm_requests e) (dialogue_key pc session mid) = Some r"
    and n: "so_FileName r \<noteq> []" "so_Command r \<noteq> []" and f: "p \<noteq> 0 \<or> v \<noteq> 0"
    and t: "mget (sm_trees e) (smb_key session (ucast tree)) = Some share"
  shows "\<exists>ob e1. parseRecord ps (smb2_header 5 True 0 mid tree session @ create_response_body p v) e = Some ([ob], [], e1) \<and>
    mget (sm_files e1) (smb_key p v) = Some (so_FileName r) \<and> mget (sm_trees e1) (smb_key session (ucast tree)) = Some share"
proof -
  let ?ob = "header_obs ps (single_header 5 True 0 mid tree session)"
  let ?b = "create_response_body p v"
  have b: "80 \<le> length ?b" "rd_le64 ?b 64 = Some p" "rd_le64 ?b 72 = Some v"
    using rd_le64_at [of "replicate 64 0" 64 p] rd_le64_at [of "replicate 64 0 @ u64_le p" 72 v "[]"] by (simp_all add: create_response_body_def)
  have req: "pending_request ?ob e = r"
    using r connection_endpoints [OF c] by (simp add: pending_request_def rkey_of_def dialogue_key_def)
  let ?f = "(take_over r ?ob)\<lparr> so_FileIDPersistent := p, so_FileIDVolatile := v \<rparr>"
  obtain ob1 e1 where lc: "learn_create 5 (smb_key p v) (known_names (smb_key p v) ?f e) e = (ob1, e1)" by (metis prod.exhaust)
  have "so_IsResponse (take_over r ?ob)" "so_Status (take_over r ?ob) = 0" by (simp_all add: take_over_def)
  with learn_create_fields [OF lc] have ob1: "so_IsResponse ob1" "so_Status ob1 = 0" "so_FileIDPersistent ob1 = p"
    "so_FileIDVolatile ob1 = v" "sm_trees e1 = sm_trees e" by simp_all
  have en: "enrich 5 ?b (take_over r ?ob) e = Some (ob1, e1)"
    using b lc \<open>so_IsResponse (take_over r ?ob)\<close> by (simp add: enrich_def enrich_command_def enrich_create_def with_file_def)
  obtain ob2 e2 where co: "correlate 5 r ob1 e1 = (ob2, e2)" and
    e2: "mget (sm_files e2) (smb_key p v) = Some (so_FileName r)" "sm_trees e2 = sm_trees e"
    using ob1 n f by (simp add: correlate_def Let_def)
  have "handoffDCERPC ps (classify ob2) 5 ?b = Some []" by (simp add: handoffDCERPC_def)
  from parseRecord_wire [OF refl req [symmetric] en co this] e2 t show ?thesis by auto
qed

text \<open>What classification says of a write, and the fragment of a write to a pipe.\<close>

lemma classify_names [simp]: "so_ShareName (classify ob) = so_ShareName ob" "so_FileName (classify ob) = so_FileName ob"
  "so_IsResponse (classify ob) = so_IsResponse ob" "so_Timestamp (classify ob) = so_Timestamp ob"
  "so_ClientIP (classify ob) = so_ClientIP ob" "so_ServerIP (classify ob) = so_ServerIP ob" "so_Bytes (classify ob) = so_Bytes ob"
  by (simp_all add: classify_def Let_def)

lemma classify_pipe:
  "go_contains (to_lower (so_ShareName ob)) ''ipc$'' \<Longrightarrow> so_FileName ob \<noteq> [] \<Longrightarrow> so_NamedPipe (classify ob) = so_FileName ob"
  by (simp add: classify_def Let_def)

definition pipe_fragment :: "packet \<Rightarrow> string \<Rightarrow> bytes \<Rightarrow> dcerpc_fragment" where
  "pipe_fragment pc name data = \<lparr> df_Timestamp = pk_Timestamp pc,
     df_ConnectionID = pk_SrcIP pc @ '':'' @ utoa (ucast (pk_SrcPort pc)) @ ''-'' @ pk_DstIP pc @ '':'' @ utoa (ucast (pk_DstPort pc)),
     df_ClientIP = pk_SrcIP pc, df_ServerIP = pk_DstIP pc, df_NamedPipe = name, df_Data = data \<rparr>"

definition rpc_pdu :: "bytes \<Rightarrow> bool" where
  "rpc_pdu data \<longleftrightarrow> 16 \<le> length data \<and> data ! 0 = 5 \<and> data ! 1 = 0"

lemma write_request:
  assumes c: "smb_connection pc ps" and t: "mget (sm_trees e) (smb_key session (ucast tree)) = Some share"
    and f: "mget (sm_files e) (smb_key p v) = Some name" and n: "share \<noteq> []" "name \<noteq> []" and d: "length data < 2 ^ 31"
  shows "\<exists>ob frs e1. parseRecord pc (smb2_header 9 False 0 mid tree session @ write_body p v data) e = Some ([ob], frs, e1) \<and>
    so_ShareName ob = share \<and> so_FileName ob = name \<and> so_Bytes ob = of_nat (length data) \<and>
    so_ClientIP ob = pk_SrcIP pc \<and> so_ServerIP ob = pk_DstIP pc \<and>
    (go_contains (to_lower share) ''ipc$'' \<and> rpc_pdu data \<longrightarrow> frs = [pipe_fragment pc name data])"
proof -
  let ?ob = "header_obs pc (single_header 9 False 0 mid tree session)"
  let ?b = "write_body p v data"
  have b: "32 \<le> length ?b" "rd_le16 ?b 2 = Some 112" "rd_le32 ?b 4 = Some (of_nat (length data))" "rd_le64 ?b 16 = Some p" "rd_le64 ?b 24 = Some v"
    using rd_le16_at [of "[49, 0]" 2 112] rd_le32_at [of "[49, 0] @ u16_le 112" 4]
      rd_le64_at [of "[49, 0] @ u16_le 112 @ u32_le (of_nat (length data)) @ replicate 8 0" 16 p]
      rd_le64_at [of "[49, 0] @ u16_le 112 @ u32_le (of_nat (length data)) @ replicate 8 0 @ u64_le p" 24 v]
    by (simp_all add: write_body_def del: rd_le16_ok)
  have len: "unat (of_nat (length data) :: u32) = length data" by (rule unat_of_nat_small) (use d in simp)
  then have ilen: "uint (of_nat (length data) :: u32) = int (length data)" by (metis uint_nat)
  have bytes: "(ucast (of_nat (length data) :: u32) :: u64) = of_nat (length data)"
    by (metis len of_nat_unat)
  let ?ob1 = "?ob\<lparr> so_Bytes := of_nat (length data), so_FileIDPersistent := p, so_FileIDVolatile := v, so_ShareName := share, so_FileName := name \<rparr>"
  have en: "enrich 9 ?b (take_over zero_smb_obs ?ob) e = Some (?ob1, e)"
    using b t f n bytes by (simp add: enrich_def enrich_command_def enrich_transfer_def take_over_def zero_smb_obs_def with_file_def
        known_names_def learn_create_def tree_key_def map_text_def Let_def del: rd_le16_ok)
  obtain frs where hf: "handoffDCERPC pc (classify ?ob1) 9 ?b = Some frs" using handoff_total by blast
  have "frs = [pipe_fragment pc name data]" if "go_contains (to_lower share) ''ipc$''" "rpc_pdu data"
  proof -
    have pipe: "so_NamedPipe (classify ?ob1) = name" using classify_pipe [of ?ob1] that(1) n by simp
    have sl: "go_slice ?b 48 (48 + length data) = Some data" by (simp add: write_body_def go_slice_def)
    have nz: "data \<noteq> []" "Suc 0 < length data" "length ?b = 48 + length data" using that(2) by (auto simp: rpc_pdu_def write_body_def)
    have "nat (48 + int (length data)) = 48 + length data" by simp
    then have "handoffDCERPC pc (classify ?ob1) 9 ?b = Some [pipe_fragment pc name data]"
      using b that(2) pipe n sl nz ilen connection_endpoints [OF c]
      by (simp add: handoffDCERPC_def pipe_fragment_def rpc_pdu_def Let_def del: rd_le16_ok)
    with hf show ?thesis by simp
  qed
  with parseRecord_wire [OF refl _ en _ hf] connection_endpoints [OF c] show ?thesis
    by (fastforce simp: pending_request_def correlate_def)
qed

primrec parse_dialogue :: "(packet \<times> bytes) list \<Rightarrow> smb_engine \<Rightarrow> (smb_obs list \<times> dcerpc_fragment list \<times> smb_engine) go" where
  "parse_dialogue [] e = Some ([], [], e)"
| "parse_dialogue (m # ms) e =
     do {
       (obs, frs, e1) \<leftarrow> parseRecord (fst m) (snd m) e;
       (obs2, frs2, e2) \<leftarrow> parse_dialogue ms e1;
       Some (obs @ obs2, frs @ frs2, e2)
     }"

text \<open>A client connects to a share, opens a file there and writes to it.\<close>

definition write_dialogue ::
  "packet \<Rightarrow> packet \<Rightarrow> u64 \<Rightarrow> u32 \<Rightarrow> u64 \<times> u64 \<times> u64 \<Rightarrow> string \<Rightarrow> string \<Rightarrow> u64 \<Rightarrow> u64 \<Rightarrow> bytes \<Rightarrow> (packet \<times> bytes) list" where
  "write_dialogue pc ps session tree ms share name p v data =
     [(pc, smb2_header 3 False 0 (fst ms) 0 session @ tree_connect_body share),
      (ps, smb2_header 3 True 0 (fst ms) tree session @ replicate 16 0),
      (pc, smb2_header 5 False 0 (fst (snd ms)) tree session @ create_body name),
      (ps, smb2_header 5 True 0 (fst (snd ms)) tree session @ create_response_body p v),
      (pc, smb2_header 9 False 0 (snd (snd ms)) tree session @ write_body p v data)]"

lemma write_dialogue_parsed:
  assumes c: "smb_connection pc ps" and n: "plain_name share" "plain_name name" and f: "p \<noteq> 0 \<or> v \<noteq> 0" and d: "length data < 2 ^ 31"
  shows "\<exists>o1 o2 o3 o4 ob frs e'. parse_dialogue (write_dialogue pc ps session tree ms share name p v data) e = Some ([o1, o2, o3, o4, ob], frs, e') \<and>
    so_ShareName ob = share \<and> so_FileName ob = name \<and> so_Bytes ob = of_nat (length data) \<and>
    so_ClientIP ob = pk_SrcIP pc \<and> so_ServerIP ob = pk_DstIP pc \<and>
    (go_contains (to_lower share) ''ipc$'' \<and> rpc_pdu data \<longrightarrow> frs = [pipe_fragment pc name data])"
proof -
  note nn = n [THEN plain_name_not_Nil]
  from tree_request [OF c n(1)] obtain o1 r1 e1 where 1: "parseRecord pc (smb2_header 3 False 0 (fst ms) 0 session @ tree_connect_body share) e = Some ([o1], [], e1)"
    "mget (sm_requests e1) (dialogue_key pc session (fst ms)) = Some r1" "so_ShareName r1 = share" "so_Command r1 \<noteq> []" by blast
  from tree_response [OF c 1(2) _ 1(4)] 1(3) nn obtain o2 e2 where 2:
    "parseRecord ps (smb2_header 3 True 0 (fst ms) tree session @ replicate 16 0) e1 = Some ([o2], [], e2)"
    "mget (sm_trees e2) (smb_key session (ucast tree)) = Some share" by blast
  from create_request [OF c n(2) 2(2)] obtain o3 r3 e3 where 3:
    "parseRecord pc (smb2_header 5 False 0 (fst (snd ms)) tree session @ create_body name) e2 = Some ([o3], [], e3)"
    "mget (sm_requests e3) (dialogue_key pc session (fst (snd ms))) = Some r3" "so_FileName r3 = name" "so_Command r3 \<noteq> []"
    "mget (sm_trees e3) (smb_key session (ucast tree)) = Some share" by blast
  from create_response [OF c 3(2) _ 3(4) f 3(5)] 3(3) nn obtain o4 e4 where 4:
    "parseRecord ps (smb2_header 5 True 0 (fst (snd ms)) tree session @ create_response_body p v) e3 = Some ([o4], [], e4)"
    "mget (sm_files e4) (smb_key p v) = Some name" "mget (sm_trees e4) (smb_key session (ucast tree)) = Some share" by blast
  from write_request [OF c 4(3,2) nn d, of "snd (snd ms)"] 1(1) 2(1) 3(1) 4(1) show ?thesis
    by (fastforce simp: write_dialogue_def)
qed

text \<open>
  A write is attributed to the file and the share it goes to.  Whatever the parser saw before,
  after a client connected to a share, opened a file and got its identifier, the observation of its write
  under that identifier carries the names of the share and of the file, the number of bytes and
  both addresses.
\<close>

theorem smb_write_attributed:
  assumes "smb_connection pc ps" and "plain_name share" and "plain_name name" and "p \<noteq> 0 \<or> v \<noteq> 0" and "length data < 2 ^ 31"
  shows "\<exists>o1 o2 o3 o4 ob frs e'. parse_dialogue (write_dialogue pc ps session tree ms share name p v data) e = Some ([o1, o2, o3, o4, ob], frs, e') \<and>
    so_ShareName ob = share \<and> so_FileName ob = name \<and> so_Bytes ob = of_nat (length data) \<and>
    so_ClientIP ob = pk_SrcIP pc \<and> so_ServerIP ob = pk_DstIP pc"
  using write_dialogue_parsed [OF assms, of session tree ms e] by blast

definition sample_client :: packet where
  "sample_client = zero_packet\<lparr> pk_SrcIP := ''10.0.0.7'', pk_DstIP := ''10.0.0.9'', pk_SrcPort := 50123, pk_DstPort := 445 \<rparr>"

definition sample_server :: packet where
  "sample_server = zero_packet\<lparr> pk_SrcIP := ''10.0.0.9'', pk_DstIP := ''10.0.0.7'', pk_SrcPort := 445, pk_DstPort := 50123 \<rparr>"

lemma sample_connection: "smb_connection sample_client sample_server"
  by (simp add: smb_connection_def sample_client_def sample_server_def)

theorem smb_write_attributed_witness:
  "\<exists>o1 o2 o3 o4 ob frs e'. parse_dialogue (write_dialogue sample_client sample_server 77 5 (1, 2, 3) ''public'' ''a.exe'' 6 8 [77, 90]) (NewSmb False) =
      Some ([o1, o2, o3, o4, ob], frs, e') \<and>
    so_ShareName ob = ''public'' \<and> so_FileName ob = ''a.exe'' \<and> so_Bytes ob = of_nat (length [77 :: u8, 90]) \<and>
    so_ClientIP ob = pk_SrcIP sample_client \<and> so_ServerIP ob = pk_DstIP sample_client"
  by (rule smb_write_attributed [OF sample_connection]) (simp_all add: plain_name_def)

section \<open>Remote procedure calls on named pipes\<close>

definition rpc_request :: "u8 \<Rightarrow> u32 \<Rightarrow> u16 \<Rightarrow> bytes \<Rightarrow> bytes" where
  "rpc_request flags call opnum stub = [5, 0, 0, flags, 16, 0, 0, 0] @ u16_le (of_nat (24 + length stub)) @ [0, 0] @ u32_le call @
     replicate 6 0 @ u16_le opnum @ stub"

lemma dcerpc_parse_request:
  assumes "length stub < 2 ^ 15"
  shows "dcerpc_parse (pipe_fragment pc name (rpc_request flags call opnum stub)) =
    Some (Some \<lparr> dr_Timestamp = pk_Timestamp pc, dr_ConnectionID = df_ConnectionID (pipe_fragment pc name []), dr_ClientIP = pk_SrcIP pc,
      dr_ServerIP = pk_DstIP pc, dr_NamedPipe = name, dr_PacketType = 0, dr_CallID = call, dr_Opnum = opnum,
      dr_FragmentLength = of_nat (24 + length stub), dr_FirstFragment = (flags AND 1 \<noteq> 0), dr_LastFragment = (flags AND 2 \<noteq> 0),
      dr_InterfaceHint = pipeHint name \<rparr>)"
proof -
  let ?d = "rpc_request flags call opnum stub" and ?h = "[5, 0, 0, flags, 16, 0, 0, 0]"
  have "rd_le16 ?d 8 = Some (of_nat (24 + length stub))" "rd_le32 ?d 12 = Some call" "rd_le16 ?d 22 = Some opnum"
    using rd_le16_at [of ?h 8] rd_le32_at [of "?h @ u16_le (of_nat (24 + length stub)) @ [0, 0]" 12]
      rd_le16_at [of "?h @ u16_le (of_nat (24 + length stub)) @ [0, 0] @ u32_le call @ replicate 6 0" 22]
    by (simp_all add: rpc_request_def del: rd_le16_ok)
  moreover have "length ?d = 24 + length stub" "?d ! 0 = 5" "?d ! 1 = 0" "?d ! 2 = 0" "?d ! 3 = flags"
    by (simp_all add: rpc_request_def)
  moreover have "\<not> (of_nat (24 + length stub) :: u16) < 16"
  proof -
    have "unat (of_nat (24 + length stub) :: u16) = 24 + length stub" by (rule unat_of_nat_small) (use assms in simp)
    then show ?thesis by (simp add: word_less_nat_alt)
  qed
  moreover have "0 < length ?d" "?d \<noteq> []" "Suc 0 < length ?d" "2 < length ?d" "3 < length ?d" by (simp_all add: rpc_request_def)
  ultimately show ?thesis by (simp add: dcerpc_parse_def pipe_fragment_def Let_def del: rd_le16_ok)
qed

text \<open>
  A remote procedure call on a named pipe is observed.  When the share is IPC$, the data written is
  a DCE/RPC request and the dialogue is as above, exactly one fragment is handed to the DCE/RPC
  engine, and that engine decodes its operation number, call and endpoints and names the service
  behind the pipe.
\<close>

theorem rpc_call_on_pipe_observed:
  assumes "smb_connection pc ps" and "plain_name share" and "plain_name name" and "p \<noteq> 0 \<or> v \<noteq> 0"
    and "go_contains (to_lower share) ''ipc$''" and "length stub < 2 ^ 15"
  shows "\<exists>obs f e' d. parse_dialogue (write_dialogue pc ps session tree ms share name p v (rpc_request flags call opnum stub)) e = Some (obs, [f], e') \<and>
    dcerpc_parse f = Some (Some d) \<and> dr_ClientIP d = pk_SrcIP pc \<and> dr_ServerIP d = pk_DstIP pc \<and> dr_NamedPipe d = name \<and>
    dr_Opnum d = opnum \<and> dr_CallID d = call \<and> dr_InterfaceHint d = pipeHint name"
proof -
  have "rpc_pdu (rpc_request flags call opnum stub)" "length (rpc_request flags call opnum stub) < 2 ^ 31"
    using assms(6) by (simp_all add: rpc_pdu_def rpc_request_def)
  with write_dialogue_parsed [OF assms(1-4), of "rpc_request flags call opnum stub" session tree ms e] assms(5) obtain obs e' where
    "parse_dialogue (write_dialogue pc ps session tree ms share name p v (rpc_request flags call opnum stub)) e =
      Some (obs, [pipe_fragment pc name (rpc_request flags call opnum stub)], e')" by blast
  with dcerpc_parse_request [OF assms(6), of pc name flags call opnum] show ?thesis by fastforce
qed

theorem rpc_call_on_pipe_observed_witness:
  "\<exists>obs f e' d. parse_dialogue (write_dialogue sample_client sample_server 77 5 (1, 2, 3) ''IPC$'' ''svcctl'' 6 8 (rpc_request 3 1 12 [1, 2])) (NewSmb False) =
      Some (obs, [f], e') \<and>
    dcerpc_parse f = Some (Some d) \<and> dr_ClientIP d = pk_SrcIP sample_client \<and> dr_ServerIP d = pk_DstIP sample_client \<and> dr_NamedPipe d = ''svcctl'' \<and>
    dr_Opnum d = 12 \<and> dr_CallID d = 1 \<and> dr_InterfaceHint d = pipeHint ''svcctl''"
proof (rule rpc_call_on_pipe_observed [OF sample_connection])
  show "go_contains (to_lower ''IPC$'') ''ipc$''" by code_simp
qed (simp_all add: plain_name_def)

section \<open>Which tables are bounded\<close>

definition smb_log :: "smb_obs list \<Rightarrow> smb_obs \<Rightarrow> smb_obs list" where
  "smb_log xs ob = (let ys = xs @ [ob] in if length ys > maxObservations then drop (length ys - maxObservations) ys else ys)"

interpretation smb_log: bounded_log smb_log maxObservations
  by unfold_locales (auto simp: smb_log_def last_n_def Let_def)

lemma smb_publish_log: "sm_observations (smb_publish rows e) = foldl smb_log (sm_observations e) rows"
  by (simp add: smb_publish_def smb_log_def [abs_def])

lemma foldl_log_length: "length xs \<le> maxObservations \<Longrightarrow> length (foldl smb_log xs rows) \<le> maxObservations"
  by (simp add: smb_log.fold_push)

lemma echo_request:
  assumes "pk_SrcPort p \<noteq> 445"
  shows "\<exists>ob r. parseRecord p (smb2_header 13 False 0 mid 0 session @ body) e =
    Some ([ob], [], e\<lparr> sm_requests := mput (dialogue_key p session mid) r (sm_requests e) \<rparr>)"
proof -
  let ?ob = "header_obs p (single_header 13 False 0 mid 0 session)"
  have "enrich 13 body (take_over zero_smb_obs ?ob) e = Some (known_names [] ?ob e, e)"
    by (simp add: enrich_def enrich_command_def take_over_def zero_smb_obs_def learn_create_def Let_def)
  moreover have "so_ClientIP (smb_endpoints p) = pk_SrcIP p" "so_ServerIP (smb_endpoints p) = pk_DstIP p" using assms by (simp_all add: smb_endpoints_def)
  moreover have "rkey_of (known_names [] ?ob e) = rkey_of ?ob" by (simp add: known_names_def rkey_of_def Let_def)
  ultimately show ?thesis
    using parseRecord_wire [of ?ob p 13 False 0 mid 0 session zero_smb_obs e body]
    by (fastforce simp: pending_request_def correlate_def handoffDCERPC_def dialogue_key_def rkey_of_def)
qed

definition echoes :: "packet \<Rightarrow> u64 \<Rightarrow> u64 list \<Rightarrow> (packet \<times> bytes) list" where
  "echoes p session mids = map (\<lambda>mid. (p, smb2_header 13 False 0 mid 0 session @ [4, 0, 0, 0])) mids"

lemma echoes_parsed:
  assumes "pk_SrcPort p \<noteq> 445" and "distinct mids" and "\<forall>mid \<in> set mids. mget (sm_requests e) (dialogue_key p session mid) = None"
  shows "\<exists>obs e'. parse_dialogue (echoes p session mids) e = Some (obs, [], e') \<and>
    length (sm_requests e') = length (sm_requests e) + length mids \<and> length obs = length mids \<and> sm_observations e' = sm_observations e"
  using assms(2,3)
proof (induction mids arbitrary: e)
  case (Cons mid mids)
  obtain ob r where 1: "parseRecord p (smb2_header 13 False 0 mid 0 session @ [4, 0, 0, 0]) e =
    Some ([ob], [], e\<lparr> sm_requests := mput (dialogue_key p session mid) r (sm_requests e) \<rparr>)" using echo_request [OF assms(1)] by blast
  let ?e = "e\<lparr> sm_requests := mput (dialogue_key p session mid) r (sm_requests e) \<rparr>"
  have "\<forall>m \<in> set mids. mget (sm_requests ?e) (dialogue_key p session m) = None"
    using Cons.prems by (auto simp: dialogue_key_def)
  from Cons.IH [OF _ this] Cons.prems obtain obs e' where
    "parse_dialogue (echoes p session mids) ?e = Some (obs, [], e')" "length (sm_requests e') = length (sm_requests ?e) + length mids"
    "length obs = length mids" "sm_observations e' = sm_observations e" by auto
  moreover have "length (sm_requests ?e) = Suc (length (sm_requests e))" using Cons.prems by (simp add: length_mput)
  ultimately show ?case using 1 by (simp add: echoes_def)
qed (simp add: echoes_def)

text \<open>
  The list of observations is bounded and the table of open requests is not: a client that
  sends requests nobody answers makes the table grow by one entry for each message identifier,
  and no operation but a reset removes the entries.
\<close>

theorem smb_requests_grow:
  assumes "pk_SrcPort p \<noteq> 445" and "distinct mids"
  shows "\<exists>obs e'. parse_dialogue (echoes p session mids) (NewSmb mode) = Some (obs, [], e') \<and>
    length (sm_requests (smb_publish obs e')) = length mids \<and> length (sm_observations (smb_publish obs e')) \<le> maxObservations"
proof -
  obtain obs e' where 1: "parse_dialogue (echoes p session mids) (NewSmb mode) = Some (obs, [], e')"
    "length (sm_requests e') = length mids" "sm_observations e' = []"
    using echoes_parsed [OF assms, of "NewSmb mode" session] by (auto simp: NewSmb_def)
  have "length (sm_observations (smb_publish obs e')) \<le> maxObservations"
    unfolding smb_publish_log by (rule foldl_log_length) (simp add: 1(3))
  moreover have "sm_requests (smb_publish obs e') = sm_requests e'" by (simp add: smb_publish_def)
  ultimately show ?thesis using 1 by auto
qed

theorem smb_requests_grow_witness:
  "\<exists>obs e'. parse_dialogue (echoes sample_client 9 [1, 2, 3]) (NewSmb False) = Some (obs, [], e') \<and>
    length (sm_requests (smb_publish obs e')) = length [1 :: u64, 2, 3] \<and> length (sm_observations (smb_publish obs e')) \<le> maxObservations"
  by (rule smb_requests_grow) (simp_all add: sample_client_def)

end
