(* ===== verification/Detect_Text.thy ===== *)
theory Detect_Text
  imports Complex_Main Net_Addr
begin

text \<open>
  The library functions that internal/detect calls: comparison without case, decimal integers,
  the printed form of a duration, hardware addresses, and the calendar in UTC.  Texts are ASCII
  where case matters.
\<close>

definition equal_fold :: "string \<Rightarrow> string \<Rightarrow> bool" where
  "equal_fold a b \<longleftrightarrow> to_lower a = to_lower b"

lemma equal_fold_refl [simp]: "equal_fold a a" by (simp add: equal_fold_def)

text \<open>\<open>strconv.Atoi\<close>.\<close>

fun decimal_value :: "nat \<Rightarrow> string \<Rightarrow> nat option" where
  "decimal_value acc [] = Some acc"
| "decimal_value acc (c # cs) = (if dec_char c then decimal_value (acc * 10 + (of_char c - 48)) cs else None)"

definition atoi :: "string \<Rightarrow> int option" where
  "atoi s =
     (let (neg, ds) = (case s of c # cs \<Rightarrow> if c = CHR ''-'' then (True, cs) else if c = CHR ''+'' then (False, cs) else (False, s)
                       | [] \<Rightarrow> (False, []))
      in if ds = [] then None
         else case decimal_value 0 ds of
                None \<Rightarrow> None
              | Some n \<Rightarrow> let v = (if neg then - int n else int n) in if - (2 ^ 63) \<le> v \<and> v < 2 ^ 63 then Some v else None)"

definition itoa :: "int \<Rightarrow> string" where
  "itoa i = (if i < 0 then CHR ''-'' # dec (nat (- i)) else dec (nat i))"

text \<open>\<open>Time.UnixNano\<close>; the zero instant is the first of January of the year 1.\<close>

definition unix_nano :: "time \<Rightarrow> int" where
  "unix_nano t = t - 62135596800 * second"

text \<open>\<open>Duration.String\<close>: hours, minutes and seconds, or one smaller unit below a second.\<close>

definition fraction_text :: "nat \<Rightarrow> nat \<Rightarrow> string" where
  "fraction_text part digits_wanted =
     (let ds = dec part;
          padded = replicate (digits_wanted - length ds) CHR ''0'' @ ds;
          kept = rev (dropWhile (\<lambda>c. c = CHR ''0'') (rev padded))
      in if kept = [] then [] else CHR ''.'' # kept)"

definition seconds_text :: "nat \<Rightarrow> string" where
  "seconds_text ns = dec (ns div 1000000000) @ fraction_text (ns mod 1000000000) 9 @ ''s''"

definition duration_text :: "duration \<Rightarrow> string" where
  "duration_text d =
     (let ns = nat \<bar>d\<bar>;
          body = (if ns = 0 then ''0s''
                  else if ns < 1000 then dec ns @ ''ns''
                  else if ns < 1000000 then dec (ns div 1000) @ fraction_text (ns mod 1000) 3 @ [CHR 0xC2, CHR 0xB5] @ ''s''
                  else if ns < 1000000000 then dec (ns div 1000000) @ fraction_text (ns mod 1000000) 6 @ ''ms''
                  else let m = ns div 60000000000; h = m div 60
                       in (if h > 0 then dec h @ ''h'' @ dec (m mod 60) @ ''m'' else if m > 0 then dec m @ ''m'' else []) @
                          seconds_text (ns mod 60000000000))
      in if d < 0 then CHR ''-'' # body else body)"

text \<open>Weekday and minute of the day of an instant in UTC; the zero instant is a Monday.\<close>

definition day_length :: duration where "day_length = 24 * 60 * minute"

definition weekday_text :: "time \<Rightarrow> string" where
  "weekday_text t = [''mon'', ''tue'', ''wed'', ''thu'', ''fri'', ''sat'', ''sun''] ! nat ((t div day_length) mod 7)"

definition minute_of_day :: "time \<Rightarrow> int" where
  "minute_of_day t = (t mod day_length) div minute"

text \<open>
  \<open>net.ParseMAC\<close> of the forms with two digits and a colon or a dash between the bytes, which is
  the form the parser prints; the form with dots is an argument error here.
\<close>

fun hex_pairs :: "char \<Rightarrow> string \<Rightarrow> nat list option" where
  "hex_pairs sep (a # b # rest) =
     (case (digit_value 16 a, digit_value 16 b) of
        (Some x, Some y) \<Rightarrow>
          (case rest of
             [] \<Rightarrow> Some [x * 16 + y]
           | c # rest' \<Rightarrow> if c = sep then map_option (\<lambda>ns. (x * 16 + y) # ns) (hex_pairs sep rest') else None)
      | _ \<Rightarrow> None)"
| "hex_pairs sep _ = None"

definition parse_mac :: "string \<Rightarrow> nat list option" where
  "parse_mac s =
     (if length s < 14 then None
      else let sep = s ! 2
           in if sep = CHR '':'' \<or> sep = CHR ''-''
              then (case hex_pairs sep s of
                      Some ns \<Rightarrow> if length ns \<in> {6, 8, 20} then Some ns else None
                    | None \<Rightarrow> None)
              else None)"

definition isMulticastMACAddr :: "string \<Rightarrow> bool" where
  "isMulticastMACAddr mac = (case parse_mac mac of None \<Rightarrow> False | Some hw \<Rightarrow> hw \<noteq> [] \<and> odd (hd hw))"

text \<open>\<open>net.ParseIP(s).IsMulticast()\<close>, and whether \<open>net.ParseIP(s)\<close> succeeds.\<close>

definition parse_ip :: "string \<Rightarrow> addr option" where
  "parse_ip s = (case ParseAddr s of None \<Rightarrow> None | Some a \<Rightarrow> if ad_zone a = [] then Some a else None)"

definition ip_multicast :: "addr \<Rightarrow> bool" where
  "ip_multicast a =
     (let v = ad_value a; first4 = (v mod 2 ^ 32) div 2 ^ 24
      in if \<not> ad_is6 a \<or> v div 2 ^ 32 = 0xFFFF then 224 \<le> first4 \<and> first4 < 240 else v div 2 ^ 120 = 255)"

text \<open>\<open>IP.IsPrivate\<close>, \<open>IP.IsLoopback\<close>; \<open>ip_v4\<close> is \<open>To4\<close>.\<close>

definition ip_v4 :: "addr \<Rightarrow> int option" where
  "ip_v4 a = (if \<not> ad_is6 a \<or> ad_value a div 2 ^ 32 = 0xFFFF then Some (ad_value a mod 2 ^ 32) else None)"

definition ip_private :: "addr \<Rightarrow> bool" where
  "ip_private a =
     (case ip_v4 a of
        Some v \<Rightarrow> v div 2 ^ 24 = 10 \<or> v div 2 ^ 20 = 172 * 16 + 1 \<or> v div 2 ^ 16 = 192 * 256 + 168
      | None \<Rightarrow> ad_value a div 2 ^ 121 = 0x7E)"

definition ip_loopback :: "addr \<Rightarrow> bool" where
  "ip_loopback a = (case ip_v4 a of Some v \<Rightarrow> v div 2 ^ 24 = 127 | None \<Rightarrow> ad_value a = 1)"

text \<open>\<open>strconv.ParseUint(s, 10, 16)\<close>.\<close>

definition parse_u16 :: "string \<Rightarrow> u16 option" where
  "parse_u16 s =
     (if s = [] then None
      else case decimal_value 0 s of None \<Rightarrow> None | Some n \<Rightarrow> if n < 65536 then Some (of_nat n) else None)"

text \<open>\<open>strings.ReplaceAll\<close> of one character.\<close>

definition replace_char :: "char \<Rightarrow> char \<Rightarrow> string \<Rightarrow> string" where
  "replace_char a b = map (\<lambda>c. if c = a then b else c)"

text \<open>The entry \<open>true\<close> of a map to booleans.\<close>

definition mtrue :: "('k, bool) gomap \<Rightarrow> 'k \<Rightarrow> bool" where "mtrue m k \<longleftrightarrow> mget m k = Some True"

definition mtext :: "(string, string) gomap \<Rightarrow> string \<Rightarrow> string" where
  "mtext m k = (case mget m k of Some s \<Rightarrow> s | None \<Rightarrow> [])"

lemma mtrue_mput [simp]: "mtrue (mput k v m) k' = (if k' = k then v else mtrue m k')"
  by (simp add: mtrue_def)

lemma mtrue_mdel [simp]: "mtrue (mdel k m) k' = (k' \<noteq> k \<and> mtrue m k')"
  by (simp add: mtrue_def)

lemma mtrue_Nil [simp]: "\<not> mtrue [] k" by (simp add: mtrue_def)

lemma mtext_mput [simp]: "mtext (mput k v m) k' = (if k' = k then v else mtext m k')"
  by (simp add: mtext_def)

definition mtime :: "(string, time) gomap \<Rightarrow> string \<Rightarrow> time" where
  "mtime m k = (case mget m k of Some t \<Rightarrow> t | None \<Rightarrow> 0)"

lemma mtime_mput [simp]: "mtime (mput k v m) k' = (if k' = k then v else mtime m k')"
  by (simp add: mtime_def)

lemma mtime_mdel [simp]: "mtime (mdel k m) k' = (if k' = k then 0 else mtime m k')"
  by (simp add: mtime_def)

lemma mtext_mdel [simp]: "mtext (mdel k m) k' = (if k' = k then [] else mtext m k')"
  by (simp add: mtext_def)

lemma mget_filter_keys: "mget (filter (\<lambda>(k, _). P k) m) k = (if P k then mget m k else None)"
  by (induction m) (auto simp: mget_def)

lemma mtrue_filter_keys [simp]: "mtrue (filter (\<lambda>(k, _). P k) m) k \<longleftrightarrow> P k \<and> mtrue m k"
  by (simp add: mtrue_def mget_filter_keys)

end
