(* ===== verification/Detect_Catalogue.thy ===== *)
theory Detect_Catalogue
  imports Detect_Text
begin

text \<open>
  internal/detect/rules.go and alert.go: the rules, the types of alerts, and the catalogue of
  built-in rules that the product ships.  A rule is a value: the deep copies that \<open>cloneRule\<close>
  makes are the identity here.
\<close>

section \<open>Rules\<close>

record rule_condition =
  co_Field :: string
  co_Operator :: string
  co_Value :: string

record rule_group =
  gr_Operator :: string
  gr_Conditions :: "rule_condition list"

record rule_suppression =
  su_Mode :: string
  su_IntervalSeconds :: int

record rule =
  ru_ID :: string
  ru_Name :: string
  ru_Description :: string
  ru_Category :: string
  ru_Kind :: string
  ru_Enabled :: bool
  ru_Severity :: string
  ru_SeverityOverride :: bool
  ru_Priority :: int
  ru_Simulation :: bool
  ru_Version :: int
  ru_Groups :: "rule_group list"
  ru_GroupOperator :: string
  ru_Actions :: "string list"
  ru_Suppression :: rule_suppression
  ru_Schedule :: string
  ru_Detector :: string
  ru_MITRETactics :: "string list"
  ru_MITRETechniques :: "string list"
  ru_Prerequisites :: "string list"
  ru_Protocols :: "string list"
  ru_Parameters :: "(string, rat) gomap option"
  ru_Field :: string
  ru_Value :: string
  ru_AlertType :: string
  ru_LastTriggered :: time
  ru_SimulationHits :: u64
  ru_LastSimulationHit :: time

definition RuleKindBuiltin :: string where "RuleKindBuiltin = ''builtin''"
definition RuleKindCustom :: string where "RuleKindCustom = ''custom''"

definition no_suppression :: rule_suppression where
  "no_suppression = \<lparr> su_Mode = [], su_IntervalSeconds = 0 \<rparr>"

definition zero_rule :: rule where
  "zero_rule = \<lparr> ru_ID = [], ru_Name = [], ru_Description = [], ru_Category = [], ru_Kind = [], ru_Enabled = False,
     ru_Severity = [], ru_SeverityOverride = False, ru_Priority = 0, ru_Simulation = False, ru_Version = 0, ru_Groups = [],
     ru_GroupOperator = [], ru_Actions = [], ru_Suppression = no_suppression, ru_Schedule = [], ru_Detector = [],
     ru_MITRETactics = [], ru_MITRETechniques = [], ru_Prerequisites = [], ru_Protocols = [], ru_Parameters = None,
     ru_Field = [], ru_Value = [], ru_AlertType = [], ru_LastTriggered = 0, ru_SimulationHits = 0, ru_LastSimulationHit = 0 \<rparr>"

definition builtin ::
  "string \<Rightarrow> string \<Rightarrow> string \<Rightarrow> string \<Rightarrow> string \<Rightarrow> string \<Rightarrow> string \<Rightarrow> string list \<Rightarrow> string list \<Rightarrow> string list \<Rightarrow> rule" where
  "builtin rid alertType name category severity detector description tactics techniques prerequisites =
     zero_rule\<lparr> ru_ID := rid, ru_Name := name, ru_Description := description, ru_Category := category, ru_Severity := severity,
       ru_AlertType := alertType, ru_Detector := detector, ru_MITRETactics := tactics, ru_MITRETechniques := techniques,
       ru_Prerequisites := prerequisites \<rparr>"

section \<open>Types of alerts\<close>

definition AlertARPSpoof :: string where "AlertARPSpoof = ''arp_spoof''"
definition AlertICSCriticalOperation :: string where "AlertICSCriticalOperation = ''ics_critical_operation''"
definition AlertNewCommunication :: string where "AlertNewCommunication = ''new_communication''"
definition AlertNewAsset :: string where "AlertNewAsset = ''new_asset''"
definition AlertValueOutOfRange :: string where "AlertValueOutOfRange = ''value_out_of_range''"
definition AlertHoneypotProbed :: string where "AlertHoneypotProbed = ''honeypot_probed''"
definition AlertHoneypotLateralMovement :: string where "AlertHoneypotLateralMovement = ''honeypot_lateral_movement''"
definition AlertExternalCommunication :: string where "AlertExternalCommunication = ''external_communication''"
definition AlertSegmentationViolation :: string where "AlertSegmentationViolation = ''segmentation_violation''"
definition AlertReconnaissance :: string where "AlertReconnaissance = ''reconnaissance''"
definition AlertC2Beacon :: string where "AlertC2Beacon = ''c2_beacon''"
definition AlertMaliciousIP :: string where "AlertMaliciousIP = ''malicious_ip''"
definition AlertMaliciousDomain :: string where "AlertMaliciousDomain = ''malicious_domain''"
definition AlertOTValueAnomaly :: string where "AlertOTValueAnomaly = ''ot_value_anomaly''"
definition AlertLateralMovement :: string where "AlertLateralMovement = ''lateral_movement''"
definition AlertC2Correlated :: string where "AlertC2Correlated = ''c2_correlated''"
definition AlertBehaviorFinding :: string where "AlertBehaviorFinding = ''behavior_finding''"
definition AlertBehaviorIncident :: string where "AlertBehaviorIncident = ''behavior_incident_candidate''"
definition AlertGatewayMACChanged :: string where "AlertGatewayMACChanged = ''gateway_mac_changed''"
definition AlertDuplicateIP :: string where "AlertDuplicateIP = ''duplicate_ip''"
definition AlertGratuitousARPStorm :: string where "AlertGratuitousARPStorm = ''gratuitous_arp_storm''"
definition AlertUnauthorizedOTCommand :: string where "AlertUnauthorizedOTCommand = ''unauthorized_ot_command''"
definition AlertControllerProgramChange :: string where "AlertControllerProgramChange = ''controller_program_change''"
definition AlertControllerModeChange :: string where "AlertControllerModeChange = ''controller_mode_change''"
definition AlertControllerConfigChange :: string where "AlertControllerConfigChange = ''controller_configuration_change''"
definition AlertUnauthorizedOTWrite :: string where "AlertUnauthorizedOTWrite = ''unauthorized_ot_write''"
definition AlertNewEngineeringWorkstation :: string where "AlertNewEngineeringWorkstation = ''new_engineering_workstation''"
definition AlertRemoteAdminIntoOT :: string where "AlertRemoteAdminIntoOT = ''remote_admin_into_ot''"
definition AlertSMBToolTransfer :: string where "AlertSMBToolTransfer = ''smb_tool_transfer''"
definition AlertBruteForceIO :: string where "AlertBruteForceIO = ''brute_force_io''"
definition AlertAssetIdentityDrift :: string where "AlertAssetIdentityDrift = ''asset_identity_drift''"
definition AlertDNSTunneling :: string where "AlertDNSTunneling = ''dns_tunneling''"
definition AlertUnexpectedOTProtocol :: string where "AlertUnexpectedOTProtocol = ''unexpected_ot_protocol''"
definition AlertFirmwareChange :: string where "AlertFirmwareChange = ''firmware_change''"
definition AlertUnauthorizedTimeChange :: string where "AlertUnauthorizedTimeChange = ''unauthorized_time_change''"
definition AlertProcessSequenceViolation :: string where "AlertProcessSequenceViolation = ''process_sequence_violation''"
definition AlertOTReportingLoss :: string where "AlertOTReportingLoss = ''ot_reporting_loss''"
definition AlertMalformedOTBurst :: string where "AlertMalformedOTBurst = ''malformed_ot_burst''"
definition AlertFirstSeenRemoteManagement :: string where "AlertFirstSeenRemoteManagement = ''first_seen_remote_management''"
definition AlertDirectOTProtocolAccess :: string where "AlertDirectOTProtocolAccess = ''direct_ot_protocol_access''"
definition AlertSMBIntoOT :: string where "AlertSMBIntoOT = ''smb_into_ot''"
definition AlertUnexpectedEngineeringAccess :: string where "AlertUnexpectedEngineeringAccess = ''unexpected_engineering_access''"
definition AlertLargeControllerTransfer :: string where "AlertLargeControllerTransfer = ''large_controller_transfer''"

definition AlertStatusNew :: string where "AlertStatusNew = ''new''"
definition AlertStatusApproved :: string where "AlertStatusApproved = ''approved''"
definition AlertStatusConfirmed :: string where "AlertStatusConfirmed = ''confirmed''"

definition builtinRuleIDs :: "(string, string) gomap" where
  "builtinRuleIDs =
     [(AlertGatewayMACChanged, ''builtin.gateway_mac_changed''), (AlertDuplicateIP, ''builtin.duplicate_ip''),
      (AlertGratuitousARPStorm, ''builtin.gratuitous_arp_storm''),
      (AlertUnauthorizedOTCommand, ''builtin.unauthorized_ot_command''),
      (AlertControllerProgramChange, ''builtin.controller_program_change''),
      (AlertControllerModeChange, ''builtin.controller_mode_change''),
      (AlertControllerConfigChange, ''builtin.controller_configuration_change''),
      (AlertUnauthorizedOTWrite, ''builtin.unauthorized_ot_write''),
      (AlertNewEngineeringWorkstation, ''builtin.new_engineering_workstation''),
      (AlertSMBToolTransfer, ''builtin.smb_tool_transfer''), (AlertBruteForceIO, ''builtin.brute_force_io''),
      (AlertAssetIdentityDrift, ''builtin.asset_identity_drift''), (AlertDNSTunneling, ''builtin.dns_tunneling''),
      (AlertUnexpectedOTProtocol, ''builtin.unexpected_ot_protocol''), (AlertFirmwareChange, ''builtin.firmware_change''),
      (AlertUnauthorizedTimeChange, ''builtin.unauthorized_time_change''),
      (AlertProcessSequenceViolation, ''builtin.process_sequence_violation''),
      (AlertOTReportingLoss, ''builtin.ot_reporting_loss''), (AlertMalformedOTBurst, ''builtin.malformed_ot_burst''),
      (AlertFirstSeenRemoteManagement, ''builtin.first_seen_remote_management''),
      (AlertRemoteAdminIntoOT, ''builtin.remote_management_into_ot''),
      (AlertDirectOTProtocolAccess, ''builtin.direct_ot_protocol_access''), (AlertSMBIntoOT, ''builtin.smb_into_ot''),
      (AlertUnexpectedEngineeringAccess, ''builtin.unexpected_engineering_access''),
      (AlertLargeControllerTransfer, ''builtin.large_controller_transfer'')]"

definition builtinRuleIDForAlert :: "string \<Rightarrow> string" where
  "builtinRuleIDForAlert t = (case mget builtinRuleIDs t of Some rid \<Rightarrow> rid | None \<Rightarrow> t)"

section \<open>The catalogue\<close>

definition builtin_seed :: "rule list" where
  "builtin_seed =
     [
      builtin ''arp_spoof'' ''arp_spoof'' ''ARP Spoofing / MAC Conflict'' ''security'' ''high''
        ''arp_identity''
        ''Detect conflicting IP/MAC identity claims without automatically trusting the claimant.''
        [''Credential Access'', ''Discovery''] [''ARP spoofing''] [],
      builtin ''builtin.gateway_mac_changed'' ''gateway_mac_changed'' ''Default Gateway MAC Changed'' ''security'' ''critical''
        ''arp_identity''
        ''A gateway/router IP changed its trusted MAC identity.''
        [''Impair Process Control''] [''Network MITM''] [''gateway inference or explicit asset context''],
      builtin ''builtin.duplicate_ip'' ''duplicate_ip'' ''Duplicate IP Address'' ''security'' ''high''
        ''arp_identity''
        ''Multiple MAC addresses are actively claiming the same IP.''
        [''Discovery''] [''Network Service Scanning''] [],
      builtin ''builtin.gratuitous_arp_storm'' ''gratuitous_arp_storm'' ''Gratuitous ARP Storm'' ''network'' ''medium''
        ''arp_identity''
        ''Excessive gratuitous ARP announcements may indicate failover loops, spoofing or address instability.''
        [] [] [],
      builtin ''new_communication'' ''new_communication'' ''New Communication (baseline)'' ''baseline'' ''medium''
        ''communication_baseline''
        ''A communication relationship/service was not present in the trusted baseline.''
        [''Discovery''] [''Network Service Scanning''] [''mature baseline''],
      builtin ''new_asset'' ''new_asset'' ''New Asset (baseline)'' ''asset'' ''medium''
        ''asset_baseline''
        ''An asset appeared after baseline learning and is not yet trusted.''
        [''Discovery''] [''Remote System Discovery''] [''mature baseline''],
      builtin ''value_out_of_range'' ''value_out_of_range'' ''Value Out of Range'' ''ot_tag'' ''medium''
        ''tag_baseline''
        ''An OT process value left its robust learned range.''
        [''Impact''] [''Manipulation of Control''] [''OT tag decoding'', ''mature value baseline''],
      builtin ''ot_value_anomaly'' ''ot_value_anomaly'' ''OT Value Anomaly'' ''ot_tag'' ''high''
        ''ot_value_behavior''
        ''Rate, toggle, stuck or missing-value behavior deviated from learned OT process behavior.''
        [''Impact''] [''Manipulation of Control''] [''OT tag decoding''],
      builtin ''ics_critical_operation'' ''ics_critical_operation'' ''Critical ICS Operation (legacy compatibility)'' ''ics'' ''critical''
        ''ics_semantics''
        ''High-impact OT operations retained under the legacy alert type for compatibility.''
        [''Inhibit Response Function'', ''Impair Process Control''] [''T0806'', ''T0843'', ''T0858''] [''decoded ICS protocol''],
      builtin ''builtin.unauthorized_ot_command'' ''unauthorized_ot_command'' ''Unauthorized OT Command / Rogue Master'' ''ics'' ''critical''
        ''ics_policy''
        ''A control command originated from a source that is not an approved or learned controller master for the target.''
        [''Execution'', ''Impair Process Control''] [''T0848'', ''T0855''] [''decoded ICS request'', ''asset context or mature command relationship''],
      builtin ''builtin.controller_program_change'' ''controller_program_change'' ''Controller Program Download / Online Edit'' ''ics'' ''critical''
        ''ics_semantics''
        ''Controller program download, block transfer or online program modification was observed.''
        [''Persistence'', ''Impact''] [''T0843'', ''T0843.001''] [''decoded controller programming operation''],
      builtin ''builtin.controller_mode_change'' ''controller_mode_change'' ''Controller Mode Change / Stop / Restart'' ''ics'' ''critical''
        ''ics_semantics''
        ''Controller operating mode, stop or restart operation was observed.''
        [''Inhibit Response Function'', ''Impact''] [''T0858''] [''decoded controller control operation''],
      builtin ''builtin.controller_configuration_change'' ''controller_configuration_change'' ''Controller / Device Configuration Change'' ''ics'' ''high''
        ''ics_semantics''
        ''Controller or field-device configuration was modified using a decoded OT management operation.''
        [''Persistence'', ''Impact''] [''T0836''] [''decoded OT configuration-change operation''],
      builtin ''builtin.unauthorized_ot_write'' ''unauthorized_ot_write'' ''OT Write From Unauthorized Source'' ''ics'' ''critical''
        ''ics_policy''
        ''A write/operate/set-point operation came from an unapproved source, independent of whether a numeric value was decoded.''
        [''Execution'', ''Impact''] [''T0855'', ''T0836''] [''decoded OT write/command''],
      builtin ''builtin.brute_force_io'' ''brute_force_io'' ''Brute Force I/O / Command Burst'' ''ics'' ''high''
        ''ics_rate''
        ''Rapid repeated write/operate commands target the same controller or point set.''
        [''Impact''] [''T0806''] [''decoded OT write/command''],
      builtin ''builtin.unauthorized_time_change'' ''unauthorized_time_change'' ''Unauthorized OT Time Change'' ''ics'' ''high''
        ''ics_policy''
        ''An OT clock/time synchronization command originated from an unapproved source or unexpected context.''
        [''Impact''] [''T0832''] [''decoded OT time synchronization operation''],
      builtin ''builtin.process_sequence_violation'' ''process_sequence_violation'' ''Process Command Sequence Violation'' ''ics'' ''high''
        ''ics_sequence''
        ''A stateful control sequence violated expected protocol semantics (for example DNP3 Operate without Select).''
        [''Execution'', ''Impact''] [''T0855''] [''decoded stateful OT protocol''],
      builtin ''builtin.malformed_ot_burst'' ''malformed_ot_burst'' ''Malformed / Exception Burst Against Controller'' ''ics'' ''high''
        ''ics_error_rate''
        ''A controller is receiving a burst of malformed, exception or protocol-error traffic.''
        [''Discovery'', ''Impact''] [''T0814''] [''decoded ICS protocol''],
      builtin ''builtin.ot_reporting_loss'' ''ot_reporting_loss'' ''Loss of OT Reporting / Telemetry'' ''ics'' ''high''
        ''ot_reporting''
        ''A controller/field device that normally reports OT data stopped reporting while the sensor remains healthy.''
        [''Inhibit Response Function''] [''T0827''] [''learned OT reporting cadence''],
      builtin ''builtin.new_engineering_workstation'' ''new_engineering_workstation'' ''New Engineering Workstation'' ''asset'' ''high''
        ''engineering_role''
        ''A new or previously non-engineering asset starts performing engineering/control operations against controllers.''
        [''Initial Access'', ''Execution''] [''T0886''] [''asset context or engineering-operation inference''],
      builtin ''builtin.asset_identity_drift'' ''asset_identity_drift'' ''Asset Identity Drift'' ''asset'' ''high''
        ''identity_drift''
        ''Hostname, vendor/model/serial, role or stable network identity changed unexpectedly.''
        [''Defense Evasion''] [''T0878''] [''passive identity and/or reconnaissance profile''],
      builtin ''builtin.firmware_change'' ''firmware_change'' ''Controller / Device Firmware Change'' ''asset'' ''critical''
        ''recon_change''
        ''A reconnaissance profile reports a firmware version change on an established asset.''
        [''Persistence'', ''Impact''] [''T0857''] [''reconnaissance profile with firmware evidence''],
      builtin ''builtin.unexpected_ot_protocol'' ''unexpected_ot_protocol'' ''Unexpected OT Protocol / Unexpected Port'' ''ics'' ''high''
        ''ics_protocol_baseline''
        ''An asset uses an OT protocol/port relationship not present in its trusted behavior.''
        [''Discovery'', ''Execution''] [''T0846''] [''mature baseline''],
      builtin ''honeypot_probed'' ''honeypot_probed'' ''Honeypot Probed'' ''security'' ''medium''
        ''deception''
        ''Traffic reached a configured deception endpoint.''
        [''Discovery''] [''T0846''] [''deception station configuration''],
      builtin ''honeypot_lateral_movement'' ''honeypot_lateral_movement'' ''Honeypot Lateral Movement'' ''security'' ''critical''
        ''deception''
        ''A deception endpoint initiated outbound traffic.''
        [''Lateral Movement''] [''T0866''] [''deception station configuration''],
      builtin ''external_communication'' ''external_communication'' ''External Communication'' ''security'' ''medium''
        ''external_communication''
        ''An internal asset communicates with a public Internet unicast endpoint; direction follows the connection initiator so replies to outbound sessions are not duplicated as inbound findings.''
        [''Command and Control'', ''Exfiltration''] [''T0885''] [],
      builtin ''segmentation_violation'' ''segmentation_violation'' ''Network Segmentation Policy Violation'' ''network'' ''high''
        ''segmentation_policy''
        ''Observed traffic violates explicit zone/Purdue policy; max-level-jump remains a conservative fallback.''
        [''Lateral Movement''] [''T0866''] [''VLAN/Purdue or asset zone policy''],
      builtin ''reconnaissance'' ''reconnaissance'' ''Reconnaissance / Discovery'' ''network'' ''high''
        ''reconnaissance''
        ''Host, port, ICMP, broadcast, multicast and OT protocol discovery patterns.''
        [''Discovery''] [''T0846''] [],
      builtin ''c2_beacon'' ''c2_beacon'' ''C2 Beaconing'' ''security'' ''high''
        ''beacon''
        ''Suspiciously regular external connection timing.''
        [''Command and Control''] [''T0885''] [''mature behavior''],
      builtin ''c2_correlated'' ''c2_correlated'' ''Correlated C2 Detection'' ''security'' ''high''
        ''c2_correlation''
        ''Correlates DNS and threat-intelligence indicators into C2 evidence.''
        [''Command and Control''] [''T0885''] [''DNS visibility''],
      builtin ''builtin.dns_tunneling'' ''dns_tunneling'' ''DNS Tunneling'' ''security'' ''high''
        ''dns_tunnel''
        ''High-entropy labels, TXT-heavy traffic, unique-subdomain growth and query-size asymmetry indicate possible DNS tunneling.''
        [''Command and Control'', ''Exfiltration''] [''T0885''] [''DNS visibility''],
      builtin ''malicious_ip'' ''malicious_ip'' (''Threat Intelligence '' @ [CHR 0xE2] @ [CHR 0x80] @ [CHR 0x94] @ '' Malicious IP'') ''security'' ''critical''
        ''threat_intel''
        ''Observed IP matched configured threat intelligence.''
        [''Command and Control''] [''T0885''] [''threat intelligence''],
      builtin ''malicious_domain'' ''malicious_domain'' (''Threat Intelligence '' @ [CHR 0xE2] @ [CHR 0x80] @ [CHR 0x94] @ '' Malicious Domain'') ''security'' ''critical''
        ''threat_intel''
        ''Observed DNS name matched configured threat intelligence.''
        [''Command and Control''] [''T0885''] [''threat intelligence'', ''DNS visibility''],
      builtin ''lateral_movement'' ''lateral_movement'' ''Lateral Movement Heuristics'' ''security'' ''high''
        ''lateral_movement''
        ''Administrative fan-out, pivots and large administrative transfers.''
        [''Lateral Movement''] [''T0866'', ''T0867''] [''mature behavior''],
      builtin ''builtin.smb_tool_transfer'' ''smb_tool_transfer'' ''SMB Tool / Executable Transfer Into OT'' ''security'' ''critical''
        ''smb_semantics''
        ''Executable/script transfer or suspicious remote-execution named pipe over SMB toward OT.''
        [''Lateral Movement'', ''Execution''] [''T0867''] [''SMB visibility'', ''OT asset context''],
      builtin ''builtin.first_seen_remote_management'' ''first_seen_remote_management'' ''First-Seen Remote Management Relationship'' ''security'' ''medium''
        ''remote_management''
        (''A new remote-management source'' @ [CHR 0xE2] @ [CHR 0x86] @ [CHR 0x92] @ ''target relationship appears after baseline.'')
        [''Lateral Movement''] [''T0886''] [''mature baseline''],
      builtin ''builtin.remote_management_into_ot'' ''remote_admin_into_ot'' ''Remote Management Into OT'' ''security'' ''high''
        ''remote_management''
        ''Remote-management traffic enters an OT asset from outside its trusted management relationships.''
        [''Lateral Movement''] [''T0886''] [''OT asset context''],
      builtin ''builtin.direct_ot_protocol_access'' ''direct_ot_protocol_access'' ''Direct OT Protocol Access'' ''ics'' ''high''
        ''ics_policy''
        ''A source directly accesses an OT controller protocol without a learned/approved relationship.''
        [''Execution''] [''T0855''] [''OT protocol visibility''],
      builtin ''builtin.smb_into_ot'' ''smb_into_ot'' ''SMB Into OT'' ''security'' ''medium''
        ''remote_management''
        ''SMB traffic crosses into an OT asset from a non-OT or unapproved source.''
        [''Lateral Movement''] [''T0867''] [''OT asset context''],
      builtin ''builtin.unexpected_engineering_access'' ''unexpected_engineering_access'' ''Unexpected Engineering Access'' ''ics'' ''high''
        ''engineering_role''
        ''Engineering-style access to a controller comes from a source not known for that target.''
        [''Execution''] [''T0855''] [''mature ICS relationship''],
      builtin ''builtin.large_controller_transfer'' ''large_controller_transfer'' ''Large Transfer To Controller'' ''ics'' ''high''
        ''controller_transfer''
        ''A large transfer is observed toward a controller/OT service outside normal behavior.''
        [''Lateral Movement'', ''Impact''] [''T0843'', ''T0867''] [''OT protocol visibility''],
      builtin ''behavior_finding'' ''behavior_finding'' ''Network Behavior Finding'' ''behavior'' ''high''
        ''nba''
        ''Network Behavior Analytics finding above configured risk threshold.''
        [''Discovery'', ''Command and Control''] [] [''mature behavior baseline''],
      builtin ''behavior_incident_candidate'' ''behavior_incident_candidate'' ''Network Behavior Incident Candidate'' ''behavior'' ''high''
        ''nba''
        ''Correlated NBA finding that meets incident-candidate threshold.''
        [''Discovery'', ''Command and Control''] [] [''mature behavior baseline'']
     ]"

text \<open>The rules that start in simulation, those about OT protocols, and the default thresholds.\<close>

definition simulated_ids :: "string list" where
  "simulated_ids = [''builtin.first_seen_remote_management'', ''builtin.remote_management_into_ot'',
     ''builtin.direct_ot_protocol_access'', ''builtin.smb_into_ot'', ''builtin.unexpected_engineering_access'',
     ''builtin.large_controller_transfer'']"

definition icsProtocols :: "string list" where
  "icsProtocols = [''Modbus/TCP'', ''S7comm'', ''DNP3'', ''IEC 60870-5-104'', ''BACnet/IP'', ''EtherNet/IP'', ''OPC UA'', ''PROFINET DCP'']"

definition ics_rule_ids :: "string list" where
  "ics_rule_ids = [''builtin.unauthorized_ot_command'', ''builtin.controller_program_change'', ''builtin.controller_mode_change'',
     ''builtin.controller_configuration_change'', ''builtin.unauthorized_ot_write'', ''builtin.brute_force_io'',
     ''builtin.unauthorized_time_change'', ''builtin.process_sequence_violation'', ''builtin.malformed_ot_burst'',
     ''builtin.ot_reporting_loss'', ''builtin.unexpected_ot_protocol'', ''builtin.direct_ot_protocol_access'',
     ''builtin.unexpected_engineering_access'', ''builtin.large_controller_transfer'']"

definition builtin_protocols :: "string \<Rightarrow> string list" where
  "builtin_protocols rid =
     (if rid = ''builtin.smb_tool_transfer'' \<or> rid = ''builtin.smb_into_ot'' then [''SMB2'', ''SMB3 metadata'']
      else if rid = ''builtin.dns_tunneling'' then [''DNS'']
      else if rid \<in> set ics_rule_ids then icsProtocols else [])"

definition builtin_parameters :: "(string, (string, rat) gomap) gomap" where
  "builtin_parameters =
     [(''builtin.brute_force_io'', [(''commands_threshold'', 50), (''window_seconds'', 10)]),
      (''builtin.malformed_ot_burst'', [(''errors_threshold'', 10), (''window_seconds'', 60)]),
      (''builtin.ot_reporting_loss'', [(''min_samples'', 10), (''cadence_multiplier'', 5), (''min_missing_seconds'', 600), (''max_missing_seconds'', 21600)]),
      (''builtin.new_engineering_workstation'', [(''controller_threshold'', 3), (''window_hours'', 24)]),
      (''builtin.large_controller_transfer'', [(''bytes_threshold'', 10485760), (''window_seconds'', 300)]),
      (''builtin.dns_tunneling'', [(''min_queries'', 20), (''window_seconds'', 600), (''score_threshold'', 60)]),
      (''builtin.gratuitous_arp_storm'', [(''events_threshold'', 20), (''window_seconds'', 60)])]"

definition ship_builtin :: "rule \<Rightarrow> rule" where
  "ship_builtin r =
     r\<lparr> ru_Kind := RuleKindBuiltin, ru_Enabled := True, ru_Version := 1, ru_Priority := 100,
        ru_Suppression := (if su_Mode (ru_Suppression r) = [] then \<lparr> su_Mode = ''aggregate'', su_IntervalSeconds = 0 \<rparr> else ru_Suppression r),
        ru_Schedule := (if ru_Schedule r = [] then ''always'' else ru_Schedule r),
        ru_Simulation := (ru_ID r \<in> set simulated_ids),
        ru_Protocols := builtin_protocols (ru_ID r),
        ru_Parameters := mget builtin_parameters (ru_ID r) \<rparr>"

definition builtinRules :: "(string, rule) gomap" where
  "builtinRules = fold (\<lambda>r m. mput (ru_ID r) (ship_builtin r) m) builtin_seed []"

section \<open>Lookup in the catalogue\<close>

lemma fold_mput_distinct:
  "distinct (map f rs) \<Longrightarrow> mget (fold (\<lambda>r m. mput (f r) (g r) m) rs m0) k =
     (case find (\<lambda>r. f r = k) rs of Some r \<Rightarrow> Some (g r) | None \<Rightarrow> mget m0 k)"
proof (induction rs arbitrary: m0)
  case (Cons r rs)
  then have "find (\<lambda>r'. f r' = f r) rs = None" by (auto simp: find_None_iff) (metis image_eqI)
  with Cons show ?case by (auto split: option.split)
qed simp

lemma builtin_seed_ids: "distinct (map ru_ID builtin_seed)"
  by code_simp

lemma builtinRules_get: "mget builtinRules k = map_option ship_builtin (find (\<lambda>r. ru_ID r = k) builtin_seed)"
  using fold_mput_distinct [OF builtin_seed_ids, of ship_builtin "[]" k] by (simp add: builtinRules_def split: option.split)

end
