(* ===== verification/Detect_Policy.thy ===== *)
theory Detect_Policy
  imports Detect_Text
begin

text \<open>
  internal/detect/context_policy.go, and the parts of ics_policy.go that keep relationships: the
  operator's context of an asset, the roles, which relationships are trusted, how they are
  learned, approved and quarantined, and their snapshot.  These fields of the engine are guarded
  by their own mutex (\<open>policyMutex\<close>), so they are a record of their own.  \<open>clk\<close> is \<open>time.Now()\<close>.
\<close>

section \<open>State\<close>

record asset_context =
  ac_IP :: string
  ac_Role :: string
  ac_Criticality :: string
  ac_Zone :: string
  ac_PurdueLevel :: "rat option"

text \<open>The relationships that are learned or approved; the target first, then the source.\<close>

type_synonym relations = "(string, (string, bool) gomap) gomap"

record reporting_state =
  rp_LastSeen :: time
  rp_LastGap :: duration
  rp_TypicalGap :: duration
  rp_Samples :: int
  rp_AlertedAt :: time

record packet_window =
  pw_FirstSeen :: time
  pw_LastSeen :: time
  pw_Bytes :: u64

record external_flow =
  ef_Direction :: string
  ef_Protocol :: string
  ef_LastSeen :: time

record policy =
  po_assetContexts :: "(string, asset_context) gomap"
  po_otAssets :: "(string, bool) gomap"
  po_trustedOTAccess :: relations
  po_trustedOTMasters :: relations
  po_trustedOTTimeSources :: relations
  po_trustedOTProtocols :: relations
  po_trustedRemoteMgmt :: "(string, bool) gomap"
  po_policyLearningQuarantine :: "(string, time) gomap"
  po_engineeringTargets :: "(string, (string, time) gomap) gomap"
  po_remoteTransfers :: "(string, packet_window) gomap"
  po_ioBursts :: "(string, time list) gomap"
  po_dnpSelect :: "(string, time) gomap"
  po_icsErrors :: "(string, time list) gomap"
  po_reporting :: "(string, reporting_state) gomap"
  po_hostnameByMAC :: "(string, string) gomap"
  po_gratuitousARP :: "(string, time list) gomap"
  po_externalPeers :: relations
  po_externalFlows :: "(string, external_flow) gomap"
  po_externalFlowLastSweep :: time
  po_lastPacketObserved :: time

definition NewPolicy :: policy where
  "NewPolicy = \<lparr> po_assetContexts = [], po_otAssets = [], po_trustedOTAccess = [], po_trustedOTMasters = [],
     po_trustedOTTimeSources = [], po_trustedOTProtocols = [], po_trustedRemoteMgmt = [], po_policyLearningQuarantine = [],
     po_engineeringTargets = [], po_remoteTransfers = [], po_ioBursts = [], po_dnpSelect = [], po_icsErrors = [],
     po_reporting = [], po_hostnameByMAC = [], po_gratuitousARP = [], po_externalPeers = [], po_externalFlows = [],
     po_externalFlowLastSweep = 0, po_lastPacketObserved = 0 \<rparr>"

definition relate :: "string \<Rightarrow> string \<Rightarrow> relations \<Rightarrow> relations" where
  "relate dst src r = mput dst (mput src True (case mget r dst of Some m \<Rightarrow> m | None \<Rightarrow> [])) r"

definition unrelate :: "string \<Rightarrow> string \<Rightarrow> relations \<Rightarrow> relations" where
  "unrelate dst src r = (case mget r dst of Some m \<Rightarrow> mput dst (mdel src m) r | None \<Rightarrow> r)"

definition related :: "relations \<Rightarrow> string \<Rightarrow> string \<Rightarrow> bool" where
  "related r dst src = (case mget r dst of Some m \<Rightarrow> mtrue m src | None \<Rightarrow> False)"

lemma related_relate [simp]: "related (relate d s r) d' s' \<longleftrightarrow> (d' = d \<and> s' = s) \<or> related r d' s'"
  by (auto simp: related_def relate_def split: option.splits)

lemma related_unrelate [simp]: "related (unrelate d s r) d' s' \<longleftrightarrow> \<not> (d' = d \<and> s' = s) \<and> related r d' s'"
  by (auto simp: related_def unrelate_def split: option.splits)

lemma related_Nil [simp]: "\<not> related [] d s" by (simp add: related_def)

section \<open>Roles and context\<close>

definition role_has :: "string list \<Rightarrow> string \<Rightarrow> bool" where
  "role_has ws role0 \<longleftrightarrow> (let role = to_lower role0 in \<exists>w \<in> set ws. go_contains role w)"

definition isOTRole :: "string \<Rightarrow> bool" where
  "isOTRole role \<longleftrightarrow> to_lower role = ''ot'' \<or> to_lower role = ''ot_asset'' \<or>
     role_has [''ot asset'', ''plc'', ''rtu'', ''controller'', ''ied'', ''drive'', ''field'', ''sensor'', ''actuator'',
       ''instrument'', ''valve'', ''hmi'', ''scada'', ''historian'', ''engineering'', ''operator'', ''safety''] role"

definition isControllerRole :: "string \<Rightarrow> bool" where
  "isControllerRole role \<longleftrightarrow> role_has [''plc'', ''rtu'', ''controller'', ''ied'', ''drive''] role"

definition isEngineeringRole :: "string \<Rightarrow> bool" where
  "isEngineeringRole role \<longleftrightarrow> role_has [''engineering'', ''programming'', ''maintenance''] role"

definition isControlMasterRole :: "string \<Rightarrow> bool" where
  "isControlMasterRole role \<longleftrightarrow> isEngineeringRole role \<or> role_has [''hmi'', ''scada'', ''operator'', ''master''] role"

definition isEnterpriseRole :: "string \<Rightarrow> bool" where
  "isEnterpriseRole role \<longleftrightarrow> role_has [''enterprise'', ''erp'', ''email'', ''domain'', ''user workstation'', ''office''] role"

definition clean_context :: "asset_context \<Rightarrow> asset_context" where
  "clean_context c = c\<lparr> ac_IP := trim_space (ac_IP c), ac_Role := to_lower (trim_space (ac_Role c)),
     ac_Zone := to_lower (trim_space (ac_Zone c)) \<rparr>"

definition SetAssetPolicyContexts :: "asset_context list \<Rightarrow> policy \<Rightarrow> policy" where
  "SetAssetPolicyContexts contexts p =
     p\<lparr> po_assetContexts := fold (\<lambda>c m. if trim_space (ac_IP c) = [] then m else mput (trim_space (ac_IP c)) (clean_context c) m)
          contexts [] \<rparr>"

definition markOTAsset :: "string \<Rightarrow> policy \<Rightarrow> policy" where
  "markOTAsset ip p = (if ip = [] then p else p\<lparr> po_otAssets := mput ip True (po_otAssets p) \<rparr>)"

definition isOTAsset :: "policy \<Rightarrow> string \<Rightarrow> bool" where
  "isOTAsset p ip \<longleftrightarrow>
     ip \<noteq> [] \<and>
     (case mget (po_assetContexts p) ip of
        Some c \<Rightarrow> isOTRole (ac_Role c) \<or> (case ac_PurdueLevel c of Some l \<Rightarrow> l \<le> 3 | None \<Rightarrow> False)
      | None \<Rightarrow> mtrue (po_otAssets p) ip)"

definition sourceExplicitlyApprovedForOT :: "policy \<Rightarrow> string \<Rightarrow> bool" where
  "sourceExplicitlyApprovedForOT p src = (case mget (po_assetContexts p) src of Some c \<Rightarrow> isControlMasterRole (ac_Role c) | None \<Rightarrow> False)"

definition context_role :: "policy \<Rightarrow> string \<Rightarrow> string" where
  "context_role p ip = (case mget (po_assetContexts p) ip of Some c \<Rightarrow> ac_Role c | None \<Rightarrow> [])"

definition context_zone :: "policy \<Rightarrow> string \<Rightarrow> string" where
  "context_zone p ip = (case mget (po_assetContexts p) ip of Some c \<Rightarrow> ac_Zone c | None \<Rightarrow> [])"

definition same_zone :: "asset_context \<Rightarrow> asset_context \<Rightarrow> bool" where
  "same_zone c t \<longleftrightarrow> ac_Zone c = [] \<or> ac_Zone t = [] \<or> ac_Zone c = ac_Zone t"

definition zone_permits :: "policy \<Rightarrow> asset_context \<Rightarrow> string \<Rightarrow> bool" where
  "zone_permits p c dst = (case mget (po_assetContexts p) dst of Some t \<Rightarrow> same_zone c t | None \<Rightarrow> True)"

section \<open>Keys\<close>

definition relationKey :: "string \<Rightarrow> string \<Rightarrow> u16 \<Rightarrow> string" where
  "relationKey src dst port = src @ ''|'' @ dst @ ''|'' @ dec (unat port)"

definition policyRelationKey :: "string \<Rightarrow> string \<Rightarrow> string" where
  "policyRelationKey src dst = trim_space src @ ''|'' @ trim_space dst"

definition protocol_port :: "string \<Rightarrow> u16 \<Rightarrow> string" where
  "protocol_port protocol port = to_lower protocol @ ''/'' @ dec (unat port)"

section \<open>Quarantine\<close>

text \<open>
  \<open>quarantinePolicyLearning\<close>: the relation may not be learned until the given instant, and
  whatever has been learned of it is removed.
\<close>

definition quarantinePolicyLearning :: "time \<Rightarrow> string \<Rightarrow> string \<Rightarrow> time \<Rightarrow> policy \<Rightarrow> policy" where
  "quarantinePolicyLearning clk src dst until0 p =
     (if src = [] \<or> dst = [] then p
      else
        let until = (if is_zero_time until0 then clk + 24 * 60 * minute else until0);
            key = policyRelationKey src dst;
            prefix = trim_space src @ ''|'' @ trim_space dst @ ''|''
        in p\<lparr> po_policyLearningQuarantine :=
                 (if mtime (po_policyLearningQuarantine p) key < until then mput key until (po_policyLearningQuarantine p)
                  else po_policyLearningQuarantine p),
              po_trustedOTAccess := unrelate dst src (po_trustedOTAccess p),
              po_trustedOTMasters := unrelate dst src (po_trustedOTMasters p),
              po_trustedOTTimeSources := unrelate dst src (po_trustedOTTimeSources p),
              po_trustedRemoteMgmt := filter (\<lambda>(k, _). \<not> has_prefix k prefix) (po_trustedRemoteMgmt p) \<rparr>)"

definition policyLearningAllowed :: "time \<Rightarrow> string \<Rightarrow> string \<Rightarrow> policy \<Rightarrow> bool \<times> policy" where
  "policyLearningAllowed now src dst p =
     (let key = policyRelationKey src dst; until = mtime (po_policyLearningQuarantine p) key
      in if is_zero_time until then (True, p)
         else if now > until then (True, p\<lparr> po_policyLearningQuarantine := mdel key (po_policyLearningQuarantine p) \<rparr>)
         else (False, p))"

section \<open>Learning\<close>

definition learnOTAccess :: "time \<Rightarrow> string \<Rightarrow> string \<Rightarrow> policy \<Rightarrow> policy" where
  "learnOTAccess clk src dst p =
     (if src = [] \<or> dst = [] then p
      else let (allowed, q) = policyLearningAllowed clk src dst p
           in if allowed then q\<lparr> po_trustedOTAccess := relate dst src (po_trustedOTAccess q) \<rparr> else q)"

definition learnOTMaster :: "time \<Rightarrow> string \<Rightarrow> string \<Rightarrow> policy \<Rightarrow> policy" where
  "learnOTMaster clk src dst p =
     (if src = [] \<or> dst = [] then p
      else let (allowed, q) = policyLearningAllowed clk src dst p
           in if allowed then q\<lparr> po_trustedOTMasters := relate dst src (po_trustedOTMasters q) \<rparr> else q)"

definition learnOTTimeSource :: "time \<Rightarrow> string \<Rightarrow> string \<Rightarrow> policy \<Rightarrow> policy" where
  "learnOTTimeSource clk src dst p =
     (if src = [] \<or> dst = [] then p
      else let (allowed, q) = policyLearningAllowed clk src dst p
           in if allowed then q\<lparr> po_trustedOTTimeSources := relate dst src (po_trustedOTTimeSources q) \<rparr> else q)"

definition learnOTProtocolForRelation :: "time \<Rightarrow> string \<Rightarrow> string \<Rightarrow> string \<Rightarrow> u16 \<Rightarrow> policy \<Rightarrow> policy" where
  "learnOTProtocolForRelation clk src dst protocol port p =
     (if dst = [] then p
      else let (allowed, q) = policyLearningAllowed clk src dst p
           in if allowed then q\<lparr> po_trustedOTProtocols := relate dst (protocol_port protocol port) (po_trustedOTProtocols q) \<rparr> else q)"

definition learnOTProtocol :: "string \<Rightarrow> string \<Rightarrow> u16 \<Rightarrow> policy \<Rightarrow> policy" where
  "learnOTProtocol dst protocol port p =
     (if dst = [] then p
      else p\<lparr> po_trustedOTProtocols := relate dst (protocol_port protocol port) (po_trustedOTProtocols p) \<rparr>)"

definition learnRemoteManagement :: "time \<Rightarrow> string \<Rightarrow> string \<Rightarrow> u16 \<Rightarrow> policy \<Rightarrow> policy" where
  "learnRemoteManagement clk src dst port p =
     (if src = [] \<or> dst = [] \<or> port = 0 then p
      else let (allowed, q) = policyLearningAllowed clk src dst p
           in if allowed then q\<lparr> po_trustedRemoteMgmt := mput (relationKey src dst port) True (po_trustedRemoteMgmt q) \<rparr> else q)"

definition learnOTRelationship :: "time \<Rightarrow> string \<Rightarrow> string \<Rightarrow> string \<Rightarrow> u16 \<Rightarrow> policy \<Rightarrow> policy" where
  "learnOTRelationship clk src dst protocol port p =
     learnOTProtocol dst protocol port (learnOTMaster clk src dst (learnOTAccess clk src dst p))"

section \<open>Approval by an analyst\<close>

definition lift_quarantine :: "string \<Rightarrow> string \<Rightarrow> policy \<Rightarrow> policy" where
  "lift_quarantine src dst p = p\<lparr> po_policyLearningQuarantine := mdel (policyRelationKey src dst) (po_policyLearningQuarantine p) \<rparr>"

definition approveOTAccessRelationship :: "string \<Rightarrow> string \<Rightarrow> string \<Rightarrow> u16 \<Rightarrow> bool \<Rightarrow> policy \<Rightarrow> policy" where
  "approveOTAccessRelationship src dst protocol port commandAuthority p =
     (if src = [] \<or> dst = [] then p
      else
        let q = lift_quarantine src dst p;
            q1 = q\<lparr> po_trustedOTAccess := relate dst src (po_trustedOTAccess q) \<rparr>;
            q2 = (if commandAuthority then q1\<lparr> po_trustedOTMasters := relate dst src (po_trustedOTMasters q1) \<rparr> else q1)
        in if trim_space protocol \<noteq> [] \<and> port \<noteq> 0
           then q2\<lparr> po_trustedOTProtocols := relate dst (protocol_port (trim_space protocol) port) (po_trustedOTProtocols q2) \<rparr>
           else q2)"

definition approveOTTimeSource :: "string \<Rightarrow> string \<Rightarrow> policy \<Rightarrow> policy" where
  "approveOTTimeSource src dst p =
     (if src = [] \<or> dst = [] then p
      else let q = lift_quarantine src dst p in q\<lparr> po_trustedOTTimeSources := relate dst src (po_trustedOTTimeSources q) \<rparr>)"

definition approveRemoteManagement :: "string \<Rightarrow> string \<Rightarrow> u16 \<Rightarrow> policy \<Rightarrow> policy" where
  "approveRemoteManagement src dst port p =
     (if src = [] \<or> dst = [] \<or> port = 0 then p
      else let q = lift_quarantine src dst p
           in q\<lparr> po_trustedRemoteMgmt := mput (relationKey src dst port) True (po_trustedRemoteMgmt q) \<rparr>)"

section \<open>Decisions\<close>

definition master_by_role :: "policy \<Rightarrow> string \<Rightarrow> string \<Rightarrow> bool" where
  "master_by_role p src dst =
     (case mget (po_assetContexts p) src of Some c \<Rightarrow> isControlMasterRole (ac_Role c) \<and> zone_permits p c dst | None \<Rightarrow> False)"

definition isTrustedOTAccess :: "policy \<Rightarrow> string \<Rightarrow> string \<Rightarrow> bool" where
  "isTrustedOTAccess p src dst \<longleftrightarrow> master_by_role p src dst \<or> related (po_trustedOTAccess p) dst src"

definition isTrustedOTMaster :: "policy \<Rightarrow> string \<Rightarrow> string \<Rightarrow> bool" where
  "isTrustedOTMaster p src dst \<longleftrightarrow> master_by_role p src dst \<or> related (po_trustedOTMasters p) dst src"

definition isExpectedOTProtocol :: "policy \<Rightarrow> string \<Rightarrow> string \<Rightarrow> u16 \<Rightarrow> bool" where
  "isExpectedOTProtocol p dst protocol port =
     (case mget (po_trustedOTProtocols p) dst of
        Some x \<Rightarrow> if x = [] then \<not> isOTAsset p dst else mtrue x (protocol_port protocol port)
      | None \<Rightarrow> \<not> isOTAsset p dst)"

definition isTrustedRemoteManagement :: "policy \<Rightarrow> string \<Rightarrow> string \<Rightarrow> u16 \<Rightarrow> bool" where
  "isTrustedRemoteManagement p src dst port \<longleftrightarrow>
     mtrue (po_trustedRemoteMgmt p) (relationKey src dst port) \<or>
     (case (mget (po_assetContexts p) src, mget (po_assetContexts p) dst) of
        (Some c, Some t) \<Rightarrow> isEngineeringRole (ac_Role c) \<and> same_zone c t
      | _ \<Rightarrow> False)"

definition time_role :: "string \<Rightarrow> bool" where "time_role role = role_has [''time'', ''ntp'', ''gps''] role"

definition sourceCanSetTime :: "policy \<Rightarrow> string \<Rightarrow> string \<Rightarrow> bool" where
  "sourceCanSetTime p src dst \<longleftrightarrow>
     (case mget (po_assetContexts p) src of Some c \<Rightarrow> time_role (ac_Role c) \<and> zone_permits p c dst | None \<Rightarrow> False) \<or>
     related (po_trustedOTTimeSources p) dst src"

text \<open>The words are searched for in the role as it is here; \<open>SetAssetPolicyContexts\<close> has lowered it.\<close>

definition sourceRoleIsExplicitlyUntrusted :: "policy \<Rightarrow> string \<Rightarrow> bool" where
  "sourceRoleIsExplicitlyUntrusted p src \<longleftrightarrow>
     (case parse_ip (trim_space src) of Some a \<Rightarrow> \<not> ip_private a \<and> \<not> ip_loopback a | None \<Rightarrow> False) \<or>
     (case mget (po_assetContexts p) src of
        Some c \<Rightarrow> ac_Role c \<noteq> [] \<and>
          (isEnterpriseRole (ac_Role c) \<or>
           (\<not> isControlMasterRole (ac_Role c) \<and> \<not> (\<exists>w \<in> set [''time'', ''ntp'', ''gps'']. go_contains (ac_Role c) w)))
      | None \<Rightarrow> False)"

section \<open>Snapshot\<close>

record segmentation_rule =
  sr_SourceZone :: string
  sr_DestinationZone :: string
  sr_Protocol :: string
  sr_Direction :: string
  sr_Allowed :: bool

text \<open>The fields that \<open>ipVLANMutex\<close> guards.\<close>

record segmentation =
  sg_Enabled :: bool
  sg_Managed :: bool
  sg_vlanLevels :: "(u16, rat) gomap"
  sg_maxLevelJump :: rat
  sg_localEnabled :: bool
  sg_localVLANLevels :: "(u16, rat) gomap"
  sg_localMaxLevelJump :: rat
  sg_Policy :: "segmentation_rule list"
  sg_ipVLAN :: "(string, u16) gomap"
  sg_ipVLANSeen :: "(string, time) gomap"

record reporting_snapshot =
  rs_LastSeen :: time
  rs_LastGap :: duration
  rs_TypicalGap :: duration
  rs_Samples :: int

text \<open>A nil map is \<open>None\<close>: JSON does not store an empty map, and restores it as nil.\<close>

record policy_snapshot =
  ps_TrustedOTAccess :: "relations option"
  ps_TrustedOTMasters :: "relations option"
  ps_TrustedOTTimeSources :: "relations option"
  ps_TrustedOTProtocols :: "relations option"
  ps_TrustedRemoteMgmt :: "(string, bool) gomap option"
  ps_OTAssets :: "(string, bool) gomap option"
  ps_HostnameByMAC :: "(string, string) gomap option"
  ps_Reporting :: "(string, reporting_snapshot) gomap option"
  ps_ManagedSegmentation :: bool
  ps_VLANLevels :: "(u16, rat) gomap option"
  ps_MaxLevelJump :: rat

definition snapshot_reporting :: "reporting_state \<Rightarrow> reporting_snapshot" where
  "snapshot_reporting st = \<lparr> rs_LastSeen = rp_LastSeen st, rs_LastGap = rp_LastGap st, rs_TypicalGap = rp_TypicalGap st, rs_Samples = rp_Samples st \<rparr>"

definition restore_reporting :: "reporting_snapshot \<Rightarrow> reporting_state" where
  "restore_reporting st = \<lparr> rp_LastSeen = rs_LastSeen st, rp_LastGap = rs_LastGap st, rp_TypicalGap = rs_TypicalGap st,
     rp_Samples = rs_Samples st, rp_AlertedAt = 0 \<rparr>"

definition PolicyLearningSnapshot :: "policy \<Rightarrow> segmentation \<Rightarrow> policy_snapshot" where
  "PolicyLearningSnapshot p g =
     \<lparr> ps_TrustedOTAccess = Some (po_trustedOTAccess p), ps_TrustedOTMasters = Some (po_trustedOTMasters p),
       ps_TrustedOTTimeSources = Some (po_trustedOTTimeSources p), ps_TrustedOTProtocols = Some (po_trustedOTProtocols p),
       ps_TrustedRemoteMgmt = Some (po_trustedRemoteMgmt p), ps_OTAssets = Some (po_otAssets p),
       ps_HostnameByMAC = Some (po_hostnameByMAC p),
       ps_Reporting = Some (map (\<lambda>(k, st). (k, snapshot_reporting st)) (po_reporting p)),
       ps_ManagedSegmentation = sg_Managed g, ps_VLANLevels = (if sg_Managed g then Some (sg_vlanLevels g) else None),
       ps_MaxLevelJump = sg_maxLevelJump g \<rparr>"

text \<open>What is read back from the database: the option \<open>omitempty\<close> drops the maps without entries.\<close>

definition omit_empty :: "'a list option \<Rightarrow> 'a list option" where
  "omit_empty m = (if m = Some [] then None else m)"

definition stored_snapshot :: "policy_snapshot \<Rightarrow> policy_snapshot" where
  "stored_snapshot s = s\<lparr> ps_TrustedOTAccess := omit_empty (ps_TrustedOTAccess s), ps_TrustedOTMasters := omit_empty (ps_TrustedOTMasters s),
     ps_TrustedOTTimeSources := omit_empty (ps_TrustedOTTimeSources s), ps_TrustedOTProtocols := omit_empty (ps_TrustedOTProtocols s),
     ps_TrustedRemoteMgmt := omit_empty (ps_TrustedRemoteMgmt s), ps_OTAssets := omit_empty (ps_OTAssets s),
     ps_HostnameByMAC := omit_empty (ps_HostnameByMAC s), ps_Reporting := omit_empty (ps_Reporting s),
     ps_VLANLevels := omit_empty (ps_VLANLevels s) \<rparr>"

definition validSegmentationPurdueLevel :: "rat \<Rightarrow> bool" where
  "validSegmentationPurdueLevel l \<longleftrightarrow> l \<in> {0, 1, 2, 3, 7 / 2, 4, 5}"

definition valid_levels :: "(u16, rat) gomap \<Rightarrow> (u16, rat) gomap" where
  "valid_levels m = filter (\<lambda>(vlan, level). vlan \<le> 4094 \<and> validSegmentationPurdueLevel level) m"

definition level_jump_or_one :: "rat \<Rightarrow> rat" where
  "level_jump_or_one j = (if j \<le> 0 \<or> j > 5 then 1 else j)"

definition restore_learning :: "policy_snapshot \<Rightarrow> policy \<Rightarrow> policy" where
  "restore_learning s p =
     p\<lparr> po_trustedOTAccess := (case ps_TrustedOTAccess s of Some m \<Rightarrow> m
                               | None \<Rightarrow> (case ps_TrustedOTMasters s of Some m \<Rightarrow> m | None \<Rightarrow> po_trustedOTAccess p)),
        po_trustedOTMasters := (case ps_TrustedOTMasters s of Some m \<Rightarrow> m | None \<Rightarrow> po_trustedOTMasters p),
        po_trustedOTTimeSources := (case ps_TrustedOTTimeSources s of Some m \<Rightarrow> m | None \<Rightarrow> po_trustedOTTimeSources p),
        po_trustedOTProtocols := (case ps_TrustedOTProtocols s of Some m \<Rightarrow> m | None \<Rightarrow> po_trustedOTProtocols p),
        po_trustedRemoteMgmt := (case ps_TrustedRemoteMgmt s of Some m \<Rightarrow> m | None \<Rightarrow> po_trustedRemoteMgmt p),
        po_otAssets := (case ps_OTAssets s of Some m \<Rightarrow> m | None \<Rightarrow> po_otAssets p),
        po_hostnameByMAC := (case ps_HostnameByMAC s of Some m \<Rightarrow> m | None \<Rightarrow> po_hostnameByMAC p),
        po_reporting := (case ps_Reporting s of Some m \<Rightarrow> map (\<lambda>(k, st). (k, restore_reporting st)) m | None \<Rightarrow> po_reporting p) \<rparr>"

definition restore_segmentation :: "policy_snapshot \<Rightarrow> segmentation \<Rightarrow> segmentation" where
  "restore_segmentation s g =
     (if ps_ManagedSegmentation s then
        let levels = (case ps_VLANLevels s of Some m \<Rightarrow> valid_levels m | None \<Rightarrow> [])
        in g\<lparr> sg_vlanLevels := levels, sg_maxLevelJump := level_jump_or_one (ps_MaxLevelJump s), sg_Managed := True,
              sg_Enabled := (levels \<noteq> [] \<or> sg_Policy g \<noteq> []) \<rparr>
      else g)"

definition RestorePolicyLearning :: "policy_snapshot \<Rightarrow> policy \<times> segmentation \<Rightarrow> policy \<times> segmentation" where
  "RestorePolicyLearning s = (\<lambda>(p, g). (restore_learning s p, restore_segmentation s g))"

definition resetPolicyLearningState :: "policy \<Rightarrow> policy" where
  "resetPolicyLearningState p = NewPolicy\<lparr> po_assetContexts := po_assetContexts p \<rparr>"

section \<open>A quarantined relation stays untrusted\<close>

text \<open>Everything that happens to the relationships without an analyst, with the time of the event.\<close>

datatype policy_event =
    PE_access string string
  | PE_master string string
  | PE_time_source string string
  | PE_protocol string string string u16
  | PE_remote string string u16
  | PE_quarantine string string time
  | PE_mark string
  | PE_contexts "asset_context list"

fun policy_step :: "time \<times> policy_event \<Rightarrow> policy \<Rightarrow> policy" where
  "policy_step (t, PE_access s d) p = learnOTAccess t s d p"
| "policy_step (t, PE_master s d) p = learnOTMaster t s d p"
| "policy_step (t, PE_time_source s d) p = learnOTTimeSource t s d p"
| "policy_step (t, PE_protocol s d n port) p = learnOTProtocolForRelation t s d n port p"
| "policy_step (t, PE_remote s d port) p = learnRemoteManagement t s d port p"
| "policy_step (t, PE_quarantine s d u) p = quarantinePolicyLearning t s d u p"
| "policy_step (t, PE_mark ip) p = markOTAsset ip p"
| "policy_step (t, PE_contexts cs) p = SetAssetPolicyContexts cs p"

text \<open>An address as the parser prints it: no separator, no blanks at its ends.\<close>

definition plain_ip :: "string \<Rightarrow> bool" where
  "plain_ip s \<longleftrightarrow> s \<noteq> [] \<and> trim_space s = s \<and> CHR ''|'' \<notin> set s"

fun event_plain :: "policy_event \<Rightarrow> bool" where
  "event_plain (PE_access s d) = (plain_ip s \<and> plain_ip d)"
| "event_plain (PE_master s d) = (plain_ip s \<and> plain_ip d)"
| "event_plain (PE_time_source s d) = (plain_ip s \<and> plain_ip d)"
| "event_plain (PE_protocol s d n port) = (plain_ip s \<and> plain_ip d)"
| "event_plain (PE_remote s d port) = (plain_ip s \<and> plain_ip d)"
| "event_plain (PE_quarantine s d u) = (plain_ip s \<and> plain_ip d)"
| "event_plain (PE_mark ip) = True"
| "event_plain (PE_contexts cs) = True"

definition untrusted :: "string \<Rightarrow> string \<Rightarrow> policy \<Rightarrow> bool" where
  "untrusted src dst p \<longleftrightarrow>
     \<not> related (po_trustedOTAccess p) dst src \<and> \<not> related (po_trustedOTMasters p) dst src \<and>
     \<not> related (po_trustedOTTimeSources p) dst src \<and> (\<forall>port. \<not> mtrue (po_trustedRemoteMgmt p) (relationKey src dst port))"

definition quarantined :: "string \<Rightarrow> string \<Rightarrow> time \<Rightarrow> policy \<Rightarrow> bool" where
  "quarantined src dst until p \<longleftrightarrow> until \<le> mtime (po_policyLearningQuarantine p) (policyRelationKey src dst) \<and> untrusted src dst p"

lemma plain_ip_Nil [simp]: "\<not> plain_ip []" by (simp add: plain_ip_def)

lemma policyRelationKey_plain:
  "plain_ip s \<Longrightarrow> plain_ip d \<Longrightarrow> plain_ip s' \<Longrightarrow> plain_ip d' \<Longrightarrow>
    policyRelationKey s d = policyRelationKey s' d' \<longleftrightarrow> s = s' \<and> d = d'"
  using split_at_last_eq [of s "CHR ''|''" d s' d'] by (auto simp: policyRelationKey_def plain_ip_def)

lemma relationKey_plain:
  "plain_ip d \<Longrightarrow> plain_ip d' \<Longrightarrow> relationKey s d port = relationKey s' d' port' \<Longrightarrow> s = s' \<and> d = d' \<and> port = port'"
proof -
  assume d: "plain_ip d" "plain_ip d'" and eq: "relationKey s d port = relationKey s' d' port'"
  have "(s @ ''|'' @ d) @ CHR ''|'' # dec (unat port) = (s' @ ''|'' @ d') @ CHR ''|'' # dec (unat port')"
    using eq by (simp add: relationKey_def)
  then have 1: "s @ ''|'' @ d = s' @ ''|'' @ d' \<and> dec (unat port) = dec (unat port')"
    by (rule split_at_last_eq) simp_all
  then have "s @ CHR ''|'' # d = s' @ CHR ''|'' # d'" by simp
  then have "s = s' \<and> d = d'" by (rule split_at_last_eq) (use d in \<open>simp_all add: plain_ip_def\<close>)
  with 1 show ?thesis by (simp add: word_unat_eq_iff)
qed

lemma relationKey_prefix:
  "plain_ip s \<Longrightarrow> plain_ip d \<Longrightarrow> has_prefix (relationKey s d port) (trim_space s @ ''|'' @ trim_space d @ ''|'')"
  by (simp add: plain_ip_def relationKey_def has_prefix_def)

lemma allowed_other_fields:
  "policyLearningAllowed now s d p = (ok, q) \<Longrightarrow>
    untrusted src dst q = untrusted src dst p \<and> po_trustedOTAccess q = po_trustedOTAccess p \<and>
    po_trustedOTMasters q = po_trustedOTMasters p \<and> po_trustedOTTimeSources q = po_trustedOTTimeSources p \<and>
    po_trustedRemoteMgmt q = po_trustedRemoteMgmt p"
  by (auto simp: policyLearningAllowed_def Let_def untrusted_def split: if_splits)

lemma allowed_quarantined:
  assumes "quarantined src dst until p" and "plain_ip src" "plain_ip dst" "plain_ip s" "plain_ip d" and "now \<le> until" "0 < until"
    and "policyLearningAllowed now s d p = (ok, q)"
  shows "quarantined src dst until q \<and> (ok \<longrightarrow> (s, d) \<noteq> (src, dst))"
proof (cases "(s, d) = (src, dst)")
  case True
  with assms show ?thesis
    by (auto simp: policyLearningAllowed_def quarantined_def is_zero_time_def Let_def split: if_splits)
next
  case False
  with assms policyRelationKey_plain [of src dst s d] show ?thesis
    by (auto simp: policyLearningAllowed_def quarantined_def untrusted_def Let_def split: if_splits)
qed

lemma quarantined_remote:
  assumes "quarantined src dst until q" and "plain_ip d" "plain_ip dst" and "(s, d) \<noteq> (src, dst)"
  shows "quarantined src dst until (q\<lparr> po_trustedRemoteMgmt := mput (relationKey s d port) True (po_trustedRemoteMgmt q) \<rparr>)"
proof -
  have "relationKey src dst port' \<noteq> relationKey s d port" for port'
    using relationKey_plain [OF assms(3,2)] assms(4) by auto
  with assms(1) show ?thesis by (simp add: quarantined_def untrusted_def)
qed

lemma policy_step_quarantined:
  assumes q: "quarantined src dst until p" and pl: "plain_ip src" "plain_ip dst" and t: "t \<le> until" "0 < until"
    and e: "event_plain e"
  shows "quarantined src dst until (policy_step (t, e) p)"
proof (cases e)
  case (PE_access s d)
  obtain ok p' where a: "policyLearningAllowed t s d p = (ok, p')" by fastforce
  with allowed_quarantined [OF q pl _ _ t a] e PE_access show ?thesis
    by (auto simp: learnOTAccess_def quarantined_def untrusted_def)
next
  case (PE_master s d)
  obtain ok p' where a: "policyLearningAllowed t s d p = (ok, p')" by fastforce
  with allowed_quarantined [OF q pl _ _ t a] e PE_master show ?thesis
    by (auto simp: learnOTMaster_def quarantined_def untrusted_def)
next
  case (PE_time_source s d)
  obtain ok p' where a: "policyLearningAllowed t s d p = (ok, p')" by fastforce
  with allowed_quarantined [OF q pl _ _ t a] e PE_time_source show ?thesis
    by (auto simp: learnOTTimeSource_def quarantined_def untrusted_def)
next
  case (PE_protocol s d n port)
  obtain ok p' where a: "policyLearningAllowed t s d p = (ok, p')" by fastforce
  with allowed_quarantined [OF q pl _ _ t a] e PE_protocol show ?thesis
    by (auto simp: learnOTProtocolForRelation_def quarantined_def untrusted_def)
next
  case (PE_remote s d port)
  obtain ok p' where a: "policyLearningAllowed t s d p = (ok, p')" by fastforce
  with allowed_quarantined [OF q pl _ _ t a] e PE_remote have "quarantined src dst until p'" "ok \<Longrightarrow> (s, d) \<noteq> (src, dst)" by auto
  with quarantined_remote [of src dst until p' d s port] q e PE_remote pl a show ?thesis
    by (simp add: learnRemoteManagement_def)
next
  case (PE_quarantine s d u)
  with q show ?thesis
    by (auto simp: quarantinePolicyLearning_def quarantined_def untrusted_def Let_def)
next
  case (PE_mark ip)
  with q show ?thesis by (simp add: markOTAsset_def quarantined_def untrusted_def)
next
  case (PE_contexts cs)
  with q show ?thesis by (simp add: SetAssetPolicyContexts_def quarantined_def untrusted_def)
qed

lemma policy_run_quarantined:
  assumes "quarantined src dst until p" and "plain_ip src" "plain_ip dst" and "0 < until"
    and "\<forall>(t, e) \<in> set es. t \<le> until \<and> event_plain e"
  shows "quarantined src dst until (fold policy_step es p)"
  using assms(1,5)
proof (induction es arbitrary: p)
  case (Cons te es)
  obtain t e where te: "te = (t, e)" by fastforce
  with Cons.prems policy_step_quarantined [OF Cons.prems(1) assms(2,3) _ assms(4), of t e]
  have "quarantined src dst until (policy_step te p)" by simp
  with Cons.IH Cons.prems(2) show ?case by simp
qed simp

lemma quarantine_starts:
  "plain_ip src \<Longrightarrow> plain_ip dst \<Longrightarrow> 0 < until \<Longrightarrow> quarantined src dst until (quarantinePolicyLearning clk src dst until p)"
  using relationKey_prefix [of src dst]
  by (auto simp: quarantinePolicyLearning_def quarantined_def untrusted_def Let_def is_zero_time_def plain_ip_def)

text \<open>
  C28: Traffic that a security detector has quarantined is not learned as trusted.  From the moment at
  which the relation between two addresses, as the parser prints them, is quarantined until the
  quarantine ends, no sequence of learning events, further quarantines, marks of OT devices and changes
  of the operator's context makes the relation trusted for access, command, time or remote management
  by what was learned.  (Approvals, restarts and resets of learning are not among the events: an approval
  is meant to trust, and the other two forget the quarantine.)
\<close>

theorem quarantine_blocks_learning:
  assumes "plain_ip src" and "plain_ip dst" and "0 < until"
    and "\<forall>(t, e) \<in> set es. t \<le> until \<and> event_plain e"
  shows "untrusted src dst (fold policy_step es (quarantinePolicyLearning clk src dst until p))"
  using policy_run_quarantined [OF quarantine_starts [OF assms(1-3)] assms] by (simp add: quarantined_def)

theorem quarantine_blocks_learning_witness:
  "untrusted ''10.0.0.9'' ''10.0.0.5''
     (fold policy_step [(5, PE_access ''10.0.0.9'' ''10.0.0.5''), (6, PE_master ''10.0.0.9'' ''10.0.0.5''), (7, PE_remote ''10.0.0.9'' ''10.0.0.5'' 22)]
        (quarantinePolicyLearning 1 ''10.0.0.9'' ''10.0.0.5'' 100 (learnOTAccess 1 ''10.0.0.9'' ''10.0.0.5'' NewPolicy)))"
proof -
  have pl: "plain_ip ''10.0.0.9''" "plain_ip ''10.0.0.5''" by code_simp+
  then show ?thesis by (intro quarantine_blocks_learning) simp_all
qed

section \<open>Restart\<close>

text \<open>What a restarted sensor knows: its fresh state with the stored snapshot restored into it.\<close>

definition restarted :: "policy \<Rightarrow> segmentation \<Rightarrow> segmentation \<Rightarrow> policy \<times> segmentation" where
  "restarted p g configured = RestorePolicyLearning (stored_snapshot (PolicyLearningSnapshot p g)) (NewPolicy, configured)"

lemma omit_empty_case: "(case omit_empty (Some m) of Some x \<Rightarrow> f x | None \<Rightarrow> d) = (if m = [] then d else f m)"
  by (simp add: omit_empty_def)

lemma restarted_learning:
  "fst (restarted p g g0) =
     \<lparr> po_assetContexts = [], po_otAssets = po_otAssets p,
       po_trustedOTAccess = (if po_trustedOTAccess p = [] then po_trustedOTMasters p else po_trustedOTAccess p),
       po_trustedOTMasters = po_trustedOTMasters p, po_trustedOTTimeSources = po_trustedOTTimeSources p,
       po_trustedOTProtocols = po_trustedOTProtocols p, po_trustedRemoteMgmt = po_trustedRemoteMgmt p,
       po_policyLearningQuarantine = [], po_engineeringTargets = [], po_remoteTransfers = [], po_ioBursts = [],
       po_dnpSelect = [], po_icsErrors = [], po_reporting = map (\<lambda>(k, st). (k, st\<lparr> rp_AlertedAt := 0 \<rparr>)) (po_reporting p),
       po_hostnameByMAC = po_hostnameByMAC p, po_gratuitousARP = [], po_externalPeers = [], po_externalFlows = [],
       po_externalFlowLastSweep = 0, po_lastPacketObserved = 0 \<rparr>"
proof -
  have r: "map ((\<lambda>(k, st). (k, restore_reporting st)) \<circ> (\<lambda>(k, st). (k, snapshot_reporting st))) m = map (\<lambda>(k, st). (k, st\<lparr> rp_AlertedAt := 0 \<rparr>)) m"
    for m :: "(string, reporting_state) gomap"
    by (induction m) (auto simp: restore_reporting_def snapshot_reporting_def)
  show ?thesis
    by (auto simp: restarted_def RestorePolicyLearning_def restore_learning_def stored_snapshot_def
        PolicyLearningSnapshot_def omit_empty_def NewPolicy_def r)
qed

text \<open>
  C36: What was learned and approved survives a restart.  With the same operator's context, a sensor that
  restores its stored snapshot takes the same decisions on command, time, protocol and remote
  management as before, and the same on access, except where no access relation at all was stored:
  then, as after the upgrade of a sensor that had none, those trusted to command are trusted to access.
\<close>

theorem policy_snapshot_roundtrip:
  "let q = (fst (restarted p g g0))\<lparr> po_assetContexts := po_assetContexts p \<rparr> in
     isTrustedOTAccess q src dst =
       (isTrustedOTAccess p src dst \<or> po_trustedOTAccess p = [] \<and> related (po_trustedOTMasters p) dst src) \<and>
     isTrustedOTMaster q src dst = isTrustedOTMaster p src dst \<and>
     sourceCanSetTime q src dst = sourceCanSetTime p src dst \<and>
     isExpectedOTProtocol q dst protocol port = isExpectedOTProtocol p dst protocol port \<and>
     isTrustedRemoteManagement q src dst port = isTrustedRemoteManagement p src dst port \<and> isOTAsset q dst = isOTAsset p dst"
proof -
  have ot: "isOTAsset ((fst (restarted p g g0))\<lparr> po_assetContexts := po_assetContexts p \<rparr>) dst = isOTAsset p dst"
    by (simp add: restarted_learning isOTAsset_def split: option.splits)
  have "\<not> related [] dst src" by (simp add: related_def mget_def)
  then show ?thesis
    unfolding Let_def isExpectedOTProtocol_def ot
    by (auto simp: restarted_learning isTrustedOTAccess_def isTrustedOTMaster_def sourceCanSetTime_def
        isTrustedRemoteManagement_def master_by_role_def zone_permits_def split: option.splits)
qed

text \<open>
  The quarantine is not part of the snapshot: a relation that was quarantined for a day is learned
  as a trusted master right after a restart.
\<close>

theorem restart_forgets_quarantine:
  assumes "src \<noteq> []" and "dst \<noteq> []"
  shows "related (po_trustedOTMasters (learnOTMaster now src dst (fst (restarted (quarantinePolicyLearning clk src dst until p) g g0)))) dst src"
  using assms by (simp add: restarted_learning learnOTMaster_def policyLearningAllowed_def mtime_def is_zero_time_def)

end
