(* ===== verification/Detect_Alert.thy ===== *)
theory Detect_Alert
  imports Detect_Catalogue Detect_Policy
begin

text \<open>
  internal/detect: the state of the detection engine that its detectors share, and the life of an
  alert: raising it under the policy of its rule, episodes, review, synchronisation, pruning and
  restoring.  The operations run under the mutex of the engine.  \<open>clk\<close> is \<open>time.Now()\<close>.
\<close>

section \<open>State\<close>

datatype ev = E_string string | E_strings "string list" | E_u16 u16 | E_u64 u64 | E_int int | E_float rat | E_bool bool | E_time time | E_nil

type_synonym evidence = "(string, ev) gomap"

record alert =
  al_ID :: string
  al_Type :: string
  al_Severity :: string
  al_Message :: string
  al_IP :: string
  al_AssetIdentity :: string
  al_Evidence :: evidence
  al_PreviousMAC :: string
  al_NewMAC :: string
  al_FirstSeen :: time
  al_LastSeen :: time
  al_Count :: u64
  al_Status :: string
  al_StatusChangedAt :: time
  al_Synced :: bool
  al_lastSyncTouch :: time

record learning_exclusion =
  le_SrcIP :: string
  le_DstIP :: string
  le_Protocol :: string
  le_ServicePort :: u16
  le_Reason :: string
  le_Until :: time

text \<open>What the engine publishes on the event bus.\<close>

datatype detect_event = LearningExclusion learning_exclusion | BaselineLearningComplete "string list"

text \<open>advanced_models.go: the configuration and the state of the heuristics.\<close>

record lateral_config =
  lc_Enabled :: bool
  lc_Window :: duration
  lc_FanOutThreshold :: int
  lc_LargeTransferBytes :: u64
  lc_PivotWindow :: duration
  lc_AdminPorts :: "u16 list"

record c2_config =
  cc_Enabled :: bool
  cc_MinScore :: int
  cc_DNSWindow :: duration
  cc_NXDomainThreshold :: int
  cc_UniqueSubdomainThreshold :: int
  cc_LongLabelLength :: int

text \<open>\<open>dt_events\<close> is what has been published so far, oldest first.\<close>

record detector =
  dt_knownMAC :: "(string, string) gomap"
  dt_candidateMAC :: "(string, string) gomap"
  dt_candidateCount :: "(string, int) gomap"
  dt_arpConfirmThreshold :: int
  dt_baselineEnabled :: bool
  dt_baselineMode :: string
  dt_learningStarted :: time
  dt_learningDuration :: duration
  dt_learnedPatterns :: "(string, bool) gomap"
  dt_learnedAssets :: "(string, bool) gomap"
  dt_assetFirstSeen :: "(string, time) gomap"
  dt_assetSamples :: "(string, u64) gomap"
  dt_patternCreatedAt :: "time list"
  dt_alerts :: "(string, alert) gomap"
  dt_rules :: "(string, rule) gomap"
  dt_customRuleSeq :: int
  dt_reconnaissanceEnabled :: bool
  dt_reconWindow :: duration
  dt_hostScanThreshold :: int
  dt_portScanThreshold :: int
  dt_hostScanSeen :: "(string, (string, time) gomap) gomap"
  dt_portScanSeen :: "(string, (string, (int, time) gomap) gomap) gomap"
  dt_reconSignals :: "(string, time list) gomap"
  dt_policy :: policy
  dt_segmentation :: segmentation
  dt_deceptionScores :: "(string, int) gomap"
  dt_honeypotThreshold :: int
  dt_c2BeaconEnabled :: bool
  dt_c2BeaconMinSamples :: int
  dt_c2BeaconMaxCV :: rat
  dt_c2BeaconMinInterval :: duration
  dt_c2BeaconMaxInterval :: duration
  dt_c2BeaconMaxTrackedDests :: int
  dt_beaconHistory :: "(string, time list) gomap"
  dt_beaconLastTouch :: "(string, time) gomap"
  dt_lateral :: lateral_config
  dt_lateralFanout :: "(string, (string, time) gomap) gomap"
  dt_lateralTransfers :: "(string, packet_window) gomap"
  dt_lateralInboundAdmin :: "(string, (string, time) gomap) gomap"
  dt_c2Correlation :: c2_config
  dt_c2NXDomains :: "(string, time list) gomap"
  dt_c2Subdomains :: "(string, (string, time) gomap) gomap"
  dt_events :: "detect_event list"

definition BaselineModeLearning :: string where "BaselineModeLearning = ''learning''"
definition BaselineModeMonitoring :: string where "BaselineModeMonitoring = ''monitoring''"

definition defaultARPConfirmThreshold :: int where "defaultARPConfirmThreshold = 3"

definition publish :: "detect_event \<Rightarrow> detector \<Rightarrow> detector" where
  "publish v e = e\<lparr> dt_events := dt_events e @ [v] \<rparr>"

definition on_policy :: "(policy \<Rightarrow> policy) \<Rightarrow> detector \<Rightarrow> detector" where
  "on_policy f e = e\<lparr> dt_policy := f (dt_policy e) \<rparr>"

text \<open>
  \<open>NewEngine\<close>.  The configuration of the lateral-movement and correlation heuristics is the zero
  value until \<open>ConfigureLateralMovement\<close> and \<open>ConfigureC2Correlation\<close> set it.
\<close>

record detect_config =
  dc_learningDuration :: duration
  dc_arpConfirmThreshold :: int
  dc_baselineEnabled :: bool
  dc_deceptionScores :: "(string, int) gomap"
  dc_honeypotThreshold :: int
  dc_segmentationEnabled :: bool
  dc_vlanLevels :: "(u16, rat) gomap"
  dc_maxLevelJump :: rat
  dc_reconnaissanceEnabled :: bool
  dc_reconWindow :: duration
  dc_hostScanThreshold :: int
  dc_portScanThreshold :: int
  dc_c2BeaconEnabled :: bool
  dc_c2BeaconMinSamples :: int
  dc_c2BeaconMaxCV :: rat
  dc_c2BeaconMinInterval :: duration
  dc_c2BeaconMaxInterval :: duration
  dc_c2BeaconMaxTrackedDests :: int

definition new_segmentation :: "detect_config \<Rightarrow> segmentation" where
  "new_segmentation c =
     (let jump = (if dc_maxLevelJump c \<le> 0 then 1 else dc_maxLevelJump c)
      in \<lparr> sg_Enabled = dc_segmentationEnabled c, sg_Managed = False, sg_vlanLevels = dc_vlanLevels c, sg_maxLevelJump = jump,
           sg_localEnabled = dc_segmentationEnabled c, sg_localVLANLevels = dc_vlanLevels c, sg_localMaxLevelJump = jump,
           sg_Policy = [], sg_ipVLAN = [], sg_ipVLANSeen = [] \<rparr>)"

definition no_lateral :: lateral_config where
  "no_lateral = \<lparr> lc_Enabled = False, lc_Window = 0, lc_FanOutThreshold = 0, lc_LargeTransferBytes = 0, lc_PivotWindow = 0, lc_AdminPorts = [] \<rparr>"

definition no_c2 :: c2_config where
  "no_c2 = \<lparr> cc_Enabled = False, cc_MinScore = 0, cc_DNSWindow = 0, cc_NXDomainThreshold = 0, cc_UniqueSubdomainThreshold = 0,
     cc_LongLabelLength = 0 \<rparr>"

definition NewDetector :: "detect_config \<Rightarrow> detector" where
  "NewDetector c =
     \<lparr> dt_knownMAC = [], dt_candidateMAC = [], dt_candidateCount = [],
       dt_arpConfirmThreshold = (if dc_arpConfirmThreshold c \<le> 0 then defaultARPConfirmThreshold else dc_arpConfirmThreshold c),
       dt_baselineEnabled = dc_baselineEnabled c,
       dt_baselineMode = (if dc_baselineEnabled c then [] else BaselineModeMonitoring),
       dt_learningStarted = 0, dt_learningDuration = dc_learningDuration c, dt_learnedPatterns = [], dt_learnedAssets = [],
       dt_assetFirstSeen = [], dt_assetSamples = [], dt_patternCreatedAt = [], dt_alerts = [], dt_rules = builtinRules,
       dt_customRuleSeq = 0, dt_reconnaissanceEnabled = dc_reconnaissanceEnabled c,
       dt_reconWindow = (if dc_reconWindow c \<le> 0 then 60 * second else dc_reconWindow c),
       dt_hostScanThreshold = (if dc_hostScanThreshold c \<le> 0 then 15 else dc_hostScanThreshold c),
       dt_portScanThreshold = (if dc_portScanThreshold c \<le> 0 then 15 else dc_portScanThreshold c),
       dt_hostScanSeen = [], dt_portScanSeen = [], dt_reconSignals = [], dt_policy = NewPolicy,
       dt_segmentation = new_segmentation c, dt_deceptionScores = dc_deceptionScores c,
       dt_honeypotThreshold = dc_honeypotThreshold c,
       dt_c2BeaconEnabled = dc_c2BeaconEnabled c,
       dt_c2BeaconMinSamples = (if dc_c2BeaconMinSamples c \<le> 0 then 6 else dc_c2BeaconMinSamples c),
       dt_c2BeaconMaxCV = (if dc_c2BeaconMaxCV c \<le> 0 then 15 / 100 else dc_c2BeaconMaxCV c),
       dt_c2BeaconMinInterval = (if dc_c2BeaconMinInterval c \<le> 0 then 5 * second else dc_c2BeaconMinInterval c),
       dt_c2BeaconMaxInterval = (if dc_c2BeaconMaxInterval c \<le> 0 then 60 * minute else dc_c2BeaconMaxInterval c),
       dt_c2BeaconMaxTrackedDests = (if dc_c2BeaconMaxTrackedDests c \<le> 0 then 5000 else dc_c2BeaconMaxTrackedDests c),
       dt_beaconHistory = [], dt_beaconLastTouch = [],
       dt_lateral = no_lateral, dt_lateralFanout = [], dt_lateralTransfers = [], dt_lateralInboundAdmin = [],
       dt_c2Correlation = no_c2, dt_c2NXDomains = [], dt_c2Subdomains = [], dt_events = [] \<rparr>"

definition behaviorDetectionsSuppressed :: "detector \<Rightarrow> bool" where
  "behaviorDetectionsSuppressed e \<longleftrightarrow> dt_baselineEnabled e \<and> dt_baselineMode e \<noteq> BaselineModeMonitoring"

section \<open>Episodes\<close>

definition alertEpisodeGap :: duration where "alertEpisodeGap = 5 * minute"
definition alertFreshnessSyncInterval :: duration where "alertFreshnessSyncInterval = minute"

definition recordEpisodeAlert :: "time \<Rightarrow> time \<Rightarrow> duration \<Rightarrow> alert \<Rightarrow> bool \<times> alert" where
  "recordEpisodeAlert clk at0 gap0 a =
     (if al_Status a = AlertStatusApproved then (False, a)
      else
        let now = (if is_zero_time at0 then clk else at0);
            gap = (if gap0 \<le> 0 then alertEpisodeGap else gap0);
            newEpisode = (al_Count a = 0 \<or> is_zero_time (al_LastSeen a) \<or> time_sub now (al_LastSeen a) > gap);
            a1 = (if newEpisode then
                    let b = (if al_Status a = AlertStatusConfirmed then a\<lparr> al_Status := AlertStatusNew, al_StatusChangedAt := now \<rparr> else a)
                    in b\<lparr> al_Count := al_Count b + 1, al_Synced := False, al_lastSyncTouch := now \<rparr>
                  else if is_zero_time (al_lastSyncTouch a) \<or> time_sub now (al_lastSyncTouch a) \<ge> alertFreshnessSyncInterval
                  then a\<lparr> al_Synced := False, al_lastSyncTouch := now \<rparr> else a)
        in (True, a1\<lparr> al_LastSeen := now \<rparr>))"

section \<open>The policy of a rule\<close>

definition parse_clock :: "string \<Rightarrow> int option" where
  "parse_clock v =
     (case split_on CHR '':'' (trim_space v) of
        [x, y] \<Rightarrow> (case (atoi x, atoi y) of
            (Some h, Some m) \<Rightarrow> if h < 0 \<or> h > 23 \<or> m < 0 \<or> m > 59 then None else Some (h * 60 + m)
          | _ \<Rightarrow> None)
      | _ \<Rightarrow> None)"

definition day_allowed :: "string \<Rightarrow> time \<Rightarrow> bool" where
  "day_allowed dayPart now =
     (let wd = weekday_text now in
      \<exists>d0 \<in> set (split_on CHR '','' dayPart). let d = trim_space d0 in
        d = wd \<or> (d = ''weekday'' \<and> wd \<noteq> ''sat'' \<and> wd \<noteq> ''sun'') \<or> (d = ''weekend'' \<and> (wd = ''sat'' \<or> wd = ''sun'')))"

definition scheduleAllows :: "string \<Rightarrow> time \<Rightarrow> bool" where
  "scheduleAllows schedule0 now =
     (let schedule = trim_space (to_lower schedule0) in
      if schedule = [] \<or> schedule = ''always'' then True
      else
        let dayPart = takeWhile (\<lambda>c. c \<noteq> CHR ''@'') schedule;
            has_days = (CHR ''@'' \<in> set schedule);
            window = (if has_days then drop (Suc (length dayPart)) schedule else schedule)
        in if has_days \<and> \<not> day_allowed dayPart now then False
           else case split_on CHR ''-'' window of
                  [p, q] \<Rightarrow> (case (parse_clock p, parse_clock q) of
                      (Some start, Some stop) \<Rightarrow>
                        (let m = minute_of_day now in if start \<le> stop then m \<ge> start \<and> m < stop else m \<ge> start \<or> m < stop)
                    | _ \<Rightarrow> False)
                | _ \<Rightarrow> False)"

definition builtinParameter :: "detector \<Rightarrow> string \<Rightarrow> string \<Rightarrow> rat \<Rightarrow> rat" where
  "builtinParameter e ruleID key fallback =
     (case mget (dt_rules e) ruleID of
        Some r \<Rightarrow> (case ru_Parameters r of
            Some ps \<Rightarrow> (case mget ps key of Some v \<Rightarrow> v | None \<Rightarrow> fallback)
          | None \<Rightarrow> fallback)
      | None \<Rightarrow> fallback)"

definition builtin_severity :: "string \<Rightarrow> rule \<Rightarrow> string" where
  "builtin_severity fallbackSeverity r =
     (let s0 = to_lower (trim_space fallbackSeverity);
          s1 = (if s0 = [] then to_lower (trim_space (ru_Severity r)) else s0);
          s2 = (if ru_SeverityOverride r \<and> trim_space (ru_Severity r) \<noteq> [] then to_lower (trim_space (ru_Severity r)) else s1)
      in if s2 = [] then ''medium'' else s2)"

definition suppression_mode :: "rule \<Rightarrow> string" where
  "suppression_mode r = (let m = to_lower (trim_space (su_Mode (ru_Suppression r))) in if m = [] then ''aggregate'' else m)"

definition suppressed_now :: "rule \<Rightarrow> time \<Rightarrow> duration \<Rightarrow> bool" where
  "suppressed_now r now gap =
     (if is_zero_time (ru_LastTriggered r) then False
      else if suppression_mode r = ''once'' then True
      else if suppression_mode r = ''interval'' then
        let i0 = su_IntervalSeconds (ru_Suppression r) * second;
            i1 = (if i0 \<le> 0 then gap else i0);
            i2 = (if i1 \<le> 0 then alertEpisodeGap else i1)
        in time_sub now (ru_LastTriggered r) < i2
      else False)"

text \<open>The physical identity behind an address, by the state of the address claims.\<close>

definition asset_identity :: "detector \<Rightarrow> string \<Rightarrow> string" where
  "asset_identity e ip =
     (if ip = [] then []
      else
        let known = trim_space (mtext (dt_knownMAC e) ip);
            candidate = trim_space (mtext (dt_candidateMAC e) ip)
        in if candidate \<noteq> [] \<and> \<not> equal_fold candidate known then ''conflict:'' @ trim_space ip @ '':'' @ to_lower candidate
           else if known \<noteq> [] then ''mac:'' @ to_lower known
           else ''ip:'' @ trim_space ip)"

definition alert_key :: "detector \<Rightarrow> string \<Rightarrow> string \<Rightarrow> rule \<Rightarrow> time \<Rightarrow> string" where
  "alert_key e key ip r now =
     (let k1 = (if asset_identity e ip \<noteq> [] then key @ ''|asset='' @ asset_identity e ip else key)
      in if suppression_mode r = ''every'' then k1 @ ''|'' @ itoa (unix_nano now) else k1)"

definition new_alert :: "string \<Rightarrow> string \<Rightarrow> string \<Rightarrow> string \<Rightarrow> string \<Rightarrow> string \<Rightarrow> time \<Rightarrow> evidence \<Rightarrow> alert" where
  "new_alert key alertType severity message ip identity now evidence =
     \<lparr> al_ID = key, al_Type = alertType, al_Severity = severity, al_Message = message, al_IP = ip, al_AssetIdentity = identity,
       al_Evidence = evidence, al_PreviousMAC = [], al_NewMAC = [], al_FirstSeen = now, al_LastSeen = 0, al_Count = 0,
       al_Status = AlertStatusNew, al_StatusChangedAt = 0, al_Synced = False, al_lastSyncTouch = 0 \<rparr>"

definition refresh_alert :: "string \<Rightarrow> string \<Rightarrow> string \<Rightarrow> string \<Rightarrow> string \<Rightarrow> evidence \<Rightarrow> alert \<Rightarrow> alert" where
  "refresh_alert alertType severity message ip identity evidence a =
     a\<lparr> al_Type := alertType, al_Message := message, al_Evidence := evidence, al_Severity := severity,
        al_IP := (if ip \<noteq> [] then ip else al_IP a), al_AssetIdentity := (if identity \<noteq> [] then identity else al_AssetIdentity a) \<rparr>"

definition count_alert :: "time \<Rightarrow> alert \<Rightarrow> alert" where
  "count_alert now a =
     (let b = (if al_Status a = AlertStatusConfirmed then a\<lparr> al_Status := AlertStatusNew, al_StatusChangedAt := now \<rparr> else a)
      in b\<lparr> al_Count := al_Count b + 1, al_LastSeen := now, al_Synced := False, al_lastSyncTouch := now \<rparr>)"

text \<open>A missing built-in rule is restored from the catalogue first.\<close>

definition ensure_rule :: "string \<Rightarrow> detector \<Rightarrow> detector" where
  "ensure_rule ruleID e =
     (case mget (dt_rules e) ruleID of
        Some r \<Rightarrow> e
      | None \<Rightarrow> (case mget builtinRules ruleID of Some r \<Rightarrow> e\<lparr> dt_rules := mput ruleID r (dt_rules e) \<rparr> | None \<Rightarrow> e))"

text \<open>The part after the policy checks: the alert under its key is created or updated.\<close>

definition store_alert ::
  "string \<Rightarrow> rule \<Rightarrow> string \<Rightarrow> string \<Rightarrow> string \<Rightarrow> string \<Rightarrow> string \<Rightarrow> evidence \<Rightarrow> time \<Rightarrow> duration \<Rightarrow> detector \<Rightarrow> bool \<times> detector" where
  "store_alert ruleID r alertType severity key message ip evidence0 now gap e =
     (let identity = asset_identity e ip;
          evidence = (if identity \<noteq> [] then mput ''asset_identity'' (E_string identity) evidence0 else evidence0);
          k = alert_key e key ip r now;
          mode = suppression_mode r
      in case mget (dt_alerts e) k of
           Some a0 \<Rightarrow>
             if al_Status a0 = AlertStatusApproved then (False, e)
             else
               let a = refresh_alert alertType severity message ip identity evidence a0;
                   (raised, b) = (if mode = ''every'' \<or> mode = ''once'' \<or> mode = ''interval'' then (True, count_alert now a)
                                  else recordEpisodeAlert now now gap a)
               in (raised, e\<lparr> dt_rules := mput ruleID (r\<lparr> ru_LastTriggered := now \<rparr>) (dt_rules e), dt_alerts := mput k b (dt_alerts e) \<rparr>)
         | None \<Rightarrow>
             let a = new_alert k alertType severity message ip identity now evidence;
                 (raised, b) = (if mode = ''every'' \<or> mode = ''once'' \<or> mode = ''interval'' then (True, count_alert now a)
                                else recordEpisodeAlert now now gap a)
             in (raised, e\<lparr> dt_rules := mput ruleID (r\<lparr> ru_LastTriggered := now \<rparr>) (dt_rules e), dt_alerts := mput k b (dt_alerts e) \<rparr>))"

definition raiseBuiltinAlertLocked ::
  "string \<Rightarrow> string \<Rightarrow> string \<Rightarrow> string \<Rightarrow> string \<Rightarrow> string \<Rightarrow> evidence \<Rightarrow> time \<Rightarrow> duration \<Rightarrow> detector \<Rightarrow> bool \<times> detector" where
  "raiseBuiltinAlertLocked ruleID alertType fallbackSeverity key message ip evidence now gap e0 =
     (let e = ensure_rule ruleID e0 in
      case mget (dt_rules e) ruleID of
        None \<Rightarrow> (False, e)
      | Some r \<Rightarrow>
          if \<not> ru_Enabled r \<or> \<not> scheduleAllows (ru_Schedule r) now then (False, e)
          else if ru_Simulation r
          then (False, e\<lparr> dt_rules := mput ruleID (r\<lparr> ru_SimulationHits := ru_SimulationHits r + 1, ru_LastSimulationHit := now \<rparr>) (dt_rules e) \<rparr>)
          else if suppressed_now r now gap then (False, e)
          else store_alert ruleID r alertType (builtin_severity fallbackSeverity r) key message ip evidence now gap e)"

definition raiseBuiltinAlert ::
  "time \<Rightarrow> string \<Rightarrow> string \<Rightarrow> string \<Rightarrow> string \<Rightarrow> string \<Rightarrow> string \<Rightarrow> evidence \<Rightarrow> time \<Rightarrow> duration \<Rightarrow> detector \<Rightarrow> bool \<times> detector" where
  "raiseBuiltinAlert clk ruleID alertType fallbackSeverity key message ip evidence at0 gap e =
     raiseBuiltinAlertLocked (if ruleID = [] then builtinRuleIDForAlert alertType else ruleID) alertType fallbackSeverity key message ip evidence
       (if is_zero_time at0 then clk else at0) gap e"

section \<open>Review, synchronisation, pruning\<close>

definition setAlertStatus :: "time \<Rightarrow> string \<Rightarrow> string \<Rightarrow> detector \<Rightarrow> bool \<times> detector" where
  "setAlertStatus clk aid status e =
     (case mget (dt_alerts e) aid of
        None \<Rightarrow> (False, e)
      | Some a \<Rightarrow> (True, e\<lparr> dt_alerts := mput aid (a\<lparr> al_Status := status, al_StatusChangedAt := clk, al_Synced := False \<rparr>) (dt_alerts e) \<rparr>))"

definition ConfirmAlert :: "time \<Rightarrow> string \<Rightarrow> detector \<Rightarrow> bool \<times> detector" where
  "ConfirmAlert clk aid e = setAlertStatus clk aid AlertStatusConfirmed e"

definition allowAlertOccurrence :: "time \<Rightarrow> alert \<Rightarrow> bool \<times> alert" where
  "allowAlertOccurrence clk a =
     (if al_Status a = AlertStatusApproved then (False, a)
      else if al_Status a = AlertStatusConfirmed
      then (True, a\<lparr> al_Status := AlertStatusNew, al_StatusChangedAt := clk, al_Synced := False \<rparr>)
      else (True, a))"

definition CountAlerts :: "detector \<Rightarrow> nat" where "CountAlerts e = length (dt_alerts e)"
definition GetAlerts :: "detector \<Rightarrow> alert list" where "GetAlerts e = mvals (dt_alerts e)"

definition maxDirtyAlertsPerSync :: nat where "maxDirtyAlertsPerSync = 1000"

text \<open>\<open>ks\<close> is the order in which the map is visited.\<close>

definition GetDirtyAlerts :: "string list \<Rightarrow> detector \<Rightarrow> alert list" where
  "GetDirtyAlerts ks e =
     take maxDirtyAlertsPerSync (filter (\<lambda>a. \<not> al_Synced a) (concat (map (\<lambda>k. case mget (dt_alerts e) k of Some a \<Rightarrow> [a] | None \<Rightarrow> []) ks)))"

text \<open>
  \<open>sameAlertSyncVersion\<close>.  The evidence is compared by its JSON text, which lists the entries
  by key: equal maps have equal texts.
\<close>

definition sameAlertEvidence :: "evidence \<Rightarrow> evidence \<Rightarrow> bool" where
  "sameAlertEvidence x y \<longleftrightarrow> (\<forall>k \<in> set (mkeys x) \<union> set (mkeys y). mget x k = mget y k)"

definition sameAlertSyncVersion :: "alert \<Rightarrow> alert \<Rightarrow> bool" where
  "sameAlertSyncVersion current sent \<longleftrightarrow>
     al_ID current = al_ID sent \<and> al_Type current = al_Type sent \<and> al_Severity current = al_Severity sent \<and>
     al_Message current = al_Message sent \<and> al_IP current = al_IP sent \<and> al_PreviousMAC current = al_PreviousMAC sent \<and>
     al_NewMAC current = al_NewMAC sent \<and> al_FirstSeen current = al_FirstSeen sent \<and> al_LastSeen current = al_LastSeen sent \<and>
     al_Count current = al_Count sent \<and> al_Status current = al_Status sent \<and>
     al_StatusChangedAt current = al_StatusChangedAt sent \<and> sameAlertEvidence (al_Evidence current) (al_Evidence sent)"

definition mark_alert :: "time \<Rightarrow> alert \<Rightarrow> detector \<Rightarrow> detector" where
  "mark_alert clk snapshot e =
     (if al_ID snapshot = [] then e
      else case mget (dt_alerts e) (al_ID snapshot) of
             None \<Rightarrow> e
           | Some a \<Rightarrow> if sameAlertSyncVersion a snapshot
                       then e\<lparr> dt_alerts := mput (al_ID snapshot) (a\<lparr> al_Synced := True, al_lastSyncTouch := clk \<rparr>) (dt_alerts e) \<rparr>
                       else e)"

definition MarkAlertsSynced :: "time \<Rightarrow> alert list \<Rightarrow> detector \<Rightarrow> detector" where
  "MarkAlertsSynced clk sent e = fold (mark_alert clk) sent e"

definition restore_alert :: "alert \<Rightarrow> detector \<Rightarrow> detector" where
  "restore_alert a0 e =
     (let a = (if al_Status a0 = [] then a0\<lparr> al_Status := AlertStatusNew \<rparr> else a0);
          e1 = e\<lparr> dt_alerts := mput (al_ID a) a (dt_alerts e) \<rparr>
      in if al_Type a = AlertNewCommunication then
           e1\<lparr> dt_learnedPatterns := (if al_Status a = AlertStatusApproved then mput (al_ID a) True (dt_learnedPatterns e1)
                                      else mdel (al_ID a) (dt_learnedPatterns e1)) \<rparr>
         else e1)"

definition RestoreAlerts :: "alert list \<Rightarrow> detector \<Rightarrow> detector" where
  "RestoreAlerts alerts e = fold restore_alert alerts (e\<lparr> dt_alerts := [] \<rparr>)"

definition PruneAlerts :: "time \<Rightarrow> duration \<Rightarrow> detector \<Rightarrow> nat \<times> detector" where
  "PruneAlerts clk maxAge e =
     (let kept = filter (\<lambda>(k, a). \<not> al_LastSeen a < clk - maxAge) (dt_alerts e)
      in (length (dt_alerts e) - length kept, e\<lparr> dt_alerts := kept \<rparr>))"

definition detector_clear :: "detector \<Rightarrow> detector" where
  "detector_clear e = e\<lparr> dt_alerts := [] \<rparr>"

section \<open>What raising an alert leaves alone\<close>

definition alerts_and_rules_only :: "detector \<Rightarrow> detector \<Rightarrow> bool" where
  "alerts_and_rules_only e e' \<longleftrightarrow> e'\<lparr> dt_alerts := [], dt_rules := [] \<rparr> = e\<lparr> dt_alerts := [], dt_rules := [] \<rparr>"

lemma ensure_rule_frame: "alerts_and_rules_only e (ensure_rule rid e)"
  by (simp add: ensure_rule_def alerts_and_rules_only_def split: option.splits)

lemma frame_updates: "alerts_and_rules_only e e" "alerts_and_rules_only e (e\<lparr> dt_rules := rs, dt_alerts := as \<rparr>)"
  by (simp_all add: alerts_and_rules_only_def)

lemma store_alert_frame: "alerts_and_rules_only e (snd (store_alert rid r t sev key msg ip v now gap e))"
  unfolding store_alert_def Let_def split_def by (simp add: frame_updates split: option.split)

lemma frame_trans: "alerts_and_rules_only a b \<Longrightarrow> alerts_and_rules_only b c \<Longrightarrow> alerts_and_rules_only a c"
  by (simp add: alerts_and_rules_only_def)

lemma raise_frame: "alerts_and_rules_only e (snd (raiseBuiltinAlertLocked rid t sev key msg ip v now gap e))"
proof -
  have k: "alerts_and_rules_only e (ensure_rule rid e)" by (rule ensure_rule_frame)
  have u: "alerts_and_rules_only e ((ensure_rule rid e)\<lparr> dt_rules := rs \<rparr>)" for rs
    using k by (simp add: alerts_and_rules_only_def)
  show ?thesis
    unfolding raiseBuiltinAlertLocked_def Let_def
    using k u frame_trans [OF k store_alert_frame] by (simp split: option.splits)
qed

lemma frame_fields:
  assumes "alerts_and_rules_only e e'"
  shows "dt_knownMAC e' = dt_knownMAC e"
    "dt_candidateMAC e' = dt_candidateMAC e"
    "dt_candidateCount e' = dt_candidateCount e"
    "dt_arpConfirmThreshold e' = dt_arpConfirmThreshold e"
    "dt_baselineEnabled e' = dt_baselineEnabled e"
    "dt_baselineMode e' = dt_baselineMode e"
    "dt_learningStarted e' = dt_learningStarted e"
    "dt_learningDuration e' = dt_learningDuration e"
    "dt_learnedPatterns e' = dt_learnedPatterns e"
    "dt_learnedAssets e' = dt_learnedAssets e"
    "dt_policy e' = dt_policy e"
    "dt_segmentation e' = dt_segmentation e"
    "dt_events e' = dt_events e"
    "dt_hostScanSeen e' = dt_hostScanSeen e"
    "dt_portScanSeen e' = dt_portScanSeen e"
    "dt_reconSignals e' = dt_reconSignals e"
    "dt_reconWindow e' = dt_reconWindow e"
    "dt_hostScanThreshold e' = dt_hostScanThreshold e"
    "dt_portScanThreshold e' = dt_portScanThreshold e"
    "dt_reconnaissanceEnabled e' = dt_reconnaissanceEnabled e"
    "dt_deceptionScores e' = dt_deceptionScores e"
    "dt_honeypotThreshold e' = dt_honeypotThreshold e"
    "dt_lateral e' = dt_lateral e"
    "dt_lateralFanout e' = dt_lateralFanout e"
    "dt_lateralInboundAdmin e' = dt_lateralInboundAdmin e"
    "dt_beaconHistory e' = dt_beaconHistory e"
    "dt_beaconLastTouch e' = dt_beaconLastTouch e"
    "dt_lateralTransfers e' = dt_lateralTransfers e"
    "dt_c2Correlation e' = dt_c2Correlation e"
    "dt_c2NXDomains e' = dt_c2NXDomains e"
    "dt_c2Subdomains e' = dt_c2Subdomains e"
  using assms by (cases e; cases e'; simp add: alerts_and_rules_only_def)+

lemmas raise_fields [simp] = frame_fields [OF raise_frame]

lemma raiseBuiltinAlert_frame: "alerts_and_rules_only e (snd (raiseBuiltinAlert clk rid t sev key msg ip v at0 gap e))"
  unfolding raiseBuiltinAlert_def by (rule raise_frame)

lemmas raiseBuiltinAlert_fields [simp] = frame_fields [OF raiseBuiltinAlert_frame]

end
