(* ===== verification/Detect_Baseline.thy ===== *)
theory Detect_Baseline
  imports Detect_Alert
begin

text \<open>
  internal/detect/baseline.go, network_service.go, and the exclusions of occurrence.go: the
  learning of communication patterns and of assets, the end of learning, and the alert on a
  pattern that was not learned.  \<open>float64\<close> scores are exact fractions.  \<open>clk\<close> is \<open>time.Now()\<close>.
\<close>

section \<open>The service of a packet\<close>

definition dynamicPortFloor :: u16 where "dynamicPortFloor = 49152"

definition commonTCPServices :: "(u16, string) gomap" where
  "commonTCPServices =
     [(20, ''ftp-data''), (21, ''ftp''), (22, ''ssh''), (23, ''telnet''), (25, ''smtp''), (53, ''dns''), (80, ''http''),
      (88, ''kerberos''), (102, ''s7''), (110, ''pop3''), (111, ''rpcbind''), (135, ''rpc''), (139, ''netbios''),
      (143, ''imap''), (389, ''ldap''), (443, ''https''), (445, ''smb''), (465, ''smtps''), (502, ''modbus''),
      (515, ''lpd''), (587, ''smtp-submission''), (636, ''ldaps''), (993, ''imaps''), (995, ''pop3s''),
      (1433, ''mssql''), (1521, ''oracle''), (1883, ''mqtt''), (2404, ''iec104''), (3306, ''mysql''), (3389, ''rdp''),
      (4840, ''opcua''), (5432, ''postgresql''), (5672, ''amqp''), (5900, ''vnc''), (5985, ''winrm''),
      (5986, ''winrm-tls''), (6379, ''redis''), (8080, ''http-alt''), (8443, ''https-alt''), (8883, ''mqtt-tls''),
      (20000, ''dnp3''), (44818, ''ethernetip'')]"

definition commonUDPServices :: "(u16, string) gomap" where
  "commonUDPServices =
     [(53, ''dns''), (67, ''dhcp-server''), (68, ''dhcp-client''), (69, ''tftp''), (88, ''kerberos''), (123, ''ntp''),
      (137, ''netbios-ns''), (138, ''netbios-dgm''), (161, ''snmp''), (162, ''snmp-trap''), (500, ''ike''),
      (514, ''syslog''), (520, ''rip''), (623, ''ipmi''), (1194, ''openvpn''), (1701, ''l2tp''), (1812, ''radius''),
      (1813, ''radius-accounting''), (1900, ''ssdp''), (3702, ''ws-discovery''), (4500, ''ipsec-nat-t''),
      (4789, ''vxlan''), (5353, ''mdns''), (5355, ''llmnr''), (5683, ''coap''), (6343, ''sflow''),
      (8472, ''vxlan-linux''), (20000, ''dnp3''), (44818, ''ethernetip''), (47808, ''bacnet'')]"

definition routineDiscoveryUDPPorts :: "u16 list" where
  "routineDiscoveryUDPPorts = [67, 68, 137, 138, 1900, 3702, 5353, 5355, 546, 547]"

definition port_name :: "(u16, string) gomap \<Rightarrow> u16 \<Rightarrow> string" where
  "port_name m port = (case mget m port of Some n \<Rightarrow> n | None \<Rightarrow> [])"

definition serviceNameForPort :: "string \<Rightarrow> u16 \<Rightarrow> string" where
  "serviceNameForPort protocol port =
     (if port = 0 then ''dynamic''
      else if equal_fold protocol ''tcp'' \<and> port_name commonTCPServices port \<noteq> [] then port_name commonTCPServices port
      else if equal_fold protocol ''udp'' \<and> port_name commonUDPServices port \<noteq> [] then port_name commonUDPServices port
      else [])"

definition knownServicePort :: "string \<Rightarrow> u16 \<Rightarrow> bool" where
  "knownServicePort protocol port \<longleftrightarrow> serviceNameForPort protocol port \<noteq> []"

definition has_flag :: "packet \<Rightarrow> string \<Rightarrow> bool" where
  "has_flag p f \<longleftrightarrow> go_contains (to_upper (pk_TCPFlags p)) f"

definition baselineServicePort :: "packet \<Rightarrow> u16" where
  "baselineServicePort p =
     (let src = pk_SrcPort p; dst = pk_DstPort p; l4 = pk_L4Protocol p in
      if src = 0 then dst
      else if dst = 0 then src
      else if src = dst then src
      else if equal_fold l4 ''tcp'' \<and> has_flag p ''SYN'' then (if has_flag p ''ACK'' then src else dst)
      else if knownServicePort l4 src \<noteq> knownServicePort l4 dst then (if knownServicePort l4 src then src else dst)
      else if src \<ge> dynamicPortFloor \<and> dst < dynamicPortFloor then dst
      else if dst \<ge> dynamicPortFloor \<and> src < dynamicPortFloor then src
      else if equal_fold l4 ''udp'' \<and> src \<ge> dynamicPortFloor \<and> dst \<ge> dynamicPortFloor then 0
      else if src < dst then src else dst)"

definition legacyBaselineServicePort :: "packet \<Rightarrow> u16" where
  "legacyBaselineServicePort p =
     (let src = pk_SrcPort p; dst = pk_DstPort p; syn = has_flag p ''SYN''; ack = has_flag p ''ACK'' in
      if equal_fold (pk_L4Protocol p) ''tcp'' \<and> syn then
        (if ack \<and> src \<noteq> 0 then src
         else if \<not> ack \<and> dst \<noteq> 0 then dst
         else if dst < src then dst else src)
      else if dst < src then dst else src)"

definition groupDestination :: "packet \<Rightarrow> bool" where
  "groupDestination p \<longleftrightarrow>
     (case parse_ip (trim_space (pk_DstIP p)) of Some a \<Rightarrow> ip_multicast a | None \<Rightarrow> False) \<or>
     pk_DstIP p = ''255.255.255.255'' \<or> isMulticastMACAddr (trim_space (pk_DstMAC p))"

definition routineDiscoveryTraffic :: "packet \<Rightarrow> bool" where
  "routineDiscoveryTraffic p \<longleftrightarrow>
     equal_fold (pk_L4Protocol p) ''udp'' \<and> groupDestination p \<and>
     (pk_SrcPort p \<in> set routineDiscoveryUDPPorts \<or> pk_DstPort p \<in> set routineDiscoveryUDPPorts)"

section \<open>The key of a pattern\<close>

definition baseline_endpoint :: "detector \<Rightarrow> string \<Rightarrow> string \<Rightarrow> string" where
  "baseline_endpoint e ip observed0 =
     (let known = trim_space (mtext (dt_knownMAC e) ip);
          candidate = trim_space (mtext (dt_candidateMAC e) ip);
          observed = trim_space observed0
      in if candidate \<noteq> [] \<and> \<not> equal_fold candidate known then
           (if observed \<noteq> [] \<and> (equal_fold observed candidate \<or> equal_fold observed known) then ''mac:'' @ to_lower observed
            else ''conflict:'' @ trim_space ip)
         else if known \<noteq> [] then ''mac:'' @ to_lower known
         else ''ip:'' @ trim_space ip)"

definition baseline_key_text :: "string \<Rightarrow> string \<Rightarrow> string \<Rightarrow> u16 \<Rightarrow> string" where
  "baseline_key_text protocol a b service = ''baseline|'' @ protocol @ ''|'' @ a @ ''|'' @ b @ ''|'' @ dec (unat service)"

definition baselineKeyForPacketService :: "detector \<Rightarrow> packet \<Rightarrow> u16 \<Rightarrow> string" where
  "baselineKeyForPacketService e p service =
     (let a = baseline_endpoint e (pk_SrcIP p) (pk_SrcMAC p); b = baseline_endpoint e (pk_DstIP p) (pk_DstMAC p)
      in if a > b then baseline_key_text (pk_L4Protocol p) b a service else baseline_key_text (pk_L4Protocol p) a b service)"

definition baselineKeyForPacket :: "detector \<Rightarrow> packet \<Rightarrow> string" where
  "baselineKeyForPacket e p = baselineKeyForPacketService e p (baselineServicePort p)"

definition legacyBaselineKeyForPacket :: "detector \<Rightarrow> packet \<Rightarrow> string" where
  "legacyBaselineKeyForPacket e p = baselineKeyForPacketService e p (legacyBaselineServicePort p)"

definition baselineKey :: "string \<Rightarrow> string \<Rightarrow> u16 \<Rightarrow> string \<Rightarrow> u16 \<Rightarrow> string" where
  "baselineKey protocol ip1 port1 ip2 port2 =
     (let service = (if port2 < port1 then port2 else port1)
      in if ip1 > ip2 then baseline_key_text protocol ip2 ip1 service else baseline_key_text protocol ip1 ip2 service)"

section \<open>Exclusion from learning\<close>

definition excluded_service :: "packet \<Rightarrow> u16" where
  "excluded_service p =
     (let src = pk_SrcPort p; dst = pk_DstPort p; syn = has_flag p ''SYN''; ack = has_flag p ''ACK'';
          s1 = (if equal_fold (pk_L4Protocol p) ''tcp'' \<and> syn then
                  (if ack \<and> src \<noteq> 0 then src else if \<not> ack \<and> dst \<noteq> 0 then dst else src)
                else src)
      in if s1 = 0 \<or> (dst \<noteq> 0 \<and> dst < s1 \<and> \<not> syn) then dst else s1)"

definition excludePacketFromLearning :: "time \<Rightarrow> packet \<Rightarrow> string \<Rightarrow> detector \<Rightarrow> detector" where
  "excludePacketFromLearning clk p reason e =
     (if pk_SrcIP p = [] \<or> pk_DstIP p = [] then e
      else
        let e1 = on_policy (quarantinePolicyLearning clk (pk_SrcIP p) (pk_DstIP p) (clk + 24 * 60 * minute)) e;
            e2 = (if dt_baselineMode e1 = BaselineModeLearning
                  then e1\<lparr> dt_learnedPatterns := mdel (baselineKeyForPacket e1 p) (dt_learnedPatterns e1) \<rparr> else e1)
        in publish (LearningExclusion \<lparr> le_SrcIP = pk_SrcIP p, le_DstIP = pk_DstIP p, le_Protocol = pk_L4Protocol p,
             le_ServicePort = excluded_service p, le_Reason = reason, le_Until = clk + 24 * 60 * minute \<rparr>) e2)"

section \<open>Learning\<close>

definition extractMACs :: "packet \<Rightarrow> string list" where
  "extractMACs p = filter (\<lambda>m. m \<noteq> [] \<and> \<not> isMulticastMACAddr m) [pk_SrcMAC p, pk_DstMAC p, pk_ARPSrcMAC p]"

definition learn_asset :: "time \<Rightarrow> string \<Rightarrow> detector \<Rightarrow> detector" where
  "learn_asset now mac e =
     e\<lparr> dt_learnedAssets := mput mac True (dt_learnedAssets e),
        dt_assetFirstSeen := (if is_zero_time (mtime (dt_assetFirstSeen e) mac) then mput mac now (dt_assetFirstSeen e) else dt_assetFirstSeen e),
        dt_assetSamples := mput mac ((case mget (dt_assetSamples e) mac of Some n \<Rightarrow> n | None \<Rightarrow> 0) + 1) (dt_assetSamples e) \<rparr>"

definition maxPatternTimes :: nat where "maxPatternTimes = 10000"

definition learn_pattern :: "time \<Rightarrow> string \<Rightarrow> detector \<Rightarrow> detector" where
  "learn_pattern now key e =
     (if mtrue (dt_learnedPatterns e) key then e
      else e\<lparr> dt_learnedPatterns := mput key True (dt_learnedPatterns e),
              dt_patternCreatedAt := last_n maxPatternTimes (dt_patternCreatedAt e @ [now]) \<rparr>)"

text \<open>Go's division of a duration, towards zero.\<close>

definition go_div :: "int \<Rightarrow> int \<Rightarrow> int" where
  "go_div a b = (if a < 0 then - ((- a) div b) else a div b)"

definition min_age :: "duration \<Rightarrow> duration" where
  "min_age d =
     (let a = go_div d 4;
          b = (if d < 5 * minute then max a millisecond else max a (5 * minute))
      in min b (60 * minute))"

definition min_samples :: "duration \<Rightarrow> u64" where
  "min_samples d = (if d < 5 * minute then 5 else 50)"

definition mature_asset :: "time \<Rightarrow> detector \<Rightarrow> string \<Rightarrow> bool" where
  "mature_asset now e mac \<longleftrightarrow>
     (case mget (dt_assetSamples e) mac of Some n \<Rightarrow> n | None \<Rightarrow> 0) \<ge> min_samples (dt_learningDuration e) \<and>
     \<not> is_zero_time (mtime (dt_assetFirstSeen e) mac) \<and>
     time_sub now (mtime (dt_assetFirstSeen e) mac) \<ge> min_age (dt_learningDuration e)"

definition maturity_ratio :: "time \<Rightarrow> detector \<Rightarrow> rat" where
  "maturity_ratio now e =
     (if dt_learnedAssets e = [] then 0
      else of_nat (length (filter (mature_asset now e) (mkeys (dt_learnedAssets e)))) / of_nat (length (dt_learnedAssets e)))"

definition novelty_window :: "duration \<Rightarrow> duration" where
  "novelty_window d = min (max (go_div d 10) minute) (30 * minute)"

definition novelty :: "time \<Rightarrow> detector \<Rightarrow> rat" where
  "novelty now e =
     (if dt_learnedPatterns e = [] then 0
      else of_nat (length (filter (\<lambda>t. \<not> t < now - novelty_window (dt_learningDuration e)) (dt_patternCreatedAt e))) /
           of_nat (length (dt_learnedPatterns e)))"

text \<open>\<open>baselineReadinessLocked\<close>: the score and the decision; a learning duration is positive.\<close>

definition duration_score :: "time \<Rightarrow> detector \<Rightarrow> rat" where
  "duration_score now e = min 1 (of_int (time_sub now (dt_learningStarted e)) / of_int (dt_learningDuration e))"

definition readiness_score :: "time \<Rightarrow> detector \<Rightarrow> rat" where
  "readiness_score now e =
     45 / 100 * duration_score now e + 40 / 100 * maturity_ratio now e + 15 / 100 * (1 - min 1 (novelty now e / (5 / 100)))"

definition baselineReadiness :: "time \<Rightarrow> detector \<Rightarrow> rat \<times> bool" where
  "baselineReadiness now e =
     (if is_zero_time (dt_learningStarted e) then (0, False)
      else (readiness_score now e,
            time_sub now (dt_learningStarted e) \<ge> dt_learningDuration e \<and> readiness_score now e \<ge> 85 / 100 \<and>
            maturity_ratio now e \<ge> 75 / 100 \<and> novelty now e \<le> 5 / 100))"

text \<open>Twice the duration; a product beyond the 64 bits of \<open>time.Duration\<close> wraps around and is noticed.\<close>

definition int64 :: "int \<Rightarrow> int" where
  "int64 x = sint (word_of_int x :: u64)"

definition max_learning :: "duration \<Rightarrow> duration" where
  "max_learning d = (let m = int64 (2 * d) in if m < d then d else m)"

lemma int64_eq: "int64 x = signed_take_bit 63 x"
  unfolding int64_def by (rule trans [OF signed_of_int]) simp

lemma int64_id: "- (2 ^ 63) \<le> x \<Longrightarrow> x < 2 ^ 63 \<Longrightarrow> int64 x = x"
  unfolding int64_eq by (rule signed_take_bit_int_eq_self)

lemma int64_range: "- (2 ^ 63) \<le> int64 x \<and> int64 x < 2 ^ 63"
  unfolding int64_eq using signed_take_bit_int_greater_eq_minus_exp signed_take_bit_int_less_exp by blast

lemma max_learning_bounds: "0 \<le> d \<Longrightarrow> d \<le> max_learning d \<and> max_learning d \<le> 2 * d"
proof (cases "2 * d < 2 ^ 63")
  case False
  assume "0 \<le> d"
  with False int64_range [of "2 * d"] show ?thesis by (auto simp: max_learning_def Let_def)
qed (auto simp: max_learning_def Let_def int64_id)

definition publishBaselineComplete :: "detector \<Rightarrow> detector" where
  "publishBaselineComplete e = publish (BaselineLearningComplete (mkeys (dt_learnedAssets e))) e"

definition finish_learning :: "time \<Rightarrow> detector \<Rightarrow> detector" where
  "finish_learning now e =
     (if dt_baselineMode e = BaselineModeLearning \<and> time_sub now (dt_learningStarted e) \<ge> dt_learningDuration e \<and>
         (snd (baselineReadiness now e) \<or> time_sub now (dt_learningStarted e) \<ge> max_learning (dt_learningDuration e))
      then publishBaselineComplete (e\<lparr> dt_baselineMode := BaselineModeMonitoring \<rparr>)
      else e)"

section \<open>The alert\<close>

definition baseline_message :: "packet \<Rightarrow> string" where
  "baseline_message p = ''New '' @ pk_L4Protocol p @ '' communication: '' @ pk_SrcIP p @ '':'' @ dec (unat (pk_SrcPort p)) @ '' <-> '' @
     pk_DstIP p @ '':'' @ dec (unat (pk_DstPort p)) @ '' (not seen during trusted baseline)''"

definition baseline_evidence :: "string \<Rightarrow> packet \<Rightarrow> evidence" where
  "baseline_evidence key p =
     (let service = baselineServicePort p;
          ev = [(''baseline_key'', E_string key), (''source_ip'', E_string (pk_SrcIP p)), (''destination_ip'', E_string (pk_DstIP p)),
                (''source_port'', E_u16 (pk_SrcPort p)), (''destination_port'', E_u16 (pk_DstPort p)),
                (''protocol'', E_string (pk_L4Protocol p)), (''service_port'', E_u16 service)];
          n = serviceNameForPort (pk_L4Protocol p) service
      in if n \<noteq> [] then mput ''service'' (E_string n) ev else ev)"

definition raiseBaselineAlert :: "time \<Rightarrow> string \<Rightarrow> packet \<Rightarrow> detector \<Rightarrow> detector" where
  "raiseBaselineAlert clk key p e =
     (let now = (if is_zero_time (pk_Timestamp p) then clk else pk_Timestamp p)
      in snd (raiseBuiltinAlertLocked AlertNewCommunication AlertNewCommunication ''medium'' key (baseline_message p) (pk_SrcIP p)
                (baseline_evidence key p) now alertEpisodeGap e))"

section \<open>A packet\<close>

definition start_learning :: "time \<Rightarrow> detector \<Rightarrow> detector" where
  "start_learning now e =
     (if dt_baselineMode e = [] then e\<lparr> dt_baselineMode := BaselineModeLearning, dt_learningStarted := now \<rparr> else e)"

definition pattern_trusted :: "detector \<Rightarrow> string \<Rightarrow> string \<Rightarrow> bool" where
  "pattern_trusted e key legacyKey \<longleftrightarrow>
     mtrue (dt_learnedPatterns e) key \<or> (legacyKey \<noteq> [] \<and> legacyKey \<noteq> key \<and> mtrue (dt_learnedPatterns e) legacyKey)"

definition learn_packet :: "time \<Rightarrow> packet \<Rightarrow> detector \<Rightarrow> detector" where
  "learn_packet now p e =
     (if dt_baselineMode e = BaselineModeLearning then
        let e1 = fold (learn_asset now) (extractMACs p) e
        in if pk_SrcIP p \<noteq> [] \<and> pk_DstIP p \<noteq> [] then learn_pattern now (baselineKeyForPacket e1 p) e1 else e1
      else e)"

definition handleBaseline :: "time \<Rightarrow> packet \<Rightarrow> detector \<Rightarrow> detector" where
  "handleBaseline now p e =
     (let hasIPEndpoints = (pk_SrcIP p \<noteq> [] \<and> pk_DstIP p \<noteq> []) in
      if extractMACs p = [] \<and> \<not> hasIPEndpoints then e
      else
        let e1 = start_learning now e;
            e2 = learn_packet now p e1;
            key = baselineKeyForPacket e2 p; legacyKey = legacyBaselineKeyForPacket e2 p;
            e3 = finish_learning now e2
        in if \<not> hasIPEndpoints \<or> dt_baselineMode e3 = BaselineModeLearning then e3
           else if routineDiscoveryTraffic p then e3
           else if pattern_trusted e3 key legacyKey then e3
           else raiseBaselineAlert now key p e3)"

datatype baseline_error = LearningNotStarted | MinimumNotElapsed

definition CompleteBaseline :: "time \<Rightarrow> bool \<Rightarrow> detector \<Rightarrow> (baseline_error + bool) \<times> detector" where
  "CompleteBaseline clk force e =
     (if \<not> dt_baselineEnabled e then (Inr False, e\<lparr> dt_baselineMode := BaselineModeMonitoring \<rparr>)
      else if dt_baselineMode e = BaselineModeMonitoring then (Inr False, e)
      else if dt_baselineMode e = [] \<or> is_zero_time (dt_learningStarted e) then (Inl LearningNotStarted, e)
      else if \<not> force \<and> time_sub clk (dt_learningStarted e) < dt_learningDuration e then (Inl MinimumNotElapsed, e)
      else (Inr True, publishBaselineComplete (e\<lparr> dt_baselineMode := BaselineModeMonitoring \<rparr>)))"

definition PublishBaselineStateIfEstablished :: "detector \<Rightarrow> detector" where
  "PublishBaselineStateIfEstablished e = (if dt_baselineMode e \<noteq> BaselineModeMonitoring then e else publishBaselineComplete e)"

section \<open>Snapshot and reset\<close>

record baseline_snapshot =
  bs_Mode :: string
  bs_LearningStarted :: time
  bs_LearnedPatterns :: "(string, bool) gomap"
  bs_LearnedAssets :: "(string, bool) gomap"
  bs_AssetFirstSeen :: "(string, time) gomap"
  bs_AssetSamples :: "(string, u64) gomap"
  bs_PatternCreatedAt :: "time list"

definition BaselineSnapshot :: "detector \<Rightarrow> baseline_snapshot" where
  "BaselineSnapshot e = \<lparr> bs_Mode = dt_baselineMode e, bs_LearningStarted = dt_learningStarted e, bs_LearnedPatterns = dt_learnedPatterns e,
     bs_LearnedAssets = dt_learnedAssets e, bs_AssetFirstSeen = dt_assetFirstSeen e, bs_AssetSamples = dt_assetSamples e,
     bs_PatternCreatedAt = dt_patternCreatedAt e \<rparr>"

definition put_all :: "('k, 'v) gomap \<Rightarrow> ('k, 'v) gomap \<Rightarrow> ('k, 'v) gomap" where
  "put_all new m = fold (\<lambda>(k, v). mput k v) new m"

definition RestoreBaseline :: "baseline_snapshot \<Rightarrow> detector \<Rightarrow> detector" where
  "RestoreBaseline s e =
     (if bs_Mode s = [] then e
      else e\<lparr> dt_baselineMode := bs_Mode s, dt_learningStarted := bs_LearningStarted s,
              dt_learnedPatterns := put_all (bs_LearnedPatterns s) (dt_learnedPatterns e),
              dt_learnedAssets := put_all (bs_LearnedAssets s) (dt_learnedAssets e),
              dt_assetFirstSeen := put_all (bs_AssetFirstSeen s) (dt_assetFirstSeen e),
              dt_assetSamples := put_all (bs_AssetSamples s) (dt_assetSamples e),
              dt_patternCreatedAt := bs_PatternCreatedAt s \<rparr>)"

definition ResetBaseline :: "detector \<Rightarrow> detector" where
  "ResetBaseline e =
     e\<lparr> dt_baselineMode := (if dt_baselineEnabled e then [] else BaselineModeMonitoring), dt_learningStarted := 0,
        dt_learnedPatterns := [], dt_learnedAssets := [], dt_assetFirstSeen := [], dt_assetSamples := [], dt_patternCreatedAt := [] \<rparr>"

definition KnownMACSnapshot :: "detector \<Rightarrow> (string, string) gomap" where "KnownMACSnapshot e = dt_knownMAC e"

definition RestoreKnownMAC :: "(string, string) gomap \<Rightarrow> detector \<Rightarrow> detector" where
  "RestoreKnownMAC m e = e\<lparr> dt_knownMAC := m \<rparr>"

text \<open>\<open>ResetLearningState\<close>; the history of the OT value anomalies is not modelled.\<close>

definition ResetLearningState :: "detector \<Rightarrow> detector" where
  "ResetLearningState e0 =
     (let e = RestoreKnownMAC [] (ResetBaseline e0)
      in on_policy resetPolicyLearningState
           (e\<lparr> dt_candidateMAC := [], dt_candidateCount := [], dt_hostScanSeen := [], dt_portScanSeen := [],
               dt_beaconHistory := [], dt_beaconLastTouch := [], dt_lateralFanout := [], dt_lateralTransfers := [],
               dt_lateralInboundAdmin := [], dt_c2NXDomains := [], dt_c2Subdomains := [],
               dt_segmentation := (dt_segmentation e)\<lparr> sg_ipVLAN := [], sg_ipVLANSeen := [] \<rparr> \<rparr>))"

text \<open>A configuration with every value left to its default, for examples.\<close>

definition demo_config :: detect_config where
  "demo_config = \<lparr> dc_learningDuration = 60 * minute, dc_arpConfirmThreshold = 3, dc_baselineEnabled = True,
     dc_deceptionScores = [], dc_honeypotThreshold = 50, dc_segmentationEnabled = False, dc_vlanLevels = [], dc_maxLevelJump = 1,
     dc_reconnaissanceEnabled = True, dc_reconWindow = 0, dc_hostScanThreshold = 0, dc_portScanThreshold = 0,
     dc_c2BeaconEnabled = True, dc_c2BeaconMinSamples = 0, dc_c2BeaconMaxCV = 0, dc_c2BeaconMinInterval = 0, dc_c2BeaconMaxInterval = 0,
     dc_c2BeaconMaxTrackedDests = 0 \<rparr>"

end
