(* ===== verification/Detect_Rules.thy ===== *)
theory Detect_Rules
  imports Detect_Baseline
begin

text \<open>
  internal/detect/rules.go: the operator's rules.  A rule is checked and completed before it is
  stored (\<open>normalizeRule\<close>), matched against every packet (\<open>ruleMatches\<close>), and changed by policy
  patches.  \<open>regexp.Compile\<close> of the standard library is the argument \<open>rx\<close>: the predicate of an expression, or \<open>None\<close>
  when it does not compile.  \<open>clk\<close> is \<open>time.Now()\<close>.
\<close>

section \<open>Numbers\<close>

text \<open>
  \<open>strconv.ParseFloat\<close> of a decimal: an optional sign, digits with an optional point, an optional
  exponent.  The value is exact; the forms inf, nan and hexadecimal are errors here.
\<close>

fun take_digits :: "nat \<Rightarrow> nat \<Rightarrow> string \<Rightarrow> nat \<times> nat \<times> string" where
  "take_digits acc n [] = (acc, n, [])"
| "take_digits acc n (c # cs) = (if dec_char c then take_digits (acc * 10 + (of_char c - 48)) (Suc n) cs else (acc, n, c # cs))"

definition split_sign :: "string \<Rightarrow> bool \<times> string" where
  "split_sign s = (case s of c # cs \<Rightarrow> if c = CHR ''-'' then (True, cs) else if c = CHR ''+'' then (False, cs) else (False, s) | [] \<Rightarrow> (False, []))"

definition parse_exponent :: "string \<Rightarrow> int option" where
  "parse_exponent s =
     (case s of
        [] \<Rightarrow> Some 0
      | c # cs \<Rightarrow>
          if c = CHR ''e'' \<or> c = CHR ''E'' then
            (let (neg, ds) = split_sign cs; (v, n, rest) = take_digits 0 0 ds
             in if n = 0 \<or> rest \<noteq> [] then None else Some (if neg then - int v else int v))
          else None)"

definition parse_float :: "string \<Rightarrow> rat option" where
  "parse_float s =
     (let (neg, body) = split_sign s;
          (whole, n, rest) = take_digits 0 0 body;
          (digits10, k, rest') = (case rest of c # cs \<Rightarrow> if c = CHR ''.'' then take_digits whole 0 cs else (whole, 0, rest) | [] \<Rightarrow> (whole, 0, []))
      in if n + k = 0 then None
         else case parse_exponent rest' of
                None \<Rightarrow> None
              | Some ex \<Rightarrow>
                  let shift = ex - int k;
                      m = (if shift \<ge> 0 then of_nat digits10 * 10 ^ nat shift else of_nat digits10 / 10 ^ nat (- shift))
                  in Some (if neg then - m else m))"

section \<open>Matching\<close>

definition RuleFields :: "string list" where
  "RuleFields = [''src_ip'', ''dst_ip'', ''either_ip'', ''src_mac'', ''dst_mac'', ''protocol'', ''src_port'', ''dst_port'', ''port'',
     ''vlan'', ''packet_size'', ''tcp_flags'']"

definition validField :: "string \<Rightarrow> bool" where "validField f \<longleftrightarrow> f \<in> set RuleFields"

definition RuleOperators :: "string list" where
  "RuleOperators = [''eq'', ''neq'', ''gt'', ''gte'', ''lt'', ''lte'', ''contains'', ''starts_with'', ''ends_with'', ''in'', ''not_in'',
     ''regex'', ''between'']"

definition validOperator :: "string \<Rightarrow> bool" where "validOperator o0 \<longleftrightarrow> to_lower o0 \<in> set RuleOperators"

type_synonym regexps = "string \<Rightarrow> (string \<Rightarrow> bool) option"

definition in_list :: "string \<Rightarrow> string \<Rightarrow> bool" where
  "in_list actual want \<longleftrightarrow> (\<exists>x \<in> set (split_on CHR '','' want). equal_fold (trim_space x) actual)"

definition in_range :: "string \<Rightarrow> string \<Rightarrow> bool" where
  "in_range actual want =
     (case split_on CHR '','' want of
        [l, h] \<Rightarrow> (case (parse_float actual, parse_float (trim_space l), parse_float (trim_space h)) of
            (Some a, Some lo, Some hi) \<Rightarrow> a \<ge> lo \<and> a \<le> hi
          | _ \<Rightarrow> False)
      | _ \<Rightarrow> False)"

definition num_compare :: "string \<Rightarrow> string \<Rightarrow> string \<Rightarrow> bool" where
  "num_compare actual op0 want =
     (case (parse_float actual, parse_float want) of
        (Some a, Some b) \<Rightarrow> if op0 = ''gt'' then a > b else if op0 = ''gte'' then a \<ge> b else if op0 = ''lt'' then a < b else a \<le> b
      | _ \<Rightarrow> False)"

text \<open>The two inner tests on the operator are on the text as written, not on the lowered one.\<close>

definition rule_compare :: "regexps \<Rightarrow> string \<Rightarrow> string \<Rightarrow> string \<Rightarrow> bool" where
  "rule_compare rx actual op0 want =
     (let p = to_lower op0 in
      if p = ''eq'' then equal_fold actual want
      else if p = ''neq'' then \<not> equal_fold actual want
      else if p = ''contains'' then go_contains (to_lower actual) (to_lower want)
      else if p = ''starts_with'' then has_prefix (to_lower actual) (to_lower want)
      else if p = ''ends_with'' then has_suffix (to_lower actual) (to_lower want)
      else if p = ''in'' \<or> p = ''not_in'' then (if op0 = ''not_in'' then \<not> in_list actual want else in_list actual want)
      else if p = ''regex'' then (case rx want of Some f \<Rightarrow> f actual | None \<Rightarrow> False)
      else if p = ''between'' then in_range actual want
      else if p = ''gt'' \<or> p = ''gte'' \<or> p = ''lt'' \<or> p = ''lte'' then num_compare actual op0 want
      else False)"

definition field_values :: "string \<Rightarrow> packet \<Rightarrow> string list" where
  "field_values f p =
     (if f = ''src_ip'' then [pk_SrcIP p]
      else if f = ''dst_ip'' then [pk_DstIP p]
      else if f = ''either_ip'' then [pk_SrcIP p, pk_DstIP p]
      else if f = ''src_mac'' then [pk_SrcMAC p]
      else if f = ''dst_mac'' then [pk_DstMAC p]
      else if f = ''protocol'' then [pk_L4Protocol p]
      else if f = ''src_port'' then [dec (unat (pk_SrcPort p))]
      else if f = ''dst_port'' then [dec (unat (pk_DstPort p))]
      else if f = ''port'' then [dec (unat (pk_SrcPort p)), dec (unat (pk_DstPort p))]
      else if f = ''vlan'' then [dec (unat (pk_VLANID p))]
      else if f = ''packet_size'' then [itoa (pk_Length p)]
      else if f = ''tcp_flags'' then [pk_TCPFlags p]
      else [[]])"

definition conditionMatches :: "regexps \<Rightarrow> rule_condition \<Rightarrow> packet \<Rightarrow> bool" where
  "conditionMatches rx c p \<longleftrightarrow> (\<exists>v \<in> set (field_values (co_Field c) p). rule_compare rx v (co_Operator c) (co_Value c))"

text \<open>The loop that joins the results of a group, or of the groups; \<open>start\<close> is what it returns without any.\<close>

fun join_loop :: "bool \<Rightarrow> bool \<Rightarrow> bool list \<Rightarrow> bool" where
  "join_loop both m [] = m"
| "join_loop both m (v # vs) = join_loop both (if both then m \<and> v else m \<or> v) vs"

definition join_results :: "string \<Rightarrow> bool list \<Rightarrow> bool" where
  "join_results op0 vs = (case vs of [] \<Rightarrow> op0 = ''AND'' | v # rest \<Rightarrow> join_loop (op0 = ''AND'') v rest)"

definition group_matches :: "regexps \<Rightarrow> packet \<Rightarrow> rule_group \<Rightarrow> bool" where
  "group_matches rx p g = join_results (gr_Operator g) (map (\<lambda>c. conditionMatches rx c p) (gr_Conditions g))"

definition ruleMatches :: "regexps \<Rightarrow> rule \<Rightarrow> packet \<Rightarrow> bool" where
  "ruleMatches rx r p = join_results (ru_GroupOperator r) (map (group_matches rx p) (ru_Groups r))"

section \<open>Checking and completing a rule\<close>

datatype rule_error =
    RuleNameEmpty | RuleSeverityUnknown | RuleGroupOperator | RuleNoCondition | GroupOperator | GroupEmpty | ConditionValueEmpty
  | ConditionField | ConditionOperator | ConditionRegex | RuleSuppression | RuleInterval | RuleNil | RuleIDRequired
  | RuleNotFound string | RulePriority | RuleParameter

definition severities :: "string list" where "severities = [''info'', ''low'', ''medium'', ''high'', ''critical'']"
definition suppression_modes :: "string list" where "suppression_modes = [''every'', ''once'', ''interval'', ''aggregate'']"

definition check_condition :: "regexps \<Rightarrow> rule_condition \<Rightarrow> rule_error option" where
  "check_condition rx c =
     (if trim_space (co_Value c) = [] then Some ConditionValueEmpty
      else if \<not> validField (co_Field c) then Some ConditionField
      else if \<not> validOperator (co_Operator c) then Some ConditionOperator
      else if co_Operator c = ''regex'' \<and> rx (co_Value c) = None then Some ConditionRegex
      else None)"

fun first_error :: "('a \<Rightarrow> rule_error option) \<Rightarrow> 'a list \<Rightarrow> rule_error option" where
  "first_error f [] = None"
| "first_error f (x # xs) = (case f x of Some er \<Rightarrow> Some er | None \<Rightarrow> first_error f xs)"

definition normal_operator :: "string \<Rightarrow> string" where
  "normal_operator s = (if to_upper s = [] then ''AND'' else to_upper s)"

fun normalize_groups :: "regexps \<Rightarrow> rule_group list \<Rightarrow> rule_error + rule_group list" where
  "normalize_groups rx [] = Inr []"
| "normalize_groups rx (g # gs) =
     (let op0 = normal_operator (gr_Operator g) in
      if op0 \<noteq> ''AND'' \<and> op0 \<noteq> ''OR'' then Inl GroupOperator
      else if gr_Conditions g = [] then Inl GroupEmpty
      else case first_error (check_condition rx) (gr_Conditions g) of
             Some er \<Rightarrow> Inl er
           | None \<Rightarrow> (case normalize_groups rx gs of Inl er \<Rightarrow> Inl er | Inr hs \<Rightarrow> Inr (g\<lparr> gr_Operator := op0 \<rparr> # hs)))"

definition rule_defaults :: "rule \<Rightarrow> rule" where
  "rule_defaults r = r\<lparr> ru_Priority := (if ru_Priority r = 0 then 100 else ru_Priority r),
     ru_Version := (if ru_Version r = 0 then 1 else ru_Version r),
     ru_GroupOperator := to_upper (if ru_GroupOperator r = [] then ''AND'' else ru_GroupOperator r) \<rparr>"

definition legacy_groups :: "rule \<Rightarrow> rule_group list" where
  "legacy_groups r =
     (if ru_Groups r = [] \<and> ru_Field r \<noteq> []
      then [\<lparr> gr_Operator = ''AND'', gr_Conditions = [\<lparr> co_Field = ru_Field r, co_Operator = ''eq'', co_Value = ru_Value r \<rparr>] \<rparr>]
      else ru_Groups r)"

definition with_actions :: "rule \<Rightarrow> rule" where
  "with_actions r = (if ru_Actions r = [] then r\<lparr> ru_Actions := [''alert''] \<rparr> else r)"

definition with_mode :: "rule \<Rightarrow> rule" where
  "with_mode r = r\<lparr> ru_Suppression := (ru_Suppression r)\<lparr> su_Mode := (if su_Mode (ru_Suppression r) = [] then ''aggregate'' else su_Mode (ru_Suppression r)) \<rparr> \<rparr>"

definition finish_rule :: "rule \<Rightarrow> rule_error + rule" where
  "finish_rule r0 =
     (let r = with_mode (with_actions r0); s = ru_Suppression r
      in if su_Mode s \<notin> set suppression_modes then Inl RuleSuppression
         else if su_Mode s = ''interval'' \<and> su_IntervalSeconds s \<le> 0 then Inl RuleInterval
         else Inr r)"

definition normalizeRule :: "regexps \<Rightarrow> rule \<Rightarrow> rule_error + rule" where
  "normalizeRule rx r0 =
     (if trim_space (ru_Name r0) = [] then Inl RuleNameEmpty
      else
        let r1 = (if ru_Severity r0 = [] then r0\<lparr> ru_Severity := ''medium'' \<rparr> else r0) in
        if ru_Severity r1 \<notin> set severities then Inl RuleSeverityUnknown
        else
          let r2 = rule_defaults r1 in
          if ru_GroupOperator r2 \<noteq> ''AND'' \<and> ru_GroupOperator r2 \<noteq> ''OR'' then Inl RuleGroupOperator
          else if legacy_groups r2 = [] then Inl RuleNoCondition
          else case normalize_groups rx (legacy_groups r2) of
                 Inl er \<Rightarrow> Inl er
               | Inr gs \<Rightarrow> finish_rule (r2\<lparr> ru_Groups := gs \<rparr>))"

section \<open>Operations on the rules\<close>

definition custom_type :: "rule \<Rightarrow> rule" where
  "custom_type r = r\<lparr> ru_AlertType := ''custom:'' @ ru_ID r \<rparr>"

definition AddPolicyRule :: "regexps \<Rightarrow> rule \<Rightarrow> detector \<Rightarrow> (rule_error + rule) \<times> detector" where
  "AddPolicyRule rx rule0 e =
     (case normalizeRule rx (rule0\<lparr> ru_Kind := RuleKindCustom \<rparr>) of
        Inl er \<Rightarrow> (Inl er, e)
      | Inr r \<Rightarrow>
          let n = dt_customRuleSeq e + 1;
              r1 = (if ru_ID r = [] then r\<lparr> ru_ID := ''custom-'' @ itoa n \<rparr> else r);
              r2 = custom_type r1
          in (Inr r2, e\<lparr> dt_customRuleSeq := n, dt_rules := mput (ru_ID r2) r2 (dt_rules e) \<rparr>))"

definition AddCustomRule :: "regexps \<Rightarrow> string \<Rightarrow> string \<Rightarrow> string \<Rightarrow> string \<Rightarrow> detector \<Rightarrow> (rule_error + rule) \<times> detector" where
  "AddCustomRule rx name field value severity e =
     AddPolicyRule rx (zero_rule\<lparr> ru_Name := name, ru_Kind := RuleKindCustom, ru_Enabled := True, ru_Field := field, ru_Value := value,
       ru_Severity := severity \<rparr>) e"

text \<open>The policy of a built-in rule that an operator controls; the rest stays as the product defines it.\<close>

definition override_policy :: "rule \<Rightarrow> rule \<Rightarrow> rule" where
  "override_policy c old =
     old\<lparr> ru_Enabled := ru_Enabled c, ru_Severity := (if ru_Severity c \<noteq> [] then ru_Severity c else ru_Severity old),
       ru_SeverityOverride := ru_SeverityOverride c, ru_Priority := (if ru_Priority c > 0 then ru_Priority c else ru_Priority old),
       ru_Simulation := ru_Simulation c,
       ru_Suppression := (if su_Mode (ru_Suppression c) \<noteq> [] then ru_Suppression c else ru_Suppression old),
       ru_Schedule := (if ru_Schedule c \<noteq> [] then ru_Schedule c else ru_Schedule old),
       ru_Parameters := (if ru_Parameters c \<noteq> None then ru_Parameters c else ru_Parameters old) \<rparr>"

definition upsert_checked :: "rule \<Rightarrow> detector \<Rightarrow> detector" where
  "upsert_checked c e =
     (case mget (dt_rules e) (ru_ID c) of
        Some old \<Rightarrow>
          if ru_Kind old = RuleKindBuiltin then
            e\<lparr> dt_rules := mput (ru_ID c)
                 ((override_policy c old)\<lparr> ru_Version := (if ru_Version c \<le> ru_Version old then ru_Version old + 1 else ru_Version c) \<rparr>)
                 (dt_rules e) \<rparr>
          else
            e\<lparr> dt_rules := mput (ru_ID c) (if ru_Version c \<le> ru_Version old then c\<lparr> ru_Version := ru_Version old + 1 \<rparr> else c) (dt_rules e) \<rparr>
      | None \<Rightarrow> e\<lparr> dt_rules := mput (ru_ID c) c (dt_rules e) \<rparr>)"

definition UpsertPolicyRule :: "regexps \<Rightarrow> rule \<Rightarrow> detector \<Rightarrow> rule_error option \<times> detector" where
  "UpsertPolicyRule rx rule0 e =
     (if ru_ID rule0 = [] then (Some RuleIDRequired, e)
      else
        let c = (if ru_Kind rule0 = [] then rule0\<lparr> ru_Kind := RuleKindCustom \<rparr> else rule0) in
        if ru_Kind c = RuleKindCustom then
          (case normalizeRule rx c of
             Inl er \<Rightarrow> (Some er, e)
           | Inr r \<Rightarrow> (None, upsert_checked (custom_type r) e))
        else (None, upsert_checked c e))"

record rule_patch =
  rp_ID :: string
  rp_Enabled :: "bool option"
  rp_Severity :: "string option"
  rp_SeverityOverride :: "bool option"
  rp_Priority :: "int option"
  rp_Simulation :: "bool option"
  rp_Suppression :: "rule_suppression option"
  rp_Schedule :: "string option"
  rp_Parameters :: "(string, rat) gomap option"

text \<open>
  \<open>ApplyRulePolicyPatch\<close> writes the live rule field by field and returns at the first error: what it
  wrote before stays.  A step is an error or nothing, and the rule after it.
\<close>

type_synonym patch_step = "rule \<Rightarrow> rule_error option \<times> rule"

definition patch_enabled :: "rule_patch \<Rightarrow> patch_step" where
  "patch_enabled p r = (None, case rp_Enabled p of Some b \<Rightarrow> r\<lparr> ru_Enabled := b \<rparr> | None \<Rightarrow> r)"

definition patch_severity :: "rule_patch \<Rightarrow> patch_step" where
  "patch_severity p r =
     (case rp_Severity p of
        None \<Rightarrow> (None, r)
      | Some s \<Rightarrow> let v = to_lower (trim_space s)
                  in if v \<in> set severities then (None, r\<lparr> ru_Severity := v, ru_SeverityOverride := True \<rparr>) else (Some RuleSeverityUnknown, r))"

definition patch_override :: "rule_patch \<Rightarrow> patch_step" where
  "patch_override p r =
     (case rp_SeverityOverride p of
        None \<Rightarrow> (None, r)
      | Some b \<Rightarrow>
          let r1 = r\<lparr> ru_SeverityOverride := b \<rparr>
          in (None, if \<not> b \<and> ru_Kind r = RuleKindBuiltin then
                      (case mget builtinRules (ru_ID r) of Some product \<Rightarrow> r1\<lparr> ru_Severity := ru_Severity product \<rparr> | None \<Rightarrow> r1)
                    else r1))"

definition patch_priority :: "rule_patch \<Rightarrow> patch_step" where
  "patch_priority p r =
     (case rp_Priority p of None \<Rightarrow> (None, r) | Some n \<Rightarrow> if n \<le> 0 then (Some RulePriority, r) else (None, r\<lparr> ru_Priority := n \<rparr>))"

definition patch_simulation :: "rule_patch \<Rightarrow> patch_step" where
  "patch_simulation p r = (None, case rp_Simulation p of Some b \<Rightarrow> r\<lparr> ru_Simulation := b \<rparr> | None \<Rightarrow> r)"

definition patch_suppression :: "rule_patch \<Rightarrow> patch_step" where
  "patch_suppression p r =
     (case rp_Suppression p of
        None \<Rightarrow> (None, r)
      | Some s \<Rightarrow>
          let v0 = to_lower (trim_space (su_Mode s)); v = (if v0 = [] then ''aggregate'' else v0)
          in if v \<notin> set suppression_modes then (Some RuleSuppression, r)
             else if v = ''interval'' \<and> su_IntervalSeconds s \<le> 0 then (Some RuleInterval, r)
             else (None, r\<lparr> ru_Suppression := s\<lparr> su_Mode := v \<rparr> \<rparr>))"

definition patch_schedule :: "rule_patch \<Rightarrow> patch_step" where
  "patch_schedule p r =
     (None, case rp_Schedule p of
        None \<Rightarrow> r
      | Some s \<Rightarrow> r\<lparr> ru_Schedule := (if trim_space s = [] then ''always'' else trim_space s) \<rparr>)"

definition patch_parameters :: "rule_patch \<Rightarrow> patch_step" where
  "patch_parameters p r =
     (case rp_Parameters p of
        None \<Rightarrow> (None, r)
      | Some m \<Rightarrow> if \<exists>(k, v) \<in> set m. trim_space k = [] \<or> v < 0 then (Some RuleParameter, r) else (None, r\<lparr> ru_Parameters := Some m \<rparr>))"

fun run_steps :: "patch_step list \<Rightarrow> patch_step" where
  "run_steps [] r = (None, r)"
| "run_steps (f # fs) r = (case f r of (Some er, r') \<Rightarrow> (Some er, r') | (None, r') \<Rightarrow> run_steps fs r')"

definition patch_rule :: "rule_patch \<Rightarrow> patch_step" where
  "patch_rule p = run_steps [patch_enabled p, patch_severity p, patch_override p, patch_priority p, patch_simulation p,
     patch_suppression p, patch_schedule p, patch_parameters p, \<lambda>r. (None, r\<lparr> ru_Version := ru_Version r + 1 \<rparr>)]"

definition ApplyRulePolicyPatch :: "rule_patch \<Rightarrow> detector \<Rightarrow> rule_error option \<times> detector" where
  "ApplyRulePolicyPatch p e =
     (case mget (dt_rules e) (rp_ID p) of
        None \<Rightarrow> (Some (RuleNotFound (rp_ID p)), e)
      | Some r \<Rightarrow> let (er, r') = patch_rule p r in (er, e\<lparr> dt_rules := mput (rp_ID p) r' (dt_rules e) \<rparr>))"

definition ToggleRule :: "string \<Rightarrow> bool \<Rightarrow> detector \<Rightarrow> bool \<times> detector" where
  "ToggleRule rid enabled e =
     (case mget (dt_rules e) rid of
        None \<Rightarrow> (False, e)
      | Some r \<Rightarrow> (True, e\<lparr> dt_rules := mput rid (r\<lparr> ru_Enabled := enabled, ru_Version := ru_Version r + 1 \<rparr>) (dt_rules e) \<rparr>))"

definition DeleteRule :: "string \<Rightarrow> detector \<Rightarrow> bool \<times> detector" where
  "DeleteRule rid e =
     (case mget (dt_rules e) rid of
        None \<Rightarrow> (False, e)
      | Some r \<Rightarrow> if ru_Kind r = RuleKindBuiltin then (False, e) else (True, e\<lparr> dt_rules := mdel rid (dt_rules e) \<rparr>))"

definition isRuleEnabled :: "string \<Rightarrow> detector \<Rightarrow> bool" where
  "isRuleEnabled rid e = (case mget (dt_rules e) rid of None \<Rightarrow> True | Some r \<Rightarrow> ru_Enabled r)"

definition managed_rule :: "regexps \<Rightarrow> rule \<Rightarrow> (string, rule) gomap \<Rightarrow> (string, rule) gomap" where
  "managed_rule rx c rs =
     (if ru_Kind c = RuleKindBuiltin then
        (case mget rs (ru_ID c) of
           Some x \<Rightarrow> mput (ru_ID c) ((override_policy c x)\<lparr> ru_Version := (if ru_Version c > 0 then ru_Version c else ru_Version x) \<rparr>) rs
         | None \<Rightarrow> rs)
      else case normalizeRule rx c of
             Inl er \<Rightarrow> rs
           | Inr r \<Rightarrow> mput (ru_ID r) (custom_type r) rs)"

definition ReplaceManagedRules :: "regexps \<Rightarrow> rule list \<Rightarrow> detector \<Rightarrow> detector" where
  "ReplaceManagedRules rx rules e =
     e\<lparr> dt_rules := fold (managed_rule rx) rules (filter (\<lambda>(_, r). ru_Kind r \<noteq> RuleKindCustom) (dt_rules e)) \<rparr>"

definition RestoreRules :: "regexps \<Rightarrow> rule list \<Rightarrow> detector \<Rightarrow> detector" where "RestoreRules = ReplaceManagedRules"

section \<open>Packets against the rules\<close>

definition custom_alert :: "rule \<Rightarrow> string \<Rightarrow> string \<Rightarrow> string \<Rightarrow> time \<Rightarrow> alert" where
  "custom_alert r key message ip now =
     \<lparr> al_ID = key, al_Type = ru_AlertType r, al_Severity = ru_Severity r, al_Message = message, al_IP = ip, al_AssetIdentity = [],
       al_Evidence = [], al_PreviousMAC = [], al_NewMAC = [], al_FirstSeen = now, al_LastSeen = 0, al_Count = 0, al_Status = AlertStatusNew,
       al_StatusChangedAt = 0, al_Synced = False, al_lastSyncTouch = 0 \<rparr>"

definition raiseCustomRuleAlert :: "time \<Rightarrow> rule \<Rightarrow> string \<Rightarrow> string \<Rightarrow> string \<Rightarrow> detector \<Rightarrow> detector" where
  "raiseCustomRuleAlert clk r key message ip e =
     (let (allowed, a) = (case mget (dt_alerts e) key of
              Some a0 \<Rightarrow> allowAlertOccurrence clk a0
            | None \<Rightarrow> (True, custom_alert r key message ip clk))
      in if allowed
         then e\<lparr> dt_alerts := mput key (a\<lparr> al_LastSeen := clk, al_Count := al_Count a + 1, al_Synced := False \<rparr>) (dt_alerts e) \<rparr>
         else e)"

definition update_rule :: "string \<Rightarrow> (rule \<Rightarrow> rule) \<Rightarrow> detector \<Rightarrow> detector" where
  "update_rule rid f e = (case mget (dt_rules e) rid of Some r \<Rightarrow> e\<lparr> dt_rules := mput rid (f r) (dt_rules e) \<rparr> | None \<Rightarrow> e)"

text \<open>\<open>quoted\<close> is \<open>%q\<close> of the name of the rule.\<close>

definition custom_key :: "time \<Rightarrow> rule \<Rightarrow> packet \<Rightarrow> string" where
  "custom_key now r p =
     (let k = ru_ID r @ ''|'' @ pk_SrcIP p @ ''|'' @ pk_DstIP p
      in if su_Mode (ru_Suppression r) = ''every'' then k @ ''|'' @ itoa (unix_nano now) else k)"

definition custom_message :: "(string \<Rightarrow> string) \<Rightarrow> rule \<Rightarrow> packet \<Rightarrow> string" where
  "custom_message quoted r p = ''Policy rule '' @ quoted (ru_Name r) @ '' matched: '' @ pk_SrcIP p @ '' -> '' @ pk_DstIP p"

definition custom_suppressed :: "time \<Rightarrow> rule \<Rightarrow> bool" where
  "custom_suppressed now r \<longleftrightarrow>
     \<not> is_zero_time (ru_LastTriggered r) \<and>
     (su_Mode (ru_Suppression r) = ''once'' \<or>
      (su_Mode (ru_Suppression r) = ''interval'' \<and> time_sub now (ru_LastTriggered r) < su_IntervalSeconds (ru_Suppression r) * second))"

definition apply_custom_rule :: "(string \<Rightarrow> string) \<Rightarrow> time \<Rightarrow> packet \<Rightarrow> rule \<Rightarrow> detector \<Rightarrow> detector" where
  "apply_custom_rule quoted now p r e =
     (if ru_Simulation r then update_rule (ru_ID r) (\<lambda>x. x\<lparr> ru_SimulationHits := ru_SimulationHits x + 1, ru_LastSimulationHit := now \<rparr>) e
      else
        let e1 = excludePacketFromLearning now p (''custom policy rule '' @ ru_ID r) e
        in if custom_suppressed now r then e1
           else update_rule (ru_ID r) (\<lambda>x. x\<lparr> ru_LastTriggered := now \<rparr>)
                  (raiseCustomRuleAlert now r (custom_key now r p) (custom_message quoted r p) (pk_SrcIP p) e1))"

definition matching_rules :: "regexps \<Rightarrow> string list \<Rightarrow> packet \<Rightarrow> detector \<Rightarrow> rule list" where
  "matching_rules rx ks p e =
     concat (map (\<lambda>k. case mget (dt_rules e) k of
        Some r \<Rightarrow> if ru_Kind r = RuleKindCustom \<and> ru_Enabled r \<and> ruleMatches rx r p then [r] else []
      | None \<Rightarrow> []) ks)"

text \<open>\<open>ks\<close> is the order in which the map of rules is visited.\<close>

definition handleCustomRules :: "regexps \<Rightarrow> (string \<Rightarrow> string) \<Rightarrow> string list \<Rightarrow> time \<Rightarrow> packet \<Rightarrow> detector \<Rightarrow> detector" where
  "handleCustomRules rx quoted ks now p e = fold (apply_custom_rule quoted now p) (matching_rules rx ks p e) e"

section \<open>The view of the rules\<close>

record rule_view =
  rv_Rule :: rule
  rv_HitCount :: u64
  rv_RetainedOccurrences :: u64
  rv_UniqueFindings :: u64
  rv_ActiveFindings :: u64
  rv_LastHit :: time
  rv_LastHitIP :: string
  rv_SimulationHits :: u64
  rv_LastSimulationHit :: time

text \<open>\<open>ks\<close> is the order in which the map of alerts is visited.\<close>

definition alerts_of_type :: "string \<Rightarrow> string list \<Rightarrow> detector \<Rightarrow> alert list" where
  "alerts_of_type t ks e = filter (\<lambda>a. al_Type a = t) (concat (map (\<lambda>k. case mget (dt_alerts e) k of Some a \<Rightarrow> [a] | None \<Rightarrow> []) ks))"

definition active_alert :: "time \<Rightarrow> alert \<Rightarrow> bool" where
  "active_alert now a \<longleftrightarrow> al_Status a \<noteq> AlertStatusApproved \<and> \<not> is_zero_time (al_LastSeen a) \<and> time_sub now (al_LastSeen a) \<le> alertEpisodeGap"

definition last_hit :: "alert list \<Rightarrow> time \<times> string" where
  "last_hit as = fold (\<lambda>a (t, ip). if al_LastSeen a > t then (al_LastSeen a, al_IP a) else (t, ip)) as (0, [])"

definition rule_view_of :: "time \<Rightarrow> string list \<Rightarrow> detector \<Rightarrow> rule \<Rightarrow> rule_view" where
  "rule_view_of now ks e r =
     (let as = alerts_of_type (ru_AlertType r) ks e; n = sum_list (map al_Count as); (t, ip) = last_hit as
      in \<lparr> rv_Rule = r, rv_HitCount = n, rv_RetainedOccurrences = n, rv_UniqueFindings = of_nat (length as),
           rv_ActiveFindings = of_nat (length (filter (active_alert now) as)), rv_LastHit = t, rv_LastHitIP = ip,
           rv_SimulationHits = ru_SimulationHits r, rv_LastSimulationHit = ru_LastSimulationHit r \<rparr>)"

definition view_less :: "rule_view \<Rightarrow> rule_view \<Rightarrow> bool" where
  "view_less x y =
     (if ru_Priority (rv_Rule x) = ru_Priority (rv_Rule y) then ru_Name (rv_Rule x) < ru_Name (rv_Rule y)
      else ru_Priority (rv_Rule x) < ru_Priority (rv_Rule y))"

definition GetRules :: "time \<Rightarrow> string list \<Rightarrow> detector \<Rightarrow> rule_view list" where
  "GetRules now ks e = go_sort view_less (map (rule_view_of now ks e) (mvals (dt_rules e)))"

definition GetRuleConfigs :: "detector \<Rightarrow> rule list" where "GetRuleConfigs e = mvals (dt_rules e)"

end
