(* ===== verification/Detect_Arp.thy ===== *)
theory Detect_Arp
  imports Detect_Baseline
begin

text \<open>
  internal/detect/arpspoof.go, identity_policy.go, asset_unconfirmed.go and \<open>ApproveAlert\<close> of engine.go:
  claims of an address by a hardware address, the announced host name of a device, new devices, and
  the analyst's approval, which is the only way a claimant becomes trusted.  \<open>clk\<close> is \<open>time.Now()\<close>.
\<close>

section \<open>Parameters and windows\<close>

text \<open>The conversion of a \<open>float64\<close> to an integer, towards zero.\<close>

definition go_trunc :: "rat \<Rightarrow> int" where
  "go_trunc x = (if x < 0 then - \<lfloor>- x\<rfloor> else \<lfloor>x\<rfloor>)"

definition window_parameter :: "detector \<Rightarrow> string \<Rightarrow> rat \<Rightarrow> duration \<Rightarrow> duration" where
  "window_parameter e rid fallback default0 =
     (let w = go_trunc (builtinParameter e rid ''window_seconds'' fallback) * second in if w \<le> 0 then default0 else w)"

definition count_parameter :: "detector \<Rightarrow> string \<Rightarrow> string \<Rightarrow> rat \<Rightarrow> int" where
  "count_parameter e rid key fallback = (let n = go_trunc (builtinParameter e rid key fallback) in if n < 1 then 1 else n)"

text \<open>A window of instants: the new one is appended, those before the window are dropped.\<close>

definition slide_window :: "time \<Rightarrow> duration \<Rightarrow> time list \<Rightarrow> time list" where
  "slide_window now window xs = filter (\<lambda>t. \<not> t < now - window) (xs @ [now])"

definition times_of :: "(string, time list) gomap \<Rightarrow> string \<Rightarrow> time list" where
  "times_of m k = (case mget m k of Some ts \<Rightarrow> ts | None \<Rightarrow> [])"

definition packet_time :: "time \<Rightarrow> packet \<Rightarrow> time" where
  "packet_time clk p = (if is_zero_time (pk_Timestamp p) then clk else pk_Timestamp p)"

section \<open>Address claims\<close>

definition maxGratuitous :: nat where "maxGratuitous = 256"

definition observeGratuitousARP :: "time \<Rightarrow> packet \<Rightarrow> time \<Rightarrow> detector \<Rightarrow> detector" where
  "observeGratuitousARP clk p now e =
     (if pk_ARPSrcIP p = [] \<or> pk_ARPSrcIP p \<noteq> pk_ARPDstIP p then e
      else
        let rid = ''builtin.gratuitous_arp_storm'';
            key = pk_ARPSrcIP p @ ''|'' @ pk_ARPSrcMAC p;
            window = window_parameter e rid 60 minute;
            threshold = count_parameter e rid ''events_threshold'' 20;
            xs = last_n maxGratuitous (slide_window now window (times_of (po_gratuitousARP (dt_policy e)) key));
            e1 = on_policy (\<lambda>q. q\<lparr> po_gratuitousARP := mput key xs (po_gratuitousARP q) \<rparr>) e;
            n = int (length xs)
        in if n \<ge> threshold
           then snd (raiseBuiltinAlert clk rid AlertGratuitousARPStorm ''medium'' (''garp-storm|'' @ key)
                  (pk_ARPSrcIP p @ ''/'' @ pk_ARPSrcMAC p @ '' emitted '' @ itoa n @ '' gratuitous ARP announcements within '' @ duration_text window)
                  (pk_ARPSrcIP p)
                  [(''ip'', E_string (pk_ARPSrcIP p)), (''mac'', E_string (pk_ARPSrcMAC p)), (''gratuitous_arp_count'', E_int n),
                   (''window_seconds'', E_float (of_int window / of_int second)), (''threshold'', E_int threshold)]
                  now window e1)
           else e1)"

definition isGatewayAsset :: "detector \<Rightarrow> string \<Rightarrow> bool" where
  "isGatewayAsset e ip =
     (case mget (po_assetContexts (dt_policy e)) ip of
        Some c \<Rightarrow> role_has [''gateway'', ''router'', ''firewall'', ''layer 3''] (ac_Role c)
      | None \<Rightarrow> False)"

definition isRedundancyVirtualMAC :: "string \<Rightarrow> bool" where
  "isRedundancyVirtualMAC mac =
     (let s = to_lower (replace_char CHR ''-'' CHR '':'' (trim_space mac))
      in has_prefix s ''00:00:5e:00:01:'' \<or> has_prefix s ''00:00:5e:00:02:'' \<or> has_prefix s ''00:00:0c:07:ac:'' \<or> has_prefix s ''00:00:0c:9f:f'')"

definition candidate_count :: "detector \<Rightarrow> string \<Rightarrow> int" where
  "candidate_count e ip = (case mget (dt_candidateCount e) ip of Some n \<Rightarrow> n | None \<Rightarrow> 0)"

text \<open>The state of the claims after a claim; the flag says whether it conflicts with the trusted one.\<close>

definition learn_claim :: "string \<Rightarrow> string \<Rightarrow> detector \<Rightarrow> bool \<times> detector" where
  "learn_claim ip mac e =
     (case mget (dt_knownMAC e) ip of
        None \<Rightarrow> (False, e\<lparr> dt_knownMAC := mput ip mac (dt_knownMAC e) \<rparr>)
      | Some known \<Rightarrow>
          if known = mac then
            (False, e\<lparr> dt_candidateMAC := mdel ip (dt_candidateMAC e), dt_candidateCount := mdel ip (dt_candidateCount e) \<rparr>)
          else if mtext (dt_candidateMAC e) ip = mac then
            (True, e\<lparr> dt_candidateCount := mput ip (candidate_count e ip + 1) (dt_candidateCount e) \<rparr>)
          else
            (True, e\<lparr> dt_candidateMAC := mput ip mac (dt_candidateMAC e), dt_candidateCount := mput ip 1 (dt_candidateCount e) \<rparr>))"

definition arp_key :: "string \<Rightarrow> string \<Rightarrow> string \<Rightarrow> string" where
  "arp_key ip known mac = ''arp|'' @ ip @ ''|'' @ known @ ''|'' @ mac"

definition arp_evidence :: "string \<Rightarrow> string \<Rightarrow> string \<Rightarrow> int \<Rightarrow> evidence" where
  "arp_evidence ip known mac n =
     [(''ip'', E_string ip), (''previous_mac'', E_string known), (''new_mac'', E_string mac), (''candidate_claims'', E_int n)]"

definition conflict_message :: "string \<Rightarrow> string \<Rightarrow> string \<Rightarrow> string" where
  "conflict_message ip known mac = ip @ '' is claimed by '' @ mac @ '', previously '' @ known"

definition note_macs :: "string \<Rightarrow> string \<Rightarrow> string \<Rightarrow> detector \<Rightarrow> detector" where
  "note_macs key known mac e =
     (case mget (dt_alerts e) key of
        Some a \<Rightarrow> e\<lparr> dt_alerts := mput key (a\<lparr> al_PreviousMAC := known, al_NewMAC := mac \<rparr>) (dt_alerts e) \<rparr>
      | None \<Rightarrow> e)"

definition raise_conflict :: "time \<Rightarrow> string \<Rightarrow> string \<Rightarrow> string \<Rightarrow> int \<Rightarrow> time \<Rightarrow> detector \<Rightarrow> detector" where
  "raise_conflict clk ip known mac n now e =
     note_macs (arp_key ip known mac) known mac
       (snd (raiseBuiltinAlert clk AlertARPSpoof AlertARPSpoof ''high'' (arp_key ip known mac)
          (conflict_message ip known mac) ip (arp_evidence ip known mac n) now alertEpisodeGap e))"

definition raise_duplicate :: "time \<Rightarrow> string \<Rightarrow> string \<Rightarrow> string \<Rightarrow> int \<Rightarrow> time \<Rightarrow> detector \<Rightarrow> detector" where
  "raise_duplicate clk ip known mac n now e =
     snd (raiseBuiltinAlert clk ''builtin.duplicate_ip'' AlertDuplicateIP ''high'' (''duplicate-ip|'' @ ip @ ''|'' @ known @ ''|'' @ mac)
       (''Duplicate IP identity: '' @ ip @ '' is persistently claimed by both '' @ known @ '' and '' @ mac) ip (arp_evidence ip known mac n)
       now alertEpisodeGap e)"

definition raise_gateway :: "time \<Rightarrow> string \<Rightarrow> string \<Rightarrow> string \<Rightarrow> int \<Rightarrow> time \<Rightarrow> detector \<Rightarrow> detector" where
  "raise_gateway clk ip known mac n now e =
     snd (raiseBuiltinAlert clk ''builtin.gateway_mac_changed'' AlertGatewayMACChanged ''critical''
       (''gateway-mac|'' @ ip @ ''|'' @ known @ ''|'' @ mac)
       (''Gateway/router '' @ ip @ '' MAC identity changed from '' @ known @ '' to '' @ mac) ip (arp_evidence ip known mac n)
       now alertEpisodeGap e)"

definition escalate_conflict :: "time \<Rightarrow> string \<Rightarrow> string \<Rightarrow> string \<Rightarrow> int \<Rightarrow> time \<Rightarrow> detector \<Rightarrow> detector" where
  "escalate_conflict clk ip known mac n now e =
     (if n \<ge> dt_arpConfirmThreshold e then
        let e1 = raise_duplicate clk ip known mac n now e
        in if isGatewayAsset e1 ip then raise_gateway clk ip known mac n now e1 else e1
      else e)"

definition handleARP :: "time \<Rightarrow> packet \<Rightarrow> detector \<Rightarrow> detector" where
  "handleARP clk p e0 =
     (let ip = pk_ARPSrcIP p; mac = pk_ARPSrcMAC p in
      if ip = [] \<or> ip = ''0.0.0.0'' \<or> mac = [] then e0
      else
        let now = packet_time clk p;
            e1 = observeGratuitousARP clk p now e0;
            known = mtext (dt_knownMAC e1) ip;
            (conflict, e2) = learn_claim ip mac e1;
            n = candidate_count e2 ip
        in if \<not> conflict \<or> (isRedundancyVirtualMAC known \<and> isRedundancyVirtualMAC mac) then e2
           else escalate_conflict clk ip known mac n now (raise_conflict clk ip known mac n now e2))"

text \<open>The subscriber: ARP packets, and IPv6 neighbour discovery as a claim.\<close>

definition handle_claim_packet :: "time \<Rightarrow> packet \<Rightarrow> detector \<Rightarrow> detector" where
  "handle_claim_packet clk p e =
     (if pk_L4Protocol p = ''ARP'' then handleARP clk p e
      else if pk_NDPSrcIP p \<noteq> [] then handleARP clk (p\<lparr> pk_ARPSrcIP := pk_NDPSrcIP p, pk_ARPSrcMAC := pk_NDPSrcMAC p \<rparr>) e
      else e)"

section \<open>Host names and new devices\<close>

definition observeHostnameIdentity :: "time \<Rightarrow> string \<Rightarrow> string \<Rightarrow> string \<Rightarrow> detector \<Rightarrow> detector" where
  "observeHostnameIdentity clk mac0 hostname source e =
     (let mac = to_lower (trim_space mac0); name = to_lower (trim_suffix (trim_space hostname) ''.'');
          previous = mtext (po_hostnameByMAC (dt_policy e)) mac
      in if mac = [] \<or> name = [] then e
         else if previous = [] \<or> behaviorDetectionsSuppressed e then on_policy (\<lambda>q. q\<lparr> po_hostnameByMAC := mput mac name (po_hostnameByMAC q) \<rparr>) e
         else if previous = name then e
         else snd (raiseBuiltinAlert clk ''builtin.asset_identity_drift'' AlertAssetIdentityDrift ''high''
                (''identity-hostname|'' @ mac @ ''|'' @ previous @ ''|'' @ name)
                (''Asset '' @ mac @ '' changed announced hostname from '' @ previous @ '' to '' @ name) []
                [(''mac'', E_string mac), (''previous_hostname'', E_string previous), (''new_hostname'', E_string name), (''source'', E_string source)]
                clk (30 * minute) e))"

definition handleAssetUnconfirmed :: "time \<Rightarrow> string \<Rightarrow> string \<Rightarrow> detector \<Rightarrow> detector" where
  "handleAssetUnconfirmed clk mac ip e =
     (if behaviorDetectionsSuppressed e \<or> mac = [] then e
      else snd (raiseBuiltinAlert clk AlertNewAsset AlertNewAsset ''medium'' (''newasset|'' @ mac)
             (if ip \<noteq> [] then ''New device detected: '' @ mac @ '' ('' @ ip @ '')'' else ''New device detected: '' @ mac)
             ip [(''mac'', E_string mac), (''ip'', E_string ip)] clk alertEpisodeGap e))"

section \<open>Approval\<close>

definition evidenceString :: "evidence \<Rightarrow> string \<Rightarrow> string" where
  "evidenceString v k = (case mget v k of Some (E_string s) \<Rightarrow> trim_space s | _ \<Rightarrow> [])"

definition u16_of_int :: "int \<Rightarrow> u16" where
  "u16_of_int n = (if 0 \<le> n \<and> n \<le> 65535 then of_int n else 0)"

definition evidenceUint16 :: "evidence \<Rightarrow> string \<Rightarrow> u16" where
  "evidenceUint16 v k =
     (case mget v k of
        Some (E_u16 w) \<Rightarrow> w
      | Some (E_u64 w) \<Rightarrow> u16_of_int (uint w)
      | Some (E_int n) \<Rightarrow> u16_of_int n
      | Some (E_float x) \<Rightarrow> if 0 \<le> x \<and> x \<le> 65535 then of_int (go_trunc x) else 0
      | Some (E_string s) \<Rightarrow> (case parse_u16 (trim_space s) of Some w \<Rightarrow> w | None \<Rightarrow> 0)
      | _ \<Rightarrow> 0)"

definition first_text :: "string \<Rightarrow> string \<Rightarrow> string" where "first_text a b = (if a = [] then b else a)"

definition approve_pattern :: "alert \<Rightarrow> detector \<Rightarrow> detector" where
  "approve_pattern a e =
     (if al_Type a = AlertNewCommunication
      then e\<lparr> dt_learnedPatterns := mput (first_text (evidenceString (al_Evidence a) ''baseline_key'') (al_ID a)) True (dt_learnedPatterns e) \<rparr>
      else e)"

definition approve_identity :: "alert \<Rightarrow> detector \<Rightarrow> detector" where
  "approve_identity a e =
     (let newMAC = first_text (al_NewMAC a) (evidenceString (al_Evidence a) ''new_mac'') in
      if al_Type a \<in> {AlertARPSpoof, AlertDuplicateIP, AlertGatewayMACChanged} \<and> al_IP a \<noteq> [] \<and> newMAC \<noteq> []
      then e\<lparr> dt_knownMAC := mput (al_IP a) newMAC (dt_knownMAC e), dt_candidateMAC := mdel (al_IP a) (dt_candidateMAC e),
              dt_candidateCount := mdel (al_IP a) (dt_candidateCount e) \<rparr>
      else e)"

definition approve_relation :: "alert \<Rightarrow> policy \<Rightarrow> policy" where
  "approve_relation a q =
     (let v = al_Evidence a; t = al_Type a;
          src = first_text (evidenceString v ''source_ip'') (evidenceString v ''client_ip'');
          dst0 = first_text (evidenceString v ''target_ip'') (evidenceString v ''destination_ip'');
          dst = (if dst0 = [] \<and> t = AlertUnexpectedOTProtocol then al_IP a else dst0);
          protocol = first_text (evidenceString v ''protocol'') (evidenceString v ''ot_protocol'');
          port0 = evidenceUint16 v ''service_port'';
          port = (if port0 = 0 then evidenceUint16 v ''destination_port'' else port0)
      in if t \<in> {AlertUnauthorizedOTCommand, AlertUnauthorizedOTWrite, AlertUnexpectedEngineeringAccess}
         then approveOTAccessRelationship src dst protocol port True q
         else if t = AlertDirectOTProtocolAccess \<or> t = AlertUnexpectedOTProtocol then approveOTAccessRelationship src dst protocol port False q
         else if t = AlertUnauthorizedTimeChange then approveOTTimeSource src dst q
         else if t = AlertFirstSeenRemoteManagement \<or> t = AlertRemoteAdminIntoOT then approveRemoteManagement src dst port q
         else if t = AlertSMBIntoOT then approveRemoteManagement src dst 445 q
         else q)"

definition ApproveAlert :: "time \<Rightarrow> string \<Rightarrow> detector \<Rightarrow> bool \<times> detector" where
  "ApproveAlert clk aid e =
     (case mget (dt_alerts e) aid of
        None \<Rightarrow> (False, e)
      | Some a0 \<Rightarrow>
          let a = a0\<lparr> al_Status := AlertStatusApproved, al_StatusChangedAt := clk, al_Synced := False \<rparr>;
              e1 = e\<lparr> dt_alerts := mput aid a (dt_alerts e) \<rparr>
          in (True, on_policy (approve_relation a) (approve_identity a (approve_pattern a e1))))"

end
