(* ===== verification/Detect_Review.thy ===== *)
theory Detect_Review
  imports Detect_Rules Detect_Arp
begin

text \<open>
  The life of an alert of internal/detect: how its occurrences are counted, what an approval does and
  how long it lasts, what a suppression hides.
\<close>

section \<open>One raise\<close>

text \<open>A rule that raises: enabled, always on, not simulated, with the default suppression.\<close>

definition aggregating :: "rule \<Rightarrow> bool" where
  "aggregating r \<longleftrightarrow> ru_Enabled r \<and> ru_Schedule r = ''always'' \<and> \<not> ru_Simulation r \<and> su_Mode (ru_Suppression r) = ''aggregate''"

lemma always_allows [simp]: "scheduleAllows ''always'' t"
proof -
  have "trim_space (to_lower ''always'') = ''always''" by code_simp
  then show ?thesis by (simp add: scheduleAllows_def)
qed

lemma aggregate_mode: "su_Mode (ru_Suppression r) = ''aggregate'' \<Longrightarrow> suppression_mode r = ''aggregate''"
proof -
  have "to_lower (trim_space ''aggregate'') = ''aggregate''" by code_simp
  then show "su_Mode (ru_Suppression r) = ''aggregate'' \<Longrightarrow> suppression_mode r = ''aggregate''" by (simp add: suppression_mode_def)
qed

lemma interval_mode: "su_Mode (ru_Suppression r) = ''interval'' \<Longrightarrow> suppression_mode r = ''interval''"
proof -
  have "to_lower (trim_space ''interval'') = ''interval''" by code_simp
  then show "su_Mode (ru_Suppression r) = ''interval'' \<Longrightarrow> suppression_mode r = ''interval''" by (simp add: suppression_mode_def)
qed

lemma ensure_present [simp]: "mget (dt_rules e) rid = Some r \<Longrightarrow> ensure_rule rid e = e"
  by (simp add: ensure_rule_def)

lemma raise_aggregating:
  "mget (dt_rules e) rid = Some r \<Longrightarrow> aggregating r \<Longrightarrow>
    raiseBuiltinAlertLocked rid t sev key msg ip v now gap e = store_alert rid r t (builtin_severity sev r) key msg ip v now gap e"
  by (simp add: raiseBuiltinAlertLocked_def aggregating_def suppressed_now_def aggregate_mode)

definition asset_key :: "detector \<Rightarrow> string \<Rightarrow> string \<Rightarrow> string" where
  "asset_key e key ip = (if asset_identity e ip \<noteq> [] then key @ ''|asset='' @ asset_identity e ip else key)"

lemma alert_key_aggregating: "aggregating r \<Longrightarrow> alert_key e key ip r now = asset_key e key ip"
  by (simp add: alert_key_def asset_key_def aggregating_def aggregate_mode)

lemma asset_identity_frame: "alerts_and_rules_only e e' \<Longrightarrow> asset_identity e' ip = asset_identity e ip"
  by (simp add: asset_identity_def frame_fields)

lemma asset_key_frame: "alerts_and_rules_only e e' \<Longrightarrow> asset_key e' key ip = asset_key e key ip"
  by (simp add: asset_key_def asset_identity_frame)

text \<open>The evidence that is stored with the alert.\<close>

definition asset_evidence :: "detector \<Rightarrow> string \<Rightarrow> evidence \<Rightarrow> evidence" where
  "asset_evidence e ip v = (if asset_identity e ip \<noteq> [] then mput ''asset_identity'' (E_string (asset_identity e ip)) v else v)"

definition raised_alert :: "detector \<Rightarrow> string \<Rightarrow> string \<Rightarrow> string \<Rightarrow> string \<Rightarrow> string \<Rightarrow> evidence \<Rightarrow> time \<Rightarrow> alert" where
  "raised_alert e t sev key msg ip v now =
     (case mget (dt_alerts e) (asset_key e key ip) of
        Some a \<Rightarrow> refresh_alert t sev msg ip (asset_identity e ip) (asset_evidence e ip v) a
      | None \<Rightarrow> new_alert (asset_key e key ip) t sev msg ip (asset_identity e ip) now (asset_evidence e ip v))"

lemma store_aggregating:
  assumes "aggregating r" and "\<And>a. mget (dt_alerts e) (asset_key e key ip) = Some a \<Longrightarrow> al_Status a \<noteq> AlertStatusApproved"
  shows "store_alert rid r t sev key msg ip v now gap e =
    (fst (recordEpisodeAlert now now gap (raised_alert e t sev key msg ip v now)),
     e\<lparr> dt_rules := mput rid (r\<lparr> ru_LastTriggered := now \<rparr>) (dt_rules e),
        dt_alerts := mput (asset_key e key ip) (snd (recordEpisodeAlert now now gap (raised_alert e t sev key msg ip v now))) (dt_alerts e) \<rparr>)"
proof -
  have m: "suppression_mode r = ''aggregate''" using assms(1) by (simp add: aggregating_def aggregate_mode)
  show ?thesis
    using assms(2) unfolding store_alert_def Let_def alert_key_aggregating [OF assms(1)] m raised_alert_def asset_evidence_def
    by (simp split: option.split prod.split)
qed

section \<open>Occurrences are episodes\<close>

text \<open>The number of episodes of a condition that is observed at the given instants.\<close>

fun episodes_after :: "duration \<Rightarrow> time \<Rightarrow> time list \<Rightarrow> nat" where
  "episodes_after gap t [] = 0"
| "episodes_after gap t (u # us) = (if u - t > gap then 1 else 0) + episodes_after gap u us"

definition episodes :: "duration \<Rightarrow> time list \<Rightarrow> nat" where
  "episodes gap ts = (case ts of [] \<Rightarrow> 0 | t # us \<Rightarrow> Suc (episodes_after gap t us))"

lemma episodes_after_le: "episodes_after gap t us \<le> length us"
  by (induction us arbitrary: t) (auto intro: le_SucI)

definition raise_at :: "string \<Rightarrow> string \<Rightarrow> string \<Rightarrow> string \<Rightarrow> string \<Rightarrow> string \<Rightarrow> evidence \<Rightarrow> duration \<Rightarrow> time \<Rightarrow> detector \<Rightarrow> detector" where
  "raise_at rid t sev key msg ip v gap now e = snd (raiseBuiltinAlertLocked rid t sev key msg ip v now gap e)"

lemma record_counts:
  assumes "al_Status a \<noteq> AlertStatusApproved" and "now \<noteq> 0" and "0 < gap" "gap < 2 ^ 63 - 1"
  shows "al_Count (snd (recordEpisodeAlert clk now gap a)) =
      (if al_Count a = 0 \<or> al_LastSeen a = 0 \<or> now - al_LastSeen a > gap then al_Count a + 1 else al_Count a) \<and>
    al_LastSeen (snd (recordEpisodeAlert clk now gap a)) = now \<and> al_Status (snd (recordEpisodeAlert clk now gap a)) \<noteq> AlertStatusApproved"
proof -
  have g: "\<not> gap \<le> 0" "time_sub now x > gap \<longleftrightarrow> now - x > gap" for x
    using assms(3,4) time_sub_le_iff [of gap now x] by (auto simp: not_le [symmetric])
  have st: "AlertStatusNew \<noteq> AlertStatusApproved" by (simp add: AlertStatusNew_def AlertStatusApproved_def)
  show ?thesis
    using assms(1,2) st by (auto simp: recordEpisodeAlert_def is_zero_time_def g Let_def)
qed

lemma raised_alert_fields:
  "mget (dt_alerts e) (asset_key e key ip) = Some a \<Longrightarrow>
    al_Count (raised_alert e t sev key msg ip v now) = al_Count a \<and> al_LastSeen (raised_alert e t sev key msg ip v now) = al_LastSeen a \<and>
    al_Status (raised_alert e t sev key msg ip v now) = al_Status a"
  by (simp add: raised_alert_def refresh_alert_def)

lemma raised_alert_new:
  "mget (dt_alerts e) (asset_key e key ip) = None \<Longrightarrow>
    al_Count (raised_alert e t sev key msg ip v now) = 0 \<and> al_Status (raised_alert e t sev key msg ip v now) = AlertStatusNew"
  by (simp add: raised_alert_def new_alert_def)

text \<open>The state between two observations: the rule still aggregates, the alert has counted so far.\<close>

definition counting :: "string \<Rightarrow> string \<Rightarrow> u64 \<Rightarrow> time \<Rightarrow> detector \<Rightarrow> bool" where
  "counting rid k n t e \<longleftrightarrow> (\<exists>r. mget (dt_rules e) rid = Some r \<and> aggregating r) \<and>
     (\<exists>a. mget (dt_alerts e) k = Some a \<and> al_Status a \<noteq> AlertStatusApproved \<and> al_Count a = n \<and> al_LastSeen a = t)"

lemma raise_at_frame: "alerts_and_rules_only e (raise_at rid t sev key msg ip v gap now e)"
  unfolding raise_at_def by (rule raise_frame)

lemma raise_at_counts:
  assumes c: "counting rid (asset_key e key ip) n t0 e" and t: "now \<noteq> 0" "t0 \<noteq> 0" "0 < gap" "gap < 2 ^ 63 - 1" and n: "n \<noteq> 0"
  shows "counting rid (asset_key e key ip) (if now - t0 > gap then n + 1 else n) now (raise_at rid t sev key msg ip v gap now e)"
proof -
  obtain r a where r: "mget (dt_rules e) rid = Some r" "aggregating r"
    and a: "mget (dt_alerts e) (asset_key e key ip) = Some a" "al_Status a \<noteq> AlertStatusApproved" "al_Count a = n" "al_LastSeen a = t0"
    using c by (auto simp: counting_def)
  let ?x = "raised_alert e t (builtin_severity sev r) key msg ip v now"
  have x: "al_Status ?x \<noteq> AlertStatusApproved" "al_Count ?x = n" "al_LastSeen ?x = t0" using raised_alert_fields [OF a(1)] a by auto
  have "aggregating (r\<lparr> ru_LastTriggered := now \<rparr>)" using r(2) by (simp add: aggregating_def)
  with store_aggregating [OF r(2), of e key ip rid t "builtin_severity sev r" msg v now gap] raise_aggregating [OF r] a
    record_counts [OF x(1) t(1,3,4), of now] x t(2) n
  show ?thesis by (auto simp: raise_at_def counting_def)
qed

lemma raise_at_starts:
  assumes r: "mget (dt_rules e) rid = Some r" "aggregating r" and k: "mget (dt_alerts e) (asset_key e key ip) = None"
    and t: "now \<noteq> 0" "0 < gap" "gap < 2 ^ 63 - 1"
  shows "counting rid (asset_key e key ip) 1 now (raise_at rid t sev key msg ip v gap now e)"
proof -
  let ?x = "raised_alert e t (builtin_severity sev r) key msg ip v now"
  have x: "al_Status ?x \<noteq> AlertStatusApproved" "al_Count ?x = 0"
    using raised_alert_new [OF k] by (simp_all add: AlertStatusNew_def AlertStatusApproved_def)
  have "aggregating (r\<lparr> ru_LastTriggered := now \<rparr>)" using r(2) by (simp add: aggregating_def)
  with store_aggregating [OF r(2), of e key ip rid t "builtin_severity sev r" msg v now gap] raise_aggregating [OF r] k
    record_counts [OF x(1) t, of now] x
  show ?thesis by (auto simp: raise_at_def counting_def)
qed

lemma raise_run_counts:
  assumes "counting rid k n t0 e" and "k = asset_key e key ip" and "t0 \<noteq> 0" and "\<forall>u \<in> set us. u \<noteq> 0"
    and "0 < gap" "gap < 2 ^ 63 - 1" and "0 < unat n" and "unat n + length us < 2 ^ 64"
  shows "counting rid k (n + of_nat (episodes_after gap t0 us)) (last (t0 # us)) (fold (raise_at rid t sev key msg ip v gap) us e)"
  using assms
proof (induction us arbitrary: e n t0)
  case Nil
  then show ?case by simp
next
  case (Cons u us)
  let ?e = "raise_at rid t sev key msg ip v gap u e" and ?n = "if u - t0 > gap then n + 1 else n"
  have c: "counting rid k ?n u ?e"
  proof -
    have "n \<noteq> 0" using Cons.prems(7) by auto
    with raise_at_counts [of rid e key ip n t0 u gap t sev msg v] Cons.prems show ?thesis by auto
  qed
  have k: "k = asset_key ?e key ip"
    using asset_key_frame [OF raise_at_frame [of e rid t sev key msg ip v gap u], of key ip] Cons.prems(2) by simp
  have n: "0 < unat ?n" "unat ?n + length us < 2 ^ 64"
    using Cons.prems(7,8) by (auto simp: unat_word_ariths)
  have "counting rid k (?n + of_nat (episodes_after gap u us)) (last (u # us)) (fold (raise_at rid t sev key msg ip v gap) us ?e)"
    by (rule Cons.IH) (use c k n Cons.prems in auto)
  moreover have "?n + of_nat (episodes_after gap u us) = n + of_nat (episodes_after gap t0 (u # us))" by (simp add: ac_simps)
  ultimately show ?case by simp
qed

text \<open>
  C27: An alert of an aggregating rule counts episodes, not packets.  Let the rule be enabled, on at all
  times, not in simulation and of the suppression mode aggregate, and let there be no alert for the
  condition and the device yet.  Then a condition that a detector reports at any instants, one after the
  other, has an alert whose count is the number of reports that follow a pause longer than the gap
  (the first included), and whose last occurrence is the last report.
\<close>

theorem alert_counts_episodes:
  assumes "mget (dt_rules e) rid = Some r" and "aggregating r" and "mget (dt_alerts e) (asset_key e key ip) = None"
    and "ts \<noteq> []" and "\<forall>t \<in> set ts. t \<noteq> 0" and "0 < gap" "gap < 2 ^ 63 - 1" and "length ts < 2 ^ 64"
  shows "\<exists>a. mget (dt_alerts (fold (raise_at rid t sev key msg ip v gap) ts e)) (asset_key e key ip) = Some a \<and>
    al_Count a = of_nat (episodes gap ts) \<and> al_LastSeen a = last ts"
proof -
  obtain u us where ts: "ts = u # us" using assms(4) by (cases ts) auto
  let ?e = "raise_at rid t sev key msg ip v gap u e"
  have c: "counting rid (asset_key e key ip) 1 u ?e"
    by (rule raise_at_starts [OF assms(1-3)]) (use assms ts in auto)
  have k: "asset_key e key ip = asset_key ?e key ip"
    using asset_key_frame [OF raise_at_frame [of e rid t sev key msg ip v gap u], of key ip] by simp
  have "counting rid (asset_key e key ip) (1 + of_nat (episodes_after gap u us)) (last (u # us)) (fold (raise_at rid t sev key msg ip v gap) us ?e)"
    by (rule raise_run_counts [OF c k]) (use assms ts in auto)
  then show ?thesis by (auto simp: counting_def ts episodes_def)
qed

lemma builtin_seed_plain: "\<forall>r \<in> set builtin_seed. su_Mode (ru_Suppression r) = [] \<and> ru_Schedule r = []"
proof -
  have "list_all (\<lambda>r. su_Mode (ru_Suppression r) = [] \<and> ru_Schedule r = []) builtin_seed" by code_simp
  then show ?thesis by (simp add: list_all_iff)
qed

text \<open>The catalogue's rules raise at once, apart from those that start in simulation.\<close>

lemma shipped_aggregates:
  assumes "mget builtinRules rid = Some r" and "rid \<notin> set simulated_ids"
  shows "aggregating r"
proof -
  from assms(1) obtain r0 where r0: "find (\<lambda>r. ru_ID r = rid) builtin_seed = Some r0" "r = ship_builtin r0"
    by (auto simp: builtinRules_get)
  then have "r0 \<in> set builtin_seed" "ru_ID r0 = rid" by (auto simp: find_Some_iff)
  with builtin_seed_plain assms(2) r0(2) show ?thesis by (simp add: aggregating_def ship_builtin_def)
qed

lemma arp_rule: "\<exists>r. mget (dt_rules (NewDetector c)) AlertARPSpoof = Some r \<and> aggregating r"
proof -
  have "mget builtinRules AlertARPSpoof \<noteq> None" unfolding builtinRules_get by (simp add: builtin_seed_def builtin_def AlertARPSpoof_def)
  moreover have "AlertARPSpoof \<notin> set simulated_ids" by (simp add: simulated_ids_def AlertARPSpoof_def)
  ultimately show ?thesis using shipped_aggregates by (auto simp: NewDetector_def)
qed

theorem alert_counts_episodes_witness:
  "\<exists>a. mget (dt_alerts (fold (raise_at AlertARPSpoof AlertARPSpoof ''high'' ''k'' ''m'' ''10.0.0.1'' [] minute) [second, 2 * second, 90 * second] (NewDetector demo_config)))
       (asset_key (NewDetector demo_config) ''k'' ''10.0.0.1'') = Some a \<and> al_Count a = 2"
proof -
  obtain r where r: "mget (dt_rules (NewDetector demo_config)) AlertARPSpoof = Some r" "aggregating r" using arp_rule by blast
  have k: "mget (dt_alerts (NewDetector demo_config)) (asset_key (NewDetector demo_config) ''k'' ''10.0.0.1'') = None" by (simp add: NewDetector_def)
  have ts: "[second, 2 * second, 90 * second] \<noteq> []" "\<forall>t \<in> set [second, 2 * second, 90 * second]. t \<noteq> 0" "0 < minute" "minute < 2 ^ 63 - 1"
    "length [second, 2 * second, 90 * second] < 2 ^ 64" "episodes minute [second, 2 * second, 90 * second] = 2"
    by (simp_all add: second_def minute_def episodes_def)
  from alert_counts_episodes [OF r k ts(1-5), of AlertARPSpoof "''high''" "''m''" "[]"] show ?thesis
    unfolding ts(6) by auto
qed

section \<open>An approval\<close>

text \<open>What the engine does on its own: detectors raise, rules match, claims and packets arrive.\<close>

datatype activity =
    A_raise time string string string string string string evidence time duration
  | A_custom time packet "string list"
  | A_claim time packet
  | A_packet time packet

fun run_activity :: "regexps \<Rightarrow> (string \<Rightarrow> string) \<Rightarrow> activity \<Rightarrow> detector \<Rightarrow> detector" where
  "run_activity rx quoted (A_raise clk rid t sev key msg ip v at0 gap) e = snd (raiseBuiltinAlert clk rid t sev key msg ip v at0 gap e)"
| "run_activity rx quoted (A_custom now p ks) e = handleCustomRules rx quoted ks now p e"
| "run_activity rx quoted (A_claim clk p) e = handle_claim_packet clk p e"
| "run_activity rx quoted (A_packet clk p) e = handleBaseline clk p e"

definition approved_with :: "string \<Rightarrow> u64 \<Rightarrow> time \<Rightarrow> detector \<Rightarrow> bool" where
  "approved_with k n t e \<longleftrightarrow>
     (\<exists>a. mget (dt_alerts e) k = Some a \<and> al_Status a = AlertStatusApproved \<and> al_Count a = n \<and> al_LastSeen a = t)"

lemma store_keeps_approved: "approved_with k n t0 e \<Longrightarrow> approved_with k n t0 (snd (store_alert rid r t sev key msg ip v now gap e))"
  unfolding store_alert_def Let_def approved_with_def
  by (auto split: option.split prod.split)

lemma raise_keeps_approved: "approved_with k n t0 e \<Longrightarrow> approved_with k n t0 (snd (raiseBuiltinAlertLocked rid t sev key msg ip v now gap e))"
proof -
  assume a: "approved_with k n t0 e"
  then have "approved_with k n t0 (ensure_rule rid e)" by (simp add: ensure_rule_def approved_with_def split: option.split)
  moreover have "approved_with k n t0 (x\<lparr> dt_rules := rs \<rparr>) = approved_with k n t0 x" for x rs by (simp add: approved_with_def)
  ultimately show ?thesis
    unfolding raiseBuiltinAlertLocked_def Let_def by (simp add: store_keeps_approved split: option.split)
qed

lemma raiseBuiltin_keeps_approved: "approved_with k n t0 e \<Longrightarrow> approved_with k n t0 (snd (raiseBuiltinAlert clk rid t sev key msg ip v at0 gap e))"
  unfolding raiseBuiltinAlert_def by (rule raise_keeps_approved)

lemma approved_only_alerts: "dt_alerts e' = dt_alerts e \<Longrightarrow> approved_with k n t0 e' = approved_with k n t0 e"
  by (simp add: approved_with_def)

lemma custom_raise_keeps_approved: "approved_with k n t0 e \<Longrightarrow> approved_with k n t0 (raiseCustomRuleAlert clk r key msg ip e)"
  by (auto simp: raiseCustomRuleAlert_def approved_with_def allowAlertOccurrence_def Let_def split: option.split)

lemma exclude_alerts [simp]: "dt_alerts (excludePacketFromLearning clk p r e) = dt_alerts e"
  by (simp add: excludePacketFromLearning_def on_policy_def publish_def Let_def)

lemma update_rule_alerts [simp]: "dt_alerts (update_rule rid f e) = dt_alerts e"
  by (simp add: update_rule_def split: option.split)

lemma apply_custom_keeps_approved: "approved_with k n t0 e \<Longrightarrow> approved_with k n t0 (apply_custom_rule quoted now p r e)"
  using custom_raise_keeps_approved [of k n t0 "excludePacketFromLearning now p (''custom policy rule '' @ ru_ID r) e"]
  by (simp add: apply_custom_rule_def approved_with_def Let_def)

lemma custom_keeps_approved: "approved_with k n t0 e \<Longrightarrow> approved_with k n t0 (handleCustomRules rx quoted ks now p e)"
proof -
  have "approved_with k n t0 e \<Longrightarrow> approved_with k n t0 (fold (apply_custom_rule quoted now p) rs e)" for rs
    by (induction rs arbitrary: e) (simp_all add: apply_custom_keeps_approved)
  then show "approved_with k n t0 e \<Longrightarrow> ?thesis" by (simp add: handleCustomRules_def)
qed

lemma garp_keeps_approved: "approved_with k n t0 e \<Longrightarrow> approved_with k n t0 (observeGratuitousARP clk p now e)"
proof -
  assume "approved_with k n t0 e"
  then have "approved_with k n t0 (on_policy f e)" for f by (simp add: approved_with_def on_policy_def)
  with \<open>approved_with k n t0 e\<close> raiseBuiltin_keeps_approved show ?thesis by (simp add: observeGratuitousARP_def Let_def)
qed

lemma note_keeps_approved: "approved_with k n t0 e \<Longrightarrow> approved_with k n t0 (note_macs key known mac e)"
  by (auto simp: note_macs_def approved_with_def split: option.split)

lemma learn_claim_alerts: "dt_alerts (snd (learn_claim ip mac e)) = dt_alerts e"
  by (simp add: learn_claim_def split: option.split)

lemma escalate_keeps_approved: "approved_with k n t0 e \<Longrightarrow> approved_with k n t0 (escalate_conflict clk ip known mac m now e)"
  by (simp add: escalate_conflict_def raise_duplicate_def raise_gateway_def Let_def raiseBuiltin_keeps_approved)

lemma arp_keeps_approved: "approved_with k n t0 e \<Longrightarrow> approved_with k n t0 (handleARP clk p e)"
proof -
  assume a: "approved_with k n t0 e"
  let ?e1 = "observeGratuitousARP clk p (packet_time clk p) e"
  let ?e2 = "snd (learn_claim (pk_ARPSrcIP p) (pk_ARPSrcMAC p) ?e1)"
  have "approved_with k n t0 ?e2"
    using garp_keeps_approved [OF a] approved_only_alerts [OF learn_claim_alerts] by blast
  then have "approved_with k n t0 (escalate_conflict clk ip known mac m now (raise_conflict clk ip known mac m now ?e2))" for ip known mac m now
    unfolding raise_conflict_def by (intro escalate_keeps_approved note_keeps_approved raiseBuiltin_keeps_approved)
  with a \<open>approved_with k n t0 ?e2\<close> show ?thesis
    by (simp add: handleARP_def Let_def split: prod.split) (metis snd_conv)
qed

lemma baseline_keeps_approved: "approved_with k n t0 e \<Longrightarrow> approved_with k n t0 (handleBaseline now p e)"
proof -
  assume a: "approved_with k n t0 e"
  have al: "dt_alerts (fold (learn_asset now) ms x) = dt_alerts x" for ms x
    by (induction ms arbitrary: x) (simp_all add: learn_asset_def)
  have "dt_alerts (finish_learning now (learn_packet now p (start_learning now e))) = dt_alerts e"
    by (simp add: finish_learning_def publishBaselineComplete_def publish_def learn_packet_def learn_pattern_def start_learning_def al Let_def)
  with a have b: "approved_with k n t0 (finish_learning now (learn_packet now p (start_learning now e)))" by (simp add: approved_with_def)
  then have "approved_with k n t0 (raiseBaselineAlert now key p (finish_learning now (learn_packet now p (start_learning now e))))" for key
    unfolding raiseBaselineAlert_def Let_def by (rule raise_keeps_approved)
  with a b show ?thesis by (simp add: handleBaseline_def Let_def)
qed

lemma activity_keeps_approved: "approved_with k n t0 e \<Longrightarrow> approved_with k n t0 (run_activity rx quoted x e)"
  by (cases x) (simp_all add: raiseBuiltin_keeps_approved custom_keeps_approved arp_keeps_approved baseline_keeps_approved handle_claim_packet_def)

text \<open>
  An approved alert stays silent: whatever the detectors report afterwards, in any order, the alert keeps
  its approval and is neither counted nor refreshed.
\<close>

theorem approved_alert_stays_silent:
  assumes "mget (dt_alerts e) k = Some a"
  shows "\<exists>b. mget (dt_alerts (fold (run_activity rx quoted) xs (snd (ApproveAlert clk k e)))) k = Some b \<and>
    al_Status b = AlertStatusApproved \<and> al_Count b = al_Count a \<and> al_LastSeen b = al_LastSeen a"
proof -
  have "approved_with k (al_Count a) (al_LastSeen a) (snd (ApproveAlert clk k e))"
    using assms by (simp add: ApproveAlert_def approved_with_def on_policy_def approve_identity_def approve_pattern_def Let_def)
  moreover have "approved_with k n t e' \<Longrightarrow> approved_with k n t (fold (run_activity rx quoted) xs e')" for n t e'
    by (induction xs arbitrary: e') (simp_all add: activity_keeps_approved)
  ultimately show ?thesis by (simp add: approved_with_def)
qed

definition noted :: "detector \<Rightarrow> detector" where
  "noted e = raise_at AlertARPSpoof AlertARPSpoof ''high'' ''k'' ''m'' ''10.0.0.1'' [] minute second e"

lemma noted_alert:
  "\<exists>a. mget (dt_alerts (noted (NewDetector c))) (asset_key (NewDetector c) ''k'' ''10.0.0.1'') = Some a \<and> al_LastSeen a = second"
proof -
  obtain r where r: "mget (dt_rules (NewDetector c)) AlertARPSpoof = Some r" "aggregating r" using arp_rule by blast
  have k: "mget (dt_alerts (NewDetector c)) (asset_key (NewDetector c) ''k'' ''10.0.0.1'') = None" by (simp add: NewDetector_def)
  have t: "second \<noteq> 0" "0 < minute" "minute < 2 ^ 63 - 1" by (simp_all add: second_def minute_def)
  from raise_at_starts [OF r k t, of AlertARPSpoof "''high''" "''m''" "[]"] show ?thesis
    by (auto simp: counting_def noted_def)
qed

theorem approved_alert_stays_silent_witness:
  "\<exists>k b. mget (dt_alerts (fold (run_activity (\<lambda>s. None) (\<lambda>s. s))
       [A_raise 5 AlertARPSpoof AlertARPSpoof ''high'' ''k'' ''m'' ''10.0.0.1'' [] (second + 1) minute, A_claim 6 zero_packet]
       (snd (ApproveAlert 3 k (noted (NewDetector demo_config)))))) k = Some b \<and> al_Status b = AlertStatusApproved \<and> al_LastSeen b = second"
proof -
  obtain a where a: "mget (dt_alerts (noted (NewDetector demo_config))) (asset_key (NewDetector demo_config) ''k'' ''10.0.0.1'') = Some a" "al_LastSeen a = second"
    using noted_alert by blast
  from approved_alert_stays_silent [OF a(1)] a(2) show ?thesis by metis
qed

section \<open>An approval is forgotten with the alert\<close>

lemma mget_filter_value: "wf_map m \<Longrightarrow> mget m k = Some a \<Longrightarrow> \<not> P k a \<Longrightarrow> mget (filter (\<lambda>(k, a). P k a) m) k = None"
  by (auto simp: mget_None_iff mkeys_def mget_Some_iff wf_map_def dest: eq_key_imp_eq_value)

text \<open>
  An approval lasts only until the retention period ends: an approved alert is not refreshed when its condition
  recurs, so the pruning of old alerts removes it however often the condition is seen, and the next report
  raises the alert as new.
\<close>

theorem approval_expires_with_retention:
  assumes "wf_map (dt_alerts e)" and "mget (dt_rules e) rid = Some r" and "aggregating r"
    and "mget (dt_alerts e) (asset_key e key ip) = Some a" and "al_Status a = AlertStatusApproved"
    and "al_LastSeen a < clk - maxAge" and "now \<noteq> 0" "0 < gap" "gap < 2 ^ 63 - 1"
  shows "\<not> fst (raiseBuiltinAlertLocked rid t sev key msg ip v now gap e) \<and>
    (\<exists>b. mget (dt_alerts (raise_at rid t sev key msg ip v gap now (snd (PruneAlerts clk maxAge e)))) (asset_key e key ip) = Some b \<and>
      al_Status b = AlertStatusNew \<and> al_Count b = 1)"
proof -
  let ?e = "snd (PruneAlerts clk maxAge e)"
  have silent: "\<not> fst (raiseBuiltinAlertLocked rid t sev key msg ip v now gap e)"
    using assms(4,5) by (simp add: raise_aggregating [OF assms(2,3)] store_alert_def alert_key_aggregating [OF assms(3)] Let_def)
  have f: "asset_key ?e key ip = asset_key e key ip"
    by (rule asset_key_frame) (simp add: PruneAlerts_def alerts_and_rules_only_def Let_def)
  have gone: "mget (dt_alerts ?e) (asset_key ?e key ip) = None"
    using mget_filter_value [OF assms(1,4), of "\<lambda>k a. \<not> al_LastSeen a < clk - maxAge"] assms(6) by (simp add: f) (simp add: PruneAlerts_def Let_def)
  have r: "mget (dt_rules ?e) rid = Some r" using assms(2) by (simp add: PruneAlerts_def Let_def)
  let ?x = "raised_alert ?e t (builtin_severity sev r) key msg ip v now"
  have x: "al_Status ?x = AlertStatusNew" "al_Count ?x = 0" using raised_alert_new [OF gone] by simp_all
  have st: "AlertStatusNew \<noteq> AlertStatusApproved" "AlertStatusNew \<noteq> AlertStatusConfirmed"
    by (simp_all add: AlertStatusNew_def AlertStatusApproved_def AlertStatusConfirmed_def)
  have "al_Status (snd (recordEpisodeAlert now now gap ?x)) = AlertStatusNew \<and> al_Count (snd (recordEpisodeAlert now now gap ?x)) = 1"
    using x st by (simp add: recordEpisodeAlert_def Let_def)
  with store_aggregating [OF assms(3), of ?e key ip rid t "builtin_severity sev r" msg v now gap] raise_aggregating [OF r assms(3)] gone silent
  show ?thesis by (auto simp: raise_at_def f)
qed

definition demo_alert :: "string \<Rightarrow> alert" where
  "demo_alert k = (new_alert k AlertARPSpoof ''high'' ''m'' ''10.0.0.1'' ''ip:10.0.0.1'' second [])
     \<lparr> al_Status := AlertStatusApproved, al_LastSeen := second, al_Count := 1 \<rparr>"

theorem approval_expires_with_retention_witness:
  "let k = asset_key (NewDetector demo_config) ''k'' ''10.0.0.1''; e = (NewDetector demo_config)\<lparr> dt_alerts := [(k, demo_alert k)] \<rparr>
   in \<exists>b. mget (dt_alerts (raise_at AlertARPSpoof AlertARPSpoof ''high'' ''k'' ''m'' ''10.0.0.1'' [] minute (90 * minute)
        (snd (PruneAlerts (80 * minute) minute e)))) k = Some b \<and> al_Status b = AlertStatusNew \<and> al_Count b = 1"
proof -
  let ?k = "asset_key (NewDetector demo_config) ''k'' ''10.0.0.1''"
  let ?e = "(NewDetector demo_config)\<lparr> dt_alerts := [(?k, demo_alert ?k)] \<rparr>"
  obtain r where r: "mget (dt_rules (NewDetector demo_config)) AlertARPSpoof = Some r" "aggregating r" using arp_rule by blast
  have k: "asset_key ?e ''k'' ''10.0.0.1'' = ?k" by (rule asset_key_frame) (simp add: alerts_and_rules_only_def)
  have w: "wf_map (dt_alerts ?e)" "mget (dt_rules ?e) AlertARPSpoof = Some r" "mget (dt_alerts ?e) (asset_key ?e ''k'' ''10.0.0.1'') = Some (demo_alert ?k)"
    "al_Status (demo_alert ?k) = AlertStatusApproved" "al_LastSeen (demo_alert ?k) < 80 * minute - minute" "90 * minute \<noteq> 0" "0 < minute" "minute < 2 ^ 63 - 1"
    using r(1) k by (simp_all add: wf_map_def mget_def demo_alert_def second_def minute_def)
  from approval_expires_with_retention [OF w(1,2) r(2) w(3-8), of AlertARPSpoof "''high''" "''m''" "[]"] k show ?thesis
    unfolding Let_def by simp
qed

section \<open>A suppression hides other devices\<close>

text \<open>
  The suppression of a rule by time is not per device: when a rule with the suppression mode interval has
  raised its alert for one device, the same condition on any other device is dropped without a trace until
  the interval is over.
\<close>

theorem interval_suppression_hides_other_devices:
  assumes "mget (dt_rules e) rid = Some r" and "su_Mode (ru_Suppression r) = ''interval''"
    and "ru_LastTriggered r \<noteq> 0" and "0 < su_IntervalSeconds (ru_Suppression r)" "su_IntervalSeconds (ru_Suppression r) * second \<le> 2 ^ 63 - 1"
    and "now - ru_LastTriggered r < su_IntervalSeconds (ru_Suppression r) * second" and "\<not> ru_Simulation r"
  shows "raiseBuiltinAlertLocked rid t sev otherKey msg otherIP v now gap e = (False, e)"
proof -
  have s: "0 < su_IntervalSeconds (ru_Suppression r) * second" using assms(4) by (simp add: second_def)
  have "suppressed_now r now gap"
    using assms(3-6) s by (simp add: suppressed_now_def interval_mode [OF assms(2)] is_zero_time_def Let_def)
  then show ?thesis using assms(1,7) by (simp add: raiseBuiltinAlertLocked_def)
qed

theorem interval_suppression_hides_other_devices_witness:
  "let r = zero_rule\<lparr> ru_ID := ''r'', ru_Enabled := True, ru_Suppression := \<lparr> su_Mode = ''interval'', su_IntervalSeconds = 60 \<rparr>, ru_LastTriggered := second \<rparr>;
       e = (NewDetector demo_config)\<lparr> dt_rules := [(''r'', r)] \<rparr>
   in raiseBuiltinAlertLocked ''r'' ''t'' ''high'' ''k2'' ''m'' ''10.0.0.2'' [] (30 * second) minute e = (False, e)"
proof -
  let ?r = "zero_rule\<lparr> ru_ID := ''r'', ru_Enabled := True, ru_Suppression := \<lparr> su_Mode = ''interval'', su_IntervalSeconds = 60 \<rparr>, ru_LastTriggered := second \<rparr>"
  let ?e = "(NewDetector demo_config)\<lparr> dt_rules := [(''r'', ?r)] \<rparr>"
  have "mget (dt_rules ?e) ''r'' = Some ?r" "su_Mode (ru_Suppression ?r) = ''interval''" "ru_LastTriggered ?r \<noteq> 0"
    "0 < su_IntervalSeconds (ru_Suppression ?r)" "su_IntervalSeconds (ru_Suppression ?r) * second \<le> 2 ^ 63 - 1"
    "30 * second - ru_LastTriggered ?r < su_IntervalSeconds (ru_Suppression ?r) * second" "\<not> ru_Simulation ?r"
    by (simp_all add: mget_def second_def zero_rule_def)
  from interval_suppression_hides_other_devices [OF this] show ?thesis by (simp add: Let_def)
qed

end
