(* ===== verification/Detect_Learning.thy ===== *)
theory Detect_Learning
  imports Detect_Baseline
begin

text \<open>
  The baseline of internal/detect: when learning ends, that it is announced once, that nothing is
  learned afterwards, and when a packet raises the alert on a new communication.
\<close>

section \<open>One step of the baseline\<close>

lemma modes_distinct [simp]:
  "BaselineModeLearning \<noteq> []" "BaselineModeMonitoring \<noteq> []" "BaselineModeLearning \<noteq> BaselineModeMonitoring"
  "BaselineModeMonitoring \<noteq> BaselineModeLearning" "[] \<noteq> BaselineModeLearning" "[] \<noteq> BaselineModeMonitoring"
  by (simp_all add: BaselineModeLearning_def BaselineModeMonitoring_def)

lemma learn_asset_fields [simp]:
  "dt_baselineMode (learn_asset now m e) = dt_baselineMode e" "dt_learningStarted (learn_asset now m e) = dt_learningStarted e"
  "dt_learningDuration (learn_asset now m e) = dt_learningDuration e" "dt_baselineEnabled (learn_asset now m e) = dt_baselineEnabled e"
  "dt_knownMAC (learn_asset now m e) = dt_knownMAC e" "dt_candidateMAC (learn_asset now m e) = dt_candidateMAC e"
  "dt_learnedPatterns (learn_asset now m e) = dt_learnedPatterns e" "dt_events (learn_asset now m e) = dt_events e"
  by (simp_all add: learn_asset_def)

lemma learn_assets_fields [simp]:
  "dt_baselineMode (fold (learn_asset now) ms e) = dt_baselineMode e" "dt_learningStarted (fold (learn_asset now) ms e) = dt_learningStarted e"
  "dt_learningDuration (fold (learn_asset now) ms e) = dt_learningDuration e" "dt_baselineEnabled (fold (learn_asset now) ms e) = dt_baselineEnabled e"
  "dt_knownMAC (fold (learn_asset now) ms e) = dt_knownMAC e" "dt_candidateMAC (fold (learn_asset now) ms e) = dt_candidateMAC e"
  "dt_learnedPatterns (fold (learn_asset now) ms e) = dt_learnedPatterns e" "dt_events (fold (learn_asset now) ms e) = dt_events e"
  by (induction ms arbitrary: e) simp_all

lemma learn_pattern_fields [simp]:
  "dt_baselineMode (learn_pattern now k e) = dt_baselineMode e" "dt_learningStarted (learn_pattern now k e) = dt_learningStarted e"
  "dt_learningDuration (learn_pattern now k e) = dt_learningDuration e" "dt_baselineEnabled (learn_pattern now k e) = dt_baselineEnabled e"
  "dt_knownMAC (learn_pattern now k e) = dt_knownMAC e" "dt_candidateMAC (learn_pattern now k e) = dt_candidateMAC e"
  "dt_events (learn_pattern now k e) = dt_events e"
  by (simp_all add: learn_pattern_def)

lemma learn_pattern_trusts [simp]:
  "mtrue (dt_learnedPatterns (learn_pattern now k e)) k' \<longleftrightarrow> k' = k \<or> mtrue (dt_learnedPatterns e) k'"
  by (auto simp: learn_pattern_def)

lemma learn_packet_fields [simp]:
  "dt_baselineMode (learn_packet now p e) = dt_baselineMode e" "dt_learningStarted (learn_packet now p e) = dt_learningStarted e"
  "dt_learningDuration (learn_packet now p e) = dt_learningDuration e" "dt_baselineEnabled (learn_packet now p e) = dt_baselineEnabled e"
  "dt_knownMAC (learn_packet now p e) = dt_knownMAC e" "dt_candidateMAC (learn_packet now p e) = dt_candidateMAC e"
  "dt_events (learn_packet now p e) = dt_events e"
  by (simp_all add: learn_packet_def Let_def)

lemma learn_packet_monitoring [simp]: "dt_baselineMode e = BaselineModeMonitoring \<Longrightarrow> learn_packet now p e = e"
  by (simp add: learn_packet_def)

lemma start_learning_monitoring [simp]: "dt_baselineMode e = BaselineModeMonitoring \<Longrightarrow> start_learning now e = e"
  by (simp add: start_learning_def)

lemma finish_learning_monitoring [simp]: "dt_baselineMode e = BaselineModeMonitoring \<Longrightarrow> finish_learning now e = e"
  by (simp add: finish_learning_def)

lemma start_learning_fields [simp]:
  "dt_learningDuration (start_learning now e) = dt_learningDuration e" "dt_baselineEnabled (start_learning now e) = dt_baselineEnabled e"
  "dt_knownMAC (start_learning now e) = dt_knownMAC e" "dt_candidateMAC (start_learning now e) = dt_candidateMAC e"
  "dt_learnedPatterns (start_learning now e) = dt_learnedPatterns e" "dt_events (start_learning now e) = dt_events e"
  by (simp_all add: start_learning_def)

lemma finish_learning_fields [simp]:
  "dt_learningDuration (finish_learning now e) = dt_learningDuration e" "dt_baselineEnabled (finish_learning now e) = dt_baselineEnabled e"
  "dt_knownMAC (finish_learning now e) = dt_knownMAC e" "dt_candidateMAC (finish_learning now e) = dt_candidateMAC e"
  "dt_learnedPatterns (finish_learning now e) = dt_learnedPatterns e" "dt_learningStarted (finish_learning now e) = dt_learningStarted e"
  by (simp_all add: finish_learning_def publishBaselineComplete_def publish_def)

lemma raiseBaselineAlert_frame: "alerts_and_rules_only e (raiseBaselineAlert clk key p e)"
  unfolding raiseBaselineAlert_def Let_def by (rule raise_frame)

lemmas raiseBaselineAlert_fields [simp] = frame_fields [OF raiseBaselineAlert_frame]

text \<open>A packet that identifies a device or two endpoints.\<close>

definition relevant :: "packet \<Rightarrow> bool" where
  "relevant p \<longleftrightarrow> extractMACs p \<noteq> [] \<or> (pk_SrcIP p \<noteq> [] \<and> pk_DstIP p \<noteq> [])"

text \<open>Everything but alerts and rules after one packet.\<close>

lemma handleBaseline_core:
  "relevant p \<Longrightarrow> alerts_and_rules_only (finish_learning now (learn_packet now p (start_learning now e))) (handleBaseline now p e)"
proof -
  assume r: "relevant p"
  have same: "alerts_and_rules_only x x" for x by (simp add: alerts_and_rules_only_def)
  from r raiseBaselineAlert_frame same show ?thesis
    by (auto simp: handleBaseline_def Let_def relevant_def)
qed

lemmas handleBaseline_fields = frame_fields [OF handleBaseline_core]

lemma handleBaseline_irrelevant: "\<not> relevant p \<Longrightarrow> handleBaseline now p e = e"
  by (auto simp: handleBaseline_def relevant_def)

section \<open>After learning nothing is learned\<close>

text \<open>
  C33: once learning is over, no packet changes what is trusted: a pattern or a device seen for the
  first time in monitoring does not become part of the baseline, however often it is seen, and the
  engine does not fall back into learning.
\<close>

theorem monitoring_never_learns:
  assumes "dt_baselineMode e = BaselineModeMonitoring"
  shows "let e' = fold (\<lambda>(now, p). handleBaseline now p) ps e in
    dt_learnedPatterns e' = dt_learnedPatterns e \<and> dt_learnedAssets e' = dt_learnedAssets e \<and>
    dt_baselineMode e' = BaselineModeMonitoring"
  using assms
proof (induction ps arbitrary: e)
  case (Cons np ps)
  obtain now p where np: "np = (now, p)" by fastforce
  have "dt_learnedPatterns (handleBaseline now p e) = dt_learnedPatterns e \<and> dt_learnedAssets (handleBaseline now p e) = dt_learnedAssets e \<and>
    dt_baselineMode (handleBaseline now p e) = BaselineModeMonitoring"
    using Cons.prems handleBaseline_fields [of p now e] by (cases "relevant p") (simp_all add: handleBaseline_irrelevant)
  with Cons.IH [of "handleBaseline now p e"] show ?case by (simp add: np Let_def)
qed simp

definition demo_detector :: "duration \<Rightarrow> detector" where
  "demo_detector d = NewDetector \<lparr> dc_learningDuration = d, dc_arpConfirmThreshold = 3, dc_baselineEnabled = True,
     dc_deceptionScores = [], dc_honeypotThreshold = 50, dc_segmentationEnabled = False, dc_vlanLevels = [], dc_maxLevelJump = 1,
     dc_reconnaissanceEnabled = True, dc_reconWindow = 0, dc_hostScanThreshold = 0, dc_portScanThreshold = 0,
     dc_c2BeaconEnabled = True, dc_c2BeaconMinSamples = 0, dc_c2BeaconMaxCV = 0, dc_c2BeaconMinInterval = 0, dc_c2BeaconMaxInterval = 0,
     dc_c2BeaconMaxTrackedDests = 0 \<rparr>"

theorem monitoring_never_learns_witness:
  "dt_learnedPatterns (fold (\<lambda>(now, p). handleBaseline now p)
      [(1, zero_packet\<lparr> pk_SrcIP := ''10.0.0.1'', pk_DstIP := ''10.0.0.2'' \<rparr>)] ((demo_detector minute)\<lparr> dt_baselineMode := BaselineModeMonitoring \<rparr>)) = []"
proof -
  let ?e = "(demo_detector minute)\<lparr> dt_baselineMode := BaselineModeMonitoring \<rparr>"
  let ?ps = "[(1, zero_packet\<lparr> pk_SrcIP := ''10.0.0.1'', pk_DstIP := ''10.0.0.2'' \<rparr>)]"
  have m: "dt_baselineMode ?e = BaselineModeMonitoring" by simp
  have "dt_learnedPatterns ?e = []" by (simp add: demo_detector_def NewDetector_def)
  with monitoring_never_learns [OF m, of ?ps] show ?thesis unfolding Let_def by argo
qed

section \<open>When learning ends\<close>

lemma baselineReadiness_elapsed:
  "snd (baselineReadiness now e) \<Longrightarrow> time_sub now (dt_learningStarted e) \<ge> dt_learningDuration e"
  by (auto simp: baselineReadiness_def split: if_splits)



section \<open>The end is announced once\<close>

fun completions :: "detect_event list \<Rightarrow> nat" where
  "completions [] = 0"
| "completions (BaselineLearningComplete ms # vs) = Suc (completions vs)"
| "completions (LearningExclusion x # vs) = completions vs"

lemma completions_append [simp]: "completions (xs @ ys) = completions xs + completions ys"
  by (induction xs rule: completions.induct) simp_all

text \<open>
  What happens to the baseline: packets, exclusions, and the operator who ends learning or starts
  it again.
\<close>

datatype baseline_step = BS_packet time packet | BS_exclude time packet string | BS_complete time bool | BS_reset

fun run_baseline :: "baseline_step \<Rightarrow> detector \<Rightarrow> detector" where
  "run_baseline (BS_packet now p) e = handleBaseline now p e"
| "run_baseline (BS_exclude now p r) e = excludePacketFromLearning now p r e"
| "run_baseline (BS_complete now force) e = snd (CompleteBaseline now force e)"
| "run_baseline BS_reset e = ResetBaseline e"

text \<open>The steps of a run with which the engine enters monitoring.\<close>

definition ends_learning :: "baseline_step \<Rightarrow> detector \<Rightarrow> bool" where
  "ends_learning s e \<longleftrightarrow> dt_baselineMode e \<noteq> BaselineModeMonitoring \<and> dt_baselineMode (run_baseline s e) = BaselineModeMonitoring"

fun learning_ends :: "baseline_step list \<Rightarrow> detector \<Rightarrow> nat" where
  "learning_ends [] e = 0"
| "learning_ends (s # ss) e = (if ends_learning s e then 1 else 0) + learning_ends ss (run_baseline s e)"

lemma packet_announces:
  "dt_baselineEnabled e \<Longrightarrow>
   completions (dt_events (handleBaseline now p e)) = completions (dt_events e) +
     (if dt_baselineMode e \<noteq> BaselineModeMonitoring \<and> dt_baselineMode (handleBaseline now p e) = BaselineModeMonitoring then 1 else 0)"
proof (cases "relevant p")
  case True
  with handleBaseline_fields [OF True, of now e] show ?thesis
    by (auto simp: finish_learning_def start_learning_def publishBaselineComplete_def publish_def BaselineModeLearning_def BaselineModeMonitoring_def)
qed (simp add: handleBaseline_irrelevant)

lemma step_announces:
  assumes "dt_baselineEnabled e"
  shows "dt_baselineEnabled (run_baseline s e) \<and>
    completions (dt_events (run_baseline s e)) = completions (dt_events e) + (if ends_learning s e then 1 else 0)"
proof (cases s)
  case (BS_packet now p)
  moreover have "dt_baselineEnabled (handleBaseline now p e) = dt_baselineEnabled e"
    by (cases "relevant p") (simp_all add: handleBaseline_irrelevant handleBaseline_fields finish_learning_def start_learning_def
        publishBaselineComplete_def publish_def)
  ultimately show ?thesis using packet_announces [OF assms, of now p] assms by (simp add: ends_learning_def)
next
  case (BS_exclude now p r)
  with assms show ?thesis
    by (auto simp: ends_learning_def excludePacketFromLearning_def on_policy_def publish_def Let_def)
next
  case (BS_complete now force)
  with assms show ?thesis
    by (auto simp: ends_learning_def CompleteBaseline_def publishBaselineComplete_def publish_def)
next
  case BS_reset
  with assms show ?thesis by (simp add: ends_learning_def ResetBaseline_def BaselineModeMonitoring_def)
qed

interpretation baseline_life: invariant_machine run_baseline dt_baselineEnabled "NewDetector (c\<lparr> dc_baselineEnabled := True \<rparr>)"
  by unfold_locales (simp_all add: NewDetector_def step_announces)

lemma run_announces:
  "dt_baselineEnabled e \<Longrightarrow> completions (dt_events (fold run_baseline ss e)) = completions (dt_events e) + learning_ends ss e"
  by (induction ss arbitrary: e) (simp_all add: step_announces)

text \<open>
  C35: Every end of learning is announced, and nothing else is: in every run of packets, exclusions,
  requests of the operator to complete learning and resets of it, from the start of a sensor that
  learns, the event that freezes the set of known devices has been published exactly as often as a
  step has taken the engine into monitoring.
\<close>

theorem every_end_announced_once:
  "completions (dt_events (fold run_baseline ss (NewDetector (c\<lparr> dc_baselineEnabled := True \<rparr>)))) =
   learning_ends ss (NewDetector (c\<lparr> dc_baselineEnabled := True \<rparr>))"
proof -
  have "dt_baselineEnabled (NewDetector (c\<lparr> dc_baselineEnabled := True \<rparr>))" by (rule baseline_life.start_inv)
  moreover have "completions (dt_events (NewDetector (c\<lparr> dc_baselineEnabled := True \<rparr>))) = 0" by (simp add: NewDetector_def)
  ultimately show ?thesis using run_announces by simp
qed

section \<open>What was learned stays silent\<close>

text \<open>The packet of the other direction.\<close>

definition reply :: "packet \<Rightarrow> packet" where
  "reply p = p\<lparr> pk_SrcIP := pk_DstIP p, pk_DstIP := pk_SrcIP p, pk_SrcPort := pk_DstPort p, pk_DstPort := pk_SrcPort p,
     pk_SrcMAC := pk_DstMAC p, pk_DstMAC := pk_SrcMAC p \<rparr>"

lemma baselineServicePort_reply: "\<not> has_flag p ''SYN'' \<Longrightarrow> baselineServicePort (reply p) = baselineServicePort p"
  unfolding baselineServicePort_def Let_def reply_def
  by (simp add: has_flag_def) (auto simp: not_less not_le)

lemma baselineKeyForPacketService_reply: "baselineKeyForPacketService e (reply p) service = baselineKeyForPacketService e p service"
  by (auto simp: baselineKeyForPacketService_def reply_def Let_def not_less)

text \<open>
  The pattern of a packet does not depend on the direction: apart from the handshake, whose flags
  name the server, a packet and its answer have the same key in every state.
\<close>

theorem baseline_key_direction_independent:
  assumes "\<not> has_flag p ''SYN''"
  shows "baselineKeyForPacket e (reply p) = baselineKeyForPacket e p"
  using assms by (simp add: baselineKeyForPacket_def baselineServicePort_reply baselineKeyForPacketService_reply)

theorem baseline_key_direction_independent_witness:
  "let p = zero_packet\<lparr> pk_SrcIP := ''10.0.0.1'', pk_DstIP := ''10.0.0.2'', pk_SrcPort := 40000, pk_DstPort := 502, pk_L4Protocol := ''TCP'' \<rparr>
   in baselineKeyForPacket (demo_detector minute) (reply p) = baselineKeyForPacket (demo_detector minute) p"
proof -
  have "\<not> has_flag (zero_packet\<lparr> pk_SrcIP := ''10.0.0.1'', pk_DstIP := ''10.0.0.2'', pk_SrcPort := 40000, pk_DstPort := 502, pk_L4Protocol := ''TCP'' \<rparr>) ''SYN''"
    by code_simp
  from baseline_key_direction_independent [OF this] show ?thesis by (simp add: Let_def)
qed

text \<open>The key depends on the state only through the address claims.\<close>

lemma baselineKeyForPacket_cong:
  "dt_knownMAC e' = dt_knownMAC e \<Longrightarrow> dt_candidateMAC e' = dt_candidateMAC e \<Longrightarrow> baselineKeyForPacket e' p = baselineKeyForPacket e p"
  by (simp add: baselineKeyForPacket_def baselineKeyForPacketService_def baseline_endpoint_def)

definition endpoints :: "packet \<Rightarrow> bool" where "endpoints p \<longleftrightarrow> pk_SrcIP p \<noteq> [] \<and> pk_DstIP p \<noteq> []"

lemma endpoints_relevant: "endpoints p \<Longrightarrow> relevant p" by (simp add: endpoints_def relevant_def)

lemma handleBaseline_keeps:
  "dt_knownMAC (handleBaseline now p e) = dt_knownMAC e \<and> dt_candidateMAC (handleBaseline now p e) = dt_candidateMAC e \<and>
   (mtrue (dt_learnedPatterns e) k \<longrightarrow> mtrue (dt_learnedPatterns (handleBaseline now p e)) k)"
proof (cases "relevant p")
  case True
  from handleBaseline_fields [OF True, of now e] show ?thesis by (simp add: learn_packet_def Let_def)
qed (simp add: handleBaseline_irrelevant)

lemma handleBaseline_run_keeps:
  "let e' = fold (\<lambda>(now, p). handleBaseline now p) ps e in
     dt_knownMAC e' = dt_knownMAC e \<and> dt_candidateMAC e' = dt_candidateMAC e \<and>
     (mtrue (dt_learnedPatterns e) k \<longrightarrow> mtrue (dt_learnedPatterns e') k)"
proof (induction ps arbitrary: e)
  case (Cons np ps)
  obtain now p where "np = (now, p)" by fastforce
  with Cons [of "handleBaseline now p e"] handleBaseline_keeps [of now p e k] show ?case by (simp add: Let_def)
qed simp

lemma handleBaseline_learns:
  "endpoints p \<Longrightarrow> dt_baselineMode e = BaselineModeLearning \<Longrightarrow>
    mtrue (dt_learnedPatterns (handleBaseline now p e)) (baselineKeyForPacket e p)"
  using handleBaseline_fields [OF endpoints_relevant, of p now e] baselineKeyForPacket_cong [of "fold (learn_asset now) (extractMACs p) e" e p]
  by (simp add: learn_packet_def endpoints_def Let_def start_learning_def)

lemma handleBaseline_trusted:
  "dt_baselineMode e = BaselineModeMonitoring \<Longrightarrow> mtrue (dt_learnedPatterns e) (baselineKeyForPacket e p) \<Longrightarrow> handleBaseline now p e = e"
  by (simp add: handleBaseline_def Let_def pattern_trusted_def)

text \<open>
  A communication seen while learning never raises the alert on new communications: after any
  further packets, and once the engine is in monitoring, a packet of the same pattern changes nothing, as
  long as the addresses belong to the same devices.
\<close>

theorem learned_pattern_stays_silent:
  assumes "dt_baselineMode e = BaselineModeLearning" and "endpoints p" and "baselineKeyForPacket e q = baselineKeyForPacket e p"
    and "dt_baselineMode (fold (\<lambda>(now, x). handleBaseline now x) ps (handleBaseline t p e)) = BaselineModeMonitoring"
  shows "handleBaseline t' q (fold (\<lambda>(now, x). handleBaseline now x) ps (handleBaseline t p e)) =
         fold (\<lambda>(now, x). handleBaseline now x) ps (handleBaseline t p e)"
proof -
  let ?e1 = "handleBaseline t p e" and ?k = "baselineKeyForPacket e p"
  let ?e2 = "fold (\<lambda>(now, x). handleBaseline now x) ps ?e1"
  have 1: "mtrue (dt_learnedPatterns ?e1) ?k" by (rule handleBaseline_learns) fact+
  have 2: "dt_knownMAC ?e2 = dt_knownMAC e \<and> dt_candidateMAC ?e2 = dt_candidateMAC e \<and> mtrue (dt_learnedPatterns ?e2) ?k"
    using handleBaseline_run_keeps [of ps ?e1 ?k] handleBaseline_keeps [of t p e ?k] 1 by (simp add: Let_def)
  then have "baselineKeyForPacket ?e2 q = ?k" using baselineKeyForPacket_cong [of ?e2 e q] assms(3) by simp
  with 2 handleBaseline_trusted [OF assms(4)] show ?thesis by simp
qed

theorem learned_pattern_stays_silent_witness:
  "let e = (demo_detector minute)\<lparr> dt_baselineMode := BaselineModeLearning, dt_learningStarted := 1 \<rparr>;
       p = zero_packet\<lparr> pk_SrcIP := ''10.0.0.1'', pk_DstIP := ''10.0.0.2'', pk_SrcPort := 40000, pk_DstPort := 502, pk_L4Protocol := ''TCP'' \<rparr>;
       e2 = handleBaseline (3 * minute) p e
   in handleBaseline (4 * minute) (reply p) e2 = e2"
proof -
  let ?e = "(demo_detector minute)\<lparr> dt_baselineMode := BaselineModeLearning, dt_learningStarted := 1 \<rparr>"
  let ?p = "zero_packet\<lparr> pk_SrcIP := ''10.0.0.1'', pk_DstIP := ''10.0.0.2'', pk_SrcPort := 40000, pk_DstPort := 502, pk_L4Protocol := ''TCP'' \<rparr>"
  have ep: "endpoints ?p" by (simp add: endpoints_def)
  have "\<not> has_flag ?p ''SYN''" by code_simp
  then have k: "baselineKeyForPacket ?e (reply ?p) = baselineKeyForPacket ?e ?p"
    by (simp add: baselineKeyForPacket_def baselineServicePort_reply baselineKeyForPacketService_reply)
  have m: "dt_baselineMode ?e = BaselineModeLearning" by simp
  have "dt_baselineMode (handleBaseline (3 * minute) ?p ?e) = BaselineModeMonitoring"
    unfolding handleBaseline_fields(6) [OF endpoints_relevant [OF ep]]
    by (simp add: finish_learning_def start_learning_def publishBaselineComplete_def publish_def max_learning_def Let_def int64_id demo_detector_def NewDetector_def
        time_sub_def minute_def second_def)
  with learned_pattern_stays_silent [OF m ep k, of "[]"] show ?thesis by (simp add: Let_def)
qed

section \<open>Two patterns of one connection\<close>

text \<open>
  One TCP connection to a service the engine has no name for has two patterns when the client's
  port is the smaller one: the handshake is filed under the port of the server, every other packet
  under the port of the client, which changes with each connection.  A trusted service raises the
  alert on new communications for each of its connections.
\<close>

theorem connection_has_two_patterns:
  assumes "equal_fold (pk_L4Protocol p) ''tcp''" and "0 < pk_SrcPort p" and "pk_SrcPort p < pk_DstPort p"
    and "\<not> knownServicePort (pk_L4Protocol p) (pk_SrcPort p)" and "\<not> knownServicePort (pk_L4Protocol p) (pk_DstPort p)"
    and "go_contains (to_upper syn) ''SYN'' \<and> \<not> go_contains (to_upper syn) ''ACK''" and "\<not> go_contains (to_upper dat) ''SYN''"
  shows "baselineServicePort (p\<lparr> pk_TCPFlags := syn \<rparr>) = pk_DstPort p \<and> baselineServicePort (p\<lparr> pk_TCPFlags := dat \<rparr>) = pk_SrcPort p \<and>
    baselineKeyForPacket e (p\<lparr> pk_TCPFlags := dat \<rparr>) \<noteq> baselineKeyForPacket e (p\<lparr> pk_TCPFlags := syn \<rparr>)"
proof -
  have ne: "pk_SrcPort p \<noteq> 0" "pk_DstPort p \<noteq> 0" "pk_SrcPort p \<noteq> pk_DstPort p"
    using assms(2,3) by auto
  have nu: "\<not> equal_fold (pk_L4Protocol p) ''udp''"
  proof
    assume "equal_fold (pk_L4Protocol p) ''udp''"
    with assms(1) have "to_lower ''tcp'' = to_lower ''udp''" by (simp add: equal_fold_def)
    moreover have "to_lower ''tcp'' \<noteq> to_lower ''udp''" by code_simp
    ultimately show False by simp
  qed
  have s: "baselineServicePort (p\<lparr> pk_TCPFlags := syn \<rparr>) = pk_DstPort p"
    using assms(1,6) ne by (simp add: baselineServicePort_def has_flag_def)
  have d: "baselineServicePort (p\<lparr> pk_TCPFlags := dat \<rparr>) = pk_SrcPort p"
    using assms(3-5,7) ne nu by (auto simp: baselineServicePort_def has_flag_def dynamicPortFloor_def Let_def)
  have "baseline_key_text l a b x \<noteq> baseline_key_text l a b y" if "x \<noteq> y" for l a b x y
    using that by (simp add: baseline_key_text_def word_unat_eq_iff)
  with s d ne(3) show ?thesis
    by (auto simp: baselineKeyForPacket_def baselineKeyForPacketService_def Let_def)
qed

theorem connection_has_two_patterns_witness:
  "let p = zero_packet\<lparr> pk_SrcIP := ''10.0.0.1'', pk_DstIP := ''10.0.0.2'', pk_SrcPort := 50000, pk_DstPort := 60000, pk_L4Protocol := ''TCP'' \<rparr>
   in baselineServicePort (p\<lparr> pk_TCPFlags := ''SYN'' \<rparr>) = 60000 \<and> baselineServicePort (p\<lparr> pk_TCPFlags := ''ACK'' \<rparr>) = 50000"
proof -
  let ?p = "zero_packet\<lparr> pk_SrcIP := ''10.0.0.1'', pk_DstIP := ''10.0.0.2'', pk_SrcPort := 50000, pk_DstPort := 60000, pk_L4Protocol := ''TCP'' \<rparr>"
  have a: "equal_fold (pk_L4Protocol ?p) ''tcp''" by code_simp
  have b: "0 < pk_SrcPort ?p" "pk_SrcPort ?p < pk_DstPort ?p" by simp_all
  have c: "\<not> knownServicePort (pk_L4Protocol ?p) (pk_SrcPort ?p)" "\<not> knownServicePort (pk_L4Protocol ?p) (pk_DstPort ?p)" by code_simp+
  have f: "go_contains (to_upper ''SYN'') ''SYN'' \<and> \<not> go_contains (to_upper ''SYN'') ''ACK''" "\<not> go_contains (to_upper ''ACK'') ''SYN''"
    by code_simp+
  from connection_has_two_patterns [OF a b c f, of "demo_detector minute"] show ?thesis by (simp add: Let_def)
qed

section \<open>An excluded pattern is learned again\<close>

text \<open>
  The exclusion of a flow from learning does not last: the pattern that a security detector has just
  removed is trusted again as soon as the next packet of the same flow arrives while the engine is still
  learning.
\<close>

theorem excluded_pattern_is_relearned:
  assumes "dt_baselineMode e = BaselineModeLearning" and "endpoints q" and "baselineKeyForPacket e q = baselineKeyForPacket e p"
  shows "mtrue (dt_learnedPatterns (handleBaseline t q (excludePacketFromLearning t' p reason e))) (baselineKeyForPacket e p)"
proof -
  let ?e = "excludePacketFromLearning t' p reason e"
  have "dt_baselineMode ?e = BaselineModeLearning \<and> dt_knownMAC ?e = dt_knownMAC e \<and> dt_candidateMAC ?e = dt_candidateMAC e"
    using assms(1) by (simp add: excludePacketFromLearning_def on_policy_def publish_def Let_def)
  with handleBaseline_learns [OF assms(2), of ?e t] baselineKeyForPacket_cong [of ?e e q] assms(3) show ?thesis by simp
qed

theorem excluded_pattern_is_relearned_witness:
  "let e = (demo_detector minute)\<lparr> dt_baselineMode := BaselineModeLearning, dt_learningStarted := 1 \<rparr>;
       p = zero_packet\<lparr> pk_SrcIP := ''10.0.0.1'', pk_DstIP := ''10.0.0.2'', pk_SrcPort := 40000, pk_DstPort := 22, pk_L4Protocol := ''TCP'' \<rparr>
   in mtrue (dt_learnedPatterns (handleBaseline 3 p (excludePacketFromLearning 2 p ''unapproved remote management into OT'' e))) (baselineKeyForPacket e p)"
proof -
  let ?e = "(demo_detector minute)\<lparr> dt_baselineMode := BaselineModeLearning, dt_learningStarted := 1 \<rparr>"
  let ?p = "zero_packet\<lparr> pk_SrcIP := ''10.0.0.1'', pk_DstIP := ''10.0.0.2'', pk_SrcPort := 40000, pk_DstPort := 22, pk_L4Protocol := ''TCP'' \<rparr>"
  have "dt_baselineMode ?e = BaselineModeLearning" "endpoints ?p" by (simp_all add: endpoints_def)
  from excluded_pattern_is_relearned [OF this refl] show ?thesis by (simp add: Let_def)
qed

end
