(* ===== verification/Detect_Identity.thy ===== *)
theory Detect_Identity
  imports Detect_Review Detect_Learning
begin

text \<open>
  Claims of an address in internal/detect: no traffic moves the trust in an address from one device to
  another, an approval does, and when the alert on a duplicate address is missing.
\<close>

section \<open>Trust\<close>

lemma on_policy_fields [simp]:
  "dt_knownMAC (on_policy f e) = dt_knownMAC e" "dt_candidateMAC (on_policy f e) = dt_candidateMAC e"
  "dt_candidateCount (on_policy f e) = dt_candidateCount e" "dt_arpConfirmThreshold (on_policy f e) = dt_arpConfirmThreshold e"
  "dt_alerts (on_policy f e) = dt_alerts e" "dt_rules (on_policy f e) = dt_rules e" "dt_policy (on_policy f e) = f (dt_policy e)"
  "dt_baselineMode (on_policy f e) = dt_baselineMode e" "dt_baselineEnabled (on_policy f e) = dt_baselineEnabled e"
  "dt_events (on_policy f e) = dt_events e" "dt_learnedPatterns (on_policy f e) = dt_learnedPatterns e"
  by (simp_all add: on_policy_def)

lemma garp_fields [simp]:
  "dt_knownMAC (observeGratuitousARP clk p now e) = dt_knownMAC e" "dt_candidateMAC (observeGratuitousARP clk p now e) = dt_candidateMAC e"
  "dt_candidateCount (observeGratuitousARP clk p now e) = dt_candidateCount e"
  "dt_arpConfirmThreshold (observeGratuitousARP clk p now e) = dt_arpConfirmThreshold e"
  by (simp_all add: observeGratuitousARP_def Let_def)

lemma note_macs_fields [simp]:
  "dt_knownMAC (note_macs k a b e) = dt_knownMAC e" "dt_candidateMAC (note_macs k a b e) = dt_candidateMAC e"
  "dt_candidateCount (note_macs k a b e) = dt_candidateCount e" "dt_arpConfirmThreshold (note_macs k a b e) = dt_arpConfirmThreshold e"
  by (simp_all add: note_macs_def split: option.split)

lemma raise_conflict_fields [simp]:
  "dt_knownMAC (raise_conflict clk ip known mac n now e) = dt_knownMAC e" "dt_candidateMAC (raise_conflict clk ip known mac n now e) = dt_candidateMAC e"
  "dt_candidateCount (raise_conflict clk ip known mac n now e) = dt_candidateCount e"
  "dt_arpConfirmThreshold (raise_conflict clk ip known mac n now e) = dt_arpConfirmThreshold e"
  by (simp_all add: raise_conflict_def)

lemma escalate_fields [simp]:
  "dt_knownMAC (escalate_conflict clk ip known mac n now e) = dt_knownMAC e" "dt_candidateMAC (escalate_conflict clk ip known mac n now e) = dt_candidateMAC e"
  "dt_candidateCount (escalate_conflict clk ip known mac n now e) = dt_candidateCount e"
  "dt_arpConfirmThreshold (escalate_conflict clk ip known mac n now e) = dt_arpConfirmThreshold e"
  by (simp_all add: escalate_conflict_def raise_duplicate_def raise_gateway_def Let_def)

lemma exclude_macs [simp]: "dt_knownMAC (excludePacketFromLearning clk p r e) = dt_knownMAC e"
  by (simp add: excludePacketFromLearning_def publish_def Let_def)

lemma custom_macs [simp]: "dt_knownMAC (handleCustomRules rx quoted ks now p e) = dt_knownMAC e"
proof -
  have "dt_knownMAC (apply_custom_rule quoted now p r x) = dt_knownMAC x" for r x
    by (simp add: apply_custom_rule_def update_rule_def raiseCustomRuleAlert_def Let_def split: option.split prod.split)
  then have "dt_knownMAC (fold (apply_custom_rule quoted now p) rs x) = dt_knownMAC x" for rs x
    by (induction rs arbitrary: x) simp_all
  then show ?thesis by (simp add: handleCustomRules_def)
qed

lemma learn_claim_known: "mget (dt_knownMAC e) ip = Some m \<Longrightarrow> mget (dt_knownMAC (snd (learn_claim ip' mac e))) ip = Some m"
  by (auto simp: learn_claim_def split: option.split)

lemma handleARP_known: "mget (dt_knownMAC e) ip = Some m \<Longrightarrow> mget (dt_knownMAC (handleARP clk p e)) ip = Some m"
  using learn_claim_known [of "observeGratuitousARP clk p (packet_time clk p) e" ip m "pk_ARPSrcIP p" "pk_ARPSrcMAC p"]
  by (cases "learn_claim (pk_ARPSrcIP p) (pk_ARPSrcMAC p) (observeGratuitousARP clk p (packet_time clk p) e)")
    (auto simp: handleARP_def Let_def)

lemma activity_known: "mget (dt_knownMAC e) ip = Some m \<Longrightarrow> mget (dt_knownMAC (run_activity rx quoted x e)) ip = Some m"
proof (cases x)
  case (A_packet clk p)
  assume "mget (dt_knownMAC e) ip = Some m"
  with A_packet handleBaseline_keeps [of clk p e] show ?thesis by simp
qed (simp_all add: handle_claim_packet_def handleARP_known)

text \<open>
  C29: repetition does not create trust: once an address belongs to a device, no sequence of claims,
  packets, rule matches and alerts gives it to another one, however often the claim is repeated.
\<close>

theorem claimant_is_never_trusted:
  assumes "mget (dt_knownMAC e) ip = Some m"
  shows "mget (dt_knownMAC (fold (run_activity rx quoted) xs e)) ip = Some m"
  using assms by (induction xs arbitrary: e) (simp_all add: activity_known)

definition claim :: "string \<Rightarrow> string \<Rightarrow> packet" where
  "claim ip mac = zero_packet\<lparr> pk_L4Protocol := ''ARP'', pk_ARPSrcIP := ip, pk_ARPSrcMAC := mac, pk_Timestamp := second \<rparr>"

theorem claimant_is_never_trusted_witness:
  "mget (dt_knownMAC (fold (run_activity (\<lambda>s. None) (\<lambda>s. s)) (replicate 50 (A_claim 1 (claim ''10.0.0.1'' ''00:00:00:00:00:02'')))
     ((NewDetector demo_config)\<lparr> dt_knownMAC := [(''10.0.0.1'', ''00:00:00:00:00:01'')] \<rparr>))) ''10.0.0.1'' = Some ''00:00:00:00:00:01''"
  by (rule claimant_is_never_trusted) (simp add: mget_def)

section \<open>What an approval does\<close>

lemma claimed_evidence: "evidenceString (asset_evidence e ip (arp_evidence ip' known mac n)) ''new_mac'' = trim_space mac"
proof -
  have "mget (asset_evidence e ip (arp_evidence ip' known mac n)) ''new_mac'' = Some (E_string mac)"
    by (simp add: asset_evidence_def arp_evidence_def) (simp add: mget_def)
  then show ?thesis by (simp add: evidenceString_def)
qed

lemma known_types: "AlertARPSpoof \<noteq> AlertNewCommunication" "AlertARPSpoof \<noteq> AlertDuplicateIP" "AlertGratuitousARPStorm \<noteq> AlertDuplicateIP"
  by (simp_all add: AlertARPSpoof_def AlertNewCommunication_def AlertDuplicateIP_def AlertGratuitousARPStorm_def)

text \<open>
  The approval of an address conflict is the transition of trust: a claim by a new device raises an alert
  whose approval makes that device the trusted one, after which its claims are no conflict any more and those of
  the former device are.
\<close>

theorem approval_moves_trust:
  assumes "mget (dt_rules e) AlertARPSpoof = Some r" and "aggregating r" and "mget (dt_knownMAC e) ip = Some known"
    and "mac \<noteq> known" "mac \<noteq> []" "trim_space mac = mac" "ip \<noteq> []" and "now \<noteq> 0"
    and "mget (dt_alerts e) (asset_key e (arp_key ip known mac) ip) = None"
  shows "let e1 = raise_conflict clk ip known mac n now e; e2 = snd (ApproveAlert clk' (asset_key e (arp_key ip known mac) ip) e1)
    in mget (dt_knownMAC e2) ip = Some mac \<and> fst (learn_claim ip mac e2) = False \<and> fst (learn_claim ip known e2) = True"
proof -
  define k where "k = asset_key e (arp_key ip known mac) ip"
  define v where "v = arp_evidence ip known mac n"
  define b where "b = snd (recordEpisodeAlert now now alertEpisodeGap
    (raised_alert e AlertARPSpoof (builtin_severity ''high'' r) (arp_key ip known mac) (conflict_message ip known mac) ip v now))"
  define e0 where "e0 = snd (raiseBuiltinAlert clk AlertARPSpoof AlertARPSpoof ''high'' (arp_key ip known mac) (conflict_message ip known mac) ip v now alertEpisodeGap e)"
  have none: "mget (dt_alerts e) (asset_key e (arp_key ip known mac) ip) = None" by fact
  have ne: "AlertARPSpoof \<noteq> []" by (simp add: AlertARPSpoof_def)
  have st: "snd (store_alert AlertARPSpoof r AlertARPSpoof (builtin_severity ''high'' r) (arp_key ip known mac) (conflict_message ip known mac) ip v now alertEpisodeGap e) =
       e\<lparr> dt_rules := mput AlertARPSpoof (r\<lparr> ru_LastTriggered := now \<rparr>) (dt_rules e), dt_alerts := mput k b (dt_alerts e) \<rparr>"
    unfolding k_def b_def by (subst store_aggregating [OF assms(2)]) (simp_all add: none)
  have al: "dt_alerts e0 = mput k b (dt_alerts e)"
    using assms(8) ne st by (simp add: e0_def raiseBuiltinAlert_def is_zero_time_def raise_aggregating [OF assms(1,2)])
  have "asset_identity e ip \<noteq> []" using assms(7) by (simp add: asset_identity_def Let_def)
  then have nk: "k \<noteq> arp_key ip known mac" by (simp add: k_def asset_key_def)
  have rc: "raise_conflict clk ip known mac n now e = note_macs (arp_key ip known mac) known mac e0"
    by (simp add: raise_conflict_def e0_def v_def)
  have b1: "mget (dt_alerts (raise_conflict clk ip known mac n now e)) k = Some b"
    using nk by (simp add: rc note_macs_def al split: option.split)
  have b2: "al_Type b = AlertARPSpoof" "al_IP b = ip" "al_Evidence b = asset_evidence e ip v" "al_NewMAC b = []"
    unfolding b_def by (simp_all add: raised_alert_def none new_alert_def recordEpisodeAlert_def Let_def)
  have "mget (dt_knownMAC (snd (ApproveAlert clk' k (raise_conflict clk ip known mac n now e)))) ip = Some mac"
    using b1 b2 assms(5-7) known_types(1)
    by (simp add: ApproveAlert_def Let_def approve_pattern_def approve_identity_def first_text_def v_def claimed_evidence)
  then show ?thesis using assms(4) by (auto simp: Let_def learn_claim_def k_def)
qed

theorem approval_moves_trust_witness:
  "let e = (NewDetector demo_config)\<lparr> dt_knownMAC := [(''10.0.0.1'', ''00:00:00:00:00:01'')] \<rparr>;
       e1 = raise_conflict 1 ''10.0.0.1'' ''00:00:00:00:00:01'' ''00:00:00:00:00:02'' 1 second e;
       e2 = snd (ApproveAlert 2 (asset_key e (arp_key ''10.0.0.1'' ''00:00:00:00:00:01'' ''00:00:00:00:00:02'') ''10.0.0.1'') e1)
   in mget (dt_knownMAC e2) ''10.0.0.1'' = Some ''00:00:00:00:00:02''"
proof -
  let ?e = "(NewDetector demo_config)\<lparr> dt_knownMAC := [(''10.0.0.1'', ''00:00:00:00:00:01'')] \<rparr>"
  obtain r where r: "mget (dt_rules (NewDetector demo_config)) AlertARPSpoof = Some r" "aggregating r" using arp_rule by blast
  have a: "mget (dt_rules ?e) AlertARPSpoof = Some r" "mget (dt_knownMAC ?e) ''10.0.0.1'' = Some ''00:00:00:00:00:01''"
    "''00:00:00:00:00:02'' \<noteq> ''00:00:00:00:00:01''" "''00:00:00:00:00:02'' \<noteq> []" "''10.0.0.1'' \<noteq> []" "second \<noteq> 0"
    "mget (dt_alerts ?e) (asset_key ?e (arp_key ''10.0.0.1'' ''00:00:00:00:00:01'' ''00:00:00:00:00:02'') ''10.0.0.1'') = None"
    using r(1) by (simp_all add: second_def mget_def NewDetector_def)
  have t: "trim_space ''00:00:00:00:00:02'' = ''00:00:00:00:00:02''" by code_simp
  from approval_moves_trust [OF a(1) r(2) a(2,3,4) t a(5,6,7), of 1 1 2] show ?thesis unfolding Let_def by blast
qed

section \<open>A duplicate address that is never reported\<close>

definition no_duplicate_in :: "(string, alert) gomap \<Rightarrow> bool" where
  "no_duplicate_in m \<longleftrightarrow> (\<forall>(k, a) \<in> set m. al_Type a \<noteq> AlertDuplicateIP)"

definition no_duplicate_alert :: "detector \<Rightarrow> bool" where
  "no_duplicate_alert e \<longleftrightarrow> no_duplicate_in (dt_alerts e)"

lemma no_duplicate_mput: "no_duplicate_in m \<Longrightarrow> al_Type a \<noteq> AlertDuplicateIP \<Longrightarrow> no_duplicate_in (mput k a m)"
  unfolding no_duplicate_in_def by (rule mput_forall)

lemma no_duplicate_get: "no_duplicate_in m \<Longrightarrow> mget m k = Some a \<Longrightarrow> al_Type a \<noteq> AlertDuplicateIP"
  by (auto simp: no_duplicate_in_def dest: mget_SomeD)

lemma counted_type [simp]: "al_Type (count_alert x a) = al_Type a" "al_Type (snd (recordEpisodeAlert x z g a)) = al_Type a"
  by (simp_all add: count_alert_def recordEpisodeAlert_def Let_def)

lemma store_types:
  assumes "no_duplicate_alert e" and "t \<noteq> AlertDuplicateIP"
  shows "no_duplicate_alert (snd (store_alert rid r t sev key msg ip v now gap e))"
proof -
  have c: "al_Type (snd (if x then (True, count_alert now a) else recordEpisodeAlert now now gap a)) = al_Type a" for x a by simp
  have m: "no_duplicate_in (mput k b (dt_alerts e))" if "al_Type b = t" for k b
    using assms that by (simp add: no_duplicate_alert_def no_duplicate_mput)
  have f: "al_Type (refresh_alert t a1 a2 a3 a4 a5 x) = t" "al_Type (new_alert b1 t b2 b3 b4 b5 b6 b7) = t" for a1 a2 a3 a4 a5 x b1 b2 b3 b4 b5 b6 b7
    by (simp_all add: refresh_alert_def new_alert_def)
  show ?thesis
  proof (cases "mget (dt_alerts e) (alert_key e key ip r now)")
    case None
    then show ?thesis
      unfolding store_alert_def Let_def no_duplicate_alert_def
      by (simp add: case_prod_beta m c f)
  next
    case (Some a)
    then show ?thesis
      using assms(1) unfolding store_alert_def Let_def no_duplicate_alert_def
      by (simp add: case_prod_beta m c f)
  qed
qed

lemma no_duplicate_alerts_eq: "dt_alerts e' = dt_alerts e \<Longrightarrow> no_duplicate_alert e' = no_duplicate_alert e"
  by (simp add: no_duplicate_alert_def)

lemma raise_types:
  assumes "no_duplicate_alert e" and "t \<noteq> AlertDuplicateIP"
  shows "no_duplicate_alert (snd (raiseBuiltinAlert clk rid t sev key msg ip v at0 gap e))"
proof -
  have k: "no_duplicate_alert (ensure_rule rid' e)" for rid' using assms(1) by (simp add: ensure_rule_def no_duplicate_alert_def split: option.split)
  moreover have "no_duplicate_alert (x\<lparr> dt_rules := rs \<rparr>) = no_duplicate_alert x" for x rs by (simp add: no_duplicate_alert_def)
  ultimately show ?thesis
    using store_types [OF k assms(2)] unfolding raiseBuiltinAlert_def raiseBuiltinAlertLocked_def Let_def
    by (simp split: option.split)
qed

lemma garp_types: "no_duplicate_alert e \<Longrightarrow> no_duplicate_alert (observeGratuitousARP clk p now e)"
proof -
  assume n: "no_duplicate_alert e"
  then have "no_duplicate_alert (on_policy f e)" for f using no_duplicate_alerts_eq by (metis on_policy_fields(5))
  with n show ?thesis by (simp add: observeGratuitousARP_def Let_def raise_types known_types)
qed

lemma note_types: "no_duplicate_alert e \<Longrightarrow> no_duplicate_alert (note_macs key a b e)"
  using no_duplicate_get by (auto simp: note_macs_def no_duplicate_alert_def split: option.split intro!: no_duplicate_mput)

lemma conflict_types: "no_duplicate_alert e \<Longrightarrow> no_duplicate_alert (raise_conflict clk ip known mac n now e)"
  unfolding raise_conflict_def by (intro note_types raise_types) (simp_all add: known_types)

text \<open>The owner and one claimant alternate: no claim is pending after the owner has spoken.\<close>

definition settled :: "string \<Rightarrow> string \<Rightarrow> detector \<Rightarrow> bool" where
  "settled ip owner e \<longleftrightarrow> mget (dt_knownMAC e) ip = Some owner \<and> mget (dt_candidateMAC e) ip = None \<and> dt_arpConfirmThreshold e \<ge> 2 \<and>
     no_duplicate_alert e"

lemma claim_once:
  assumes s: "settled ip owner e" and p: "pk_ARPSrcIP p = ip" "pk_ARPSrcMAC p = mac" and m: "mac \<noteq> owner" "mac \<noteq> []" "ip \<noteq> []" "ip \<noteq> ''0.0.0.0''"
  shows "mget (dt_knownMAC (handleARP clk p e)) ip = Some owner \<and> dt_arpConfirmThreshold (handleARP clk p e) \<ge> 2 \<and>
    no_duplicate_alert (handleARP clk p e)"
proof -
  define e1 where "e1 = observeGratuitousARP clk p (packet_time clk p) e"
  define e2 where "e2 = e1\<lparr> dt_candidateMAC := mput ip mac (dt_candidateMAC e1), dt_candidateCount := mput ip 1 (dt_candidateCount e1) \<rparr>"
  have f1: "mget (dt_knownMAC e1) ip = Some owner" "mget (dt_candidateMAC e1) ip = None" "2 \<le> dt_arpConfirmThreshold e1" "no_duplicate_alert e1"
    using s garp_types by (simp_all add: settled_def e1_def)
  have f2: "mget (dt_knownMAC e2) ip = Some owner" "2 \<le> dt_arpConfirmThreshold e2" "no_duplicate_alert e2" "candidate_count e2 ip = 1"
    using f1 no_duplicate_alerts_eq [of e2 e1] by (simp_all add: e2_def candidate_count_def)
  have l: "learn_claim ip mac e1 = (True, e2)" using f1 m by (simp add: learn_claim_def mtext_def e2_def)
  have k: "mtext (dt_knownMAC e1) ip = owner" "mtext (dt_knownMAC e) ip = owner" using f1 s by (simp_all add: mtext_def settled_def)
  have h: "handleARP clk p e = (if isRedundancyVirtualMAC owner \<and> isRedundancyVirtualMAC mac then e2
      else escalate_conflict clk ip owner mac 1 (packet_time clk p) (raise_conflict clk ip owner mac 1 (packet_time clk p) e2))"
    using m by (simp add: handleARP_def p Let_def e1_def [symmetric] l k f2(4))
  show ?thesis
    unfolding h using conflict_types [OF f2(3)] f2 by (simp add: escalate_conflict_def)
qed

lemma owner_speaks:
  assumes k: "mget (dt_knownMAC e) ip = Some owner" and t: "dt_arpConfirmThreshold e \<ge> 2" and n: "no_duplicate_alert e"
    and q: "pk_ARPSrcIP q = ip" "pk_ARPSrcMAC q = owner" and m: "owner \<noteq> []" "ip \<noteq> []" "ip \<noteq> ''0.0.0.0''"
  shows "settled ip owner (handleARP clk q e)"
  using assms garp_types [OF n] by (simp add: handleARP_def learn_claim_def settled_def Let_def no_duplicate_alert_def)

text \<open>
  Two devices that really use one address are not reported as a duplicate: the counter of the conflicting
  claims is cleared by each packet of the owner, so as long as both devices speak in turn the alert
  duplicate_ip is never raised, for any threshold above one and any number of rounds.
\<close>

theorem alternating_claims_never_duplicate:
  assumes "settled ip owner e" and "pk_ARPSrcIP p = ip" "pk_ARPSrcMAC p = mac" and "pk_ARPSrcIP q = ip" "pk_ARPSrcMAC q = owner"
    and "mac \<noteq> owner" "mac \<noteq> []" "owner \<noteq> []" "ip \<noteq> []" "ip \<noteq> ''0.0.0.0''"
  shows "no_duplicate_alert (fold (\<lambda>(t, u) x. handleARP u q (handleARP t p x)) rounds e)"
proof -
  have "settled ip owner (fold (\<lambda>(t, u) x. handleARP u q (handleARP t p x)) rounds x)" if "settled ip owner x" for x
    using that
  proof (induction rounds arbitrary: x)
    case (Cons tu rounds)
    obtain t u where tu: "tu = (t, u)" by fastforce
    from claim_once [OF Cons.prems assms(2,3,6,7,9,10), of t]
    have "settled ip owner (handleARP u q (handleARP t p x))" by (intro owner_speaks) (use assms in auto)
    with Cons.IH tu show ?case by simp
  qed simp
  with assms(1) show ?thesis by (simp add: settled_def)
qed

theorem alternating_claims_never_duplicate_witness:
  "no_duplicate_alert (fold (\<lambda>(t, u) x. handleARP u (claim ''10.0.0.1'' ''00:00:00:00:00:01'') (handleARP t (claim ''10.0.0.1'' ''00:00:00:00:00:02'') x))
     (replicate 1000 (1, 2)) ((demo_detector minute)\<lparr> dt_knownMAC := [(''10.0.0.1'', ''00:00:00:00:00:01'')] \<rparr>))"
  by (rule alternating_claims_never_duplicate [where ip = "''10.0.0.1''" and owner = "''00:00:00:00:00:01''" and mac = "''00:00:00:00:00:02''"])
    (simp_all add: settled_def claim_def no_duplicate_alert_def no_duplicate_in_def demo_detector_def NewDetector_def mget_def)

end
