(* ===== verification/Detect_Rulebook.thy ===== *)
theory Detect_Rulebook
  imports Detect_Rules
begin

text \<open>
  The rules of internal/detect: what the check of a rule guarantees, that every custom rule in the
  table stays well formed under all operations, what a rule matches, and three behaviours of the
  operations that their callers may not expect.
\<close>

section \<open>Well-formed rules\<close>

definition well_formed_group :: "regexps \<Rightarrow> rule_group \<Rightarrow> bool" where
  "well_formed_group rx g \<longleftrightarrow> gr_Operator g \<in> {''AND'', ''OR''} \<and> gr_Conditions g \<noteq> [] \<and>
     (\<forall>c \<in> set (gr_Conditions g). check_condition rx c = None)"

definition well_formed_suppression :: "rule_suppression \<Rightarrow> bool" where
  "well_formed_suppression s \<longleftrightarrow> su_Mode s \<in> set suppression_modes \<and> (su_Mode s = ''interval'' \<longrightarrow> su_IntervalSeconds s > 0)"

definition well_formed_rule :: "regexps \<Rightarrow> rule \<Rightarrow> bool" where
  "well_formed_rule rx r \<longleftrightarrow> trim_space (ru_Name r) \<noteq> [] \<and> ru_Severity r \<in> set severities \<and> ru_Priority r \<noteq> 0 \<and>
     ru_GroupOperator r \<in> {''AND'', ''OR''} \<and> ru_Groups r \<noteq> [] \<and> (\<forall>g \<in> set (ru_Groups r). well_formed_group rx g) \<and>
     ru_Actions r \<noteq> [] \<and> well_formed_suppression (ru_Suppression r)"

lemma first_error_None_iff: "first_error f xs = None \<longleftrightarrow> (\<forall>x \<in> set xs. f x = None)"
  by (induction xs) (auto split: option.split)

lemma normalize_groups_ok:
  "normalize_groups rx gs = Inr hs \<Longrightarrow> (\<forall>g \<in> set hs. well_formed_group rx g) \<and> (hs = [] \<longleftrightarrow> gs = [])"
proof (induction gs arbitrary: hs)
  case (Cons g gs)
  from Cons.prems obtain hs' where hs: "normalize_groups rx gs = Inr hs'" "hs = g\<lparr> gr_Operator := normal_operator (gr_Operator g) \<rparr> # hs'"
    and g: "normal_operator (gr_Operator g) \<in> {''AND'', ''OR''}" "gr_Conditions g \<noteq> []" "first_error (check_condition rx) (gr_Conditions g) = None"
    by (auto simp: Let_def split: if_splits option.splits sum.splits)
  from Cons.IH [OF hs(1)] g hs(2) show ?case by (auto simp: well_formed_group_def first_error_None_iff)
qed simp

lemma normalize_groups_id: "\<forall>g \<in> set gs. well_formed_group rx g \<Longrightarrow> normalize_groups rx gs = Inr gs"
proof (induction gs)
  case (Cons g gs)
  then have op: "gr_Operator g \<in> {''AND'', ''OR''}" by (simp add: well_formed_group_def)
  moreover have "to_upper ''AND'' = ''AND''" "to_upper ''OR'' = ''OR''" by code_simp+
  ultimately have "normal_operator (gr_Operator g) = gr_Operator g" by (auto simp: normal_operator_def)
  moreover have "first_error (check_condition rx) (gr_Conditions g) = None" "gr_Conditions g \<noteq> []"
    using Cons.prems by (simp_all add: well_formed_group_def first_error_None_iff)
  ultimately show ?case using Cons op by (auto simp: Let_def)
qed simp

lemma with_mode_fields [simp]:
  "ru_Actions (with_mode r) = ru_Actions r" "ru_ID (with_mode r) = ru_ID r" "ru_Kind (with_mode r) = ru_Kind r" "ru_Name (with_mode r) = ru_Name r"
  "ru_Severity (with_mode r) = ru_Severity r" "ru_Priority (with_mode r) = ru_Priority r" "ru_Version (with_mode r) = ru_Version r"
  "ru_GroupOperator (with_mode r) = ru_GroupOperator r" "ru_Groups (with_mode r) = ru_Groups r"
  by (simp_all add: with_mode_def)

lemma with_actions_fields [simp]:
  "ru_Actions (with_actions r) \<noteq> []" "ru_ID (with_actions r) = ru_ID r" "ru_Kind (with_actions r) = ru_Kind r" "ru_Name (with_actions r) = ru_Name r"
  "ru_Severity (with_actions r) = ru_Severity r" "ru_Priority (with_actions r) = ru_Priority r" "ru_Version (with_actions r) = ru_Version r"
  "ru_GroupOperator (with_actions r) = ru_GroupOperator r" "ru_Groups (with_actions r) = ru_Groups r"
  by (simp_all add: with_actions_def)

lemma finish_rule_ok:
  assumes "finish_rule r0 = Inr r"
  shows "ru_Actions r \<noteq> [] \<and> well_formed_suppression (ru_Suppression r) \<and> ru_ID r = ru_ID r0 \<and> ru_Kind r = ru_Kind r0 \<and> ru_Name r = ru_Name r0 \<and>
    ru_Severity r = ru_Severity r0 \<and> ru_Priority r = ru_Priority r0 \<and> ru_Version r = ru_Version r0 \<and> ru_GroupOperator r = ru_GroupOperator r0 \<and> ru_Groups r = ru_Groups r0"
proof -
  let ?r = "with_mode (with_actions r0)"
  have "su_Mode (ru_Suppression ?r) \<in> set suppression_modes" "\<not> (su_Mode (ru_Suppression ?r) = ''interval'' \<and> su_IntervalSeconds (ru_Suppression ?r) \<le> 0)" "r = ?r"
    using assms unfolding finish_rule_def Let_def by (simp_all only: not_not sum.inject sum.distinct simp_thms split: if_split_asm)
  then show ?thesis by (simp add: well_formed_suppression_def not_le)
qed

lemma finish_rule_id: "ru_Actions r \<noteq> [] \<Longrightarrow> well_formed_suppression (ru_Suppression r) \<Longrightarrow> finish_rule r = Inr r"
proof -
  assume "ru_Actions r \<noteq> []" and w: "well_formed_suppression (ru_Suppression r)"
  then have a: "with_actions r = r" by (simp add: with_actions_def)
  have "su_Mode (ru_Suppression r) \<noteq> []" using w by (auto simp: well_formed_suppression_def suppression_modes_def)
  then have m: "with_mode r = r" by (simp add: with_mode_def)
  show ?thesis using w by (simp add: finish_rule_def a m Let_def well_formed_suppression_def not_le)
qed

lemma normalizeRule_ok:
  assumes "normalizeRule rx r0 = Inr r"
  shows "well_formed_rule rx r \<and> ru_ID r = ru_ID r0 \<and> ru_Kind r = ru_Kind r0 \<and> ru_Version r \<noteq> 0"
proof -
  let ?r1 = "if ru_Severity r0 = [] then r0\<lparr> ru_Severity := ''medium'' \<rparr> else r0"
  let ?r2 = "rule_defaults ?r1"
  from assms obtain gs where gs: "normalize_groups rx (legacy_groups ?r2) = Inr gs" and f: "finish_rule (?r2\<lparr> ru_Groups := gs \<rparr>) = Inr r"
    and ops: "trim_space (ru_Name r0) \<noteq> []" "ru_Severity ?r1 \<in> set severities" "ru_GroupOperator ?r2 \<in> {''AND'', ''OR''}" "legacy_groups ?r2 \<noteq> []"
    unfolding normalizeRule_def Let_def by (auto split: if_split_asm sum.splits)
  have "ru_Name ?r2 = ru_Name r0" "ru_Priority ?r2 \<noteq> 0" "ru_Version ?r2 \<noteq> 0" "ru_Severity ?r2 = ru_Severity ?r1" "ru_ID ?r2 = ru_ID r0" "ru_Kind ?r2 = ru_Kind r0"
    by (simp_all add: rule_defaults_def)
  with finish_rule_ok [OF f] normalize_groups_ok [OF gs] ops show ?thesis
    by (simp add: well_formed_rule_def)
qed

lemma normalizeRule_id:
  assumes w: "well_formed_rule rx r" and v: "ru_Version r \<noteq> 0"
  shows "normalizeRule rx r = Inr r"
proof -
  have "[] \<notin> set severities" by (simp add: severities_def)
  moreover have "to_upper ''AND'' = ''AND''" "to_upper ''OR'' = ''OR''" by code_simp+
  moreover have "rule_defaults r = r\<lparr> ru_GroupOperator := to_upper (ru_GroupOperator r) \<rparr>" using w v
    by (auto simp: rule_defaults_def well_formed_rule_def)
  ultimately have d: "rule_defaults r = r" "ru_Severity r \<noteq> []" using w by (auto simp: well_formed_rule_def)
  from w have "legacy_groups r = ru_Groups r" by (simp add: legacy_groups_def well_formed_rule_def)
  with w d normalize_groups_id [of "ru_Groups r" rx] finish_rule_id [of r] show ?thesis
    by (auto simp: normalizeRule_def well_formed_rule_def Let_def)
qed

text \<open>
  Checking a rule twice is checking it once: what \<open>normalizeRule\<close> returns is accepted again
  and not changed.  A rule that was stored, sent to the centre and restored is the same rule.
\<close>

theorem normalizeRule_idempotent:
  assumes "normalizeRule rx r0 = Inr r"
  shows "normalizeRule rx r = Inr r"
  using normalizeRule_ok [OF assms] normalizeRule_id by blast

definition demo_rule :: rule where
  "demo_rule = zero_rule\<lparr> ru_Name := ''Telnet'', ru_Kind := RuleKindCustom, ru_Enabled := True, ru_Field := ''dst_port'', ru_Value := ''23'' \<rparr>"

definition no_regexps :: regexps where "no_regexps = (\<lambda>s. None)"

lemma demo_rule_normal: "\<exists>r. normalizeRule no_regexps demo_rule = Inr r"
proof -
  have "(case normalizeRule no_regexps demo_rule of Inr r \<Rightarrow> True | Inl er \<Rightarrow> False)" by code_simp
  then show ?thesis by (auto split: sum.splits)
qed

theorem normalizeRule_idempotent_witness:
  "\<exists>r. normalizeRule no_regexps demo_rule = Inr r \<and> normalizeRule no_regexps r = Inr r"
  using demo_rule_normal normalizeRule_idempotent by blast

section \<open>Matching is the formula\<close>

lemma join_loop_conj: "join_loop True m vs = (m \<and> (\<forall>v \<in> set vs. v))"
  by (induction vs arbitrary: m) auto

lemma join_loop_disj: "join_loop False m vs = (m \<or> (\<exists>v \<in> set vs. v))"
  by (induction vs arbitrary: m) auto

lemma join_results_eq:
  "vs \<noteq> [] \<Longrightarrow> join_results op0 vs = (if op0 = ''AND'' then \<forall>v \<in> set vs. v else \<exists>v \<in> set vs. v)"
  by (cases vs) (auto simp: join_results_def join_loop_conj join_loop_disj)

definition holds_in :: "string \<Rightarrow> ('a \<Rightarrow> bool) \<Rightarrow> 'a list \<Rightarrow> bool" where
  "holds_in op0 P xs \<longleftrightarrow> (if op0 = ''AND'' then \<forall>x \<in> set xs. P x else \<exists>x \<in> set xs. P x)"

lemma join_results_map: "xs \<noteq> [] \<Longrightarrow> join_results op0 (map f xs) = holds_in op0 f xs"
  by (auto simp: join_results_eq holds_in_def)

lemma holds_in_cong: "(\<And>x. x \<in> set xs \<Longrightarrow> f x = g x) \<Longrightarrow> holds_in op0 f xs = holds_in op0 g xs"
  by (auto simp: holds_in_def)

text \<open>
  C31: the loops of \<open>ruleMatches\<close> compute the formula that the rule writes down: a checked rule matches a packet
  exactly if all (AND) or some (OR) of its groups hold, and a group holds if all or some of its conditions
  do.
\<close>

theorem ruleMatches_is_formula:
  assumes "normalizeRule rx r0 = Inr r"
  shows "ruleMatches rx r p \<longleftrightarrow>
    holds_in (ru_GroupOperator r) (\<lambda>g. holds_in (gr_Operator g) (\<lambda>c. conditionMatches rx c p) (gr_Conditions g)) (ru_Groups r)"
proof -
  have w: "ru_Groups r \<noteq> []" "\<And>g. g \<in> set (ru_Groups r) \<Longrightarrow> gr_Conditions g \<noteq> []"
    using normalizeRule_ok [OF assms] by (auto simp: well_formed_rule_def well_formed_group_def)
  then have "group_matches rx p g = holds_in (gr_Operator g) (\<lambda>c. conditionMatches rx c p) (gr_Conditions g)" if "g \<in> set (ru_Groups r)" for g
    using that by (simp add: group_matches_def join_results_map)
  then show ?thesis
    using w(1) by (simp add: ruleMatches_def join_results_map cong: holds_in_cong)
qed

theorem ruleMatches_is_formula_witness:
  "\<exists>r. normalizeRule no_regexps demo_rule = Inr r \<and>
     ruleMatches no_regexps r (zero_packet\<lparr> pk_DstPort := 23 \<rparr>) =
     holds_in (ru_GroupOperator r) (\<lambda>g. holds_in (gr_Operator g) (\<lambda>c. conditionMatches no_regexps c (zero_packet\<lparr> pk_DstPort := 23 \<rparr>)) (gr_Conditions g))
       (ru_Groups r)"
  using demo_rule_normal ruleMatches_is_formula [of no_regexps demo_rule _ "zero_packet\<lparr> pk_DstPort := 23 \<rparr>"] by blast

text \<open>
  An operator written in capitals is accepted by the check and then not obeyed: NOT_IN matches what IN matches,
  and GT, GTE and LT match what LTE matches, because the comparison looks at the text as it is written.
\<close>

theorem capital_operators_invert:
  assumes "to_lower op0 \<in> {''not_in'', ''gt'', ''gte'', ''lt''}" and "op0 \<noteq> to_lower op0"
  shows "validOperator op0 \<and>
    rule_compare rx v op0 want = rule_compare rx v (if to_lower op0 = ''not_in'' then ''in'' else ''lte'') want"
proof -
  have l: "to_lower ''in'' = ''in''" "to_lower ''lte'' = ''lte''" by code_simp+
  have n: "op0 \<noteq> ''not_in''" "op0 \<noteq> ''gt''" "op0 \<noteq> ''gte''" "op0 \<noteq> ''lt''"
  proof -
    have "to_lower ''not_in'' = ''not_in''" "to_lower ''gt'' = ''gt''" "to_lower ''gte'' = ''gte''" "to_lower ''lt'' = ''lt''" by code_simp+
    with assms(2) show "op0 \<noteq> ''not_in''" "op0 \<noteq> ''gt''" "op0 \<noteq> ''gte''" "op0 \<noteq> ''lt''" by metis+
  qed
  from assms(1) consider "to_lower op0 = ''not_in''" | "to_lower op0 = ''gt''" | "to_lower op0 = ''gte''" | "to_lower op0 = ''lt''" by blast
  then show ?thesis
    by cases (simp_all add: validOperator_def RuleOperators_def rule_compare_def num_compare_def l n Let_def split: option.splits)
qed

theorem capital_operators_invert_witness:
  "rule_compare no_regexps ''10.0.0.1'' ''NOT_IN'' ''10.0.0.1,10.0.0.2'' = rule_compare no_regexps ''10.0.0.1'' ''in'' ''10.0.0.1,10.0.0.2''"
proof -
  have a: "to_lower ''NOT_IN'' = ''not_in''" by code_simp
  have "to_lower ''NOT_IN'' \<in> {''not_in'', ''gt'', ''gte'', ''lt''}" "''NOT_IN'' \<noteq> to_lower ''NOT_IN''" by (simp_all add: a)
  from capital_operators_invert [OF this, of no_regexps "''10.0.0.1''" "''10.0.0.1,10.0.0.2''"] show ?thesis by (simp add: a)
qed

section \<open>The table of rules\<close>

text \<open>What happens to the rules: requests of the centre, packets, and the detectors that raise alerts.\<close>

datatype rule_op =
    RO_add rule
  | RO_upsert rule
  | RO_patch rule_patch
  | RO_toggle string bool
  | RO_delete string
  | RO_replace "rule list"
  | RO_packet time packet "string list"
  | RO_raise time string string string string string string evidence time duration

fun run_rules :: "regexps \<Rightarrow> (string \<Rightarrow> string) \<Rightarrow> rule_op \<Rightarrow> detector \<Rightarrow> detector" where
  "run_rules rx quoted (RO_add r) e = snd (AddPolicyRule rx r e)"
| "run_rules rx quoted (RO_upsert r) e = snd (UpsertPolicyRule rx r e)"
| "run_rules rx quoted (RO_patch p) e = snd (ApplyRulePolicyPatch p e)"
| "run_rules rx quoted (RO_toggle rid b) e = snd (ToggleRule rid b e)"
| "run_rules rx quoted (RO_delete rid) e = snd (DeleteRule rid e)"
| "run_rules rx quoted (RO_replace rs) e = ReplaceManagedRules rx rs e"
| "run_rules rx quoted (RO_packet now p ks) e = handleCustomRules rx quoted ks now p e"
| "run_rules rx quoted (RO_raise clk rid t sev key msg ip v now gap) e = snd (raiseBuiltinAlert clk rid t sev key msg ip v now gap e)"

definition entry_ok :: "regexps \<Rightarrow> string \<Rightarrow> rule \<Rightarrow> bool" where
  "entry_ok rx k r \<longleftrightarrow> ru_ID r = k \<and> (ru_Kind r = RuleKindCustom \<longrightarrow> well_formed_rule rx r \<and> ru_AlertType r = ''custom:'' @ k)"

definition rules_ok :: "regexps \<Rightarrow> (string, rule) gomap \<Rightarrow> bool" where
  "rules_ok rx rs \<longleftrightarrow> (\<forall>(k, r) \<in> set rs. entry_ok rx k r)"

lemma rules_ok_mput: "rules_ok rx rs \<Longrightarrow> entry_ok rx k r \<Longrightarrow> rules_ok rx (mput k r rs)"
  unfolding rules_ok_def by (rule mput_forall)

lemma rules_ok_mdel: "rules_ok rx rs \<Longrightarrow> rules_ok rx (mdel k rs)"
  unfolding rules_ok_def by (rule mdel_forall)

lemma rules_ok_get: "rules_ok rx rs \<Longrightarrow> mget rs k = Some r \<Longrightarrow> entry_ok rx k r"
  by (auto simp: rules_ok_def dest: mget_SomeD)

text \<open>Fields that the runtime and the operator may change without touching the shape of a rule.\<close>

lemma entry_ok_runtime [simp]:
  "entry_ok rx k (r\<lparr> ru_LastTriggered := t \<rparr>) = entry_ok rx k r"
  "entry_ok rx k (r\<lparr> ru_SimulationHits := n, ru_LastSimulationHit := t \<rparr>) = entry_ok rx k r"
  "entry_ok rx k (r\<lparr> ru_Enabled := b \<rparr>) = entry_ok rx k r"
  "entry_ok rx k (r\<lparr> ru_Enabled := b, ru_Version := v \<rparr>) = entry_ok rx k r"
  "entry_ok rx k (r\<lparr> ru_Version := v \<rparr>) = entry_ok rx k r"
  "entry_ok rx k (r\<lparr> ru_Simulation := b \<rparr>) = entry_ok rx k r"
  "entry_ok rx k (r\<lparr> ru_SeverityOverride := b \<rparr>) = entry_ok rx k r"
  "entry_ok rx k (r\<lparr> ru_Schedule := s \<rparr>) = entry_ok rx k r"
  "entry_ok rx k (r\<lparr> ru_Parameters := ps \<rparr>) = entry_ok rx k r"
  by (simp_all add: entry_ok_def well_formed_rule_def)

definition keeps_entry :: "regexps \<Rightarrow> string \<Rightarrow> patch_step \<Rightarrow> bool" where
  "keeps_entry rx k f \<longleftrightarrow> (\<forall>r. entry_ok rx k r \<longrightarrow> entry_ok rx k (snd (f r)))"

lemma run_steps_keep: "\<forall>f \<in> set fs. keeps_entry rx k f \<Longrightarrow> keeps_entry rx k (run_steps fs)"
proof (induction fs)
  case (Cons f fs)
  then have IH: "keeps_entry rx k (run_steps fs)" "keeps_entry rx k f" by simp_all
  show ?case
    unfolding keeps_entry_def
  proof (intro allI impI)
    fix r assume "entry_ok rx k r"
    with IH(2) have "entry_ok rx k (snd (f r))" by (simp add: keeps_entry_def)
    with IH(1) show "entry_ok rx k (snd (run_steps (f # fs) r))"
      by (cases "f r"; cases "fst (f r)") (auto simp: keeps_entry_def)
  qed
qed (simp add: keeps_entry_def)

lemma keep_enabled: "keeps_entry rx k (patch_enabled p)"
  by (auto simp: keeps_entry_def patch_enabled_def split: option.split)

lemma keep_severity: "keeps_entry rx k (patch_severity p)"
  by (auto simp: keeps_entry_def patch_severity_def Let_def entry_ok_def well_formed_rule_def split: option.split)

lemma entry_ok_severity: "ru_Kind r = RuleKindBuiltin \<Longrightarrow> entry_ok rx k (r\<lparr> ru_Severity := s \<rparr>) = entry_ok rx k r"
  by (simp add: entry_ok_def RuleKindBuiltin_def RuleKindCustom_def)

lemma keep_override: "keeps_entry rx k (patch_override p)"
  by (auto simp: keeps_entry_def patch_override_def Let_def entry_ok_severity split: option.split)

lemma keep_priority: "keeps_entry rx k (patch_priority p)"
  by (auto simp: keeps_entry_def patch_priority_def entry_ok_def well_formed_rule_def split: option.split)

lemma keep_simulation: "keeps_entry rx k (patch_simulation p)"
  by (auto simp: keeps_entry_def patch_simulation_def split: option.split)

lemma keep_suppression: "keeps_entry rx k (patch_suppression p)"
proof -
  have "entry_ok rx k (r\<lparr> ru_Suppression := s \<rparr>)" if "entry_ok rx k r" "well_formed_suppression s" for r s
    using that by (simp add: entry_ok_def well_formed_rule_def)
  then show ?thesis
    by (auto simp: keeps_entry_def patch_suppression_def Let_def well_formed_suppression_def split: option.split)
qed

lemma keep_schedule: "keeps_entry rx k (patch_schedule p)"
  by (auto simp: keeps_entry_def patch_schedule_def split: option.split)

lemma keep_parameters: "keeps_entry rx k (patch_parameters p)"
  by (auto simp: keeps_entry_def patch_parameters_def split: option.split)

lemma patch_rule_keeps: "entry_ok rx k r \<Longrightarrow> entry_ok rx k (snd (patch_rule p r))"
proof -
  have "keeps_entry rx k (\<lambda>r. (None, r\<lparr> ru_Version := ru_Version r + 1 \<rparr>))" by (simp add: keeps_entry_def)
  then have "keeps_entry rx k (patch_rule p)"
    unfolding patch_rule_def
    by (intro run_steps_keep) (simp add: keep_enabled keep_severity keep_override keep_priority keep_simulation keep_suppression keep_schedule keep_parameters)
  then show "entry_ok rx k r \<Longrightarrow> entry_ok rx k (snd (patch_rule p r))" by (simp add: keeps_entry_def)
qed

lemma custom_type_ok: "well_formed_rule rx r \<Longrightarrow> entry_ok rx (ru_ID r) (custom_type r)"
  by (simp add: entry_ok_def custom_type_def well_formed_rule_def)

lemma builtin_kinds: "mget builtinRules k = Some r \<Longrightarrow> ru_ID r = k \<and> ru_Kind r = RuleKindBuiltin"
  by (auto simp: builtinRules_get ship_builtin_def find_Some_iff)

lemma builtin_entry_ok: "mget builtinRules k = Some r \<Longrightarrow> entry_ok rx k r"
  using builtin_kinds [of k r] by (simp add: entry_ok_def RuleKindBuiltin_def RuleKindCustom_def)

lemma kinds_distinct [simp]: "RuleKindBuiltin \<noteq> RuleKindCustom" "RuleKindCustom \<noteq> RuleKindBuiltin"
  by (simp_all add: RuleKindBuiltin_def RuleKindCustom_def)

lemma override_entry_ok: "ru_Kind old \<noteq> RuleKindCustom \<Longrightarrow> entry_ok rx k old \<Longrightarrow> entry_ok rx k (override_policy c old)"
  by (simp add: entry_ok_def override_policy_def)

lemma add_keeps: "rules_ok rx (dt_rules e) \<Longrightarrow> rules_ok rx (dt_rules (snd (AddPolicyRule rx r e)))"
proof (cases "normalizeRule rx (r\<lparr> ru_Kind := RuleKindCustom \<rparr>)")
  case (Inr n)
  assume "rules_ok rx (dt_rules e)"
  moreover have w: "well_formed_rule rx n" using normalizeRule_ok [OF Inr] by simp
  moreover have "well_formed_rule rx (n\<lparr> ru_ID := s \<rparr>)" for s using w by (simp add: well_formed_rule_def)
  moreover have "ru_ID (custom_type m) = ru_ID m" for m by (simp add: custom_type_def)
  ultimately show ?thesis using custom_type_ok rules_ok_mput
    by (simp add: AddPolicyRule_def Inr Let_def)
qed (simp add: AddPolicyRule_def)

lemma upsert_checked_keeps:
  assumes "rules_ok rx (dt_rules e)" and "entry_ok rx (ru_ID c) c"
  shows "rules_ok rx (dt_rules (upsert_checked c e))"
proof (cases "mget (dt_rules e) (ru_ID c)")
  case (Some old)
  from rules_ok_get [OF assms(1) this] have "entry_ok rx (ru_ID c) old" .
  with Some assms show ?thesis
    by (simp add: upsert_checked_def rules_ok_mput override_entry_ok)
qed (use assms in \<open>simp add: upsert_checked_def rules_ok_mput\<close>)

lemma upsert_keeps: "rules_ok rx (dt_rules e) \<Longrightarrow> rules_ok rx (dt_rules (snd (UpsertPolicyRule rx r e)))"
proof -
  assume ok: "rules_ok rx (dt_rules e)"
  let ?c = "if ru_Kind r = [] then r\<lparr> ru_Kind := RuleKindCustom \<rparr> else r"
  show ?thesis
  proof (cases "ru_Kind ?c = RuleKindCustom")
    case True
    show ?thesis
    proof (cases "normalizeRule rx ?c")
      case (Inr n)
      have "ru_ID (custom_type n) = ru_ID n" by (simp add: custom_type_def)
      moreover have "entry_ok rx (ru_ID n) (custom_type n)" using custom_type_ok normalizeRule_ok [OF Inr] by blast
      ultimately have "rules_ok rx (dt_rules (upsert_checked (custom_type n) e))" by (intro upsert_checked_keeps [OF ok]) simp
      with ok True Inr show ?thesis by (simp add: UpsertPolicyRule_def Let_def)
    qed (use ok True in \<open>simp add: UpsertPolicyRule_def Let_def\<close>)
  next
    case False
    then have "entry_ok rx (ru_ID ?c) ?c" by (simp add: entry_ok_def)
    with ok False upsert_checked_keeps [OF ok, of ?c] show ?thesis by (simp add: UpsertPolicyRule_def Let_def)
  qed
qed

text \<open>No entry of the table that a list of built-in and custom rules addresses is a custom rule.\<close>

definition addresses_builtin :: "rule list \<Rightarrow> (string, rule) gomap \<Rightarrow> bool" where
  "addresses_builtin cs rs \<longleftrightarrow> (\<forall>(k, x) \<in> set rs. k \<in> ru_ID ` set cs \<longrightarrow> ru_Kind x \<noteq> RuleKindCustom)"

lemma managed_mget: "managed_rule rx c rs = rs \<or> (\<exists>r. managed_rule rx c rs = mput (ru_ID c) r rs)"
  by (auto simp: managed_rule_def split: option.split sum.split dest!: normalizeRule_ok)

lemma managed_keeps:
  assumes ok: "rules_ok rx rs" and b: "addresses_builtin (c # cs) rs"
  shows "rules_ok rx (managed_rule rx c rs)"
proof (cases "ru_Kind c = RuleKindBuiltin")
  case True
  show ?thesis
  proof (cases "mget rs (ru_ID c)")
    case (Some x)
    with b have "ru_Kind x \<noteq> RuleKindCustom" by (auto simp: addresses_builtin_def dest: mget_SomeD)
    with override_entry_ok rules_ok_get [OF ok Some] have "entry_ok rx (ru_ID c) (override_policy c x)" by blast
    with ok True Some show ?thesis by (simp add: managed_rule_def rules_ok_mput)
  qed (use ok True in \<open>simp add: managed_rule_def\<close>)
next
  case False
  have "entry_ok rx (ru_ID n) (custom_type n)" if "normalizeRule rx c = Inr n" for n
    using normalizeRule_ok [OF that] custom_type_ok by blast
  with ok False show ?thesis
    by (simp add: managed_rule_def rules_ok_mput split: sum.split)
qed

lemma managed_addresses:
  assumes "addresses_builtin (c # cs) rs" and "ru_ID c \<notin> ru_ID ` set cs"
  shows "addresses_builtin cs (managed_rule rx c rs)"
proof -
  have a: "\<forall>(k, x) \<in> set rs. k \<in> ru_ID ` set cs \<longrightarrow> ru_Kind x \<noteq> RuleKindCustom"
    using assms(1) by (auto simp: addresses_builtin_def)
  then have "\<forall>(k, x) \<in> set (mput (ru_ID c) r rs). k \<in> ru_ID ` set cs \<longrightarrow> ru_Kind x \<noteq> RuleKindCustom" for r
    by (rule mput_forall) (simp add: assms(2))
  with a managed_mget [of rx c rs] show ?thesis unfolding addresses_builtin_def by metis
qed

lemma replace_loop_keeps:
  "rules_ok rx rs \<Longrightarrow> addresses_builtin cs rs \<Longrightarrow> distinct (map ru_ID cs) \<Longrightarrow> rules_ok rx (fold (managed_rule rx) cs rs)"
proof (induction cs arbitrary: rs)
  case (Cons c cs)
  then have "rules_ok rx (managed_rule rx c rs)" "addresses_builtin cs (managed_rule rx c rs)"
    using managed_keeps managed_addresses [of c cs rs rx] by simp_all
  with Cons.IH Cons.prems(3) show ?case by simp
qed simp

lemma replace_keeps:
  assumes "rules_ok rx (dt_rules e)" and "distinct (map ru_ID cs)"
  shows "rules_ok rx (dt_rules (ReplaceManagedRules rx cs e))"
proof -
  let ?rs = "filter (\<lambda>(_, r). ru_Kind r \<noteq> RuleKindCustom) (dt_rules e)"
  have "rules_ok rx ?rs" "addresses_builtin cs ?rs" using assms(1) by (auto simp: rules_ok_def addresses_builtin_def)
  from replace_loop_keeps [OF this assms(2)] show ?thesis by (simp add: ReplaceManagedRules_def)
qed

lemma ensure_keeps: "rules_ok rx (dt_rules e) \<Longrightarrow> rules_ok rx (dt_rules (ensure_rule rid e))"
  using builtin_entry_ok rules_ok_mput by (auto simp: ensure_rule_def split: option.split)

lemma store_keeps:
  assumes "rules_ok rx (dt_rules e)" and "entry_ok rx rid r"
  shows "rules_ok rx (dt_rules (snd (store_alert rid r t sev key msg ip v now gap e)))"
  using assms unfolding store_alert_def Let_def
  by (simp add: rules_ok_mput split: option.split prod.split)

lemma raise_keeps: "rules_ok rx (dt_rules e) \<Longrightarrow> rules_ok rx (dt_rules (snd (raiseBuiltinAlertLocked rid t sev key msg ip v now gap e)))"
proof -
  assume "rules_ok rx (dt_rules e)"
  then have k: "rules_ok rx (dt_rules (ensure_rule rid e))" by (rule ensure_keeps)
  with rules_ok_get [OF k] show ?thesis
    unfolding raiseBuiltinAlertLocked_def Let_def
    by (simp add: rules_ok_mput store_keeps split: option.split)
qed

lemma update_rule_keeps:
  "rules_ok rx (dt_rules e) \<Longrightarrow> (\<And>r. entry_ok rx rid r \<Longrightarrow> entry_ok rx rid (f r)) \<Longrightarrow> rules_ok rx (dt_rules (update_rule rid f e))"
  using rules_ok_get by (auto simp: update_rule_def rules_ok_mput split: option.split)

lemma exclude_rules [simp]: "dt_rules (excludePacketFromLearning now p r e) = dt_rules e"
  by (simp add: excludePacketFromLearning_def on_policy_def publish_def Let_def)

lemma raise_custom_rules [simp]: "dt_rules (raiseCustomRuleAlert now r key msg ip e) = dt_rules e"
  by (simp add: raiseCustomRuleAlert_def Let_def split: prod.split)

lemma apply_custom_keeps: "rules_ok rx (dt_rules e) \<Longrightarrow> rules_ok rx (dt_rules (apply_custom_rule quoted now p r e))"
  unfolding apply_custom_rule_def Let_def by (auto intro!: update_rule_keeps)

lemma custom_packet_keeps: "rules_ok rx (dt_rules e) \<Longrightarrow> rules_ok rx (dt_rules (handleCustomRules rx quoted ks now p e))"
proof -
  have "rules_ok rx (dt_rules e) \<Longrightarrow> rules_ok rx (dt_rules (fold (apply_custom_rule quoted now p) rs e))" for rs
    by (induction rs arbitrary: e) (simp_all add: apply_custom_keeps)
  then show "rules_ok rx (dt_rules e) \<Longrightarrow> ?thesis" by (simp add: handleCustomRules_def)
qed

fun op_ok :: "rule_op \<Rightarrow> bool" where
  "op_ok (RO_replace cs) = distinct (map ru_ID cs)"
| "op_ok _ = True"

lemma patch_op_keeps: "rules_ok rx (dt_rules e) \<Longrightarrow> rules_ok rx (dt_rules (snd (ApplyRulePolicyPatch p e)))"
  using rules_ok_get patch_rule_keeps rules_ok_mput
  by (simp add: ApplyRulePolicyPatch_def split: option.split prod.split) (metis snd_conv)

lemma toggle_keeps: "rules_ok rx (dt_rules e) \<Longrightarrow> rules_ok rx (dt_rules (snd (ToggleRule rid b e)))"
  using rules_ok_get by (auto simp: ToggleRule_def rules_ok_mput split: option.split)

lemma delete_keeps: "rules_ok rx (dt_rules e) \<Longrightarrow> rules_ok rx (dt_rules (snd (DeleteRule rid e)))"
  by (simp add: DeleteRule_def rules_ok_mdel split: option.split)

lemma run_rules_keeps: "rules_ok rx (dt_rules e) \<Longrightarrow> op_ok x \<Longrightarrow> rules_ok rx (dt_rules (run_rules rx quoted x e))"
  by (cases x) (simp_all add: add_keeps upsert_keeps patch_op_keeps toggle_keeps delete_keeps replace_keeps custom_packet_keeps
      raiseBuiltinAlert_def raise_keeps)

lemma builtinRules_entries: "wf_map builtinRules"
proof -
  have "wf_map m \<Longrightarrow> wf_map (fold (\<lambda>r m. mput (ru_ID r) (ship_builtin r) m) rs m)" for rs and m :: "(string, rule) gomap"
    by (induction rs arbitrary: m) simp_all
  from this [of "[]"] show ?thesis by (simp add: builtinRules_def)
qed

lemma rules_ok_start: "rules_ok rx (dt_rules (NewDetector c))"
  using builtin_entry_ok mget_Some_iff [OF builtinRules_entries] by (auto simp: rules_ok_def NewDetector_def)

lemma run_all_rules_ok:
  "rules_ok rx (dt_rules e) \<Longrightarrow> \<forall>x \<in> set xs. op_ok x \<Longrightarrow> rules_ok rx (dt_rules (fold (run_rules rx quoted) xs e))"
  by (induction xs arbitrary: e) (simp_all add: run_rules_keeps)

text \<open>
  C32: Every custom rule in the table is well formed, from the start of the sensor and in every run of
  requests, packets and alerts in which no replacement of all managed rules names an identifier twice:
  it has a name, a known severity, groups with AND or OR, each with conditions of a value, a known field and
  an operator that is known up to capitals, a suppression that the engine implements, and the identifier
  it is stored under, which its alert type names.  Of the expressions, only those of the operator
  regex in lower case are known to compile.
\<close>

theorem custom_rules_well_formed:
  assumes "\<forall>x \<in> set xs. op_ok x"
    and "mget (dt_rules (fold (run_rules rx quoted) xs (NewDetector c))) k = Some r" and "ru_Kind r = RuleKindCustom"
  shows "well_formed_rule rx r \<and> ru_ID r = k \<and> ru_AlertType r = ''custom:'' @ k"
  using rules_ok_get [OF run_all_rules_ok [OF rules_ok_start assms(1)] assms(2)] assms(3) by (simp add: entry_ok_def)

theorem custom_rules_well_formed_witness:
  "\<exists>r. mget (dt_rules (fold (run_rules no_regexps (\<lambda>s. s)) [RO_replace [], RO_add demo_rule] (NewDetector demo_config))) ''custom-1'' = Some r \<and>
     well_formed_rule no_regexps r \<and> ru_AlertType r = ''custom:'' @ ''custom-1''"
proof -
  obtain n where n: "normalizeRule no_regexps demo_rule = Inr n" using demo_rule_normal by blast
  have k: "demo_rule\<lparr> ru_Kind := RuleKindCustom \<rparr> = demo_rule" by (simp add: demo_rule_def)
  have i: "ru_ID n = []" "ru_Kind n = RuleKindCustom" using normalizeRule_ok [OF n] by (simp_all add: demo_rule_def zero_rule_def)
  have t: "''custom-'' @ itoa 1 = ''custom-1''" by code_simp
  let ?e = "fold (run_rules no_regexps (\<lambda>s. s)) [RO_replace [], RO_add demo_rule] (NewDetector demo_config)"
  have s: "dt_customRuleSeq (ReplaceManagedRules no_regexps [] (NewDetector demo_config)) = 0" by (simp add: ReplaceManagedRules_def NewDetector_def)
  have g: "mget (dt_rules ?e) ''custom-1'' = Some (custom_type (n\<lparr> ru_ID := ''custom-1'' \<rparr>))"
    using t by (simp add: AddPolicyRule_def k n i s Let_def custom_type_def)
  have "\<forall>x \<in> set [RO_replace [], RO_add demo_rule]. op_ok x" "ru_Kind (custom_type (n\<lparr> ru_ID := ''custom-1'' \<rparr>)) = RuleKindCustom"
    using i by (simp_all add: custom_type_def)
  with custom_rules_well_formed [OF _ g] g show ?thesis by blast
qed

section \<open>Requests that do more, or less, than they say\<close>

text \<open>
  A rejected policy patch is not undone: the fields that precede the faulty one have been written
  to the live rule and stay, while the request is answered with an error and the version of the rule does not change.
\<close>

theorem rejected_patch_is_half_applied:
  assumes "mget (dt_rules e) rid = Some r" and "n \<le> 0"
  shows "let p = \<lparr> rp_ID = rid, rp_Enabled = Some b, rp_Severity = Some ''low'', rp_SeverityOverride = None, rp_Priority = Some n, rp_Simulation = None,
                   rp_Suppression = None, rp_Schedule = None, rp_Parameters = None \<rparr>;
             (er, e') = ApplyRulePolicyPatch p e
         in er = Some RulePriority \<and>
            mget (dt_rules e') rid = Some (r\<lparr> ru_Enabled := b, ru_Severity := ''low'', ru_SeverityOverride := True \<rparr>)"
proof -
  have "to_lower (trim_space ''low'') = ''low''" "''low'' \<in> set severities" by code_simp+
  with assms show ?thesis
    by (simp add: ApplyRulePolicyPatch_def patch_rule_def patch_enabled_def patch_severity_def patch_override_def patch_priority_def Let_def)
qed

theorem rejected_patch_is_half_applied_witness:
  "\<exists>r. mget (dt_rules (NewDetector demo_config)) ''arp_spoof'' = Some r \<and>
    (let p = \<lparr> rp_ID = ''arp_spoof'', rp_Enabled = Some False, rp_Severity = Some ''low'', rp_SeverityOverride = None, rp_Priority = Some 0,
               rp_Simulation = None, rp_Suppression = None, rp_Schedule = None, rp_Parameters = None \<rparr>;
         (er, e') = ApplyRulePolicyPatch p (NewDetector demo_config)
     in er = Some RulePriority \<and>
        mget (dt_rules e') ''arp_spoof'' = Some (r\<lparr> ru_Enabled := False, ru_Severity := ''low'', ru_SeverityOverride := True \<rparr>))"
proof -
  have "mget builtinRules ''arp_spoof'' \<noteq> None" unfolding builtinRules_get by (simp add: builtin_seed_def builtin_def)
  then obtain r where r: "mget (dt_rules (NewDetector demo_config)) ''arp_spoof'' = Some r" by (auto simp: NewDetector_def)
  from rejected_patch_is_half_applied [OF r, of 0 False] r show ?thesis by blast
qed

text \<open>
  A new custom rule can replace an old one: identifiers are numbered by a counter that starts at zero in
  every process and that restoring rules does not advance, so the first rule added after a restart takes
  the identifier, and the place, of the restored rule number one.
\<close>

theorem new_rule_overwrites_restored:
  assumes "normalizeRule rx (rule0\<lparr> ru_Kind := RuleKindCustom \<rparr>) = Inr n" and "ru_ID rule0 = []"
  shows "mget (dt_rules (snd (AddPolicyRule rx rule0 (RestoreRules rx saved (NewDetector c))))) ''custom-1''
    = Some (custom_type (n\<lparr> ru_ID := ''custom-1'' \<rparr>))"
proof -
  have s: "dt_customRuleSeq (RestoreRules rx saved (NewDetector c)) = 0"
    by (simp add: RestoreRules_def ReplaceManagedRules_def NewDetector_def)
  have t: "''custom-'' @ itoa 1 = ''custom-1''" by code_simp
  have "ru_ID n = []" using normalizeRule_ok [OF assms(1)] assms(2) by simp
  with t show ?thesis by (simp add: AddPolicyRule_def assms(1) s Let_def custom_type_def)
qed

theorem new_rule_overwrites_restored_witness:
  "\<exists>n. mget (dt_rules (RestoreRules no_regexps [demo_rule\<lparr> ru_ID := ''custom-1'', ru_Name := ''Old'' \<rparr>] (NewDetector demo_config))) ''custom-1'' \<noteq> None \<and>
     mget (dt_rules (snd (AddPolicyRule no_regexps demo_rule
       (RestoreRules no_regexps [demo_rule\<lparr> ru_ID := ''custom-1'', ru_Name := ''Old'' \<rparr>] (NewDetector demo_config))))) ''custom-1''
     = Some (custom_type (n\<lparr> ru_ID := ''custom-1'' \<rparr>))"
proof -
  obtain n where n: "normalizeRule no_regexps demo_rule = Inr n" using demo_rule_normal by blast
  have k: "demo_rule\<lparr> ru_Kind := RuleKindCustom \<rparr> = demo_rule" "ru_ID demo_rule = []" by (simp_all add: demo_rule_def zero_rule_def)
  let ?old = "demo_rule\<lparr> ru_ID := ''custom-1'', ru_Name := ''Old'' \<rparr>"
  have "(case normalizeRule no_regexps ?old of Inr r \<Rightarrow> True | Inl er \<Rightarrow> False)" by code_simp
  then obtain m where m: "normalizeRule no_regexps ?old = Inr m" by (auto split: sum.splits)
  then have "ru_ID m = ''custom-1''" using normalizeRule_ok [OF m] by simp
  moreover have "ru_Kind ?old = RuleKindCustom" by (simp add: demo_rule_def)
  ultimately have "mget (dt_rules (RestoreRules no_regexps [?old] (NewDetector demo_config))) ''custom-1'' \<noteq> None"
    using m by (simp add: RestoreRules_def ReplaceManagedRules_def managed_rule_def)
  with new_rule_overwrites_restored [of no_regexps demo_rule n "[?old]" demo_config] n k show ?thesis by auto
qed

end
