(* ===== verification/Threat_Intel.thy ===== *)
theory Threat_Intel
  imports Detect_Text
begin

text \<open>
  internal/threatintel (the store of indicators) and internal/netutil (which addresses are on the
  public Internet).  The bodies of feeds are arguments: the files and the HTTP client are I/O.
  \<open>clk\<close> is \<open>time.Now()\<close>.
\<close>

section \<open>Public addresses\<close>

definition unmap :: "addr \<Rightarrow> addr" where
  "unmap a =
     (if ad_is6 a \<and> ad_value a div 2 ^ 32 = 0xFFFF then \<lparr> ad_is6 = False, ad_value = ad_value a mod 2 ^ 32, ad_zone = [] \<rparr> else a)"

definition ip_unspecified :: "addr \<Rightarrow> bool" where "ip_unspecified a \<longleftrightarrow> ad_value a = 0 \<and> ad_zone a = []"

definition ip_link_local :: "addr \<Rightarrow> bool" where
  "ip_link_local a = (case ip_v4 a of Some v \<Rightarrow> v div 2 ^ 16 = 169 * 256 + 254 | None \<Rightarrow> ad_value a div 2 ^ 118 = 0x3FA)"

text \<open>\<open>Addr.IsGlobalUnicast\<close>.\<close>

definition ip_global_unicast :: "addr \<Rightarrow> bool" where
  "ip_global_unicast a \<longleftrightarrow>
     \<not> (\<not> ad_is6 a \<and> (ad_value a = 0 \<or> ad_value a = 2 ^ 32 - 1)) \<and>
     \<not> ip_unspecified a \<and> \<not> ip_loopback a \<and> \<not> ip_multicast a \<and> \<not> ip_link_local a"

text \<open>The ranges of special use: the family, the bits of the prefix and their number.\<close>

definition nonInternetUnicastPrefixes :: "(bool \<times> int \<times> nat) list" where
  "nonInternetUnicastPrefixes =
     [(False, 0, 8), (False, 100 * 4 + 1, 10), (False, 192 * 2 ^ 16, 24), (False, 192 * 2 ^ 16 + 2, 24),
      (False, 192 * 2 ^ 16 + 88 * 2 ^ 8 + 99, 24), (False, 198 * 2 ^ 7 + 9, 15), (False, 198 * 2 ^ 16 + 51 * 2 ^ 8 + 100, 24),
      (False, 203 * 2 ^ 16 + 113, 24), (False, 15, 4),
      (True, 0x0100 * 2 ^ 48, 64), (True, 0x2001001, 28), (True, 0x2001002, 28), (True, 0x20010DB8, 32), (True, 0x3FFF0, 20)]"

definition in_prefix :: "addr \<Rightarrow> bool \<times> int \<times> nat \<Rightarrow> bool" where
  "in_prefix a p = (case p of (six, bits, n) \<Rightarrow>
     ad_zone a = [] \<and> ad_is6 a = six \<and> ad_value a div 2 ^ ((if six then 128 else 32) - n) = bits)"

definition IsPublicInternetUnicast :: "string \<Rightarrow> bool" where
  "IsPublicInternetUnicast raw =
     (case ParseAddr raw of
        None \<Rightarrow> False
      | Some a0 \<Rightarrow>
          let a = unmap a0
          in ip_global_unicast a \<and> \<not> ip_private a \<and> \<not> ip_loopback a \<and> \<not> ip_link_local a \<and> \<not> ip_multicast a \<and> \<not> ip_unspecified a \<and>
             \<not> list_ex (in_prefix a) nonInternetUnicastPrefixes)"

text \<open>\<open>isPrivateIP\<close> of honeypot.go.\<close>

definition isPrivateIP :: "string \<Rightarrow> bool" where
  "isPrivateIP ip = (case parse_ip ip of None \<Rightarrow> False | Some a \<Rightarrow> ip_private a \<or> ip_loopback a)"

section \<open>Indicators\<close>

record indicator =
  in_Type :: string
  in_Value :: string
  in_Provider :: string
  in_ThreatType :: string
  in_Confidence :: int
  in_ValidUntil :: "time option"

type_synonym intel = "(string, indicator) gomap"

definition normalize_indicator :: "string \<Rightarrow> string \<Rightarrow> string" where
  "normalize_indicator t v =
     (let w = trim_space (to_lower v) in if t = ''domain'' then trim_suffix w ''.'' else w)"

definition intel_key :: "string \<Rightarrow> string \<Rightarrow> string" where
  "intel_key t v = to_lower (trim_space t) @ ''|'' @ normalize_indicator t v"

definition indicator_live :: "time \<Rightarrow> indicator \<Rightarrow> bool" where
  "indicator_live clk i \<longleftrightarrow> (case in_ValidUntil i of None \<Rightarrow> True | Some t \<Rightarrow> \<not> clk > t)"

definition intel_match :: "time \<Rightarrow> string \<Rightarrow> string \<Rightarrow> intel \<Rightarrow> indicator option" where
  "intel_match clk t v m =
     (case mget m (intel_key t v) of
        None \<Rightarrow> None
      | Some i \<Rightarrow> if indicator_live clk i then Some i else None)"

definition MatchIP :: "time \<Rightarrow> string \<Rightarrow> intel \<Rightarrow> indicator option" where
  "MatchIP clk v m = (if parse_ip v = None then None else intel_match clk ''ip'' v m)"

text \<open>The loop of \<open>MatchDomain\<close>: the name, then without its first label, and so on.\<close>

function match_domain :: "time \<Rightarrow> string \<Rightarrow> intel \<Rightarrow> indicator option" where
  "match_domain clk v m =
     (case intel_match clk ''domain'' v m of
        Some i \<Rightarrow> Some i
      | None \<Rightarrow> (case dropWhile (\<lambda>c. c \<noteq> CHR ''.'') v of [] \<Rightarrow> None | _ # rest \<Rightarrow> match_domain clk rest m))"
  by pat_completeness auto
termination
proof (relation "measure (\<lambda>(clk, v, m). length v)")
  fix clk :: time and v :: string and m :: intel and x rest
  assume "dropWhile (\<lambda>c. c \<noteq> CHR ''.'') v = x # rest"
  then have "length (x # rest) \<le> length v" by (metis length_dropWhile_le)
  then show "((clk, rest, m), (clk, v, m)) \<in> measure (\<lambda>(clk, v, m). length v)" by simp
qed simp

declare match_domain.simps [simp del]

definition MatchDomain :: "time \<Rightarrow> string \<Rightarrow> intel \<Rightarrow> indicator option" where
  "MatchDomain clk v m = match_domain clk (normalize_indicator ''domain'' v) m"

section \<open>Loading\<close>

definition stored :: "indicator \<Rightarrow> indicator" where
  "stored i = i\<lparr> in_Confidence := (if in_Confidence i = 0 then 70 else in_Confidence i), in_Value := normalize_indicator (in_Type i) (in_Value i) \<rparr>"

definition store_indicator :: "indicator \<Rightarrow> intel \<Rightarrow> intel" where
  "store_indicator i m =
     (if in_Type i = [] \<or> in_Value i = [] then m
      else let j = stored i in mput (intel_key (in_Type j) (in_Value j)) j m)"

definition replace_intel :: "indicator list \<Rightarrow> intel" where
  "replace_intel items = fold store_indicator items []"

record feed =
  fd_Name :: string
  fd_Format :: string
  fd_IndicatorType :: string
  fd_Confidence :: int

definition feed_provider :: "feed \<Rightarrow> string" where
  "feed_provider f = (if fd_Name f = [] then ''configured-feed'' else fd_Name f)"

definition feed_confidence :: "feed \<Rightarrow> int" where
  "feed_confidence f = (if fd_Confidence f = 0 then 70 else fd_Confidence f)"

text \<open>A line of a text feed: the first word is the value.\<close>

definition feed_line :: "feed \<Rightarrow> string \<Rightarrow> indicator option" where
  "feed_line f line0 =
     (let line = trim_space line0 in
      if line = [] \<or> has_prefix line ''#'' then None
      else
        let v = takeWhile (\<lambda>c. \<not> space_char c) line;
            t = (if fd_IndicatorType f \<noteq> [] then fd_IndicatorType f else if parse_ip v \<noteq> None then ''ip'' else ''domain'')
        in Some \<lparr> in_Type = t, in_Value = v, in_Provider = feed_provider f, in_ThreatType = [], in_Confidence = feed_confidence f,
             in_ValidUntil = None \<rparr>)"

text \<open>
  An object of a JSON feed, as the printed value of its members; a member that is missing prints as
  \<open><nil>\<close>.
\<close>

definition member :: "(string, string) gomap \<Rightarrow> string \<Rightarrow> string" where
  "member ob k = (case mget ob k of Some s \<Rightarrow> s | None \<Rightarrow> ''<nil>'')"

definition feed_object :: "feed \<Rightarrow> (string, string) gomap \<Rightarrow> indicator option" where
  "feed_object f ob =
     (let v = member ob ''value''; t0 = member ob ''type''; t = (if t0 = ''<nil>'' \<or> t0 = [] then fd_IndicatorType f else t0)
      in if v \<noteq> [] \<and> v \<noteq> ''<nil>''
         then Some \<lparr> in_Type = t, in_Value = v, in_Provider = feed_provider f, in_ThreatType = member ob ''threat_type'',
                in_Confidence = feed_confidence f, in_ValidUntil = None \<rparr>
         else None)"

datatype feed_body = Lines "string list" | Objects "(string, string) gomap list"

definition load_feed :: "feed \<Rightarrow> feed_body \<Rightarrow> indicator list" where
  "load_feed f b = (case b of Lines ls \<Rightarrow> List.map_filter (feed_line f) ls | Objects obs \<Rightarrow> List.map_filter (feed_object f) obs)"

text \<open>
  \<open>Refresh\<close>: the static indicators, then those of each feed; \<open>None\<close> is a feed that could not be
  loaded.  The flag says whether every feed was loaded.
\<close>

definition refresh_intel :: "indicator list \<Rightarrow> (feed \<times> feed_body option) list \<Rightarrow> bool \<times> intel" where
  "refresh_intel static feeds =
     (list_all (\<lambda>(_, b). b \<noteq> None) feeds,
      replace_intel (static @ concat (map (\<lambda>(f, b). case b of Some x \<Rightarrow> load_feed f x | None \<Rightarrow> []) feeds)))"

section \<open>Names and their parents\<close>

text \<open>Reference: the labels of a name; its parents are the names of the last labels.\<close>

definition parents :: "string \<Rightarrow> string list" where
  "parents v = map (\<lambda>n. join_with ''.'' (drop n (split_on CHR ''.'' v))) [0..<length (split_on CHR ''.'' v)]"

fun first_match :: "('a \<Rightarrow> 'b option) \<Rightarrow> 'a list \<Rightarrow> 'b option" where
  "first_match f [] = None"
| "first_match f (x # xs) = (case f x of Some y \<Rightarrow> Some y | None \<Rightarrow> first_match f xs)"

lemma join_split: "join_with ''.'' (split_on CHR ''.'' v) = v"
proof (induction v)
  case (Cons c cs)
  obtain w ws where s: "split_on CHR ''.'' cs = w # ws" by (cases "split_on CHR ''.'' cs") auto
  with Cons show ?case by (cases ws) auto
qed simp

lemma split_no_dot: "CHR ''.'' \<notin> set v \<Longrightarrow> split_on CHR ''.'' v = [v]"
  by (induction v) auto

lemma split_at_dot: "CHR ''.'' \<notin> set w \<Longrightarrow> split_on CHR ''.'' (w @ CHR ''.'' # v) = w # split_on CHR ''.'' v"
  by (induction w) auto

lemma parents_step:
  "parents v = v # (case dropWhile (\<lambda>c. c \<noteq> CHR ''.'') v of [] \<Rightarrow> [] | _ # rest \<Rightarrow> parents rest)"
proof (cases "dropWhile (\<lambda>c. c \<noteq> CHR ''.'') v")
  case Nil
  then have "CHR ''.'' \<notin> set v" by auto
  then show ?thesis by (simp add: parents_def split_no_dot Nil del: dropWhile_eq_Nil_conv)
next
  case (Cons c rest)
  have c: "c = CHR ''.''" using hd_dropWhile [of "\<lambda>c. c \<noteq> CHR ''.''" v] Cons by simp
  let ?w = "takeWhile (\<lambda>c. c \<noteq> CHR ''.'') v"
  have v: "v = ?w @ CHR ''.'' # rest" using takeWhile_dropWhile_id [of "\<lambda>c. c \<noteq> CHR ''.''" v] Cons c by simp
  have w: "CHR ''.'' \<notin> set ?w" using set_takeWhileD by fastforce
  have s: "split_on CHR ''.'' v = ?w # split_on CHR ''.'' rest" using split_at_dot [OF w, of rest] v by simp
  have "parents v = join_with ''.'' (split_on CHR ''.'' v) # parents rest"
    unfolding parents_def s by (simp add: upt_conv_Cons map_Suc_upt [symmetric] comp_def del: upt_Suc)
  then show ?thesis by (simp add: join_split Cons)
qed

text \<open>
  C38: a name is looked up with all its parents, the longest first, cut at the dots only: the
  loop finds the first unexpired indicator of the list of the label suffixes, so a name never
  matches an indicator that merely ends its text.
\<close>

theorem MatchDomain_is_longest_parent:
  "MatchDomain clk v m = first_match (\<lambda>s. intel_match clk ''domain'' s m) (parents (normalize_indicator ''domain'' v))"
proof -
  have "match_domain clk s m = first_match (\<lambda>s. intel_match clk ''domain'' s m) (parents s)" for s
  proof (induction "length s" arbitrary: s rule: less_induct)
    case less
    show ?case
    proof (cases "dropWhile (\<lambda>c. c \<noteq> CHR ''.'') s")
      case Nil
      show ?thesis by (subst match_domain.simps, subst parents_step) (simp add: Nil split: option.split del: dropWhile_eq_Nil_conv)
    next
      case (Cons c rest)
      then have "length (c # rest) \<le> length s" by (metis length_dropWhile_le)
      with less [of rest] Cons show ?thesis by (subst match_domain.simps, subst parents_step) (simp split: option.split)
    qed
  qed
  then show ?thesis by (simp add: MatchDomain_def)
qed

text \<open>The examples of the comment: the name and its parent match, a name with the same end does not.\<close>

definition bad_domain :: indicator where
  "bad_domain = \<lparr> in_Type = ''domain'', in_Value = ''Evil.com.'', in_Provider = ''p'', in_ThreatType = [], in_Confidence = 0, in_ValidUntil = None \<rparr>"

lemma domain_examples:
  "map_option in_Confidence (MatchDomain 0 ''a.EVIL.com.'' (replace_intel [bad_domain])) = Some 70 \<and>
   MatchDomain 0 ''notevil.com'' (replace_intel [bad_domain]) = None"
  by code_simp

text \<open>
  The type of an indicator is lowered in its key, but the dot at the end of a name is removed only
  when the type is written \<open>domain\<close>: an indicator of type \<open>Domain\<close> whose value ends in a dot is stored
  under a key that no name is looked up with.
\<close>

theorem capital_type_never_matches:
  "MatchDomain clk ''evil.com'' (replace_intel [bad_domain\<lparr> in_Type := ''Domain'' \<rparr>]) = None"
proof -
  have k: "mkeys (replace_intel [bad_domain\<lparr> in_Type := ''Domain'' \<rparr>]) = [''domain|evil.com.'']" by code_simp
  have p: "parents (normalize_indicator ''domain'' ''evil.com'') = [''evil.com'', ''com'']" by code_simp
  have a: "intel_key ''domain'' ''evil.com'' = ''domain|evil.com''" "intel_key ''domain'' ''com'' = ''domain|com''" by code_simp+
  have "mget (replace_intel [bad_domain\<lparr> in_Type := ''Domain'' \<rparr>]) x = None" if "x \<noteq> ''domain|evil.com.''" for x
    using that by (simp add: mget_None_iff k)
  with a show ?thesis by (simp add: MatchDomain_is_longest_parent p intel_match_def)
qed

section \<open>The last indicator wins\<close>

definition usable :: "indicator \<Rightarrow> bool" where "usable i \<longleftrightarrow> in_Type i \<noteq> [] \<and> in_Value i \<noteq> []"

definition indicator_key :: "indicator \<Rightarrow> string" where
  "indicator_key i = intel_key (in_Type i) (normalize_indicator (in_Type i) (in_Value i))"

lemma store_indicator_get:
  "mget (store_indicator i m) k =
     (if usable i \<and> k = indicator_key i
      then Some (stored i)
      else mget m k)"
  by (simp add: store_indicator_def usable_def indicator_key_def Let_def stored_def)

lemma fold_store_indicator:
  "mget (fold store_indicator items m) k =
     (case find (\<lambda>i. usable i \<and> indicator_key i = k) (rev items) of
        Some i \<Rightarrow> Some (stored i)
      | None \<Rightarrow> mget m k)"
proof (induction items arbitrary: m)
  case (Cons i items)
  have f: "find P (xs @ [i]) = (case find P xs of Some y \<Rightarrow> Some y | None \<Rightarrow> if P i then Some i else None)" for P and xs :: "indicator list"
    by (induction xs) auto
  show ?case by (simp add: Cons.IH f store_indicator_get split: option.split)
qed simp

text \<open>
  When several sources give an indicator, the last one counts: a feed that is configured later
  replaces the provider and the confidence of the earlier ones, and of the static list.
\<close>

theorem last_indicator_wins:
  "mget (snd (refresh_intel static feeds)) k =
     (case find (\<lambda>i. usable i \<and> indicator_key i = k)
             (rev (static @ concat (map (\<lambda>(f, b). case b of Some x \<Rightarrow> load_feed f x | None \<Rightarrow> []) feeds))) of
        Some i \<Rightarrow> Some (stored i)
      | None \<Rightarrow> None)"
  unfolding refresh_intel_def replace_intel_def snd_conv fold_store_indicator mget_Nil ..

section \<open>Private and public addresses\<close>

lemma unmap_v4 [simp]: "ip_v4 (unmap a) = ip_v4 a"
  by (auto simp: unmap_def ip_v4_def)

lemma unmap_private: "ip_private (unmap a) \<longleftrightarrow> ip_private a"
  unfolding ip_private_def unmap_v4 by (auto simp: ip_v4_def unmap_def split: option.split)

lemma unmap_loopback: "ip_loopback (unmap a) \<longleftrightarrow> ip_loopback a"
  unfolding ip_loopback_def unmap_v4 by (auto simp: ip_v4_def unmap_def split: option.split)

lemma parse_ip_ParseAddr: "parse_ip s = Some a \<Longrightarrow> ParseAddr s = Some a"
  by (simp add: parse_ip_def split: option.splits if_splits)

text \<open>No address is both internal and on the Internet.\<close>

theorem private_is_not_public: "\<not> (isPrivateIP ip \<and> IsPublicInternetUnicast ip)"
proof (cases "parse_ip ip")
  case (Some a)
  then show ?thesis
    using parse_ip_ParseAddr [OF Some]
    by (auto simp: isPrivateIP_def IsPublicInternetUnicast_def Let_def unmap_private unmap_loopback)
qed (simp add: isPrivateIP_def)

end
