(* ===== verification/Detect_Ics.thy ===== *)
theory Detect_Ics
  imports Detect_Arp Ics_Message Threat_Intel
begin

text \<open>
  internal/detect/ics_policy.go and icscritical.go: the policy on decoded messages of industrial
  protocols: who may command, program, and set the time of a controller, bursts of commands and of
  errors, the order of select and operate, and the cadence of the reports of a device.  \<open>clk\<close> is
  \<open>time.Now()\<close>.
\<close>

section \<open>What a message says\<close>

definition detailBool :: "ics_message \<Rightarrow> string \<Rightarrow> bool" where
  "detailBool m k \<longleftrightarrow> mget (im_Details m) k = Some (D_bool True)"

definition detailString :: "ics_message \<Rightarrow> string \<Rightarrow> string" where
  "detailString m k = (case mget (im_Details m) k of Some (D_string s) \<Rightarrow> to_lower (trim_space s) | _ \<Rightarrow> [])"

text \<open>The requesting side, the target, and the port of the service.\<close>

definition icsEndpoints :: "ics_message \<Rightarrow> string \<times> string \<times> u16" where
  "icsEndpoints m = (if im_IsResponse m then (im_DstIP m, im_SrcIP m, im_SrcPort m) else (im_SrcIP m, im_DstIP m, im_DstPort m))"

definition baselineLearning :: "detector \<Rightarrow> bool" where
  "baselineLearning e \<longleftrightarrow> dt_baselineEnabled e \<and> dt_baselineMode e \<noteq> BaselineModeMonitoring"

definition message_time :: "time \<Rightarrow> ics_message \<Rightarrow> time" where
  "message_time clk m = (if is_zero_time (im_Timestamp m) then clk else im_Timestamp m)"

definition raise :: "time \<Rightarrow> string \<Rightarrow> string \<Rightarrow> string \<Rightarrow> string \<Rightarrow> string \<Rightarrow> string \<Rightarrow> evidence \<Rightarrow> time \<Rightarrow> duration \<Rightarrow> detector \<Rightarrow> detector" where
  "raise clk rid t sev key msg ip v at0 gap e = snd (raiseBuiltinAlert clk rid t sev key msg ip v at0 gap e)"

definition excludeICSFromLearning :: "time \<Rightarrow> ics_message \<Rightarrow> string \<Rightarrow> detector \<Rightarrow> detector" where
  "excludeICSFromLearning clk m reason e =
     (if im_SrcIP m = [] \<or> im_DstIP m = [] then e
      else
        let (src, dst, service) = icsEndpoints m
        in publish (LearningExclusion \<lparr> le_SrcIP = im_SrcIP m, le_DstIP = im_DstIP m, le_Protocol = im_Protocol m, le_ServicePort = service,
             le_Reason = reason, le_Until = clk + 24 * 60 * minute \<rparr>)
             (on_policy (quarantinePolicyLearning clk src dst (clk + 24 * 60 * minute)) e))"

definition ics_evidence :: "ics_message \<Rightarrow> string \<Rightarrow> string \<Rightarrow> evidence" where
  "ics_evidence m src target = [(''source_ip'', E_string src), (''target_ip'', E_string target), (''protocol'', E_string (im_Protocol m)),
     (''function'', E_string (im_FunctionName m))]"

section \<open>Windows\<close>

definition maxBurst :: nat where "maxBurst = 256"

definition burst_alert :: "time \<Rightarrow> string \<Rightarrow> string \<Rightarrow> ics_message \<Rightarrow> int \<Rightarrow> duration \<Rightarrow> int \<Rightarrow> detector \<Rightarrow> detector" where
  "burst_alert clk src target m n window threshold e =
     raise clk ''builtin.brute_force_io'' AlertBruteForceIO ''high'' (''io-burst|'' @ src @ ''|'' @ target)
       (src @ '' issued '' @ itoa n @ '' OT commands/writes to '' @ target @ '' within '' @ duration_text window) target
       (ics_evidence m src target @ [(''commands_in_window'', E_int n), (''window_seconds'', E_float (of_int window / of_int second)),
          (''threshold'', E_int threshold)])
       (message_time clk m) (max minute window) e"

definition observeIOBurst :: "time \<Rightarrow> string \<Rightarrow> string \<Rightarrow> ics_message \<Rightarrow> detector \<Rightarrow> detector" where
  "observeIOBurst clk src target m e =
     (let key = src @ ''|'' @ target;
          window = window_parameter e ''builtin.brute_force_io'' 10 (10 * second);
          threshold = count_parameter e ''builtin.brute_force_io'' ''commands_threshold'' 50;
          xs = last_n maxBurst (slide_window (message_time clk m) window (times_of (po_ioBursts (dt_policy e)) key));
          e1 = on_policy (\<lambda>q. q\<lparr> po_ioBursts := mput key xs (po_ioBursts q) \<rparr>) e;
          n = int (length xs)
      in if n \<ge> threshold then burst_alert clk src target m n window threshold e1 else e1)"

definition observeICSError :: "time \<Rightarrow> string \<Rightarrow> string \<Rightarrow> ics_message \<Rightarrow> detector \<Rightarrow> detector" where
  "observeICSError clk controller peer m e =
     (let window = window_parameter e ''builtin.malformed_ot_burst'' 60 minute;
          threshold = count_parameter e ''builtin.malformed_ot_burst'' ''errors_threshold'' 10;
          xs = slide_window (message_time clk m) window (times_of (po_icsErrors (dt_policy e)) controller);
          e1 = on_policy (\<lambda>q. q\<lparr> po_icsErrors := mput controller xs (po_icsErrors q) \<rparr>) e;
          n = int (length xs)
      in if n \<ge> threshold
         then raise clk ''builtin.malformed_ot_burst'' AlertMalformedOTBurst ''high'' (''ics-errors|'' @ controller)
                (controller @ '' produced '' @ itoa n @ '' OT protocol exceptions/decode errors within '' @ duration_text window) controller
                [(''controller_ip'', E_string controller), (''peer_ip'', E_string peer), (''protocol'', E_string (im_Protocol m)),
                 (''function'', E_string (im_FunctionName m)), (''errors_in_window'', E_int n),
                 (''window_seconds'', E_float (of_int window / of_int second)), (''threshold'', E_int threshold)]
                (message_time clk m) (max minute window) e1
         else e1)"

definition otServicePorts :: "(u16, string) gomap" where
  "otServicePorts = [(102, ''s7''), (502, ''modbus''), (20000, ''dnp3''), (2404, ''iec104''), (4840, ''opcua''), (44818, ''ethernetip''), (47808, ''bacnet'')]"

text \<open>A frame that a parser rejected; the service side is guessed from the ports.\<close>

definition error_message :: "string \<Rightarrow> packet \<Rightarrow> ics_message" where
  "error_message parser p = \<lparr> im_Timestamp = pk_Timestamp p, im_FromAnalysis = False, im_SrcIP = [], im_DstIP = [], im_SrcPort = 0,
     im_DstPort = 0, im_Protocol = parser, im_FunctionCode = 0, im_FunctionName = ''malformed/decode-error frame'',
     im_IsException = False, im_IsResponse = False, im_UnitID = 0, im_Details = [] \<rparr>"

definition observeICSParseError :: "time \<Rightarrow> string \<Rightarrow> packet \<Rightarrow> detector \<Rightarrow> detector" where
  "observeICSParseError clk parser p e =
     (if mget otServicePorts (pk_SrcPort p) \<noteq> None \<or> (pk_SrcPort p \<noteq> 0 \<and> pk_DstPort p > 49151 \<and> pk_SrcPort p < pk_DstPort p)
      then observeICSError clk (pk_SrcIP p) (pk_DstIP p) (error_message parser p) e
      else observeICSError clk (pk_DstIP p) (pk_SrcIP p) (error_message parser p) e)"

section \<open>Select before operate\<close>

definition observeCommandSequence :: "time \<Rightarrow> string \<Rightarrow> string \<Rightarrow> ics_message \<Rightarrow> detector \<Rightarrow> detector" where
  "observeCommandSequence clk src target m e =
     (if \<not> equal_fold (im_Protocol m) ''DNP3'' then e
      else
        let now = message_time clk m; key = src @ ''|'' @ target; cls = detailString m ''operation_class'';
            selectedAt = mtime (po_dnpSelect (dt_policy e)) key;
            operates = (cls = ''operate'' \<and> im_FunctionCode m = 4)
        in if cls = ''select'' then on_policy (\<lambda>q. q\<lparr> po_dnpSelect := mput key now (po_dnpSelect q) \<rparr>) e
           else
             let e1 = (if operates then on_policy (\<lambda>q. q\<lparr> po_dnpSelect := mdel key (po_dnpSelect q) \<rparr>) e else e)
             in if operates \<and> (is_zero_time selectedAt \<or> time_sub now selectedAt > 30 * second)
                then raise clk ''builtin.process_sequence_violation'' AlertProcessSequenceViolation ''high'' (''dnp3-operate-without-select|'' @ key)
                       (''DNP3 Operate from '' @ src @ '' to '' @ target @ '' was not preceded by a recent Select'') target
                       [(''source_ip'', E_string src), (''target_ip'', E_string target), (''protocol'', E_string ''DNP3''),
                        (''function'', E_string (im_FunctionName m))]
                       now alertEpisodeGap e1
                else e1)"

section \<open>Reports\<close>

definition no_reporting :: reporting_state where
  "no_reporting = \<lparr> rp_LastSeen = 0, rp_LastGap = 0, rp_TypicalGap = 0, rp_Samples = 0, rp_AlertedAt = 0 \<rparr>"

definition note_gap :: "duration \<Rightarrow> reporting_state \<Rightarrow> reporting_state" where
  "note_gap gap st =
     (if gap > 0 \<and> gap < 24 * 60 * minute
      then st\<lparr> rp_LastGap := gap,
               rp_TypicalGap := (if rp_TypicalGap st = 0 then gap else go_trunc (of_int (rp_TypicalGap st) * (9 / 10) + of_int gap * (1 / 10))) \<rparr>
      else st)"

definition note_report :: "time \<Rightarrow> reporting_state \<Rightarrow> reporting_state" where
  "note_report now st =
     (let st1 = (if is_zero_time (rp_LastSeen st) then st else note_gap (time_sub now (rp_LastSeen st)) st)
      in st1\<lparr> rp_LastSeen := now, rp_Samples := rp_Samples st1 + 1 \<rparr>)"

definition observeOTReporting :: "time \<Rightarrow> string \<Rightarrow> time \<Rightarrow> detector \<Rightarrow> detector" where
  "observeOTReporting clk controller at0 e =
     (let now = (if is_zero_time at0 then clk else at0);
          st = (case mget (po_reporting (dt_policy e)) controller of Some s \<Rightarrow> s | None \<Rightarrow> no_reporting)
      in on_policy (\<lambda>q. q\<lparr> po_reporting := mput controller (note_report now st) (po_reporting q) \<rparr>) e)"

text \<open>The check of the ticker: which devices are missing, each with its threshold.\<close>

definition reporting_rule :: string where "reporting_rule = ''builtin.ot_reporting_loss''"

definition missing_threshold :: "detector \<Rightarrow> reporting_state \<Rightarrow> duration" where
  "missing_threshold e st =
     (let multiplier = max 1 (builtinParameter e reporting_rule ''cadence_multiplier'' 5);
          lo0 = go_trunc (builtinParameter e reporting_rule ''min_missing_seconds'' 600) * second;
          hi0 = go_trunc (builtinParameter e reporting_rule ''max_missing_seconds'' 21600) * second;
          lo = (if lo0 \<le> 0 then 10 * minute else lo0); hi = (if hi0 < lo then lo else hi0)
      in min hi (max lo (go_trunc (multiplier * of_int (rp_TypicalGap st)))))"

definition report_missing :: "time \<Rightarrow> detector \<Rightarrow> reporting_state \<Rightarrow> bool" where
  "report_missing now e st \<longleftrightarrow>
     rp_Samples st \<ge> count_parameter e reporting_rule ''min_samples'' 10 \<and> \<not> is_zero_time (rp_LastSeen st) \<and> rp_TypicalGap st > 0 \<and>
     time_sub now (rp_LastSeen st) > missing_threshold e st"

text \<open>\<open>Duration.Round\<close> of a duration that is not negative.\<close>

definition round_duration :: "duration \<Rightarrow> duration \<Rightarrow> duration" where
  "round_duration d m = (let r = d mod m in if r + r < m then d - r else d + (m - r))"

definition raise_missing :: "time \<Rightarrow> string \<Rightarrow> reporting_state \<Rightarrow> duration \<Rightarrow> detector \<Rightarrow> detector" where
  "raise_missing now ip st threshold e =
     raise now reporting_rule AlertOTReportingLoss ''high'' (''reporting-loss|'' @ ip)
       (''OT reporting from '' @ ip @ '' is missing for '' @ duration_text (round_duration (time_sub now (rp_LastSeen st)) minute) @
        '' (learned cadence about '' @ duration_text (round_duration (rp_TypicalGap st) second) @ '')'') ip
       [(''controller_ip'', E_string ip), (''last_report_at'', E_time (rp_LastSeen st)),
        (''typical_gap_seconds'', E_float (of_int (rp_TypicalGap st) / of_int second)),
        (''missing_threshold_seconds'', E_float (of_int threshold / of_int second)), (''samples'', E_int (rp_Samples st))]
       now threshold e"

text \<open>One tick; \<open>ks\<close> is the order in which the map of devices is visited.\<close>

definition missing_reports :: "string list \<Rightarrow> time \<Rightarrow> detector \<Rightarrow> (string \<times> reporting_state) list" where
  "missing_reports ks now e =
     concat (map (\<lambda>k. case mget (po_reporting (dt_policy e)) k of Some st \<Rightarrow> if report_missing now e st then [(k, st)] else [] | None \<Rightarrow> []) ks)"

definition checkOTReporting :: "string list \<Rightarrow> time \<Rightarrow> detector \<Rightarrow> detector" where
  "checkOTReporting ks now e =
     (let seen = po_lastPacketObserved (dt_policy e); misses = missing_reports ks now e in
      if behaviorDetectionsSuppressed e \<or> is_zero_time seen \<or> time_sub now seen > 2 * minute then e
      else fold (\<lambda>(ip, st) x. raise_missing now ip st (missing_threshold e st) x) misses
             (on_policy (\<lambda>q. q\<lparr> po_reporting := fold (\<lambda>(ip, st) r. mput ip (st\<lparr> rp_AlertedAt := now \<rparr>) r) misses (po_reporting q) \<rparr>) e))"

section \<open>Engineering sources\<close>

definition engineering_window :: "detector \<Rightarrow> duration" where
  "engineering_window e =
     (let w = go_trunc (builtinParameter e ''builtin.new_engineering_workstation'' ''window_hours'' 24 * of_int (60 * minute))
      in if w \<le> 0 then 24 * 60 * minute else w)"

text \<open>The controllers a source has commanded within the window.\<close>

definition note_target :: "time \<Rightarrow> duration \<Rightarrow> string \<Rightarrow> (string, time) gomap \<Rightarrow> (string, time) gomap" where
  "note_target now window target ts = filter (\<lambda>(_, t). \<not> t < now - window) (mput target now ts)"

definition targets_of :: "(string, (string, time) gomap) gomap \<Rightarrow> string \<Rightarrow> (string, time) gomap" where
  "targets_of m k = (case mget m k of Some ts \<Rightarrow> ts | None \<Rightarrow> [])"

definition observeEngineeringSource :: "time \<Rightarrow> string \<Rightarrow> string \<Rightarrow> ics_message \<Rightarrow> bool \<Rightarrow> detector \<Rightarrow> detector" where
  "observeEngineeringSource clk src target m learning e =
     (let now = message_time clk m; window = engineering_window e;
          threshold = count_parameter e ''builtin.new_engineering_workstation'' ''controller_threshold'' 3;
          ts = note_target now window target (targets_of (po_engineeringTargets (dt_policy e)) src);
          e1 = on_policy (\<lambda>q. q\<lparr> po_engineeringTargets := mput src ts (po_engineeringTargets q) \<rparr>) e;
          n = int (length ts);
          engineering = isEngineeringRole (context_role (dt_policy e) src);
          has_context = (mget (po_assetContexts (dt_policy e)) src \<noteq> None);
          trustedTarget = related (po_trustedOTMasters (dt_policy e)) target src
      in if learning then e1
         else
           let e2 = (if has_context \<and> engineering \<and> \<not> trustedTarget
                     then raise clk ''builtin.unexpected_engineering_access'' AlertUnexpectedEngineeringAccess ''high''
                            (''engineering-access|'' @ src @ ''|'' @ target)
                            (''engineering source '' @ src @ '' accessed controller '' @ target @ '' outside its learned relationship ('' @ im_Protocol m @
                             '' '' @ im_FunctionName m @ '')'') src (ics_evidence m src target) now alertEpisodeGap e1
                     else e1)
           in if (\<not> has_context \<or> \<not> engineering) \<and> n \<ge> threshold
              then raise clk ''builtin.new_engineering_workstation'' AlertNewEngineeringWorkstation ''high'' (''new-engineering|'' @ src)
                     (src @ '' performed engineering/control operations against '' @ itoa n @ '' controllers within '' @ duration_text window) src
                     [(''source_ip'', E_string src), (''controller_count'', E_int n), (''controller_threshold'', E_int threshold),
                      (''window_hours'', E_float (of_int window / of_int (60 * minute))), (''latest_target'', E_string target),
                      (''protocol'', E_string (im_Protocol m)), (''function'', E_string (im_FunctionName m))]
                     now (30 * minute) e2
              else e2)"

section \<open>The policy on a request\<close>

definition is_write :: "ics_message \<Rightarrow> bool" where "is_write m \<longleftrightarrow> detailBool m ''is_write''"
definition is_command :: "ics_message \<Rightarrow> bool" where "is_command m \<longleftrightarrow> detailBool m ''is_command'' \<or> is_write m"
definition is_programming :: "ics_message \<Rightarrow> bool" where "is_programming m \<longleftrightarrow> detailBool m ''is_programming''"
definition is_mode_change :: "ics_message \<Rightarrow> bool" where "is_mode_change m \<longleftrightarrow> detailBool m ''is_mode_change''"
definition is_config_change :: "ics_message \<Rightarrow> bool" where "is_config_change m \<longleftrightarrow> detailBool m ''is_config_change''"
definition is_time_change :: "ics_message \<Rightarrow> bool" where "is_time_change m \<longleftrightarrow> detailBool m ''is_time_change''"
definition hard_semantic :: "ics_message \<Rightarrow> bool" where
  "hard_semantic m \<longleftrightarrow> is_programming m \<or> is_mode_change m \<or> is_config_change m"

definition may_learn :: "string \<Rightarrow> detector \<Rightarrow> bool" where
  "may_learn src e \<longleftrightarrow> baselineLearning e \<and> \<not> sourceRoleIsExplicitlyUntrusted (dt_policy e) src"

definition learn_request :: "time \<Rightarrow> string \<Rightarrow> string \<Rightarrow> u16 \<Rightarrow> ics_message \<Rightarrow> policy \<Rightarrow> policy" where
  "learn_request clk src target service m q =
     (let q1 = learnOTAccess clk src target (learnOTProtocolForRelation clk src target (im_Protocol m) service q)
      in if is_command m \<and> \<not> is_time_change m then learnOTMaster clk src target q1 else q1)"

definition service_evidence :: "ics_message \<Rightarrow> string \<Rightarrow> string \<Rightarrow> u16 \<Rightarrow> evidence" where
  "service_evidence m src target service = [(''source_ip'', E_string src), (''target_ip'', E_string target),
     (''protocol'', E_string (im_Protocol m)), (''service_port'', E_u16 service), (''function'', E_string (im_FunctionName m))]"

definition class_evidence :: "ics_message \<Rightarrow> string \<Rightarrow> string \<Rightarrow> evidence" where
  "class_evidence m src target = ics_evidence m src target @ [(''operation_class'', E_string (detailString m ''operation_class''))]"

definition raise_unexpected :: "time \<Rightarrow> string \<Rightarrow> string \<Rightarrow> u16 \<Rightarrow> ics_message \<Rightarrow> detector \<Rightarrow> detector" where
  "raise_unexpected clk src target service m e =
     raise clk ''builtin.unexpected_ot_protocol'' AlertUnexpectedOTProtocol ''high''
       (''unexpected-ot-protocol|'' @ target @ ''|'' @ to_lower (im_Protocol m) @ ''|'' @ dec (unat service))
       (src @ '' used unexpected OT protocol '' @ im_Protocol m @ '' on service port '' @ dec (unat service) @ '' toward '' @ target) target
       (service_evidence m src target service) (im_Timestamp m) alertEpisodeGap e"

definition raise_direct :: "time \<Rightarrow> string \<Rightarrow> string \<Rightarrow> u16 \<Rightarrow> ics_message \<Rightarrow> detector \<Rightarrow> detector" where
  "raise_direct clk src target service m e =
     raise clk ''builtin.direct_ot_protocol_access'' AlertDirectOTProtocolAccess ''high''
       (''direct-ot-decoded|'' @ src @ ''|'' @ target @ ''|'' @ to_lower (im_Protocol m) @ ''|'' @ dec (unat service))
       (src @ '' directly accessed '' @ im_Protocol m @ '' on OT asset '' @ target @ '' without a learned/approved relationship'') src
       (service_evidence m src target service) (im_Timestamp m) alertEpisodeGap e"

text \<open>Operations that are dangerous in themselves: they are excluded from learning and always reported.\<close>

definition raise_programming :: "time \<Rightarrow> string \<Rightarrow> string \<Rightarrow> ics_message \<Rightarrow> detector \<Rightarrow> detector" where
  "raise_programming clk src target m e =
     raise clk ''builtin.controller_program_change'' AlertControllerProgramChange ''critical''
       (''program|'' @ target @ ''|'' @ src @ ''|'' @ im_FunctionName m)
       (src @ '' performed controller programming operation '' @ im_FunctionName m @ '' on '' @ target @ '' ('' @ im_Protocol m @ '')'') target
       (class_evidence m src target) (im_Timestamp m) alertEpisodeGap (excludeICSFromLearning clk m ''controller programming operation'' e)"

definition raise_mode :: "time \<Rightarrow> string \<Rightarrow> string \<Rightarrow> ics_message \<Rightarrow> detector \<Rightarrow> detector" where
  "raise_mode clk src target m e =
     raise clk ''builtin.controller_mode_change'' AlertControllerModeChange ''critical''
       (''mode|'' @ target @ ''|'' @ src @ ''|'' @ im_FunctionName m)
       (src @ '' issued controller mode/stop/restart operation '' @ im_FunctionName m @ '' to '' @ target @ '' ('' @ im_Protocol m @ '')'') target
       (class_evidence m src target) (im_Timestamp m) alertEpisodeGap (excludeICSFromLearning clk m ''controller mode change'' e)"

definition raise_config :: "time \<Rightarrow> string \<Rightarrow> string \<Rightarrow> ics_message \<Rightarrow> detector \<Rightarrow> detector" where
  "raise_config clk src target m e =
     raise clk ''builtin.controller_configuration_change'' AlertControllerConfigChange ''high''
       (''configuration|'' @ target @ ''|'' @ src @ ''|'' @ im_Protocol m @ ''|'' @ im_FunctionName m)
       (src @ '' changed controller/device configuration using '' @ im_FunctionName m @ '' on '' @ target @ '' ('' @ im_Protocol m @ '')'') target
       (class_evidence m src target) (im_Timestamp m) alertEpisodeGap (excludeICSFromLearning clk m ''controller/device configuration change'' e)"

definition raise_time :: "time \<Rightarrow> string \<Rightarrow> string \<Rightarrow> ics_message \<Rightarrow> detector \<Rightarrow> detector" where
  "raise_time clk src target m e =
     raise clk ''builtin.unauthorized_time_change'' AlertUnauthorizedTimeChange ''high''
       (''time|'' @ target @ ''|'' @ src @ ''|'' @ im_Protocol m)
       (''unauthorized time synchronization/change '' @ im_FunctionName m @ '' from '' @ src @ '' to '' @ target @ '' ('' @ im_Protocol m @ '')'') target
       (ics_evidence m src target) (im_Timestamp m) alertEpisodeGap (excludeICSFromLearning clk m ''unauthorized OT time change'' e)"

definition time_step :: "time \<Rightarrow> string \<Rightarrow> string \<Rightarrow> ics_message \<Rightarrow> detector \<Rightarrow> detector" where
  "time_step clk src target m e =
     (if may_learn src e then on_policy (learnOTTimeSource clk src target) e
      else if sourceCanSetTime (dt_policy e) src target then e
      else raise_time clk src target m e)"

definition raise_command :: "time \<Rightarrow> string \<Rightarrow> string \<Rightarrow> ics_message \<Rightarrow> detector \<Rightarrow> detector" where
  "raise_command clk src target m e =
     raise clk ''builtin.unauthorized_ot_command'' AlertUnauthorizedOTCommand ''critical''
       (''unauthorized-command|'' @ target @ ''|'' @ src @ ''|'' @ im_Protocol m @ ''|'' @ im_FunctionName m)
       (''unapproved source '' @ src @ '' issued OT command '' @ im_FunctionName m @ '' to '' @ target @ '' ('' @ im_Protocol m @ '')'') target
       (class_evidence m src target) (im_Timestamp m) alertEpisodeGap e"

definition raise_write :: "time \<Rightarrow> string \<Rightarrow> string \<Rightarrow> ics_message \<Rightarrow> detector \<Rightarrow> detector" where
  "raise_write clk src target m e =
     raise clk ''builtin.unauthorized_ot_write'' AlertUnauthorizedOTWrite ''critical''
       (''unauthorized-write|'' @ target @ ''|'' @ src @ ''|'' @ im_Protocol m @ ''|'' @ im_FunctionName m)
       (''unapproved source '' @ src @ '' issued OT write/operate '' @ im_FunctionName m @ '' to '' @ target @ '' ('' @ im_Protocol m @ '')'') target
       (class_evidence m src target) (im_Timestamp m) alertEpisodeGap e"

definition unauthorized_step :: "time \<Rightarrow> string \<Rightarrow> string \<Rightarrow> ics_message \<Rightarrow> detector \<Rightarrow> detector" where
  "unauthorized_step clk src target m e =
     (let e1 = raise_command clk src target m (excludeICSFromLearning clk m ''unauthorized OT command'' e)
      in if is_write m then raise_write clk src target m e1 else e1)"

definition command_step :: "time \<Rightarrow> string \<Rightarrow> string \<Rightarrow> ics_message \<Rightarrow> bool \<Rightarrow> bool \<Rightarrow> detector \<Rightarrow> detector" where
  "command_step clk src target m learning trustedSource e =
     (let e1 = (if trustedSource then e else unauthorized_step clk src target m e)
      in observeCommandSequence clk src target m (observeIOBurst clk src target m (observeEngineeringSource clk src target m learning e1)))"

definition hard_steps :: "time \<Rightarrow> string \<Rightarrow> string \<Rightarrow> ics_message \<Rightarrow> detector \<Rightarrow> detector" where
  "hard_steps clk src target m e =
     (let e1 = (if is_programming m then raise_programming clk src target m e else e);
          e2 = (if is_mode_change m then raise_mode clk src target m e1 else e1)
      in if is_config_change m then raise_config clk src target m e2 else e2)"

definition access_steps :: "time \<Rightarrow> string \<Rightarrow> string \<Rightarrow> u16 \<Rightarrow> ics_message \<Rightarrow> bool \<Rightarrow> bool \<Rightarrow> detector \<Rightarrow> detector" where
  "access_steps clk src target service m learning trustedAccess e =
     (let e1 = (if \<not> learning \<and> \<not> isExpectedOTProtocol (dt_policy e) target (im_Protocol m) service
                then raise_unexpected clk src target service m e else e)
      in if \<not> learning \<and> \<not> trustedAccess then raise_direct clk src target service m e1 else e1)"

definition request_policy :: "time \<Rightarrow> string \<Rightarrow> string \<Rightarrow> u16 \<Rightarrow> ics_message \<Rightarrow> detector \<Rightarrow> detector" where
  "request_policy clk src target service m e =
     (let learning = baselineLearning e;
          learns = (may_learn src e \<and> \<not> hard_semantic m);
          trustedAccess = (isTrustedOTAccess (dt_policy e) src target \<or> learns);
          trustedSource = (isTrustedOTMaster (dt_policy e) src target \<or> (learns \<and> is_command m \<and> \<not> is_time_change m));
          e1 = (if learns then on_policy (learn_request clk src target service m) e else e);
          e2 = hard_steps clk src target m (access_steps clk src target service m learning trustedAccess e1);
          e3 = (if is_time_change m then time_step clk src target m e2 else e2)
      in if is_command m then command_step clk src target m learning trustedSource e3 else e3)"

definition handleICSPolicy :: "time \<Rightarrow> ics_message \<Rightarrow> detector \<Rightarrow> detector" where
  "handleICSPolicy clk m e =
     (let (src, target, service) = icsEndpoints m in
      if target = [] then e
      else
        let e1 = on_policy (markOTAsset target) e
        in if im_IsResponse m then
             (let e2 = (if im_FromAnalysis m then e1 else observeOTReporting clk target (im_Timestamp m) e1)
              in if im_IsException m then observeICSError clk target src m e2 else e2)
           else request_policy clk src target service m e1)"

section \<open>The historical alert on critical operations\<close>

definition raw_class :: "ics_message \<Rightarrow> ev" where
  "raw_class m = (case mget (im_Details m) ''operation_class'' of Some (D_string s) \<Rightarrow> E_string s | _ \<Rightarrow> E_nil)"

definition handleICS :: "time \<Rightarrow> ics_message \<Rightarrow> detector \<Rightarrow> detector" where
  "handleICS clk m e0 =
     (let e = handleICSPolicy clk m e0; (_, target, _) = icsEndpoints m in
      if \<not> detailBool m ''security_relevant'' \<or> im_IsResponse m \<or> hard_semantic m then e
      else raise clk AlertICSCriticalOperation AlertICSCriticalOperation ''critical''
             (''ics|'' @ im_Protocol m @ ''|'' @ im_FunctionName m @ ''|'' @ target)
             (im_Protocol m @ '' '' @ im_FunctionName m @ '' directed at '' @ target) target
             ([(''source_ip'', E_string (im_SrcIP m)), (''target_ip'', E_string target), (''protocol'', E_string (im_Protocol m)),
               (''function'', E_string (im_FunctionName m)), (''operation_class'', raw_class m)])
             (im_Timestamp m) alertEpisodeGap (excludeICSFromLearning clk m ''intrinsically critical ICS operation'' e))"

end
