(* ===== verification/Detect_Authority.thy ===== *)
theory Detect_Authority
  imports Detect_Ics Detect_Learning
begin

text \<open>
  What the policy on industrial messages guarantees: who can gain authority over a controller and
  how it is lost, why a time source is never learned, the windows of the burst detectors, and the
  learned cadence of reports.
\<close>

section \<open>The effect of each step on the relationships\<close>

text \<open>The relationships of the source and the target, with what guards their learning.\<close>

definition trust_state :: "detector \<Rightarrow> relations \<times> relations \<times> relations \<times> (string, time) gomap \<times> (string, asset_context) gomap" where
  "trust_state e = (let q = dt_policy e in (po_trustedOTAccess q, po_trustedOTMasters q, po_trustedOTTimeSources q,
     po_policyLearningQuarantine q, po_assetContexts q))"

definition masters :: "detector \<Rightarrow> relations" where "masters e = po_trustedOTMasters (dt_policy e)"

lemma trust_state_eqD:
  "trust_state e = trust_state e' \<Longrightarrow> po_trustedOTAccess (dt_policy e) = po_trustedOTAccess (dt_policy e') \<and>
     masters e = masters e' \<and> po_trustedOTTimeSources (dt_policy e) = po_trustedOTTimeSources (dt_policy e') \<and>
     po_policyLearningQuarantine (dt_policy e) = po_policyLearningQuarantine (dt_policy e') \<and>
     po_assetContexts (dt_policy e) = po_assetContexts (dt_policy e')"
  by (simp add: trust_state_def masters_def Let_def)

lemma raise_policy [simp]: "dt_policy (raise clk rid t sev key msg ip v at0 gap e) = dt_policy e"
  by (simp add: raise_def)

lemma raise_mode_fields [simp]:
  "dt_baselineEnabled (raise clk rid t sev key msg ip v at0 gap e) = dt_baselineEnabled e"
  "dt_baselineMode (raise clk rid t sev key msg ip v at0 gap e) = dt_baselineMode e"
  by (simp_all add: raise_def)

lemma raise_trust [simp]: "trust_state (raise clk rid t sev key msg ip v at0 gap e) = trust_state e"
  by (simp add: trust_state_def)

lemma on_policy_trust:
  "(\<And>q. po_trustedOTAccess (f q) = po_trustedOTAccess q \<and> po_trustedOTMasters (f q) = po_trustedOTMasters q \<and>
      po_trustedOTTimeSources (f q) = po_trustedOTTimeSources q \<and> po_policyLearningQuarantine (f q) = po_policyLearningQuarantine q \<and>
      po_assetContexts (f q) = po_assetContexts q) \<Longrightarrow> trust_state (on_policy f e) = trust_state e"
  by (simp add: trust_state_def on_policy_def Let_def)

lemma observe_trust [simp]:
  "trust_state (observeIOBurst clk src target m e) = trust_state e"
  "trust_state (observeICSError clk src target m e) = trust_state e"
  "trust_state (observeCommandSequence clk src target m e) = trust_state e"
  "trust_state (observeOTReporting clk target at0 e) = trust_state e"
  "trust_state (observeEngineeringSource clk src target m learning e) = trust_state e"
  "trust_state (on_policy (markOTAsset target) e) = trust_state e"
  by (simp_all add: observeIOBurst_def burst_alert_def observeICSError_def observeCommandSequence_def observeOTReporting_def
      observeEngineeringSource_def Let_def on_policy_trust markOTAsset_def)

lemma access_steps_trust [simp]: "trust_state (access_steps clk src target service m learning ta e) = trust_state e"
  by (simp add: access_steps_def raise_unexpected_def raise_direct_def Let_def)

section \<open>Who gains authority\<close>

definition no_new_master :: "detector \<Rightarrow> detector \<Rightarrow> bool" where
  "no_new_master e e' \<longleftrightarrow> (\<forall>d s. related (masters e') d s \<longrightarrow> related (masters e) d s)"

lemma no_new_master_refl [simp]: "no_new_master e e" by (simp add: no_new_master_def)

lemma no_new_master_trans: "no_new_master a b \<Longrightarrow> no_new_master b c \<Longrightarrow> no_new_master a c"
  by (simp add: no_new_master_def)

lemma same_trust_no_new: "trust_state e' = trust_state e \<Longrightarrow> no_new_master e e'"
  by (simp add: no_new_master_def trust_state_def masters_def Let_def)

lemma exclude_policy:
  "dt_policy (excludeICSFromLearning clk m reason e) =
     (if im_SrcIP m = [] \<or> im_DstIP m = [] then dt_policy e
      else quarantinePolicyLearning clk (fst (icsEndpoints m)) (fst (snd (icsEndpoints m))) (clk + 24 * 60 * minute) (dt_policy e))"
  by (simp add: excludeICSFromLearning_def publish_def on_policy_def split: prod.split)

lemma exclude_no_new [simp]: "no_new_master e (excludeICSFromLearning clk m reason e)"
  by (auto simp: no_new_master_def masters_def exclude_policy quarantinePolicyLearning_def Let_def)

lemma raise_no_new: "no_new_master e e' \<Longrightarrow> no_new_master e (raise clk rid t sev key msg ip v at0 gap e')"
  by (simp add: no_new_master_def masters_def)

lemma no_new_if: "no_new_master a b \<Longrightarrow> no_new_master a (if c then b else a)"
  by simp

lemma alert_steps_no_new:
  "no_new_master e (raise_programming clk src target m e)"
  "no_new_master e (raise_mode clk src target m e)"
  "no_new_master e (raise_config clk src target m e)"
  "no_new_master e (raise_time clk src target m e)"
  "no_new_master e (raise_command clk src target m e)"
  "no_new_master e (raise_write clk src target m e)"
  unfolding raise_programming_def raise_mode_def raise_config_def raise_time_def raise_command_def raise_write_def
  by (intro raise_no_new exclude_no_new no_new_master_refl)+

lemma hard_steps_no_new: "no_new_master e (hard_steps clk src target m e)"
  unfolding hard_steps_def Let_def
  by (rule no_new_master_trans [OF no_new_if no_new_master_trans [OF no_new_if no_new_if]]) (rule alert_steps_no_new)+

lemma learn_time_masters [simp]: "po_trustedOTMasters (learnOTTimeSource clk s d q) = po_trustedOTMasters q"
  by (simp add: learnOTTimeSource_def policyLearningAllowed_def Let_def)

lemma time_step_no_new: "no_new_master e (time_step clk src target m e)"
  using alert_steps_no_new(4) [of e clk src target m]
  by (simp add: time_step_def no_new_master_def masters_def on_policy_def)

lemma unauthorized_step_no_new: "no_new_master e (unauthorized_step clk src target m e)"
proof -
  let ?x = "raise_command clk src target m (excludeICSFromLearning clk m ''unauthorized OT command'' e)"
  have "no_new_master e ?x" by (rule no_new_master_trans [OF exclude_no_new alert_steps_no_new(5)])
  from no_new_master_trans [OF this no_new_if [OF alert_steps_no_new(6) [of ?x clk src target m]]]
  show ?thesis by (simp add: unauthorized_step_def Let_def)
qed

lemma command_step_no_new: "no_new_master e (command_step clk src target m learning ts e)"
proof -
  let ?x = "if ts then e else unauthorized_step clk src target m e"
  have "no_new_master e ?x" using unauthorized_step_no_new by simp
  moreover have "trust_state (command_step clk src target m learning ts e) = trust_state ?x"
    by (simp only: command_step_def Let_def observe_trust)
  ultimately show ?thesis using no_new_master_trans same_trust_no_new by blast
qed

lemma learnOTMaster_related:
  "related (po_trustedOTMasters (learnOTMaster clk s d q)) d' s' \<Longrightarrow> related (po_trustedOTMasters q) d' s' \<or> (d' = d \<and> s' = s)"
  by (auto simp: learnOTMaster_def policyLearningAllowed_def Let_def split: if_splits)

lemma learn_other_masters [simp]:
  "po_trustedOTMasters (learnOTAccess clk s d q) = po_trustedOTMasters q"
  "po_trustedOTMasters (learnOTProtocolForRelation clk s d n port q) = po_trustedOTMasters q"
  by (simp_all add: learnOTAccess_def learnOTProtocolForRelation_def policyLearningAllowed_def Let_def)

lemma learn_request_related:
  "related (po_trustedOTMasters (learn_request clk src target service m q)) d s \<Longrightarrow>
     related (po_trustedOTMasters q) d s \<or> (d = target \<and> s = src \<and> is_command m \<and> \<not> is_time_change m)"
  by (auto simp: learn_request_def Let_def split: if_splits dest!: learnOTMaster_related)

definition may_gain :: "ics_message \<Rightarrow> detector \<Rightarrow> string \<Rightarrow> string \<Rightarrow> bool" where
  "may_gain m e d s \<longleftrightarrow>
     s = im_SrcIP m \<and> d = im_DstIP m \<and> \<not> im_IsResponse m \<and> is_command m \<and> \<not> is_time_change m \<and> \<not> hard_semantic m \<and>
     baselineLearning e \<and> \<not> sourceRoleIsExplicitlyUntrusted (dt_policy e) s"

lemma request_policy_masters:
  assumes "related (masters (request_policy clk src target service m e)) d s"
  shows "related (masters e) d s \<or>
    (d = target \<and> s = src \<and> is_command m \<and> \<not> is_time_change m \<and> \<not> hard_semantic m \<and> may_learn src e)"
proof -
  define e1 where "e1 = (if may_learn src e \<and> \<not> hard_semantic m then on_policy (learn_request clk src target service m) e else e)"
  define e2 where "e2 = access_steps clk src target service m (baselineLearning e)
      (isTrustedOTAccess (dt_policy e) src target \<or> may_learn src e \<and> \<not> hard_semantic m) e1"
  define e3 where "e3 = (if is_time_change m then time_step clk src target m (hard_steps clk src target m e2) else hard_steps clk src target m e2)"
  have 2: "no_new_master e1 e2" by (rule same_trust_no_new) (simp add: e2_def)
  have 3: "no_new_master e2 e3"
    unfolding e3_def by (rule no_new_master_trans [OF hard_steps_no_new]) (rule no_new_if, rule time_step_no_new)
  have "request_policy clk src target service m e =
      (if is_command m then command_step clk src target m (baselineLearning e)
         (isTrustedOTMaster (dt_policy e) src target \<or> (may_learn src e \<and> \<not> hard_semantic m) \<and> is_command m \<and> \<not> is_time_change m) e3 else e3)"
    unfolding request_policy_def Let_def e1_def [symmetric] e2_def [symmetric] e3_def [symmetric] ..
  moreover have "no_new_master e3 (command_step clk src target m l t e3)" for l t by (rule command_step_no_new)
  ultimately have "no_new_master e3 (request_policy clk src target service m e)" by simp
  with 2 3 have "no_new_master e1 (request_policy clk src target service m e)" by (blast intro: no_new_master_trans)
  with assms have "related (masters e1) d s" by (simp add: no_new_master_def)
  then show ?thesis
    unfolding e1_def by (auto simp: masters_def on_policy_def split: if_splits dest: learn_request_related)
qed

lemma raise_masters [simp]: "masters (raise clk rid t sev key msg ip v at0 gap e) = masters e"
  by (simp add: masters_def)

lemma handleICS_masters:
  "related (masters (handleICS clk m e)) d s \<Longrightarrow> related (masters (handleICSPolicy clk m e)) d s"
  using exclude_no_new [of "handleICSPolicy clk m e" clk m "''intrinsically critical ICS operation''"]
  by (auto simp: handleICS_def Let_def no_new_master_def split: prod.splits if_splits)

lemma mark_may_learn [simp]: "may_learn src (on_policy (markOTAsset t) e) = may_learn src e"
  by (simp add: may_learn_def baselineLearning_def sourceRoleIsExplicitlyUntrusted_def on_policy_def markOTAsset_def)

lemma masters_same: "trust_state e' = trust_state e \<Longrightarrow> masters e' = masters e"
  by (simp add: trust_state_def masters_def Let_def)

text \<open>
  C30: authority to command a controller is only ever gained by commanding it: whatever message is
  handled, a source becomes a trusted master of a device only if the message is that source's own
  request to that device, it is a command, it neither programs, stops, configures nor sets the time, the
  baseline is still being learned, and the source is not of a role that is explicitly untrusted.
\<close>

theorem authority_comes_from_commands:
  assumes "related (masters (handleICS clk m e)) d s"
  shows "related (masters e) d s \<or> may_gain m e d s"
proof -
  have m: "masters (on_policy (markOTAsset t) e) = masters e" for t by (rule masters_same) simp
  have b: "masters (observeOTReporting c t a x) = masters x" "masters (observeICSError c p t n x) = masters x" for c t a x p n
    by (rule masters_same, simp)+
  from handleICS_masters [OF assms] have h: "related (masters (handleICSPolicy clk m e)) d s" .
  show ?thesis
  proof (cases "fst (snd (icsEndpoints m)) = [] \<or> im_IsResponse m")
    case True
    with h show ?thesis by (auto simp: handleICSPolicy_def Let_def m b split: prod.splits if_splits)
  next
    case False
    then have ep: "icsEndpoints m = (im_SrcIP m, im_DstIP m, im_DstPort m)" by (auto simp: icsEndpoints_def)
    with False h have "related (masters (request_policy clk (im_SrcIP m) (im_DstIP m) (im_DstPort m) m (on_policy (markOTAsset (im_DstIP m)) e))) d s"
      by (simp add: handleICSPolicy_def)
    from request_policy_masters [OF this] show ?thesis
      unfolding mark_may_learn m using False by (auto simp: may_gain_def may_learn_def)
  qed
qed

text \<open>A request of function 5 (write) of a Modbus master, as the parsers produce it.\<close>

definition request :: "string \<Rightarrow> string \<Rightarrow> string \<Rightarrow> string \<Rightarrow> ics_message" where
  "request src dst protocol cls = setOperation cls True True False
     \<lparr> im_Timestamp = 1000, im_FromAnalysis = False, im_SrcIP = src, im_DstIP = dst, im_SrcPort = 50000, im_DstPort = 502,
       im_Protocol = protocol, im_FunctionCode = 5, im_FunctionName = ''f'', im_IsException = False, im_IsResponse = False, im_UnitID = 1,
       im_Details = [] \<rparr>"

text \<open>A detector that is learning, without rules.\<close>

definition bare_detector :: detector where
  "bare_detector =
     \<lparr> dt_knownMAC = [], dt_candidateMAC = [], dt_candidateCount = [], dt_arpConfirmThreshold = 3, dt_baselineEnabled = True,
       dt_baselineMode = BaselineModeLearning, dt_learningStarted = 0, dt_learningDuration = minute, dt_learnedPatterns = [],
       dt_learnedAssets = [], dt_assetFirstSeen = [], dt_assetSamples = [], dt_patternCreatedAt = [], dt_alerts = [], dt_rules = [],
       dt_customRuleSeq = 0, dt_reconnaissanceEnabled = True, dt_reconWindow = minute, dt_hostScanThreshold = 15,
       dt_portScanThreshold = 15, dt_hostScanSeen = [], dt_portScanSeen = [], dt_reconSignals = [], dt_policy = NewPolicy,
       dt_segmentation = \<lparr> sg_Enabled = False, sg_Managed = False, sg_vlanLevels = [], sg_maxLevelJump = 1, sg_localEnabled = False,
         sg_localVLANLevels = [], sg_localMaxLevelJump = 1, sg_Policy = [], sg_ipVLAN = [], sg_ipVLANSeen = [] \<rparr>,
       dt_deceptionScores = [], dt_honeypotThreshold = 0, dt_c2BeaconEnabled = True, dt_c2BeaconMinSamples = 6,
       dt_c2BeaconMaxCV = 15 / 100, dt_c2BeaconMinInterval = 5 * second, dt_c2BeaconMaxInterval = 60 * minute,
       dt_c2BeaconMaxTrackedDests = 5000, dt_beaconHistory = [], dt_beaconLastTouch = [], dt_lateral = no_lateral,
       dt_lateralFanout = [], dt_lateralTransfers = [], dt_lateralInboundAdmin = [], dt_c2Correlation = no_c2,
       dt_c2NXDomains = [], dt_c2Subdomains = [], dt_events = [] \<rparr>"

theorem authority_comes_from_commands_witness:
  "may_gain (request ''10.0.0.1'' ''10.0.0.5'' ''Modbus/TCP'' ''write'') bare_detector ''10.0.0.5'' ''10.0.0.1''"
proof -
  let ?m = "request ''10.0.0.1'' ''10.0.0.5'' ''Modbus/TCP'' ''write''"
  have "related (masters (handleICS 1000 ?m bare_detector)) ''10.0.0.5'' ''10.0.0.1''" by code_simp
  moreover have "\<not> related (masters bare_detector) ''10.0.0.5'' ''10.0.0.1''" by code_simp
  ultimately show ?thesis using authority_comes_from_commands [of 1000 ?m bare_detector] by blast
qed

section \<open>Who loses it\<close>

lemma mark_master: "isTrustedOTMaster (markOTAsset t q) s d = isTrustedOTMaster q s d"
  by (cases "t = []") (simp_all add: markOTAsset_def isTrustedOTMaster_def master_by_role_def zone_permits_def split: option.split)

text \<open>The source is trusted with nothing at the target, and cannot learn it now.\<close>

definition banned :: "time \<Rightarrow> string \<Rightarrow> string \<Rightarrow> detector \<Rightarrow> bool" where
  "banned clk src dst e \<longleftrightarrow>
     \<not> related (po_trustedOTAccess (dt_policy e)) dst src \<and> \<not> related (masters e) dst src \<and>
     \<not> related (po_trustedOTTimeSources (dt_policy e)) dst src \<and>
     clk < mtime (po_policyLearningQuarantine (dt_policy e)) (policyRelationKey src dst)"

lemma banned_same: "trust_state e' = trust_state e \<Longrightarrow> banned clk s d e' = banned clk s d e"
  by (simp add: banned_def trust_state_def masters_def Let_def)

lemma banned_raise [simp]: "banned clk s d (raise c rid t sev key msg ip v at0 gap e) = banned clk s d e"
  by (rule banned_same) simp

lemma banned_keeps: "banned clk s d e \<Longrightarrow> banned clk s d (excludeICSFromLearning c m reason e)"
  by (auto simp: banned_def masters_def exclude_policy quarantinePolicyLearning_def Let_def)

lemma banned_starts:
  "icsEndpoints m = (s, d, port) \<Longrightarrow> s \<noteq> [] \<Longrightarrow> d \<noteq> [] \<Longrightarrow> 0 \<le> clk \<Longrightarrow> banned clk s d (excludeICSFromLearning clk m reason e)"
  by (auto simp: banned_def masters_def exclude_policy quarantinePolicyLearning_def Let_def is_zero_time_def icsEndpoints_def
      minute_def second_def split: if_splits)

lemma banned_learns_nothing: "banned clk s d e \<Longrightarrow> 0 \<le> clk \<Longrightarrow> learnOTTimeSource clk s d (dt_policy e) = dt_policy e"
  by (auto simp: banned_def learnOTTimeSource_def policyLearningAllowed_def Let_def is_zero_time_def)

lemma banned_time_step: "banned clk s d e \<Longrightarrow> 0 \<le> clk \<Longrightarrow> banned clk s d (time_step clk s d m e)"
  by (simp add: time_step_def raise_time_def banned_keeps on_policy_def banned_learns_nothing)

lemma banned_hard:
  assumes "icsEndpoints m = (s, d, port)" and "s \<noteq> []" and "d \<noteq> []" and "0 \<le> clk" and "hard_semantic m"
  shows "banned clk s d (hard_steps clk s d m e)"
  using assms(5) banned_starts [OF assms(1-4)]
  by (auto simp: hard_steps_def hard_semantic_def Let_def raise_programming_def raise_mode_def raise_config_def banned_keeps)

lemma banned_unauthorized:
  assumes "icsEndpoints m = (s, d, port)" and "s \<noteq> []" and "d \<noteq> []" and "0 \<le> clk"
  shows "banned clk s d (unauthorized_step clk s d m e)"
  using banned_starts [OF assms] by (simp add: unauthorized_step_def raise_command_def raise_write_def Let_def)

lemma banned_command_step:
  assumes "banned clk s d e" and "icsEndpoints m = (s, d, port)" and "s \<noteq> []" and "d \<noteq> []" and "0 \<le> clk"
  shows "banned clk s d (command_step clk s d m l t e)"
proof -
  have "trust_state (command_step clk s d m l t e) = trust_state (if t then e else unauthorized_step clk s d m e)"
    by (simp only: command_step_def Let_def observe_trust)
  from banned_same [OF this] show ?thesis using assms banned_unauthorized by simp
qed

lemma banned_handleICS: "banned clk s d (handleICSPolicy c m e) \<Longrightarrow> banned clk s d (handleICS c m e)"
  by (auto simp: handleICS_def Let_def banned_keeps split: prod.splits)

text \<open>
  C37: programming, stopping or configuring a controller costs its source every authority it had learned there, and
  nothing of the same message gives it back: afterwards the source is neither trusted for access nor
  for commands nor for the time, and learning is blocked.
\<close>

theorem hard_operation_revokes_authority:
  assumes "\<not> im_IsResponse m" and "im_SrcIP m \<noteq> []" and "im_DstIP m \<noteq> []" and "0 \<le> clk" and "hard_semantic m"
  shows "banned clk (im_SrcIP m) (im_DstIP m) (handleICS clk m e)"
proof -
  have ep: "icsEndpoints m = (im_SrcIP m, im_DstIP m, im_DstPort m)" using assms(1) by (simp add: icsEndpoints_def)
  note h = banned_hard [OF ep assms(2-5)] and c = banned_command_step [OF _ ep assms(2-4)] and t = banned_time_step [OF _ assms(4)]
  have "banned clk (im_SrcIP m) (im_DstIP m) (handleICSPolicy clk m e)"
    using assms(1,3) h c t by (simp add: handleICSPolicy_def ep request_policy_def Let_def)
  then show ?thesis by (rule banned_handleICS)
qed

theorem hard_operation_revokes_authority_witness:
  "banned 1000 ''10.0.0.1'' ''10.0.0.5'' (handleICS 1000 (request ''10.0.0.1'' ''10.0.0.5'' ''S7comm'' ''program'')
     (on_policy (learnOTMaster 1 ''10.0.0.1'' ''10.0.0.5'') bare_detector))"
  using hard_operation_revokes_authority [of "request ''10.0.0.1'' ''10.0.0.5'' ''S7comm'' ''program''" 1000]
  by (simp add: request_def setOperation_def Let_def hard_semantic_def is_programming_def detailBool_def)

text \<open>
  A time source is never learned: every operation that sets the time is also marked as a command, and a source
  that is not a trusted master is reported for an unauthorized command, which removes the time
  relationship that the same message has just taught, and blocks learning it for a day.
\<close>

theorem time_source_is_never_learned:
  assumes "\<not> im_IsResponse m" and "im_SrcIP m \<noteq> []" and "im_DstIP m \<noteq> []" and "0 \<le> clk"
    and "is_time_change m" and "is_command m" and "\<not> isTrustedOTMaster (dt_policy e) (im_SrcIP m) (im_DstIP m)"
  shows "banned clk (im_SrcIP m) (im_DstIP m) (handleICS clk m e)"
proof -
  have ep: "icsEndpoints m = (im_SrcIP m, im_DstIP m, im_DstPort m)" using assms(1) by (simp add: icsEndpoints_def)
  have tm: "isTrustedOTMaster (dt_policy (on_policy (markOTAsset t) e)) s d = isTrustedOTMaster (dt_policy e) s d" for t s d
    by (simp add: on_policy_def mark_master)
  have "banned clk (im_SrcIP m) (im_DstIP m) (command_step clk (im_SrcIP m) (im_DstIP m) m l False x)" for l x
  proof -
    have "trust_state (command_step clk (im_SrcIP m) (im_DstIP m) m l False x) = trust_state (unauthorized_step clk (im_SrcIP m) (im_DstIP m) m x)"
      by (simp only: command_step_def Let_def observe_trust if_False)
    from banned_same [OF this] show ?thesis using banned_unauthorized [OF ep assms(2-4)] by simp
  qed
  then have "banned clk (im_SrcIP m) (im_DstIP m) (handleICSPolicy clk m e)"
    using assms by (simp add: handleICSPolicy_def ep request_policy_def Let_def tm)
  then show ?thesis by (rule banned_handleICS)
qed

theorem time_source_is_never_learned_witness:
  "banned 1000 ''10.0.0.1'' ''10.0.0.5'' (handleICS 1000 (request ''10.0.0.1'' ''10.0.0.5'' ''DNP3'' ''time'') bare_detector)"
proof -
  have "\<not> isTrustedOTMaster (dt_policy bare_detector) ''10.0.0.1'' ''10.0.0.5''" by code_simp
  with time_source_is_never_learned [of "request ''10.0.0.1'' ''10.0.0.5'' ''DNP3'' ''time''" 1000 bare_detector] show ?thesis
    by (simp add: request_def setOperation_def Let_def is_time_change_def is_command_def detailBool_def)
qed

section \<open>Windows\<close>

text \<open>
  The contract of the bounded windows of the rate detectors: an event is appended, events older
  than the window are dropped, and at most so many of the newest are kept.
\<close>

locale sliding_window =
  fixes push :: "time \<Rightarrow> time list \<Rightarrow> time list" and window :: duration and cap :: nat
  assumes push_window: "push t xs = last_n cap (filter (\<lambda>x. \<not> x < t - window) (xs @ [t]))"
begin

lemma push_bounded: "length (push t xs) \<le> cap" by (simp add: push_window)

lemma filter_last_n: "sorted ys \<Longrightarrow> filter (\<lambda>x. \<not> x < c) (last_n n ys) = last_n n (filter (\<lambda>x. \<not> x < c) ys)"
proof (induction ys)
  case (Cons y ys)
  show ?case
  proof (cases "n \<le> length ys")
    case True
    then have l: "last_n n (y # ys) = last_n n ys" by (simp add: last_n_def Suc_diff_le)
    show ?thesis
    proof (cases "y < c")
      case False
      with Cons.prems have all: "filter (\<lambda>x. \<not> x < c) ys = ys" by (auto intro!: filter_True)
      with l Cons False show ?thesis by simp
    qed (use l Cons in simp)
  next
    case False
    then have "length (filter (\<lambda>x. \<not> x < c) (y # ys)) \<le> n" using length_filter_le [of "\<lambda>x. \<not> x < c" "y # ys"] by simp
    with False show ?thesis by (simp del: filter.simps)
  qed
qed (simp add: last_n_def)

lemma push_step:
  assumes "sorted (ts @ [s, t])"
  shows "push t (last_n cap (filter (\<lambda>x. \<not> x < s - window) (ts @ [s]))) = last_n cap (filter (\<lambda>x. \<not> x < t - window) (ts @ [s, t]))"
proof -
  let ?P = "\<lambda>x. \<not> x < s - window" and ?Q = "\<lambda>x. \<not> x < t - window"
  from assms have o: "s \<le> t" "sorted (ts @ [s])" by (auto simp: sorted_append)
  then have sp: "sorted (filter ?P (ts @ [s]))" using sorted_filter [of id "ts @ [s]"] by (simp del: filter_append)
  have "filter ?Q (last_n cap (filter ?P (ts @ [s])) @ [t]) = last_n cap (filter ?Q (filter ?P (ts @ [s]))) @ filter ?Q [t]"
    using filter_last_n [OF sp] by simp
  also have "filter ?Q (filter ?P (ts @ [s])) = filter ?Q (ts @ [s])" using o(1) by (auto intro: filter_cong)
  finally show ?thesis by (simp add: push_window last_n_last_n_append)
qed

lemma fold_push_window:
  "sorted ts \<Longrightarrow> ts \<noteq> [] \<Longrightarrow> fold push ts [] = last_n cap (filter (\<lambda>x. \<not> x < last ts - window) ts)"
proof (induction ts rule: rev_induct)
  case (snoc t ts)
  show ?case
  proof (cases "ts = []")
    case False
    then obtain us s where "ts = us @ [s]" by (metis rev_exhaust)
    with snoc push_step [of us s t] show ?thesis by (simp add: sorted_append)
  qed (simp add: push_window)
qed simp

end

interpretation burst: sliding_window "\<lambda>t xs. last_n maxBurst (slide_window t w xs)" w maxBurst for w
  by unfold_locales (simp add: slide_window_def)

interpretation garp: sliding_window "\<lambda>t xs. last_n maxGratuitous (slide_window t w xs)" w maxGratuitous for w
  by unfold_locales (simp add: slide_window_def)

text \<open>The commands of one source to one target that have been observed, and those the detector still remembers.\<close>

definition remembers :: "string \<Rightarrow> string \<Rightarrow> time list \<Rightarrow> detector \<Rightarrow> bool" where
  "remembers src target ts e \<longleftrightarrow>
     times_of (po_ioBursts (dt_policy e)) (src @ ''|'' @ target) =
       (if ts = [] then [] else last_n maxBurst (filter (\<lambda>x. \<not> x < last ts - window_parameter e ''builtin.brute_force_io'' 10 (10 * second)) ts))"

lemma burst_policy:
  "times_of (po_ioBursts (dt_policy (observeIOBurst clk src target m e))) (src @ ''|'' @ target) =
     last_n maxBurst (slide_window (message_time clk m) (window_parameter e ''builtin.brute_force_io'' 10 (10 * second))
       (times_of (po_ioBursts (dt_policy e)) (src @ ''|'' @ target)))"
  by (simp add: observeIOBurst_def burst_alert_def Let_def on_policy_def times_of_def)

text \<open>
  The burst detector counts what it should: if the remembered commands are those of the window
  that ends with the last one, then after the next command they are those of the window that ends with
  it, at most 256; it raises the alert exactly when their number reaches the threshold.
\<close>

theorem burst_counts_the_window:
  assumes "remembers src target ts e" and "sorted (ts @ [message_time clk m])"
  shows "times_of (po_ioBursts (dt_policy (observeIOBurst clk src target m e))) (src @ ''|'' @ target) =
       last_n maxBurst (filter (\<lambda>x. \<not> x < message_time clk m - window_parameter e ''builtin.brute_force_io'' 10 (10 * second)) (ts @ [message_time clk m])) \<and>
     (dt_alerts (observeIOBurst clk src target m e) \<noteq> dt_alerts e \<longrightarrow>
       int (length (filter (\<lambda>x. \<not> x < message_time clk m - window_parameter e ''builtin.brute_force_io'' 10 (10 * second)) (ts @ [message_time clk m]))) \<ge>
         count_parameter e ''builtin.brute_force_io'' ''commands_threshold'' 50)"
proof -
  let ?w = "window_parameter e ''builtin.brute_force_io'' 10 (10 * second)" and ?t = "message_time clk m"
  let ?xs = "times_of (po_ioBursts (dt_policy e)) (src @ ''|'' @ target)"
  have l: "last_n maxBurst (slide_window ?t ?w ?xs) = last_n maxBurst (filter (\<lambda>x. \<not> x < ?t - ?w) (ts @ [?t]))"
  proof (cases "ts = []")
    case True
    with assms(1) show ?thesis by (simp add: remembers_def slide_window_def)
  next
    case False
    then obtain us s where ts: "ts = us @ [s]" by (metis rev_exhaust)
    with assms burst.push_step [of us s ?t ?w] show ?thesis by (simp add: remembers_def)
  qed
  moreover have "dt_alerts (observeIOBurst clk src target m e) = dt_alerts e"
    if "int (length (filter (\<lambda>x. \<not> x < ?t - ?w) (ts @ [?t]))) < count_parameter e ''builtin.brute_force_io'' ''commands_threshold'' 50"
  proof -
    from that have "int (length (last_n maxBurst (slide_window ?t ?w ?xs))) < count_parameter e ''builtin.brute_force_io'' ''commands_threshold'' 50"
      unfolding l by simp
    then show ?thesis by (simp add: observeIOBurst_def Let_def on_policy_def)
  qed
  ultimately show ?thesis unfolding burst_policy by (metis not_le)
qed

theorem burst_counts_the_window_witness:
  "times_of (po_ioBursts (dt_policy (observeIOBurst 1000 ''10.0.0.1'' ''10.0.0.5'' (request ''10.0.0.1'' ''10.0.0.5'' ''DNP3'' ''write'') bare_detector)))
     (''10.0.0.1'' @ ''|'' @ ''10.0.0.5'') = [1000]"
proof -
  have r: "remembers ''10.0.0.1'' ''10.0.0.5'' [] bare_detector" by code_simp
  have t: "message_time 1000 (request ''10.0.0.1'' ''10.0.0.5'' ''DNP3'' ''write'') = 1000" by code_simp
  have w: "window_parameter bare_detector ''builtin.brute_force_io'' 10 (10 * second) = 10 * second" by code_simp
  show ?thesis
    using burst_counts_the_window [OF r, of 1000 "request ''10.0.0.1'' ''10.0.0.5'' ''DNP3'' ''write''", unfolded t w]
    by (simp add: second_def last_n_def maxBurst_def)
qed

text \<open>
  A threshold above 256 turns the burst detector off: the list of remembered commands is cut at
  256 entries before it is counted, so no number of commands reaches a higher threshold.
\<close>

theorem burst_threshold_above_cap_is_never_reached:
  assumes "count_parameter e ''builtin.brute_force_io'' ''commands_threshold'' 50 > 256"
  shows "dt_alerts (observeIOBurst clk src target m e) = dt_alerts e"
proof -
  have "int (length (last_n maxBurst (slide_window t w xs))) \<le> 256" for t w xs by (simp add: maxBurst_def)
  then have "\<not> count_parameter e ''builtin.brute_force_io'' ''commands_threshold'' 50 \<le> int (length (last_n maxBurst (slide_window t w xs)))" for t w xs
    using assms by (meson not_le order.strict_trans1)
  then show ?thesis by (simp add: observeIOBurst_def Let_def on_policy_def del: length_last_n)
qed

section \<open>The cadence of reports\<close>

lemma go_trunc_between: "of_int a \<le> (x :: rat) \<Longrightarrow> x \<le> of_int b \<Longrightarrow> 0 \<le> a \<Longrightarrow> a \<le> go_trunc x \<and> go_trunc x \<le> b"
proof -
  assume x: "of_int a \<le> x" "x \<le> of_int b" "0 \<le> a"
  then have "0 \<le> x" using of_int_0_le_iff order_trans by blast
  then have g: "go_trunc x = \<lfloor>x\<rfloor>" by (simp add: go_trunc_def)
  from x(2) have "\<lfloor>x\<rfloor> \<le> b" by (metis floor_mono floor_of_int)
  with x g show ?thesis by (simp add: le_floor_iff)
qed

lemma note_gap_between:
  assumes "0 < lo" "lo \<le> gap" "gap \<le> hi" and "rp_TypicalGap st = 0 \<or> (lo \<le> rp_TypicalGap st \<and> rp_TypicalGap st \<le> hi)"
  shows "rp_TypicalGap (note_gap gap st) = 0 \<or> (lo \<le> rp_TypicalGap (note_gap gap st) \<and> rp_TypicalGap (note_gap gap st) \<le> hi)"
proof (cases "gap < 24 * 60 * minute \<and> rp_TypicalGap st \<noteq> 0")
  case True
  let ?t = "of_int (rp_TypicalGap st) :: rat" and ?g = "of_int gap :: rat"
  from True assms have "of_int lo \<le> ?t" "?t \<le> of_int hi" "of_int lo \<le> ?g" "?g \<le> of_int hi" by simp_all
  then have "of_int lo \<le> ?t * (9 / 10) + ?g * (1 / 10)" "?t * (9 / 10) + ?g * (1 / 10) \<le> of_int hi" by linarith+
  from go_trunc_between [OF this] assms(1) True assms(2) show ?thesis by (simp add: note_gap_def)
next
  case False
  with assms show ?thesis by (auto simp: note_gap_def)
qed

text \<open>The reports of a device at the given instants.\<close>

definition reports :: "time list \<Rightarrow> reporting_state" where
  "reports ts = fold note_report ts no_reporting"

fun gaps_within :: "duration \<Rightarrow> duration \<Rightarrow> time list \<Rightarrow> bool" where
  "gaps_within lo hi (s # t # ts) \<longleftrightarrow> lo \<le> t - s \<and> t - s \<le> hi \<and> gaps_within lo hi (t # ts)"
| "gaps_within lo hi _ = True"

lemma note_report_step:
  assumes "0 < lo" "hi < 24 * 60 * minute" "lo \<le> t - rp_LastSeen st" "t - rp_LastSeen st \<le> hi"
    and "rp_TypicalGap st = 0 \<or> (lo \<le> rp_TypicalGap st \<and> rp_TypicalGap st \<le> hi)"
  shows "rp_LastSeen (note_report t st) = t \<and> (rp_TypicalGap (note_report t st) = 0 \<or>
    (lo \<le> rp_TypicalGap (note_report t st) \<and> rp_TypicalGap (note_report t st) \<le> hi))"
proof -
  have "time_sub t (rp_LastSeen st) = t - rp_LastSeen st"
    using assms(1-4) by (simp add: time_sub_def minute_def second_def)
  with note_gap_between [OF assms(1,3,4,5)] assms(5) show ?thesis by (simp add: note_report_def Let_def)
qed

lemma reports_run:
  assumes "0 < lo" "hi < 24 * 60 * minute"
  shows "gaps_within lo hi (rp_LastSeen st # ts) \<Longrightarrow> rp_TypicalGap st = 0 \<or> (lo \<le> rp_TypicalGap st \<and> rp_TypicalGap st \<le> hi) \<Longrightarrow>
    rp_TypicalGap (fold note_report ts st) = 0 \<or>
    (lo \<le> rp_TypicalGap (fold note_report ts st) \<and> rp_TypicalGap (fold note_report ts st) \<le> hi)"
proof (induction ts arbitrary: st)
  case (Cons t ts)
  from Cons.prems note_report_step [OF assms, of t st] Cons.IH [of "note_report t st"] show ?case by simp
qed simp

text \<open>
  The learned cadence of a device is one of its gaps or lies between them: whatever reports
  arrive, the typical gap stays between the smallest and the largest gap between two
  reports, so a device is missed only after several of its own longest gaps.
\<close>

theorem cadence_stays_between_gaps:
  assumes "0 < lo" and "hi < 24 * 60 * minute" and "gaps_within lo hi ts" and "rp_TypicalGap (reports ts) \<noteq> 0"
  shows "lo \<le> rp_TypicalGap (reports ts) \<and> rp_TypicalGap (reports ts) \<le> hi"
proof (cases ts)
  case Nil
  with assms(4) show ?thesis by (simp add: reports_def no_reporting_def)
next
  case (Cons t us)
  let ?s = "note_report t no_reporting"
  have s: "rp_LastSeen ?s = t" "rp_TypicalGap ?s = 0" by (simp_all add: note_report_def no_reporting_def is_zero_time_def)
  from reports_run [OF assms(1,2), of ?s us] assms(3,4) Cons s show ?thesis by (simp add: reports_def)
qed

theorem cadence_stays_between_gaps_witness:
  "4 * second \<le> rp_TypicalGap (reports [10 * second, 14 * second, 24 * second]) \<and>
   rp_TypicalGap (reports [10 * second, 14 * second, 24 * second]) \<le> 10 * second"
proof (rule cadence_stays_between_gaps)
  show "rp_TypicalGap (reports [10 * second, 14 * second, 24 * second]) \<noteq> 0" by code_simp
qed (simp_all add: second_def minute_def)

end
