(* ===== verification/Detect_Network.thy ===== *)
theory Detect_Network
  imports Detect_Ics Packet_Parser Tag_Model
begin

text \<open>
  internal/detect, the detectors of single packets: network_policy.go (remote management, access to
  OT services, large transfers), segmentation.go, honeypot.go, external_communication.go, and
  value_out_of_range.go.  \<open>clk\<close> is \<open>time.Now()\<close>; where the code ranges over a map the order of the
  visit is an argument.
\<close>

section \<open>Numbers in messages\<close>

text \<open>\<open>%.nf\<close>: rounded to the nearest, ties to the even digit.\<close>

definition round_even :: "rat \<Rightarrow> int" where
  "round_even q = (let f = \<lfloor>q\<rfloor>; r = q - of_int f in if r > 1 / 2 \<or> (r = 1 / 2 \<and> odd f) then f + 1 else f)"

definition pad_zeros :: "nat \<Rightarrow> string \<Rightarrow> string" where
  "pad_zeros n s = replicate (n - length s) CHR ''0'' @ s"

definition fixed_text :: "nat \<Rightarrow> rat \<Rightarrow> string" where
  "fixed_text n q =
     (let m = nat (round_even (\<bar>q\<bar> * 10 ^ n)); sign = (if q < 0 then ''-'' else [])
      in if n = 0 then sign @ dec m else sign @ dec (m div 10 ^ n) @ ''.'' @ pad_zeros n (dec (m mod 10 ^ n)))"

section \<open>Network policy\<close>

definition remoteManagementPorts :: "(u16, string) gomap" where
  "remoteManagementPorts =
     [(22, ''ssh''), (23, ''telnet''), (135, ''rpc''), (139, ''netbios''), (445, ''smb''), (3389, ''rdp''), (5900, ''vnc''), (5901, ''vnc''),
      (5902, ''vnc''), (5985, ''winrm''), (5986, ''winrm-tls'')]"

definition observed_time :: "time \<Rightarrow> packet \<Rightarrow> time" where
  "observed_time clk p = (if is_zero_time (pk_Timestamp p) then clk else pk_Timestamp p)"

definition initiated :: "packet \<Rightarrow> bool" where
  "initiated p \<longleftrightarrow> pk_L4Protocol p \<noteq> ''TCP'' \<or> (go_contains (pk_TCPFlags p) ''SYN'' \<and> \<not> go_contains (pk_TCPFlags p) ''ACK'')"

definition relation_evidence :: "string \<Rightarrow> string \<Rightarrow> packet \<Rightarrow> detector \<Rightarrow> evidence" where
  "relation_evidence k v p e =
     (let q = dt_policy e
      in [(''source_ip'', E_string (pk_SrcIP p)), (''destination_ip'', E_string (pk_DstIP p)), (''destination_port'', E_u16 (pk_DstPort p)),
          (k, E_string v), (''source_role'', E_string (context_role q (pk_SrcIP p))), (''destination_role'', E_string (context_role q (pk_DstIP p))),
          (''source_zone'', E_string (context_zone q (pk_SrcIP p))), (''destination_zone'', E_string (context_zone q (pk_DstIP p)))])"

definition port_pair :: "packet \<Rightarrow> string" where
  "port_pair p = pk_SrcIP p @ ''|'' @ pk_DstIP p @ ''|'' @ dec (unat (pk_DstPort p))"

definition raise_first_remote :: "time \<Rightarrow> string \<Rightarrow> packet \<Rightarrow> detector \<Rightarrow> detector" where
  "raise_first_remote clk service p e =
     raise clk ''builtin.first_seen_remote_management'' AlertFirstSeenRemoteManagement ''medium'' (''remote-first|'' @ port_pair p)
       (''First-seen '' @ service @ '' remote-management relationship '' @ pk_SrcIP p @ '' -> '' @ pk_DstIP p)
       (pk_SrcIP p) (relation_evidence ''service'' service p e) (observed_time clk p) (30 * minute) e"

definition raise_remote_ot :: "time \<Rightarrow> string \<Rightarrow> packet \<Rightarrow> detector \<Rightarrow> detector" where
  "raise_remote_ot clk service p e =
     raise clk ''builtin.remote_management_into_ot'' AlertRemoteAdminIntoOT ''high'' (''remote-ot|'' @ port_pair p)
       (''Unapproved '' @ service @ '' remote-management access '' @ pk_SrcIP p @ '' -> OT asset '' @ pk_DstIP p)
       (pk_SrcIP p) (relation_evidence ''service'' service p e) (observed_time clk p) alertEpisodeGap e"

definition raise_smb_ot :: "time \<Rightarrow> string \<Rightarrow> packet \<Rightarrow> detector \<Rightarrow> detector" where
  "raise_smb_ot clk service p e =
     raise clk ''builtin.smb_into_ot'' AlertSMBIntoOT ''medium'' (''smb-ot|'' @ pk_SrcIP p @ ''|'' @ pk_DstIP p)
       (''SMB traffic from '' @ pk_SrcIP p @ '' entered OT asset '' @ pk_DstIP p)
       (pk_SrcIP p) (relation_evidence ''service'' service p e) (observed_time clk p) alertEpisodeGap e"

text \<open>The first part of the handler, for a management service; the flag says whether the relation is trusted now.\<close>

definition remote_relation :: "time \<Rightarrow> string \<Rightarrow> packet \<Rightarrow> detector \<Rightarrow> bool \<times> detector" where
  "remote_relation clk service p e =
     (let trusted = isTrustedRemoteManagement (dt_policy e) (pk_SrcIP p) (pk_DstIP p) (pk_DstPort p);
          learning = behaviorDetectionsSuppressed e
      in if learning \<and> \<not> sourceRoleIsExplicitlyUntrusted (dt_policy e) (pk_SrcIP p)
         then (True, on_policy (learnRemoteManagement clk (pk_SrcIP p) (pk_DstIP p) (pk_DstPort p)) e)
         else if \<not> learning \<and> \<not> trusted then (trusted, raise_first_remote clk service p e)
         else (trusted, e))"

definition remote_into_ot :: "time \<Rightarrow> string \<Rightarrow> packet \<Rightarrow> detector \<Rightarrow> detector" where
  "remote_into_ot clk service p e =
     (let e1 = raise_remote_ot clk service p (excludePacketFromLearning clk p ''unapproved remote management into OT'' e)
      in if pk_DstPort p = 445 \<or> pk_DstPort p = 139 then raise_smb_ot clk service p e1 else e1)"

definition remote_management :: "time \<Rightarrow> string \<Rightarrow> packet \<Rightarrow> detector \<Rightarrow> detector" where
  "remote_management clk service p e =
     (let (trusted, e1) = remote_relation clk service p e
      in if isOTAsset (dt_policy e1) (pk_DstIP p) \<and> \<not> trusted then remote_into_ot clk service p e1 else e1)"

definition raise_direct_access :: "time \<Rightarrow> string \<Rightarrow> packet \<Rightarrow> detector \<Rightarrow> detector" where
  "raise_direct_access clk proto p e =
     raise clk ''builtin.direct_ot_protocol_access'' AlertDirectOTProtocolAccess ''high''
       (''direct-ot|'' @ pk_SrcIP p @ ''|'' @ pk_DstIP p @ ''|'' @ proto)
       (pk_SrcIP p @ '' directly accessed '' @ proto @ '' on OT asset '' @ pk_DstIP p @ '' without a learned/approved relationship'')
       (pk_SrcIP p) (relation_evidence ''ot_protocol'' proto p e) (observed_time clk p) alertEpisodeGap e"

definition ot_access :: "time \<Rightarrow> string \<Rightarrow> packet \<Rightarrow> detector \<Rightarrow> detector" where
  "ot_access clk proto p e0 =
     (let e = on_policy (markOTAsset (pk_DstIP p)) e0;
          trusted = isTrustedOTAccess (dt_policy e) (pk_SrcIP p) (pk_DstIP p)
      in if behaviorDetectionsSuppressed e then
           (if \<not> sourceRoleIsExplicitlyUntrusted (dt_policy e) (pk_SrcIP p)
            then on_policy (\<lambda>q. learnOTProtocolForRelation clk (pk_SrcIP p) (pk_DstIP p) proto (pk_DstPort p)
                   (learnOTAccess clk (pk_SrcIP p) (pk_DstIP p) q)) e
            else e)
         else if initiated p \<and> \<not> trusted then raise_direct_access clk proto p e
         else e)"

text \<open>
  The bytes of a relation within a window that starts with the first packet.  A threshold that does
  not fit into 64 bits is converted modulo 2 to the power of 64.
\<close>

definition transfer_threshold :: "detector \<Rightarrow> u64" where
  "transfer_threshold e =
     (let n = of_int (go_trunc (builtinParameter e ''builtin.large_controller_transfer'' ''bytes_threshold'' 10485760)) :: u64
      in if n = 0 then 10485760 else n)"

definition transfer_window :: "duration \<Rightarrow> time \<Rightarrow> packet_window option \<Rightarrow> packet_window" where
  "transfer_window window now w0 =
     (case w0 of
        Some w \<Rightarrow> if time_sub now (pw_FirstSeen w) > window then \<lparr> pw_FirstSeen = now, pw_LastSeen = 0, pw_Bytes = 0 \<rparr> else w
      | None \<Rightarrow> \<lparr> pw_FirstSeen = now, pw_LastSeen = 0, pw_Bytes = 0 \<rparr>)"

definition count_transfer :: "duration \<Rightarrow> time \<Rightarrow> int \<Rightarrow> packet_window option \<Rightarrow> packet_window" where
  "count_transfer window now len w0 =
     (let w = transfer_window window now w0 in w\<lparr> pw_LastSeen := now, pw_Bytes := pw_Bytes w + of_int len \<rparr>)"

definition raise_transfer :: "time \<Rightarrow> string \<Rightarrow> packet \<Rightarrow> duration \<Rightarrow> u64 \<Rightarrow> u64 \<Rightarrow> detector \<Rightarrow> detector" where
  "raise_transfer clk proto p window n threshold e =
     raise clk ''builtin.large_controller_transfer'' AlertLargeControllerTransfer ''high''
       (''controller-transfer|'' @ relationKey (pk_SrcIP p) (pk_DstIP p) (pk_DstPort p))
       (''Large transfer toward controller '' @ pk_DstIP p @ '' over '' @ proto @ '': '' @ dec (unat n) @ '' bytes within '' @ duration_text window)
       (pk_SrcIP p)
       [(''source_ip'', E_string (pk_SrcIP p)), (''destination_ip'', E_string (pk_DstIP p)), (''destination_port'', E_u16 (pk_DstPort p)),
        (''ot_protocol'', E_string proto), (''bytes_in_window'', E_u64 n), (''window_seconds'', E_float (of_int window / of_int second)),
        (''bytes_threshold'', E_u64 threshold)]
       (observed_time clk p) (30 * minute) e"

definition observe_transfer :: "time \<Rightarrow> string \<Rightarrow> packet \<Rightarrow> detector \<Rightarrow> detector" where
  "observe_transfer clk proto p e =
     (if pk_Length p > 0 then
        let window = window_parameter e ''builtin.large_controller_transfer'' 300 (5 * minute);
            threshold = transfer_threshold e;
            key = relationKey (pk_SrcIP p) (pk_DstIP p) (pk_DstPort p);
            w = count_transfer window (observed_time clk p) (pk_Length p) (mget (po_remoteTransfers (dt_policy e)) key);
            e1 = on_policy (\<lambda>q. q\<lparr> po_remoteTransfers := mput key w (po_remoteTransfers q) \<rparr>) e
        in if pw_Bytes w \<ge> threshold then raise_transfer clk proto p window (pw_Bytes w) threshold e1 else e1
      else e)"

definition handleBuiltinNetworkPolicy :: "time \<Rightarrow> packet \<Rightarrow> detector \<Rightarrow> detector" where
  "handleBuiltinNetworkPolicy clk p e =
     (let e1 = on_policy (\<lambda>q. q\<lparr> po_lastPacketObserved := observed_time clk p \<rparr>) e;
          e2 = (case mget remoteManagementPorts (pk_DstPort p) of
                  Some service \<Rightarrow> if initiated p then remote_management clk service p e1 else e1
                | None \<Rightarrow> e1)
      in case mget otServicePorts (pk_DstPort p) of
           None \<Rightarrow> e2
         | Some proto \<Rightarrow> observe_transfer clk proto p (ot_access clk proto p e2))"

text \<open>The guard of the subscription.\<close>

definition network_policy_event :: "time \<Rightarrow> packet \<Rightarrow> detector \<Rightarrow> detector" where
  "network_policy_event clk p e =
     (if pk_SrcIP p = [] \<or> pk_DstIP p = [] \<or> pk_FromAnalysis p then e else handleBuiltinNetworkPolicy clk p e)"

section \<open>Segmentation\<close>

definition segmentationVLANObservationTTL :: duration where "segmentationVLANObservationTTL = 30 * minute"

definition on_segmentation :: "(segmentation \<Rightarrow> segmentation) \<Rightarrow> detector \<Rightarrow> detector" where
  "on_segmentation f e = e\<lparr> dt_segmentation := f (dt_segmentation e) \<rparr>"

definition ConfigureSegmentationPolicy :: "segmentation_rule list \<Rightarrow> segmentation \<Rightarrow> segmentation" where
  "ConfigureSegmentationPolicy rs g = g\<lparr> sg_Policy := rs, sg_Enabled := sg_Enabled g \<or> rs \<noteq> [] \<rparr>"

definition UpdateSegmentationConfig :: "(u16, rat) gomap \<Rightarrow> rat \<Rightarrow> segmentation \<Rightarrow> segmentation" where
  "UpdateSegmentationConfig levels jump g =
     (let valid = valid_levels levels
      in g\<lparr> sg_vlanLevels := valid, sg_maxLevelJump := (if jump \<le> 0 \<or> jump > 5 then 1 else jump), sg_Managed := True,
            sg_Enabled := valid \<noteq> [] \<or> sg_Policy g \<noteq> [] \<rparr>)"

definition RestoreLocalSegmentationConfig :: "segmentation \<Rightarrow> segmentation" where
  "RestoreLocalSegmentationConfig g =
     (if \<not> sg_Managed g then g
      else g\<lparr> sg_vlanLevels := sg_localVLANLevels g, sg_maxLevelJump := sg_localMaxLevelJump g, sg_Managed := False,
              sg_Enabled := sg_localEnabled g \<or> sg_Policy g \<noteq> [], sg_ipVLAN := [], sg_ipVLANSeen := [] \<rparr>)"

definition wildcardMatch :: "string \<Rightarrow> string \<Rightarrow> bool" where
  "wildcardMatch want0 got0 =
     (let want = to_lower (trim_space want0); got = to_lower (trim_space got0)
      in want = [] \<or> want = ''*'' \<or> want = ''any'' \<or> want = got)"

definition packetPolicyProtocol :: "packet \<Rightarrow> string" where
  "packetPolicyProtocol p =
     (case mget otServicePorts (pk_DstPort p) of
        Some x \<Rightarrow> x
      | None \<Rightarrow> (case mget remoteManagementPorts (pk_DstPort p) of
                   Some x \<Rightarrow> x
                 | None \<Rightarrow> if pk_L4Protocol p \<noteq> [] then to_lower (pk_L4Protocol p) else to_lower (pk_IPProtocol p)))"

definition rule_applies :: "string \<Rightarrow> string \<Rightarrow> string \<Rightarrow> segmentation_rule \<Rightarrow> bool" where
  "rule_applies src dst proto r \<longleftrightarrow>
     wildcardMatch (sr_SourceZone r) src \<and> wildcardMatch (sr_DestinationZone r) dst \<and> wildcardMatch (sr_Protocol r) proto \<and>
     wildcardMatch (sr_Direction r) ''outbound''"

text \<open>\<open>None\<close> if no entry of the matrix applies; otherwise whether the first one that applies allows the packet.\<close>

definition explicitSegmentationDecision :: "packet \<Rightarrow> detector \<Rightarrow> bool option" where
  "explicitSegmentationDecision p e =
     (let src = context_zone (dt_policy e) (pk_SrcIP p); dst = context_zone (dt_policy e) (pk_DstIP p)
      in if src = [] \<or> dst = [] then None
         else map_option sr_Allowed (List.find (rule_applies src dst (packetPolicyProtocol p)) (sg_Policy (dt_segmentation e))))"

definition arpConfirmsL2Endpoint :: "string \<Rightarrow> string \<Rightarrow> detector \<Rightarrow> bool" where
  "arpConfirmsL2Endpoint ip mac e \<longleftrightarrow> ip \<noteq> [] \<and> mac \<noteq> [] \<and> mtext (dt_knownMAC e) ip \<noteq> [] \<and> equal_fold (mtext (dt_knownMAC e) ip) mac"

definition note_vlan :: "bool \<Rightarrow> string \<Rightarrow> u16 \<Rightarrow> time \<Rightarrow> segmentation \<Rightarrow> segmentation" where
  "note_vlan direct ip vlan now g =
     (if direct then g\<lparr> sg_ipVLAN := mput ip vlan (sg_ipVLAN g), sg_ipVLANSeen := mput ip now (sg_ipVLANSeen g) \<rparr> else g)"

definition stale_vlan :: "time \<Rightarrow> time \<Rightarrow> bool" where
  "stale_vlan now seen \<longleftrightarrow> is_zero_time seen \<or> time_sub now seen > segmentationVLANObservationTTL \<or> now < seen"

definition lookup_vlan :: "time \<Rightarrow> string \<Rightarrow> segmentation \<Rightarrow> u16 option \<times> segmentation" where
  "lookup_vlan now ip g =
     (case mget (sg_ipVLAN g) ip of
        None \<Rightarrow> (None, g)
      | Some vlan \<Rightarrow>
          if stale_vlan now (mtime (sg_ipVLANSeen g) ip)
          then (None, g\<lparr> sg_ipVLAN := mdel ip (sg_ipVLAN g), sg_ipVLANSeen := mdel ip (sg_ipVLANSeen g) \<rparr>)
          else (Some vlan, g))"

text \<open>What the frame says about the segments of its endpoints, then the segments known of them.\<close>

definition observe_vlans :: "time \<Rightarrow> bool \<Rightarrow> bool \<Rightarrow> packet \<Rightarrow> segmentation \<Rightarrow> (u16 option \<times> u16 option) \<times> segmentation" where
  "observe_vlans now src_direct dst_direct p g0 =
     (let g1 = note_vlan src_direct (pk_SrcIP p) (pk_VLANID p) now g0;
          g2 = note_vlan dst_direct (pk_DstIP p) (pk_VLANID p) now g1;
          (src, g3) = lookup_vlan now (pk_SrcIP p) g2;
          (dst, g4) = lookup_vlan now (pk_DstIP p) g3
      in ((src, dst), g4))"

definition raise_zone_violation :: "time \<Rightarrow> packet \<Rightarrow> detector \<Rightarrow> detector" where
  "raise_zone_violation clk p e =
     (let src = context_zone (dt_policy e) (pk_SrcIP p); dst = context_zone (dt_policy e) (pk_DstIP p); proto = packetPolicyProtocol p
      in raise clk AlertSegmentationViolation AlertSegmentationViolation ''high''
           (''segmentation-zone|'' @ pk_SrcIP p @ ''|'' @ pk_DstIP p @ ''|'' @ proto)
           (''Segmentation policy denied '' @ pk_SrcIP p @ '' -> '' @ pk_DstIP p @ '' ('' @ src @ '' -> '' @ dst @ '', '' @ proto @ '')'')
           (pk_SrcIP p)
           [(''source_ip'', E_string (pk_SrcIP p)), (''destination_ip'', E_string (pk_DstIP p)), (''source_zone'', E_string src),
            (''destination_zone'', E_string dst), (''protocol'', E_string proto), (''policy'', E_string ''explicit_zone_matrix'')]
           (observed_time clk p) alertEpisodeGap e)"

definition endpoint_text :: "string \<Rightarrow> u16 \<Rightarrow> rat \<Rightarrow> string" where
  "endpoint_text ip vlan level = ip @ '' (VLAN '' @ dec (unat vlan) @ '', level '' @ fixed_text 1 level @ '')''"

definition raise_level_violation :: "time \<Rightarrow> packet \<Rightarrow> u16 \<Rightarrow> rat \<Rightarrow> u16 \<Rightarrow> rat \<Rightarrow> rat \<Rightarrow> detector \<Rightarrow> detector" where
  "raise_level_violation clk p sv sl dv dl max_jump e =
     raise clk AlertSegmentationViolation AlertSegmentationViolation ''high'' (''segmentation|'' @ pk_SrcIP p @ ''|'' @ pk_DstIP p)
       (endpoint_text (pk_SrcIP p) sv sl @ '' communicated with '' @ endpoint_text (pk_DstIP p) dv dl @ '', jump '' @
        fixed_text 1 \<bar>sl - dl\<bar> @ '' exceeds '' @ fixed_text 1 max_jump)
       (pk_SrcIP p)
       [(''source_ip'', E_string (pk_SrcIP p)), (''destination_ip'', E_string (pk_DstIP p)), (''source_vlan'', E_u16 sv),
        (''destination_vlan'', E_u16 dv), (''source_level'', E_float sl), (''destination_level'', E_float dl),
        (''level_jump'', E_float \<bar>sl - dl\<bar>), (''policy'', E_string ''purdue_fallback'')]
       (observed_time clk p) alertEpisodeGap e"

text \<open>The comparison of the Purdue levels of two segments.\<close>

definition level_check :: "time \<Rightarrow> packet \<Rightarrow> u16 \<Rightarrow> u16 \<Rightarrow> detector \<Rightarrow> detector" where
  "level_check clk p sv dv e =
     (let g = dt_segmentation e
      in case (mget (sg_vlanLevels g) sv, mget (sg_vlanLevels g) dv) of
           (Some sl, Some dl) \<Rightarrow>
             if sv = dv \<or> \<bar>sl - dl\<bar> \<le> sg_maxLevelJump g then e
             else raise_level_violation clk p sv sl dv dl (sg_maxLevelJump g)
                    (excludePacketFromLearning clk p ''Purdue segmentation policy violation'' e)
         | _ \<Rightarrow> e)"

definition purdue_fallback :: "time \<Rightarrow> packet \<Rightarrow> detector \<Rightarrow> detector" where
  "purdue_fallback clk p e =
     (let g = dt_segmentation e
      in if \<not> sg_Enabled g \<or> sg_vlanLevels g = [] then e
         else
           let ((src, dst), g1) = observe_vlans (observed_time clk p) (arpConfirmsL2Endpoint (pk_SrcIP p) (pk_SrcMAC p) e)
                 (arpConfirmsL2Endpoint (pk_DstIP p) (pk_DstMAC p) e) p g;
               e1 = e\<lparr> dt_segmentation := g1 \<rparr>
           in case (src, dst) of (Some sv, Some dv) \<Rightarrow> level_check clk p sv dv e1 | _ \<Rightarrow> e1)"

definition handleSegmentation :: "time \<Rightarrow> packet \<Rightarrow> detector \<Rightarrow> detector" where
  "handleSegmentation clk p e =
     (if pk_SrcIP p = [] \<or> pk_DstIP p = [] then e
      else case explicitSegmentationDecision p e of
             Some True \<Rightarrow> e
           | Some False \<Rightarrow> raise_zone_violation clk p (excludePacketFromLearning clk p ''explicit segmentation policy violation'' e)
           | None \<Rightarrow> purdue_fallback clk p e)"

section \<open>Deception stations\<close>

definition isHoneypot :: "detector \<Rightarrow> string \<Rightarrow> bool" where
  "isHoneypot e ip \<longleftrightarrow> (case mget (dt_deceptionScores e) ip of Some score \<Rightarrow> score \<ge> dt_honeypotThreshold e | None \<Rightarrow> False)"

text \<open>The dash of the messages in UTF-8.\<close>

definition em_dash :: string where "em_dash = [CHR 0xE2, CHR 0x80, CHR 0x94]"

definition raiseHoneypotAlert :: "time \<Rightarrow> string \<Rightarrow> string \<Rightarrow> string \<Rightarrow> string \<Rightarrow> string \<Rightarrow> detector \<Rightarrow> detector" where
  "raiseHoneypotAlert clk t sev key msg ip e = raise clk t t sev key msg ip [] clk alertEpisodeGap e"

definition honeypot_lateral :: "time \<Rightarrow> packet \<Rightarrow> detector \<Rightarrow> detector" where
  "honeypot_lateral clk p e =
     raiseHoneypotAlert clk AlertHoneypotLateralMovement ''critical'' (''honeypot|lateral|'' @ pk_SrcIP p @ ''|'' @ pk_DstIP p)
       (''Honeypot '' @ pk_SrcIP p @ '' initiated outbound traffic to '' @ pk_DstIP p @
        '' '' @ em_dash @ '' likely compromised, possible lateral movement'')
       (pk_SrcIP p) (excludePacketFromLearning clk p ''honeypot lateral movement'' e)"

definition honeypot_probed :: "time \<Rightarrow> packet \<Rightarrow> detector \<Rightarrow> detector" where
  "honeypot_probed clk p e =
     raiseHoneypotAlert clk AlertHoneypotProbed ''medium'' (''honeypot|probed|'' @ pk_SrcIP p @ ''|'' @ pk_DstIP p)
       (pk_SrcIP p @ '' connected to honeypot '' @ pk_DstIP p) (pk_DstIP p) (excludePacketFromLearning clk p ''honeypot activity'' e)"

definition handleHoneypot :: "time \<Rightarrow> packet \<Rightarrow> detector \<Rightarrow> detector" where
  "handleHoneypot clk p e =
     (if pk_SrcIP p = [] \<or> pk_DstIP p = [] then e
      else
        let src = isHoneypot e (pk_SrcIP p); dst = isHoneypot e (pk_DstIP p);
            e1 = (if src \<and> isPrivateIP (pk_DstIP p) then honeypot_lateral clk p e else e)
        in if dst \<and> \<not> src then honeypot_probed clk p e1 else e1)"

definition unreviewed_honeypot_alert :: "string \<Rightarrow> alert \<Rightarrow> bool" where
  "unreviewed_honeypot_alert ip a \<longleftrightarrow>
     al_IP a = ip \<and> (al_Type a = AlertHoneypotLateralMovement \<or> al_Type a = AlertHoneypotProbed) \<and> al_Status a = AlertStatusNew"

definition clearHoneypotAlerts :: "string \<Rightarrow> detector \<Rightarrow> detector" where
  "clearHoneypotAlerts ip e =
     (if ip = [] then e else e\<lparr> dt_alerts := filter (\<lambda>(k, a). \<not> unreviewed_honeypot_alert ip a) (dt_alerts e) \<rparr>)"

section \<open>External communication\<close>

definition externalFlowSweepInterval :: duration where "externalFlowSweepInterval = minute"
definition maxTrackedExternalFlows :: int where "maxTrackedExternalFlows = 50000"

text \<open>\<open>IPNet.String\<close> of the network of an address: 24 bits for IPv4, 64 bits for IPv6.\<close>

definition int_bytes :: "nat \<Rightarrow> int \<Rightarrow> bytes" where
  "int_bytes n v = map (\<lambda>i. of_int (v div 256 ^ (n - 1 - i))) [0..<n]"

definition externalPeerScope :: "string \<Rightarrow> string" where
  "externalPeerScope ip =
     (case parse_ip ip of
        None \<Rightarrow> ip
      | Some a \<Rightarrow>
          (case ip_v4 a of
             Some v \<Rightarrow> ip_text (int_bytes 4 (v div 2 ^ 8 * 2 ^ 8)) @ ''/24''
           | None \<Rightarrow> ip_text (int_bytes 16 (ad_value a div 2 ^ 64 * 2 ^ 64)) @ ''/64''))"

definition externalFlowTimeout :: "string \<Rightarrow> duration" where
  "externalFlowTimeout protocol =
     (let q = to_upper protocol
      in if q = ''TCP'' then 15 * minute else if q = ''UDP'' then 2 * minute
         else if q = ''ICMP'' \<or> q = ''ICMPV6'' then 30 * second else 2 * minute)"

definition externalFlowKey :: "string \<Rightarrow> string \<Rightarrow> u16 \<Rightarrow> string \<Rightarrow> u16 \<Rightarrow> string" where
  "externalFlowKey protocol ip port ext_ip ext_port =
     protocol @ ''|'' @ ip @ ''|'' @ dec (unat port) @ ''|'' @ ext_ip @ ''|'' @ dec (unat ext_port)"

text \<open>The inside and the outside of a packet, each an address and a port, and whether the source is inside.\<close>

record external_view =
  xv_InternalIP :: string
  xv_InternalPort :: u16
  xv_ExternalIP :: string
  xv_ExternalPort :: u16
  xv_SrcIsInternal :: bool

definition external_view_of :: "packet \<Rightarrow> external_view option" where
  "external_view_of p =
     (if pk_SrcIP p = [] \<or> pk_DstIP p = [] then None
      else if isPrivateIP (pk_SrcIP p) \<and> IsPublicInternetUnicast (pk_DstIP p)
      then Some \<lparr> xv_InternalIP = pk_SrcIP p, xv_InternalPort = pk_SrcPort p, xv_ExternalIP = pk_DstIP p, xv_ExternalPort = pk_DstPort p,
                  xv_SrcIsInternal = True \<rparr>
      else if isPrivateIP (pk_DstIP p) \<and> IsPublicInternetUnicast (pk_SrcIP p)
      then Some \<lparr> xv_InternalIP = pk_DstIP p, xv_InternalPort = pk_DstPort p, xv_ExternalIP = pk_SrcIP p, xv_ExternalPort = pk_SrcPort p,
                  xv_SrcIsInternal = False \<rparr>
      else None)"

definition external_protocol :: "packet \<Rightarrow> string" where
  "external_protocol p =
     (let q = to_upper (trim_space (pk_L4Protocol p)) in if q = [] then to_upper (trim_space (pk_IPProtocol p)) else q)"

definition sweep_flows :: "time \<Rightarrow> policy \<Rightarrow> policy" where
  "sweep_flows now q =
     (if is_zero_time (po_externalFlowLastSweep q) \<or> time_sub now (po_externalFlowLastSweep q) \<ge> externalFlowSweepInterval
      then q\<lparr> po_externalFlows := filter (\<lambda>(k, st). \<not> time_sub now (ef_LastSeen st) > externalFlowTimeout (ef_Protocol st)) (po_externalFlows q),
              po_externalFlowLastSweep := now \<rparr>
      else q)"

text \<open>The direction of a conversation from its first packet; a TCP packet without SYN does not tell.\<close>

definition first_direction :: "string \<Rightarrow> string \<Rightarrow> bool \<Rightarrow> string option" where
  "first_direction protocol flags0 src_internal =
     (if protocol = ''TCP'' then
        let flags = to_upper flags0; syn = go_contains flags ''SYN''; ack = go_contains flags ''ACK''
        in if \<not> syn then None
           else if ack \<noteq> src_internal then Some ''outbound'' else Some ''inbound''
      else if src_internal then Some ''outbound'' else Some ''inbound'')"

text \<open>The table is full: the entry that the map yields first, in the order \<open>ord\<close>, is dropped.\<close>

definition make_room :: "string list \<Rightarrow> (string, external_flow) gomap \<Rightarrow> (string, external_flow) gomap" where
  "make_room ord m = (if int (length m) \<ge> maxTrackedExternalFlows then (case ord of k # _ \<Rightarrow> mdel k m | [] \<Rightarrow> m) else m)"

definition externalConversationDirection ::
  "string list \<Rightarrow> time \<Rightarrow> packet \<Rightarrow> external_view \<Rightarrow> policy \<Rightarrow> (string \<times> bool) option \<times> policy" where
  "externalConversationDirection ord now p x q0 =
     (let protocol = external_protocol p;
          key = externalFlowKey protocol (xv_InternalIP x) (xv_InternalPort x) (xv_ExternalIP x) (xv_ExternalPort x);
          q = sweep_flows now q0;
          fresh = (\<lambda>m. case first_direction protocol (pk_TCPFlags p) (xv_SrcIsInternal x) of
                     None \<Rightarrow> (None, q\<lparr> po_externalFlows := m \<rparr>)
                   | Some d \<Rightarrow> (Some (d, False), q\<lparr> po_externalFlows :=
                       mput key \<lparr> ef_Direction = d, ef_Protocol = protocol, ef_LastSeen = now \<rparr> (make_room ord m) \<rparr>))
      in case mget (po_externalFlows q) key of
           Some st \<Rightarrow>
             if time_sub now (ef_LastSeen st) \<le> externalFlowTimeout (ef_Protocol st)
             then (Some (ef_Direction st, True), q\<lparr> po_externalFlows := mput key (st\<lparr> ef_LastSeen := now \<rparr>) (po_externalFlows q) \<rparr>)
             else fresh (mdel key (po_externalFlows q))
         | None \<Rightarrow> fresh (po_externalFlows q))"

text \<open>The public endpoints seen in a scope: at most 64, the current one always among them; \<open>ks\<close> is the order of the map.\<close>

fun evict_peers :: "string list \<Rightarrow> string \<Rightarrow> (string, bool) gomap \<Rightarrow> (string, bool) gomap" where
  "evict_peers [] peer m = m"
| "evict_peers (k # ks) peer m =
     (if k \<noteq> peer then (let m' = mdel k m in if length m' \<le> 64 then m' else evict_peers ks peer m') else evict_peers ks peer m)"

definition note_peer :: "string list \<Rightarrow> string \<Rightarrow> (string, bool) gomap \<Rightarrow> (string, bool) gomap" where
  "note_peer ks peer m0 = (let m = mput peer True m0 in if length m > 64 then evict_peers ks peer m else m)"

definition peers_of :: "relations \<Rightarrow> string \<Rightarrow> (string, bool) gomap" where
  "peers_of r bucket = (case mget r bucket of Some m \<Rightarrow> m | None \<Rightarrow> [])"

definition external_bucket :: "string \<Rightarrow> external_view \<Rightarrow> string" where
  "external_bucket direction x = direction @ ''|'' @ xv_InternalIP x @ ''|'' @ externalPeerScope (xv_ExternalIP x)"

definition endpoint :: "string \<Rightarrow> u16 \<Rightarrow> string" where "endpoint ip port = ip @ '':'' @ dec (unat port)"

definition external_message :: "string \<Rightarrow> external_view \<Rightarrow> nat \<Rightarrow> string" where
  "external_message direction x n =
     (let inside = endpoint (xv_InternalIP x) (xv_InternalPort x); outside = endpoint (xv_ExternalIP x) (xv_ExternalPort x);
          tail = '' ('' @ dec n @ '' public endpoint(s) observed)''
      in if direction = ''inbound'' then ''inbound external communication: '' @ outside @ '' -> '' @ inside @ tail
         else ''outbound external communication: '' @ inside @ '' -> '' @ outside @ tail)"

definition raise_external :: "time \<Rightarrow> intel option \<Rightarrow> time \<Rightarrow> string \<Rightarrow> bool \<Rightarrow> external_view \<Rightarrow> string list \<Rightarrow> detector \<Rightarrow> detector" where
  "raise_external clk ti now direction correlated x peers e =
     raise clk AlertExternalCommunication AlertExternalCommunication (if direction = ''inbound'' then ''high'' else ''medium'')
       (''external|'' @ external_bucket direction x) (external_message direction x (length peers)) (xv_InternalIP x)
       [(''direction'', E_string direction), (''internal_ip'', E_string (xv_InternalIP x)), (''external_ip'', E_string (xv_ExternalIP x)),
        (''external_scope'', E_string (externalPeerScope (xv_ExternalIP x))), (''internal_port'', E_u16 (xv_InternalPort x)),
        (''external_port'', E_u16 (xv_ExternalPort x)), (''destinations_seen'', E_strings (last_n 20 peers)),
        (''destination_count'', E_int (int (length peers))), (''response_correlated'', E_bool correlated),
        (''threat_intel_match'', E_bool (case ti of Some m \<Rightarrow> MatchIP clk (xv_ExternalIP x) m \<noteq> None | None \<Rightarrow> False))]
       now alertEpisodeGap e"

definition report_external ::
  "string list \<Rightarrow> time \<Rightarrow> intel option \<Rightarrow> packet \<Rightarrow> string \<Rightarrow> bool \<Rightarrow> external_view \<Rightarrow> detector \<Rightarrow> detector" where
  "report_external ks clk ti p direction correlated x e0 =
     (let e = excludePacketFromLearning clk p ''external communication requires explicit policy approval'' e0;
          bucket = external_bucket direction x;
          m = note_peer ks (endpoint (xv_ExternalIP x) (xv_ExternalPort x)) (peers_of (po_externalPeers (dt_policy e)) bucket);
          e1 = on_policy (\<lambda>q. q\<lparr> po_externalPeers := mput bucket m (po_externalPeers q) \<rparr>) e
      in raise_external clk ti (observed_time clk p) direction correlated x (go_sort (\<lambda>a b. a < b) (mkeys m)) e1)"

text \<open>\<open>ord\<close>, \<open>ks\<close>: the orders of the maps of flows and of peers; \<open>ti\<close>: the indicators, if configured.\<close>

definition handleExternalCommunication ::
  "string list \<Rightarrow> string list \<Rightarrow> time \<Rightarrow> intel option \<Rightarrow> packet \<Rightarrow> detector \<Rightarrow> detector" where
  "handleExternalCommunication ord ks clk ti p e =
     (case external_view_of p of
        None \<Rightarrow> e
      | Some x \<Rightarrow>
          (case externalConversationDirection ord (observed_time clk p) p x (dt_policy e) of
             (None, q) \<Rightarrow> e\<lparr> dt_policy := q \<rparr>
           | (Some (direction, correlated), q) \<Rightarrow> report_external ks clk ti p direction correlated x (e\<lparr> dt_policy := q \<rparr>)))"

section \<open>Values out of range\<close>

text \<open>\<open>show\<close> prints a float64 the way \<open>%v\<close> does.\<close>

definition range_message :: "(rat \<Rightarrow> string) \<Rightarrow> out_of_range \<Rightarrow> string" where
  "range_message show ov =
     (let head = or_DeviceIP ov @ '':'' @ dec (unat (or_DevicePort ov)) @ '' '' @ or_AddressSpace ov @ '' '' @ dec (unat (or_Address ov))
      in if or_Reason ov = ''rate_of_change''
         then head @ '' changed by '' @ fixed_text 3 (or_Delta ov) @ '' at '' @ fixed_text 3 (or_Rate ov) @
              '' units/s; learned rate limit is '' @ fixed_text 3 (or_RateLimit ov) @ '' units/s''
         else head @ '' value '' @ sprint (or_Value ov) @ '' outside learned robust range ['' @ show (or_MinValue ov) @ '', '' @
              show (or_MaxValue ov) @ '']'')"

definition handleValueOutOfRange :: "(rat \<Rightarrow> string) \<Rightarrow> time \<Rightarrow> out_of_range \<Rightarrow> detector \<Rightarrow> detector" where
  "handleValueOutOfRange show clk ov e =
     (if behaviorDetectionsSuppressed e \<or> or_TagKey ov = [] then e
      else raise clk AlertValueOutOfRange AlertValueOutOfRange ''medium'' (''outofrange|'' @ or_TagKey ov) (range_message show ov) (or_DeviceIP ov)
             [(''tag_key'', E_string (or_TagKey ov)), (''reason'', E_string (or_Reason ov)), (''value'', E_string (sprint (or_Value ov))),
              (''min'', E_float (or_MinValue ov)), (''max'', E_float (or_MaxValue ov)), (''rate'', E_float (or_Rate ov)),
              (''rate_limit'', E_float (or_RateLimit ov))]
             clk alertEpisodeGap e)"

end
