(* ===== verification/Detect_Recon.thy ===== *)
theory Detect_Recon
  imports Detect_Network Smb_Engine Dns_Engine
begin

text \<open>
  internal/detect, the detectors of attack steps inside the network: reconnaissance.go,
  lateral_movement.go, smb_lateral.go, and the matches of threatintel.go.  \<open>clk\<close> is \<open>time.Now()\<close>,
  an order of a map is an argument.
\<close>

section \<open>Windows of instants by key\<close>

text \<open>The entry of a key is set to now, and entries that \<open>old\<close> rejects are dropped.\<close>

definition touch_entry :: "(time \<Rightarrow> bool) \<Rightarrow> 'k \<Rightarrow> time \<Rightarrow> ('k, time) gomap \<Rightarrow> ('k, time) gomap" where
  "touch_entry old k now m = filter (\<lambda>(k, t). \<not> old t) (mput k now m)"

definition inner_map :: "(string, ('k, 'v) gomap) gomap \<Rightarrow> string \<Rightarrow> ('k, 'v) gomap" where
  "inner_map m k = (case mget m k of Some x \<Rightarrow> x | None \<Rightarrow> [])"

section \<open>Reconnaissance\<close>

definition maxReconSignals :: nat where "maxReconSignals = 512"

definition reconSignal :: "string \<Rightarrow> string \<Rightarrow> time \<Rightarrow> detector \<Rightarrow> int \<times> detector" where
  "reconSignal src cls now e =
     (let key = src @ ''|'' @ cls; xs = last_n maxReconSignals (slide_window now (dt_reconWindow e) (times_of (dt_reconSignals e) key))
      in (int (length xs), e\<lparr> dt_reconSignals := mput key xs (dt_reconSignals e) \<rparr>))"

definition note_host :: "packet \<Rightarrow> time \<Rightarrow> detector \<Rightarrow> detector" where
  "note_host p now e =
     e\<lparr> dt_hostScanSeen := mput (pk_SrcIP p)
          (touch_entry (\<lambda>t. time_sub now t > dt_reconWindow e) (pk_DstIP p) now (inner_map (dt_hostScanSeen e) (pk_SrcIP p))) (dt_hostScanSeen e) \<rparr>"

definition ports_seen :: "detector \<Rightarrow> string \<Rightarrow> string \<Rightarrow> (int, time) gomap" where
  "ports_seen e src dst = (case mget (dt_portScanSeen e) src of Some m \<Rightarrow> inner_map m dst | None \<Rightarrow> [])"

definition note_port :: "packet \<Rightarrow> time \<Rightarrow> detector \<Rightarrow> detector" where
  "note_port p now e =
     (if pk_DstPort p > 0 then
        let outer = inner_map (dt_portScanSeen e) (pk_SrcIP p);
            ps = touch_entry (\<lambda>t. time_sub now t > dt_reconWindow e) (int (unat (pk_DstPort p))) now (inner_map outer (pk_DstIP p))
        in e\<lparr> dt_portScanSeen := mput (pk_SrcIP p) (mput (pk_DstIP p) ps outer) (dt_portScanSeen e) \<rparr>
      else e)"

definition scan_class :: "packet \<Rightarrow> string" where
  "scan_class p =
     (let flags = to_upper (pk_TCPFlags p)
      in if go_contains (to_lower (pk_IPProtocol p)) ''icmp'' \<or> go_contains (to_lower (pk_L4Protocol p)) ''icmp'' then ''icmp_sweep''
         else if pk_L4Protocol p = ''TCP'' \<and> go_contains flags ''SYN'' \<and> \<not> go_contains flags ''ACK'' then ''tcp_syn_scan''
         else if pk_L4Protocol p = ''TCP'' then ''tcp_connect_scan''
         else if pk_L4Protocol p = ''UDP'' then ''udp_service_scan''
         else ''host_scan'')"

definition multicast_target :: "packet \<Rightarrow> bool" where
  "multicast_target p \<longleftrightarrow> (case parse_ip (pk_DstIP p) of Some a \<Rightarrow> ip_multicast a | None \<Rightarrow> False)"

text \<open>A packet to a group: the class, the number of such packets in the window.\<close>

definition special_signal :: "bool \<Rightarrow> string \<Rightarrow> packet \<Rightarrow> time \<Rightarrow> string \<times> int \<times> detector \<Rightarrow> string \<times> int \<times> detector" where
  "special_signal applies cls p now s =
     (case s of (c, n, e) \<Rightarrow>
        if \<not> applies then (c, n, e)
        else if routineDiscoveryTraffic p then (cls, n, e)
        else let (n', e') = reconSignal (pk_SrcIP p) cls now e in (cls, n', e'))"

definition classify_scan :: "packet \<Rightarrow> time \<Rightarrow> int \<Rightarrow> detector \<Rightarrow> string \<times> int \<times> detector" where
  "classify_scan p now host_count e =
     (let s1 = special_signal (multicast_target p) ''multicast_discovery'' p now (scan_class p, 0, e);
          s2 = special_signal (pk_DstIP p = ''255.255.255.255'' \<or> (groupDestination p \<and> \<not> multicast_target p)) ''broadcast_discovery'' p now s1
      in case s2 of (c, n, e1) \<Rightarrow>
           (case mget otServicePorts (pk_DstPort p) of
              Some proto \<Rightarrow> (if host_count \<ge> max 5 (go_div (dt_hostScanThreshold e) 2) then ''ot_protocol_discovery_'' @ proto else c, n, e1)
            | None \<Rightarrow> (c, n, e1)))"

definition isTrustedDiscoveryRole :: "string \<Rightarrow> bool" where
  "isTrustedDiscoveryRole role =
     role_has [''scanner'', ''monitoring'', ''nms'', ''vulnerability'', ''discovery'', ''inventory''] (trim_space role)"

definition roleLabel :: "string \<Rightarrow> string" where "roleLabel role = (if trim_space role = [] then ''unclassified'' else role)"

text \<open>The numbers of a finding: distinct hosts and ports, packets to groups.\<close>

record scan_counts =
  sc_hosts :: int
  sc_ports :: int
  sc_special :: int

definition scan_factor :: "detector \<Rightarrow> string \<Rightarrow> int" where
  "scan_factor e src = (if isTrustedDiscoveryRole (context_role (dt_policy e) src) then 4 else 1)"

definition scan_evidence :: "string \<Rightarrow> packet \<Rightarrow> scan_counts \<Rightarrow> detector \<Rightarrow> evidence" where
  "scan_evidence kind p n e =
     (let q = dt_policy e; f = scan_factor e (pk_SrcIP p)
      in [(''scan_type'', E_string kind), (''source_ip'', E_string (pk_SrcIP p)), (''source_role'', E_string (context_role q (pk_SrcIP p))),
          (''source_zone'', E_string (context_zone q (pk_SrcIP p))), (''distinct_hosts'', E_int (sc_hosts n)), (''distinct_ports'', E_int (sc_ports n)),
          (''host_threshold'', E_int (dt_hostScanThreshold e * f)), (''port_threshold'', E_int (dt_portScanThreshold e * f)),
          (''discovery_threshold'', E_int (40 * f)), (''routine_discovery'', E_bool (routineDiscoveryTraffic p)),
          (''window'', E_string (duration_text (dt_reconWindow e))), (''latest_target'', E_string (pk_DstIP p)), (''latest_port'', E_u16 (pk_DstPort p))])"

definition scanner_text :: "packet \<Rightarrow> detector \<Rightarrow> string" where
  "scanner_text p e = pk_SrcIP p @ '' ('' @ roleLabel (context_role (dt_policy e) (pk_SrcIP p)) @ '')''"

definition raise_scan :: "time \<Rightarrow> string \<Rightarrow> string \<Rightarrow> string \<Rightarrow> packet \<Rightarrow> scan_counts \<Rightarrow> detector \<Rightarrow> detector" where
  "raise_scan clk key msg kind p n e =
     raise clk AlertReconnaissance AlertReconnaissance ''high'' key msg (pk_SrcIP p) (scan_evidence kind p n e) (observed_time clk p) (dt_reconWindow e) e"

definition raise_discovery :: "time \<Rightarrow> string \<Rightarrow> packet \<Rightarrow> scan_counts \<Rightarrow> detector \<Rightarrow> detector" where
  "raise_discovery clk cls p n e =
     raise_scan clk (''recon|'' @ cls @ ''|'' @ pk_SrcIP p)
       (scanner_text p e @ '' generated '' @ itoa (sc_special n) @ '' '' @ cls @ '' packets within '' @ duration_text (dt_reconWindow e)) cls p n e"

definition raise_host_scan :: "time \<Rightarrow> string \<Rightarrow> packet \<Rightarrow> scan_counts \<Rightarrow> detector \<Rightarrow> detector" where
  "raise_host_scan clk cls p n e =
     raise_scan clk (''hostscan|'' @ cls @ ''|'' @ pk_SrcIP p)
       (scanner_text p e @ '' contacted '' @ itoa (sc_hosts n) @ '' distinct hosts within '' @ duration_text (dt_reconWindow e) @ '' '' @ em_dash @ '' '' @ cls) cls p n e"

definition port_scan_kind :: "packet \<Rightarrow> string" where
  "port_scan_kind p =
     (if pk_L4Protocol p = ''TCP'' \<and> go_contains (to_upper (pk_TCPFlags p)) ''SYN'' then ''tcp_syn_port_scan''
      else if pk_L4Protocol p = ''UDP'' then ''udp_port_scan'' else ''port_scan'')"

definition raise_port_scan :: "time \<Rightarrow> packet \<Rightarrow> scan_counts \<Rightarrow> detector \<Rightarrow> detector" where
  "raise_port_scan clk p n e =
     (let kind = port_scan_kind p
      in raise_scan clk (''portscan|'' @ kind @ ''|'' @ pk_SrcIP p @ ''|'' @ pk_DstIP p)
           (scanner_text p e @ '' contacted '' @ itoa (sc_ports n) @ '' distinct ports on '' @ pk_DstIP p @ '' within '' @
            duration_text (dt_reconWindow e) @ '' '' @ em_dash @ '' '' @ kind) kind p n e)"

definition report_scan :: "time \<Rightarrow> string \<Rightarrow> packet \<Rightarrow> scan_counts \<Rightarrow> detector \<Rightarrow> detector" where
  "report_scan clk cls p n e =
     (let f = scan_factor e (pk_SrcIP p)
      in if sc_special n \<ge> 40 * f then raise_discovery clk cls p n e
         else
           let e1 = (if sc_hosts n \<ge> dt_hostScanThreshold e * f then raise_host_scan clk cls p n e else e)
           in if sc_ports n \<ge> dt_portScanThreshold e * f then raise_port_scan clk p n e1 else e1)"

definition note_scan :: "packet \<Rightarrow> time \<Rightarrow> detector \<Rightarrow> string \<times> scan_counts \<times> detector" where
  "note_scan p now e =
     (let e1 = note_port p now (note_host p now e);
          hosts = int (length (inner_map (dt_hostScanSeen e1) (pk_SrcIP p)));
          ports = (if pk_DstPort p > 0 then int (length (ports_seen e1 (pk_SrcIP p) (pk_DstIP p))) else 0);
          (cls, special, e2) = classify_scan p now hosts e1
      in (cls, \<lparr> sc_hosts = hosts, sc_ports = ports, sc_special = special \<rparr>, e2))"

definition handleReconnaissance :: "time \<Rightarrow> packet \<Rightarrow> detector \<Rightarrow> detector" where
  "handleReconnaissance clk p e =
     (if \<not> dt_reconnaissanceEnabled e \<or> pk_SrcIP p = [] \<or> pk_DstIP p = [] then e
      else
        let (cls, n, e1) = note_scan p (observed_time clk p) e
        in if behaviorDetectionsSuppressed e1 then e1 else report_scan clk cls p n e1)"

section \<open>Lateral movement\<close>

definition isAdminPort :: "detector \<Rightarrow> u16 \<Rightarrow> bool" where "isAdminPort e port \<longleftrightarrow> port \<in> set (lc_AdminPorts (dt_lateral e))"

definition raiseLateral :: "time \<Rightarrow> string \<Rightarrow> string \<Rightarrow> string \<Rightarrow> u16 \<Rightarrow> int \<Rightarrow> string \<Rightarrow> evidence \<Rightarrow> detector \<Rightarrow> detector" where
  "raiseLateral clk kind src dst port score msg v e =
     raise clk AlertLateralMovement AlertLateralMovement (if score \<ge> 90 then ''critical'' else ''high'')
       (if kind = ''admin_fanout'' then ''lateral|'' @ kind @ ''|'' @ src
        else ''lateral|'' @ kind @ ''|'' @ src @ ''|'' @ dst @ ''|'' @ dec (unat port))
       msg src (mput ''destination_ip'' (E_string dst) (mput ''source_ip'' (E_string src) (mput ''signal'' (E_string kind) v)))
       clk (lc_Window (dt_lateral e)) e"

text \<open>The window of a transfer starts anew when the last packet is too long ago.\<close>

definition lateral_transfer :: "duration \<Rightarrow> time \<Rightarrow> int \<Rightarrow> packet_window option \<Rightarrow> packet_window" where
  "lateral_transfer window now len w0 =
     (let fresh = \<lparr> pw_FirstSeen = now, pw_LastSeen = 0, pw_Bytes = 0 \<rparr>;
          w = (case w0 of Some w \<Rightarrow> if time_sub now (pw_LastSeen w) > window then fresh else w | None \<Rightarrow> fresh)
      in w\<lparr> pw_LastSeen := now, pw_Bytes := pw_Bytes w + of_int (max len 0) \<rparr>)"

text \<open>The sources that administered \<open>src\<close> shortly before it administered \<open>dst\<close>; \<open>ks\<close> is the order of the map.\<close>

definition pivots :: "string list \<Rightarrow> duration \<Rightarrow> time \<Rightarrow> string \<Rightarrow> (string, time) gomap \<Rightarrow> string list" where
  "pivots ks window now dst incoming =
     filter (\<lambda>origin. case mget incoming origin of Some t \<Rightarrow> origin \<noteq> dst \<and> time_sub now t \<le> window | None \<Rightarrow> False) ks"

definition note_lateral :: "packet \<Rightarrow> time \<Rightarrow> detector \<Rightarrow> detector" where
  "note_lateral p now e =
     (let src = pk_SrcIP p; dst = pk_DstIP p; window = lc_Window (dt_lateral e); key = relationKey src dst (pk_DstPort p)
      in e\<lparr> dt_lateralFanout := mput src (touch_entry (\<lambda>t. t < now - window) dst now (inner_map (dt_lateralFanout e) src)) (dt_lateralFanout e),
            dt_lateralTransfers := mput key (lateral_transfer window now (pk_Length p) (mget (dt_lateralTransfers e) key)) (dt_lateralTransfers e),
            dt_lateralInboundAdmin := mput dst (mput src now (inner_map (dt_lateralInboundAdmin e) dst)) (dt_lateralInboundAdmin e) \<rparr>)"

definition lateral_evidence :: "int \<Rightarrow> int \<Rightarrow> evidence" where
  "lateral_evidence score confidence = [(''lateral_movement_score'', E_int score), (''lateral_movement_confidence'', E_int confidence)]"

definition raise_fanout :: "time \<Rightarrow> packet \<Rightarrow> nat \<Rightarrow> detector \<Rightarrow> detector" where
  "raise_fanout clk p n e =
     raiseLateral clk ''admin_fanout'' (pk_SrcIP p) (pk_DstIP p) (pk_DstPort p) 85
       (pk_SrcIP p @ '' contacted '' @ dec n @ '' internal hosts over administrative services within '' @ duration_text (lc_Window (dt_lateral e)))
       (lateral_evidence 85 80 @ [(''fanout_hosts'', E_int (int n)), (''destination_port'', E_u16 (pk_DstPort p))]) e"

definition raise_admin_transfer :: "time \<Rightarrow> packet \<Rightarrow> u64 \<Rightarrow> detector \<Rightarrow> detector" where
  "raise_admin_transfer clk p n e =
     raiseLateral clk ''large_admin_transfer'' (pk_SrcIP p) (pk_DstIP p) (pk_DstPort p) 75
       (pk_SrcIP p @ '' transferred at least '' @ dec (unat n) @ '' bytes to '' @ pk_DstIP p @ '' over administrative port '' @ dec (unat (pk_DstPort p)))
       (lateral_evidence 75 65 @ [(''bytes'', E_u64 n), (''destination_port'', E_u16 (pk_DstPort p))]) e"

text \<open>The arrow of the messages in UTF-8.\<close>

definition arrow_text :: string where "arrow_text = [CHR '' '', CHR 0xE2, CHR 0x86, CHR 0x92, CHR '' '']"

definition raise_pivot :: "time \<Rightarrow> packet \<Rightarrow> string \<Rightarrow> detector \<Rightarrow> detector" where
  "raise_pivot clk p origin e =
     raiseLateral clk ''sequential_pivot'' (pk_SrcIP p) (pk_DstIP p) (pk_DstPort p) 90
       (''observed sequential administrative pivot '' @ origin @ arrow_text @ pk_SrcIP p @ arrow_text @ pk_DstIP p)
       (lateral_evidence 90 80 @ [(''origin_ip'', E_string origin), (''pivot_ip'', E_string (pk_SrcIP p)), (''destination_ip'', E_string (pk_DstIP p)),
          (''destination_port'', E_u16 (pk_DstPort p))]) e"

definition report_lateral :: "string list \<Rightarrow> time \<Rightarrow> packet \<Rightarrow> time \<Rightarrow> detector \<Rightarrow> detector" where
  "report_lateral ks clk p now e =
     (let src = pk_SrcIP p; c = dt_lateral e;
          n = length (inner_map (dt_lateralFanout e) src);
          bytes = (case mget (dt_lateralTransfers e) (relationKey src (pk_DstIP p) (pk_DstPort p)) of Some w \<Rightarrow> pw_Bytes w | None \<Rightarrow> 0);
          e1 = (if int n \<ge> lc_FanOutThreshold c then raise_fanout clk p n e else e);
          e2 = (if bytes \<ge> lc_LargeTransferBytes c then raise_admin_transfer clk p bytes e1 else e1)
      in fold (raise_pivot clk p) (pivots ks (lc_PivotWindow c) now (pk_DstIP p) (inner_map (dt_lateralInboundAdmin e) src)) e2)"

definition handleLateralMovement :: "string list \<Rightarrow> time \<Rightarrow> packet \<Rightarrow> detector \<Rightarrow> detector" where
  "handleLateralMovement ks clk p e =
     (if pk_SrcIP p = [] \<or> pk_DstIP p = [] \<or> \<not> isPrivateIP (pk_SrcIP p) \<or> \<not> isPrivateIP (pk_DstIP p) \<or> pk_SrcIP p = pk_DstIP p \<or>
         \<not> isAdminPort e (pk_DstPort p) then e
      else
        let now = observed_time clk p; e1 = note_lateral p now e
        in if behaviorDetectionsSuppressed e1 then e1 else report_lateral ks clk p now e1)"

section \<open>SMB\<close>

definition smb_evidence :: "smb_obs \<Rightarrow> evidence" where
  "smb_evidence s =
     [(''smb_command'', E_string (so_Command s)), (''share_name'', E_string (so_ShareName s)), (''file_name'', E_string (so_FileName s)),
      (''named_pipe'', E_string (so_NamedPipe s)), (''bytes'', E_u64 (so_Bytes s)), (''message_id'', E_u64 (so_MessageID s)),
      (''session_id'', E_u64 (so_SessionID s)), (''tree_id'', E_u64 (ucast (so_TreeID s))), (''smb_encrypted'', E_bool (so_IsEncrypted s)),
      (''source_ip'', E_string (so_ClientIP s)), (''destination_ip'', E_string (so_ServerIP s))]"

definition execution_pipe :: "string \<Rightarrow> bool" where
  "execution_pipe name = (let pipe = to_lower name in pipe \<noteq> [] \<and> (\<exists>w \<in> set [''svcctl'', ''psexesvc'', ''atsvc'', ''winreg'']. go_contains pipe w))"

text \<open>The severity, the signal and the message of a suspicious observation; a later test overrides an earlier one.\<close>

definition smb_signal :: "smb_obs \<Rightarrow> (string \<times> string \<times> string) option" where
  "smb_signal s =
     (if execution_pipe (so_NamedPipe s)
      then Some (''critical'', ''suspicious_named_pipe'',
        so_ClientIP s @ '' accessed suspicious SMB named pipe '' @ so_NamedPipe s @ '' on '' @ so_ServerIP s)
      else if so_Command s = ''write'' \<and> so_IsScript s
      then Some (''high'', ''remote_script_write'', so_ClientIP s @ '' wrote script '' @ so_FileName s @ '' to '' @ so_ServerIP s @ '' over SMB'')
      else if so_Command s = ''write'' \<and> so_IsExecutable s
      then Some (''critical'', ''remote_executable_write'',
        so_ClientIP s @ '' wrote executable '' @ so_FileName s @ '' to '' @ so_ServerIP s @ '' over SMB'')
      else None)"

definition smb_time :: "time \<Rightarrow> smb_obs \<Rightarrow> time" where
  "smb_time clk s = (if is_zero_time (so_Timestamp s) then clk else so_Timestamp s)"

definition smb_packet :: "time \<Rightarrow> smb_obs \<Rightarrow> packet" where
  "smb_packet clk s = zero_packet\<lparr> pk_SrcIP := so_ClientIP s, pk_DstIP := so_ServerIP s, pk_SrcPort := so_ClientPort s,
     pk_DstPort := so_ServerPort s, pk_L4Protocol := ''TCP'', pk_Timestamp := smb_time clk s \<rparr>"

definition smb_pair :: "smb_obs \<Rightarrow> string" where "smb_pair s = so_ClientIP s @ ''|'' @ so_ServerIP s"

definition report_smb_tool :: "time \<Rightarrow> smb_obs \<Rightarrow> detector \<Rightarrow> detector" where
  "report_smb_tool clk s e =
     (case smb_signal s of
        None \<Rightarrow> e
      | Some (severity, signal, msg) \<Rightarrow>
          raise clk ''builtin.smb_tool_transfer'' AlertSMBToolTransfer severity (''smb-tool|'' @ signal @ ''|'' @ smb_pair s) msg (so_ClientIP s)
            (mput ''signal'' (E_string signal) (smb_evidence s)) (smb_time clk s) alertEpisodeGap
            (excludePacketFromLearning clk (smb_packet clk s) ''suspicious SMB tool/remote-execution activity'' e))"

definition signalled_evidence :: "smb_obs \<Rightarrow> evidence" where
  "signalled_evidence s =
     (case smb_signal s of Some (severity, signal, msg) \<Rightarrow> mput ''signal'' (E_string signal) (smb_evidence s) | None \<Rightarrow> smb_evidence s)"

text \<open>The score, the confidence, the signal and the message for lateral movement.\<close>

definition smb_lateral :: "u64 \<Rightarrow> smb_obs \<Rightarrow> (int \<times> int \<times> string \<times> string) option" where
  "smb_lateral threshold s =
     (case smb_signal s of
        Some (severity, signal, msg) \<Rightarrow> Some (95, 90, signal, msg)
      | None \<Rightarrow>
          if so_Command s = ''tree_connect'' \<and> so_IsAdminShare s
          then Some (80, 85, ''admin_share_access'',
            so_ClientIP s @ '' accessed administrative SMB share '' @ so_ShareName s @ '' on '' @ so_ServerIP s)
          else if so_Command s = ''write'' \<and> so_Bytes s \<ge> threshold
          then Some (75, 75, ''large_smb_write'',
            so_ClientIP s @ '' wrote at least '' @ dec (unat (so_Bytes s)) @ '' bytes to '' @ so_ServerIP s @ '' over SMB'')
          else None)"

definition report_smb_lateral :: "time \<Rightarrow> u64 \<Rightarrow> smb_obs \<Rightarrow> detector \<Rightarrow> detector" where
  "report_smb_lateral clk threshold s e =
     (case smb_lateral threshold s of
        Some (score, confidence, signal, msg) \<Rightarrow>
          if lc_Enabled (dt_lateral e)
          then raiseLateral clk signal (so_ClientIP s) (so_ServerIP s) 445 score msg
                 (mput ''lateral_movement_confidence'' (E_int confidence) (mput ''lateral_movement_score'' (E_int score) (signalled_evidence s))) e
          else e
      | None \<Rightarrow> e)"

definition report_smb_ot :: "time \<Rightarrow> u64 \<Rightarrow> smb_obs \<Rightarrow> detector \<Rightarrow> detector" where
  "report_smb_ot clk threshold s e =
     (let ot = isOTAsset (dt_policy e) (so_ServerIP s);
          e1 = (case smb_signal s of
                  Some (severity, signal, msg) \<Rightarrow>
                    if ot then raise clk ''builtin.smb_into_ot'' AlertSMBIntoOT ''high'' (''smb-ot|'' @ smb_pair s)
                           (''SMB '' @ signal @ '' activity from '' @ so_ClientIP s @ '' reached OT asset '' @ so_ServerIP s) (so_ClientIP s)
                           (signalled_evidence s) (smb_time clk s) alertEpisodeGap e
                    else e
                | None \<Rightarrow> e)
      in if ot \<and> so_Command s = ''write'' \<and> so_Bytes s \<ge> threshold
         then raise clk ''builtin.large_controller_transfer'' AlertLargeControllerTransfer ''high'' (''controller-smb-transfer|'' @ smb_pair s)
                (''Large SMB transfer ('' @ dec (unat (so_Bytes s)) @ '' bytes) from '' @ so_ClientIP s @ '' to OT asset '' @ so_ServerIP s)
                (so_ClientIP s) (signalled_evidence s) (smb_time clk s) (30 * minute) e1
         else e1)"

definition handleSMBObservation :: "time \<Rightarrow> smb_obs \<Rightarrow> detector \<Rightarrow> detector" where
  "handleSMBObservation clk s e =
     (if so_IsEncrypted s then e
      else let threshold = transfer_threshold e
           in report_smb_ot clk threshold s (report_smb_lateral clk threshold s (report_smb_tool clk s e)))"

section \<open>Matches of indicators\<close>

definition raiseThreatAlert :: "time \<Rightarrow> string \<Rightarrow> string \<Rightarrow> string \<Rightarrow> indicator \<Rightarrow> string \<Rightarrow> detector \<Rightarrow> detector" where
  "raiseThreatAlert clk kind local matched i label e =
     raise clk kind kind (if in_Confidence i \<ge> 90 then ''critical'' else if in_Confidence i < 60 then ''medium'' else ''high'')
       (kind @ ''|'' @ local @ ''|'' @ matched)
       (local @ '' observed '' @ label @ '' matching threat-intelligence indicator '' @ matched @ '' ('' @ in_Provider i @ '', confidence '' @
        itoa (in_Confidence i) @ ''%)'')
       local
       [(''indicator_type'', E_string (in_Type i)), (''indicator_value'', E_string (in_Value i)), (''provider'', E_string (in_Provider i)),
        (''threat_type'', E_string (in_ThreatType i)), (''threat_intel_confidence'', E_int (in_Confidence i)), (''matched'', E_string matched)]
       clk alertEpisodeGap e"

definition threat_candidate :: "time \<Rightarrow> intel \<Rightarrow> packet \<Rightarrow> string \<times> string \<Rightarrow> detector \<Rightarrow> detector" where
  "threat_candidate clk ti p c e =
     (case MatchIP clk (fst c) ti of
        None \<Rightarrow> e
      | Some i \<Rightarrow> raiseThreatAlert clk AlertMaliciousIP (snd c) (fst c) i ''IP'' (excludePacketFromLearning clk p ''threat-intelligence IP match'' e))"

definition handleThreatIP :: "time \<Rightarrow> intel \<Rightarrow> packet \<Rightarrow> detector \<Rightarrow> detector" where
  "handleThreatIP clk ti p e =
     (if pk_SrcIP p = [] \<or> pk_DstIP p = [] then e
      else threat_candidate clk ti p (pk_DstIP p, pk_SrcIP p) (threat_candidate clk ti p (pk_SrcIP p, pk_DstIP p) e))"

fun first_hit :: "('a \<Rightarrow> 'b option) \<Rightarrow> 'a list \<Rightarrow> ('a \<times> 'b) option" where
  "first_hit f [] = None"
| "first_hit f (x # xs) = (case f x of Some y \<Rightarrow> Some (x, y) | None \<Rightarrow> first_hit f xs)"

definition handleThreatDomain :: "time \<Rightarrow> intel \<Rightarrow> observation \<Rightarrow> detector \<Rightarrow> detector" where
  "handleThreatDomain clk ti o' e =
     (case first_hit (\<lambda>v. MatchDomain clk v ti) (ob_QueryName o' # ob_CNAMEs o') of
        Some (v, i) \<Rightarrow> raiseThreatAlert clk AlertMaliciousDomain (ob_ClientIP o') v i ''domain'' e
      | None \<Rightarrow>
          (case first_hit (\<lambda>ip. MatchIP clk ip ti) (ob_Answers o') of
             Some (ip, i) \<Rightarrow> raiseThreatAlert clk AlertMaliciousIP (ob_ClientIP o') ip i ''DNS answer IP'' e
           | None \<Rightarrow> e))"

end
