(* ===== verification/Detect_Beacon.thy ===== *)
theory Detect_Beacon
  imports Detect_Recon
begin

text \<open>
  internal/detect, the detectors of command and control: c2beacon.go (regular connections),
  c2_correlation.go (names that look generated), dns_tunnel.go (data in names).  Means and ratios are
  exact in rational numbers; the square root is rounded to 53 bits as in float64.
\<close>

section \<open>Square root\<close>

text \<open>The integer square root, bit by bit from \<open>2 ^ k\<close> down.\<close>

fun isqrt_bits :: "nat \<Rightarrow> int \<Rightarrow> int \<Rightarrow> int" where
  "isqrt_bits 0 x r = (if (r + 1) * (r + 1) \<le> x then r + 1 else r)"
| "isqrt_bits (Suc k) x r = isqrt_bits k x (if (r + 2 ^ Suc k) * (r + 2 ^ Suc k) \<le> x then r + 2 ^ Suc k else r)"

text \<open>\<open>\<lfloor>log2 q\<rfloor>\<close> of a positive rational.\<close>

function log2_int :: "int \<Rightarrow> int" where
  "log2_int x = (if x < 2 then 0 else 1 + log2_int (x div 2))"
  by pat_completeness auto
termination by (relation "measure nat") auto

definition floor_log2 :: "rat \<Rightarrow> int" where
  "floor_log2 q = (if q \<ge> 1 then log2_int \<lfloor>q\<rfloor> else - (log2_int (\<lceil>1 / q\<rceil> - 1) + 1))"

definition scale2 :: "int \<Rightarrow> rat" where "scale2 k = (if k \<ge> 0 then 2 ^ nat k else 1 / 2 ^ nat (- k))"

definition go_sqrt :: "rat \<Rightarrow> rat" where
  "go_sqrt q =
     (if q \<le> 0 then 0
      else
        let k = 52 - floor_log2 q div 2; x = q * scale2 (2 * k); r = isqrt_bits 53 \<lfloor>x\<rfloor> 0
        in of_int (if (of_int r + 1 / 2) * (of_int r + 1 / 2) \<le> x then r + 1 else r) / scale2 k)"

section \<open>Beacons\<close>

definition maxBeaconSamplesPerKey :: nat where "maxBeaconSamplesPerKey = 20"

fun intervals :: "time list \<Rightarrow> rat list" where
  "intervals (s # t # ts) = of_int (time_sub t s) / of_int second # intervals (t # ts)"
| "intervals _ = []"

definition average :: "rat list \<Rightarrow> rat" where "average xs = sum_list xs / of_nat (length xs)"

definition variance :: "rat list \<Rightarrow> rat" where
  "variance xs = average (map (\<lambda>v. (v - average xs) * (v - average xs)) xs)"

text \<open>The mean interval and the coefficient of variation.\<close>

definition beaconRegularity :: "time list \<Rightarrow> (duration \<times> rat) option" where
  "beaconRegularity samples =
     (if length samples < 3 then None
      else
        let xs = intervals samples; m = average xs
        in if m \<le> 0 then None else Some (go_trunc (m * of_int second), go_sqrt (variance xs) / m))"

text \<open>The key that was touched first, in the order of the map.\<close>

fun oldest_key :: "(string \<times> time) list \<Rightarrow> (string \<times> time) option" where
  "oldest_key [] = None"
| "oldest_key (x # xs) = (case oldest_key xs of Some y \<Rightarrow> if snd y < snd x then Some y else Some x | None \<Rightarrow> Some x)"

definition evictOldestBeacon :: "detector \<Rightarrow> detector" where
  "evictOldestBeacon e =
     (case oldest_key (dt_beaconLastTouch e) of
        Some (k, t) \<Rightarrow> if k \<noteq> [] then e\<lparr> dt_beaconHistory := mdel k (dt_beaconHistory e), dt_beaconLastTouch := mdel k (dt_beaconLastTouch e) \<rparr> else e
      | None \<Rightarrow> e)"

definition note_beacon :: "string \<Rightarrow> time \<Rightarrow> detector \<Rightarrow> detector" where
  "note_beacon key now e0 =
     (let e = (if mget (dt_beaconHistory e0) key = None \<and> int (length (dt_beaconHistory e0)) \<ge> dt_c2BeaconMaxTrackedDests e0
               then evictOldestBeacon e0 else e0)
      in e\<lparr> dt_beaconHistory := mput key (last_n maxBeaconSamplesPerKey (times_of (dt_beaconHistory e) key @ [now])) (dt_beaconHistory e),
            dt_beaconLastTouch := mput key now (dt_beaconLastTouch e) \<rparr>)"

definition regular_beacon :: "detector \<Rightarrow> time list \<Rightarrow> (duration \<times> rat) option" where
  "regular_beacon e samples =
     (if int (length samples) < dt_c2BeaconMinSamples e then None
      else case beaconRegularity samples of
             Some (mean, cv) \<Rightarrow>
               if mean < dt_c2BeaconMinInterval e \<or> mean > dt_c2BeaconMaxInterval e \<or> cv > dt_c2BeaconMaxCV e then None else Some (mean, cv)
           | None \<Rightarrow> None)"

definition beacon_score :: "detector \<Rightarrow> rat \<Rightarrow> indicator option \<Rightarrow> int" where
  "beacon_score e cv hit =
     (let score = 60 + min 25 (go_trunc ((dt_c2BeaconMaxCV e - cv) * 100))
      in case hit of Some i \<Rightarrow> min 100 (score + 40) | None \<Rightarrow> score)"

definition beacon_evidence :: "detector \<Rightarrow> packet \<Rightarrow> duration \<Rightarrow> rat \<Rightarrow> indicator option \<Rightarrow> evidence" where
  "beacon_evidence e p mean cv hit =
     (let signals = ''regular_connection_interval'' # (case hit of Some i \<Rightarrow> [''threat_intel_match''] | None \<Rightarrow> [])
      in [(''c2_score'', E_int (beacon_score e cv hit)), (''c2_confidence'', E_int (min 95 (65 + int (length signals) * 10))),
          (''c2_signals'', E_strings signals), (''mean_interval_seconds'', E_float (of_int mean / of_int second)),
          (''coefficient_of_variation'', E_float cv), (''destination_ip'', E_string (pk_DstIP p)), (''destination_port'', E_u16 (pk_DstPort p))] @
         (case hit of
            Some i \<Rightarrow> [(''threat_intel_provider'', E_string (in_Provider i)), (''threat_intel_confidence'', E_int (in_Confidence i))]
          | None \<Rightarrow> []))"

definition raiseC2BeaconAlert :: "time \<Rightarrow> intel option \<Rightarrow> packet \<Rightarrow> duration \<Rightarrow> rat \<Rightarrow> detector \<Rightarrow> detector" where
  "raiseC2BeaconAlert clk ti p mean cv e =
     (let hit = (case ti of Some m \<Rightarrow> MatchIP clk (pk_DstIP p) m | None \<Rightarrow> None)
      in raise clk AlertC2Beacon AlertC2Beacon (if beacon_score e cv hit \<ge> 85 then ''critical'' else ''high'') (port_pair p)
           (pk_SrcIP p @ '' connects to '' @ endpoint (pk_DstIP p) (pk_DstPort p) @ '' at a suspiciously regular ~'' @
            duration_text (round_duration mean second) @ '' interval ('' @ fixed_text 0 (cv * 100) @ ''% variation) '' @ em_dash @
            '' possible C2 beaconing'')
           (pk_SrcIP p) (beacon_evidence e p mean cv hit) clk alertEpisodeGap e)"

definition handleC2Beacon :: "time \<Rightarrow> intel option \<Rightarrow> packet \<Rightarrow> detector \<Rightarrow> detector" where
  "handleC2Beacon clk ti p e =
     (if \<not> dt_c2BeaconEnabled e \<or> pk_TCPFlags p \<noteq> ''SYN'' \<or> pk_SrcIP p = [] \<or> pk_DstIP p = [] \<or> pk_DstPort p = 0 \<or>
         \<not> isPrivateIP (pk_SrcIP p) \<or> isPrivateIP (pk_DstIP p) then e
      else
        let key = port_pair p; e1 = note_beacon key (pk_Timestamp p) e
        in case regular_beacon e1 (times_of (dt_beaconHistory e1) key) of
             Some (mean, cv) \<Rightarrow> if behaviorDetectionsSuppressed e1 then e1 else raiseC2BeaconAlert clk ti p mean cv e1
           | None \<Rightarrow> e1)"

section \<open>Names that look generated\<close>

definition registrableApprox :: "string \<Rightarrow> string" where
  "registrableApprox name =
     (let p = split_on CHR ''.'' name in if length p < 2 then name else p ! (length p - 2) @ ''.'' @ p ! (length p - 1))"

definition dns_time :: "time \<Rightarrow> observation \<Rightarrow> time" where
  "dns_time clk o' = (if is_zero_time (ob_Timestamp o') then clk else ob_Timestamp o')"

definition query_name :: "observation \<Rightarrow> string" where "query_name o' = trim_suffix (to_lower (ob_QueryName o')) ''.''"

definition note_nxdomain :: "observation \<Rightarrow> time \<Rightarrow> detector \<Rightarrow> detector" where
  "note_nxdomain o' now e =
     (if ob_ResponseCode o' \<noteq> 0
      then e\<lparr> dt_c2NXDomains := mput (ob_ClientIP o') (slide_window now (cc_DNSWindow (dt_c2Correlation e)) (times_of (dt_c2NXDomains e) (ob_ClientIP o')))
                (dt_c2NXDomains e) \<rparr>
      else e)"

definition note_subdomain :: "observation \<Rightarrow> time \<Rightarrow> detector \<Rightarrow> detector" where
  "note_subdomain o' now e =
     e\<lparr> dt_c2Subdomains := mput (ob_ClientIP o')
          (touch_entry (\<lambda>t. t < now - cc_DNSWindow (dt_c2Correlation e)) (query_name o') now (inner_map (dt_c2Subdomains e) (ob_ClientIP o')))
          (dt_c2Subdomains e) \<rparr>"

definition unique_subdomains :: "observation \<Rightarrow> detector \<Rightarrow> nat" where
  "unique_subdomains o' e =
     length (filter (\<lambda>n. registrableApprox n = registrableApprox (query_name o')) (mkeys (inner_map (dt_c2Subdomains e) (ob_ClientIP o'))))"

text \<open>The signals, each with its score.\<close>

definition c2_signals :: "observation \<Rightarrow> indicator option \<Rightarrow> detector \<Rightarrow> (string \<times> int) list" where
  "c2_signals o' hit e =
     (let c = dt_c2Correlation e
      in (if \<exists>l \<in> set (split_on CHR ''.'' (query_name o')). int (length l) \<ge> cc_LongLabelLength c then [(''long_dns_label'', 25)] else []) @
         (if ob_ResponseCode o' \<noteq> 0 \<and> int (length (times_of (dt_c2NXDomains e) (ob_ClientIP o'))) \<ge> cc_NXDomainThreshold c
          then [(''nxdomain_burst'', 35)] else []) @
         (if int (unique_subdomains o' e) \<ge> cc_UniqueSubdomainThreshold c then [(''many_unique_subdomains'', 35)] else []) @
         (case hit of Some i \<Rightarrow> [(''threat_intel_match'', min 50 (go_div (in_Confidence i) 2 + 10))] | None \<Rightarrow> []))"

definition raiseC2Correlated :: "time \<Rightarrow> string \<Rightarrow> string \<Rightarrow> int \<Rightarrow> int \<Rightarrow> string list \<Rightarrow> evidence \<Rightarrow> detector \<Rightarrow> detector" where
  "raiseC2Correlated clk ip target score confidence signals v e =
     raise clk AlertC2Correlated AlertC2Correlated (if score \<ge> 85 then ''critical'' else ''high'') (''c2_correlated|'' @ ip @ ''|'' @ target)
       (''possible C2 activity from '' @ ip @ '' via '' @ target @ '' (score '' @ itoa score @ ''): '' @ join_with '', '' signals) ip
       (v @ [(''c2_score'', E_int score), (''c2_confidence'', E_int confidence), (''c2_signals'', E_strings signals)])
       clk (cc_DNSWindow (dt_c2Correlation e)) e"

definition handleC2DNS :: "time \<Rightarrow> intel option \<Rightarrow> observation \<Rightarrow> detector \<Rightarrow> detector" where
  "handleC2DNS clk ti o' e0 =
     (if ob_ClientIP o' = [] \<or> ob_QueryName o' = [] then e0
      else
        let e = note_subdomain o' (dns_time clk o') (note_nxdomain o' (dns_time clk o') e0);
            hit = (case ti of Some m \<Rightarrow> MatchDomain clk (query_name o') m | None \<Rightarrow> None);
            signals = c2_signals o' hit e; score = sum_list (map snd signals)
        in if behaviorDetectionsSuppressed e \<or> score < cc_MinScore (dt_c2Correlation e) then e
           else raiseC2Correlated clk (ob_ClientIP o') (query_name o') (min 100 score) (min 95 (55 + int (length signals) * 10)) (map fst signals)
                  [(''query_name'', E_string (query_name o')), (''base_domain'', E_string (registrableApprox (query_name o'))),
                   (''unique_subdomains'', E_int (int (unique_subdomains o' e)))] e)"

section \<open>Data in names\<close>

record tunnel_sample =
  ts_At :: time
  ts_Name :: string
  ts_QueryType :: u16
  ts_QueryBytes :: int

record tunnel_state =
  tu_Samples :: "tunnel_sample list"
  tu_Responses :: "(time \<times> int) list"

definition no_tunnel :: tunnel_state where "no_tunnel = \<lparr> tu_Samples = [], tu_Responses = [] \<rparr>"

text \<open>The entropy of a text in bits per character; \<open>lg\<close> is \<open>math.Log2\<close>.\<close>

definition shannonEntropy :: "(rat \<Rightarrow> rat) \<Rightarrow> string \<Rightarrow> rat" where
  "shannonEntropy lg s =
     (let cs = to_lower s; n = of_nat (length cs)
      in sum_list (map (\<lambda>c. let p = of_nat (count_list cs c) / n in - (p * lg p)) (remdups cs)))"

definition longestDNSLabel :: "string \<Rightarrow> string" where
  "longestDNSLabel name = fold (\<lambda>x best. if length x > length best then x else best) (split_on CHR ''.'' (trim_suffix name ''.'')) []"

definition tunnel_rule :: string where "tunnel_rule = ''builtin.dns_tunneling''"

definition maxTunnelSamples :: nat where "maxTunnelSamples = 2000"

text \<open>A query or a response enters its window.\<close>

definition note_tunnel :: "observation \<Rightarrow> time \<Rightarrow> duration \<Rightarrow> tunnel_state \<Rightarrow> tunnel_state" where
  "note_tunnel o' now window st =
     (let name = to_lower (trim_suffix (ob_QueryName o') ''.'');
          samples = (if ob_IsResponse o' then tu_Samples st
                     else tu_Samples st @ [\<lparr> ts_At = now, ts_Name = name, ts_QueryType = ob_QueryType o', ts_QueryBytes = ob_PayloadBytes o' \<rparr>]);
          responses = (if ob_IsResponse o' then tu_Responses st @ [(now, ob_PayloadBytes o')] else tu_Responses st)
      in \<lparr> tu_Samples = last_n maxTunnelSamples (filter (\<lambda>x. \<not> ts_At x < now - window) samples),
           tu_Responses = last_n maxTunnelSamples (filter (\<lambda>x. \<not> fst x < now - window) responses) \<rparr>)"

definition share_of :: "('a \<Rightarrow> bool) \<Rightarrow> 'a list \<Rightarrow> rat" where
  "share_of P xs = of_nat (length (filter P xs)) / of_nat (length xs)"

definition long_label :: "tunnel_sample \<Rightarrow> bool" where "long_label x \<longleftrightarrow> length (longestDNSLabel (ts_Name x)) \<ge> 35"

definition label_entropy :: "(rat \<Rightarrow> rat) \<Rightarrow> tunnel_sample \<Rightarrow> rat" where
  "label_entropy lg x = shannonEntropy lg (longestDNSLabel (ts_Name x))"

definition dense_label :: "(rat \<Rightarrow> rat) \<Rightarrow> tunnel_sample \<Rightarrow> bool" where
  "dense_label lg x \<longleftrightarrow> length (longestDNSLabel (ts_Name x)) \<ge> 20 \<and> label_entropy lg x \<ge> 38 / 10"

definition txt_query :: "tunnel_sample \<Rightarrow> bool" where "txt_query x \<longleftrightarrow> ts_QueryType x = 16"

definition query_bytes :: "tunnel_state \<Rightarrow> int" where "query_bytes st = sum_list (map ts_QueryBytes (tu_Samples st))"
definition response_bytes :: "tunnel_state \<Rightarrow> int" where "response_bytes st = sum_list (map snd (tu_Responses st))"

definition unique_names :: "tunnel_state \<Rightarrow> nat" where "unique_names st = length (remdups (map ts_Name (tu_Samples st)))"

definition mean_of :: "('a \<Rightarrow> rat) \<Rightarrow> 'a list \<Rightarrow> rat" where "mean_of f xs = sum_list (map f xs) / of_nat (length xs)"

definition tunnel_signals :: "(rat \<Rightarrow> rat) \<Rightarrow> tunnel_state \<Rightarrow> (string \<times> int) list" where
  "tunnel_signals lg st =
     (let xs = tu_Samples st; q = query_bytes st; r = response_bytes st
      in (if unique_names st \<ge> 20 then [(''many_unique_names'', 20)] else []) @
         (if share_of long_label xs \<ge> 30 / 100 then [(''long_labels'', 20)] else []) @
         (if share_of (dense_label lg) xs \<ge> 25 / 100 then [(''high_entropy_labels'', 30)] else []) @
         (if share_of txt_query xs \<ge> 30 / 100 then [(''txt_heavy'', 20)] else []) @
         (if mean_of (\<lambda>x. of_nat (length (ts_Name x))) xs \<ge> 45 then [(''long_average_query'', 15)] else []) @
         (if mean_of (\<lambda>x. of_int (ts_QueryBytes x)) xs \<ge> 80 then [(''large_query_payloads'', 15)] else []) @
         (if q \<ge> 4096 \<and> (r = 0 \<or> q > r * 2) then [(''upstream_byte_asymmetry'', 15)] else []) @
         (if r \<ge> 8192 \<and> q > 0 \<and> r > q * 4 \<and> share_of txt_query xs \<ge> 20 / 100 then [(''txt_response_asymmetry'', 10)] else []))"

definition tunnel_evidence :: "(rat \<Rightarrow> rat) \<Rightarrow> duration \<Rightarrow> int \<Rightarrow> tunnel_state \<Rightarrow> observation \<Rightarrow> evidence" where
  "tunnel_evidence lg window threshold st o' =
     (let xs = tu_Samples st; signals = tunnel_signals lg st
      in [(''queries_window'', E_int (int (length xs))), (''responses_window'', E_int (int (length (tu_Responses st)))),
          (''window_seconds'', E_float (of_int window / of_int second)), (''score_threshold'', E_int threshold),
          (''query_bytes_10m'', E_int (query_bytes st)), (''response_bytes_10m'', E_int (response_bytes st)),
          (''average_query_payload_bytes'', E_float (mean_of (\<lambda>x. of_int (ts_QueryBytes x)) xs)),
          (''unique_names'', E_int (int (unique_names st))), (''txt_ratio'', E_float (share_of txt_query xs)),
          (''long_label_ratio'', E_float (share_of long_label xs)), (''high_entropy_ratio'', E_float (share_of (dense_label lg) xs)),
          (''max_label_entropy'', E_float (fold (\<lambda>x m. max m (label_entropy lg x)) xs 0)),
          (''average_query_length'', E_float (mean_of (\<lambda>x. of_nat (length (ts_Name x))) xs)),
          (''signals'', E_strings (map fst signals)), (''score'', E_int (min 100 (sum_list (map snd signals)))),
          (''latest_query'', E_string (to_lower (trim_suffix (ob_QueryName o') ''.'')))])"

definition report_tunnel :: "(rat \<Rightarrow> rat) \<Rightarrow> time \<Rightarrow> time \<Rightarrow> duration \<Rightarrow> int \<Rightarrow> tunnel_state \<Rightarrow> observation \<Rightarrow> detector \<Rightarrow> detector" where
  "report_tunnel lg clk now window threshold st o' e =
     (let signals = tunnel_signals lg st; score = sum_list (map snd signals)
      in if score < threshold \<or> behaviorDetectionsSuppressed e then e
         else raise clk tunnel_rule AlertDNSTunneling ''high'' (''dns-tunnel|'' @ ob_ClientIP o')
                (''Possible DNS tunneling from '' @ ob_ClientIP o' @ '' (score '' @ itoa (min 100 score) @ ''): '' @ join_with '', '' (map fst signals))
                (ob_ClientIP o') (tunnel_evidence lg window threshold st o') now window e)"

definition handleDNSTunnel ::
  "(rat \<Rightarrow> rat) \<Rightarrow> time \<Rightarrow> observation \<Rightarrow> (string, tunnel_state) gomap \<times> detector \<Rightarrow> (string, tunnel_state) gomap \<times> detector" where
  "handleDNSTunnel lg clk o' s =
     (case s of (m, e) \<Rightarrow>
        if ob_ClientIP o' = [] \<or> ob_QueryName o' = [] then (m, e)
        else
          let now = dns_time clk o'; window = window_parameter e tunnel_rule 600 (10 * minute);
              st = note_tunnel o' now window (case mget m (ob_ClientIP o') of Some x \<Rightarrow> x | None \<Rightarrow> no_tunnel);
              m1 = mput (ob_ClientIP o') st m
          in if ob_IsResponse o' \<or> int (length (tu_Samples st)) < count_parameter e tunnel_rule ''min_queries'' 20 then (m1, e)
             else (m1, report_tunnel lg clk now window (count_parameter e tunnel_rule ''score_threshold'' 60) st o' e))"

section \<open>Configuration\<close>

definition or_default :: "bool \<Rightarrow> 'a \<Rightarrow> 'a \<Rightarrow> 'a" where "or_default unset d x = (if unset then d else x)"

definition ConfigureLateralMovement :: "lateral_config \<Rightarrow> detector \<Rightarrow> detector" where
  "ConfigureLateralMovement c e =
     e\<lparr> dt_lateral := \<lparr> lc_Enabled = lc_Enabled c, lc_Window = or_default (lc_Window c \<le> 0) (5 * minute) (lc_Window c),
          lc_FanOutThreshold = or_default (lc_FanOutThreshold c \<le> 0) 5 (lc_FanOutThreshold c),
          lc_LargeTransferBytes = or_default (lc_LargeTransferBytes c = 0) 104857600 (lc_LargeTransferBytes c),
          lc_PivotWindow = or_default (lc_PivotWindow c \<le> 0) (10 * minute) (lc_PivotWindow c),
          lc_AdminPorts = or_default (lc_AdminPorts c = []) [22, 135, 139, 445, 3389, 5985, 5986] (lc_AdminPorts c) \<rparr> \<rparr>"

definition ConfigureC2Correlation :: "c2_config \<Rightarrow> detector \<Rightarrow> detector" where
  "ConfigureC2Correlation c e =
     e\<lparr> dt_c2Correlation := \<lparr> cc_Enabled = cc_Enabled c, cc_MinScore = or_default (cc_MinScore c \<le> 0) 60 (cc_MinScore c),
          cc_DNSWindow = or_default (cc_DNSWindow c \<le> 0) (10 * minute) (cc_DNSWindow c),
          cc_NXDomainThreshold = or_default (cc_NXDomainThreshold c \<le> 0) 20 (cc_NXDomainThreshold c),
          cc_UniqueSubdomainThreshold = or_default (cc_UniqueSubdomainThreshold c \<le> 0) 20 (cc_UniqueSubdomainThreshold c),
          cc_LongLabelLength = or_default (cc_LongLabelLength c \<le> 0) 45 (cc_LongLabelLength c) \<rparr> \<rparr>"

end
