(* ===== verification/Detect_Values.thy ===== *)
theory Detect_Values
  imports Detect_Beacon
begin

text \<open>
  internal/detect/ot_value_anomaly.go: process values that deviate from what was learned, change too
  fast, toggle, or stop changing.  The table of values has its own mutex and is a component of its own
  here; the arithmetic of float64 is exact.
\<close>

record ot_anomaly_config =
  oa_Enabled :: bool
  oa_MinSamples :: int
  oa_ZScoreThreshold :: rat
  oa_RateMultiplier :: rat
  oa_StuckAfter :: duration
  oa_MissingAfter :: duration
  oa_ToggleWindow :: duration
  oa_ToggleThreshold :: int
  oa_UnexpectedWrites :: bool
  oa_CheckInterval :: duration

definition ConfigureOTValueAnomaly :: "ot_anomaly_config \<Rightarrow> ot_anomaly_config" where
  "ConfigureOTValueAnomaly c =
     c\<lparr> oa_MinSamples := or_default (oa_MinSamples c \<le> 0) 20 (oa_MinSamples c),
        oa_ZScoreThreshold := or_default (oa_ZScoreThreshold c \<le> 0) 4 (oa_ZScoreThreshold c),
        oa_RateMultiplier := or_default (oa_RateMultiplier c \<le> 0) 6 (oa_RateMultiplier c),
        oa_StuckAfter := or_default (oa_StuckAfter c \<le> 0) (30 * minute) (oa_StuckAfter c),
        oa_MissingAfter := or_default (oa_MissingAfter c \<le> 0) (10 * minute) (oa_MissingAfter c),
        oa_ToggleWindow := or_default (oa_ToggleWindow c \<le> 0) (5 * minute) (oa_ToggleWindow c),
        oa_ToggleThreshold := or_default (oa_ToggleThreshold c \<le> 0) 10 (oa_ToggleThreshold c),
        oa_CheckInterval := or_default (oa_CheckInterval c \<le> 0) minute (oa_CheckInterval c) \<rparr>"

record ot_value_state =
  ov_Samples :: u64
  ov_Mean :: rat
  ov_M2 :: rat
  ov_LastValue :: rat
  ov_LastSeen :: time
  ov_LastChange :: time
  ov_TypicalDelta :: rat
  ov_BaselineSamples :: "rat list"
  ov_ToggleTimes :: "time list"
  ov_DeviceIP :: string
  ov_DevicePort :: u16
  ov_AddressSpace :: string
  ov_Address :: u32

type_synonym ot_values = "(string, ot_value_state) gomap"

section \<open>What the message says\<close>

fun numericValue :: "detail \<Rightarrow> rat option" where
  "numericValue (D_int i) = Some (of_int i)"
| "numericValue (D_u8 w) = Some (of_nat (unat w))"
| "numericValue (D_u16 w) = Some (of_nat (unat w))"
| "numericValue (D_u32 w) = Some (of_nat (unat w))"
| "numericValue _ = None"

fun uint32Value :: "detail \<Rightarrow> u32" where
  "uint32Value (D_u32 w) = w"
| "uint32Value (D_u16 w) = ucast w"
| "uint32Value (D_int i) = of_int i"
| "uint32Value _ = 0"

text \<open>\<open>fmt.Sprint\<close> of an entry; a missing one prints as \<open><nil>\<close>.\<close>

definition detail_text :: "ics_message \<Rightarrow> string \<Rightarrow> string" where
  "detail_text m k = sprint (map_option V_wire (mget (im_Details m) k))"

definition value_space :: "ics_message \<Rightarrow> string" where
  "value_space m = (let s = detail_text m ''address_space'' in if s = ''<nil>'' \<or> s = [] then detail_text m ''area'' else s)"

definition value_address :: "ics_message \<Rightarrow> u32" where
  "value_address m = (case mget (im_Details m) ''address'' of Some d \<Rightarrow> uint32Value d | None \<Rightarrow> 0)"

definition value_device :: "ics_message \<Rightarrow> string \<times> u16" where
  "value_device m = (if im_IsResponse m then (im_SrcIP m, im_SrcPort m) else (im_DstIP m, im_DstPort m))"

definition value_key :: "ics_message \<Rightarrow> string" where
  "value_key m =
     im_Protocol m @ ''|'' @ fst (value_device m) @ ''|'' @ dec (unat (snd (value_device m))) @ ''|'' @ dec (unat (im_UnitID m)) @ ''|'' @
     value_space m @ ''|'' @ dec (unat (value_address m))"

section \<open>Statistics\<close>

definition middle :: "rat list \<Rightarrow> rat" where
  "middle xs =
     (let n = length xs
      in if n mod 2 = 0 then (xs ! (n div 2 - 1) + xs ! (n div 2)) / 2 else xs ! (n div 2))"

definition robustValueDistance :: "rat \<Rightarrow> rat list \<Rightarrow> rat \<times> rat" where
  "robustValueDistance value samples =
     (if samples = [] then (0, 0)
      else
        let m = middle (sort samples); mad = middle (sort (map (\<lambda>v. \<bar>v - m\<bar>) samples))
        in if mad > 0 then (\<bar>value - m\<bar> / (14826 / 10000 * mad), m) else (\<bar>value - m\<bar> / max 1 (\<bar>m\<bar> * (2 / 100)), m))"

definition new_value_state :: "ics_message \<Rightarrow> rat \<Rightarrow> time \<Rightarrow> ot_value_state" where
  "new_value_state m v now =
     \<lparr> ov_Samples = 0, ov_Mean = 0, ov_M2 = 0, ov_LastValue = v, ov_LastSeen = now, ov_LastChange = now, ov_TypicalDelta = 0,
       ov_BaselineSamples = [], ov_ToggleTimes = [], ov_DeviceIP = fst (value_device m), ov_DevicePort = snd (value_device m),
       ov_AddressSpace = value_space m, ov_Address = value_address m \<rparr>"

definition value_changed :: "rat \<Rightarrow> ot_value_state \<Rightarrow> bool" where
  "value_changed v st \<longleftrightarrow> ov_Samples st > 0 \<and> ov_LastValue st \<noteq> v"

definition learn_delta :: "rat \<Rightarrow> ot_value_state \<Rightarrow> rat" where
  "learn_delta d st = (if ov_TypicalDelta st = 0 then d else 9 / 10 * ov_TypicalDelta st + 1 / 10 * d)"

definition note_change :: "bool \<Rightarrow> rat \<Rightarrow> time \<Rightarrow> ot_value_state \<Rightarrow> ot_value_state" where
  "note_change learning v now st =
     (if value_changed v st
      then st\<lparr> ov_LastChange := now, ov_ToggleTimes := ov_ToggleTimes st @ [now],
               ov_TypicalDelta := (if learning then learn_delta \<bar>v - ov_LastValue st\<bar> st else ov_TypicalDelta st) \<rparr>
      else st)"

text \<open>Welford's running mean, and the reservoir of 128 samples.\<close>

definition learn_value :: "rat \<Rightarrow> ot_value_state \<Rightarrow> ot_value_state" where
  "learn_value v st =
     (let n = ov_Samples st + 1; d = v - ov_Mean st; m = ov_Mean st + d / of_nat (unat n)
      in st\<lparr> ov_Samples := n, ov_Mean := m, ov_M2 := ov_M2 st + d * (v - m), ov_BaselineSamples := store_sample n v (ov_BaselineSamples st) \<rparr>)"

definition trim_toggles :: "ot_anomaly_config \<Rightarrow> time \<Rightarrow> ot_value_state \<Rightarrow> ot_value_state" where
  "trim_toggles c now st = st\<lparr> ov_ToggleTimes := filter (\<lambda>x. \<not> x < now - oa_ToggleWindow c) (ov_ToggleTimes st) \<rparr>"

definition observe_process_value :: "ot_anomaly_config \<Rightarrow> bool \<Rightarrow> rat \<Rightarrow> time \<Rightarrow> ot_value_state \<Rightarrow> ot_value_state" where
  "observe_process_value c learning v now st =
     (let st1 = trim_toggles c now (note_change learning v now st); st2 = (if learning then learn_value v st1 else st1)
      in st2\<lparr> ov_LastValue := v, ov_LastSeen := now \<rparr>)"

section \<open>Anomalies\<close>

definition raiseOTAnomaly :: "time \<Rightarrow> string \<Rightarrow> string \<Rightarrow> string \<Rightarrow> rat \<Rightarrow> int \<Rightarrow> string \<Rightarrow> evidence \<Rightarrow> detector \<Rightarrow> detector" where
  "raiseOTAnomaly clk kind key ip v confidence reason ev e =
     (if behaviorDetectionsSuppressed e then e
      else raise clk AlertOTValueAnomaly AlertOTValueAnomaly (if confidence \<ge> 85 then ''high'' else ''medium'') (''ot_anomaly|'' @ kind @ ''|'' @ key)
             (''OT value anomaly on '' @ ip @ '': '' @ reason) ip (ev @ [(''anomaly_type'', E_string kind), (''value'', E_float v)])
             clk alertEpisodeGap e)"

definition anomaly_scores :: "int \<Rightarrow> int \<Rightarrow> evidence" where
  "anomaly_scores score confidence = [(''anomaly_score'', E_int score), (''anomaly_confidence'', E_int confidence)]"

definition raise_statistical :: "time \<Rightarrow> string \<Rightarrow> string \<Rightarrow> rat \<Rightarrow> rat \<Rightarrow> rat \<Rightarrow> detector \<Rightarrow> detector" where
  "raise_statistical clk key ip v distance median =
     raiseOTAnomaly clk ''statistical'' key ip v 75
       (''value '' @ fixed_text 3 v @ '' deviates '' @ fixed_text 1 distance @ '' robust MAD units from learned median '' @ fixed_text 3 median)
       (anomaly_scores (min 100 (go_trunc (distance * 15))) 80 @ [(''robust_distance'', E_float distance), (''median'', E_float median)])"

definition raise_rate :: "time \<Rightarrow> string \<Rightarrow> string \<Rightarrow> rat \<Rightarrow> rat \<Rightarrow> rat \<Rightarrow> rat \<Rightarrow> detector \<Rightarrow> detector" where
  "raise_rate clk key ip v delta typical limit =
     raiseOTAnomaly clk ''rate_of_change'' key ip v 80
       (''value changed by '' @ fixed_text 3 delta @ ''; learned typical change is '' @ fixed_text 3 typical)
       (anomaly_scores (min 100 (go_trunc (delta / limit * 70))) 80 @ [(''delta'', E_float delta), (''rate_limit'', E_float limit)])"

definition raise_toggle :: "time \<Rightarrow> duration \<Rightarrow> string \<Rightarrow> string \<Rightarrow> rat \<Rightarrow> int \<Rightarrow> detector \<Rightarrow> detector" where
  "raise_toggle clk window key ip v n =
     raiseOTAnomaly clk ''excessive_toggle'' key ip v 75
       (''tag changed '' @ itoa n @ '' times within '' @ duration_text window)
       (anomaly_scores 80 75 @ [(''toggle_count'', E_int n)])"

text \<open>The reports after an observation: \<open>st0\<close> is the state before it, \<open>st\<close> the state after it.\<close>

definition report_value ::
  "time \<Rightarrow> ot_anomaly_config \<Rightarrow> string \<Rightarrow> string \<Rightarrow> rat \<Rightarrow> ot_value_state \<Rightarrow> ot_value_state \<Rightarrow> detector \<Rightarrow> detector" where
  "report_value clk c key ip v st0 st e =
     (let delta = \<bar>v - ov_LastValue st0\<bar>; limit = ov_TypicalDelta st0 * oa_RateMultiplier c;
          (distance, median) = (if int (length (ov_BaselineSamples st0)) \<ge> oa_MinSamples c then robustValueDistance v (ov_BaselineSamples st0)
                                else (0, ov_Mean st0));
          toggles = int (length (ov_ToggleTimes st));
          e1 = (if ov_Samples st \<ge> of_int (oa_MinSamples c) \<and> distance \<ge> oa_ZScoreThreshold c
                then raise_statistical clk key ip v distance median e else e);
          e2 = (if value_changed v st0 \<and> limit > 0 \<and> delta > limit then raise_rate clk key ip v delta (ov_TypicalDelta st) limit e1 else e1)
      in if toggles \<ge> oa_ToggleThreshold c then raise_toggle clk (oa_ToggleWindow c) key ip v toggles e2 else e2)"

definition handleOTValueAnomaly :: "time \<Rightarrow> ot_anomaly_config \<Rightarrow> ics_message \<Rightarrow> ot_values \<times> detector \<Rightarrow> ot_values \<times> detector" where
  "handleOTValueAnomaly clk c m s =
     (case s of (tbl, e) \<Rightarrow>
        case Option.bind (mget (im_Details m) ''value'') numericValue of
          None \<Rightarrow> (tbl, e)
        | Some v \<Rightarrow>
            let now = message_time clk m; key = value_key m; learning = behaviorDetectionsSuppressed e;
                st0 = (case mget tbl key of Some x \<Rightarrow> x | None \<Rightarrow> new_value_state m v now);
                st = observe_process_value c learning v now st0;
                tbl1 = mput key st tbl
            in if learning then (tbl1, e) else (tbl1, report_value clk c key (fst (value_device m)) v st0 st e))"

section \<open>Silence\<close>

definition raise_missing_value :: "time \<Rightarrow> time \<Rightarrow> string \<Rightarrow> ot_value_state \<Rightarrow> detector \<Rightarrow> detector" where
  "raise_missing_value clk now key st =
     raiseOTAnomaly clk ''missing_updates'' key (ov_DeviceIP st) (ov_LastValue st) 85
       (''no update observed for '' @ duration_text (round_duration (time_sub now (ov_LastSeen st)) second))
       (anomaly_scores 85 85 @ [(''last_seen'', E_time (ov_LastSeen st))])"

definition raise_stuck_value :: "time \<Rightarrow> time \<Rightarrow> string \<Rightarrow> ot_value_state \<Rightarrow> detector \<Rightarrow> detector" where
  "raise_stuck_value clk now key st =
     raiseOTAnomaly clk ''stuck_value'' key (ov_DeviceIP st) (ov_LastValue st) 70
       (''value unchanged for '' @ duration_text (round_duration (time_sub now (ov_LastChange st)) second) @ '' while polling continues'')
       (anomaly_scores 70 70 @ [(''last_change'', E_time (ov_LastChange st))])"

definition value_missing :: "ot_anomaly_config \<Rightarrow> time \<Rightarrow> ot_value_state \<Rightarrow> bool" where
  "value_missing c now st \<longleftrightarrow> ov_Samples st \<ge> of_int (oa_MinSamples c) \<and> time_sub now (ov_LastSeen st) \<ge> oa_MissingAfter c"

definition value_stuck :: "ot_anomaly_config \<Rightarrow> time \<Rightarrow> ot_value_state \<Rightarrow> bool" where
  "value_stuck c now st \<longleftrightarrow>
     ov_Samples st \<ge> of_int (oa_MinSamples c) \<and> time_sub now (ov_LastChange st) \<ge> oa_StuckAfter c \<and> time_sub now (ov_LastSeen st) < oa_MissingAfter c"

text \<open>
  The check of the ticker.  Each report is a goroutine of its own; \<open>ks\<close> is the order in which they run.
\<close>

definition check_value :: "time \<Rightarrow> ot_anomaly_config \<Rightarrow> time \<Rightarrow> ot_values \<Rightarrow> string \<Rightarrow> detector \<Rightarrow> detector" where
  "check_value clk c now tbl k e =
     (case mget tbl k of
        None \<Rightarrow> e
      | Some st \<Rightarrow>
          if value_missing c now st then raise_missing_value clk now k st e
          else if value_stuck c now st then raise_stuck_value clk now k st e else e)"

definition checkSilentOTTags :: "string list \<Rightarrow> time \<Rightarrow> ot_anomaly_config \<Rightarrow> time \<Rightarrow> ot_values \<Rightarrow> detector \<Rightarrow> detector" where
  "checkSilentOTTags ks clk c now tbl e = fold (check_value clk c now tbl) ks e"

definition ResetOTAnomalyState :: "ot_values \<Rightarrow> ot_values" where "ResetOTAnomalyState tbl = []"

end
