(* ===== verification/Detect_Perimeter.thy ===== *)
theory Detect_Perimeter
  imports Detect_Network Detect_Learning
begin

text \<open>
  What the detectors of single packets guarantee: the direction of an external conversation is that
  of its first packet, a segment is learned only from an endpoint that ARP has confirmed, network
  policy learns only while learning, and reviewed alerts on deception stations stay.
\<close>

section \<open>Frames\<close>

lemma raise_only_alerts: "alerts_and_rules_only e (raise clk rid t sev key msg ip v at0 gap e)"
  unfolding raise_def by (rule raiseBuiltinAlert_frame)

lemmas raise_all_fields = frame_fields [OF raise_only_alerts]

lemma exclude_fields [simp]:
  "dt_segmentation (excludePacketFromLearning clk p reason e) = dt_segmentation e"
  "dt_knownMAC (excludePacketFromLearning clk p reason e) = dt_knownMAC e"
  "dt_baselineMode (excludePacketFromLearning clk p reason e) = dt_baselineMode e"
  "dt_baselineEnabled (excludePacketFromLearning clk p reason e) = dt_baselineEnabled e"
  "dt_alerts (excludePacketFromLearning clk p reason e) = dt_alerts e"
  by (simp_all add: excludePacketFromLearning_def Let_def publish_def on_policy_def)

section \<open>The direction of a conversation\<close>

definition conversation_of :: "packet \<Rightarrow> external_view \<Rightarrow> string" where
  "conversation_of p x = externalFlowKey (external_protocol p) (xv_InternalIP x) (xv_InternalPort x) (xv_ExternalIP x) (xv_ExternalPort x)"

text \<open>Another packet, with the order of the map at that moment.\<close>

definition see_packet :: "string list \<times> time \<times> packet \<times> external_view \<Rightarrow> policy \<Rightarrow> policy" where
  "see_packet a q = (case a of (ord, now, p, x) \<Rightarrow> snd (externalConversationDirection ord now p x q))"

definition tracked :: "string \<Rightarrow> string \<Rightarrow> string \<Rightarrow> time \<Rightarrow> policy \<Rightarrow> bool" where
  "tracked k d protocol t0 q \<longleftrightarrow>
     (\<exists>st. mget (po_externalFlows q) k = Some st \<and> ef_Direction st = d \<and> ef_Protocol st = protocol \<and> t0 \<le> ef_LastSeen st)"

lemma time_sub_le: "0 \<le> d \<Longrightarrow> a \<le> b + d \<Longrightarrow> time_sub a b \<le> d"
  by (simp add: time_sub_def)

lemma timeout_nonneg: "0 \<le> externalFlowTimeout x"
  by (simp add: externalFlowTimeout_def Let_def minute_def second_def)

lemma mget_filter: "mget m k = Some v \<Longrightarrow> P (k, v) \<Longrightarrow> mget (filter P m) k = Some v"
  by (induction m) (auto simp: mget_def split: if_splits)

lemma tracked_sweep:
  assumes "tracked k d protocol t0 q" and "now \<le> t0 + externalFlowTimeout protocol"
  shows "tracked k d protocol t0 (sweep_flows now q)"
proof -
  from assms(1) obtain st where st: "mget (po_externalFlows q) k = Some st" "ef_Direction st = d" "ef_Protocol st = protocol" "t0 \<le> ef_LastSeen st"
    unfolding tracked_def by blast
  have "time_sub now (ef_LastSeen st) \<le> externalFlowTimeout protocol"
    using assms(2) st(4) timeout_nonneg by (intro time_sub_le) auto
  with st mget_filter [OF st(1)] show ?thesis by (auto simp: tracked_def sweep_flows_def)
qed

lemma sweep_length: "length (po_externalFlows (sweep_flows now q)) \<le> length (po_externalFlows q)"
  by (simp add: sweep_flows_def)

lemma make_room_idle: "int (length m) < maxTrackedExternalFlows \<Longrightarrow> make_room ord m = m"
  by (simp add: make_room_def)

lemma direction_known:
  assumes "tracked k d protocol t0 q" "now \<le> t0 + externalFlowTimeout protocol" "k = conversation_of p x"
  shows "fst (externalConversationDirection ord now p x q) = Some (d, True)"
proof -
  from tracked_sweep [OF assms(1,2)] obtain st where
    st: "mget (po_externalFlows (sweep_flows now q)) k = Some st" "ef_Direction st = d" "ef_Protocol st = protocol" "t0 \<le> ef_LastSeen st"
    unfolding tracked_def by blast
  then have "time_sub now (ef_LastSeen st) \<le> externalFlowTimeout (ef_Protocol st)"
    using assms(2) timeout_nonneg by (intro time_sub_le) auto
  with st assms(3) show ?thesis by (simp add: externalConversationDirection_def Let_def conversation_of_def)
qed

lemma see_packet_tracks:
  assumes t: "tracked k d protocol t0 q" and now: "t0 \<le> now" "now \<le> t0 + externalFlowTimeout protocol"
    and room: "int (length (po_externalFlows q)) < maxTrackedExternalFlows"
  shows "tracked k d protocol t0 (see_packet (ord, now, p, x) q)"
proof -
  let ?q = "sweep_flows now q" and ?k = "conversation_of p x"
  from tracked_sweep [OF t now(2)] obtain st where
    st: "mget (po_externalFlows ?q) k = Some st" "ef_Direction st = d" "ef_Protocol st = protocol" "t0 \<le> ef_LastSeen st"
    unfolding tracked_def by blast
  have len: "int (length m) < maxTrackedExternalFlows" if "m = po_externalFlows ?q \<or> m = mdel ?k (po_externalFlows ?q)" for m
    using that room sweep_length [of now q] length_mdel_le [of ?k "po_externalFlows ?q"] by auto
  show ?thesis
  proof (cases "?k = k")
    case True
    have "time_sub now (ef_LastSeen st) \<le> externalFlowTimeout (ef_Protocol st)"
      using st now timeout_nonneg by (intro time_sub_le) auto
    with st True now(1) show ?thesis
      by (simp add: see_packet_def externalConversationDirection_def Let_def tracked_def flip: conversation_of_def)
  next
    case False
    with st len show ?thesis
      by (auto simp: see_packet_def externalConversationDirection_def Let_def tracked_def make_room_idle
          simp flip: conversation_of_def split: option.split)
  qed
qed

lemma see_packet_length: "length (po_externalFlows (see_packet a q)) \<le> Suc (length (po_externalFlows q))"
proof -
  obtain ord now p x where a: "a = (ord, now, p, x)" by (cases a)
  have room: "length (make_room ord m) \<le> length m" for m :: "(string, external_flow) gomap"
    using length_mdel_le by (auto simp: make_room_def split: list.split)
  have put: "length (mput k v m) \<le> Suc (length m)" for k v and m :: "(string, external_flow) gomap"
    by (simp add: length_mput split: option.split)
  let ?m = "po_externalFlows (sweep_flows now q)"
  have s: "length ?m \<le> length (po_externalFlows q)" by (rule sweep_length)
  have d: "length (mdel k ?m) \<le> length ?m" for k by (rule length_mdel_le)
  have "length (mput k v (make_room ord ?m)) \<le> Suc (length (po_externalFlows q))"
    "length (mput k v (make_room ord (mdel k' ?m))) \<le> Suc (length (po_externalFlows q))"
    "length (mput k v ?m) \<le> Suc (length (po_externalFlows q))" "length (mdel k ?m) \<le> Suc (length (po_externalFlows q))"
    "length ?m \<le> Suc (length (po_externalFlows q))" for k v k'
    using put [of k v ?m] put [of k v "make_room ord ?m"] put [of k v "make_room ord (mdel k' ?m)"] room [of ?m] room [of "mdel k' ?m"] s d [of k] d [of k']
    by linarith+
  then show ?thesis unfolding a
    by (simp add: see_packet_def externalConversationDirection_def Let_def split: option.split)
qed

lemma see_packets_track:
  "tracked k d protocol t0 q \<Longrightarrow> \<forall>(ord, now, p, x) \<in> set as. t0 \<le> now \<and> now \<le> t0 + externalFlowTimeout protocol \<Longrightarrow>
   int (length (po_externalFlows q) + length as) \<le> maxTrackedExternalFlows \<Longrightarrow> tracked k d protocol t0 (fold see_packet as q)"
proof (induction as arbitrary: q)
  case (Cons a as)
  obtain ord now p x where a: "a = (ord, now, p, x)" by (cases a)
  have "tracked k d protocol t0 (see_packet a q)" unfolding a
    by (rule see_packet_tracks [OF Cons.prems(1)]) (use Cons.prems(2,3) a in auto)
  with Cons.IH [of "see_packet a q"] Cons.prems(2,3) see_packet_length [of a q] show ?case by simp
qed simp

text \<open>
  The direction of an external conversation is that of its first packet.  Once a conversation is
  in the table, every later packet of it, in either direction, is attributed to the initiator as
  long as the time-out since the last packet has not passed, whatever other packets are seen in
  between, provided that the table of 50000 conversations does not overflow: the reply to a request
  never becomes an inbound finding.
\<close>

theorem conversation_keeps_direction:
  assumes "mget (po_externalFlows q) (conversation_of p x) = Some st"
    and "\<forall>(ord, now, p, x) \<in> set as. ef_LastSeen st \<le> now \<and> now \<le> ef_LastSeen st + externalFlowTimeout (ef_Protocol st)"
    and "int (length (po_externalFlows q) + length as) \<le> maxTrackedExternalFlows"
    and "now \<le> ef_LastSeen st + externalFlowTimeout (ef_Protocol st)"
  shows "fst (externalConversationDirection ord now p x (fold see_packet as q)) = Some (ef_Direction st, True)"
proof -
  have "tracked (conversation_of p x) (ef_Direction st) (ef_Protocol st) (ef_LastSeen st) q"
    using assms(1) by (auto simp: tracked_def)
  from direction_known [OF see_packets_track [OF this assms(2,3)] assms(4) refl] show ?thesis .
qed

lemma reply_same_conversation:
  assumes "external_view_of p = Some x"
  shows "external_view_of (reply p) = Some (x\<lparr> xv_SrcIsInternal := \<not> xv_SrcIsInternal x \<rparr>)"
    and "conversation_of (reply p) (x\<lparr> xv_SrcIsInternal := b \<rparr>) = conversation_of p x"
  using assms private_is_not_public [of "pk_SrcIP p"] private_is_not_public [of "pk_DstIP p"]
  by (auto simp: external_view_of_def reply_def conversation_of_def external_protocol_def Let_def split: if_splits)

definition ntp_request :: packet where
  "ntp_request = zero_packet\<lparr> pk_SrcIP := ''10.0.0.5'', pk_DstIP := ''8.8.8.8'', pk_SrcPort := 40000, pk_DstPort := 123, pk_L4Protocol := ''UDP'' \<rparr>"

definition ntp_view :: external_view where
  "ntp_view = \<lparr> xv_InternalIP = ''10.0.0.5'', xv_InternalPort = 40000, xv_ExternalIP = ''8.8.8.8'', xv_ExternalPort = 123, xv_SrcIsInternal = True \<rparr>"

theorem conversation_keeps_direction_witness:
  "let q = see_packet ([], second, ntp_request, ntp_view) NewPolicy;
       other = ([], 60 * second, ntp_request\<lparr> pk_SrcPort := 40001 \<rparr>, ntp_view\<lparr> xv_InternalPort := 40001 \<rparr>)
   in fst (externalConversationDirection [] (61 * second) (reply ntp_request) (ntp_view\<lparr> xv_SrcIsInternal := False \<rparr>) (fold see_packet [other] q))
      = Some (''outbound'', True)"
proof -
  let ?q = "see_packet ([], second, ntp_request, ntp_view) NewPolicy" and ?x = "ntp_view\<lparr> xv_SrcIsInternal := False \<rparr>"
  let ?st = "\<lparr> ef_Direction = ''outbound'', ef_Protocol = ''UDP'', ef_LastSeen = second \<rparr>"
  let ?o = "([], 60 * second, ntp_request\<lparr> pk_SrcPort := 40001 \<rparr>, ntp_view\<lparr> xv_InternalPort := 40001 \<rparr>)"
  have k: "conversation_of (reply ntp_request) ?x = conversation_of ntp_request ntp_view"
    by (simp add: conversation_of_def external_protocol_def reply_def Let_def)
  have u: "external_protocol ntp_request = ''UDP''" by code_simp
  have q: "po_externalFlows ?q = [(conversation_of ntp_request ntp_view, ?st)]"
    by (simp add: see_packet_def externalConversationDirection_def Let_def sweep_flows_def NewPolicy_def make_room_def maxTrackedExternalFlows_def
        first_direction_def u ntp_view_def conversation_of_def mput_def is_zero_time_def split: option.split)
  have m: "mget (po_externalFlows ?q) (conversation_of (reply ntp_request) ?x) = Some ?st" unfolding q k by (simp add: mget_def)
  have t: "\<forall>(ord, now, p, x) \<in> set [?o]. ef_LastSeen ?st \<le> now \<and> now \<le> ef_LastSeen ?st + externalFlowTimeout (ef_Protocol ?st)"
    "61 * second \<le> ef_LastSeen ?st + externalFlowTimeout (ef_Protocol ?st)" by code_simp+
  have l: "int (length (po_externalFlows ?q) + length [?o]) \<le> maxTrackedExternalFlows" unfolding q by (simp add: maxTrackedExternalFlows_def)
  from conversation_keeps_direction [OF m t(1) l t(2)] show ?thesis unfolding Let_def by simp
qed

section \<open>Segments are learned from confirmed endpoints only\<close>

lemma note_vlan_get:
  "mget (sg_ipVLAN (note_vlan d ip vlan now g)) ip' = (if d \<and> ip' = ip then Some vlan else mget (sg_ipVLAN g) ip')"
  by (simp add: note_vlan_def)

lemma lookup_vlan_get: "lookup_vlan now ip g = (r, g') \<Longrightarrow> mget (sg_ipVLAN g') ip' = Some v \<Longrightarrow> mget (sg_ipVLAN g) ip' = Some v"
  by (auto simp: lookup_vlan_def split: option.splits if_splits)

lemma level_check_segmentation: "dt_segmentation (level_check clk p sv dv e) = dt_segmentation e"
  by (simp add: level_check_def Let_def raise_level_violation_def raise_all_fields split: option.split)

lemma observe_vlans_get:
  "mget (sg_ipVLAN (snd (observe_vlans now sd dd p g))) ip = Some v \<Longrightarrow>
   mget (sg_ipVLAN g) ip = Some v \<or> (v = pk_VLANID p \<and> (sd \<and> ip = pk_SrcIP p \<or> dd \<and> ip = pk_DstIP p))"
  by (auto simp: observe_vlans_def Let_def note_vlan_get split: prod.splits if_splits dest!: lookup_vlan_get)

text \<open>
  Routed frames do not move hosts between segments: an address is assigned to a VLAN only by a
  frame of that VLAN in which the address stands beside the MAC address that ARP has confirmed for
  it; every other assignment after a packet was there before.
\<close>

theorem vlan_membership_needs_arp:
  assumes "mget (sg_ipVLAN (dt_segmentation (handleSegmentation clk p e))) ip = Some v"
  shows "mget (sg_ipVLAN (dt_segmentation e)) ip = Some v \<or>
    (v = pk_VLANID p \<and> (\<exists>mac. (ip, mac) \<in> {(pk_SrcIP p, pk_SrcMAC p), (pk_DstIP p, pk_DstMAC p)} \<and> arpConfirmsL2Endpoint ip mac e))"
proof -
  let ?sd = "arpConfirmsL2Endpoint (pk_SrcIP p) (pk_SrcMAC p) e" and ?dd = "arpConfirmsL2Endpoint (pk_DstIP p) (pk_DstMAC p) e"
  obtain src dst g1 where o: "observe_vlans (observed_time clk p) ?sd ?dd p (dt_segmentation e) = ((src, dst), g1)" by (metis surj_pair)
  have "dt_segmentation (handleSegmentation clk p e) \<in> {dt_segmentation e, g1}"
    by (simp add: handleSegmentation_def raise_zone_violation_def purdue_fallback_def Let_def raise_all_fields level_check_segmentation o
        split: option.split bool.split)
  with assms observe_vlans_get [of "observed_time clk p" ?sd ?dd p "dt_segmentation e" ip v] o show ?thesis by auto
qed

text \<open>A switch port of VLAN 7; ARP has confirmed the source, and the destination is behind a router.\<close>

definition vlan_detector :: detector where
  "vlan_detector = (demo_detector minute)\<lparr> dt_knownMAC := [(''10.0.0.1'', ''00:00:00:00:00:01'')],
     dt_segmentation := \<lparr> sg_Enabled = True, sg_Managed = False, sg_vlanLevels = [(7, 1), (8, 3)], sg_maxLevelJump = 1, sg_localEnabled = True,
       sg_localVLANLevels = [(7, 1), (8, 3)], sg_localMaxLevelJump = 1, sg_Policy = [], sg_ipVLAN = [], sg_ipVLANSeen = [] \<rparr> \<rparr>"

theorem vlan_membership_needs_arp_witness:
  "mget (sg_ipVLAN (dt_segmentation (handleSegmentation 1 (zero_packet\<lparr> pk_SrcIP := ''10.0.0.1'', pk_SrcMAC := ''00:00:00:00:00:01'',
       pk_DstIP := ''10.0.0.2'', pk_DstMAC := ''00:00:00:00:00:02'', pk_VLANID := 7 \<rparr>) vlan_detector))) ''10.0.0.2'' = None"
proof -
  let ?p = "zero_packet\<lparr> pk_SrcIP := ''10.0.0.1'', pk_SrcMAC := ''00:00:00:00:00:01'', pk_DstIP := ''10.0.0.2'', pk_DstMAC := ''00:00:00:00:00:02'', pk_VLANID := 7 \<rparr>"
  have "\<not> arpConfirmsL2Endpoint ''10.0.0.2'' mac vlan_detector" for mac
    by (simp add: arpConfirmsL2Endpoint_def vlan_detector_def mtext_def mget_def)
  moreover have "sg_ipVLAN (dt_segmentation vlan_detector) = []" by (simp add: vlan_detector_def)
  ultimately show ?thesis
    using vlan_membership_needs_arp [of 1 ?p vlan_detector "''10.0.0.2''"] by (cases "mget (sg_ipVLAN (dt_segmentation (handleSegmentation 1 ?p vlan_detector))) ''10.0.0.2''") auto
qed

section \<open>Deception stations\<close>

text \<open>
  When a station is no longer a decoy, exactly its unreviewed alerts disappear: what an operator has
  approved or confirmed, and the alerts of other devices and of other detectors, stay as they are.
\<close>

theorem clear_keeps_reviewed_alerts:
  assumes "wf_map (dt_alerts e)" and "ip \<noteq> []"
  shows "mget (dt_alerts (clearHoneypotAlerts ip e)) k = Some a \<longleftrightarrow>
    mget (dt_alerts e) k = Some a \<and> \<not> (al_IP a = ip \<and> al_Type a \<in> {AlertHoneypotLateralMovement, AlertHoneypotProbed} \<and> al_Status a = AlertStatusNew)"
proof -
  have "wf_map (filter (\<lambda>(k, a). \<not> unreviewed_honeypot_alert ip a) (dt_alerts e))"
    using assms(1) by (simp add: wf_map_def distinct_map_filter)
  with assms show ?thesis by (auto simp: clearHoneypotAlerts_def mget_Some_iff unreviewed_honeypot_alert_def)
qed

text \<open>
  A decoy that answers a probe is reported as compromised: the code does not ask who initiated
  the conversation, so every packet from a decoy to an internal address, the answer to a scan
  included, raises the critical alert that the text reserves for traffic which the decoy initiates.
\<close>

theorem honeypot_answer_is_lateral_movement:
  assumes "isHoneypot e (pk_DstIP p)" and "isPrivateIP (pk_SrcIP p)" and "pk_SrcIP p \<noteq> []" and "pk_DstIP p \<noteq> []"
  shows "handleHoneypot clk (reply p) e = honeypot_lateral clk (reply p) e"
  using assms by (simp add: handleHoneypot_def reply_def Let_def)

theorem honeypot_answer_is_lateral_movement_witness:
  "let e = (demo_detector minute)\<lparr> dt_deceptionScores := [(''10.0.0.66'', 90)], dt_honeypotThreshold := 50 \<rparr>;
       scan = zero_packet\<lparr> pk_SrcIP := ''10.0.0.9'', pk_DstIP := ''10.0.0.66'', pk_TCPFlags := ''SYN'' \<rparr>
   in handleHoneypot 1 (reply scan) e = honeypot_lateral 1 (reply scan) e"
proof -
  let ?e = "(demo_detector minute)\<lparr> dt_deceptionScores := [(''10.0.0.66'', 90)], dt_honeypotThreshold := 50 \<rparr>"
  have p: "isPrivateIP ''10.0.0.9''" by code_simp
  have h: "isHoneypot ?e ''10.0.0.66''" by (simp add: isHoneypot_def mget_def)
  show ?thesis unfolding Let_def by (rule honeypot_answer_is_lateral_movement) (simp_all add: p h)
qed

section \<open>Network policy\<close>

text \<open>No relation between devices is trusted that was not trusted before.\<close>

definition gains_nothing :: "detector \<Rightarrow> detector \<Rightarrow> bool" where
  "gains_nothing e e' \<longleftrightarrow>
     (\<forall>d s. (related (po_trustedOTAccess (dt_policy e')) d s \<longrightarrow> related (po_trustedOTAccess (dt_policy e)) d s) \<and>
            (related (po_trustedOTMasters (dt_policy e')) d s \<longrightarrow> related (po_trustedOTMasters (dt_policy e)) d s) \<and>
            (related (po_trustedOTTimeSources (dt_policy e')) d s \<longrightarrow> related (po_trustedOTTimeSources (dt_policy e)) d s) \<and>
            (related (po_trustedOTProtocols (dt_policy e')) d s \<longrightarrow> related (po_trustedOTProtocols (dt_policy e)) d s)) \<and>
     set (po_trustedRemoteMgmt (dt_policy e')) \<subseteq> set (po_trustedRemoteMgmt (dt_policy e))"

definition still_monitoring :: "detector \<Rightarrow> detector \<Rightarrow> bool" where
  "still_monitoring e e' \<longleftrightarrow> gains_nothing e e' \<and> behaviorDetectionsSuppressed e' = behaviorDetectionsSuppressed e"

lemma still_refl: "still_monitoring e e" by (simp add: still_monitoring_def gains_nothing_def)

lemma still_trans: "still_monitoring a b \<Longrightarrow> still_monitoring b c \<Longrightarrow> still_monitoring a c"
  unfolding still_monitoring_def gains_nothing_def by blast

lemma still_raise: "still_monitoring e e' \<Longrightarrow> still_monitoring e (raise clk rid t sev key msg ip v at0 gap e')"
  by (erule still_trans) (simp add: still_monitoring_def gains_nothing_def behaviorDetectionsSuppressed_def raise_all_fields)

lemma still_exclude: "still_monitoring e e' \<Longrightarrow> still_monitoring e (excludePacketFromLearning clk p reason e')"
  by (erule still_trans) (auto simp: still_monitoring_def gains_nothing_def behaviorDetectionsSuppressed_def excludePacketFromLearning_def
      publish_def on_policy_def quarantinePolicyLearning_def Let_def)

lemma still_policy:
  assumes "still_monitoring e e'"
    and "\<And>q. po_trustedOTAccess (f q) = po_trustedOTAccess q \<and> po_trustedOTMasters (f q) = po_trustedOTMasters q \<and>
      po_trustedOTTimeSources (f q) = po_trustedOTTimeSources q \<and> po_trustedOTProtocols (f q) = po_trustedOTProtocols q \<and>
      po_trustedRemoteMgmt (f q) = po_trustedRemoteMgmt q"
  shows "still_monitoring e (on_policy f e')"
  using assms(1) by (rule still_trans)
    (simp add: still_monitoring_def gains_nothing_def behaviorDetectionsSuppressed_def on_policy_def assms(2))

lemma still_remote_into_ot: "still_monitoring e e' \<Longrightarrow> still_monitoring e (remote_into_ot clk service p e')"
  unfolding remote_into_ot_def Let_def raise_remote_ot_def raise_smb_ot_def
  by (auto intro!: still_raise still_exclude)

lemma still_remote_relation: "\<not> behaviorDetectionsSuppressed e \<Longrightarrow> still_monitoring e (snd (remote_relation clk service p e))"
  by (auto simp: remote_relation_def Let_def raise_first_remote_def intro!: still_raise still_refl)

lemma still_remote_management:
  assumes "\<not> behaviorDetectionsSuppressed e" shows "still_monitoring e (remote_management clk service p e)"
proof -
  obtain t e1 where r: "remote_relation clk service p e = (t, e1)" by fastforce
  with still_remote_relation [OF assms, of clk service p] have "still_monitoring e e1" by simp
  then show ?thesis by (simp add: remote_management_def r still_remote_into_ot)
qed

lemma still_ot_access:
  assumes "\<not> behaviorDetectionsSuppressed e" shows "still_monitoring e (ot_access clk proto p e)"
proof -
  have m: "still_monitoring e (on_policy (markOTAsset (pk_DstIP p)) e)" by (rule still_policy [OF still_refl]) (simp add: markOTAsset_def)
  then have "\<not> behaviorDetectionsSuppressed (on_policy (markOTAsset (pk_DstIP p)) e)" using assms by (simp add: still_monitoring_def)
  with m show ?thesis by (simp add: ot_access_def Let_def raise_direct_access_def still_raise)
qed

lemma still_transfer: "still_monitoring e e' \<Longrightarrow> still_monitoring e (observe_transfer clk proto p e')"
  by (simp add: observe_transfer_def Let_def raise_transfer_def still_raise still_policy)

text \<open>
  Outside learning the network cannot teach the sensor: no packet, whatever service it uses and
  whether it raises alerts or not, makes a relation between two devices trusted.
\<close>

theorem monitored_network_teaches_nothing:
  assumes "\<not> behaviorDetectionsSuppressed e"
  shows "gains_nothing e (handleBuiltinNetworkPolicy clk p e)"
proof -
  let ?e1 = "on_policy (\<lambda>q. q\<lparr> po_lastPacketObserved := observed_time clk p \<rparr>) e"
  have s1: "still_monitoring e ?e1" by (rule still_policy [OF still_refl]) simp
  have step: "still_monitoring e (f e')" if "still_monitoring e e'" "\<And>x. \<not> behaviorDetectionsSuppressed x \<Longrightarrow> still_monitoring x (f x)" for f e'
    using that(1) by (rule still_trans) (use that assms in \<open>simp add: still_monitoring_def\<close>)
  let ?e2 = "case mget remoteManagementPorts (pk_DstPort p) of Some service \<Rightarrow> if initiated p then remote_management clk service p ?e1 else ?e1 | None \<Rightarrow> ?e1"
  have s2: "still_monitoring e ?e2" using s1 step [where f = "remote_management clk service p" for service, OF s1 still_remote_management] by (simp split: option.split)
  have "still_monitoring e (handleBuiltinNetworkPolicy clk p e)"
    unfolding handleBuiltinNetworkPolicy_def Let_def
    using s2 still_transfer [OF step [where f = "ot_access clk proto p" for proto, OF s2 still_ot_access]] by (auto split: option.split)
  then show ?thesis by (simp add: still_monitoring_def)
qed

theorem monitored_network_teaches_nothing_witness:
  "gains_nothing ((demo_detector minute)\<lparr> dt_baselineMode := BaselineModeMonitoring \<rparr>)
     (handleBuiltinNetworkPolicy 1 (zero_packet\<lparr> pk_SrcIP := ''10.0.0.9'', pk_DstIP := ''10.0.0.5'', pk_DstPort := 502, pk_Length := 60 \<rparr>)
        ((demo_detector minute)\<lparr> dt_baselineMode := BaselineModeMonitoring \<rparr>))"
  by (rule monitored_network_teaches_nothing) (simp add: behaviorDetectionsSuppressed_def)

end
