(* ===== verification/Detect_Scan.thy ===== *)
theory Detect_Scan
  imports Detect_Values Detect_Perimeter
begin

text \<open>
  What the heuristics guarantee: the scan detector counts the distinct targets of its window, regular
  connections are recognised, the table of destinations stays bounded, and none of the behavioural
  detectors raises an alert while the sensor learns.
\<close>

section \<open>The contract of a window of distinct keys\<close>

text \<open>
  A map from keys to the instants at which they were last seen.  \<open>old now t\<close> says that an entry of the
  instant \<open>t\<close> has left the window; it may only turn from false to true as time passes.
\<close>

locale distinct_window =
  fixes old :: "time \<Rightarrow> time \<Rightarrow> bool"
  assumes old_mono: "s \<le> s' \<Longrightarrow> t' \<le> t \<Longrightarrow> old s t \<Longrightarrow> old s' t'"
begin

definition see :: "'k \<times> time \<Rightarrow> ('k, time) gomap \<Rightarrow> ('k, time) gomap" where
  "see x m = touch_entry (old (snd x)) (fst x) (snd x) m"

definition seen :: "('k \<times> time) list \<Rightarrow> ('k, time) gomap" where "seen xs = fold see xs []"

lemma wf_filter: "wf_map m \<Longrightarrow> wf_map (filter P m)"
  by (simp add: wf_map_def distinct_map_filter)

lemma mget_filter_wf:
  "wf_map m \<Longrightarrow> mget (filter P m) k = (case mget m k of Some v \<Rightarrow> if P (k, v) then Some v else None | None \<Rightarrow> None)"
  by (induction m) (auto simp: mget_def wf_map_def map_of_eq_None_iff split: option.split)

lemma seen_wf: "wf_map (seen xs)"
proof (induction xs rule: rev_induct)
  case (snoc x xs)
  then show ?case by (simp add: seen_def see_def touch_entry_def wf_filter)
qed (simp add: seen_def)

lemma seen_get:
  "sorted (map snd xs) \<Longrightarrow> xs \<noteq> [] \<Longrightarrow>
   mget (seen xs) k = (case map_of (rev xs) k of Some t \<Rightarrow> if old (snd (last xs)) t then None else Some t | None \<Rightarrow> None)"
proof (induction xs rule: rev_induct)
  case (snoc x xs)
  obtain k0 t0 where x: "x = (k0, t0)" by fastforce
  have step: "mget (seen (xs @ [x])) k = (case mget (mput k0 t0 (seen xs)) k of Some v \<Rightarrow> if \<not> old t0 v then Some v else None | None \<Rightarrow> None)"
    using mget_filter_wf [OF wf_map_mput [OF seen_wf, of k0 t0 xs], of "\<lambda>(k, t). \<not> old t0 t" k]
    by (auto simp: seen_def see_def touch_entry_def x split: option.split)
  show ?case
  proof (cases "k = k0 \<or> xs = []")
    case True
    then show ?thesis unfolding step by (auto simp: x seen_def)
  next
    case False
    with snoc.prems have "snd (last xs) \<le> t0" by (simp add: sorted_append x)
    then have "old (snd (last xs)) t \<Longrightarrow> old t0 t" for t using old_mono by blast
    with snoc.IH snoc.prems False show ?thesis unfolding step by (auto simp: x sorted_append split: option.splits)
  qed
qed simp

lemma latest_entry:
  "sorted (map snd xs) \<Longrightarrow> (k, t) \<in> set xs \<Longrightarrow> \<exists>t'. map_of (rev xs) k = Some t' \<and> t \<le> t' \<and> (k, t') \<in> set xs"
proof (induction xs rule: rev_induct)
  case (snoc x xs)
  then show ?case by (cases x; cases "k = fst x") (auto simp: sorted_append image_iff)
qed simp

lemma seen_keys:
  assumes "sorted (map snd xs)" and "xs \<noteq> []"
  shows "set (mkeys (seen xs)) = {k. \<exists>t. (k, t) \<in> set xs \<and> \<not> old (snd (last xs)) t}"
proof -
  have "k \<in> set (mkeys (seen xs)) \<longleftrightarrow> (\<exists>t. (k, t) \<in> set xs \<and> \<not> old (snd (last xs)) t)" for k
  proof
    assume "k \<in> set (mkeys (seen xs))"
    then have "mget (seen xs) k \<noteq> None" by (simp add: mget_None_iff)
    then obtain t where "map_of (rev xs) k = Some t" "\<not> old (snd (last xs)) t"
      using seen_get [OF assms, of k] by (auto split: option.splits if_splits)
    then show "\<exists>t. (k, t) \<in> set xs \<and> \<not> old (snd (last xs)) t" using map_of_SomeD by fastforce
  next
    assume "\<exists>t. (k, t) \<in> set xs \<and> \<not> old (snd (last xs)) t"
    then obtain t where t: "(k, t) \<in> set xs" "\<not> old (snd (last xs)) t" by blast
    from latest_entry [OF assms(1) t(1)] obtain t' where "map_of (rev xs) k = Some t'" "t \<le> t'" by blast
    with t(2) old_mono have "mget (seen xs) k = Some t'" unfolding seen_get [OF assms, of k] by auto
    then show "k \<in> set (mkeys (seen xs))" using mget_None_iff [of "seen xs" k] by simp
  qed
  then show ?thesis by blast
qed

lemma seen_count:
  assumes "sorted (map snd xs)" and "xs \<noteq> []"
  shows "length (seen xs) = card {k. \<exists>t. (k, t) \<in> set xs \<and> \<not> old (snd (last xs)) t}"
proof -
  have "card (set (mkeys (seen xs))) = length (mkeys (seen xs))"
    using seen_wf [of xs] by (intro distinct_card) (simp add: wf_map_def mkeys_def)
  then show ?thesis using seen_keys [OF assms] by (simp add: mkeys_def)
qed

end

lemma time_sub_mono: "s \<le> s' \<Longrightarrow> t' \<le> t \<Longrightarrow> time_sub s t \<le> time_sub s' t'"
  by (simp add: time_sub_def)

interpretation scan_window: distinct_window "\<lambda>now t. time_sub now t > w" for w
proof
  fix s s' t t' :: time assume "s \<le> s'" "t' \<le> t" "time_sub s t > w"
  with time_sub_mono [of s s' t' t] show "time_sub s' t' > w" by linarith
qed

interpretation fanout_window: distinct_window "\<lambda>now t. t < now - w" for w
  by unfold_locales linarith

section \<open>The scan detector\<close>

lemma reconSignal_fields [simp]:
  "dt_hostScanSeen (snd (reconSignal src cls now e)) = dt_hostScanSeen e" "dt_reconWindow (snd (reconSignal src cls now e)) = dt_reconWindow e"
  "dt_reconnaissanceEnabled (snd (reconSignal src cls now e)) = dt_reconnaissanceEnabled e" "dt_alerts (snd (reconSignal src cls now e)) = dt_alerts e"
  "dt_baselineEnabled (snd (reconSignal src cls now e)) = dt_baselineEnabled e" "dt_baselineMode (snd (reconSignal src cls now e)) = dt_baselineMode e"
  by (simp_all add: reconSignal_def Let_def)

definition scan_frame :: "detector \<Rightarrow> (string, (string, time) gomap) gomap \<times> duration \<times> bool \<times> (string, alert) gomap \<times> bool \<times> string" where
  "scan_frame e = (dt_hostScanSeen e, dt_reconWindow e, dt_reconnaissanceEnabled e, dt_alerts e, dt_baselineEnabled e, dt_baselineMode e)"

lemma special_signal_frame: "scan_frame (snd (snd (special_signal a cls p now (c, n, e)))) = scan_frame e"
proof -
  obtain n' e' where "reconSignal (pk_SrcIP p) cls now e = (n', e')" by fastforce
  with reconSignal_fields [of "pk_SrcIP p" cls now e] show ?thesis by (simp add: special_signal_def scan_frame_def)
qed

lemma classify_scan_frame: "scan_frame (snd (snd (classify_scan p now h e))) = scan_frame e"
proof -
  obtain c1 n1 e1 where s1: "special_signal (multicast_target p) ''multicast_discovery'' p now (scan_class p, 0, e) = (c1, n1, e1)" by (metis surj_pair)
  obtain c2 n2 e2 where s2: "special_signal (pk_DstIP p = ''255.255.255.255'' \<or> (groupDestination p \<and> \<not> multicast_target p)) ''broadcast_discovery'' p now (c1, n1, e1) = (c2, n2, e2)"
    by (metis surj_pair)
  from special_signal_frame [of "multicast_target p" "''multicast_discovery''" p now "scan_class p" 0 e] s1
    special_signal_frame [of "pk_DstIP p = ''255.255.255.255'' \<or> (groupDestination p \<and> \<not> multicast_target p)" "''broadcast_discovery''" p now c1 n1 e1] s2
  show ?thesis by (simp add: classify_scan_def s1 s2 split: option.split)
qed

lemma note_port_frame: "scan_frame (note_port p now e) = scan_frame e"
  by (simp add: note_port_def scan_frame_def Let_def)

lemma note_scan_frame: "scan_frame (snd (snd (note_scan p now e))) = scan_frame (note_host p now e)"
proof -
  let ?e = "note_port p now (note_host p now e)"
  let ?h = "int (length (inner_map (dt_hostScanSeen ?e) (pk_SrcIP p)))"
  obtain c n e2 where c: "classify_scan p now ?h ?e = (c, n, e2)" by (metis surj_pair)
  with classify_scan_frame [of p now ?h ?e] note_port_frame [of p now "note_host p now e"] show ?thesis
    by (simp add: note_scan_def Let_def)
qed

lemma raise_scan_frame [simp]: "dt_hostScanSeen (raise clk rid t sev key msg ip v at0 gap e) = dt_hostScanSeen e"
  "dt_reconWindow (raise clk rid t sev key msg ip v at0 gap e) = dt_reconWindow e"
  "dt_reconnaissanceEnabled (raise clk rid t sev key msg ip v at0 gap e) = dt_reconnaissanceEnabled e"
  by (simp_all add: raise_all_fields)

lemma report_scan_fields:
  "dt_hostScanSeen (report_scan clk cls p n e) = dt_hostScanSeen e" "dt_reconWindow (report_scan clk cls p n e) = dt_reconWindow e"
  "dt_reconnaissanceEnabled (report_scan clk cls p n e) = dt_reconnaissanceEnabled e"
  by (simp_all add: report_scan_def raise_discovery_def raise_host_scan_def raise_port_scan_def raise_scan_def Let_def)

lemma handle_scan_fields:
  assumes "dt_reconnaissanceEnabled e" "pk_SrcIP p \<noteq> []" "pk_DstIP p \<noteq> []"
  shows "dt_hostScanSeen (handleReconnaissance clk p e) = dt_hostScanSeen (note_host p (observed_time clk p) e) \<and>
    dt_reconWindow (handleReconnaissance clk p e) = dt_reconWindow e \<and> dt_reconnaissanceEnabled (handleReconnaissance clk p e)"
proof -
  obtain c n e1 where s: "note_scan p (observed_time clk p) e = (c, n, e1)" by (metis surj_pair)
  with note_scan_frame [of p "observed_time clk p" e] have "scan_frame e1 = scan_frame (note_host p (observed_time clk p) e)" by simp
  then show ?thesis using assms by (simp add: handleReconnaissance_def s report_scan_fields scan_frame_def note_host_def)
qed

text \<open>The visits of one source: the target and the instant of each of its packets.\<close>

definition visits_of :: "string \<Rightarrow> packet list \<Rightarrow> (string \<times> time) list" where
  "visits_of src ps = map (\<lambda>p. (pk_DstIP p, pk_Timestamp p)) (filter (\<lambda>p. pk_SrcIP p = src) ps)"

lemma scans_window:
  assumes "dt_reconnaissanceEnabled e" "dt_hostScanSeen e = []"
    and "\<forall>p \<in> set ps. pk_SrcIP p \<noteq> [] \<and> pk_DstIP p \<noteq> [] \<and> pk_Timestamp p \<noteq> 0"
  shows "inner_map (dt_hostScanSeen (fold (handleReconnaissance clk) ps e)) src = scan_window.seen (dt_reconWindow e) (visits_of src ps) \<and>
    dt_reconWindow (fold (handleReconnaissance clk) ps e) = dt_reconWindow e \<and> dt_reconnaissanceEnabled (fold (handleReconnaissance clk) ps e)"
  using assms(3)
proof (induction ps rule: rev_induct)
  case Nil
  then show ?case using assms(1,2) by (simp add: visits_of_def scan_window.seen_def inner_map_def)
next
  case (snoc p ps)
  let ?e = "fold (handleReconnaissance clk) ps e"
  from snoc have IH: "inner_map (dt_hostScanSeen ?e) src = scan_window.seen (dt_reconWindow e) (visits_of src ps)"
    "dt_reconWindow ?e = dt_reconWindow e" "dt_reconnaissanceEnabled ?e" by simp_all
  from snoc.prems have p: "pk_SrcIP p \<noteq> []" "pk_DstIP p \<noteq> []" and t: "observed_time clk p = pk_Timestamp p"
    by (simp_all add: observed_time_def is_zero_time_def)
  from handle_scan_fields [OF IH(3) p, of clk] IH show ?case unfolding t
    by (auto simp: note_host_def inner_map_def visits_of_def scan_window.seen_def scan_window.see_def split: option.splits)
qed

text \<open>
  C40: The scan detector counts distinct targets.  Let it be enabled with an empty table, and let
  packets of any sources arrive in order of time, each with both addresses and a capture time.  Then the
  table of a source holds exactly as many entries as there are distinct addresses which that source has
  contacted within the window that ends with its last packet: repeated contacts of one target count once,
  and targets older than the window do not count.
\<close>

theorem host_scan_counts_distinct_hosts:
  assumes "dt_reconnaissanceEnabled e" and "dt_hostScanSeen e = []"
    and "\<forall>p \<in> set ps. pk_SrcIP p \<noteq> [] \<and> pk_DstIP p \<noteq> [] \<and> pk_Timestamp p \<noteq> 0"
    and "sorted (map pk_Timestamp ps)" and "visits_of src ps \<noteq> []"
  shows "length (inner_map (dt_hostScanSeen (fold (handleReconnaissance clk) ps e)) src) =
    card {dst. \<exists>t. (dst, t) \<in> set (visits_of src ps) \<and> time_sub (snd (last (visits_of src ps))) t \<le> dt_reconWindow e}"
proof -
  have "sorted (map snd (visits_of src ps))"
    using sorted_filter [OF assms(4), of "\<lambda>p. pk_SrcIP p = src"] by (simp add: visits_of_def comp_def)
  from scan_window.seen_count [OF this assms(5), of "dt_reconWindow e"] scans_window [OF assms(1-3), of clk src]
  show ?thesis by (simp add: not_less)
qed

definition probe :: "string \<Rightarrow> string \<Rightarrow> time \<Rightarrow> packet" where
  "probe src dst t = zero_packet\<lparr> pk_SrcIP := src, pk_DstIP := dst, pk_Timestamp := t \<rparr>"

theorem host_scan_counts_distinct_hosts_witness:
  "let e = (demo_detector minute)\<lparr> dt_reconnaissanceEnabled := True, dt_hostScanSeen := [], dt_reconWindow := minute \<rparr>;
       ps = [probe ''10.0.0.9'' ''10.0.0.1'' second, probe ''10.0.0.9'' ''10.0.0.2'' (30 * second), probe ''10.0.0.8'' ''10.0.0.7'' (40 * second),
             probe ''10.0.0.9'' ''10.0.0.2'' (80 * second)]
   in length (inner_map (dt_hostScanSeen (fold (handleReconnaissance 1) ps e)) ''10.0.0.9'') = 1"
proof -
  let ?e = "(demo_detector minute)\<lparr> dt_reconnaissanceEnabled := True, dt_hostScanSeen := [], dt_reconWindow := minute \<rparr>"
  let ?ps = "[probe ''10.0.0.9'' ''10.0.0.1'' second, probe ''10.0.0.9'' ''10.0.0.2'' (30 * second), probe ''10.0.0.8'' ''10.0.0.7'' (40 * second),
             probe ''10.0.0.9'' ''10.0.0.2'' (80 * second)]"
  have v: "visits_of ''10.0.0.9'' ?ps = [(''10.0.0.1'', second), (''10.0.0.2'', 30 * second), (''10.0.0.2'', 80 * second)]"
    by (simp add: visits_of_def probe_def)
  have h: "dt_reconnaissanceEnabled ?e" "dt_hostScanSeen ?e = []" "\<forall>p \<in> set ?ps. pk_SrcIP p \<noteq> [] \<and> pk_DstIP p \<noteq> [] \<and> pk_Timestamp p \<noteq> 0"
    "sorted (map pk_Timestamp ?ps)" "visits_of ''10.0.0.9'' ?ps \<noteq> []" unfolding v by (simp_all add: probe_def second_def)
  have "{dst. \<exists>t. (dst, t) \<in> set (visits_of ''10.0.0.9'' ?ps) \<and> time_sub (snd (last (visits_of ''10.0.0.9'' ?ps))) t \<le> dt_reconWindow ?e} = {''10.0.0.2''}"
    unfolding v by (auto simp: time_sub_def minute_def second_def)
  with host_scan_counts_distinct_hosts [OF h, of 1] show ?thesis unfolding Let_def by simp
qed

section \<open>Silence while learning\<close>

lemma silent_raiseOTAnomaly: "behaviorDetectionsSuppressed e \<Longrightarrow> raiseOTAnomaly clk kind key ip v c reason ev e = e"
  by (simp add: raiseOTAnomaly_def)

lemma silent_check_value: "behaviorDetectionsSuppressed e \<Longrightarrow> check_value clk c now tbl k e = e"
  by (simp add: check_value_def raise_missing_value_def raise_stuck_value_def silent_raiseOTAnomaly split: option.split)

lemma suppressed_fields:
  "behaviorDetectionsSuppressed (note_lateral p now e) = behaviorDetectionsSuppressed e"
  "behaviorDetectionsSuppressed (note_subdomain o' now e) = behaviorDetectionsSuppressed e"
  "behaviorDetectionsSuppressed (note_nxdomain o' now e) = behaviorDetectionsSuppressed e"
  "behaviorDetectionsSuppressed (note_beacon key now e) = behaviorDetectionsSuppressed e"
  by (simp_all add: behaviorDetectionsSuppressed_def note_lateral_def note_subdomain_def note_nxdomain_def note_beacon_def evictOldestBeacon_def
      Let_def split: option.split prod.split)

lemma notes_keep_alerts:
  "dt_alerts (note_lateral p now e) = dt_alerts e" "dt_alerts (note_subdomain o' now e) = dt_alerts e"
  "dt_alerts (note_nxdomain o' now e) = dt_alerts e" "dt_alerts (note_beacon key now e) = dt_alerts e"
  by (simp_all add: note_lateral_def note_subdomain_def note_nxdomain_def note_beacon_def evictOldestBeacon_def Let_def split: option.split prod.split)

lemma silent_recon: "behaviorDetectionsSuppressed e \<Longrightarrow> dt_alerts (handleReconnaissance clk p e) = dt_alerts e"
proof -
  assume s: "behaviorDetectionsSuppressed e"
  obtain c n e1 where n: "note_scan p (observed_time clk p) e = (c, n, e1)" by (metis surj_pair)
  with note_scan_frame [of p "observed_time clk p" e] s have "behaviorDetectionsSuppressed e1" "dt_alerts e1 = dt_alerts e"
    by (simp_all add: scan_frame_def note_host_def behaviorDetectionsSuppressed_def)
  then show ?thesis by (simp add: handleReconnaissance_def n)
qed

lemma silent_tunnel: "behaviorDetectionsSuppressed e \<Longrightarrow> snd (handleDNSTunnel lg clk o' (m, e)) = e"
  by (simp add: handleDNSTunnel_def report_tunnel_def Let_def)

lemma silent_beacon: "behaviorDetectionsSuppressed e \<Longrightarrow> dt_alerts (handleC2Beacon clk ti p e) = dt_alerts e"
  by (simp add: handleC2Beacon_def Let_def suppressed_fields notes_keep_alerts split: option.split prod.split)

lemma silent_values: "behaviorDetectionsSuppressed e \<Longrightarrow> snd (handleOTValueAnomaly clk c m (tbl, e)) = e"
  by (simp add: handleOTValueAnomaly_def Let_def split: option.split)

lemma silent_check: "behaviorDetectionsSuppressed e \<Longrightarrow> checkSilentOTTags ks clk c now tbl e = e"
  unfolding checkSilentOTTags_def by (induction ks) (simp_all add: silent_check_value)

text \<open>
  No behavioural detector judges before there is a norm: while the sensor learns, scans, lateral
  movement, regular connections, generated names, tunnels and deviating process values are observed but
  raise no alert and change none.
\<close>

theorem learning_is_silent:
  assumes "behaviorDetectionsSuppressed e"
  shows "dt_alerts (handleReconnaissance clk p e) = dt_alerts e \<and> dt_alerts (handleLateralMovement ks clk p e) = dt_alerts e \<and>
    dt_alerts (handleC2Beacon clk ti p e) = dt_alerts e \<and> dt_alerts (handleC2DNS clk ti o' e) = dt_alerts e \<and>
    dt_alerts (snd (handleDNSTunnel lg clk o' (tunnels, e))) = dt_alerts e \<and>
    dt_alerts (snd (handleOTValueAnomaly clk c m (tbl, e))) = dt_alerts e \<and>
    dt_alerts (checkSilentOTTags ks clk c now tbl e) = dt_alerts e \<and> dt_alerts (handleValueOutOfRange show clk ov e) = dt_alerts e"
  using assms silent_recon [OF assms] silent_beacon [OF assms] silent_tunnel [OF assms] silent_values [OF assms] silent_check [OF assms]
  by (simp add: handleLateralMovement_def handleC2DNS_def handleValueOutOfRange_def Let_def suppressed_fields notes_keep_alerts)

theorem learning_is_silent_witness:
  "let e = (demo_detector minute)\<lparr> dt_baselineEnabled := True, dt_baselineMode := BaselineModeLearning \<rparr>
   in dt_alerts (handleReconnaissance 1 (probe ''10.0.0.9'' ''10.0.0.1'' second) e) = []"
proof -
  let ?e = "(demo_detector minute)\<lparr> dt_baselineEnabled := True, dt_baselineMode := BaselineModeLearning \<rparr>"
  have s: "behaviorDetectionsSuppressed ?e" by (simp add: behaviorDetectionsSuppressed_def BaselineModeLearning_def BaselineModeMonitoring_def)
  have "dt_alerts ?e = []" by (simp add: demo_detector_def NewDetector_def)
  with learning_is_silent [OF s, of 1 "probe ''10.0.0.9'' ''10.0.0.1'' second"] show ?thesis unfolding Let_def by metis
qed

section \<open>Regular connections\<close>

fun regular_times :: "time \<Rightarrow> duration \<Rightarrow> nat \<Rightarrow> time list" where
  "regular_times t d 0 = []"
| "regular_times t d (Suc n) = t # regular_times (t + d) d n"

lemma length_regular_times [simp]: "length (regular_times t d n) = n"
  by (induction n arbitrary: t) simp_all

lemma regular_times_snoc: "regular_times t d (Suc n) = regular_times t d n @ [t + of_nat n * d]"
proof (induction n arbitrary: t)
  case (Suc n)
  have "regular_times t d (Suc (Suc n)) = t # regular_times (t + d) d (Suc n)" by simp
  also have "\<dots> = t # regular_times (t + d) d n @ [t + d + of_nat n * d]" unfolding Suc.IH ..
  finally show ?case by (simp add: algebra_simps)
qed simp

lemma intervals_regular:
  assumes "0 < d" "d < 2 ^ 63"
  shows "intervals (regular_times t d (Suc n)) = replicate n (of_int d / of_int second)"
proof -
  have d: "time_sub (s + d) s = d" for s using assms by (simp add: time_sub_def)
  show ?thesis
  proof (induction n arbitrary: t)
    case (Suc n)
    have "intervals (regular_times t d (Suc (Suc n))) = of_int d / of_int second # intervals (regular_times (t + d) d (Suc n))"
      by (simp add: d)
    then show ?case unfolding Suc.IH by simp
  qed simp
qed

lemma average_replicate: "0 < n \<Longrightarrow> average (replicate n x) = x"
  by (simp add: average_def sum_list_replicate)

lemma variance_replicate: "0 < n \<Longrightarrow> variance (replicate n x) = 0"
  by (simp add: variance_def average_replicate)

lemma go_trunc_int [simp]: "go_trunc (of_int d) = d"
  by (simp add: go_trunc_def flip: of_int_minus)

lemma regularity_of_regular:
  assumes "0 < d" "d < 2 ^ 63" "3 \<le> n"
  shows "beaconRegularity (regular_times t d n) = Some (d, 0)"
proof -
  obtain m where n: "n = Suc m" "0 < m" using assms(3) by (cases n) auto
  have s: "(0 :: rat) < of_int second" by (simp add: second_def)
  have "intervals (regular_times t d n) = replicate m (of_int d / of_int second)" unfolding n by (rule intervals_regular [OF assms(1,2)])
  with n s assms show ?thesis
    by (simp add: beaconRegularity_def Let_def average_replicate variance_replicate go_sqrt_def divide_le_0_iff not_less)
qed

text \<open>
  Perfectly regular connections are recognised.  When the last connections of a source to an
  external service are a fixed time apart that lies in the configured range, and the next one comes at
  the same distance, so that there are as many as the detector asks for (and no more than the 20 that it
  keeps), the alert is raised, with the true interval and a variation of zero.
\<close>

theorem regular_connections_are_reported:
  assumes "dt_c2BeaconEnabled e" and "\<not> behaviorDetectionsSuppressed e"
    and "pk_TCPFlags p = ''SYN''" "pk_SrcIP p \<noteq> []" "pk_DstIP p \<noteq> []" "pk_DstPort p \<noteq> 0"
    and "isPrivateIP (pk_SrcIP p)" "\<not> isPrivateIP (pk_DstIP p)"
    and "mget (dt_beaconHistory e) (port_pair p) = Some (regular_times t d n)" "pk_Timestamp p = t + of_nat n * d"
    and "2 \<le> n" "n < 20" "dt_c2BeaconMinSamples e \<le> int n + 1"
    and "0 < d" "d < 2 ^ 63" "dt_c2BeaconMinInterval e \<le> d" "d \<le> dt_c2BeaconMaxInterval e" "0 \<le> dt_c2BeaconMaxCV e"
  shows "handleC2Beacon clk ti p e = raiseC2BeaconAlert clk ti p d 0 (note_beacon (port_pair p) (pk_Timestamp p) e)"
proof -
  let ?e = "note_beacon (port_pair p) (pk_Timestamp p) e"
  have h: "times_of (dt_beaconHistory ?e) (port_pair p) = regular_times t d (Suc n)"
    using assms(9-12) by (simp add: note_beacon_def times_of_def Let_def maxBeaconSamplesPerKey_def del: regular_times.simps(2) add: regular_times_snoc)
  have f: "dt_c2BeaconMinSamples ?e = dt_c2BeaconMinSamples e" "dt_c2BeaconMinInterval ?e = dt_c2BeaconMinInterval e"
    "dt_c2BeaconMaxInterval ?e = dt_c2BeaconMaxInterval e" "dt_c2BeaconMaxCV ?e = dt_c2BeaconMaxCV e"
    using assms(9) by (simp_all add: note_beacon_def Let_def)
  have "regular_beacon ?e (regular_times t d (Suc n)) = Some (d, 0)"
    using assms f regularity_of_regular [of d "Suc n" t] by (simp add: regular_beacon_def del: regular_times.simps(2))
  with assms h show ?thesis by (simp add: handleC2Beacon_def Let_def suppressed_fields del: regular_times.simps(2))
qed

definition checkin :: "time \<Rightarrow> packet" where
  "checkin t = zero_packet\<lparr> pk_SrcIP := ''10.0.0.5'', pk_DstIP := ''8.8.8.8'', pk_DstPort := 443, pk_TCPFlags := ''SYN'', pk_Timestamp := t \<rparr>"

theorem regular_connections_are_reported_witness:
  "let e = (demo_detector minute)\<lparr> dt_baselineMode := BaselineModeMonitoring, dt_c2BeaconEnabled := True, dt_c2BeaconMinSamples := 3,
         dt_c2BeaconMaxCV := 1 / 10, dt_c2BeaconMinInterval := second, dt_c2BeaconMaxInterval := 60 * minute,
         dt_beaconHistory := [(port_pair (checkin 0), regular_times second minute 2)] \<rparr>;
       p = checkin (second + 2 * minute)
   in handleC2Beacon 1 None p e = raiseC2BeaconAlert 1 None p minute 0 (note_beacon (port_pair p) (pk_Timestamp p) e)"
proof -
  have ip: "isPrivateIP ''10.0.0.5''" "\<not> isPrivateIP ''8.8.8.8''" by code_simp+
  show ?thesis unfolding Let_def
    by (rule regular_connections_are_reported [where t = second and n = 2])
      (simp_all add: ip checkin_def port_pair_def behaviorDetectionsSuppressed_def mget_def second_def minute_def)
qed

section \<open>The table of destinations\<close>

lemma oldest_key_in: "xs \<noteq> [] \<Longrightarrow> \<exists>y. oldest_key xs = Some y \<and> y \<in> set xs"
proof (induction xs)
  case (Cons x xs)
  then show ?case by (cases x; cases xs) (auto split: option.splits)
qed simp

text \<open>The two maps have the same keys, none of them empty, and no more of them than configured (but at least one).\<close>

definition beacons_ok :: "detector \<Rightarrow> bool" where
  "beacons_ok e \<longleftrightarrow> wf_map (dt_beaconHistory e) \<and> wf_map (dt_beaconLastTouch e) \<and>
     set (mkeys (dt_beaconHistory e)) = set (mkeys (dt_beaconLastTouch e)) \<and> [] \<notin> set (mkeys (dt_beaconHistory e)) \<and>
     int (length (dt_beaconHistory e)) \<le> max 1 (dt_c2BeaconMaxTrackedDests e) \<and>
     (\<forall>(k, ts) \<in> set (dt_beaconHistory e). length ts \<le> maxBeaconSamplesPerKey)"

lemma evict_beacon_ok:
  assumes "beacons_ok e" and "dt_beaconHistory e \<noteq> []"
  shows "beacons_ok (evictOldestBeacon e) \<and> Suc (length (dt_beaconHistory (evictOldestBeacon e))) = length (dt_beaconHistory e)"
proof -
  have "mkeys (dt_beaconLastTouch e) \<noteq> []" using assms by (auto simp: beacons_ok_def mkeys_def)
  then have "dt_beaconLastTouch e \<noteq> []" by (simp add: mkeys_def)
  then obtain k t where o': "oldest_key (dt_beaconLastTouch e) = Some (k, t)" "(k, t) \<in> set (dt_beaconLastTouch e)"
    using oldest_key_in by (metis surj_pair)
  have "k \<in> set (mkeys (dt_beaconLastTouch e))" using o'(2) unfolding mkeys_def by (metis fst_conv image_eqI list.set_map)
  with assms(1) have k: "k \<in> set (mkeys (dt_beaconHistory e))" "k \<noteq> []" unfolding beacons_ok_def by metis+
  then obtain v where v: "mget (dt_beaconHistory e) k = Some v" using mget_None_iff [of "dt_beaconHistory e" k] by blast
  have e: "evictOldestBeacon e = e\<lparr> dt_beaconHistory := mdel k (dt_beaconHistory e), dt_beaconLastTouch := mdel k (dt_beaconLastTouch e) \<rparr>"
    using o'(1) k(2) by (simp add: evictOldestBeacon_def)
  have l: "Suc (length (mdel k (dt_beaconHistory e))) = length (dt_beaconHistory e)"
    using length_mdel [OF _ v] assms(1) by (simp add: beacons_ok_def)
  with assms(1) mdel_forall [of "dt_beaconHistory e" "\<lambda>k ts. length ts \<le> maxBeaconSamplesPerKey" k] show ?thesis
    unfolding e by (auto simp: beacons_ok_def mkeys_mdel)
qed

lemma put_beacon_ok:
  assumes "beacons_ok e" and "key \<noteq> []" and "length ts \<le> maxBeaconSamplesPerKey"
    and "mget (dt_beaconHistory e) key = None \<Longrightarrow> int (length (dt_beaconHistory e)) + 1 \<le> max 1 (dt_c2BeaconMaxTrackedDests e)"
  shows "beacons_ok (e\<lparr> dt_beaconHistory := mput key ts (dt_beaconHistory e), dt_beaconLastTouch := mput key now (dt_beaconLastTouch e) \<rparr>)"
proof -
  have "\<forall>(k, ts) \<in> set (mput key ts (dt_beaconHistory e)). length ts \<le> maxBeaconSamplesPerKey"
    by (rule mput_forall) (use assms in \<open>auto simp: beacons_ok_def\<close>)
  moreover have "set (mkeys (dt_beaconLastTouch e)) = set (mkeys (dt_beaconHistory e))" using assms(1) by (simp add: beacons_ok_def)
  ultimately show ?thesis using assms by (auto simp: beacons_ok_def mkeys_mput length_mput)
qed

lemma note_beacon_ok:
  assumes "beacons_ok e" and "key \<noteq> []" shows "beacons_ok (note_beacon key now e)"
proof (cases "mget (dt_beaconHistory e) key = None \<and> int (length (dt_beaconHistory e)) \<ge> dt_c2BeaconMaxTrackedDests e")
  case True
  show ?thesis
  proof (cases "dt_beaconHistory e = []")
    case empty: True
    then have "dt_beaconLastTouch e = []" using assms(1) by (simp add: beacons_ok_def mkeys_def)
    then have "evictOldestBeacon e = e" by (simp add: evictOldestBeacon_def)
    with True empty show ?thesis
      unfolding note_beacon_def Let_def by (simp add: put_beacon_ok [OF assms, simplified empty, simplified])
  next
    case False
    from evict_beacon_ok [OF assms(1) False] have ok: "beacons_ok (evictOldestBeacon e)"
      "int (length (dt_beaconHistory (evictOldestBeacon e))) + 1 \<le> max 1 (dt_c2BeaconMaxTrackedDests (evictOldestBeacon e))"
      using assms(1) by (auto simp: beacons_ok_def evictOldestBeacon_def split: option.splits prod.splits if_splits)
    with True show ?thesis unfolding note_beacon_def Let_def by (simp add: put_beacon_ok [OF ok(1) assms(2)])
  qed
next
  case False
  then show ?thesis unfolding note_beacon_def Let_def
    by (auto intro!: put_beacon_ok [OF assms])
qed

lemma beacons_ok_alerts:
  assumes "alerts_and_rules_only e e'" and "dt_c2BeaconMaxTrackedDests e' = dt_c2BeaconMaxTrackedDests e" and "beacons_ok e"
  shows "beacons_ok e'"
  using assms(3) unfolding beacons_ok_def frame_fields [OF assms(1)] assms(2) .

lemma frame_max_dests: "alerts_and_rules_only e e' \<Longrightarrow> dt_c2BeaconMaxTrackedDests e' = dt_c2BeaconMaxTrackedDests e"
  by (cases e; cases e'; simp add: alerts_and_rules_only_def)

definition beacon_step :: "time \<times> intel option \<times> packet \<Rightarrow> detector \<Rightarrow> detector" where
  "beacon_step x e = (case x of (clk, ti, p) \<Rightarrow> handleC2Beacon clk ti p e)"

lemma beacon_step_ok: "beacons_ok e \<Longrightarrow> beacons_ok (beacon_step x e)"
proof -
  assume ok: "beacons_ok e"
  obtain clk ti p where x: "x = (clk, ti, p)" by (cases x)
  have n: "beacons_ok (note_beacon (port_pair p) (pk_Timestamp p) e)" by (rule note_beacon_ok [OF ok]) (simp add: port_pair_def)
  have r: "alerts_and_rules_only y (raiseC2BeaconAlert clk ti p m cv y)" for m cv y
    unfolding raiseC2BeaconAlert_def Let_def by (rule raise_only_alerts)
  show ?thesis unfolding x
    using ok n beacons_ok_alerts [OF r frame_max_dests [OF r] n]
    by (simp add: beacon_step_def handleC2Beacon_def Let_def split: option.split prod.split)
qed

interpretation beacon_machine: invariant_machine beacon_step beacons_ok "NewDetector c" for c
proof
  show "beacons_ok (NewDetector c)" by (simp add: beacons_ok_def NewDetector_def mkeys_def)
qed (rule beacon_step_ok)

lemma evict_beacon_limit: "dt_c2BeaconMaxTrackedDests (evictOldestBeacon e) = dt_c2BeaconMaxTrackedDests e"
  by (simp add: evictOldestBeacon_def split: option.split prod.split)

lemma beacon_step_limit: "dt_c2BeaconMaxTrackedDests (beacon_step x e) = dt_c2BeaconMaxTrackedDests e"
proof -
  obtain clk ti p where x: "x = (clk, ti, p)" by (cases x)
  have n: "dt_c2BeaconMaxTrackedDests (note_beacon k t e) = dt_c2BeaconMaxTrackedDests e" for k t
    by (simp add: note_beacon_def Let_def evict_beacon_limit)
  have r: "dt_c2BeaconMaxTrackedDests (raiseC2BeaconAlert clk ti p m cv y) = dt_c2BeaconMaxTrackedDests y" for m cv y
    unfolding raiseC2BeaconAlert_def Let_def by (rule frame_max_dests, rule raise_only_alerts)
  show ?thesis unfolding x by (simp add: beacon_step_def handleC2Beacon_def Let_def n r split: option.split prod.split)
qed

lemma beacon_run_limit: "dt_c2BeaconMaxTrackedDests (fold beacon_step xs e) = dt_c2BeaconMaxTrackedDests e"
  by (induction xs arbitrary: e) (simp_all add: beacon_step_limit)

lemma NewDetector_limit:
  "dt_c2BeaconMaxTrackedDests (NewDetector c) = (if dc_c2BeaconMaxTrackedDests c \<le> 0 then 5000 else dc_c2BeaconMaxTrackedDests c)"
  by (simp add: NewDetector_def)

text \<open>
  Whatever connections are seen, the table of destinations holds no more of them than configured
  (at least one), and no more than 20 instants of each.
\<close>

theorem beacon_table_bounded:
  "int (length (dt_beaconHistory (fold beacon_step xs (NewDetector c)))) \<le> max 1 (dt_c2BeaconMaxTrackedDests (NewDetector c)) \<and>
   (\<forall>(k, ts) \<in> set (dt_beaconHistory (fold beacon_step xs (NewDetector c))). length ts \<le> maxBeaconSamplesPerKey)"
  using beacon_machine.reachable_inv [of xs c] by (simp add: beacons_ok_def beacon_run_limit)

theorem beacon_table_bounded_witness:
  "int (length (dt_beaconHistory (fold beacon_step [(1, None, checkin second)] (NewDetector demo_config)))) \<le> 5000"
  using beacon_table_bounded [of "[(1, None, checkin second)]" demo_config]
  unfolding NewDetector_limit by (simp add: demo_config_def)

end
